(* ===== verification/Prelude.thy ===== *)
theory Prelude
  imports Main "HOL-Library.Multiset" "HOL-Library.List_Lexorder" "HOL-Library.Product_Lexorder"
begin

text \<open>
  Shared vocabulary of the development.

  A Python \<^verbatim>\<open>str\<close> is a list of code points, compared lexicographically as Python does.
  A call that may raise returns a sum: \<^term>\<open>Inl e\<close> is the raised error, \<^term>\<open>Inr v\<close> the
  returned value; \<open>rbind\<close> is sequential composition and \<open>rmap\<close> is a comprehension whose
  body may raise. \<open>is_blank\<close> is \<^verbatim>\<open>not value.strip()\<close>. Python's \<^verbatim>\<open>sorted(xs, key=f)\<close> is
  the library's stable \<^const>\<open>sort_key\<close>; the locale \<open>canonical_order\<close> collects what the
  components need of a sort by a key that identifies its elements.
\<close>

named_theorems res_simps \<open>rewriting of computations that may raise\<close>

section \<open>Python strings\<close>

type_synonym pystr = "nat list"

definition lit :: "string \<Rightarrow> pystr" where
  "lit s = map of_char s"

definition py_isspace :: "nat \<Rightarrow> bool" where
  "py_isspace c \<longleftrightarrow>
     (9 \<le> c \<and> c \<le> 13) \<or> (28 \<le> c \<and> c \<le> 32) \<or> c = 133 \<or> c = 160 \<or> c = 5760 \<or>
     (8192 \<le> c \<and> c \<le> 8202) \<or> c = 8232 \<or> c = 8233 \<or> c = 8239 \<or> c = 8287 \<or> c = 12288"

definition py_strip :: "pystr \<Rightarrow> pystr" where
  "py_strip s = rev (dropWhile py_isspace (rev (dropWhile py_isspace s)))"

definition is_blank :: "pystr \<Rightarrow> bool" where
  "is_blank s \<longleftrightarrow> py_strip s = []"

definition ascii_lower :: "nat \<Rightarrow> nat" where
  "ascii_lower c = (if 65 \<le> c \<and> c \<le> 90 then c + 32 else c)"

lemma lit_eq_iff [simp]: "lit a = lit b \<longleftrightarrow> a = b"
  by (auto simp: lit_def inj_on_def intro: list.inj_map_strong)

lemma lit_Nil_iff [simp]: "lit a = [] \<longleftrightarrow> a = []" "[] = lit a \<longleftrightarrow> a = []"
  by (auto simp: lit_def)

lemma length_lit [simp]: "length (lit s) = length s"
  by (simp add: lit_def)

lemma is_blank_iff: "is_blank s \<longleftrightarrow> (\<forall>c \<in> set s. py_isspace c)"
proof -
  have "is_blank s \<longleftrightarrow> dropWhile py_isspace s = []"
  proof
    assume "is_blank s"
    then have "\<forall>c \<in> set (dropWhile py_isspace s). py_isspace c"
      by (simp add: is_blank_def py_strip_def dropWhile_eq_Nil_conv)
    then show "dropWhile py_isspace s = []"
      using hd_dropWhile hd_in_set by blast
  qed (auto simp: is_blank_def py_strip_def dest: set_dropWhileD)
  then show ?thesis by (simp add: dropWhile_eq_Nil_conv)
qed

lemma is_blank_Nil [simp]: "is_blank []"
  by (simp add: is_blank_iff)

lemma is_blank_append: "is_blank (s @ t) \<longleftrightarrow> is_blank s \<and> is_blank t"
  by (auto simp: is_blank_iff)

lemma is_blank_Cons: "is_blank (c # s) \<longleftrightarrow> py_isspace c \<and> is_blank s"
  by (auto simp: is_blank_iff)

section \<open>Computations that may raise\<close>

definition rbind :: "'e + 'a \<Rightarrow> ('a \<Rightarrow> 'e + 'b) \<Rightarrow> 'e + 'b" where
  "rbind m f = (case m of Inl e \<Rightarrow> Inl e | Inr a \<Rightarrow> f a)"

fun rmap :: "('a \<Rightarrow> 'e + 'b) \<Rightarrow> 'a list \<Rightarrow> 'e + 'b list" where
  "rmap f [] = Inr []"
| "rmap f (x # xs) = rbind (f x) (\<lambda>y. rbind (rmap f xs) (\<lambda>ys. Inr (y # ys)))"

definition is_ok :: "'e + 'a \<Rightarrow> bool" where
  "is_ok r \<longleftrightarrow> (case r of Inl _ \<Rightarrow> False | Inr _ \<Rightarrow> True)"

lemma is_ok_simps [simp]: "is_ok (Inr a)" "\<not> is_ok (Inl e)"
  by (simp_all add: is_ok_def)

lemma rbind_simps [simp, res_simps]:
  "rbind (Inl e) f = Inl e"
  "rbind (Inr a) f = f a"
  by (simp_all add: rbind_def)

lemma rbind_eq_Inr [res_simps]: "rbind m f = Inr b \<longleftrightarrow> (\<exists>a. m = Inr a \<and> f a = Inr b)"
  by (cases m) auto

lemma rbind_eq_Inl: "rbind m f = Inl e \<longleftrightarrow> m = Inl e \<or> (\<exists>a. m = Inr a \<and> f a = Inl e)"
  by (cases m) auto

lemma rbind_cong [fundef_cong]:
  "m = m' \<Longrightarrow> (\<And>a. m' = Inr a \<Longrightarrow> f a = g a) \<Longrightarrow> rbind m f = rbind m' g"
  by (cases m') auto

lemma if_Inl_eq_Inr [res_simps]:
  "(if c then Inl e else r) = Inr v \<longleftrightarrow> \<not> c \<and> r = Inr v"
  "(if c then r else Inl e) = Inr v \<longleftrightarrow> c \<and> r = Inr v"
  by auto

lemma rmap_eq_Inr: "rmap f xs = Inr ys \<longleftrightarrow> list_all2 (\<lambda>x y. f x = Inr y) xs ys"
  by (induction xs arbitrary: ys) (auto simp: rbind_eq_Inr list_all2_Cons1)

lemma rmap_Inr_length: "rmap f xs = Inr ys \<Longrightarrow> length ys = length xs"
  by (auto simp: rmap_eq_Inr dest: list_all2_lengthD)

lemma rmap_Inr_map: "(\<And>x. x \<in> set xs \<Longrightarrow> f x = Inr (g x)) \<Longrightarrow> rmap f xs = Inr (map g xs)"
  by (induction xs) auto

lemma rmap_Inr_in: "rmap f xs = Inr ys \<Longrightarrow> y \<in> set ys \<Longrightarrow> \<exists>x \<in> set xs. f x = Inr y"
  by (force simp: rmap_eq_Inr list_all2_conv_all_nth in_set_conv_nth)

lemma rmap_Inr_in_dom: "rmap f xs = Inr ys \<Longrightarrow> x \<in> set xs \<Longrightarrow> \<exists>y \<in> set ys. f x = Inr y"
  by (force simp: rmap_eq_Inr list_all2_conv_all_nth in_set_conv_nth)

lemma rmap_eq_Inl: "rmap f xs = Inl e \<Longrightarrow> \<exists>x \<in> set xs. f x = Inl e"
  by (induction xs) (auto simp: rbind_eq_Inl)

lemma rmap_cong [fundef_cong]:
  "xs = ys \<Longrightarrow> (\<And>x. x \<in> set ys \<Longrightarrow> f x = g x) \<Longrightarrow> rmap f xs = rmap g ys"
  by (induction xs arbitrary: ys) auto

lemma rmap_Inr_mset:
  assumes "rmap f xs = Inr ys" "mset xs' = mset xs"
  shows "\<exists>ys'. rmap f xs' = Inr ys' \<and> mset ys' = mset ys"
proof -
  let ?g = "\<lambda>x. projr (f x)"
  have ok: "f x = Inr (?g x)" if "x \<in> set xs" for x
    using rmap_Inr_in_dom [OF assms(1) that] by auto
  from ok have ys: "ys = map ?g xs"
    using rmap_Inr_map [of xs f ?g] assms(1) by simp
  have "set xs' = set xs"
    using assms(2) by (metis set_mset_mset)
  with ok have "rmap f xs' = Inr (map ?g xs')"
    by (intro rmap_Inr_map) auto
  with ys assms(2) show ?thesis by auto
qed

section \<open>Sorting by a key that identifies its elements\<close>

text \<open>
  \<^verbatim>\<open>sorted(xs, key=f)\<close> on a sequence whose keys are pairwise different: the result depends
  only on which elements are present, not on the order they arrive in.
\<close>

locale canonical_order =
  fixes key :: "'a \<Rightarrow> 'k::linorder"
begin

lemma canon_idem: "sort_key key (sort_key key xs) = sort_key key xs"
  by (simp add: sort_key_id_if_sorted)

lemma canon_distinct: "distinct (map key (sort_key key xs)) \<longleftrightarrow> distinct (map key xs)"
  by (metis mset_eq_imp_distinct_iff mset_map mset_sort)

lemma canon_perm:
  assumes "distinct (map key xs)" "mset xs = mset ys"
  shows "sort_key key xs = sort_key key ys"
proof (rule sort_key_inj_key_eq)
  show "mset xs = mset (sort_key key ys)"
    using assms(2) by simp
  show "inj_on key (set xs)"
    using assms(1) by (simp add: distinct_map)
qed simp

lemma canon_strict:
  assumes "distinct (map key xs)"
  shows "sorted_wrt (<) (map key (sort_key key xs))"
  using assms by (simp add: strict_sorted_iff canon_distinct)

lemma canon_unique:
  assumes "sorted_wrt (<) (map key xs)" "mset xs = mset ys"
  shows "sort_key key ys = xs"
  using assms canon_perm [of xs ys] by (simp add: strict_sorted_iff sort_key_id_if_sorted)

end

section \<open>Lists\<close>

lemma sort_key_map_cong:
  "(\<And>x. x \<in> set xs \<Longrightarrow> f x = g x) \<Longrightarrow> sort_key f xs = sort_key g xs"
proof (induction xs)
  case (Cons x xs)
  have "insort_key f x ys = insort_key g x ys" if "set ys \<subseteq> set xs" for ys
    using that Cons.prems by (induction ys) auto
  then have "insort_key f x (sort_key f xs) = insort_key g x (sort_key f xs)"
    by simp
  with Cons show ?case by simp
qed simp

end
