(* ===== verification/Float64.thy ===== *)
theory Float64
  imports Prelude "HOL-Library.Word" "HOL-Library.Log_Nat"
begin

text \<open>
  Python's \<^verbatim>\<open>float\<close>: IEEE-754 binary64 with round-to-nearest-even.

  A value is its sign, its 11-bit biased exponent and its 52-bit fraction, so every bit
  pattern is a value and no well-formedness side condition is needed. \<open>fval\<close> reads a value
  as an exact rational; an infinity reads as plus or minus 2^1024, which places it correctly
  against every finite value. Each arithmetic operation computes the exact rational result
  and rounds it once (\<open>fround\<close>); Python raises \<^verbatim>\<open>ZeroDivisionError\<close> on division by zero
  and returns infinities and NaNs elsewhere.
\<close>

named_theorems float_simps \<open>classification and sign of floating-point results\<close>

section \<open>Representation\<close>

datatype f64 = F64 (fsign: bool) (fexp: "11 word") (fman: "52 word")

definition fsig :: "f64 \<Rightarrow> int" where
  "fsig x = (if fexp x = 0 then uint (fman x) else 2 ^ 52 + uint (fman x))"

definition fexpo :: "f64 \<Rightarrow> int" where
  "fexpo x = (if fexp x = 0 then -1074 else uint (fexp x) - 1075)"

definition fmag :: "f64 \<Rightarrow> rat" where
  "fmag x = of_int (fsig x) * 2 powi fexpo x"

definition fval :: "f64 \<Rightarrow> rat" where
  "fval x = (if fsign x then - fmag x else fmag x)"

definition isfinite :: "f64 \<Rightarrow> bool" where
  "isfinite x \<longleftrightarrow> fexp x \<noteq> 2047"

definition isnan :: "f64 \<Rightarrow> bool" where
  "isnan x \<longleftrightarrow> fexp x = 2047 \<and> fman x \<noteq> 0"

definition isinf :: "f64 \<Rightarrow> bool" where
  "isinf x \<longleftrightarrow> fexp x = 2047 \<and> fman x = 0"

definition iszero :: "f64 \<Rightarrow> bool" where
  "iszero x \<longleftrightarrow> fexp x = 0 \<and> fman x = 0"

definition fzero :: "bool \<Rightarrow> f64" where
  "fzero s = F64 s 0 0"

definition finf :: "bool \<Rightarrow> f64" where
  "finf s = F64 s 2047 0"

definition fnan :: f64 where
  "fnan = F64 False 2047 (2 ^ 51)"

section \<open>Comparison\<close>

definition feq :: "f64 \<Rightarrow> f64 \<Rightarrow> bool" where
  "feq x y \<longleftrightarrow> \<not> isnan x \<and> \<not> isnan y \<and> fval x = fval y"

definition flt :: "f64 \<Rightarrow> f64 \<Rightarrow> bool" where
  "flt x y \<longleftrightarrow> \<not> isnan x \<and> \<not> isnan y \<and> fval x < fval y"

definition fle :: "f64 \<Rightarrow> f64 \<Rightarrow> bool" where
  "fle x y \<longleftrightarrow> \<not> isnan x \<and> \<not> isnan y \<and> fval x \<le> fval y"

text \<open>\<^verbatim>\<open>max(a, b)\<close> keeps the earlier argument unless the later one compares greater.\<close>

definition fmax :: "f64 \<Rightarrow> f64 \<Rightarrow> f64" where
  "fmax x y = (if flt x y then y else x)"

section \<open>Rounding\<close>

definition ilog2 :: "rat \<Rightarrow> int" where
  "ilog2 q = (let (a, b) = quotient_of q; k = bitlen a - bitlen b
              in if q < 2 powi k then k - 1 else k)"

definition rnd_even :: "rat \<Rightarrow> int" where
  "rnd_even x = (let f = \<lfloor>x\<rfloor>; d = x - of_int f
                 in if d < 1 / 2 then f else if 1 / 2 < d then f + 1
                    else if even f then f else f + 1)"

definition pack :: "bool \<Rightarrow> int \<Rightarrow> int \<Rightarrow> f64" where
  "pack s m e =
     (if m < 2 ^ 52 then F64 s 0 (of_int m)
      else if m < 2 ^ 53 then
        (if 2047 \<le> e + 1075 then finf s else F64 s (of_int (e + 1075)) (of_int (m - 2 ^ 52)))
      else (if 2047 \<le> e + 1076 then finf s else F64 s (of_int (e + 1076)) 0))"

definition fround :: "bool \<Rightarrow> rat \<Rightarrow> f64" where
  "fround s q =
     (if q = 0 then fzero s
      else let e = max (-1074) (ilog2 q - 52) in pack s (rnd_even (q / 2 powi e)) e)"

section \<open>Arithmetic\<close>

definition fneg :: "f64 \<Rightarrow> f64" where
  "fneg x = F64 (\<not> fsign x) (fexp x) (fman x)"

definition fabs :: "f64 \<Rightarrow> f64" where
  "fabs x = F64 False (fexp x) (fman x)"

definition fadd :: "f64 \<Rightarrow> f64 \<Rightarrow> f64" where
  "fadd x y =
     (if isnan x \<or> isnan y \<or> (isinf x \<and> isinf y \<and> fsign x \<noteq> fsign y) then fnan
      else if isinf x then x
      else if isinf y then y
      else let r = fval x + fval y in
        if r = 0 then fzero (fsign x \<and> fsign y) else fround (r < 0) \<bar>r\<bar>)"

definition fsub :: "f64 \<Rightarrow> f64 \<Rightarrow> f64" where
  "fsub x y = fadd x (fneg y)"

definition fmul :: "f64 \<Rightarrow> f64 \<Rightarrow> f64" where
  "fmul x y =
     (if isnan x \<or> isnan y \<or> (isinf x \<and> iszero y) \<or> (iszero x \<and> isinf y) then fnan
      else if isinf x \<or> isinf y then finf (fsign x \<noteq> fsign y)
      else fround (fsign x \<noteq> fsign y) (fmag x * fmag y))"

definition fdiv :: "f64 \<Rightarrow> f64 \<Rightarrow> f64 option" where
  "fdiv x y =
     (if iszero y then None
      else if isnan x \<or> isnan y \<or> (isinf x \<and> isinf y) then Some fnan
      else if isinf x then Some (finf (fsign x \<noteq> fsign y))
      else if isinf y then Some (fzero (fsign x \<noteq> fsign y))
      else Some (fround (fsign x \<noteq> fsign y) (fmag x / fmag y)))"

text \<open>\<^verbatim>\<open>float(i)\<close> of an \<^verbatim>\<open>int\<close>: \<^term>\<open>None\<close> is \<^verbatim>\<open>OverflowError\<close>.\<close>

definition float_of_int :: "int \<Rightarrow> f64 option" where
  "float_of_int i = (let x = fround (i < 0) \<bar>of_int i\<bar> in if isinf x then None else Some x)"

definition float_one :: f64 where
  "float_one = F64 False 1023 0"

definition float_two :: f64 where
  "float_two = F64 False 1024 0"

text \<open>The literal \<^verbatim>\<open>1.4826\<close>, \<^verbatim>\<open>0x1.7b8bac710cb29p+0\<close>.\<close>

definition float_1_4826 :: f64 where
  "float_1_4826 = F64 False 1023 2173437180169001"

section \<open>Classification\<close>

lemma fclass_simps [simp, float_simps]:
  "isfinite (fzero s)" "\<not> isnan (fzero s)" "\<not> isinf (fzero s)" "iszero (fzero s)"
  "\<not> isfinite (finf s)" "\<not> isnan (finf s)" "isinf (finf s)" "\<not> iszero (finf s)"
  "isnan fnan" "\<not> isfinite fnan" "fsign (fzero s) = s" "fsign (finf s) = s"
  by (simp_all add: isfinite_def isnan_def isinf_def iszero_def fzero_def finf_def fnan_def)

lemma isfinite_cases: "isfinite x \<longleftrightarrow> \<not> isnan x \<and> \<not> isinf x"
  by (auto simp: isfinite_def isnan_def isinf_def)

lemma isfinite_not_nan [simp]: "isfinite x \<Longrightarrow> \<not> isnan x"
  and isfinite_not_inf [simp]: "isfinite x \<Longrightarrow> \<not> isinf x"
  by (auto simp: isfinite_cases)

lemma fabs_simps [simp, float_simps]:
  "isfinite (fabs x) = isfinite x" "isnan (fabs x) = isnan x" "isinf (fabs x) = isinf x"
  "fsign (fabs x) = False" "fmag (fabs x) = fmag x" "fabs (fabs x) = fabs x"
  by (simp_all add: fabs_def isfinite_def isnan_def isinf_def fmag_def fsig_def fexpo_def)

lemma fneg_simps [simp, float_simps]:
  "isfinite (fneg x) = isfinite x" "isnan (fneg x) = isnan x" "isinf (fneg x) = isinf x"
  "fsign (fneg x) = (\<not> fsign x)" "fmag (fneg x) = fmag x"
  by (simp_all add: fneg_def isfinite_def isnan_def isinf_def fmag_def fsig_def fexpo_def)

lemma fsig_bounds: "0 \<le> fsig x" "fsig x \<le> 2 ^ 53 - 1"
proof -
  have "uint (fman x) < 2 ^ 52"
    using uint_lt2p [of "fman x"] by simp
  then show "0 \<le> fsig x" "fsig x \<le> 2 ^ 53 - 1"
    by (simp_all add: fsig_def)
qed

lemma fsig_zero_iff: "fsig x = 0 \<longleftrightarrow> iszero x"
proof -
  have "0 \<le> uint (fman x)" by simp
  then have "2 ^ 52 + uint (fman x) \<noteq> 0" by (simp add: add_nonneg_eq_0_iff)
  then show ?thesis
    by (simp add: fsig_def iszero_def uint_0_iff)
qed

lemma fexpo_lower: "-1074 \<le> fexpo x"
proof -
  have "fexp x \<noteq> 0 \<Longrightarrow> 1 \<le> uint (fexp x)"
    using uint_0_iff [of "fexp x"] uint_ge_0 [of "fexp x"] by linarith
  then show ?thesis by (simp add: fexpo_def)
qed

lemma fexpo_upper: "isfinite x \<Longrightarrow> fexpo x \<le> 971"
proof -
  assume "isfinite x"
  then have "uint (fexp x) \<noteq> 2047"
    using word_uint_eqI [of "fexp x" 2047] by (auto simp: isfinite_def)
  with uint_lt2p [of "fexp x"] show ?thesis by (simp add: fexpo_def)
qed

lemma fmag_nonneg [simp]: "0 \<le> fmag x"
  by (simp add: fmag_def fsig_bounds)

lemma fmag_zero_iff: "fmag x = 0 \<longleftrightarrow> iszero x"
  by (simp add: fmag_def fsig_zero_iff)

lemma fmag_zero [simp]: "fmag (fzero s) = 0"
  by (simp add: fmag_zero_iff)

lemma fval_zero [simp]: "fval (fzero s) = 0"
  by (simp add: fval_def)

lemma fval_zero_iff: "fval x = 0 \<longleftrightarrow> iszero x"
  by (simp add: fval_def fmag_zero_iff)

lemma isnan_not_zero: "isnan x \<Longrightarrow> fval x \<noteq> 0"
  by (simp add: fval_zero_iff isnan_def iszero_def)

lemma fval_fabs [simp]: "fval (fabs x) = \<bar>fval x\<bar>"
  by (simp add: fval_def)

lemma fval_fneg [simp]: "fval (fneg x) = - fval x"
  by (simp add: fval_def)

lemma abs_fval [simp]: "\<bar>fval x\<bar> = fmag x"
  by (simp add: fval_def)

lemma fval_pos_sign: "0 < fval x \<Longrightarrow> \<not> fsign x"
  using fmag_nonneg [of x] by (auto simp: fval_def simp del: fmag_nonneg split: if_splits)

lemma fval_neg_sign: "fval x < 0 \<Longrightarrow> fsign x"
  using fmag_nonneg [of x] by (auto simp: fval_def simp del: fmag_nonneg split: if_splits)

lemma feq_refl [simp]: "isfinite x \<Longrightarrow> feq x x"
  by (simp add: feq_def)

lemma fmag_finite_le: "isfinite x \<Longrightarrow> fmag x \<le> of_int (2 ^ 53 - 1) * 2 powi 971"
  unfolding fmag_def
proof (rule mult_mono)
  show "of_int (fsig x) \<le> (of_int (2 ^ 53 - 1) :: rat)"
    using fsig_bounds(2) [of x] by (simp only: of_int_le_iff)
  show "isfinite x \<Longrightarrow> (2 :: rat) powi fexpo x \<le> 2 powi 971"
    by (intro power_int_increasing) (auto simp: fexpo_upper)
qed (auto simp: fsig_bounds)

section \<open>Rounding to an integer\<close>

lemma rnd_even_bounds: "of_int (rnd_even x) \<le> x + 1 / 2" "x - 1 / 2 \<le> of_int (rnd_even x)"
  using floor_correct [of x] by (auto simp: rnd_even_def Let_def; linarith)+

lemma rnd_even_of_int [simp]: "rnd_even (of_int n) = n"
  by (simp add: rnd_even_def)

lemma rnd_even_upper: "x \<le> of_int n \<Longrightarrow> rnd_even x \<le> n"
proof -
  assume x: "x \<le> of_int n"
  show ?thesis
  proof (cases "x = of_int n")
    case False
    with x have "\<lfloor>x\<rfloor> < n" by (simp add: floor_less_iff)
    then show ?thesis by (auto simp: rnd_even_def Let_def)
  qed simp
qed

lemma rnd_even_lower: "of_int n \<le> x \<Longrightarrow> n \<le> rnd_even x"
  using le_floor_iff [of n x] by (auto simp: rnd_even_def Let_def)

lemma rnd_even_mono: "x \<le> y \<Longrightarrow> rnd_even x \<le> rnd_even y"
proof -
  assume xy: "x \<le> y"
  show ?thesis
  proof (cases "\<lfloor>x\<rfloor> = \<lfloor>y\<rfloor>")
    case True
    with xy show ?thesis by (auto simp: rnd_even_def Let_def)
  next
    case False
    with xy have "\<lfloor>x\<rfloor> + 1 \<le> \<lfloor>y\<rfloor>"
      using floor_mono [OF xy] by simp
    moreover have "rnd_even x \<le> \<lfloor>x\<rfloor> + 1" "\<lfloor>y\<rfloor> \<le> rnd_even y"
      by (auto simp: rnd_even_def Let_def)
    ultimately show ?thesis by simp
  qed
qed

section \<open>The binary logarithm\<close>

lemma bitlen_powi:
  assumes "0 < (a :: int)"
  shows "(2 :: rat) powi (bitlen a - 1) \<le> of_int a" "of_int a < (2 :: rat) powi bitlen a"
proof -
  have k: "0 < bitlen a" using assms by (simp add: bitlen_eq_zero_iff bitlen_nonneg order_less_le)
  have b: "2 ^ nat (bitlen a - 1) \<le> a" "a < 2 ^ nat (bitlen a)"
    using bitlen_bounds [OF assms] by auto
  have "of_int (2 ^ nat (bitlen a - 1)) \<le> (of_int a :: rat)"
    "of_int a < (of_int (2 ^ nat (bitlen a)) :: rat)"
    using b by (simp_all only: of_int_le_iff of_int_less_iff)
  with k show "(2 :: rat) powi (bitlen a - 1) \<le> of_int a" "of_int a < (2 :: rat) powi bitlen a"
    by (simp_all add: power_int_def)
qed

lemma ilog2_bounds:
  assumes "0 < q"
  shows "2 powi ilog2 q \<le> q" "q < 2 powi (ilog2 q + 1)"
proof -
  obtain a b where q: "quotient_of q = (a, b)" by (cases "quotient_of q")
  have qe: "q = of_int a / of_int b" and b: "0 < b"
    using quotient_of_div [OF q] quotient_of_denom_pos [OF q] by simp_all
  have a: "0 < a" using assms qe b by (simp add: zero_less_divide_iff)
  let ?k = "bitlen a - bitlen b"
  have lo: "(2 :: rat) powi (?k - 1) \<le> q"
  proof -
    have "(2 :: rat) powi (?k - 1) = 2 powi (bitlen a - 1) / 2 powi bitlen b"
      by (simp add: algebra_simps flip: power_int_diff)
    also have "\<dots> \<le> of_int a / of_int b"
      using bitlen_powi [OF a] bitlen_powi [OF b] a b by (intro frac_le) auto
    finally show ?thesis by (simp add: qe)
  qed
  have hi: "q < (2 :: rat) powi (?k + 1)"
  proof -
    have "of_int a / of_int b < (2 :: rat) powi bitlen a / 2 powi (bitlen b - 1)"
      using bitlen_powi [OF a] bitlen_powi [OF b] a by (intro frac_less) auto
    also have "\<dots> = 2 powi (?k + 1)"
      by (simp add: algebra_simps flip: power_int_diff)
    finally show ?thesis by (simp add: qe)
  qed
  show "2 powi ilog2 q \<le> q" "q < 2 powi (ilog2 q + 1)"
    using lo hi by (auto simp: ilog2_def q Let_def)
qed

lemma ilog2_mono: "0 < q \<Longrightarrow> q \<le> r \<Longrightarrow> ilog2 q \<le> ilog2 r"
proof -
  assume q: "0 < q" and qr: "q \<le> r"
  have "(2 :: rat) powi ilog2 q < 2 powi (ilog2 r + 1)"
    using ilog2_bounds(1) [OF q] ilog2_bounds(2) [of r] q qr by simp
  then have "ilog2 q < ilog2 r + 1"
    by (metis linorder_not_le one_le_numeral power_int_increasing)
  then show ?thesis by simp
qed

section \<open>Rounding to a float\<close>

lemma uint_of_int_52: "0 \<le> m \<Longrightarrow> m < 2 ^ 52 \<Longrightarrow> uint (of_int m :: 52 word) = m"
  by (simp add: uint_word_of_int_eq take_bit_int_eq_self)

lemma uint_of_int_11: "0 \<le> m \<Longrightarrow> m < 2 ^ 11 \<Longrightarrow> uint (of_int m :: 11 word) = m"
  by (simp add: uint_word_of_int_eq take_bit_int_eq_self)

lemma of_int_11_neq:
  "0 < m \<Longrightarrow> m < 2047 \<Longrightarrow> (of_int m :: 11 word) \<noteq> 0 \<and> (of_int m :: 11 word) \<noteq> 2047"
  using uint_of_int_11 [of m] by auto

lemma fsign_pack [simp]: "fsign (pack s m e) = s"
  by (simp add: pack_def)

lemma not_isnan_pack: "\<not> isnan (pack s m e)" if "-1074 \<le> e"
proof (cases "m < 2 ^ 52")
  case True
  then show ?thesis by (simp add: pack_def isnan_def)
next
  case False
  with that of_int_11_neq [of "e + 1075"] of_int_11_neq [of "e + 1076"] show ?thesis
    by (auto simp: pack_def isnan_def finf_def)
qed

lemma pack_exact:
  assumes "0 \<le> m" "m \<le> 2 ^ 53" "-1074 \<le> e" "m < 2 ^ 52 \<Longrightarrow> e = -1074"
    and "e \<le> 970 \<or> e = 971 \<and> m < 2 ^ 53"
  shows "isfinite (pack s m e)" "fmag (pack s m e) = of_int m * 2 powi e"
proof -
  consider (sub) "m < 2 ^ 52" | (norm) "2 ^ 52 \<le> m" "m < 2 ^ 53" | (carry) "m = 2 ^ 53"
    using assms(2) by linarith
  then have "isfinite (pack s m e) \<and> fmag (pack s m e) = of_int m * 2 powi e"
  proof cases
    case sub
    with assms show ?thesis
      by (simp add: pack_def isfinite_def fmag_def fsig_def fexpo_def uint_of_int_52)
  next
    case norm
    then have "0 \<le> m - 2 ^ 52" "m - 2 ^ 52 < 2 ^ 52" by simp_all
    note man = uint_of_int_52 [OF this]
    have p: "pack s m e = F64 s (of_int (e + 1075)) (of_int (m - 2 ^ 52))"
      using norm assms by (auto simp: pack_def)
    have ex: "0 < e + 1075" "e + 1075 < 2047" using assms by auto
    note neq = of_int_11_neq [OF ex]
    have "uint (of_int (e + 1075) :: 11 word) = e + 1075"
      using ex by (intro uint_of_int_11) simp_all
    with neq have "fexpo (pack s m e) = e"
      unfolding p fexpo_def f64.sel by simp
    moreover have "fsig (pack s m e) = m"
      using neq unfolding p fsig_def f64.sel man by simp
    ultimately show ?thesis
      using neq by (simp add: fmag_def isfinite_def p)
  next
    case carry
    have "(2 :: rat) ^ 53 * 2 powi e = 2 ^ 52 * 2 powi (1 + e)"
      by (simp add: power_int_add)
    with carry assms of_int_11_neq [of "e + 1076"] uint_of_int_11 [of "e + 1076"]
    show ?thesis by (auto simp: pack_def isfinite_def fmag_def fsig_def fexpo_def)
  qed
  then show "isfinite (pack s m e)" "fmag (pack s m e) = of_int m * 2 powi e" by auto
qed

text \<open>The unit in the last place of a positive rational, as a power of two.\<close>

definition fulp :: "rat \<Rightarrow> int" where
  "fulp q = max (-1074) (ilog2 q - 52)"

lemma fround_fulp: "fround s q = (if q = 0 then fzero s else pack s (rnd_even (q / 2 powi fulp q)) (fulp q))"
  by (simp add: fround_def fulp_def Let_def)

lemma fulp_lower [simp]: "-1074 \<le> fulp q"
  by (simp add: fulp_def)

lemma fsign_fround [simp, float_simps]: "fsign (fround s q) = s"
  by (simp add: fround_fulp)

lemma not_isnan_fround [simp, float_simps]: "\<not> isnan (fround s q)"
  by (simp add: fround_fulp not_isnan_pack)

lemma fulp_mono: "0 < q \<Longrightarrow> q \<le> r \<Longrightarrow> fulp q \<le> fulp r"
  using ilog2_mono [of q r] by (auto simp: fulp_def)

lemma fulp_scaled:
  assumes "0 < q"
  shows "q / 2 powi fulp q < 2 ^ 53" "fulp q \<noteq> -1074 \<Longrightarrow> 2 ^ 52 \<le> q / 2 powi fulp q"
proof -
  have "ilog2 q + 1 \<le> 53 + fulp q" by (simp add: fulp_def)
  then have "(2 :: rat) powi (ilog2 q + 1) \<le> 2 powi (53 + fulp q)"
    by (intro power_int_increasing) auto
  with ilog2_bounds(2) [OF assms] have "q < 2 powi (53 + fulp q)" by linarith
  then show "q / 2 powi fulp q < 2 ^ 53"
    by (simp add: power_int_add divide_less_eq)
  assume "fulp q \<noteq> -1074"
  then have "ilog2 q = 52 + fulp q" by (auto simp: fulp_def split: if_splits)
  then have "2 powi (52 + fulp q) \<le> q"
    using ilog2_bounds(1) [OF assms] by simp
  then show "2 ^ 52 \<le> q / 2 powi fulp q"
    by (simp add: power_int_add le_divide_eq)
qed

lemma rnd_even_fulp:
  assumes "0 < q"
  shows "0 \<le> rnd_even (q / 2 powi fulp q)" "rnd_even (q / 2 powi fulp q) \<le> 2 ^ 53"
    "fulp q \<noteq> -1074 \<Longrightarrow> 2 ^ 52 \<le> rnd_even (q / 2 powi fulp q)"
  using assms fulp_scaled [OF assms]
  by (auto intro!: rnd_even_lower rnd_even_upper)

abbreviation max_finite :: rat where
  "max_finite \<equiv> of_int (2 ^ 53 - 1) * 2 powi 971"

lemma fulp_max_finite:
  assumes "0 < q" "q \<le> max_finite"
  shows "fulp q \<le> 970 \<or> fulp q = 971 \<and> rnd_even (q / 2 powi fulp q) < 2 ^ 53"
proof -
  have "max_finite < 2 powi (53 + 971)"
    by (simp add: power_int_add)
  then have "(2 :: rat) powi ilog2 q < 2 powi 1024"
    using ilog2_bounds(1) [OF assms(1)] assms(2) by simp
  then have "ilog2 q < 1024"
    by (metis linorder_not_le one_le_numeral power_int_increasing)
  then have "fulp q \<le> 971" by (simp add: fulp_def)
  moreover have "rnd_even (q / 2 powi fulp q) \<le> 2 ^ 53 - 1" if "fulp q = 971"
    using assms(2) that by (intro rnd_even_upper) (simp add: divide_le_eq)
  ultimately show ?thesis by force
qed

lemma fround_exact_value:
  assumes "0 \<le> q" "q \<le> max_finite"
  shows "isfinite (fround s q)"
    "fmag (fround s q) = (if q = 0 then 0 else of_int (rnd_even (q / 2 powi fulp q)) * 2 powi fulp q)"
proof -
  have "isfinite (fround s q) \<and> fmag (fround s q) =
     (if q = 0 then 0 else of_int (rnd_even (q / 2 powi fulp q)) * 2 powi fulp q)"
  proof (cases "q = 0")
    case False
    with assms have q: "0 < q" by simp
    show ?thesis
      using pack_exact [of "rnd_even (q / 2 powi fulp q)" "fulp q" s] rnd_even_fulp [OF q]
        fulp_max_finite [OF q assms(2)] False
      by (force simp: fround_fulp)
  qed (simp add: fround_fulp)
  then show "isfinite (fround s q)" "fmag (fround s q) =
     (if q = 0 then 0 else of_int (rnd_even (q / 2 powi fulp q)) * 2 powi fulp q)" by auto
qed

lemma fround_mono:
  assumes "0 \<le> q" "q \<le> r" "r \<le> max_finite"
  shows "fmag (fround s q) \<le> fmag (fround t r)"
proof (cases "q = 0")
  case True
  then show ?thesis by (simp add: fround_fulp)
next
  case False
  with assms have q: "0 < q" and r: "0 < r" by simp_all
  have val: "fmag (fround s q) = of_int (rnd_even (q / 2 powi fulp q)) * 2 powi fulp q"
    "fmag (fround t r) = of_int (rnd_even (r / 2 powi fulp r)) * 2 powi fulp r"
    using assms q r by (simp_all add: fround_exact_value)
  show ?thesis
  proof (cases "fulp q = fulp r")
    case True
    then show ?thesis
      using assms(2) unfolding val by (simp add: rnd_even_mono divide_right_mono)
  next
    case False
    then have lt: "fulp q + 1 \<le> fulp r" using fulp_mono [OF q assms(2)] by simp
    have "of_int (rnd_even (q / 2 powi fulp q)) * 2 powi fulp q \<le> of_int (2 ^ 53) * (2 :: rat) powi fulp q"
      using rnd_even_fulp(2) [OF q] by (intro mult_right_mono) (simp_all only: of_int_le_iff, simp)
    also have "\<dots> = of_int (2 ^ 52) * 2 powi (fulp q + 1)"
      by (simp add: power_int_add)
    also have "\<dots> \<le> of_int (rnd_even (r / 2 powi fulp r)) * 2 powi fulp r"
    proof (rule mult_mono)
      have "fulp r \<noteq> -1074" using lt fulp_lower [of q] by linarith
      from rnd_even_fulp(3) [OF r this]
      show "of_int (2 ^ 52) \<le> (of_int (rnd_even (r / 2 powi fulp r)) :: rat)"
        by (simp only: of_int_le_iff)
      show "(2 :: rat) powi (fulp q + 1) \<le> 2 powi fulp r"
        using lt by (intro power_int_increasing) auto
    qed (simp_all add: rnd_even_fulp [OF r])
    finally show ?thesis by (simp add: val)
  qed
qed

lemma powi_split: "a \<le> b \<Longrightarrow> (2 :: rat) powi b = 2 ^ nat (b - a) * 2 powi a"
  using power_int_add [of "2 :: rat" "b - a" a] by (simp add: power_int_def)

lemma fmag_scaled:
  "e \<le> fexpo x \<Longrightarrow> fmag x / 2 powi e = of_int (fsig x * 2 ^ nat (fexpo x - e))"
  using powi_split [of e "fexpo x"] by (simp add: fmag_def)

lemma fround_fmag [simp]:
  assumes "isfinite x"
  shows "fmag (fround s (fmag x)) = fmag x"
proof (cases "fmag x = 0")
  case True
  then show ?thesis by (simp add: fround_fulp)
next
  case False
  then have pos: "0 < fmag x" using fmag_nonneg [of x] by linarith
  have "fulp (fmag x) \<le> fexpo x"
  proof (rule ccontr)
    assume "\<not> ?thesis"
    then have lt: "fexpo x + 1 \<le> fulp (fmag x)" by simp
    then have "fulp (fmag x) \<noteq> -1074" using fexpo_lower [of x] by simp
    then have "2 ^ 52 * 2 powi fulp (fmag x) \<le> fmag x"
      using fulp_scaled(2) [OF pos] by (simp add: le_divide_eq)
    moreover have "2 ^ 52 * 2 powi (fexpo x + 1) \<le> 2 ^ 52 * (2 :: rat) powi fulp (fmag x)"
      using lt by (intro mult_left_mono power_int_increasing) auto
    moreover have "fmag x < 2 ^ 53 * 2 powi fexpo x"
    proof -
      have "of_int (fsig x) \<le> (of_int (2 ^ 53 - 1) :: rat)"
        using fsig_bounds(2) [of x] by (simp only: of_int_le_iff)
      then show ?thesis by (simp add: fmag_def)
    qed
    ultimately show False by (simp add: power_int_add)
  qed
  then have "fmag x / 2 powi fulp (fmag x) = of_int (fsig x * 2 ^ nat (fexpo x - fulp (fmag x)))"
    by (simp add: fmag_scaled)
  then have "rnd_even (fmag x / 2 powi fulp (fmag x)) = fsig x * 2 ^ nat (fexpo x - fulp (fmag x))"
    by (metis rnd_even_of_int)
  with False fround_exact_value(2) [of "fmag x" s] fmag_finite_le [OF assms]
    \<open>fmag x / _ = _\<close> show ?thesis
    by (metis fmag_nonneg nonzero_eq_divide_eq power_int_not_zero zero_neq_numeral)
qed


section \<open>Signs and bounds of arithmetic results\<close>

lemma flt_finite: "isfinite x \<Longrightarrow> isfinite y \<Longrightarrow> flt x y \<longleftrightarrow> fval x < fval y"
  by (simp add: flt_def)

lemma fle_finite: "isfinite x \<Longrightarrow> isfinite y \<Longrightarrow> fle x y \<longleftrightarrow> fval x \<le> fval y"
  by (simp add: fle_def)

lemma feq_finite: "isfinite x \<Longrightarrow> isfinite y \<Longrightarrow> feq x y \<longleftrightarrow> fval x = fval y"
  by (simp add: feq_def)

lemma fval_fround_sign: "0 < fval (fround s q) \<Longrightarrow> \<not> s" "fval (fround s q) < 0 \<Longrightarrow> s"
  using fval_pos_sign [of "fround s q"] fval_neg_sign [of "fround s q"] by auto

lemma fsub_pos_D:
  assumes "isfinite x" "isfinite y" "0 < fval (fsub x y)"
  shows "fval y < fval x"
  using assms fval_fround_sign(1) [of "fval x - fval y < 0" "\<bar>fval x - fval y\<bar>"]
  by (auto simp: fsub_def fadd_def Let_def split: if_splits)

lemma fsub_neg_D:
  assumes "isfinite x" "isfinite y" "fval (fsub x y) < 0"
  shows "fval x < fval y"
  using assms fval_fround_sign(2) [of "fval x - fval y < 0" "\<bar>fval x - fval y\<bar>"]
  by (auto simp: fsub_def fadd_def Let_def split: if_splits)

lemma fsub_ordered:
  assumes "isfinite x" "isfinite y" "0 \<le> fval y" "fval y \<le> fval x"
  shows "isfinite (fsub x y) \<and> 0 \<le> fval (fsub x y) \<and> fval (fsub x y) \<le> fval x"
proof (cases "fval x = fval y")
  case True
  with assms show ?thesis by (simp add: fsub_def fadd_def)
next
  case False
  let ?r = "fval x - fval y"
  from False assms have "0 < fval x" by linarith
  then have s: "\<not> fsign x" by (rule fval_pos_sign)
  then have v: "fval x = fmag x" by (simp add: fval_def)
  have r: "0 < ?r" "?r \<le> fmag x"
    using False assms(3,4) v by linarith+
  have sub: "fsub x y = fround False ?r"
    using assms r by (simp add: fsub_def fadd_def)
  have m: "fmag x \<le> max_finite" by (rule fmag_finite_le [OF assms(1)])
  have "isfinite (fround False ?r)"
    using r m by (intro fround_exact_value(1)) auto
  moreover have "fmag (fround False ?r) \<le> fmag (fround False (fmag x))"
    using r m by (intro fround_mono) auto
  moreover have "fval (fround False ?r) = fmag (fround False ?r)" "fval x = fmag x"
    using v by (simp_all add: fval_def)
  ultimately show ?thesis
    using assms(1) by (simp add: sub)
qed

lemma fdiv_not_zero: "\<not> iszero y \<Longrightarrow> \<exists>z. fdiv x y = Some z"
  by (simp add: fdiv_def)

lemma fdiv_pos_D:
  assumes "isfinite x" "isfinite y" "\<not> fsign y" "fdiv x y = Some z" "0 < fval z"
  shows "0 < fval x"
proof -
  from assms have z: "z = fround (fsign x) (fmag x / fmag y)"
    by (auto simp: fdiv_def split: if_splits)
  with assms(5) have "\<not> fsign x" "fmag x \<noteq> 0"
    using fval_pos_sign [of z] by (auto simp: fround_fulp split: if_splits)
  then show ?thesis
    using fmag_nonneg [of x] by (simp add: fval_def order_less_le)
qed

lemma fdiv_neg_D:
  assumes "isfinite x" "isfinite y" "\<not> fsign y" "fdiv x y = Some z" "fval z < 0"
  shows "fval x < 0"
proof -
  from assms have z: "z = fround (fsign x) (fmag x / fmag y)"
    by (auto simp: fdiv_def split: if_splits)
  with assms(5) have "fsign x" "fmag x \<noteq> 0"
    using fval_neg_sign [of z] by (auto simp: fround_fulp split: if_splits)
  then show ?thesis
    using fmag_nonneg [of x] by (simp add: fval_def order_less_le)
qed

lemma fdiv_finite_operands:
  assumes "fdiv x y = Some z" "isfinite z" "isfinite y"
  shows "isfinite x"
proof (rule ccontr)
  assume "\<not> isfinite x"
  then consider "isnan x" | "isinf x" using isfinite_cases by blast
  then show False
    using assms by cases (auto simp: fdiv_def split: if_splits)
qed

lemma fsub_finite_operands:
  assumes "isfinite (fsub x y)"
  shows "isfinite x \<and> isfinite y"
proof (rule ccontr)
  assume "\<not> ?thesis"
  then consider "isnan x \<or> isnan y" | "isinf x" | "isinf y" "\<not> isinf x"
    using isfinite_cases by blast
  then show False
    using assms by cases (auto simp: fsub_def fadd_def split: if_splits)
qed

lemma fmax_ge: "\<not> isnan x \<Longrightarrow> \<not> isnan y \<Longrightarrow> fval x \<le> fval (fmax x y) \<and> fval y \<le> fval (fmax x y)"
  by (auto simp: fmax_def flt_def)

lemma fmax_in: "fmax x y = x \<or> fmax x y = y"
  by (simp add: fmax_def)

lemma fadd_not_nan: "isfinite x \<Longrightarrow> \<not> isnan y \<Longrightarrow> \<not> isnan (fadd x y)"
  by (simp add: fadd_def Let_def)

lemma not_isnan_fsub: "isfinite x \<Longrightarrow> \<not> isnan y \<Longrightarrow> \<not> isnan (fsub x y)"
  by (simp add: fsub_def fadd_not_nan)

section \<open>A nonzero value has one representation\<close>

lemma fsig_normal: "fexp x \<noteq> 0 \<Longrightarrow> 2 ^ 52 \<le> fsig x"
  by (simp add: fsig_def)

lemma fmag_less:
  assumes "fexpo x < fexpo y"
  shows "fmag x < fmag y"
proof -
  have n: "2 ^ 52 \<le> fsig y"
    using assms fexpo_lower [of x] by (intro fsig_normal) (auto simp: fexpo_def)
  have "fsig x < 2 ^ 53" using fsig_bounds(2) [of x] by simp
  also have "(2 ^ 53 :: int) \<le> 2 * fsig y" using n by simp
  also have "\<dots> \<le> 2 ^ nat (fexpo y - fexpo x) * fsig y"
  proof (rule mult_right_mono)
    show "(2 :: int) \<le> 2 ^ nat (fexpo y - fexpo x)"
      using assms power_increasing [of 1 "nat (fexpo y - fexpo x)" "2 :: int"] by simp
  qed (use n in simp)
  finally have "(of_int (fsig x) :: rat) < of_int (2 ^ nat (fexpo y - fexpo x) * fsig y)"
    by (simp only: of_int_less_iff)
  then have "(of_int (fsig x) :: rat) * 2 powi fexpo x <
      of_int (2 ^ nat (fexpo y - fexpo x) * fsig y) * 2 powi fexpo x"
    by (rule mult_strict_right_mono) simp
  then show ?thesis
    using assms by (simp add: fmag_def powi_split [of "fexpo x" "fexpo y"] ac_simps)
qed

lemma fmag_inj:
  assumes "fmag x = fmag y"
  shows "fexp x = fexp y \<and> fman x = fman y"
proof -
  have e: "fexpo x = fexpo y"
    using fmag_less [of x y] fmag_less [of y x] assms by (cases "fexpo x" "fexpo y" rule: linorder_cases) auto
  then have s: "fsig x = fsig y" using assms by (simp add: fmag_def)
  have m: "uint (fman z) < 2 ^ 52" for z :: f64
    using uint_lt2p [of "fman z"] by simp
  have n: "fexp z = 0 \<longleftrightarrow> fsig z < 2 ^ 52" for z :: f64
    using m [of z] fsig_normal [of z] by (cases "fexp z = 0") (auto simp: fsig_def)
  have "fexp x = 0 \<longleftrightarrow> fexp y = 0"
    by (simp add: n s)
  then show ?thesis
    using e s by (auto simp: fsig_def fexpo_def intro: word_uint_eqI split: if_splits)
qed

lemma fval_inj: "fval x = fval y \<Longrightarrow> fval x \<noteq> 0 \<Longrightarrow> x = y"
proof -
  assume a: "fval x = fval y" "fval x \<noteq> 0"
  then have s: "fsign x = fsign y"
    using fval_pos_sign [of x] fval_pos_sign [of y] fval_neg_sign [of x] fval_neg_sign [of y] by linarith
  with a have "fmag x = fmag y" by (simp add: fval_def split: if_splits)
  with s fmag_inj show "x = y" by (auto intro: f64.expand)
qed

end
