(* ===== verification/Domain_Core.thy ===== *)
theory Domain_Core
  imports Float64
begin

text \<open>
  The vocabulary of the domain layer: \<^verbatim>\<open>domain/errors.py\<close> (the typed failures and their
  stable codes), \<^verbatim>\<open>domain/identifiers.py\<close> (nominal identifiers), \<^verbatim>\<open>domain/incidents.py\<close>
  (UTC instants and the incident window) and \<^verbatim>\<open>domain/metrics.py\<close> (signals and points).

  An argument annotated \<^verbatim>\<open>object\<close>, or validated by the code with \<^verbatim>\<open>isinstance\<close>, is a
  \<open>pyval\<close>; a value whose Python type the annotations fix has the corresponding HOL type. An
  aware \<^verbatim>\<open>datetime\<close> is its wall-clock reading in microseconds since 1970-01-01 and its
  UTC offset; the canonical UTC instant is a number of microseconds.
\<close>

section \<open>Errors\<close>

datatype domain_error =
    InvalidIdentifierError
  | InvalidTimestampError
  | InvalidIncidentWindowError
  | InvalidMetricPointError
  | InvalidMetricSignalError
  | InvalidBaselineConfigurationError
  | DuplicateSignalError
  | BaselineComputationError
  | InvalidEvidenceLedgerError
  | InvalidHypothesisError
  | InvalidChangeEventError
  | InvalidChangeEventLedgerError
  | InvalidChangeHypothesisError
  | CanonicalSerializationError

fun error_code :: "domain_error \<Rightarrow> pystr" where
  "error_code InvalidIdentifierError = lit ''invalid_identifier''"
| "error_code InvalidTimestampError = lit ''invalid_timestamp''"
| "error_code InvalidIncidentWindowError = lit ''invalid_incident_window''"
| "error_code InvalidMetricPointError = lit ''invalid_metric_point''"
| "error_code InvalidMetricSignalError = lit ''invalid_metric_signal''"
| "error_code InvalidBaselineConfigurationError = lit ''invalid_baseline_configuration''"
| "error_code DuplicateSignalError = lit ''duplicate_signal''"
| "error_code BaselineComputationError = lit ''baseline_computation_failed''"
| "error_code InvalidEvidenceLedgerError = lit ''invalid_evidence_ledger''"
| "error_code InvalidHypothesisError = lit ''invalid_hypothesis''"
| "error_code InvalidChangeEventError = lit ''invalid_change_event''"
| "error_code InvalidChangeEventLedgerError = lit ''invalid_change_event_ledger''"
| "error_code InvalidChangeHypothesisError = lit ''invalid_change_hypothesis''"
| "error_code CanonicalSerializationError = lit ''canonical_serialization_failed''"

lemma error_code_inj: "error_code a = error_code b \<Longrightarrow> a = b"
  by (cases a; cases b) simp_all

section \<open>Dynamically typed values\<close>

datatype pynum = PyBool bool | PyInt int | PyFloat f64

datatype pyval = PyNone | PyNum pynum | PyStr pystr | PyOther

text \<open>\<^verbatim>\<open>float(x)\<close>; \<^term>\<open>None\<close> is \<^verbatim>\<open>OverflowError\<close>.\<close>

fun py_float :: "pynum \<Rightarrow> f64 option" where
  "py_float (PyBool b) = Some (if b then float_one else fzero False)"
| "py_float (PyInt i) = float_of_int i"
| "py_float (PyFloat x) = Some x"

section \<open>Identifiers\<close>

datatype tenant_id = TenantId (tenant_value: pystr)
datatype incident_id = IncidentId (incident_value: pystr)
datatype run_id = RunId (run_value: pystr)
datatype evidence_id = EvidenceId (evidence_value: pystr)
datatype signal_key = SignalKey (signal_value: pystr)

definition validate_text_identifier :: "pyval \<Rightarrow> domain_error + pystr" where
  "validate_text_identifier v =
     (case v of PyStr s \<Rightarrow> if is_blank s then Inl InvalidIdentifierError else Inr s
      | _ \<Rightarrow> Inl InvalidIdentifierError)"

definition make_tenant_id :: "pyval \<Rightarrow> domain_error + tenant_id" where
  "make_tenant_id v = rbind (validate_text_identifier v) (\<lambda>s. Inr (TenantId s))"

definition make_incident_id :: "pyval \<Rightarrow> domain_error + incident_id" where
  "make_incident_id v = rbind (validate_text_identifier v) (\<lambda>s. Inr (IncidentId s))"

definition make_run_id :: "pyval \<Rightarrow> domain_error + run_id" where
  "make_run_id v = rbind (validate_text_identifier v) (\<lambda>s. Inr (RunId s))"

definition make_evidence_id :: "pyval \<Rightarrow> domain_error + evidence_id" where
  "make_evidence_id v = rbind (validate_text_identifier v) (\<lambda>s. Inr (EvidenceId s))"

definition make_signal_key :: "pyval \<Rightarrow> domain_error + signal_key" where
  "make_signal_key v =
     (case v of PyStr s \<Rightarrow> if is_blank s then Inl InvalidIdentifierError else Inr (SignalKey s)
      | _ \<Rightarrow> Inl InvalidIdentifierError)"

text \<open>\<^verbatim>\<open>SignalKey\<close> is the one identifier declared with \<^verbatim>\<open>order=True\<close>.\<close>

instantiation signal_key :: linorder
begin

definition less_eq_signal_key :: "signal_key \<Rightarrow> signal_key \<Rightarrow> bool" where
  "less_eq_signal_key a b \<longleftrightarrow> signal_value a \<le> signal_value b"

definition less_signal_key :: "signal_key \<Rightarrow> signal_key \<Rightarrow> bool" where
  "less_signal_key a b \<longleftrightarrow> signal_value a < signal_value b"

instance
  by standard (auto simp: less_eq_signal_key_def less_signal_key_def intro: signal_key.expand)

end

text \<open>
  A nominal identifier wraps a non-blank string: construction succeeds exactly on such a
  string and keeps it unchanged.
\<close>

locale nominal_identifier =
  fixes make :: "pyval \<Rightarrow> domain_error + 'i" and ident :: "'i \<Rightarrow> pystr"
  assumes make_ok: "make v = Inr i \<longleftrightarrow> v = PyStr (ident i) \<and> \<not> is_blank (ident i)"
    and make_error: "make v = Inl e \<Longrightarrow> e = InvalidIdentifierError"
    and ident_onto: "\<exists>i. ident i = s"
begin

lemma ident_unique: "make v = Inr i \<Longrightarrow> make v = Inr j \<Longrightarrow> i = j"
  by simp

lemma ident_text: "make (PyStr s) = Inr i \<Longrightarrow> ident i = s"
  by (simp add: make_ok)

lemma ident_rejects: "make (PyStr s) = Inl InvalidIdentifierError \<longleftrightarrow> is_blank s"
proof
  assume "make (PyStr s) = Inl InvalidIdentifierError"
  then show "is_blank s"
    using make_ok ident_onto [of s] by (metis sum.distinct(1))
next
  assume "is_blank s"
  then show "make (PyStr s) = Inl InvalidIdentifierError"
    using make_ok make_error by (cases "make (PyStr s)") auto
qed

end

lemmas make_id_defs = make_tenant_id_def make_incident_id_def make_run_id_def make_evidence_id_def
  make_signal_key_def validate_text_identifier_def

interpretation tenant: nominal_identifier make_tenant_id tenant_value
  by unfold_locales (auto simp: make_id_defs split: pyval.splits if_splits intro: exI [of _ "TenantId _"])

interpretation incident: nominal_identifier make_incident_id incident_value
  by unfold_locales (auto simp: make_id_defs split: pyval.splits if_splits intro: exI [of _ "IncidentId _"])

interpretation run: nominal_identifier make_run_id run_value
  by unfold_locales (auto simp: make_id_defs split: pyval.splits if_splits intro: exI [of _ "RunId _"])

interpretation evidence: nominal_identifier make_evidence_id evidence_value
  by unfold_locales (auto simp: make_id_defs split: pyval.splits if_splits intro: exI [of _ "EvidenceId _"])

interpretation signal: nominal_identifier make_signal_key signal_value
  by unfold_locales (auto simp: make_id_defs split: pyval.splits if_splits intro: exI [of _ "SignalKey _"])

section \<open>Instants and the incident window\<close>

text \<open>
  \<^verbatim>\<open>Aware\<close> carries the wall clock and the result of \<^verbatim>\<open>utcoffset()\<close>, which a
  \<^verbatim>\<open>tzinfo\<close> may leave undetermined. \<^verbatim>\<open>astimezone\<close> overflows outside the years 1 to 9999.
\<close>

datatype pydatetime = NotDatetime | Naive int | Aware int "int option"

definition min_instant :: int where
  "min_instant = -62135596800000000"

definition max_instant :: int where
  "max_instant = 253402300799999999"

definition in_calendar :: "int \<Rightarrow> bool" where
  "in_calendar t \<longleftrightarrow> min_instant \<le> t \<and> t \<le> max_instant"

fun to_utc :: "pydatetime \<Rightarrow> domain_error + int" where
  "to_utc NotDatetime = Inl InvalidTimestampError"
| "to_utc (Naive _) = Inl InvalidTimestampError"
| "to_utc (Aware _ None) = Inl InvalidTimestampError"
| "to_utc (Aware local (Some offset)) =
     (if in_calendar (local - offset) then Inr (local - offset) else Inl InvalidTimestampError)"

definition utc :: "int \<Rightarrow> pydatetime" where
  "utc t = Aware t (Some 0)"

record incident_window =
  win_start :: int
  win_injection :: int
  win_end :: int

definition make_incident_window ::
  "pydatetime \<Rightarrow> pydatetime \<Rightarrow> pydatetime \<Rightarrow> domain_error + incident_window" where
  "make_incident_window start injection finish =
     rbind (to_utc start) (\<lambda>s. rbind (to_utc injection) (\<lambda>i. rbind (to_utc finish) (\<lambda>e.
       if \<not> (s \<le> i \<and> i < e) then Inl InvalidIncidentWindowError
       else Inr \<lparr>win_start = s, win_injection = i, win_end = e\<rparr>)))"

definition valid_window :: "incident_window \<Rightarrow> bool" where
  "valid_window w \<longleftrightarrow> win_start w \<le> win_injection w \<and> win_injection w < win_end w \<and>
     in_calendar (win_start w) \<and> in_calendar (win_injection w) \<and> in_calendar (win_end w)"

lemma to_utc_in_calendar: "to_utc d = Inr t \<Longrightarrow> in_calendar t"
  by (induction d rule: to_utc.induct) (auto split: if_splits)

lemma to_utc_canonical: "to_utc d = Inr t \<Longrightarrow> to_utc (utc t) = Inr t"
  by (simp add: utc_def to_utc_in_calendar)

lemma make_incident_window_valid:
  "make_incident_window s i e = Inr w \<Longrightarrow> valid_window w"
  by (auto simp: make_incident_window_def valid_window_def res_simps to_utc_in_calendar)

lemma make_incident_window_utc:
  assumes "valid_window w"
  shows "make_incident_window (utc (win_start w)) (utc (win_injection w)) (utc (win_end w)) = Inr w"
  using assms by (simp add: make_incident_window_def utc_def valid_window_def)

section \<open>Metric points and signals\<close>

record metric_point =
  pt_observed_at :: int
  pt_value :: f64

definition make_metric_point :: "pydatetime \<Rightarrow> pynum \<Rightarrow> domain_error + metric_point" where
  "make_metric_point observed_at v =
     rbind (to_utc observed_at) (\<lambda>t.
       case v of
         PyBool _ \<Rightarrow> Inl InvalidMetricPointError
       | _ \<Rightarrow> (case py_float v of
                None \<Rightarrow> Inl InvalidMetricPointError
              | Some x \<Rightarrow> if isfinite x then Inr \<lparr>pt_observed_at = t, pt_value = x\<rparr>
                          else Inl InvalidMetricPointError))"

record metric_signal =
  sig_key :: signal_key
  sig_points :: "metric_point list"

text \<open>\<^verbatim>\<open>pairwise\<close>: the consecutive pairs of a sequence.\<close>

definition pairwise_any :: "('a \<Rightarrow> 'a \<Rightarrow> bool) \<Rightarrow> 'a list \<Rightarrow> bool" where
  "pairwise_any P xs \<longleftrightarrow> (\<exists>(a, b) \<in> set (zip xs (tl xs)). P a b)"

definition make_metric_signal ::
  "signal_key \<Rightarrow> metric_point list \<Rightarrow> domain_error + metric_signal" where
  "make_metric_signal key points =
     (if pairwise_any (\<lambda>current following. pt_observed_at current \<ge> pt_observed_at following) points
      then Inl InvalidMetricSignalError
      else Inr \<lparr>sig_key = key, sig_points = points\<rparr>)"

definition valid_point :: "metric_point \<Rightarrow> bool" where
  "valid_point p \<longleftrightarrow> isfinite (pt_value p)"

definition valid_signal :: "metric_signal \<Rightarrow> bool" where
  "valid_signal s \<longleftrightarrow> sorted_wrt (<) (map pt_observed_at (sig_points s)) \<and>
     list_all valid_point (sig_points s)"

lemma make_metric_point_valid: "make_metric_point t v = Inr p \<Longrightarrow> valid_point p"
  by (cases v) (auto simp: make_metric_point_def valid_point_def res_simps split: option.splits)

lemma pairwise_any_iff: "pairwise_any P xs \<longleftrightarrow> (\<exists>i. Suc i < length xs \<and> P (xs ! i) (xs ! Suc i))"
proof -
  have "pairwise_any P xs \<longleftrightarrow> (\<exists>i. i < length (tl xs) \<and> P (xs ! i) (tl xs ! i))"
    by (force simp: pairwise_any_def set_zip)
  also have "\<dots> \<longleftrightarrow> (\<exists>i. Suc i < length xs \<and> P (xs ! i) (xs ! Suc i))"
    by (auto simp: nth_tl less_diff_conv)
  finally show ?thesis .
qed

lemma not_pairwise_any_sorted:
  "\<not> pairwise_any (\<lambda>a b. f a \<ge> f b) xs \<longleftrightarrow> sorted_wrt (<) (map f xs)" for f :: "'a \<Rightarrow> 'b::linorder"
  by (auto simp: pairwise_any_iff sorted_wrt_iff_nth_Suc_transp not_le)

lemma make_metric_signal_valid:
  "list_all valid_point ps \<Longrightarrow> make_metric_signal k ps = Inr s \<Longrightarrow> valid_signal s"
  by (auto simp: make_metric_signal_def valid_signal_def not_pairwise_any_sorted res_simps)

end
