(* ===== verification/Baseline.thy ===== *)
theory Baseline
  imports Domain_Core
begin

text \<open>
  \<^verbatim>\<open>domain/baseline.py\<close>: the deterministic metric-shift baseline. Each configured signal is
  split at the injection instant, scored by a robust median shift, and the scored signals
  are ranked, or the baseline abstains with a reason.
\<close>

section \<open>Configuration\<close>

definition finite_nonnegative :: "pyval \<Rightarrow> domain_error + f64" where
  "finite_nonnegative v =
     (case v of
        PyNum (PyBool _) \<Rightarrow> Inl InvalidBaselineConfigurationError
      | PyNum n \<Rightarrow>
          (case py_float n of
             None \<Rightarrow> Inl InvalidBaselineConfigurationError
           | Some x \<Rightarrow> if isfinite x \<and> fle (fzero False) x then Inr x
                       else Inl InvalidBaselineConfigurationError)
      | _ \<Rightarrow> Inl InvalidBaselineConfigurationError)"

record baseline_policy =
  bp_minimum_points_per_window :: int
  bp_minimum_score :: f64
  bp_minimum_margin :: f64
  bp_relative_scale_floor :: f64

definition make_baseline_policy ::
  "pyval \<Rightarrow> pyval \<Rightarrow> pyval \<Rightarrow> pyval \<Rightarrow> domain_error + baseline_policy" where
  "make_baseline_policy minimum_points_per_window minimum_score minimum_margin relative_scale_floor =
     (case minimum_points_per_window of
        PyNum (PyInt n) \<Rightarrow>
          if n < 1 then Inl InvalidBaselineConfigurationError
          else rbind (finite_nonnegative minimum_score) (\<lambda>score.
               rbind (finite_nonnegative minimum_margin) (\<lambda>margin.
               rbind (finite_nonnegative relative_scale_floor) (\<lambda>floor.
                 Inr \<lparr>bp_minimum_points_per_window = n, bp_minimum_score = score,
                      bp_minimum_margin = margin, bp_relative_scale_floor = floor\<rparr>)))
      | _ \<Rightarrow> Inl InvalidBaselineConfigurationError)"

record signal_baseline_input =
  in_signal :: metric_signal
  in_absolute_scale_floor :: f64

definition make_signal_baseline_input ::
  "metric_signal \<Rightarrow> pyval \<Rightarrow> domain_error + signal_baseline_input" where
  "make_signal_baseline_input sig v =
     rbind (finite_nonnegative v) (\<lambda>floor.
       if fle floor (fzero False) then Inl InvalidBaselineConfigurationError
       else Inr \<lparr>in_signal = sig, in_absolute_scale_floor = floor\<rparr>)"

section \<open>Results\<close>

record suspicion_candidate =
  sc_signal_key :: signal_key
  sc_pre_point_count :: int
  sc_post_point_count :: int
  sc_pre_median :: f64
  sc_post_median :: f64
  sc_pre_mad :: f64
  sc_absolute_scale_floor :: f64
  sc_relative_scale_floor :: f64
  sc_scale :: f64
  sc_signed_score :: f64
  sc_suspicion_score :: f64

record signal_evaluation =
  se_signal_key :: signal_key
  se_absolute_scale_floor :: f64
  se_pre_point_count :: int
  se_post_point_count :: int
  se_eligible :: bool
  se_candidate :: "suspicion_candidate option"

datatype abstention_reason = INSUFFICIENT_EVIDENCE | WEAK_EVIDENCE | AMBIGUOUS_EVIDENCE

record baseline_ranking =
  br_policy :: baseline_policy
  br_signal_evaluations :: "signal_evaluation list"
  br_candidates :: "suspicion_candidate list"
  br_lead :: f64

record baseline_abstention =
  ba_policy :: baseline_policy
  ba_reason :: abstention_reason
  ba_signal_evaluations :: "signal_evaluation list"
  ba_evaluated_candidates :: "suspicion_candidate list"
  ba_eligible_signal_count :: int
  ba_top_score :: "f64 option"
  ba_second_score :: "f64 option"

datatype baseline_result = Ranking baseline_ranking | Abstention baseline_abstention

section \<open>Scoring\<close>

definition require_finite :: "f64 list \<Rightarrow> domain_error + unit" where
  "require_finite xs = (if list_all isfinite xs then Inr () else Inl BaselineComputationError)"

text \<open>
  \<^verbatim>\<open>statistics.median\<close> of floats; \<^term>\<open>None\<close> is \<^verbatim>\<open>StatisticsError\<close>. The values are
  never NaN here, so sorting by value is Python's sort (zeros of either sign tie).
\<close>

definition median :: "f64 list \<Rightarrow> f64 option" where
  "median xs =
     (let data = sort_key fval xs; n = length data; i = n div 2 in
      if n = 0 then None
      else if odd n then Some (data ! i)
      else fdiv (fadd (data ! (i - 1)) (data ! i)) float_two)"

text \<open>
  The body of the \<^verbatim>\<open>try\<close>: \<^term>\<open>None\<close> is one of the three caught exceptions, and the
  values are the eight locals that are checked to be finite.
\<close>

record score_locals =
  pre_center :: f64
  post_center :: f64
  local_pre_mad :: f64
  robust_scale :: f64
  relative_scale :: f64
  local_scale :: f64
  local_signed_score :: f64
  local_suspicion_score :: f64

definition score_try ::
  "f64 \<Rightarrow> f64 \<Rightarrow> f64 list \<Rightarrow> f64 list \<Rightarrow> score_locals option" where
  "score_try absolute_floor relative_floor pre_values post_values =
     Option.bind (median pre_values) (\<lambda>pre.
     Option.bind (median post_values) (\<lambda>post.
     Option.bind (median (map (\<lambda>v. fabs (fsub v pre)) pre_values)) (\<lambda>mad.
     let robust = fmul float_1_4826 mad;
         relative = fmul relative_floor (fmax (fabs pre) absolute_floor);
         scale = fmax (fmax robust absolute_floor) relative
     in Option.bind (fdiv (fsub post pre) scale) (\<lambda>signed.
        Some \<lparr>pre_center = pre, post_center = post, local_pre_mad = mad, robust_scale = robust,
              relative_scale = relative, local_scale = scale, local_signed_score = signed,
              local_suspicion_score = fabs signed\<rparr>))))"

definition score_candidate ::
  "signal_baseline_input \<Rightarrow> baseline_policy \<Rightarrow> f64 list \<Rightarrow> f64 list
     \<Rightarrow> domain_error + suspicion_candidate" where
  "score_candidate item policy pre_values post_values =
     (case score_try (in_absolute_scale_floor item) (bp_relative_scale_floor policy)
             pre_values post_values of
        None \<Rightarrow> Inl BaselineComputationError
      | Some l \<Rightarrow>
          rbind (require_finite [pre_center l, post_center l, local_pre_mad l, robust_scale l,
                   relative_scale l, local_scale l, local_signed_score l,
                   local_suspicion_score l]) (\<lambda>_.
          Inr \<lparr>sc_signal_key = sig_key (in_signal item),
               sc_pre_point_count = int (length pre_values),
               sc_post_point_count = int (length post_values),
               sc_pre_median = pre_center l,
               sc_post_median = post_center l,
               sc_pre_mad = local_pre_mad l,
               sc_absolute_scale_floor = in_absolute_scale_floor item,
               sc_relative_scale_floor = bp_relative_scale_floor policy,
               sc_scale = local_scale l,
               sc_signed_score = local_signed_score l,
               sc_suspicion_score = local_suspicion_score l\<rparr>))"

section \<open>Evaluation of one signal\<close>

definition pre_values :: "incident_window \<Rightarrow> metric_point list \<Rightarrow> f64 list" where
  "pre_values window points =
     [pt_value p. p \<leftarrow> points, win_start window \<le> pt_observed_at p \<and>
                               pt_observed_at p < win_injection window]"

definition post_values :: "incident_window \<Rightarrow> metric_point list \<Rightarrow> f64 list" where
  "post_values window points =
     [pt_value p. p \<leftarrow> points, win_injection window \<le> pt_observed_at p \<and>
                               pt_observed_at p < win_end window]"

definition evaluate_signal ::
  "incident_window \<Rightarrow> signal_baseline_input \<Rightarrow> baseline_policy
     \<Rightarrow> domain_error + signal_evaluation" where
  "evaluate_signal window item policy =
     (let pre = pre_values window (sig_points (in_signal item));
          post = post_values window (sig_points (in_signal item));
          eligible = (int (length pre) \<ge> bp_minimum_points_per_window policy \<and>
                      int (length post) \<ge> bp_minimum_points_per_window policy)
      in rbind (if eligible
                then rbind (score_candidate item policy pre post) (\<lambda>c. Inr (Some c))
                else Inr None) (\<lambda>candidate.
         Inr \<lparr>se_signal_key = sig_key (in_signal item),
              se_absolute_scale_floor = in_absolute_scale_floor item,
              se_pre_point_count = int (length pre),
              se_post_point_count = int (length post),
              se_eligible = eligible,
              se_candidate = candidate\<rparr>))"

section \<open>Ranking\<close>

definition evaluation_order :: "signal_evaluation \<Rightarrow> pystr" where
  "evaluation_order e = signal_value (se_signal_key e)"

definition candidate_order :: "suspicion_candidate \<Rightarrow> rat \<times> pystr" where
  "candidate_order c = (fval (fneg (sc_suspicion_score c)), signal_value (sc_signal_key c))"

definition present_candidates :: "signal_evaluation list \<Rightarrow> suspicion_candidate list" where
  "present_candidates es = List.map_filter se_candidate es"

definition conclude ::
  "baseline_policy \<Rightarrow> signal_evaluation list \<Rightarrow> suspicion_candidate list \<Rightarrow> baseline_result" where
  "conclude policy evaluations candidates =
     (case candidates of
        [] \<Rightarrow> Abstention \<lparr>ba_policy = policy, ba_reason = INSUFFICIENT_EVIDENCE,
                ba_signal_evaluations = evaluations, ba_evaluated_candidates = [],
                ba_eligible_signal_count = 0, ba_top_score = None, ba_second_score = None\<rparr>
      | first # rest \<Rightarrow>
          let top_score = sc_suspicion_score first;
              second_score = (case rest of [] \<Rightarrow> None | c # _ \<Rightarrow> Some (sc_suspicion_score c));
              abstain = (\<lambda>reason. Abstention \<lparr>ba_policy = policy, ba_reason = reason,
                ba_signal_evaluations = evaluations, ba_evaluated_candidates = candidates,
                ba_eligible_signal_count = int (length candidates), ba_top_score = Some top_score,
                ba_second_score = second_score\<rparr>);
              lead = (case second_score of None \<Rightarrow> finf False | Some s \<Rightarrow> fsub top_score s)
          in if flt top_score (bp_minimum_score policy) then abstain WEAK_EVIDENCE
             else if second_score \<noteq> None \<and> flt lead (bp_minimum_margin policy)
             then abstain AMBIGUOUS_EVIDENCE
             else Ranking \<lparr>br_policy = policy, br_signal_evaluations = evaluations,
                    br_candidates = candidates, br_lead = lead\<rparr>)"

definition rank_metric_shifts ::
  "incident_window \<Rightarrow> signal_baseline_input list \<Rightarrow> baseline_policy
     \<Rightarrow> domain_error + baseline_result" where
  "rank_metric_shifts window inputs policy =
     (let keys = map (\<lambda>item. signal_value (sig_key (in_signal item))) inputs in
      if \<not> distinct keys then Inl DuplicateSignalError
      else rbind (rmap (\<lambda>item. evaluate_signal window item policy) inputs) (\<lambda>evaluations.
        let signal_evaluations = sort_key evaluation_order evaluations;
            candidates = sort_key candidate_order (present_candidates signal_evaluations)
        in Inr (conclude policy signal_evaluations candidates)))"

section \<open>Well-formedness\<close>

definition nonneg_finite :: "f64 \<Rightarrow> bool" where
  "nonneg_finite x \<longleftrightarrow> isfinite x \<and> 0 \<le> fval x"

definition valid_policy :: "baseline_policy \<Rightarrow> bool" where
  "valid_policy p \<longleftrightarrow> 1 \<le> bp_minimum_points_per_window p \<and> nonneg_finite (bp_minimum_score p) \<and>
     nonneg_finite (bp_minimum_margin p) \<and> nonneg_finite (bp_relative_scale_floor p)"

definition positive_finite :: "f64 \<Rightarrow> bool" where
  "positive_finite x \<longleftrightarrow> isfinite x \<and> 0 < fval x"

definition valid_input :: "signal_baseline_input \<Rightarrow> bool" where
  "valid_input item \<longleftrightarrow> valid_signal (in_signal item) \<and> positive_finite (in_absolute_scale_floor item)"

definition valid_candidate :: "suspicion_candidate \<Rightarrow> bool" where
  "valid_candidate c \<longleftrightarrow>
     list_all isfinite [sc_pre_median c, sc_post_median c, sc_pre_mad c, sc_signed_score c,
                        sc_suspicion_score c] \<and>
     positive_finite (sc_scale c) \<and> positive_finite (sc_absolute_scale_floor c) \<and>
     fval (sc_absolute_scale_floor c) \<le> fval (sc_scale c) \<and>
     sc_suspicion_score c = fabs (sc_signed_score c) \<and>
     (0 < fval (sc_signed_score c) \<longrightarrow> fval (sc_pre_median c) < fval (sc_post_median c)) \<and>
     (fval (sc_signed_score c) < 0 \<longrightarrow> fval (sc_post_median c) < fval (sc_pre_median c))"

lemma finite_nonnegative_Inr: "finite_nonnegative v = Inr x \<Longrightarrow> nonneg_finite x"
  by (cases v) (auto simp: finite_nonnegative_def nonneg_finite_def fle_def
      split: pynum.splits option.splits if_splits)

lemma finite_nonnegative_float: "nonneg_finite x \<Longrightarrow> finite_nonnegative (PyNum (PyFloat x)) = Inr x"
  by (simp add: finite_nonnegative_def nonneg_finite_def fle_def)

lemma make_baseline_policy_valid:
  "make_baseline_policy n s m r = Inr p \<Longrightarrow> valid_policy p"
  by (auto simp: make_baseline_policy_def valid_policy_def res_simps finite_nonnegative_Inr
      split: pyval.splits pynum.splits)

lemma make_signal_baseline_input_valid:
  assumes "valid_signal s" "make_signal_baseline_input s v = Inr item"
  shows "valid_input item"
proof -
  from assms(2) obtain x where x: "finite_nonnegative v = Inr x" "\<not> fle x (fzero False)"
    "item = \<lparr>in_signal = s, in_absolute_scale_floor = x\<rparr>"
    by (auto simp: make_signal_baseline_input_def res_simps)
  with finite_nonnegative_Inr [OF x(1)] assms(1) show ?thesis
    by (auto simp: valid_input_def positive_finite_def nonneg_finite_def fle_def)
qed

section \<open>Scoring lemmas\<close>

lemma median_None_iff: "median xs = None \<longleftrightarrow> xs = []"
proof -
  have "\<not> iszero float_two" by (simp add: float_two_def iszero_def)
  then have "fdiv x float_two \<noteq> None" for x
    using fdiv_not_zero by blast
  moreover have "sort_key fval xs = [] \<longleftrightarrow> xs = []"
    by (metis length_0_conv length_sort)
  ultimately show ?thesis
    by (auto simp: median_def Let_def simp del: not_None_eq)
qed

lemma scale_cases:
  assumes "positive_finite a"
  shows "\<not> iszero (fmax (fmax r a) b)"
    "\<not> isnan r \<Longrightarrow> \<not> isnan b \<Longrightarrow> fval a \<le> fval (fmax (fmax r a) b)"
  using assms
  by (auto simp: fmax_def flt_def positive_finite_def isnan_not_zero simp flip: fval_zero_iff)

text \<open>
  With a positive scale floor the \<^verbatim>\<open>try\<close> body never raises: neither
  \<^verbatim>\<open>StatisticsError\<close> (both halves are non-empty) nor \<^verbatim>\<open>ZeroDivisionError\<close>.
\<close>

lemma score_try_total:
  assumes "positive_finite a" "pre \<noteq> []" "post \<noteq> []"
  shows "\<exists>l. score_try a r pre post = Some l"
proof -
  obtain x y where "median pre = Some x" "median post = Some y"
    using assms(2,3) median_None_iff by (metis option.exhaust)
  moreover obtain z where "median (map (\<lambda>v. fabs (fsub v x)) pre) = Some z"
    using assms(2) median_None_iff by (metis map_is_Nil_conv option.exhaust)
  moreover obtain d where "fdiv (fsub y x) (fmax (fmax (fmul float_1_4826 z) a)
      (fmul r (fmax (fabs x) a))) = Some d"
    using fdiv_not_zero [OF scale_cases(1) [OF assms(1)]] by blast
  ultimately show ?thesis
    by (simp add: score_try_def Let_def)
qed

lemma score_candidate_Inr:
  assumes "positive_finite (in_absolute_scale_floor item)"
    and "score_candidate item policy pre post = Inr c"
  shows "valid_candidate c"
proof -
  let ?a = "in_absolute_scale_floor item"
  from assms(2) obtain l where l: "score_try ?a (bp_relative_scale_floor policy) pre post = Some l"
    and fin: "isfinite (pre_center l)" "isfinite (post_center l)" "isfinite (local_pre_mad l)"
      "isfinite (robust_scale l)" "isfinite (relative_scale l)" "isfinite (local_scale l)"
      "isfinite (local_signed_score l)" "isfinite (local_suspicion_score l)"
    and c: "c = \<lparr>sc_signal_key = sig_key (in_signal item), sc_pre_point_count = int (length pre),
        sc_post_point_count = int (length post), sc_pre_median = pre_center l,
        sc_post_median = post_center l, sc_pre_mad = local_pre_mad l,
        sc_absolute_scale_floor = ?a, sc_relative_scale_floor = bp_relative_scale_floor policy,
        sc_scale = local_scale l, sc_signed_score = local_signed_score l,
        sc_suspicion_score = local_suspicion_score l\<rparr>"
    by (auto simp: score_candidate_def require_finite_def split: option.splits if_splits)
  from l have d: "fdiv (fsub (post_center l) (pre_center l)) (local_scale l) = Some (local_signed_score l)"
    and s: "local_scale l = fmax (fmax (robust_scale l) ?a) (relative_scale l)"
    and u: "local_suspicion_score l = fabs (local_signed_score l)"
    by (auto simp: score_try_def Let_def bind_eq_Some_conv)
  have ge: "fval ?a \<le> fval (local_scale l)"
    unfolding s using scale_cases(2) [OF assms(1)] fin by simp
  then have pos: "0 < fval (local_scale l)" using assms(1) by (simp add: positive_finite_def)
  note sign = fval_pos_sign [OF pos]
  note sub = fdiv_finite_operands [OF d fin(7,6)]
  have "0 < fval (local_signed_score l) \<Longrightarrow> fval (pre_center l) < fval (post_center l)"
    using fsub_pos_D [OF fin(2,1)] fdiv_pos_D [OF sub fin(6) sign d] by simp
  moreover have "fval (local_signed_score l) < 0 \<Longrightarrow> fval (post_center l) < fval (pre_center l)"
    using fsub_neg_D [OF fin(2,1)] fdiv_neg_D [OF sub fin(6) sign d] by simp
  ultimately show ?thesis
    using fin ge pos u assms(1) by (simp add: c valid_candidate_def positive_finite_def)
qed

lemma score_candidate_fields:
  assumes "score_candidate item policy pre post = Inr c"
  shows "sc_signal_key c = sig_key (in_signal item)"
    "sc_pre_point_count c = int (length pre)" "sc_post_point_count c = int (length post)"
    "sc_absolute_scale_floor c = in_absolute_scale_floor item"
    "sc_relative_scale_floor c = bp_relative_scale_floor policy"
  using assms by (auto simp: score_candidate_def res_simps split: option.splits)

lemma score_candidate_error:
  "score_candidate item policy pre post = Inl e \<Longrightarrow> e = BaselineComputationError"
  by (auto simp: score_candidate_def require_finite_def rbind_eq_Inl split: option.splits if_splits)

section \<open>Evaluation lemmas\<close>

lemma length_pre_post:
  assumes "valid_window w"
  shows "length (pre_values w ps) + length (post_values w ps) =
     length (filter (\<lambda>p. win_start w \<le> pt_observed_at p \<and> pt_observed_at p < win_end w) ps)"
  using assms by (induction ps) (auto simp: pre_values_def post_values_def valid_window_def)

lemma evaluate_signal_error:
  "evaluate_signal w item policy = Inl e \<Longrightarrow> e = BaselineComputationError"
  by (auto simp: evaluate_signal_def rbind_eq_Inl score_candidate_error Let_def split: if_splits)

text \<open>What an evaluation records of the signal and the policy it was computed from.\<close>

definition evaluation_of ::
  "incident_window \<Rightarrow> baseline_policy \<Rightarrow> signal_baseline_input \<Rightarrow> signal_evaluation \<Rightarrow> bool" where
  "evaluation_of w policy item e \<longleftrightarrow>
     se_signal_key e = sig_key (in_signal item) \<and>
     se_absolute_scale_floor e = in_absolute_scale_floor item \<and>
     se_pre_point_count e = int (length (pre_values w (sig_points (in_signal item)))) \<and>
     se_post_point_count e = int (length (post_values w (sig_points (in_signal item)))) \<and>
     (se_eligible e \<longleftrightarrow> bp_minimum_points_per_window policy \<le> se_pre_point_count e \<and>
                      bp_minimum_points_per_window policy \<le> se_post_point_count e) \<and>
     (se_candidate e \<noteq> None \<longleftrightarrow> se_eligible e) \<and>
     (\<forall>c. se_candidate e = Some c \<longrightarrow>
        sc_signal_key c = se_signal_key e \<and> sc_pre_point_count c = se_pre_point_count e \<and>
        sc_post_point_count c = se_post_point_count e \<and>
        sc_absolute_scale_floor c = se_absolute_scale_floor e \<and>
        sc_relative_scale_floor c = bp_relative_scale_floor policy)"

lemma evaluate_signal_Inr:
  assumes "evaluate_signal w item policy = Inr e"
  shows "evaluation_of w policy item e"
  using assms
  by (auto simp: evaluate_signal_def evaluation_of_def Let_def res_simps score_candidate_fields
      split: if_splits)

lemma evaluate_signal_candidate:
  assumes "valid_input item" "evaluate_signal w item policy = Inr e" "se_candidate e = Some c"
  shows "valid_candidate c"
  using assms score_candidate_Inr
  by (auto simp: evaluate_signal_def Let_def res_simps valid_input_def split: if_splits)

lemma evaluation_key: "evaluation_of w p item e \<Longrightarrow>
    evaluation_order e = signal_value (sig_key (in_signal item))"
  by (simp add: evaluation_of_def evaluation_order_def)

section \<open>Ranking lemmas\<close>

interpretation evaluations: canonical_order evaluation_order .

interpretation candidates: canonical_order candidate_order .

definition result_evaluations :: "baseline_result \<Rightarrow> signal_evaluation list" where
  "result_evaluations r = (case r of Ranking k \<Rightarrow> br_signal_evaluations k
                                   | Abstention a \<Rightarrow> ba_signal_evaluations a)"

definition result_candidates :: "baseline_result \<Rightarrow> suspicion_candidate list" where
  "result_candidates r = (case r of Ranking k \<Rightarrow> br_candidates k
                                  | Abstention a \<Rightarrow> ba_evaluated_candidates a)"

definition result_policy :: "baseline_result \<Rightarrow> baseline_policy" where
  "result_policy r = (case r of Ranking k \<Rightarrow> br_policy k | Abstention a \<Rightarrow> ba_policy a)"

lemma result_conclude [simp]:
  "result_evaluations (conclude p es cs) = es"
  "result_candidates (conclude p es cs) = cs"
  "result_policy (conclude p es cs) = p"
  by (auto simp: result_evaluations_def result_candidates_def result_policy_def conclude_def Let_def
      split: list.splits)

lemma present_candidates_mset:
  "mset es = mset fs \<Longrightarrow> mset (present_candidates es) = mset (present_candidates fs)"
  by (simp add: present_candidates_def List.map_filter_def)

lemma present_candidates_in:
  "c \<in> set (present_candidates es) \<longleftrightarrow> (\<exists>e \<in> set es. se_candidate e = Some c)"
  by (force simp: present_candidates_def List.map_filter_def image_iff)

text \<open>The shape of every successful ranking.\<close>

lemma rank_metric_shifts_Inr:
  assumes "rank_metric_shifts w inputs p = Inr r"
  shows "\<exists>evaluations. rmap (\<lambda>item. evaluate_signal w item p) inputs = Inr evaluations \<and>
    distinct (map evaluation_order evaluations) \<and>
    result_evaluations r = sort_key evaluation_order evaluations \<and>
    result_candidates r = sort_key candidate_order (present_candidates (result_evaluations r)) \<and>
    r = conclude p (result_evaluations r) (result_candidates r)"
proof -
  from assms obtain es where es: "rmap (\<lambda>item. evaluate_signal w item p) inputs = Inr es"
    and d: "distinct (map (\<lambda>item. signal_value (sig_key (in_signal item))) inputs)"
    and r: "r = conclude p (sort_key evaluation_order es)
          (sort_key candidate_order (present_candidates (sort_key evaluation_order es)))"
    by (auto simp: rank_metric_shifts_def res_simps Let_def)
  have "list_all2 (\<lambda>item e. evaluation_order e = signal_value (sig_key (in_signal item))) inputs es"
    using es unfolding rmap_eq_Inr
    by (rule list_all2_mono) (drule evaluate_signal_Inr, erule evaluation_key)
  then have "map evaluation_order es = map (\<lambda>item. signal_value (sig_key (in_signal item))) inputs"
    by (simp add: list_all2_conv_all_nth list_eq_iff_nth_eq)
  with es d r show ?thesis by simp
qed

lemma candidate_signals_distinct:
  assumes "distinct (map evaluation_order es)"
    and "\<And>e c. e \<in> set es \<Longrightarrow> se_candidate e = Some c \<Longrightarrow> sc_signal_key c = se_signal_key e"
  shows "distinct (map (\<lambda>c. signal_value (sc_signal_key c)) (present_candidates es))"
  using assms
proof (induction es)
  case (Cons e es)
  then have IH: "distinct (map (\<lambda>c. signal_value (sc_signal_key c)) (present_candidates es))"
    by simp
  have "evaluation_order e \<noteq> signal_value (sc_signal_key c)" if "c \<in> set (present_candidates es)" for c
    using that Cons.prems by (force simp: present_candidates_in evaluation_order_def)
  with IH Cons.prems(2) [of e] show ?case
    by (auto simp: present_candidates_def List.map_filter_simps evaluation_order_def
        split: option.splits)
qed (simp add: present_candidates_def)

lemma candidate_order_distinct:
  assumes "distinct (map (\<lambda>c. signal_value (sc_signal_key c)) cs)"
  shows "distinct (map candidate_order cs)"
  using assms by (induction cs) (auto simp: candidate_order_def)

lemma rank_evaluations:
  assumes "rank_metric_shifts w inputs p = Inr r"
  shows "e \<in> set (result_evaluations r) \<Longrightarrow> \<exists>item \<in> set inputs. evaluate_signal w item p = Inr e"
    and "item \<in> set inputs \<Longrightarrow> \<exists>e \<in> set (result_evaluations r). evaluate_signal w item p = Inr e"
    and "sorted_wrt (<) (map evaluation_order (result_evaluations r))"
    and "length (result_evaluations r) = length inputs"
  using rank_metric_shifts_Inr [OF assms] evaluations.canon_strict
  by (auto dest: rmap_Inr_in rmap_Inr_in_dom rmap_Inr_length)

lemma rank_candidates:
  assumes "rank_metric_shifts w inputs p = Inr r"
  shows "sorted_wrt (<) (map candidate_order (result_candidates r))"
    and "distinct (map (\<lambda>c. signal_value (sc_signal_key c)) (result_candidates r))"
    and "mset (result_candidates r) = mset (present_candidates (result_evaluations r))"
proof -
  note shape = rank_metric_shifts_Inr [OF assms]
  have keys: "sc_signal_key c = se_signal_key e"
    if "e \<in> set (result_evaluations r)" "se_candidate e = Some c" for e c
    using rank_evaluations(1) [OF assms that(1)] that(2) evaluate_signal_Inr
    by (force simp: evaluation_of_def)
  have "distinct (map evaluation_order (result_evaluations r))"
    using rank_evaluations(3) [OF assms] by (simp add: strict_sorted_iff)
  from candidate_signals_distinct [OF this keys]
  have d: "distinct (map (\<lambda>c. signal_value (sc_signal_key c))
      (present_candidates (result_evaluations r)))" by blast
  show "sorted_wrt (<) (map candidate_order (result_candidates r))"
    using shape candidates.canon_strict [OF candidate_order_distinct [OF d]] by auto
  show m: "mset (result_candidates r) = mset (present_candidates (result_evaluations r))"
    using shape by (metis mset_sort)
  show "distinct (map (\<lambda>c. signal_value (sc_signal_key c)) (result_candidates r))"
    using d m by (metis mset_eq_imp_distinct_iff mset_map)
qed

lemma rank_candidate_valid:
  assumes "rank_metric_shifts w inputs p = Inr r" "list_all valid_input inputs"
    and "c \<in> set (result_candidates r)"
  shows "valid_candidate c"
proof -
  from assms(3) rank_candidates(3) [OF assms(1)]
  have "c \<in> set (present_candidates (result_evaluations r))"
    by (metis set_mset_mset)
  with rank_evaluations(1) [OF assms(1)] assms(2) evaluate_signal_candidate show ?thesis
    by (force simp: present_candidates_in list_all_iff)
qed

lemma conclude_Ranking:
  assumes "conclude p es cs = Ranking k"
  shows "\<exists>first rest. cs = first # rest \<and>
    \<not> flt (sc_suspicion_score first) (bp_minimum_score p) \<and>
    (rest = [] \<longrightarrow> br_lead k = finf False) \<and>
    (\<forall>second others. rest = second # others \<longrightarrow>
       br_lead k = fsub (sc_suspicion_score first) (sc_suspicion_score second) \<and>
       \<not> flt (br_lead k) (bp_minimum_margin p))"
  using assms by (auto simp: conclude_def Let_def split: if_splits list.splits)

lemma conclude_Abstention:
  assumes "conclude p es cs = Abstention a"
  shows "ba_signal_evaluations a = es" "ba_evaluated_candidates a = cs"
    "ba_reason a = INSUFFICIENT_EVIDENCE \<longleftrightarrow> cs = []"
    "ba_reason a = WEAK_EVIDENCE \<longleftrightarrow>
       cs \<noteq> [] \<and> flt (sc_suspicion_score (hd cs)) (bp_minimum_score p)"
    "ba_reason a = AMBIGUOUS_EVIDENCE \<longleftrightarrow>
       2 \<le> length cs \<and> \<not> flt (sc_suspicion_score (hd cs)) (bp_minimum_score p) \<and>
       flt (fsub (sc_suspicion_score (hd cs)) (sc_suspicion_score (cs ! 1))) (bp_minimum_margin p)"
  using assms
  by (auto simp: conclude_def Let_def split: list.splits if_splits)

lemma candidate_order_score_le:
  assumes "sorted_wrt (<) (map candidate_order (first # rest))" "c \<in> set (first # rest)"
  shows "fval (sc_suspicion_score c) \<le> fval (sc_suspicion_score first)"
  using assms by (auto simp: candidate_order_def)

lemma rank_error:
  "rank_metric_shifts w inputs p = Inl e \<Longrightarrow>
     e = DuplicateSignalError \<and> \<not> distinct (map (\<lambda>item. signal_value (sig_key (in_signal item))) inputs) \<or>
     e = BaselineComputationError \<and> distinct (map (\<lambda>item. signal_value (sig_key (in_signal item))) inputs)"
  by (auto simp: rank_metric_shifts_def Let_def rbind_eq_Inl
      dest!: rmap_eq_Inl evaluate_signal_error split: if_splits)

lemma rank_permuted_Inr:
  assumes "rank_metric_shifts w xs p = Inr r" "mset xs = mset ys"
  shows "rank_metric_shifts w ys p = Inr r"
proof -
  let ?k = "\<lambda>item. signal_value (sig_key (in_signal item))"
  let ?f = "\<lambda>item. evaluate_signal w item p"
  from rank_metric_shifts_Inr [OF assms(1)] obtain es where
    es: "rmap ?f xs = Inr es" "distinct (map evaluation_order es)"
    and r: "result_evaluations r = sort_key evaluation_order es"
      "r = conclude p (result_evaluations r)
         (sort_key candidate_order (present_candidates (result_evaluations r)))"
    by auto
  obtain fs where fs: "rmap ?f ys = Inr fs" "mset fs = mset es"
    using rmap_Inr_mset [OF es(1) assms(2) [symmetric]] by blast
  have "distinct (map ?k xs)"
    using assms(1) by (auto simp: rank_metric_shifts_def Let_def res_simps)
  with assms(2) have d: "distinct (map ?k ys)"
    by (metis mset_eq_imp_distinct_iff mset_map)
  have "sort_key evaluation_order fs = sort_key evaluation_order es"
    using evaluations.canon_perm [OF es(2) fs(2) [symmetric]] by simp
  with d fs(1) r show ?thesis
    by (simp add: rank_metric_shifts_def Let_def)
qed

lemma rank_no_candidates:
  assumes "rank_metric_shifts w inputs p = Inr r"
  shows "result_candidates r = [] \<longleftrightarrow> (\<forall>e \<in> set (result_evaluations r). \<not> se_eligible e)"
proof -
  have "set (result_candidates r) = set (present_candidates (result_evaluations r))"
    using rank_candidates(3) [OF assms] by (rule mset_eq_setD)
  then have "result_candidates r = [] \<longleftrightarrow> (\<forall>e \<in> set (result_evaluations r). se_candidate e = None)"
    by (cases "result_candidates r") (simp_all add: set_eq_iff present_candidates_in, (metis not_Some_eq)+)
  moreover have "se_candidate e = None \<longleftrightarrow> \<not> se_eligible e" if "e \<in> set (result_evaluations r)" for e
  proof -
    from rank_evaluations(1) [OF assms that] obtain item where "evaluate_signal w item p = Inr e"
      by blast
    from evaluate_signal_Inr [OF this] show ?thesis
      unfolding evaluation_of_def by blast
  qed
  ultimately show ?thesis by simp
qed

lemma rank_scores:
  assumes "rank_metric_shifts w inputs p = Inr r" "list_all valid_input inputs"
    and "result_candidates r = first # rest" "c \<in> set (first # rest)"
  shows "isfinite (sc_suspicion_score c)" "0 \<le> fval (sc_suspicion_score c)"
    "fval (sc_suspicion_score c) \<le> fval (sc_suspicion_score first)"
proof -
  have "valid_candidate c"
    using rank_candidate_valid [OF assms(1,2)] assms(3,4) by simp
  then show "isfinite (sc_suspicion_score c)" "0 \<le> fval (sc_suspicion_score c)"
    by (auto simp: valid_candidate_def)
  show "fval (sc_suspicion_score c) \<le> fval (sc_suspicion_score first)"
    using rank_candidates(1) [OF assms(1)] assms(3,4) candidate_order_score_le by metis
qed

section \<open>Sample inputs\<close>

definition sample_window :: incident_window where
  "sample_window = \<lparr>win_start = 0, win_injection = 100, win_end = 200\<rparr>"

definition sample_policy :: baseline_policy where
  "sample_policy = \<lparr>bp_minimum_points_per_window = 1, bp_minimum_score = float_one,
     bp_minimum_margin = float_one, bp_relative_scale_floor = fzero False\<rparr>"

definition float_nine :: f64 where
  "float_nine = F64 False 1026 562949953421312"

definition float_ten :: f64 where
  "float_ten = F64 False 1026 1125899906842624"

definition sample_signal :: "string \<Rightarrow> f64 \<Rightarrow> f64 \<Rightarrow> metric_signal" where
  "sample_signal name pre post = \<lparr>sig_key = SignalKey (lit name),
     sig_points = [\<lparr>pt_observed_at = 50, pt_value = pre\<rparr>, \<lparr>pt_observed_at = 150, pt_value = post\<rparr>]\<rparr>"

definition sample_latency :: signal_baseline_input where
  "sample_latency = \<lparr>in_signal = sample_signal ''latency'' float_one float_ten,
     in_absolute_scale_floor = float_one\<rparr>"

definition sample_errors :: signal_baseline_input where
  "sample_errors = \<lparr>in_signal = sample_signal ''errors'' float_two float_two,
     in_absolute_scale_floor = float_one\<rparr>"

definition sample_latency_candidate :: suspicion_candidate where
  "sample_latency_candidate = \<lparr>sc_signal_key = SignalKey (lit ''latency''), sc_pre_point_count = 1,
     sc_post_point_count = 1, sc_pre_median = float_one, sc_post_median = float_ten,
     sc_pre_mad = fzero False, sc_absolute_scale_floor = float_one,
     sc_relative_scale_floor = fzero False, sc_scale = float_one, sc_signed_score = float_nine,
     sc_suspicion_score = float_nine\<rparr>"

definition sample_errors_candidate :: suspicion_candidate where
  "sample_errors_candidate = \<lparr>sc_signal_key = SignalKey (lit ''errors''), sc_pre_point_count = 1,
     sc_post_point_count = 1, sc_pre_median = float_two, sc_post_median = float_two,
     sc_pre_mad = fzero False, sc_absolute_scale_floor = float_one,
     sc_relative_scale_floor = fzero False, sc_scale = float_one, sc_signed_score = fzero False,
     sc_suspicion_score = fzero False\<rparr>"

definition sample_evaluation :: "string \<Rightarrow> suspicion_candidate \<Rightarrow> signal_evaluation" where
  "sample_evaluation name c = \<lparr>se_signal_key = SignalKey (lit name), se_absolute_scale_floor = float_one,
     se_pre_point_count = 1, se_post_point_count = 1, se_eligible = True, se_candidate = Some c\<rparr>"

definition sample_ranking :: baseline_ranking where
  "sample_ranking = \<lparr>br_policy = sample_policy,
     br_signal_evaluations = [sample_evaluation ''errors'' sample_errors_candidate,
                              sample_evaluation ''latency'' sample_latency_candidate],
     br_candidates = [sample_latency_candidate, sample_errors_candidate],
     br_lead = float_nine\<rparr>"

definition sample_abstention :: baseline_abstention where
  "sample_abstention = \<lparr>ba_policy = sample_policy, ba_reason = WEAK_EVIDENCE,
     ba_signal_evaluations = [sample_evaluation ''errors'' sample_errors_candidate],
     ba_evaluated_candidates = [sample_errors_candidate], ba_eligible_signal_count = 1,
     ba_top_score = Some (fzero False), ba_second_score = None\<rparr>"

lemma fabs_fzero [simp]: "fabs (fzero s) = fzero False"
  by (simp add: fabs_def fzero_def)

lemma fsub_self [simp]: "isfinite x \<Longrightarrow> fsub x x = fzero False"
  by (simp add: fsub_def fadd_def)

lemma fmul_zero [simp]:
  "isfinite x \<Longrightarrow> fmul x (fzero s) = fzero (fsign x \<noteq> s)"
  "isfinite x \<Longrightarrow> fmul (fzero s) x = fzero (s \<noteq> fsign x)"
  by (simp_all add: fmul_def fround_def)

lemma median_single [simp]: "median [x] = Some x"
  by (simp add: median_def)

lemma sample_floats [simp]:
  "isfinite float_one" "isfinite float_two" "isfinite float_nine" "isfinite float_ten"
  "isfinite float_1_4826"
  "fval float_one = 1" "fval float_two = 2" "fval float_nine = 9" "fval float_ten = 10"
  "fabs float_one = float_one" "fabs float_two = float_two" "fabs float_nine = float_nine"
  "fsign float_one = False" "fsign float_two = False" "fsign float_1_4826 = False"
  "fround False 9 = float_nine" "fdiv float_nine float_one = Some float_nine"
proof -
  have all: "(isfinite float_one) \<and>
    (isfinite float_two) \<and>
    (isfinite float_nine) \<and>
    (isfinite float_ten) \<and>
    (isfinite float_1_4826) \<and>
    (fval float_one = 1) \<and>
    (fval float_two = 2) \<and>
    (fval float_nine = 9) \<and>
    (fval float_ten = 10) \<and>
    (fabs float_one = float_one) \<and>
    (fabs float_two = float_two) \<and>
    (fabs float_nine = float_nine) \<and>
    (fsign float_one = False) \<and>
    (fsign float_two = False) \<and>
    (fsign float_1_4826 = False) \<and>
    (fround False 9 = float_nine) \<and>
    (fdiv float_nine float_one = Some float_nine)"
    by code_simp
  show "isfinite float_one"
    "isfinite float_two"
    "isfinite float_nine"
    "isfinite float_ten"
    "isfinite float_1_4826"
    "fval float_one = 1"
    "fval float_two = 2"
    "fval float_nine = 9"
    "fval float_ten = 10"
    "fabs float_one = float_one"
    "fabs float_two = float_two"
    "fabs float_nine = float_nine"
    "fsign float_one = False"
    "fsign float_two = False"
    "fsign float_1_4826 = False"
    "fround False 9 = float_nine"
    "fdiv float_nine float_one = Some float_nine"
    by (simp_all only: all)
qed

lemma sample_zero_div [simp]: "fdiv (fzero False) float_one = Some (fzero False)"
  by (simp add: fdiv_def fround_def) (simp add: float_one_def iszero_def)

lemma sample_differences [simp]:
  "fsub float_ten float_one = float_nine" "fsub float_nine (fzero False) = float_nine"
  by (simp_all add: fsub_def fadd_def)

lemmas sample_defs = sample_window_def sample_policy_def sample_signal_def sample_latency_def
  sample_errors_def sample_latency_candidate_def sample_errors_candidate_def sample_evaluation_def

lemmas evaluation_defs = evaluate_signal_def pre_values_def post_values_def score_candidate_def
  score_try_def require_finite_def fmax_def flt_def Let_def

lemma sample_evaluate [simp]:
  "evaluate_signal sample_window sample_latency sample_policy =
     Inr (sample_evaluation ''latency'' sample_latency_candidate)"
  "evaluate_signal sample_window sample_errors sample_policy =
     Inr (sample_evaluation ''errors'' sample_errors_candidate)"
  by (simp_all add: sample_defs evaluation_defs)

lemma sample_valid [simp]: "valid_window sample_window" "valid_policy sample_policy"
  "valid_input sample_latency" "valid_input sample_errors"
  by (simp_all add: sample_defs valid_window_def in_calendar_def min_instant_def max_instant_def
      valid_policy_def nonneg_finite_def valid_input_def positive_finite_def valid_signal_def
      valid_point_def)

lemma sample_orders [simp]:
  "sort_key evaluation_order [sample_evaluation ''latency'' c, sample_evaluation ''errors'' d] =
     [sample_evaluation ''errors'' d, sample_evaluation ''latency'' c]"
  "sort_key evaluation_order [e] = [e]"
  "sort_key candidate_order [sample_errors_candidate, sample_latency_candidate] =
     [sample_latency_candidate, sample_errors_candidate]"
  "sort_key candidate_order [c] = [c]"
  by (simp_all add: sample_defs evaluation_order_def candidate_order_def lit_def)

lemma sample_present [simp]:
  "present_candidates [] = []"
  "present_candidates (sample_evaluation n c # es) = c # present_candidates es"
  by (simp_all add: present_candidates_def sample_evaluation_def)

lemma sample_keys [simp]:
  "signal_value (sig_key (in_signal sample_latency)) = lit ''latency''"
  "signal_value (sig_key (in_signal sample_errors)) = lit ''errors''"
  by (simp_all add: sample_latency_def sample_errors_def sample_signal_def)

lemma sample_rank:
  "rank_metric_shifts sample_window [sample_latency, sample_errors] sample_policy =
     Inr (Ranking sample_ranking)"
proof -
  have "conclude sample_policy (br_signal_evaluations sample_ranking) (br_candidates sample_ranking) =
      Ranking sample_ranking"
    by (simp add: conclude_def sample_ranking_def Let_def flt_def sample_latency_candidate_def
        sample_errors_candidate_def sample_policy_def)
  then show ?thesis
    by (simp add: rank_metric_shifts_def Let_def sample_ranking_def del: sort_key_simps)
qed

lemma sample_rank_weak:
  "rank_metric_shifts sample_window [sample_errors] sample_policy = Inr (Abstention sample_abstention)"
proof -
  have "conclude sample_policy (ba_signal_evaluations sample_abstention)
      (ba_evaluated_candidates sample_abstention) = Abstention sample_abstention"
    by (simp add: conclude_def sample_abstention_def Let_def flt_def
        sample_errors_candidate_def sample_policy_def)
  then show ?thesis
    by (simp add: rank_metric_shifts_def Let_def sample_abstention_def del: sort_key_simps)
qed

section \<open>Properties\<close>

text \<open>
  The baseline is deterministic in the strong sense its module promises: the result (or
  the error) depends on which configured signals are given, not on the order they come in.
\<close>

theorem rank_metric_shifts_order_independent:
  assumes "mset xs = mset ys"
  shows "rank_metric_shifts w xs p = rank_metric_shifts w ys p"
proof (cases "rank_metric_shifts w xs p")
  case (Inr r)
  then show ?thesis using rank_permuted_Inr [OF Inr assms] by simp
next
  case (Inl e)
  have "distinct (map (\<lambda>item. signal_value (sig_key (in_signal item))) xs) \<longleftrightarrow>
        distinct (map (\<lambda>item. signal_value (sig_key (in_signal item))) ys)"
    using assms by (metis mset_eq_imp_distinct_iff mset_map)
  moreover obtain f where f: "rank_metric_shifts w ys p = Inl f"
    using Inl rank_permuted_Inr [OF _ assms [symmetric]]
    by (cases "rank_metric_shifts w ys p") auto
  ultimately show ?thesis
    using Inl rank_error [OF Inl] rank_error [OF f] by auto
qed

theorem rank_metric_shifts_order_independent_witness:
  "rank_metric_shifts sample_window [sample_errors, sample_latency] sample_policy =
     Inr (Ranking sample_ranking)"
  using rank_metric_shifts_order_independent
    [of "[sample_latency, sample_errors]" "[sample_errors, sample_latency]" sample_window sample_policy]
    sample_rank by simp

text \<open>
  C6. A ranking is decisive: it has a first candidate whose score reaches the policy's
  minimum; the candidates are strictly ordered by descending score and then signal name, one
  per signal; the lead over the runner-up is finite and reaches the minimum margin; and with
  a positive margin every other candidate scores strictly less than the first.
\<close>

theorem ranking_is_decisive:
  assumes "valid_policy p" "list_all valid_input inputs"
    and "rank_metric_shifts w inputs p = Inr (Ranking k)"
  shows "\<exists>first rest. br_candidates k = first # rest \<and>
    fval (bp_minimum_score p) \<le> fval (sc_suspicion_score first) \<and>
    sorted_wrt (<) (map candidate_order (br_candidates k)) \<and>
    distinct (map (\<lambda>c. signal_value (sc_signal_key c)) (br_candidates k)) \<and>
    (if rest = [] then br_lead k = finf False
     else br_lead k = fsub (sc_suspicion_score first) (sc_suspicion_score (hd rest)) \<and>
          isfinite (br_lead k) \<and> fval (bp_minimum_margin p) \<le> fval (br_lead k)) \<and>
    (0 < fval (bp_minimum_margin p) \<longrightarrow>
      (\<forall>c \<in> set rest. fval (sc_suspicion_score c) < fval (sc_suspicion_score first)))"
proof -
  let ?r = "Ranking k"
  have cs: "result_candidates ?r = br_candidates k" by (simp add: result_candidates_def)
  from rank_metric_shifts_Inr [OF assms(3)] cs
  have "conclude p (result_evaluations ?r) (br_candidates k) = Ranking k" by metis
  then obtain first rest where k: "br_candidates k = first # rest"
    and top: "\<not> flt (sc_suspicion_score first) (bp_minimum_score p)"
    and alone: "rest = [] \<Longrightarrow> br_lead k = finf False"
    and lead: "\<And>second others. rest = second # others \<Longrightarrow>
       br_lead k = fsub (sc_suspicion_score first) (sc_suspicion_score second) \<and>
       \<not> flt (br_lead k) (bp_minimum_margin p)"
    using conclude_Ranking by blast
  have valid: "valid_candidate c" if "c \<in> set (first # rest)" for c
    using rank_candidate_valid [OF assms(3,2)] that by (simp add: cs k)
  then have fin: "isfinite (sc_suspicion_score c)" "0 \<le> fval (sc_suspicion_score c)"
    if "c \<in> set (first # rest)" for c
    using that by (auto simp: valid_candidate_def)
  note order = rank_candidates(1) [OF assms(3), unfolded cs k]
  have le: "fval (sc_suspicion_score c) \<le> fval (sc_suspicion_score first)"
    if "c \<in> set (first # rest)" for c
    using candidate_order_score_le [OF order that] .
  have margin: "isfinite (br_lead k) \<and> fval (bp_minimum_margin p) \<le> fval (br_lead k)"
    if "rest = second # others" for second others
    using lead [OF that] fsub_ordered [of "sc_suspicion_score first" "sc_suspicion_score second"]
      fin [of first] fin [of second] le [of second] assms(1) that
    by (auto simp: flt_def valid_policy_def nonneg_finite_def)
  have strict: "fval (sc_suspicion_score c) < fval (sc_suspicion_score first)"
    if "0 < fval (bp_minimum_margin p)" "c \<in> set rest" for c
  proof -
    from that(2) obtain second others where r: "rest = second # others" by (cases rest) auto
    have "fval (sc_suspicion_score second) < fval (sc_suspicion_score first)"
      using lead [OF r] margin [OF r] that(1) fin [of first] fin [of second] r
        fsub_pos_D [of "sc_suspicion_score first" "sc_suspicion_score second"] by auto
    moreover have "fval (sc_suspicion_score c) \<le> fval (sc_suspicion_score second)"
      using candidate_order_score_le [of second others c] order that(2) r by auto
    ultimately show ?thesis by simp
  qed
  have "fval (bp_minimum_score p) \<le> fval (sc_suspicion_score first)"
    using top fin [of first] assms(1) by (auto simp: flt_def valid_policy_def nonneg_finite_def)
  then show ?thesis
    using k order rank_candidates(2) [OF assms(3)] alone lead margin strict cs
    by (cases rest) auto
qed

theorem ranking_is_decisive_witness:
  "valid_policy sample_policy \<and>
   (\<exists>first rest. br_candidates sample_ranking = first # rest \<and>
     fval (bp_minimum_score sample_policy) \<le> fval (sc_suspicion_score first))"
  using ranking_is_decisive [OF _ _ sample_rank] by auto

text \<open>
  Abstention is explained exactly: for insufficient evidence precisely when no signal
  had enough points on both sides, for weak evidence precisely when there were candidates and
  all of them score below the minimum, and for ambiguous evidence precisely when the best two
  candidates both exist, the best reaches the minimum and its lead is under the margin.
\<close>

theorem abstention_reason_exact:
  assumes "valid_policy p" "list_all valid_input inputs"
    and "rank_metric_shifts w inputs p = Inr (Abstention a)"
  shows "(ba_reason a = INSUFFICIENT_EVIDENCE \<longleftrightarrow>
            (\<forall>e \<in> set (ba_signal_evaluations a). \<not> se_eligible e)) \<and>
    (ba_reason a = WEAK_EVIDENCE \<longleftrightarrow> ba_evaluated_candidates a \<noteq> [] \<and>
       (\<forall>c \<in> set (ba_evaluated_candidates a).
          fval (sc_suspicion_score c) < fval (bp_minimum_score p))) \<and>
    (ba_reason a = AMBIGUOUS_EVIDENCE \<longleftrightarrow>
       (\<exists>first second rest. ba_evaluated_candidates a = first # second # rest \<and>
          fval (bp_minimum_score p) \<le> fval (sc_suspicion_score first) \<and>
          fval (fsub (sc_suspicion_score first) (sc_suspicion_score second))
            < fval (bp_minimum_margin p)))"
proof -
  let ?r = "Abstention a" and ?cs = "ba_evaluated_candidates a"
  have cs: "result_candidates ?r = ?cs" "result_evaluations ?r = ba_signal_evaluations a"
    by (simp_all add: result_candidates_def result_evaluations_def)
  from rank_metric_shifts_Inr [OF assms(3)] cs
  have "conclude p (ba_signal_evaluations a) ?cs = Abstention a" by metis
  note reason = conclude_Abstention(3-5) [OF this]
  have pol: "isfinite (bp_minimum_score p)" "isfinite (bp_minimum_margin p)"
    using assms(1) by (auto simp: valid_policy_def nonneg_finite_def)
  have insufficient: "?cs = [] \<longleftrightarrow> (\<forall>e \<in> set (ba_signal_evaluations a). \<not> se_eligible e)"
    using rank_no_candidates [OF assms(3)] cs by simp
  show ?thesis
  proof (cases ?cs)
    case Nil
    with reason insufficient show ?thesis by simp
  next
    case (Cons first rest)
    note scores = rank_scores [OF assms(3,2), unfolded cs, OF Cons]
    have weak: "flt (sc_suspicion_score first) (bp_minimum_score p) \<longleftrightarrow>
        (\<forall>c \<in> set ?cs. fval (sc_suspicion_score c) < fval (bp_minimum_score p))"
      using scores pol unfolding Cons by (auto simp: flt_def intro: le_less_trans)
    have "flt (sc_suspicion_score first) (bp_minimum_score p) \<longleftrightarrow>
        fval (sc_suspicion_score first) < fval (bp_minimum_score p)"
      using scores(1) [of first] pol by (simp add: flt_def)
    moreover have "flt (fsub (sc_suspicion_score first) (sc_suspicion_score second))
          (bp_minimum_margin p) \<longleftrightarrow>
        fval (fsub (sc_suspicion_score first) (sc_suspicion_score second)) < fval (bp_minimum_margin p)"
      if "second \<in> set rest" for second
      using that scores(1) [of first] scores [of second] pol fsub_ordered by (simp add: flt_def)
    ultimately show ?thesis
      using reason weak insufficient Cons by (cases rest) (auto simp: not_less)
  qed
qed

theorem abstention_reason_exact_witness:
  "ba_reason sample_abstention = WEAK_EVIDENCE \<and>
   (\<exists>e \<in> set (ba_signal_evaluations sample_abstention). se_eligible e)"
  using abstention_reason_exact [OF _ _ sample_rank_weak]
  by (simp add: sample_abstention_def sample_evaluation_def)

text \<open>
  Scores mean what they say: every candidate of a result is finite, its suspicion score
  is the magnitude of its signed score, and a positive (negative) signed score is only given
  to a signal whose median after the injection is above (below) its median before it.
\<close>

theorem candidate_scores_sound:
  assumes "list_all valid_input inputs" "rank_metric_shifts w inputs p = Inr r"
    and "c \<in> set (result_candidates r)"
  shows "isfinite (sc_signed_score c) \<and> sc_suspicion_score c = fabs (sc_signed_score c) \<and>
    fval (sc_absolute_scale_floor c) \<le> fval (sc_scale c) \<and> 0 < fval (sc_scale c) \<and>
    (0 < fval (sc_signed_score c) \<longrightarrow> fval (sc_pre_median c) < fval (sc_post_median c)) \<and>
    (fval (sc_signed_score c) < 0 \<longrightarrow> fval (sc_post_median c) < fval (sc_pre_median c))"
  using rank_candidate_valid [OF assms(2,1,3)] by (simp add: valid_candidate_def positive_finite_def)

theorem candidate_scores_sound_witness:
  "0 < fval (sc_signed_score sample_latency_candidate) \<and>
   fval (sc_pre_median sample_latency_candidate) < fval (sc_post_median sample_latency_candidate)"
proof -
  have "0 < fval (sc_signed_score sample_latency_candidate)"
    by (simp add: sample_latency_candidate_def)
  then show ?thesis
    using candidate_scores_sound [OF _ sample_rank, of sample_latency_candidate]
    by (simp add: result_candidates_def sample_ranking_def)
qed

text \<open>
  The window is split without loss or overlap: the points a result counts before and
  after the injection are together exactly the points of the signal inside the window.
\<close>

theorem evaluation_counts_partition_window:
  assumes "valid_window w" "rank_metric_shifts w inputs p = Inr r" "item \<in> set inputs"
  shows "\<exists>e \<in> set (result_evaluations r). se_signal_key e = sig_key (in_signal item) \<and>
    se_pre_point_count e + se_post_point_count e =
      int (length (filter (\<lambda>pt. win_start w \<le> pt_observed_at pt \<and> pt_observed_at pt < win_end w)
             (sig_points (in_signal item)))) \<and>
    (se_eligible e \<longleftrightarrow> bp_minimum_points_per_window p \<le> se_pre_point_count e \<and>
                     bp_minimum_points_per_window p \<le> se_post_point_count e) \<and>
    (se_candidate e \<noteq> None \<longleftrightarrow> se_eligible e)"
proof -
  obtain e where e: "e \<in> set (result_evaluations r)" "evaluate_signal w item p = Inr e"
    using rank_evaluations(2) [OF assms(2,3)] by blast
  with evaluate_signal_Inr [OF e(2)] length_pre_post [OF assms(1), of "sig_points (in_signal item)"]
  show ?thesis
    by (intro bexI [of _ e]) (auto simp: evaluation_of_def)
qed

theorem evaluation_counts_partition_window_witness:
  "\<exists>e \<in> set (result_evaluations (Ranking sample_ranking)).
     se_signal_key e = SignalKey (lit ''latency'') \<and> se_pre_point_count e + se_post_point_count e = 2"
  using evaluation_counts_partition_window [OF _ sample_rank, of sample_latency]
  by (auto simp: sample_latency_def sample_signal_def sample_window_def valid_window_def
      in_calendar_def min_instant_def max_instant_def)

text \<open>
  Scoring a valid input with points on both sides can only fail by overflow: the guarded
  arithmetic never divides by zero and never takes the median of nothing, so a
  computation error means that one of the eight intermediate values is not finite.
\<close>

theorem score_candidate_fails_only_on_overflow:
  assumes "valid_input item" "pre \<noteq> []" "post \<noteq> []"
  shows "\<exists>l. score_try (in_absolute_scale_floor item) (bp_relative_scale_floor p) pre post = Some l \<and>
    (score_candidate item p pre post = Inl BaselineComputationError \<longleftrightarrow>
       \<not> list_all isfinite [pre_center l, post_center l, local_pre_mad l, robust_scale l,
            relative_scale l, local_scale l, local_signed_score l, local_suspicion_score l])"
  using score_try_total [OF _ assms(2,3)] assms(1)
  by (fastforce simp: valid_input_def score_candidate_def require_finite_def)

theorem score_candidate_fails_only_on_overflow_witness:
  "\<exists>l. score_try float_one (fzero False) [float_one] [float_ten] = Some l"
  using score_candidate_fails_only_on_overflow
    [of sample_latency "[float_one]" "[float_ten]" sample_policy]
  by (auto simp: sample_latency_def sample_policy_def valid_input_def positive_finite_def
      valid_signal_def sample_signal_def valid_point_def)

end
