(* ===== verification/Evidence_Parsing.thy ===== *)
theory Evidence_Parsing
  imports Baseline
begin

text \<open>
  \<^verbatim>\<open>domain/evidence/types.py\<close>, \<^verbatim>\<open>_parsing.py\<close> and \<^verbatim>\<open>_decisions.py\<close>: the immutable ledger
  types, the primitives that reconstruct a trusted value from an untrusted one, and the
  reconstruction of the aggregate decision. Every primitive either returns a value that
  satisfies the invariant of its type or fails with the one ledger error. Float equality is
  IEEE equality, as in Python: zeros of either sign are equal.
\<close>

section \<open>Types\<close>

definition SCHEMA_VERSION :: pystr where
  "SCHEMA_VERSION = lit ''metric-evidence-ledger.v1''"

datatype decision_kind = RANKING | ABSTENTION

record metric_shift_decision =
  md_kind :: decision_kind
  md_abstention_reason :: "abstention_reason option"
  md_candidate_signal_keys :: "signal_key list"
  md_eligible_signal_count :: int
  md_top_score :: "f64 option"
  md_second_score :: "f64 option"
  md_lead :: "f64 option"

record metric_shift_evidence =
  me_evidence_id :: evidence_id
  me_signal_key :: signal_key
  me_pre_point_count :: int
  me_post_point_count :: int
  me_eligible :: bool
  me_absolute_scale_floor :: f64
  me_relative_scale_floor :: f64
  me_candidate :: "suspicion_candidate option"

record metric_evidence_ledger =
  ml_schema_version :: pystr
  ml_tenant_id :: tenant_id
  ml_incident_id :: incident_id
  ml_run_id :: run_id
  ml_window :: incident_window
  ml_policy :: baseline_policy
  ml_decision :: metric_shift_decision
  ml_entries :: "metric_shift_evidence list"

section \<open>Parsing primitives\<close>

abbreviation invalid :: "domain_error + 'a" where
  "invalid \<equiv> Inl InvalidEvidenceLedgerError"

definition finite_float :: "pyval \<Rightarrow> bool \<Rightarrow> bool \<Rightarrow> domain_error + f64" where
  "finite_float v nonnegative positive =
     (case v of
        PyNum (PyBool _) \<Rightarrow> invalid
      | PyNum n \<Rightarrow>
          (case py_float n of
             None \<Rightarrow> invalid
           | Some x \<Rightarrow>
               if \<not> isfinite x then invalid
               else if positive \<and> fle x (fzero False) then invalid
               else if nonnegative \<and> flt x (fzero False) then invalid
               else Inr x)
      | _ \<Rightarrow> invalid)"

text \<open>The three ways the code calls it, on a field that holds a float.\<close>

abbreviation any_float :: "f64 \<Rightarrow> domain_error + f64" where
  "any_float x \<equiv> finite_float (PyNum (PyFloat x)) False False"

abbreviation nonneg_float :: "f64 \<Rightarrow> domain_error + f64" where
  "nonneg_float x \<equiv> finite_float (PyNum (PyFloat x)) True False"

abbreviation pos_float :: "f64 \<Rightarrow> domain_error + f64" where
  "pos_float x \<equiv> finite_float (PyNum (PyFloat x)) False True"

definition count_of :: "pyval \<Rightarrow> domain_error + int" where
  "count_of v = (case v of PyNum (PyInt n) \<Rightarrow> if n < 0 then invalid else Inr n | _ \<Rightarrow> invalid)"

abbreviation int_count :: "int \<Rightarrow> domain_error + int" where
  "int_count n \<equiv> count_of (PyNum (PyInt n))"

text \<open>\<^verbatim>\<open>_identifier\<close> at each of its three types.\<close>

definition identifier_of :: "(pystr \<Rightarrow> 'i) \<Rightarrow> pystr \<Rightarrow> domain_error + 'i" where
  "identifier_of expected_type v = (if is_blank v then invalid else Inr (expected_type v))"

definition signal_key_of :: "signal_key \<Rightarrow> domain_error + signal_key" where
  "signal_key_of k = (if is_blank (signal_value k) then invalid else Inr (SignalKey (signal_value k)))"

definition policy_of :: "baseline_policy \<Rightarrow> domain_error + baseline_policy" where
  "policy_of p =
     (if bp_minimum_points_per_window p < 1 then invalid
      else rbind (nonneg_float (bp_minimum_score p)) (\<lambda>score.
           rbind (nonneg_float (bp_minimum_margin p)) (\<lambda>margin.
           rbind (nonneg_float (bp_relative_scale_floor p)) (\<lambda>floor.
             make_baseline_policy (PyNum (PyInt (bp_minimum_points_per_window p)))
               (PyNum (PyFloat score)) (PyNum (PyFloat margin)) (PyNum (PyFloat floor))))))"

text \<open>
  The stored instants are already UTC; \<^verbatim>\<open>IncidentWindow(...)\<close> revalidates them, and every
  exception becomes the ledger error.
\<close>

definition window_of :: "incident_window \<Rightarrow> domain_error + incident_window" where
  "window_of w =
     (if \<not> (win_start w \<le> win_injection w \<and> win_injection w < win_end w) then invalid
      else case make_incident_window (utc (win_start w)) (utc (win_injection w)) (utc (win_end w)) of
             Inl _ \<Rightarrow> invalid | Inr v \<Rightarrow> Inr v)"

definition candidate_of ::
  "suspicion_candidate \<Rightarrow> signal_evaluation \<Rightarrow> baseline_policy \<Rightarrow> domain_error + suspicion_candidate" where
  "candidate_of v evaluation policy =
     rbind (signal_key_of (sc_signal_key v)) (\<lambda>signal_key.
     rbind (int_count (sc_pre_point_count v)) (\<lambda>pre_count.
     rbind (int_count (sc_post_point_count v)) (\<lambda>post_count.
     rbind (any_float (sc_pre_median v)) (\<lambda>pre_median.
     rbind (any_float (sc_post_median v)) (\<lambda>post_median.
     rbind (nonneg_float (sc_pre_mad v)) (\<lambda>pre_mad.
     rbind (pos_float (sc_absolute_scale_floor v)) (\<lambda>absolute_floor.
     rbind (nonneg_float (sc_relative_scale_floor v)) (\<lambda>relative_floor.
     rbind (pos_float (sc_scale v)) (\<lambda>scale.
     rbind (any_float (sc_signed_score v)) (\<lambda>signed_score.
     rbind (nonneg_float (sc_suspicion_score v)) (\<lambda>suspicion_score.
     if signal_key \<noteq> se_signal_key evaluation \<or> pre_count \<noteq> se_pre_point_count evaluation \<or>
        post_count \<noteq> se_post_point_count evaluation \<or>
        \<not> feq absolute_floor (se_absolute_scale_floor evaluation) \<or>
        \<not> feq relative_floor (bp_relative_scale_floor policy)
     then invalid
     else
       let robust = fmul float_1_4826 pre_mad;
           relative = fmul relative_floor (fmax (fabs pre_median) absolute_floor);
           expected_scale = fmax (fmax robust absolute_floor) relative
       in case fdiv (fsub post_median pre_median) expected_scale of
            None \<Rightarrow> invalid
          | Some expected_signed \<Rightarrow>
              if \<not> isfinite robust \<or> \<not> isfinite relative then invalid
              else if \<not> isfinite expected_signed then invalid
              else if \<not> feq scale expected_scale \<or> \<not> feq signed_score expected_signed \<or>
                      \<not> feq suspicion_score (fabs signed_score) then invalid
              else Inr \<lparr>sc_signal_key = signal_key, sc_pre_point_count = pre_count,
                     sc_post_point_count = post_count, sc_pre_median = pre_median,
                     sc_post_median = post_median, sc_pre_mad = pre_mad,
                     sc_absolute_scale_floor = absolute_floor,
                     sc_relative_scale_floor = relative_floor, sc_scale = scale,
                     sc_signed_score = signed_score, sc_suspicion_score = suspicion_score\<rparr>)))))))))))"

text \<open>One turn of the loop of \<^verbatim>\<open>_evaluations\<close>, the duplicate check apart.\<close>

definition evaluation_of_item ::
  "baseline_policy \<Rightarrow> signal_evaluation \<Rightarrow> domain_error + signal_evaluation" where
  "evaluation_of_item policy v =
     rbind (signal_key_of (se_signal_key v)) (\<lambda>signal_key.
     rbind (pos_float (se_absolute_scale_floor v)) (\<lambda>absolute_floor.
     rbind (int_count (se_pre_point_count v)) (\<lambda>pre_count.
     rbind (int_count (se_post_point_count v)) (\<lambda>post_count.
     let expected_eligible = (pre_count \<ge> bp_minimum_points_per_window policy \<and>
                              post_count \<ge> bp_minimum_points_per_window policy)
     in if se_eligible v \<noteq> expected_eligible \<or> (se_candidate v \<noteq> None) \<noteq> se_eligible v then invalid
        else
          let shell = \<lparr>se_signal_key = signal_key, se_absolute_scale_floor = absolute_floor,
                se_pre_point_count = pre_count, se_post_point_count = post_count,
                se_eligible = se_eligible v, se_candidate = None\<rparr>
          in rbind (case se_candidate v of
                      Some c \<Rightarrow> rbind (candidate_of c shell policy) (\<lambda>d. Inr (Some d))
                    | None \<Rightarrow> Inr None) (\<lambda>candidate.
             Inr (shell \<lparr>se_candidate := candidate\<rparr>))))))"

fun evaluations_loop ::
  "baseline_policy \<Rightarrow> pystr list \<Rightarrow> signal_evaluation list \<Rightarrow> domain_error + signal_evaluation list" where
  "evaluations_loop policy seen [] = Inr []"
| "evaluations_loop policy seen (v # vs) =
     (if signal_value (se_signal_key v) \<in> set seen then invalid
      else rbind (evaluation_of_item policy v) (\<lambda>e.
           rbind (evaluations_loop policy (signal_value (se_signal_key v) # seen) vs) (\<lambda>es.
             Inr (e # es))))"

definition evaluations_of ::
  "signal_evaluation list \<Rightarrow> baseline_policy
     \<Rightarrow> domain_error + signal_evaluation list \<times> suspicion_candidate list" where
  "evaluations_of vs policy =
     rbind (evaluations_loop policy [] vs) (\<lambda>copied.
       Inr (sort_key evaluation_order copied,
            sort_key candidate_order (present_candidates copied)))"

definition optional_score :: "f64 option \<Rightarrow> domain_error + f64 option" where
  "optional_score v =
     (case v of None \<Rightarrow> Inr None | Some x \<Rightarrow> rbind (nonneg_float x) (\<lambda>y. Inr (Some y)))"

section \<open>The aggregate decision\<close>

definition top_score_of :: "suspicion_candidate list \<Rightarrow> f64 option" where
  "top_score_of cs = (case cs of [] \<Rightarrow> None | c # _ \<Rightarrow> Some (sc_suspicion_score c))"

definition second_score_of :: "suspicion_candidate list \<Rightarrow> f64 option" where
  "second_score_of cs = (case cs of _ # c # _ \<Rightarrow> Some (sc_suspicion_score c) | _ \<Rightarrow> None)"

text \<open>\<^verbatim>\<open>==\<close> on optional floats and on candidates.\<close>

definition opt_feq :: "f64 option \<Rightarrow> f64 option \<Rightarrow> bool" where
  "opt_feq a b = (case (a, b) of (None, None) \<Rightarrow> True | (Some x, Some y) \<Rightarrow> feq x y | _ \<Rightarrow> False)"

definition candidate_eq :: "suspicion_candidate \<Rightarrow> suspicion_candidate \<Rightarrow> bool" where
  "candidate_eq a b \<longleftrightarrow>
     sc_signal_key a = sc_signal_key b \<and> sc_pre_point_count a = sc_pre_point_count b \<and>
     sc_post_point_count a = sc_post_point_count b \<and> feq (sc_pre_median a) (sc_pre_median b) \<and>
     feq (sc_post_median a) (sc_post_median b) \<and> feq (sc_pre_mad a) (sc_pre_mad b) \<and>
     feq (sc_absolute_scale_floor a) (sc_absolute_scale_floor b) \<and>
     feq (sc_relative_scale_floor a) (sc_relative_scale_floor b) \<and>
     feq (sc_scale a) (sc_scale b) \<and> feq (sc_signed_score a) (sc_signed_score b) \<and>
     feq (sc_suspicion_score a) (sc_suspicion_score b)"

definition expected_reason ::
  "baseline_policy \<Rightarrow> suspicion_candidate list \<Rightarrow> abstention_reason option" where
  "expected_reason policy candidates =
     (case candidates of
        [] \<Rightarrow> Some INSUFFICIENT_EVIDENCE
      | c # rest \<Rightarrow>
          if flt (sc_suspicion_score c) (bp_minimum_score policy) then Some WEAK_EVIDENCE
          else case rest of
                 [] \<Rightarrow> None
               | d # _ \<Rightarrow> if flt (fsub (sc_suspicion_score c) (sc_suspicion_score d))
                              (bp_minimum_margin policy)
                          then Some AMBIGUOUS_EVIDENCE else None)"

definition checked_lead ::
  "baseline_policy \<Rightarrow> suspicion_candidate \<Rightarrow> suspicion_candidate \<Rightarrow> f64 \<Rightarrow> domain_error + f64 option" where
  "checked_lead policy first second supplied =
     rbind (nonneg_float supplied) (\<lambda>lead.
       if \<not> feq lead (fsub (sc_suspicion_score first) (sc_suspicion_score second)) \<or>
          flt lead (bp_minimum_margin policy)
       then invalid else Inr (Some lead))"

definition decision_of ::
  "baseline_result \<Rightarrow> baseline_policy \<Rightarrow> suspicion_candidate list
     \<Rightarrow> domain_error + metric_shift_decision" where
  "decision_of result policy candidates =
     (let keys = map sc_signal_key candidates;
          top_score = top_score_of candidates;
          second_score = second_score_of candidates
      in case result of
        Ranking r \<Rightarrow>
          if \<not> list_all2 candidate_eq (br_candidates r) candidates then invalid
          else (case candidates of
             [] \<Rightarrow> invalid
           | c # rest \<Rightarrow>
               if flt (sc_suspicion_score c) (bp_minimum_score policy) then invalid
               else rbind (case rest of
                      [] \<Rightarrow> if \<not> isinf (br_lead r) \<or> flt (br_lead r) (fzero False)
                            then invalid else Inr None
                    | d # _ \<Rightarrow> checked_lead policy c d (br_lead r)) (\<lambda>lead.
                  Inr \<lparr>md_kind = RANKING, md_abstention_reason = None,
                       md_candidate_signal_keys = keys,
                       md_eligible_signal_count = int (length candidates),
                       md_top_score = top_score, md_second_score = second_score,
                       md_lead = lead\<rparr>))
      | Abstention a \<Rightarrow>
          if \<not> list_all2 candidate_eq (ba_evaluated_candidates a) candidates then invalid
          else rbind (int_count (ba_eligible_signal_count a)) (\<lambda>eligible_count.
               rbind (optional_score (ba_top_score a)) (\<lambda>supplied_top.
               rbind (optional_score (ba_second_score a)) (\<lambda>supplied_second.
               if eligible_count \<noteq> int (length candidates) \<or> \<not> opt_feq supplied_top top_score \<or>
                  \<not> opt_feq supplied_second second_score then invalid
               else case expected_reason policy candidates of
                      None \<Rightarrow> invalid
                    | Some reason \<Rightarrow>
                        if ba_reason a \<noteq> reason then invalid
                        else Inr \<lparr>md_kind = ABSTENTION, md_abstention_reason = Some (ba_reason a),
                               md_candidate_signal_keys = keys,
                               md_eligible_signal_count = eligible_count,
                               md_top_score = top_score, md_second_score = second_score,
                               md_lead = None\<rparr>))))"

definition ledger_decision ::
  "metric_shift_decision \<Rightarrow> baseline_policy \<Rightarrow> suspicion_candidate list
     \<Rightarrow> domain_error + metric_shift_decision" where
  "ledger_decision v policy candidates =
     rbind (rmap signal_key_of (md_candidate_signal_keys v)) (\<lambda>keys.
     rbind (int_count (md_eligible_signal_count v)) (\<lambda>eligible_count.
     rbind (optional_score (md_top_score v)) (\<lambda>supplied_top.
     rbind (optional_score (md_second_score v)) (\<lambda>supplied_second.
     let top_score = top_score_of candidates; second_score = second_score_of candidates in
     if keys \<noteq> map sc_signal_key candidates \<or> eligible_count \<noteq> int (length candidates) \<or>
        \<not> opt_feq supplied_top top_score \<or> \<not> opt_feq supplied_second second_score then invalid
     else rbind (case md_kind v of
            RANKING \<Rightarrow>
              (case candidates of
                 [] \<Rightarrow> invalid
               | c # rest \<Rightarrow>
                   if md_abstention_reason v \<noteq> None then invalid
                   else if flt (sc_suspicion_score c) (bp_minimum_score policy) then invalid
                   else rbind (case rest of
                          [] \<Rightarrow> if md_lead v \<noteq> None then invalid else Inr None
                        | d # _ \<Rightarrow> (case md_lead v of None \<Rightarrow> invalid
                                     | Some l \<Rightarrow> checked_lead policy c d l)) (\<lambda>lead.
                      Inr (None, lead)))
          | ABSTENTION \<Rightarrow>
              (case md_abstention_reason v of
                 None \<Rightarrow> invalid
               | Some supplied \<Rightarrow>
                   if md_lead v \<noteq> None then invalid
                   else (case expected_reason policy candidates of
                      None \<Rightarrow> invalid
                    | Some reason \<Rightarrow> if supplied \<noteq> reason then invalid else Inr (Some reason, None))))
          (\<lambda>(reason, lead).
            Inr \<lparr>md_kind = md_kind v, md_abstention_reason = reason,
                 md_candidate_signal_keys = keys, md_eligible_signal_count = eligible_count,
                 md_top_score = top_score, md_second_score = second_score, md_lead = lead\<rparr>)))))"

section \<open>What reconstruction accepts\<close>

named_theorems parse_simps \<open>exact acceptance conditions of the parsing primitives\<close>

lemma any_float_Inr [parse_simps]: "any_float x = Inr y \<longleftrightarrow> y = x \<and> isfinite x"
  by (auto simp: finite_float_def)

lemma nonneg_float_Inr [parse_simps]: "nonneg_float x = Inr y \<longleftrightarrow> y = x \<and> nonneg_finite x"
  by (auto simp: finite_float_def nonneg_finite_def flt_def)

lemma pos_float_Inr [parse_simps]: "pos_float x = Inr y \<longleftrightarrow> y = x \<and> positive_finite x"
  by (auto simp: finite_float_def positive_finite_def fle_def)

lemma int_count_Inr [parse_simps]: "int_count n = Inr m \<longleftrightarrow> m = n \<and> 0 \<le> n"
  by (auto simp: count_of_def)

lemma identifier_of_Inr [parse_simps]: "identifier_of f v = Inr i \<longleftrightarrow> i = f v \<and> \<not> is_blank v"
  by (auto simp: identifier_of_def)

lemma signal_key_of_Inr [parse_simps]:
  "signal_key_of k = Inr l \<longleftrightarrow> l = k \<and> \<not> is_blank (signal_value k)"
  by (auto simp: signal_key_of_def)

lemma policy_of_Inr [parse_simps]: "policy_of p = Inr q \<longleftrightarrow> q = p \<and> valid_policy p"
proof
  assume "policy_of p = Inr q"
  then show "q = p \<and> valid_policy p"
    by (auto simp: policy_of_def res_simps parse_simps make_baseline_policy_def
        finite_nonnegative_float valid_policy_def)
next
  assume "q = p \<and> valid_policy p"
  then show "policy_of p = Inr q"
    by (auto simp: policy_of_def res_simps parse_simps make_baseline_policy_def
        finite_nonnegative_float valid_policy_def)
qed

lemma window_of_Inr [parse_simps]: "window_of w = Inr v \<longleftrightarrow> v = w \<and> valid_window w"
proof
  assume "window_of w = Inr v"
  then show "v = w \<and> valid_window w"
    by (auto simp: window_of_def make_incident_window_def utc_def valid_window_def res_simps
        split: if_splits sum.splits)
next
  assume "v = w \<and> valid_window w"
  then show "window_of w = Inr v"
    using make_incident_window_utc [of w] by (auto simp: window_of_def valid_window_def)
qed

definition replayed_scale :: "suspicion_candidate \<Rightarrow> f64" where
  "replayed_scale c =
     fmax (fmax (fmul float_1_4826 (sc_pre_mad c)) (sc_absolute_scale_floor c))
       (fmul (sc_relative_scale_floor c) (fmax (fabs (sc_pre_median c)) (sc_absolute_scale_floor c)))"

text \<open>What a stored candidate must satisfy to be replayed from its own numbers.\<close>

definition replays :: "suspicion_candidate \<Rightarrow> bool" where
  "replays c \<longleftrightarrow> \<not> is_blank (signal_value (sc_signal_key c)) \<and>
     0 \<le> sc_pre_point_count c \<and> 0 \<le> sc_post_point_count c \<and>
     isfinite (sc_pre_median c) \<and> isfinite (sc_post_median c) \<and> nonneg_finite (sc_pre_mad c) \<and>
     positive_finite (sc_absolute_scale_floor c) \<and> nonneg_finite (sc_relative_scale_floor c) \<and>
     positive_finite (sc_scale c) \<and> isfinite (sc_signed_score c) \<and>
     nonneg_finite (sc_suspicion_score c) \<and>
     isfinite (fmul float_1_4826 (sc_pre_mad c)) \<and>
     isfinite (fmul (sc_relative_scale_floor c) (fmax (fabs (sc_pre_median c)) (sc_absolute_scale_floor c))) \<and>
     feq (sc_scale c) (replayed_scale c) \<and>
     (\<exists>s. fdiv (fsub (sc_post_median c) (sc_pre_median c)) (replayed_scale c) = Some s \<and>
          isfinite s \<and> feq (sc_signed_score c) s) \<and>
     feq (sc_suspicion_score c) (fabs (sc_signed_score c))"

definition matches :: "suspicion_candidate \<Rightarrow> signal_evaluation \<Rightarrow> baseline_policy \<Rightarrow> bool" where
  "matches c e p \<longleftrightarrow> sc_signal_key c = se_signal_key e \<and>
     sc_pre_point_count c = se_pre_point_count e \<and> sc_post_point_count c = se_post_point_count e \<and>
     feq (sc_absolute_scale_floor c) (se_absolute_scale_floor e) \<and>
     feq (sc_relative_scale_floor c) (bp_relative_scale_floor p)"

lemma candidate_of_Inr [parse_simps]:
  "candidate_of c e p = Inr d \<longleftrightarrow> d = c \<and> replays c \<and> matches c e p"
  by (auto simp: candidate_of_def res_simps parse_simps Let_def replays_def matches_def
      replayed_scale_def split: option.splits)

definition valid_evaluation :: "baseline_policy \<Rightarrow> signal_evaluation \<Rightarrow> bool" where
  "valid_evaluation p e \<longleftrightarrow> \<not> is_blank (signal_value (se_signal_key e)) \<and>
     positive_finite (se_absolute_scale_floor e) \<and> 0 \<le> se_pre_point_count e \<and>
     0 \<le> se_post_point_count e \<and>
     (se_eligible e \<longleftrightarrow> bp_minimum_points_per_window p \<le> se_pre_point_count e \<and>
                      bp_minimum_points_per_window p \<le> se_post_point_count e) \<and>
     (se_candidate e \<noteq> None \<longleftrightarrow> se_eligible e) \<and>
     (\<forall>c. se_candidate e = Some c \<longrightarrow> replays c \<and> matches c e p)"

lemma evaluation_of_item_Inr [parse_simps]:
  "evaluation_of_item p v = Inr e \<longleftrightarrow> e = v \<and> valid_evaluation p v"
proof (cases "se_candidate v")
  case None
  then show ?thesis
    by (cases v) (auto simp: evaluation_of_item_def res_simps parse_simps Let_def valid_evaluation_def)
next
  case (Some c)
  then show ?thesis
    by (cases v) (auto simp: evaluation_of_item_def res_simps parse_simps Let_def valid_evaluation_def
        matches_def)
qed

lemma evaluations_loop_Inr:
  "evaluations_loop p seen vs = Inr es \<longleftrightarrow> es = vs \<and> list_all (valid_evaluation p) vs \<and>
     distinct (map evaluation_order vs) \<and> set (map evaluation_order vs) \<inter> set seen = {}"
proof (induction vs arbitrary: seen es)
  case (Cons v vs)
  show ?case
    unfolding evaluations_loop.simps
    by (simp add: res_simps parse_simps Cons.IH evaluation_order_def) (auto simp: evaluation_order_def)
qed auto

lemma evaluations_of_Inr [parse_simps]:
  "evaluations_of vs p = Inr (es, cs) \<longleftrightarrow>
     list_all (valid_evaluation p) vs \<and> distinct (map evaluation_order vs) \<and>
     es = sort_key evaluation_order vs \<and> cs = sort_key candidate_order (present_candidates vs)"
  by (auto simp: evaluations_of_def res_simps evaluations_loop_Inr)

lemma optional_score_Inr [parse_simps]:
  "optional_score v = Inr w \<longleftrightarrow> w = v \<and> pred_option nonneg_finite v"
  by (auto simp: optional_score_def res_simps parse_simps split: option.splits)

lemma checked_lead_Inr [parse_simps]:
  "checked_lead p c d l = Inr r \<longleftrightarrow> r = Some l \<and> nonneg_finite l \<and>
     feq l (fsub (sc_suspicion_score c) (sc_suspicion_score d)) \<and> \<not> flt l (bp_minimum_margin p)"
  by (auto simp: checked_lead_def res_simps parse_simps)

lemma opt_feq_refl: "pred_option nonneg_finite v \<Longrightarrow> opt_feq v v"
  by (auto simp: opt_feq_def nonneg_finite_def split: option.splits)

text \<open>What a stored decision must satisfy against the candidates replayed from the entries.\<close>

definition lead_ok ::
  "baseline_policy \<Rightarrow> suspicion_candidate list \<Rightarrow> f64 option \<Rightarrow> bool" where
  "lead_ok p cs lead =
     (case cs of
        [] \<Rightarrow> False
      | c # rest \<Rightarrow> \<not> flt (sc_suspicion_score c) (bp_minimum_score p) \<and>
          (case rest of
             [] \<Rightarrow> lead = None
           | d # _ \<Rightarrow> (\<exists>l. lead = Some l \<and> nonneg_finite l \<and> \<not> flt l (bp_minimum_margin p) \<and>
                        feq l (fsub (sc_suspicion_score c) (sc_suspicion_score d)))))"

definition decision_consistent ::
  "metric_shift_decision \<Rightarrow> baseline_policy \<Rightarrow> suspicion_candidate list \<Rightarrow> bool" where
  "decision_consistent v p cs \<longleftrightarrow>
     md_candidate_signal_keys v = map sc_signal_key cs \<and>
     list_all (\<lambda>k. \<not> is_blank (signal_value k)) (md_candidate_signal_keys v) \<and>
     md_eligible_signal_count v = int (length cs) \<and>
     pred_option nonneg_finite (md_top_score v) \<and> pred_option nonneg_finite (md_second_score v) \<and>
     opt_feq (md_top_score v) (top_score_of cs) \<and> opt_feq (md_second_score v) (second_score_of cs) \<and>
     (case md_kind v of
        RANKING \<Rightarrow> md_abstention_reason v = None \<and> lead_ok p cs (md_lead v)
      | ABSTENTION \<Rightarrow> md_lead v = None \<and> expected_reason p cs \<noteq> None \<and>
          md_abstention_reason v = expected_reason p cs)"

lemma rmap_signal_key_of [parse_simps]:
  "rmap signal_key_of ks = Inr ls \<longleftrightarrow> ls = ks \<and> list_all (\<lambda>k. \<not> is_blank (signal_value k)) ks"
  by (induction ks arbitrary: ls) (auto simp: res_simps parse_simps)

lemma ledger_decision_Inr [parse_simps]:
  "ledger_decision v p cs = Inr d \<longleftrightarrow> decision_consistent v p cs \<and>
     d = v \<lparr>md_top_score := top_score_of cs, md_second_score := second_score_of cs\<rparr>"
proof (cases "md_kind v")
  case RANKING
  then show ?thesis
    by (cases v; cases cs)
      (auto simp: ledger_decision_def res_simps parse_simps Let_def decision_consistent_def lead_ok_def
        split: list.splits option.splits)
next
  case ABSTENTION
  then show ?thesis
    by (cases v)
      (auto simp: ledger_decision_def res_simps parse_simps Let_def decision_consistent_def
        split: option.splits)
qed

definition scored :: "suspicion_candidate list \<Rightarrow> bool" where
  "scored cs \<longleftrightarrow> list_all (\<lambda>c. nonneg_finite (sc_suspicion_score c) \<and>
     \<not> is_blank (signal_value (sc_signal_key c))) cs"

lemma scored_scores:
  assumes "scored cs"
  shows "pred_option nonneg_finite (top_score_of cs)" "pred_option nonneg_finite (second_score_of cs)"
    "list_all (\<lambda>k. \<not> is_blank (signal_value k)) (map sc_signal_key cs)"
  using assms by (auto simp: scored_def top_score_of_def second_score_of_def list_all_iff
      split: list.splits)

lemma decision_consistent_stable:
  assumes "scored cs" "decision_consistent v p cs"
  shows "decision_consistent (v \<lparr>md_top_score := top_score_of cs, md_second_score := second_score_of cs\<rparr>) p cs"
  using assms scored_scores [OF assms(1)]
  by (auto simp: decision_consistent_def opt_feq_refl split: decision_kind.splits)

lemma decision_of_consistent:
  assumes "scored cs" "decision_of r p cs = Inr d"
  shows "ledger_decision d p cs = Inr d"
proof -
  note facts = scored_scores [OF assms(1)] opt_feq_refl
  show ?thesis
  proof (cases r)
    case (Ranking k)
    with assms(2) facts show ?thesis
      by (cases cs) (auto simp: decision_of_def Let_def res_simps parse_simps decision_consistent_def
          lead_ok_def split: list.splits)
  next
    case (Abstention a)
    with assms(2) facts show ?thesis
      by (auto simp: decision_of_def Let_def res_simps parse_simps decision_consistent_def
          split: option.splits)
  qed
qed

end
