(* ===== verification/Canonical_Json.thy ===== *)
theory Canonical_Json
  imports Prelude
begin

text \<open>
  The canonical encoding the domain layer hashes and stores:
  \<^verbatim>\<open>json.dumps(payload, ensure_ascii=False, allow_nan=False, sort_keys=True,
  separators=(",", ":")).encode("utf-8")\<close>.

  \<open>json\<close> is the part of JSON the payloads use (floats travel as hexadecimal strings).
  \<open>dumps\<close> sorts every object by key and prints without spaces; \<open>utf8\<close> fails on surrogate
  code points, as Python's codec does. Both are shown injective: the printer as a
  prefix-free code in front of a delimiter, the codec by decoding on the first byte.
  The limit of 4300 digits on printed integers is left out.
\<close>

datatype json =
    JNull
  | JBool bool
  | JInt int
  | JStr pystr
  | JList "json list"
  | JObj "(pystr \<times> json) list"

section \<open>Numerals\<close>

fun dec_nat :: "nat \<Rightarrow> pystr" where
  "dec_nat n = (if n < 10 then [48 + n] else dec_nat (n div 10) @ [48 + n mod 10])"

declare dec_nat.simps [simp del]

definition dec_int :: "int \<Rightarrow> pystr" where
  "dec_int i = (if i < 0 then 45 # dec_nat (nat (- i)) else dec_nat (nat i))"

text \<open>Zero-padded decimal of a fixed width.\<close>

fun dec_fixed :: "nat \<Rightarrow> nat \<Rightarrow> pystr" where
  "dec_fixed 0 n = []"
| "dec_fixed (Suc k) n = dec_fixed k (n div 10) @ [48 + n mod 10]"

definition hex_digit :: "nat \<Rightarrow> nat" where
  "hex_digit d = (if d < 10 then 48 + d else 87 + d)"

fun hex_fixed :: "nat \<Rightarrow> nat \<Rightarrow> pystr" where
  "hex_fixed 0 n = []"
| "hex_fixed (Suc k) n = hex_fixed k (n div 16) @ [hex_digit (n mod 16)]"

definition is_digit :: "nat \<Rightarrow> bool" where
  "is_digit c \<longleftrightarrow> 48 \<le> c \<and> c \<le> 57"

section \<open>Strings\<close>

definition esc_char :: "nat \<Rightarrow> pystr" where
  "esc_char c =
     (if c = 34 then [92, 34] else if c = 92 then [92, 92]
      else if c = 10 then [92, 110] else if c = 13 then [92, 114] else if c = 9 then [92, 116]
      else if c = 12 then [92, 102] else if c = 8 then [92, 98]
      else if c < 32 then [92, 117, 48, 48, hex_digit (c div 16), hex_digit (c mod 16)]
      else [c])"

fun esc :: "pystr \<Rightarrow> pystr" where
  "esc [] = []"
| "esc (c # s) = esc_char c @ esc s"

definition enc_str :: "pystr \<Rightarrow> pystr" where
  "enc_str s = 34 # esc s @ [34]"

section \<open>Values\<close>

fun enc :: "json \<Rightarrow> pystr"
  and enc_tail :: "json list \<Rightarrow> pystr"
  and enc_pairs :: "(pystr \<times> json) list \<Rightarrow> pystr" where
  "enc JNull = lit ''null''"
| "enc (JBool b) = (if b then lit ''true'' else lit ''false'')"
| "enc (JInt i) = dec_int i"
| "enc (JStr s) = enc_str s"
| "enc (JList []) = [91, 93]"
| "enc (JList (j # js)) = 91 # enc j @ enc_tail js @ [93]"
| "enc (JObj []) = [123, 125]"
| "enc (JObj ((k, v) # ps)) = 123 # enc_str k @ 58 # enc v @ enc_pairs ps @ [125]"
| "enc_tail [] = []"
| "enc_tail (j # js) = 44 # enc j @ enc_tail js"
| "enc_pairs [] = []"
| "enc_pairs ((k, v) # ps) = 44 # enc_str k @ 58 # enc v @ enc_pairs ps"

fun canon :: "json \<Rightarrow> json" where
  "canon (JList js) = JList (map canon js)"
| "canon (JObj ps) = JObj (sort_key fst (map (\<lambda>(k, v). (k, canon v)) ps))"
| "canon j = j"

definition dumps :: "json \<Rightarrow> pystr" where
  "dumps j = enc (canon j)"

section \<open>UTF-8\<close>

definition utf8_char :: "nat \<Rightarrow> nat list option" where
  "utf8_char c =
     (if c < 128 then Some [c]
      else if c < 2048 then Some [192 + c div 64, 128 + c mod 64]
      else if 55296 \<le> c \<and> c < 57344 then None
      else if c < 65536 then Some [224 + c div 4096, 128 + c div 64 mod 64, 128 + c mod 64]
      else if c < 1114112 then
        Some [240 + c div 262144, 128 + c div 4096 mod 64, 128 + c div 64 mod 64, 128 + c mod 64]
      else None)"

fun utf8 :: "pystr \<Rightarrow> nat list option" where
  "utf8 [] = Some []"
| "utf8 (c # s) = Option.bind (utf8_char c) (\<lambda>b. map_option (append b) (utf8 s))"

section \<open>Injectivity\<close>

lemma dec_nat_digits: "\<forall>c \<in> set (dec_nat n). is_digit c"
proof (induction n rule: dec_nat.induct)
  case (1 n)
  then show ?case
    by (subst dec_nat.simps) (auto simp: is_digit_def)
qed

lemma dec_nat_not_Nil [simp]: "dec_nat n \<noteq> []"
  by (subst dec_nat.simps) simp

lemma dec_nat_value: "foldl (\<lambda>a d. a * 10 + (d - 48)) 0 (dec_nat n) = n"
proof (induction n rule: dec_nat.induct)
  case (1 n)
  then show ?case
    by (subst dec_nat.simps) simp
qed

lemma dec_nat_inj: "dec_nat n = dec_nat m \<longleftrightarrow> n = m"
  by (metis dec_nat_value)

definition delimited :: "pystr \<Rightarrow> bool" where
  "delimited r \<longleftrightarrow> r = [] \<or> hd r = 44 \<or> hd r = 93 \<or> hd r = 125"

lemma delimited_simps [simp]: "delimited []" "delimited (c # r) \<longleftrightarrow> c = 44 \<or> c = 93 \<or> c = 125"
  by (auto simp: delimited_def)

lemma takeWhile_dec_nat: "delimited r \<Longrightarrow> takeWhile is_digit (dec_nat n @ r) = dec_nat n"
  using dec_nat_digits [of n]
  by (cases r) (auto simp: takeWhile_append is_digit_def takeWhile_eq_all_conv)

lemma dec_nat_prefix:
  assumes "delimited r" "delimited s" "dec_nat n @ r = dec_nat m @ s"
  shows "n = m \<and> r = s"
proof -
  have "dec_nat n = dec_nat m"
    using assms takeWhile_dec_nat by metis
  with assms(3) show ?thesis by (simp add: dec_nat_inj)
qed

lemma dec_nat_hd: "\<exists>c r. dec_nat n = c # r \<and> is_digit c"
  using dec_nat_digits [of n] dec_nat_not_Nil [of n] by (cases "dec_nat n") auto

lemma dec_int_hd: "\<exists>c r. dec_int i = c # r \<and> (c = 45 \<longleftrightarrow> i < 0)"
  using dec_nat_hd [of "nat i"] by (auto simp: dec_int_def is_digit_def)

lemma dec_int_prefix:
  assumes "delimited r" "delimited s" "dec_int i @ r = dec_int j @ s"
  shows "i = j \<and> r = s"
proof -
  have "i < 0 \<longleftrightarrow> j < 0"
    using assms(3) dec_int_hd [of i] dec_int_hd [of j] by auto
  then consider (neg) "i < 0" "j < 0" | (pos) "0 \<le> i" "0 \<le> j" by linarith
  then show ?thesis
  proof cases
    case neg
    with assms(3) have "dec_nat (nat (- i)) @ r = dec_nat (nat (- j)) @ s"
      by (simp add: dec_int_def)
    from dec_nat_prefix [OF assms(1,2) this] neg show ?thesis by (simp add: eq_nat_nat_iff)
  next
    case pos
    with assms(3) have "dec_nat (nat i) @ r = dec_nat (nat j) @ s"
      by (simp add: dec_int_def)
    from dec_nat_prefix [OF assms(1,2) this] pos show ?thesis by (simp add: eq_nat_nat_iff)
  qed
qed

lemma length_dec_fixed [simp]: "length (dec_fixed k n) = k"
  by (induction k n rule: dec_fixed.induct) auto

lemma dec_fixed_inj: "dec_fixed k n = dec_fixed k m \<Longrightarrow> n < 10 ^ k \<Longrightarrow> m < 10 ^ k \<Longrightarrow> n = m"
proof (induction k arbitrary: n m)
  case (Suc k)
  then have "n div 10 = m div 10" "n mod 10 = m mod 10"
    by (auto simp: less_mult_imp_div_less mult.commute)
  then show ?case by (metis div_mult_mod_eq)
qed simp

lemma length_hex_fixed [simp]: "length (hex_fixed k n) = k"
  by (induction k n rule: hex_fixed.induct) auto

lemma hex_digit_inj: "d < 16 \<Longrightarrow> e < 16 \<Longrightarrow> hex_digit d = hex_digit e \<Longrightarrow> d = e"
  by (auto simp: hex_digit_def split: if_splits)

lemma hex_fixed_inj: "hex_fixed k n = hex_fixed k m \<Longrightarrow> n < 16 ^ k \<Longrightarrow> m < 16 ^ k \<Longrightarrow> n = m"
proof (induction k arbitrary: n m)
  case (Suc k)
  then have "n div 16 = m div 16" "n mod 16 = m mod 16"
    by (auto simp: less_mult_imp_div_less mult.commute intro: hex_digit_inj)
  then show ?case by (metis div_mult_mod_eq)
qed simp

text \<open>Reading back the first escaped character.\<close>

definition unhex :: "nat \<Rightarrow> nat" where
  "unhex h = (if h < 58 then h - 48 else h - 87)"

lemma unhex_hex_digit [simp]: "d < 16 \<Longrightarrow> unhex (hex_digit d) = d"
  by (simp add: unhex_def hex_digit_def)

definition unesc :: "pystr \<Rightarrow> (nat \<times> pystr) option" where
  "unesc s =
     (case s of
        [] \<Rightarrow> None
      | c # r \<Rightarrow>
          if c \<noteq> 92 then Some (c, r)
          else if hd r = 117 then Some (unhex (r ! 3) * 16 + unhex (r ! 4), drop 5 r)
          else Some (if hd r = 110 then 10 else if hd r = 114 then 13 else if hd r = 116 then 9
                     else if hd r = 102 then 12 else if hd r = 98 then 8 else hd r, tl r))"

lemma unesc_esc_char: "unesc (esc_char c @ x) = Some (c, x)"
proof (cases "c = 34 \<or> c = 92 \<or> c = 10 \<or> c = 13 \<or> c = 9 \<or> c = 12 \<or> c = 8")
  case True
  then show ?thesis by (elim disjE) (simp_all add: esc_char_def unesc_def)
next
  case False
  then show ?thesis
    by (cases "c < 32") (simp_all add: esc_char_def unesc_def div_mult_mod_eq)
qed

lemma esc_char_prefix: "esc_char c @ x = esc_char d @ y \<Longrightarrow> c = d \<and> x = y"
  by (metis option.inject prod.inject unesc_esc_char)

lemma esc_char_not_quote: "\<exists>a r. esc_char c = a # r \<and> a \<noteq> 34"
  by (auto simp: esc_char_def)

lemma esc_prefix: "esc s @ 34 # x = esc t @ 34 # y \<Longrightarrow> s = t \<and> x = y"
proof (induction s arbitrary: t)
  case Nil
  then show ?case
    using esc_char_not_quote [of "hd t"] by (cases t) auto
next
  case (Cons c s)
  obtain d u where t: "t = d # u"
    using Cons.prems esc_char_not_quote [of c] by (cases t) auto
  with Cons.prems have "esc_char c @ (esc s @ 34 # x) = esc_char d @ (esc u @ 34 # y)" by simp
  from esc_char_prefix [OF this] Cons.IH [of u] t show ?case by simp
qed

lemma enc_str_prefix: "enc_str s @ x = enc_str t @ y \<Longrightarrow> s = t \<and> x = y"
  using esc_prefix [of s x t y] by (simp add: enc_str_def)

text \<open>
  The first character tells the constructor: \<open>shape j c\<close> holds of the possible first
  characters of an encoding.
\<close>

fun shape :: "json \<Rightarrow> nat \<Rightarrow> bool" where
  "shape JNull c \<longleftrightarrow> c = 110"
| "shape (JBool b) c \<longleftrightarrow> c = (if b then 116 else 102)"
| "shape (JInt i) c \<longleftrightarrow> c = 45 \<or> is_digit c"
| "shape (JStr s) c \<longleftrightarrow> c = 34"
| "shape (JList js) c \<longleftrightarrow> c = 91"
| "shape (JObj ps) c \<longleftrightarrow> c = 123"

lemma enc_shape: "\<exists>c r. enc j = c # r \<and> shape j c"
proof (cases j)
  case (JInt i)
  then show ?thesis
    using dec_nat_hd [of "nat i"] by (auto simp: dec_int_def)
next
  case (JList js)
  then show ?thesis by (cases js) auto
next
  case (JObj ps)
  then show ?thesis by (cases ps) auto
qed (auto simp: lit_def enc_str_def)

lemma shape_delim: "shape j c \<Longrightarrow> c \<noteq> 44 \<and> c \<noteq> 93 \<and> c \<noteq> 125"
  by (cases j) (auto simp: is_digit_def)

lemma delimited_tails: "delimited (enc_tail js @ 93 # r)" "delimited (enc_pairs ps @ 125 # r)"
  by (cases js; simp) (cases ps; auto)

lemma enc_same_shape: "enc j @ x = enc k @ y \<Longrightarrow> \<exists>c. shape j c \<and> shape k c"
  using enc_shape [of j] enc_shape [of k] by auto

lemma shape_same:
  "shape JNull c \<Longrightarrow> shape k c \<Longrightarrow> k = JNull"
  "shape (JBool b) c \<Longrightarrow> shape k c \<Longrightarrow> k = JBool b"
  "shape (JInt i) c \<Longrightarrow> shape k c \<Longrightarrow> \<exists>j. k = JInt j"
  "shape (JStr s) c \<Longrightarrow> shape k c \<Longrightarrow> \<exists>t. k = JStr t"
  "shape (JList js) c \<Longrightarrow> shape k c \<Longrightarrow> \<exists>ks. k = JList ks"
  "shape (JObj ps) c \<Longrightarrow> shape k c \<Longrightarrow> \<exists>qs. k = JObj qs"
  by (cases k; auto simp: is_digit_def split: if_splits)+

lemma enc_prefix_aux:
  "\<forall>k x y. delimited x \<longrightarrow> delimited y \<longrightarrow> enc j @ x = enc k @ y \<longrightarrow> j = k \<and> x = y"
  "\<forall>ks x y. enc_tail js @ 93 # x = enc_tail ks @ 93 # y \<longrightarrow> js = ks \<and> x = y"
  "\<forall>qs x y. enc_pairs ps @ 125 # x = enc_pairs qs @ 125 # y \<longrightarrow> ps = qs \<and> x = y"
proof (induction j and js and ps rule: enc_enc_tail_enc_pairs.induct)
  case 1
  then show ?case using enc_same_shape shape_same(1) by (metis same_append_eq)
next
  case (2 b)
  then show ?case using enc_same_shape shape_same(2) by (metis same_append_eq)
next
  case (3 i)
  then show ?case using enc_same_shape shape_same(3) dec_int_prefix by (metis enc.simps(3))
next
  case (4 s)
  then show ?case using enc_same_shape shape_same(4) enc_str_prefix by (metis enc.simps(4))
next
  case 5
  show ?case
  proof (intro allI impI)
    fix k x y assume e: "enc (JList []) @ x = enc k @ y"
    then obtain ks where k: "k = JList ks" using enc_same_shape shape_same(5) by metis
    show "JList [] = k \<and> x = y"
      using e k enc_shape [of "hd ks"] shape_delim by (cases ks) fastforce+
  qed
next
  case (6 j js)
  show ?case
  proof (intro allI impI)
    fix k x y assume e: "enc (JList (j # js)) @ x = enc k @ y"
    then obtain ks where k: "k = JList ks" using enc_same_shape shape_same(5) by metis
    obtain l ls where ks: "ks = l # ls"
      using e k enc_shape [of j] shape_delim by (cases ks) fastforce+
    have "enc j @ (enc_tail js @ 93 # x) = enc l @ (enc_tail ls @ 93 # y)"
      using e k ks by simp
    with 6 delimited_tails(1) show "JList (j # js) = k \<and> x = y"
      unfolding k ks by blast
  qed
next
  case 7
  show ?case
  proof (intro allI impI)
    fix k x y assume e: "enc (JObj []) @ x = enc k @ y"
    then obtain qs where k: "k = JObj qs" using enc_same_shape shape_same(6) by metis
    show "JObj [] = k \<and> x = y"
      using e k by (cases qs) (auto simp: enc_str_def)
  qed
next
  case (8 key v ps)
  show ?case
  proof (intro allI impI)
    fix k x y assume e: "enc (JObj ((key, v) # ps)) @ x = enc k @ y"
    then obtain qs where k: "k = JObj qs" using enc_same_shape shape_same(6) by metis
    obtain l w rs where qs: "qs = (l, w) # rs"
      using e k by (cases qs) (auto simp: enc_str_def)
    have s: "enc_str key @ 58 # enc v @ (enc_pairs ps @ 125 # x) =
        enc_str l @ 58 # enc w @ (enc_pairs rs @ 125 # y)"
      using e k qs by simp
    with enc_str_prefix [OF s] 8 delimited_tails(2) show "JObj ((key, v) # ps) = k \<and> x = y"
      unfolding k qs by blast
  qed
next
  case 9
  show ?case
  proof (intro allI impI)
    fix ks x y assume "enc_tail [] @ 93 # x = enc_tail ks @ 93 # y"
    then show "[] = ks \<and> x = y" by (cases ks) auto
  qed
next
  case (10 j js)
  show ?case
  proof (intro allI impI)
    fix ks x y assume e: "enc_tail (j # js) @ 93 # x = enc_tail ks @ 93 # y"
    then obtain l ls where ks: "ks = l # ls" by (cases ks) auto
    have "enc j @ (enc_tail js @ 93 # x) = enc l @ (enc_tail ls @ 93 # y)"
      using e ks by simp
    with 10 delimited_tails(1) show "j # js = ks \<and> x = y"
      unfolding ks by blast
  qed
next
  case 11
  show ?case
  proof (intro allI impI)
    fix qs x y assume "enc_pairs [] @ 125 # x = enc_pairs qs @ 125 # y"
    then show "[] = qs \<and> x = y" by (cases qs) auto
  qed
next
  case (12 key v ps)
  show ?case
  proof (intro allI impI)
    fix qs x y assume e: "enc_pairs ((key, v) # ps) @ 125 # x = enc_pairs qs @ 125 # y"
    then obtain l w rs where qs: "qs = (l, w) # rs" by (cases qs) auto
    have s: "enc_str key @ 58 # enc v @ (enc_pairs ps @ 125 # x) =
        enc_str l @ 58 # enc w @ (enc_pairs rs @ 125 # y)"
      using e qs by simp
    with enc_str_prefix [OF s] 12 delimited_tails(2) show "(key, v) # ps = qs \<and> x = y"
      unfolding qs by blast
  qed
qed

lemma enc_inj: "enc j = enc k \<Longrightarrow> j = k"
  using enc_prefix_aux(1) [of j] by (metis append_Nil2 delimited_simps(1))

lemma dumps_inj: "dumps j = dumps k \<Longrightarrow> canon j = canon k"
  by (simp add: dumps_def enc_inj)

text \<open>The first byte of an encoded character tells its length.\<close>

definition utf8_decode1 :: "nat list \<Rightarrow> nat \<times> nat list" where
  "utf8_decode1 b =
     (if hd b < 128 then (hd b, tl b)
      else if hd b < 224 then ((hd b - 192) * 64 + (b ! 1 - 128), drop 2 b)
      else if hd b < 240 then
        ((hd b - 224) * 4096 + (b ! 1 - 128) * 64 + (b ! 2 - 128), drop 3 b)
      else ((hd b - 240) * 262144 + (b ! 1 - 128) * 4096 + (b ! 2 - 128) * 64 + (b ! 3 - 128), drop 4 b))"

lemma base64_digits:
  "c div 4096 * 4096 + c div 64 mod 64 * 64 + c mod 64 = c"
  "c div 262144 * 262144 + c div 4096 mod 64 * 4096 + c div 64 mod 64 * 64 + c mod 64 = c" for c :: nat
proof -
  have "c div 64 * 64 + c mod 64 = c" by simp
  moreover have "c div 4096 * 64 + c div 64 mod 64 = c div 64"
    using div_mult2_eq [of c 64 64] div_mult_mod_eq [of "c div 64" 64] by auto
  moreover have "c div 262144 * 64 + c div 4096 mod 64 = c div 4096"
    using div_mult2_eq [of c 4096 64] div_mult_mod_eq [of "c div 4096" 64] by auto
  ultimately show
    "c div 4096 * 4096 + c div 64 mod 64 * 64 + c mod 64 = c"
    "c div 262144 * 262144 + c div 4096 mod 64 * 4096 + c div 64 mod 64 * 64 + c mod 64 = c"
    by linarith+
qed

lemma utf8_decode1: "utf8_char c = Some b \<Longrightarrow> utf8_decode1 (b @ r) = (c, r)"
  by (auto simp: utf8_char_def utf8_decode1_def base64_digits split: if_splits)

lemma utf8_char_not_Nil: "utf8_char c = Some b \<Longrightarrow> b \<noteq> []"
  by (auto simp: utf8_char_def split: if_splits)

lemma utf8_inj: "utf8 s = Some b \<Longrightarrow> utf8 t = Some b \<Longrightarrow> s = t"
proof (induction s arbitrary: t b)
  case Nil
  then show ?case by (cases t) (auto simp: bind_eq_Some_conv dest: utf8_char_not_Nil)
next
  case (Cons c s)
  then obtain x y where s: "utf8_char c = Some x" "utf8 s = Some y" "b = x @ y"
    by (auto simp: bind_eq_Some_conv)
  obtain d u where t: "t = d # u"
    using Cons.prems s utf8_char_not_Nil by (cases t) auto
  with Cons.prems obtain x' y' where u: "utf8_char d = Some x'" "utf8 u = Some y'" "b = x' @ y'"
    by (auto simp: bind_eq_Some_conv)
  have "c = d \<and> y = y'"
    using utf8_decode1 [OF s(1), of y] utf8_decode1 [OF u(1), of y'] s(3) u(3) by simp
  with Cons.IH s u t show ?case by blast
qed

lemma utf8_append:
  "utf8 (s @ t) = Option.bind (utf8 s) (\<lambda>x. map_option (append x) (utf8 t))"
  by (induction s) (auto simp: option.map_ident map_option_case split: option.splits bind_splits)

text \<open>Text without surrogates or out-of-range code points.\<close>

definition encodable :: "pystr \<Rightarrow> bool" where
  "encodable s \<longleftrightarrow> (\<forall>c \<in> set s. c < 1114112 \<and> \<not> (55296 \<le> c \<and> c < 57344))"

lemma utf8_encodable: "(\<exists>b. utf8 s = Some b) \<longleftrightarrow> encodable s"
proof (induction s)
  case (Cons c s)
  have "(\<exists>b. utf8_char c = Some b) \<longleftrightarrow> c < 1114112 \<and> \<not> (55296 \<le> c \<and> c < 57344)"
    by (auto simp: utf8_char_def)
  with Cons show ?case
    by (auto simp: encodable_def bind_eq_Some_conv)
qed (simp add: encodable_def)

end
