(* ===== verification/Sha256.thy ===== *)
theory Sha256
  imports Canonical_Json "HOL-Library.Word"
begin

unbundle bit_operations_syntax

text \<open>
  \<^verbatim>\<open>hashlib.sha256(data).hexdigest()\<close>: FIPS 180-4 SHA-256 over a byte string (a list of
  numbers below 256) on 32-bit words, and its lower-case hexadecimal digest.
\<close>

definition rotr32 :: "nat \<Rightarrow> 32 word \<Rightarrow> 32 word" where
  "rotr32 n x = (drop_bit n x) OR (push_bit (32 - n) x)"

definition sha_ch :: "32 word \<Rightarrow> 32 word \<Rightarrow> 32 word \<Rightarrow> 32 word" where
  "sha_ch x y z = (x AND y) XOR ((NOT x) AND z)"

definition sha_maj :: "32 word \<Rightarrow> 32 word \<Rightarrow> 32 word \<Rightarrow> 32 word" where
  "sha_maj x y z = (x AND y) XOR (x AND z) XOR (y AND z)"

definition sha_Sigma0 :: "32 word \<Rightarrow> 32 word" where
  "sha_Sigma0 x = rotr32 2 x XOR rotr32 13 x XOR rotr32 22 x"

definition sha_Sigma1 :: "32 word \<Rightarrow> 32 word" where
  "sha_Sigma1 x = rotr32 6 x XOR rotr32 11 x XOR rotr32 25 x"

definition sha_sigma0 :: "32 word \<Rightarrow> 32 word" where
  "sha_sigma0 x = rotr32 7 x XOR rotr32 18 x XOR drop_bit 3 x"

definition sha_sigma1 :: "32 word \<Rightarrow> 32 word" where
  "sha_sigma1 x = rotr32 17 x XOR rotr32 19 x XOR drop_bit 10 x"

text \<open>
  The constants as the standard defines them: the first 32 bits of the fractional parts of
  the cube roots of the first 64 primes, and of the square roots of the first eight. The
  root is found bit by bit: \<open>root_bits e n k r\<close> is the largest number with \<open>e\<close>-th power at most
  \<open>n\<close> that agrees with \<open>r\<close> above its lowest \<open>k\<close> bits.
\<close>

fun root_bits :: "nat \<Rightarrow> nat \<Rightarrow> nat \<Rightarrow> nat \<Rightarrow> nat" where
  "root_bits e n 0 r = r"
| "root_bits e n (Suc k) r =
     (let r' = r + 2 ^ k in root_bits e n k (if r' ^ e \<le> n then r' else r))"

definition small_primes :: "nat \<Rightarrow> nat list" where
  "small_primes n = filter (\<lambda>p. list_all (\<lambda>d. p mod d \<noteq> 0) [2..<p]) [2..<n]"

definition root_fraction :: "nat \<Rightarrow> nat \<Rightarrow> 32 word" where
  "root_fraction e p = of_nat (root_bits e (p * 2 ^ (32 * e)) 40 0)"

definition sha_K :: "32 word list" where
  "sha_K = map (root_fraction 3) (small_primes 312)"

definition sha_H0 :: "32 word list" where
  "sha_H0 = map (root_fraction 2) (take 8 (small_primes 20))"

lemma length_sha_H0: "length sha_H0 = 8"
  by (simp add: sha_H0_def) code_simp

text \<open>One round on the eight working variables.\<close>

definition sha_round :: "32 word list \<Rightarrow> 32 word \<times> 32 word \<Rightarrow> 32 word list" where
  "sha_round v kw =
     (case v of [a, b, c, d, e, f, g, h] \<Rightarrow>
        let t1 = h + sha_Sigma1 e + sha_ch e f g + fst kw + snd kw;
            t2 = sha_Sigma0 a + sha_maj a b c
        in [t1 + t2, a, b, c, d + t1, e, f, g]
      | _ \<Rightarrow> v)"

text \<open>
  The message schedule, newest word first: the first sixteen words are the block, each
  further word is computed from the words 2, 7, 15 and 16 places back.
\<close>

fun sha_schedule :: "nat \<Rightarrow> 32 word list \<Rightarrow> 32 word list" where
  "sha_schedule 0 ws = rev ws"
| "sha_schedule (Suc n) ws =
     sha_schedule n ((sha_sigma1 (ws ! 1) + ws ! 6 + sha_sigma0 (ws ! 14) + ws ! 15) # ws)"

definition sha_compress :: "32 word list \<Rightarrow> 32 word list \<Rightarrow> 32 word list" where
  "sha_compress h block =
     map2 (+) h (foldl sha_round h (zip sha_K (sha_schedule 48 (rev block))))"

definition be_word :: "nat list \<Rightarrow> 32 word" where
  "be_word bs = foldl (\<lambda>a b. push_bit 8 a + of_nat b) 0 bs"

fun chunks :: "nat \<Rightarrow> nat \<Rightarrow> 'a list \<Rightarrow> 'a list list" where
  "chunks 0 n xs = []"
| "chunks (Suc k) n xs = take n xs # chunks k n (drop n xs)"

definition be_bytes :: "nat \<Rightarrow> nat list" where
  "be_bytes n = map (\<lambda>i. n div 256 ^ (7 - i) mod 256) [0..<8]"

definition sha_pad :: "nat list \<Rightarrow> nat list" where
  "sha_pad m = m @ 128 # replicate ((119 - length m mod 64) mod 64) 0 @ be_bytes (8 * length m)"

definition sha256 :: "nat list \<Rightarrow> 32 word list" where
  "sha256 m = (let p = sha_pad m in
     foldl sha_compress sha_H0
       (map (\<lambda>b. map be_word (chunks 16 4 b)) (chunks (length p div 64) 64 p)))"

definition hexdigest :: "nat list \<Rightarrow> pystr" where
  "hexdigest m = concat (map (\<lambda>w. hex_fixed 8 (unat w)) (sha256 m))"

section \<open>Shape of the digest\<close>

lemma length_sha_round [simp]: "length (sha_round v kw) = length v"
  by (auto simp: sha_round_def Let_def split: list.splits)

lemma length_foldl_round: "length (foldl sha_round v kws) = length v"
  by (induction kws arbitrary: v) auto

lemma length_sha_compress: "length h = 8 \<Longrightarrow> length (sha_compress h b) = 8"
  by (simp add: sha_compress_def length_foldl_round)

lemma length_sha256: "length (sha256 m) = 8"
proof -
  have "length h = 8 \<Longrightarrow> length (foldl sha_compress h bs) = 8" for h bs
    by (induction bs arbitrary: h) (auto simp: length_sha_compress)
  then show ?thesis by (simp add: sha256_def Let_def length_sha_H0)
qed

definition is_hex :: "nat \<Rightarrow> bool" where
  "is_hex c \<longleftrightarrow> (48 \<le> c \<and> c \<le> 57) \<or> (97 \<le> c \<and> c \<le> 102)"

lemma hex_fixed_is_hex: "\<forall>c \<in> set (hex_fixed k n). is_hex c"
proof (induction k n rule: hex_fixed.induct)
  case (2 k n)
  have "n mod 16 < 16" by simp
  then have "is_hex (hex_digit (n mod 16))"
    by (auto simp: is_hex_def hex_digit_def)
  with 2 show ?case by simp
qed simp

lemma hexdigest_shape: "length (hexdigest m) = 64" "\<forall>c \<in> set (hexdigest m). is_hex c"
proof -
  have "length (concat (map (\<lambda>w. hex_fixed 8 (unat w)) ws)) = 8 * length ws" for ws :: "32 word list"
    by (induction ws) auto
  then show "length (hexdigest m) = 64"
    by (simp add: hexdigest_def length_sha256)
  show "\<forall>c \<in> set (hexdigest m). is_hex c"
    using hex_fixed_is_hex by (auto simp: hexdigest_def)
qed

end
