(* ===== verification/Civil_Time.thy ===== *)
theory Civil_Time
  imports Canonical_Json Domain_Core
begin

text \<open>
  \<^verbatim>\<open>_timestamp\<close>: \<^verbatim>\<open>value.isoformat(timespec="microseconds").replace("+00:00", "Z")\<close> of a
  UTC instant. The calendar is the proleptic Gregorian one of Python's \<^verbatim>\<open>datetime\<close>: day
  numbers decompose into cycles of 400, 100, 4 and 1 years. The printed text determines the
  instant.
\<close>

section \<open>Calendar\<close>

definition days_before_month :: "bool \<Rightarrow> int \<Rightarrow> int" where
  "days_before_month leap m =
     (if m \<le> 1 then 0
      else (if m = 2 then 31 else if m = 3 then 59 else if m = 4 then 90 else if m = 5 then 120
            else if m = 6 then 151 else if m = 7 then 181 else if m = 8 then 212
            else if m = 9 then 243 else if m = 10 then 273 else if m = 11 then 304
            else if m = 12 then 334 else 365)
           + (if leap \<and> 2 < m then 1 else 0))"

text \<open>The month a zero-based day of the year falls into: the largest that has begun.\<close>

definition month_of :: "bool \<Rightarrow> int \<Rightarrow> int" where
  "month_of leap n =
     (let m = (n + 50) div 32 in if days_before_month leap m > n then m - 1 else m)"

text \<open>Year, month and day of a zero-based day number, 0001-01-01 being day 0.\<close>

definition ord2ymd :: "int \<Rightarrow> int \<times> int \<times> int" where
  "ord2ymd n0 =
     (let n400 = n0 div 146097; n = n0 mod 146097;
          n100 = n div 36524; n' = n mod 36524;
          n4 = n' div 1461; n'' = n' mod 1461;
          n1 = n'' div 365; r = n'' mod 365;
          year = n400 * 400 + 1 + n100 * 100 + n4 * 4 + n1
      in if n1 = 4 \<or> n100 = 4 then (year - 1, 12, 31)
         else let leap = (n1 = 3 \<and> (n4 \<noteq> 24 \<or> n100 = 3)); m = month_of leap r
              in (year, m, r - days_before_month leap m + 1))"

definition is_leap :: "int \<Rightarrow> bool" where
  "is_leap y \<longleftrightarrow> y mod 4 = 0 \<and> (y mod 100 \<noteq> 0 \<or> y mod 400 = 0)"

definition ymd2ord :: "int \<times> int \<times> int \<Rightarrow> int" where
  "ymd2ord d = (case d of (y, m, day) \<Rightarrow>
     (y - 1) * 365 + (y - 1) div 4 - (y - 1) div 100 + (y - 1) div 400
     + days_before_month (is_leap y) m + day - 1)"

section \<open>Printing\<close>

definition timestamp :: "int \<Rightarrow> pystr" where
  "timestamp t =
     (let days = t div 86400000000 + 719162; us = t mod 86400000000;
          secs = us div 1000000; (y, m, d) = ord2ymd days
      in dec_fixed 4 (nat y) @ 45 # dec_fixed 2 (nat m) @ 45 # dec_fixed 2 (nat d) @
         84 # dec_fixed 2 (nat (secs div 3600)) @ 58 # dec_fixed 2 (nat (secs div 60 mod 60)) @
         58 # dec_fixed 2 (nat (secs mod 60)) @ 46 # dec_fixed 6 (nat (us mod 1000000)) @ [90])"

section \<open>The text determines the instant\<close>

lemma month_table:
  assumes "0 \<le> r" "r < 365"
  shows "1 \<le> month_of leap r \<and> month_of leap r \<le> 12 \<and>
    days_before_month leap (month_of leap r) \<le> r \<and> r < days_before_month leap (month_of leap r) + 62"
proof -
  define m where "m = (r + 50) div 32"
  have b: "32 * m \<le> r + 50" "r + 50 < 32 * m + 32"
    unfolding m_def by presburger+
  with assms have "1 \<le> m" "m \<le> 12" by linarith+
  then have "m = 1 \<or> m = 2 \<or> m = 3 \<or> m = 4 \<or> m = 5 \<or> m = 6 \<or> m = 7 \<or> m = 8 \<or> m = 9 \<or>
      m = 10 \<or> m = 11 \<or> m = 12" by presburger
  then show ?thesis
    using b assms unfolding month_of_def Let_def m_def [symmetric]
    by (elim disjE) (auto simp: days_before_month_def)
qed

lemma mod_last: "0 < k \<Longrightarrow> k \<le> M \<Longrightarrow> (M * q + k) mod M = 0 \<longleftrightarrow> k = M" for k M q :: int
  by (cases "k = M") simp_all

lemma year_cycles:
  fixes a b c d :: int
  assumes "0 \<le> b" "b \<le> 3" "0 \<le> c" "c \<le> 24" "0 \<le> d" "d \<le> 3"
  shows "(400 * a + 100 * b + 4 * c + d) div 4 = 100 * a + 25 * b + c"
    "(400 * a + 100 * b + 4 * c + d) div 100 = 4 * a + b"
    "(400 * a + 100 * b + 4 * c + d) div 400 = a"
    "is_leap (400 * a + 100 * b + 4 * c + d + 1) \<longleftrightarrow> d = 3 \<and> (c \<noteq> 24 \<or> b = 3)"
proof -
  show "(400 * a + 100 * b + 4 * c + d) div 4 = 100 * a + 25 * b + c"
    using assms by (intro int_div_pos_eq [of _ 4 _ d]) auto
  show "(400 * a + 100 * b + 4 * c + d) div 100 = 4 * a + b"
    using assms by (intro int_div_pos_eq [of _ 100 _ "4 * c + d"]) auto
  show "(400 * a + 100 * b + 4 * c + d) div 400 = a"
    using assms by (intro int_div_pos_eq [of _ 400 _ "100 * b + 4 * c + d"]) auto
  have "(4 * (100 * a + 25 * b + c) + (d + 1)) mod 4 = 0 \<longleftrightarrow> d + 1 = 4"
    "(100 * (4 * a + b) + (4 * c + d + 1)) mod 100 = 0 \<longleftrightarrow> 4 * c + d + 1 = 100"
    "(400 * a + (100 * b + 4 * c + d + 1)) mod 400 = 0 \<longleftrightarrow> 100 * b + 4 * c + d + 1 = 400"
    using assms by (intro mod_last; linarith)+
  then show "is_leap (400 * a + 100 * b + 4 * c + d + 1) \<longleftrightarrow> d = 3 \<and> (c \<noteq> 24 \<or> b = 3)"
    using assms by (auto simp: is_leap_def algebra_simps)
qed

lemma ymd2ord_cycles:
  fixes a b c d :: int
  assumes "0 \<le> b" "b \<le> 3" "0 \<le> c" "c \<le> 24" "0 \<le> d" "d \<le> 3"
  shows "ymd2ord (400 * a + 100 * b + 4 * c + d + 1, m, day) =
    146097 * a + 36524 * b + 1461 * c + 365 * d
      + days_before_month (d = 3 \<and> (c \<noteq> 24 \<or> b = 3)) m + day - 1"
  using year_cycles [OF assms, of a] by (simp add: ymd2ord_def)

text \<open>The cycles of a day number, and what the remainders leave room for.\<close>

lemma day_cycles:
  fixes n :: int
  shows "\<exists>a b c d r. n = 146097 * a + 36524 * b + 1461 * c + 365 * d + r \<and>
    n div 146097 = a \<and> n mod 146097 div 36524 = b \<and> n mod 146097 mod 36524 div 1461 = c \<and>
    n mod 146097 mod 36524 mod 1461 div 365 = d \<and> n mod 146097 mod 36524 mod 1461 mod 365 = r \<and>
    0 \<le> b \<and> b \<le> 4 \<and> 0 \<le> c \<and> c \<le> 24 \<and> 0 \<le> d \<and> d \<le> 4 \<and> 0 \<le> r \<and> r < 365 \<and>
    (d = 4 \<longrightarrow> r = 0 \<and> c \<le> 23) \<and> (b = 4 \<longrightarrow> c = 0 \<and> d = 0 \<and> r = 0)"
proof -
  define x where "x = n mod 146097"
  define y where "y = x mod 36524"
  define z where "z = y mod 1461"
  have x: "n = 146097 * (n div 146097) + x" "0 \<le> x" "x < 146097" by (simp_all add: x_def)
  have y: "x = 36524 * (x div 36524) + y" "0 \<le> y" "y < 36524" by (simp_all add: y_def)
  have z: "y = 1461 * (y div 1461) + z" "0 \<le> z" "z < 1461" by (simp_all add: z_def)
  have r: "z = 365 * (z div 365) + z mod 365" "0 \<le> z mod 365" "z mod 365 < 365" by simp_all
  have sum: "n = 146097 * (n div 146097) + 36524 * (x div 36524) + 1461 * (y div 1461)
        + 365 * (z div 365) + z mod 365" using x y z r by linarith
  have b: "0 \<le> x div 36524" "x div 36524 \<le> 4" using x y by linarith+
  have c: "0 \<le> y div 1461" "y div 1461 \<le> 24" using y z by linarith+
  have d: "0 \<le> z div 365" "z div 365 \<le> 4" using z r by linarith+
  have d4: "z mod 365 = 0 \<and> y div 1461 \<le> 23" if "z div 365 = 4" using that z y r by linarith
  have b4: "y div 1461 = 0 \<and> z div 365 = 0 \<and> z mod 365 = 0" if "x div 36524 = 4"
  proof -
    have y0: "y = 0" using that x y by linarith
    then show ?thesis by (simp add: z_def)
  qed
  show ?thesis
    unfolding x_def [symmetric] y_def [symmetric] z_def [symmetric]
    by (rule exI [of _ "n div 146097"], rule exI [of _ "x div 36524"], rule exI [of _ "y div 1461"],
        rule exI [of _ "z div 365"], rule exI [of _ "z mod 365"])
      (intro conjI impI refl sum b c d r(2,3), simp_all add: d4 b4)
qed

lemma ord2ymd_inverse: "ymd2ord (ord2ymd n) = n"
proof -
  obtain a b c d r where n: "n = 146097 * a + 36524 * b + 1461 * c + 365 * d + r"
    and parts: "n div 146097 = a" "n mod 146097 div 36524 = b" "n mod 146097 mod 36524 div 1461 = c"
      "n mod 146097 mod 36524 mod 1461 div 365 = d" "n mod 146097 mod 36524 mod 1461 mod 365 = r"
    and bounds: "0 \<le> b" "b \<le> 4" "0 \<le> c" "c \<le> 24" "0 \<le> d" "d \<le> 4" "0 \<le> r" "r < 365"
    and fifth: "d = 4 \<longrightarrow> r = 0 \<and> c \<le> 23" and century: "b = 4 \<longrightarrow> c = 0 \<and> d = 0 \<and> r = 0"
    using day_cycles [of n] by (elim exE conjE) (rule that)
  consider (d4) "d = 4" | (b4) "b = 4" "d \<noteq> 4" | (plain) "b \<le> 3" "d \<le> 3"
    using bounds by linarith
  then show ?thesis
  proof cases
    case d4
    then have "ord2ymd n = (400 * a + 100 * b + 4 * c + 3 + 1, 12, 31)"
      by (simp add: ord2ymd_def Let_def parts)
    moreover have "c \<le> 23" "r = 0" "b \<le> 3"
      using fifth century d4 bounds by auto
    ultimately show ?thesis
      using bounds d4 ymd2ord_cycles [of b c 3 a 12 31] by (simp add: n days_before_month_def)
  next
    case b4
    then have z: "c = 0" "d = 0" "r = 0" using century by auto
    then have "ord2ymd n = (400 * a + 100 * 3 + 4 * 24 + 3 + 1, 12, 31)"
      using b4 by (simp add: ord2ymd_def Let_def parts)
    then show ?thesis
      using z b4 ymd2ord_cycles [of 3 24 3 a 12 31] by (simp add: n days_before_month_def)
  next
    case plain
    let ?l = "d = 3 \<and> (c \<noteq> 24 \<or> b = 3)"
    have "ord2ymd n = (400 * a + 100 * b + 4 * c + d + 1, month_of ?l r,
        r - days_before_month ?l (month_of ?l r) + 1)"
      using plain by (simp add: ord2ymd_def Let_def parts algebra_simps)
    then show ?thesis
      using plain bounds ymd2ord_cycles [of b c d a] by (simp add: n)
  qed
qed

lemma ord2ymd_bounds:
  assumes "0 \<le> n" "n < 3652059" "ord2ymd n = (y, m, d)"
  shows "1 \<le> y \<and> y \<le> 9999 \<and> 1 \<le> m \<and> m \<le> 12 \<and> 1 \<le> d \<and> d \<le> 99"
proof -
  obtain a b c e r where n: "n = 146097 * a + 36524 * b + 1461 * c + 365 * e + r"
    and parts: "n div 146097 = a" "n mod 146097 div 36524 = b" "n mod 146097 mod 36524 div 1461 = c"
      "n mod 146097 mod 36524 mod 1461 div 365 = e" "n mod 146097 mod 36524 mod 1461 mod 365 = r"
    and bounds: "0 \<le> b" "b \<le> 4" "0 \<le> c" "c \<le> 24" "0 \<le> e" "e \<le> 4" "0 \<le> r" "r < 365"
    and e4: "e = 4 \<longrightarrow> r = 0 \<and> c \<le> 23" and b4: "b = 4 \<longrightarrow> c = 0 \<and> e = 0 \<and> r = 0"
    using day_cycles [of n] by (elim exE conjE) (rule that)
  have a: "0 \<le> a" using assms(1) parts(1) by (simp add: pos_imp_zdiv_nonneg_iff flip: parts(1))
  have y: "400 * a + 100 * b + 4 * c + e \<le> 9998" if "b \<le> 3" "e \<le> 3"
  proof (rule ccontr)
    assume "\<not> ?thesis"
    then have S: "9999 \<le> 400 * a + 100 * b + 4 * c + e" by simp
    have a24: "a = 24" using S n assms(2) bounds that by linarith
    then have b3: "b = 3" using S n assms(2) bounds that by linarith
    then have "c = 24" using S a24 bounds that by linarith
    then show False using S n assms(2) bounds a24 b3 that by linarith
  qed
  have y': "400 * a + 100 * b + 4 * c + e \<le> 9999" if "e = 4 \<or> b = 4"
    using that e4 b4 n assms(2) bounds by (cases "b = 4") linarith+
  show ?thesis
  proof (cases "e = 4 \<or> b = 4")
    case True
    then have "(y, m, d) = (400 * a + 100 * b + 4 * c + e, 12, 31)"
      using assms(3) by (simp add: ord2ymd_def Let_def parts)
    moreover have "1 \<le> 400 * a + 100 * b + 4 * c + e" using True a bounds by linarith
    ultimately show ?thesis using y' [OF True] by simp
  next
    case False
    let ?l = "e = 3 \<and> (c \<noteq> 24 \<or> b = 3)"
    have "(y, m, d) = (400 * a + 100 * b + 4 * c + e + 1, month_of ?l r,
        r - days_before_month ?l (month_of ?l r) + 1)"
      using assms(3) False by (simp add: ord2ymd_def Let_def parts algebra_simps)
    then show ?thesis
      using y a bounds False month_table [OF bounds(7,8), of ?l] by simp
  qed
qed

lemma append_eq_same_length: "length a = length b \<Longrightarrow> a @ x = b @ y \<longleftrightarrow> a = b \<and> x = y"
  by (auto simp: append_eq_append_conv)

lemma dec_fixed_inj_int:
  assumes "dec_fixed k (nat a) = dec_fixed k (nat b)" "0 \<le> a" "a < 10 ^ k" "0 \<le> b" "b < 10 ^ k"
  shows "a = b"
proof -
  have "nat a < 10 ^ k" "nat b < 10 ^ k"
    using assms by (simp_all add: nat_less_iff)
  with dec_fixed_inj [OF assms(1)] assms(2,4) show ?thesis by (simp add: eq_nat_nat_iff)
qed

lemma hms_split: "v = v div 3600 * 3600 + v div 60 mod 60 * 60 + v mod 60" for v :: int
proof -
  have "v div 60 = v div 3600 * 60 + v div 60 mod 60"
    using zdiv_zmult2_eq [of 60 v 60] div_mult_mod_eq [of "v div 60" 60] by simp
  moreover have "v = v div 60 * 60 + v mod 60" by simp
  ultimately show ?thesis by linarith
qed

lemma hms_eq:
  fixes v w :: int
  assumes "v div 3600 = w div 3600" "v div 60 mod 60 = w div 60 mod 60" "v mod 60 = w mod 60"
  shows "v = w"
  using hms_split [of v, unfolded assms] hms_split [of w] by (rule trans [OF _ sym])

lemma hours_of_day: "0 \<le> v \<Longrightarrow> v < 86400000000 \<Longrightarrow> 0 \<le> v div 1000000 div 3600 \<and> v div 1000000 div 3600 < 24"
  for v :: int
  by linarith

lemma hours_bound:
  "0 \<le> v mod 86400000000 div 1000000 div 3600" "v mod 86400000000 div 1000000 div 3600 < 10 ^ 2"
  for v :: int
proof -
  have h: "0 \<le> v mod 86400000000 div 1000000 div 3600 \<and>
      v mod 86400000000 div 1000000 div 3600 < 24"
    by (rule hours_of_day) (rule pos_mod_sign pos_mod_bound; simp)+
  then show "0 \<le> v mod 86400000000 div 1000000 div 3600" by (rule conjunct1)
  from h have "v mod 86400000000 div 1000000 div 3600 < 24" by (rule conjunct2)
  then show "v mod 86400000000 div 1000000 div 3600 < 10 ^ 2" by (rule less_trans) simp
qed

lemma div_mod_eqI: "v div k = w div k \<Longrightarrow> v mod k = w mod k \<Longrightarrow> v = w" for v w k :: int
  by (metis div_mult_mod_eq)

lemma timestamp_parts:
  assumes "in_calendar t" "in_calendar u" "timestamp t = timestamp u"
  shows "ord2ymd (t div 86400000000 + 719162) = ord2ymd (u div 86400000000 + 719162)"
    and "t mod 86400000000 = u mod 86400000000"
proof -
  let ?d = "\<lambda>t. t div 86400000000 + 719162" and ?s = "\<lambda>t. t mod 86400000000 div 1000000"
  obtain y m d y' m' d' where ymd: "ord2ymd (?d t) = (y, m, d)" "ord2ymd (?d u) = (y', m', d')"
    by (metis prod_cases3)
  have "0 \<le> ?d t \<and> ?d t < 3652059" "0 \<le> ?d u \<and> ?d u < 3652059"
    using assms(1,2) by (auto simp: in_calendar_def min_instant_def max_instant_def)
  with ord2ymd_bounds [OF _ _ ymd(1)] ord2ymd_bounds [OF _ _ ymd(2)]
  have b: "1 \<le> y \<and> y \<le> 9999 \<and> 1 \<le> m \<and> m \<le> 12 \<and> 1 \<le> d \<and> d \<le> 99"
    "1 \<le> y' \<and> y' \<le> 9999 \<and> 1 \<le> m' \<and> m' \<le> 12 \<and> 1 \<le> d' \<and> d' \<le> 99" by auto
  have eq: "dec_fixed 4 (nat y) = dec_fixed 4 (nat y')" "dec_fixed 2 (nat m) = dec_fixed 2 (nat m')"
    "dec_fixed 2 (nat d) = dec_fixed 2 (nat d')"
    "dec_fixed 2 (nat (?s t div 3600)) = dec_fixed 2 (nat (?s u div 3600))"
    "dec_fixed 2 (nat (?s t div 60 mod 60)) = dec_fixed 2 (nat (?s u div 60 mod 60))"
    "dec_fixed 2 (nat (?s t mod 60)) = dec_fixed 2 (nat (?s u mod 60))"
    "dec_fixed 6 (nat (t mod 86400000000 mod 1000000)) = dec_fixed 6 (nat (u mod 86400000000 mod 1000000))"
    using assms(3) unfolding timestamp_def ymd Let_def prod.case
    by (simp_all only: append_eq_same_length length_dec_fixed append_Cons list.inject)
  have "y = y'" "m = m'" "d = d'"
    using dec_fixed_inj_int [OF eq(1)] dec_fixed_inj_int [OF eq(2)] dec_fixed_inj_int [OF eq(3)] b
    by simp_all
  then show "ord2ymd (?d t) = ord2ymd (?d u)" by (simp add: ymd)
  have "?s t div 3600 = ?s u div 3600"
    by (rule dec_fixed_inj_int [OF eq(4)]) (rule hours_bound)+
  moreover have "?s t div 60 mod 60 = ?s u div 60 mod 60"
    by (rule dec_fixed_inj_int [OF eq(5)]) simp_all
  moreover have "?s t mod 60 = ?s u mod 60"
    by (rule dec_fixed_inj_int [OF eq(6)]) simp_all
  ultimately have s: "?s t = ?s u" by (rule hms_eq)
  have "t mod 86400000000 mod 1000000 = u mod 86400000000 mod 1000000"
    by (rule dec_fixed_inj_int [OF eq(7)]) simp_all
  with s show "t mod 86400000000 = u mod 86400000000" by (rule div_mod_eqI)
qed

lemma timestamp_inj:
  assumes "in_calendar t" "in_calendar u" "timestamp t = timestamp u"
  shows "t = u"
proof -
  have "t div 86400000000 = u div 86400000000"
    using timestamp_parts(1) [OF assms] ord2ymd_inverse by (metis add_right_cancel)
  from this timestamp_parts(2) [OF assms] show ?thesis by (rule div_mod_eqI)
qed

lemma timestamp_ascii: "\<forall>c \<in> set (timestamp t). c < 128"
proof -
  have dec: "\<forall>c \<in> set (dec_fixed k n). c < 128" for k n
    by (induction k n rule: dec_fixed.induct) auto
  obtain y m d where o: "ord2ymd (t div 86400000000 + 719162) = (y, m, d)" by (metis surj_pair)
  show ?thesis
    unfolding timestamp_def Let_def o prod.case
    by (simp only: set_append ball_Un list.set ball_simps simp_thms, intro conjI dec) simp_all
qed

end
