(* ===== verification/Content_Id.thy ===== *)
theory Content_Id
  imports Sha256 Civil_Time
begin

text \<open>
  Content-bound identifiers: hexadecimal floats, the digest of a canonical payload under a
  domain prefix, and the interface (\<open>content_address\<close>) both evidence ledgers rely on. A
  payload determines the hashed message and the hashed message determines the payload, so two
  different payloads with one identifier exhibit two different messages with one digest.
\<close>

section \<open>Hexadecimal floats\<close>

text \<open>\<^verbatim>\<open>float.hex()\<close>.\<close>

definition float_hex :: "f64 \<Rightarrow> pystr" where
  "float_hex x =
     (if isnan x then lit ''nan''
      else (if fsign x then [45] else []) @
        (if isinf x then lit ''inf''
         else if iszero x then lit ''0x0.0p+0''
         else if fexp x = 0 then lit ''0x0.'' @ hex_fixed 13 (unat (fman x)) @ lit ''p-1022''
         else lit ''0x1.'' @ hex_fixed 13 (unat (fman x)) @ [112] @
              (let e = uint (fexp x) - 1023
               in (if e < 0 then 45 else 43) # dec_nat (nat \<bar>e\<bar>))))"

definition opt_hex :: "f64 option \<Rightarrow> json" where
  "opt_hex v = (case v of None \<Rightarrow> JNull | Some x \<Rightarrow> JStr (float_hex x))"

lemma hex_fixed_inj_52: "hex_fixed 13 (unat v) = hex_fixed 13 (unat w) \<Longrightarrow> v = w" for v w :: "52 word"
proof -
  assume "hex_fixed 13 (unat v) = hex_fixed 13 (unat w)"
  moreover have "unat v < 16 ^ 13" "unat w < 16 ^ 13"
    using unsigned_less [of v, where ?'a = nat] unsigned_less [of w, where ?'a = nat] by simp_all
  ultimately show ?thesis using hex_fixed_inj by (metis word_unat_eq_iff)
qed

lemma append_same_len: "length a = length b \<Longrightarrow> a @ x = b @ y \<longleftrightarrow> a = b \<and> x = y"
  by auto

lemma float_hex_inj:
  assumes "isfinite x" "isfinite y" "float_hex x = float_hex y"
  shows "x = y"
proof -
  let ?h = "\<lambda>x. hex_fixed 13 (unat (fman x))"
  have s: "fsign x = fsign y"
    using assms by (auto simp: float_hex_def lit_def split: if_splits)
  have z: "iszero x = iszero y"
  proof -
    have "length (lit ''0x0.'' @ ?h v @ lit ''p-1022'') = 23" for v by simp
    moreover have "length (lit ''0x0.0p+0'') = 8" by simp
    ultimately show ?thesis
      using assms s by (auto simp: float_hex_def lit_def split: if_splits)
  qed
  show ?thesis
  proof (cases "iszero x")
    case True
    with z s show ?thesis by (simp add: iszero_def f64.expand)
  next
    case False
    have d: "fexp x = 0 \<longleftrightarrow> fexp y = 0"
      using assms s z False by (auto simp: float_hex_def lit_def split: if_splits)
    have body: "?h x @ drop 17 (float_hex (fabs x)) = ?h y @ drop 17 (float_hex (fabs y))"
      using assms s z False d by (auto simp: float_hex_def lit_def fabs_def isnan_def isinf_def iszero_def
          isfinite_def split: if_splits)
    then have m: "fman x = fman y" using hex_fixed_inj_52 by simp
    have "fexp x = fexp y"
    proof (cases "fexp x = 0")
      case False
      let ?e = "\<lambda>x. uint (fexp x) - 1023"
      have "(if ?e x < 0 then 45 else 43) # dec_nat (nat \<bar>?e x\<bar>) =
            (if ?e y < 0 then 45 else (43 :: nat)) # dec_nat (nat \<bar>?e y\<bar>)"
        using assms s z \<open>\<not> iszero x\<close> False d m by (simp add: float_hex_def Let_def)
      then have "uint (fexp x) = uint (fexp y)"
        by (auto simp: dec_nat_inj split: if_splits)
      then show ?thesis by (rule word_uint_eqI)
    qed (simp add: d)
    with s m show ?thesis by (simp add: f64.expand)
  qed
qed

lemma opt_hex_inj:
  "opt_hex v = opt_hex w \<Longrightarrow> pred_option isfinite v \<Longrightarrow> pred_option isfinite w \<Longrightarrow> v = w"
  by (auto simp: opt_hex_def float_hex_inj split: option.splits)

section \<open>Digests\<close>

definition content_message :: "pystr \<Rightarrow> json \<Rightarrow> nat list option" where
  "content_message tag j = map_option (append (tag @ [0])) (utf8 (dumps j))"

definition content_id :: "pystr \<Rightarrow> json \<Rightarrow> pystr option" where
  "content_id tag j = map_option (\<lambda>m. lit ''sha256:'' @ hexdigest m) (content_message tag j)"

definition collision :: "nat list option \<Rightarrow> nat list option \<Rightarrow> bool" where
  "collision x y \<longleftrightarrow> (case (x, y) of (Some m, Some n) \<Rightarrow> m \<noteq> n \<and> hexdigest m = hexdigest n | _ \<Rightarrow> False)"

text \<open>The format every content-bound identifier has, as the validators check it.\<close>

definition digest_format :: "pystr \<Rightarrow> bool" where
  "digest_format raw \<longleftrightarrow> take 7 raw = lit ''sha256:'' \<and> length (drop 7 raw) = 64 \<and>
     list_all is_hex (drop 7 raw)"

lemma content_id_format: "content_id tag j = Some i \<Longrightarrow> digest_format i"
  using hexdigest_shape by (auto simp: content_id_def digest_format_def list_all_iff)

lemma content_message_inj:
  "content_message tag j = Some m \<Longrightarrow> content_message tag k = Some m \<Longrightarrow> canon j = canon k"
proof -
  assume a: "content_message tag j = Some m" "content_message tag k = Some m"
  then obtain b where "utf8 (dumps j) = Some b" "utf8 (dumps k) = Some b"
    unfolding content_message_def by (elim map_option_eq_Some [THEN iffD1, THEN exE]) auto
  then have "dumps j = dumps k" by (rule utf8_inj)
  then show "canon j = canon k" by (rule dumps_inj)
qed

locale content_address =
  fixes tag :: pystr and payload :: "'a \<Rightarrow> json" and wf :: "'a \<Rightarrow> bool"
  assumes payload_inj: "wf a \<Longrightarrow> wf b \<Longrightarrow> canon (payload a) = canon (payload b) \<Longrightarrow> a = b"
begin

lemma message_binds:
  assumes "wf a" "wf b" "content_message tag (payload a) = Some m" "content_message tag (payload b) = Some m"
  shows "a = b"
  using payload_inj [OF assms(1,2)] content_message_inj [OF assms(3,4)] by blast

lemma id_binds:
  assumes "wf a" "wf b" "content_id tag (payload a) = Some i" "content_id tag (payload b) = Some i"
  shows "a = b \<or> collision (content_message tag (payload a)) (content_message tag (payload b))"
proof -
  obtain m n where "content_message tag (payload a) = Some m" "content_message tag (payload b) = Some n"
    "hexdigest m = hexdigest n"
    using assms(3,4) by (auto simp: content_id_def)
  then show ?thesis
    using message_binds [OF assms(1,2)] by (auto simp: collision_def)
qed

end

end
