(* ===== verification/Evidence_Ledger.thy ===== *)
theory Evidence_Ledger
  imports Evidence_Parsing Content_Id
begin

text \<open>
  \<^verbatim>\<open>domain/evidence/_identity.py\<close> and \<^verbatim>\<open>_ledger.py\<close>: the canonical payload of an entry, its
  content-bound identifier, and the two public entry points. Compilation binds a baseline
  result to an incident run; validation reconstructs a ledger from its parts and accepts it
  only when every recomputed identifier agrees.
\<close>

section \<open>Payloads\<close>

definition ID_DOMAIN :: pystr where
  "ID_DOMAIN = lit ''incident-evidence-compiler.metric-shift-evidence.v1''"

fun reason_value :: "abstention_reason \<Rightarrow> pystr" where
  "reason_value INSUFFICIENT_EVIDENCE = lit ''insufficient_evidence''"
| "reason_value WEAK_EVIDENCE = lit ''weak_evidence''"
| "reason_value AMBIGUOUS_EVIDENCE = lit ''ambiguous_evidence''"

fun kind_value :: "decision_kind \<Rightarrow> pystr" where
  "kind_value RANKING = lit ''ranking''"
| "kind_value ABSTENTION = lit ''abstention''"

abbreviation jhex :: "f64 \<Rightarrow> json" where
  "jhex x \<equiv> JStr (float_hex x)"

definition policy_payload :: "baseline_policy \<Rightarrow> json" where
  "policy_payload p = JObj
     [(lit ''minimum_margin'', jhex (bp_minimum_margin p)),
      (lit ''minimum_points_per_window'', JInt (bp_minimum_points_per_window p)),
      (lit ''minimum_score'', jhex (bp_minimum_score p)),
      (lit ''relative_scale_floor'', jhex (bp_relative_scale_floor p))]"

definition decision_payload :: "metric_shift_decision \<Rightarrow> json" where
  "decision_payload d = JObj
     [(lit ''abstention_reason'', case md_abstention_reason d of
         None \<Rightarrow> JNull | Some r \<Rightarrow> JStr (reason_value r)),
      (lit ''candidate_signal_keys'', JList (map (\<lambda>k. JStr (signal_value k)) (md_candidate_signal_keys d))),
      (lit ''eligible_signal_count'', JInt (md_eligible_signal_count d)),
      (lit ''kind'', JStr (kind_value (md_kind d))),
      (lit ''lead'', opt_hex (md_lead d)),
      (lit ''second_score'', opt_hex (md_second_score d)),
      (lit ''top_score'', opt_hex (md_top_score d))]"

definition candidate_payload :: "suspicion_candidate option \<Rightarrow> json" where
  "candidate_payload v = (case v of None \<Rightarrow> JNull | Some c \<Rightarrow> JObj
     [(lit ''absolute_scale_floor'', jhex (sc_absolute_scale_floor c)),
      (lit ''post_median'', jhex (sc_post_median c)),
      (lit ''post_point_count'', JInt (sc_post_point_count c)),
      (lit ''pre_mad'', jhex (sc_pre_mad c)),
      (lit ''pre_median'', jhex (sc_pre_median c)),
      (lit ''pre_point_count'', JInt (sc_pre_point_count c)),
      (lit ''relative_scale_floor'', jhex (sc_relative_scale_floor c)),
      (lit ''scale'', jhex (sc_scale c)),
      (lit ''signal_key'', JStr (signal_value (sc_signal_key c))),
      (lit ''signed_score'', jhex (sc_signed_score c)),
      (lit ''suspicion_score'', jhex (sc_suspicion_score c))])"

text \<open>The arguments of \<^verbatim>\<open>_entry_payload\<close>.\<close>

record entry_context =
  ec_tenant_id :: tenant_id
  ec_incident_id :: incident_id
  ec_run_id :: run_id
  ec_window :: incident_window
  ec_policy :: baseline_policy
  ec_decision :: metric_shift_decision
  ec_evaluation :: signal_evaluation

definition entry_payload :: "entry_context \<Rightarrow> json" where
  "entry_payload c = JObj
     [(lit ''absolute_scale_floor'', jhex (se_absolute_scale_floor (ec_evaluation c))),
      (lit ''candidate'', candidate_payload (se_candidate (ec_evaluation c))),
      (lit ''decision'', decision_payload (ec_decision c)),
      (lit ''eligible'', JBool (se_eligible (ec_evaluation c))),
      (lit ''incident_id'', JStr (incident_value (ec_incident_id c))),
      (lit ''incident_window'', JObj
        [(lit ''end'', JStr (timestamp (win_end (ec_window c)))),
         (lit ''injection'', JStr (timestamp (win_injection (ec_window c)))),
         (lit ''start'', JStr (timestamp (win_start (ec_window c))))]),
      (lit ''policy'', policy_payload (ec_policy c)),
      (lit ''post_point_count'', JInt (se_post_point_count (ec_evaluation c))),
      (lit ''pre_point_count'', JInt (se_pre_point_count (ec_evaluation c))),
      (lit ''relative_scale_floor'', jhex (bp_relative_scale_floor (ec_policy c))),
      (lit ''run_id'', JStr (run_value (ec_run_id c))),
      (lit ''schema_version'', JStr SCHEMA_VERSION),
      (lit ''signal_key'', JStr (signal_value (se_signal_key (ec_evaluation c)))),
      (lit ''tenant_id'', JStr (tenant_value (ec_tenant_id c)))]"

section \<open>Identifiers\<close>

definition evidence_id_of :: "json \<Rightarrow> domain_error + evidence_id" where
  "evidence_id_of payload =
     (case content_id ID_DOMAIN payload of None \<Rightarrow> invalid | Some i \<Rightarrow> Inr (EvidenceId i))"

text \<open>\<^verbatim>\<open>raw.partition(":")\<close>: the text before the first colon, whether there is one, the rest.\<close>

definition partition_colon :: "pystr \<Rightarrow> pystr \<times> bool \<times> pystr" where
  "partition_colon raw =
     (let p = takeWhile (\<lambda>c. c \<noteq> 58) raw; r = dropWhile (\<lambda>c. c \<noteq> 58) raw
      in (p, r \<noteq> [], tl r))"

text \<open>
  Beyond ASCII \<^verbatim>\<open>digest.lower()\<close> may differ from this, but then the last test fails as well.
\<close>

definition evidence_identifier :: "evidence_id \<Rightarrow> domain_error + evidence_id" where
  "evidence_identifier v =
     (let (pre, separator, digest) = partition_colon (evidence_value v) in
      if \<not> separator \<or> pre \<noteq> lit ''sha256'' \<or> length digest \<noteq> 64 \<or>
         digest \<noteq> map ascii_lower digest \<or>
         list_ex (\<lambda>c. c \<notin> set (lit ''0123456789abcdef'')) digest
      then invalid else Inr (EvidenceId (evidence_value v)))"

section \<open>Ledgers\<close>

text \<open>The evaluation a stored entry stands for.\<close>

definition entry_evaluation :: "metric_shift_evidence \<Rightarrow> signal_evaluation" where
  "entry_evaluation e = \<lparr>se_signal_key = me_signal_key e,
     se_absolute_scale_floor = me_absolute_scale_floor e,
     se_pre_point_count = me_pre_point_count e, se_post_point_count = me_post_point_count e,
     se_eligible = me_eligible e, se_candidate = me_candidate e\<rparr>"

definition check_entry ::
  "baseline_policy \<Rightarrow> metric_shift_evidence \<Rightarrow> domain_error + evidence_id \<times> signal_evaluation" where
  "check_entry policy entry =
     rbind (evidence_identifier (me_evidence_id entry)) (\<lambda>evidence_id.
     rbind (signal_key_of (me_signal_key entry)) (\<lambda>signal_key.
     rbind (int_count (me_pre_point_count entry)) (\<lambda>pre_count.
     rbind (int_count (me_post_point_count entry)) (\<lambda>post_count.
     rbind (pos_float (me_absolute_scale_floor entry)) (\<lambda>absolute_floor.
     rbind (nonneg_float (me_relative_scale_floor entry)) (\<lambda>relative_floor.
     let expected_eligible = (pre_count \<ge> bp_minimum_points_per_window policy \<and>
                              post_count \<ge> bp_minimum_points_per_window policy)
     in if \<not> feq relative_floor (bp_relative_scale_floor policy) \<or>
           me_eligible entry \<noteq> expected_eligible \<or>
           (me_candidate entry \<noteq> None) \<noteq> me_eligible entry then invalid
        else
          let shell = \<lparr>se_signal_key = signal_key, se_absolute_scale_floor = absolute_floor,
                se_pre_point_count = pre_count, se_post_point_count = post_count,
                se_eligible = me_eligible entry, se_candidate = None\<rparr>
          in rbind (case me_candidate entry of
                      Some c \<Rightarrow> rbind (candidate_of c shell policy) (\<lambda>d. Inr (Some d))
                    | None \<Rightarrow> Inr None) (\<lambda>candidate.
             Inr (evidence_id, shell \<lparr>se_candidate := candidate\<rparr>))))))))"

definition make_entry :: "entry_context \<Rightarrow> domain_error + metric_shift_evidence" where
  "make_entry c =
     rbind (evidence_id_of (entry_payload c)) (\<lambda>i.
       let e = ec_evaluation c in
       Inr \<lparr>me_evidence_id = i, me_signal_key = se_signal_key e,
            me_pre_point_count = se_pre_point_count e, me_post_point_count = se_post_point_count e,
            me_eligible = se_eligible e, me_absolute_scale_floor = se_absolute_scale_floor e,
            me_relative_scale_floor = bp_relative_scale_floor (ec_policy c),
            me_candidate = se_candidate e\<rparr>)"

definition validate_metric_evidence_ledger ::
  "metric_evidence_ledger \<Rightarrow> domain_error + metric_evidence_ledger" where
  "validate_metric_evidence_ledger v =
     (if ml_schema_version v \<noteq> SCHEMA_VERSION then invalid
      else
        rbind (identifier_of TenantId (tenant_value (ml_tenant_id v))) (\<lambda>tenant.
        rbind (identifier_of IncidentId (incident_value (ml_incident_id v))) (\<lambda>incident.
        rbind (identifier_of RunId (run_value (ml_run_id v))) (\<lambda>run.
        rbind (window_of (ml_window v)) (\<lambda>window.
        rbind (policy_of (ml_policy v)) (\<lambda>policy.
        rbind (rmap (check_entry policy) (ml_entries v)) (\<lambda>checked.
        rbind (evaluations_of (map snd checked) policy) (\<lambda>(ordered, candidates).
        if map (\<lambda>c. signal_value (se_signal_key (snd c))) checked
             \<noteq> map (\<lambda>e. signal_value (se_signal_key e)) ordered then invalid
        else
          rbind (ledger_decision (ml_decision v) policy candidates) (\<lambda>decision.
          rbind (rmap (\<lambda>e. make_entry \<lparr>ec_tenant_id = tenant, ec_incident_id = incident,
                   ec_run_id = run, ec_window = window, ec_policy = policy, ec_decision = decision,
                   ec_evaluation = e\<rparr>) ordered) (\<lambda>entries.
          if map me_evidence_id entries \<noteq> map fst checked then invalid
          else Inr \<lparr>ml_schema_version = SCHEMA_VERSION, ml_tenant_id = tenant,
                 ml_incident_id = incident, ml_run_id = run, ml_window = window,
                 ml_policy = policy, ml_decision = decision, ml_entries = entries\<rparr>))))))))))"

definition compile_metric_shift_ledger ::
  "tenant_id \<Rightarrow> incident_id \<Rightarrow> run_id \<Rightarrow> incident_window \<Rightarrow> baseline_result
     \<Rightarrow> domain_error + metric_evidence_ledger" where
  "compile_metric_shift_ledger tenant_id incident_id run_id window result =
     rbind (identifier_of TenantId (tenant_value tenant_id)) (\<lambda>tenant.
     rbind (identifier_of IncidentId (incident_value incident_id)) (\<lambda>incident.
     rbind (identifier_of RunId (run_value run_id)) (\<lambda>run.
     rbind (window_of window) (\<lambda>window.
     rbind (policy_of (result_policy result)) (\<lambda>policy.
     rbind (evaluations_of (result_evaluations result) policy) (\<lambda>(evaluations, candidates).
     rbind (decision_of result policy candidates) (\<lambda>decision.
     rbind (rmap (\<lambda>e. make_entry \<lparr>ec_tenant_id = tenant, ec_incident_id = incident,
              ec_run_id = run, ec_window = window, ec_policy = policy, ec_decision = decision,
              ec_evaluation = e\<rparr>) evaluations) (\<lambda>entries.
       validate_metric_evidence_ledger \<lparr>ml_schema_version = SCHEMA_VERSION, ml_tenant_id = tenant,
         ml_incident_id = incident, ml_run_id = run, ml_window = window, ml_policy = policy,
         ml_decision = decision, ml_entries = entries\<rparr>))))))))"

section \<open>Payloads determine what they describe\<close>

lemma canon_sorted:
  "sorted (map fst ps) \<Longrightarrow> canon (JObj ps) = JObj (map (\<lambda>(k, v). (k, canon v)) ps)"
proof -
  have "map fst (map (\<lambda>(k, v). (k, canon v)) ps) = map fst ps"
    by (simp add: case_prod_beta comp_def)
  moreover assume "sorted (map fst ps)"
  ultimately show ?thesis by (simp only: canon.simps sort_key_id_if_sorted)
qed

lemma canon_leaves [simp]:
  "canon (opt_hex v) = opt_hex v" "canon (JList (map (\<lambda>k. JStr (f k)) ks)) = JList (map (\<lambda>k. JStr (f k)) ks)"
  by (auto simp: opt_hex_def comp_def split: option.splits)

lemma canon_policy_payload [simp]: "canon (policy_payload p) = policy_payload p"
  unfolding policy_payload_def by (subst canon_sorted) (simp_all add: lit_def)

lemma canon_decision_payload [simp]: "canon (decision_payload d) = decision_payload d"
  unfolding decision_payload_def by (subst canon_sorted) (simp_all add: lit_def split: option.splits)

lemma canon_candidate_payload [simp]: "canon (candidate_payload c) = candidate_payload c"
  unfolding candidate_payload_def
  by (cases c) (simp, simp only: option.case, subst canon_sorted, simp_all add: lit_def)

lemma canon_entry_payload: "canon (entry_payload c) = entry_payload c"
proof -
  have w: "canon (JObj [(lit ''end'', JStr a), (lit ''injection'', JStr b), (lit ''start'', JStr d)]) =
      JObj [(lit ''end'', JStr a), (lit ''injection'', JStr b), (lit ''start'', JStr d)]" for a b d
    by (subst canon_sorted) (simp_all add: lit_def)
  show ?thesis
    unfolding entry_payload_def
    by (subst canon_sorted) (simp add: lit_def, simp add: w del: canon.simps(2))
qed

lemma reason_value_inj: "reason_value a = reason_value b \<longleftrightarrow> a = b"
  by (cases a; cases b) simp_all

lemma kind_value_inj: "kind_value a = kind_value b \<longleftrightarrow> a = b"
  by (cases a; cases b) simp_all

definition finite_decision :: "metric_shift_decision \<Rightarrow> bool" where
  "finite_decision d \<longleftrightarrow> pred_option isfinite (md_lead d) \<and> pred_option isfinite (md_second_score d) \<and>
     pred_option isfinite (md_top_score d)"

definition finite_candidate :: "suspicion_candidate \<Rightarrow> bool" where
  "finite_candidate c \<longleftrightarrow> list_all isfinite [sc_absolute_scale_floor c, sc_post_median c, sc_pre_mad c,
     sc_pre_median c, sc_relative_scale_floor c, sc_scale c, sc_signed_score c, sc_suspicion_score c]"

definition wf_context :: "entry_context \<Rightarrow> bool" where
  "wf_context c \<longleftrightarrow> valid_window (ec_window c) \<and> valid_policy (ec_policy c) \<and>
     finite_decision (ec_decision c) \<and> isfinite (se_absolute_scale_floor (ec_evaluation c)) \<and>
     pred_option finite_candidate (se_candidate (ec_evaluation c))"

lemma policy_payload_inj:
  "valid_policy p \<Longrightarrow> valid_policy q \<Longrightarrow> policy_payload p = policy_payload q \<Longrightarrow> p = q"
  by (cases p; cases q)
    (simp add: policy_payload_def valid_policy_def nonneg_finite_def float_hex_inj)

lemma decision_payload_inj:
  assumes "finite_decision d" "finite_decision e" "decision_payload d = decision_payload e"
  shows "d = e"
proof -
  have "map (\<lambda>k. JStr (signal_value k)) xs = map (\<lambda>k. JStr (signal_value k)) ys \<longleftrightarrow> xs = ys" for xs ys
    by (rule inj_map_eq_map) (auto simp: inj_def intro: signal_key.expand)
  with assms show ?thesis
    by (cases d; cases e)
      (auto simp: decision_payload_def finite_decision_def reason_value_inj kind_value_inj
        opt_hex_inj split: option.splits)
qed

lemma candidate_payload_inj:
  assumes "pred_option finite_candidate c" "pred_option finite_candidate d"
    and "candidate_payload c = candidate_payload d"
  shows "c = d"
proof (cases c; cases d)
  fix x y assume c: "c = Some x" and d: "d = Some y"
  with assms have "x = y"
    by (cases x; cases y)
      (auto simp: candidate_payload_def finite_candidate_def float_hex_inj intro: signal_key.expand)
  with c d show ?thesis by simp
qed (use assms(3) in \<open>simp_all add: candidate_payload_def\<close>)

interpretation metric_id: content_address ID_DOMAIN entry_payload wf_context
proof unfold_locales
  fix a b assume wf: "wf_context a" "wf_context b"
    and "canon (entry_payload a) = canon (entry_payload b)"
  then have eq: "entry_payload a = entry_payload b" by (simp add: canon_entry_payload)
  have "ec_window a = ec_window b"
    using eq wf timestamp_inj
    by (cases "ec_window a"; cases "ec_window b")
      (simp add: entry_payload_def wf_context_def valid_window_def)
  moreover have "ec_policy a = ec_policy b" "ec_decision a = ec_decision b"
    using eq wf policy_payload_inj decision_payload_inj
    by (simp_all add: entry_payload_def wf_context_def)
  moreover have "ec_evaluation a = ec_evaluation b"
    using eq wf candidate_payload_inj
    by (cases "ec_evaluation a"; cases "ec_evaluation b")
      (auto simp: entry_payload_def wf_context_def float_hex_inj intro: signal_key.expand)
  moreover have "ec_tenant_id a = ec_tenant_id b" "ec_incident_id a = ec_incident_id b"
    "ec_run_id a = ec_run_id b"
    using eq by (auto simp: entry_payload_def intro: tenant_id.expand incident_id.expand run_id.expand)
  ultimately show "a = b" by (cases a; cases b) simp
qed

section \<open>Identifier format\<close>

lemma partition_colon_sha:
  "(\<exists>d. partition_colon raw = (lit ''sha256'', True, d)) \<longleftrightarrow> take 7 raw = lit ''sha256:''"
  "take 7 raw = lit ''sha256:'' \<Longrightarrow> partition_colon raw = (lit ''sha256'', True, drop 7 raw)"
proof -
  have a: "partition_colon (lit ''sha256:'' @ d) = (lit ''sha256'', True, d)" for d
    by (simp add: partition_colon_def lit_def)
  show b: "partition_colon raw = (lit ''sha256'', True, drop 7 raw)" if "take 7 raw = lit ''sha256:''"
    using a [of "drop 7 raw"] that by (metis append_take_drop_id)
  have "take 7 raw = lit ''sha256:''" if p: "partition_colon raw = (lit ''sha256'', True, d)" for d
  proof -
    from p have t: "takeWhile (\<lambda>c. c \<noteq> 58) raw = lit ''sha256''"
      and ne: "dropWhile (\<lambda>c. c \<noteq> 58) raw \<noteq> []" and d: "d = tl (dropWhile (\<lambda>c. c \<noteq> 58) raw)"
      by (auto simp: partition_colon_def Let_def)
    have r: "dropWhile (\<lambda>c. c \<noteq> 58) raw = 58 # d"
      using hd_dropWhile [OF ne] d list.collapse [OF ne] by simp
    have "raw = lit ''sha256'' @ 58 # d"
      using takeWhile_dropWhile_id [of "\<lambda>c. c \<noteq> 58" raw] t r by simp
    then show ?thesis by (simp add: lit_def)
  qed
  with b show "(\<exists>d. partition_colon raw = (lit ''sha256'', True, d)) \<longleftrightarrow> take 7 raw = lit ''sha256:''"
    by blast
qed

lemma hex_alphabet: "c \<in> set (lit ''0123456789abcdef'') \<longleftrightarrow> is_hex c"
proof -
  have "lit ''0123456789abcdef'' = [48..<58] @ [97..<103]" by (simp add: lit_def upt_rec)
  then have "set (lit ''0123456789abcdef'') = {48..<58} \<union> {97..<103}"
    by (simp only: set_append set_upt)
  then show ?thesis by (auto simp: is_hex_def)
qed

lemma ascii_lower_hex: "list_all is_hex d \<Longrightarrow> map ascii_lower d = d"
  by (induction d) (auto simp: is_hex_def ascii_lower_def)

lemma evidence_identifier_Inr [parse_simps]:
  "evidence_identifier v = Inr i \<longleftrightarrow> i = v \<and> digest_format (evidence_value v)"
proof (cases "take 7 (evidence_value v) = lit ''sha256:''")
  case True
  then show ?thesis
    using ascii_lower_hex [of "drop 7 (evidence_value v)"]
    by (auto simp: evidence_identifier_def partition_colon_sha(2) digest_format_def res_simps
        hex_alphabet list_all_iff list_ex_iff)
next
  case False
  then show ?thesis
    using partition_colon_sha(1) [of "evidence_value v"]
    by (cases "partition_colon (evidence_value v)")
      (auto simp: evidence_identifier_def digest_format_def res_simps)
qed

section \<open>What validation accepts\<close>

definition valid_entry :: "baseline_policy \<Rightarrow> metric_shift_evidence \<Rightarrow> bool" where
  "valid_entry p e \<longleftrightarrow> digest_format (evidence_value (me_evidence_id e)) \<and>
     valid_evaluation p (entry_evaluation e) \<and> nonneg_finite (me_relative_scale_floor e) \<and>
     feq (me_relative_scale_floor e) (bp_relative_scale_floor p)"

lemma check_entry_Inr [parse_simps]:
  "check_entry p e = Inr r \<longleftrightarrow> r = (me_evidence_id e, entry_evaluation e) \<and> valid_entry p e"
proof (cases "me_candidate e")
  case None
  then show ?thesis
    by (auto simp: check_entry_def res_simps parse_simps Let_def valid_entry_def valid_evaluation_def
        entry_evaluation_def)
next
  case (Some c)
  then show ?thesis
    by (auto simp: check_entry_def res_simps parse_simps Let_def valid_entry_def valid_evaluation_def
        entry_evaluation_def matches_def)
qed

lemma rmap_check_entry [parse_simps]:
  "rmap (check_entry p) es = Inr rs \<longleftrightarrow>
     rs = map (\<lambda>e. (me_evidence_id e, entry_evaluation e)) es \<and> list_all (valid_entry p) es"
  by (induction es arbitrary: rs) (auto simp: res_simps parse_simps)

lemma make_entry_Inr:
  assumes "make_entry c = Inr e"
  shows "entry_evaluation e = ec_evaluation c" "digest_format (evidence_value (me_evidence_id e))"
    "me_relative_scale_floor e = bp_relative_scale_floor (ec_policy c)"
    "evidence_id_of (entry_payload c) = Inr (me_evidence_id e)"
  using assms
  by (auto simp: make_entry_def res_simps entry_evaluation_def evidence_id_of_def Let_def
      dest: content_id_format split: option.splits)

lemma make_entry_valid:
  assumes "make_entry c = Inr e" "valid_policy (ec_policy c)" "valid_evaluation (ec_policy c) (ec_evaluation c)"
  shows "valid_entry (ec_policy c) e"
  using make_entry_Inr [OF assms(1)] assms(2,3)
  by (simp add: valid_entry_def valid_policy_def nonneg_finite_def)

text \<open>The context the ledger gives to the entry of an evaluation.\<close>

definition context_of :: "metric_evidence_ledger \<Rightarrow> signal_evaluation \<Rightarrow> entry_context" where
  "context_of l e = \<lparr>ec_tenant_id = ml_tenant_id l, ec_incident_id = ml_incident_id l,
     ec_run_id = ml_run_id l, ec_window = ml_window l, ec_policy = ml_policy l,
     ec_decision = ml_decision l, ec_evaluation = e\<rparr>"

definition ledger_evaluations :: "metric_evidence_ledger \<Rightarrow> signal_evaluation list" where
  "ledger_evaluations l = map entry_evaluation (ml_entries l)"

definition ledger_candidates :: "metric_evidence_ledger \<Rightarrow> suspicion_candidate list" where
  "ledger_candidates l = sort_key candidate_order (present_candidates (ledger_evaluations l))"

text \<open>
  The ledger invariant: named context, valid window and policy, entries strictly ordered by
  signal and individually replayable, a decision that follows from them, and identifiers
  that are the digests of the entries' payloads.
\<close>

definition valid_metric_ledger :: "metric_evidence_ledger \<Rightarrow> bool" where
  "valid_metric_ledger l \<longleftrightarrow>
     ml_schema_version l = SCHEMA_VERSION \<and>
     \<not> is_blank (tenant_value (ml_tenant_id l)) \<and> \<not> is_blank (incident_value (ml_incident_id l)) \<and>
     \<not> is_blank (run_value (ml_run_id l)) \<and> valid_window (ml_window l) \<and> valid_policy (ml_policy l) \<and>
     list_all (valid_evaluation (ml_policy l)) (ledger_evaluations l) \<and>
     sorted_wrt (<) (map evaluation_order (ledger_evaluations l)) \<and>
     ledger_decision (ml_decision l) (ml_policy l) (ledger_candidates l) = Inr (ml_decision l) \<and>
     rmap (\<lambda>e. make_entry (context_of l e)) (ledger_evaluations l) = Inr (ml_entries l)"

lemma present_candidates_scored:
  assumes "list_all (valid_evaluation p) es"
  shows "scored (sort_key candidate_order (present_candidates es))"
  using assms by (auto simp: scored_def list_all_iff present_candidates_in valid_evaluation_def
      replays_def)

lemma rmap_make_entry:
  assumes "rmap (\<lambda>e. make_entry (f e)) es = Inr entries" "\<And>e. ec_evaluation (f e) = e"
  shows "map entry_evaluation entries = es"
  using assms by (induction es arbitrary: entries) (auto simp: res_simps make_entry_Inr)

lemma rmap_make_entry_valid:
  assumes "rmap (\<lambda>e. make_entry (f e)) es = Inr entries" "\<And>e. ec_evaluation (f e) = e"
    and "\<And>e. ec_policy (f e) = p" "valid_policy p" "list_all (valid_evaluation p) es"
  shows "list_all (valid_entry p) entries"
  using assms
  by (induction es arbitrary: entries) (auto simp: res_simps, metis make_entry_valid)

lemma valid_evaluations_of:
  assumes "list_all (valid_evaluation p) es" "sorted_wrt (<) (map evaluation_order es)"
  shows "evaluations_of es p = Inr (es, sort_key candidate_order (present_candidates es))"
  using assms by (simp add: parse_simps strict_sorted_iff sort_key_id_if_sorted)

lemma validate_valid_ledger:
  assumes "valid_metric_ledger l"
  shows "validate_metric_evidence_ledger l = Inr l"
proof -
  let ?p = "ml_policy l" and ?es = "ledger_evaluations l"
  note v = assms [unfolded valid_metric_ledger_def]
  have entries: "list_all (valid_entry ?p) (ml_entries l)"
    using v by (intro rmap_make_entry_valid) (auto simp: context_of_def)
  have checked: "rmap (check_entry ?p) (ml_entries l) =
      Inr (map (\<lambda>e. (me_evidence_id e, entry_evaluation e)) (ml_entries l))"
    using entries by (simp add: parse_simps)
  have "evaluations_of ?es ?p = Inr (?es, ledger_candidates l)"
    using v valid_evaluations_of by (simp add: ledger_candidates_def)
  moreover have "policy_of ?p = Inr ?p" "window_of (ml_window l) = Inr (ml_window l)"
    "identifier_of TenantId (tenant_value (ml_tenant_id l)) = Inr (ml_tenant_id l)"
    "identifier_of IncidentId (incident_value (ml_incident_id l)) = Inr (ml_incident_id l)"
    "identifier_of RunId (run_value (ml_run_id l)) = Inr (ml_run_id l)"
    using v by (simp_all add: parse_simps)
  moreover have "map snd (map (\<lambda>e. (me_evidence_id e, entry_evaluation e)) (ml_entries l)) = ?es"
    by (simp add: ledger_evaluations_def)
  ultimately show ?thesis
    using v checked
    by (simp add: validate_metric_evidence_ledger_def context_of_def comp_def ledger_evaluations_def)
qed

lemma sorted_by_same_keys:
  "map evaluation_order es = map evaluation_order (sort_key evaluation_order es) \<Longrightarrow>
     sort_key evaluation_order es = es"
  by (metis sort_key_id_if_sorted sorted_sort_key)

lemma validate_Inr:
  assumes "validate_metric_evidence_ledger v = Inr l"
  shows "valid_metric_ledger l" "ledger_evaluations l = ledger_evaluations v"
    "map me_evidence_id (ml_entries l) = map me_evidence_id (ml_entries v)"
    "l = v \<lparr>ml_decision := ml_decision l, ml_entries := ml_entries l\<rparr>"
    "ledger_decision (ml_decision v) (ml_policy v) (ledger_candidates v) = Inr (ml_decision l)"
proof -
  let ?p = "ml_policy v" and ?es = "ledger_evaluations v"
  let ?pairs = "map (\<lambda>e. (me_evidence_id e, entry_evaluation e)) (ml_entries v)"
  have es: "map snd ?pairs = ?es" "map (\<lambda>c. signal_value (se_signal_key (snd c))) ?pairs = map evaluation_order ?es"
    by (simp_all add: ledger_evaluations_def evaluation_order_def)
  from assms obtain ordered cands d entries where
    schema: "ml_schema_version v = SCHEMA_VERSION"
    and ids: "\<not> is_blank (tenant_value (ml_tenant_id v))" "\<not> is_blank (incident_value (ml_incident_id v))"
      "\<not> is_blank (run_value (ml_run_id v))"
    and wp: "valid_window (ml_window v)" "valid_policy ?p"
    and evs: "evaluations_of (map snd ?pairs) ?p = Inr (ordered, cands)"
    and order: "map (\<lambda>c. signal_value (se_signal_key (snd c))) ?pairs =
        map (\<lambda>e. signal_value (se_signal_key e)) ordered"
    and dec: "ledger_decision (ml_decision v) ?p cands = Inr d"
    and entries: "rmap (\<lambda>e. make_entry \<lparr>ec_tenant_id = ml_tenant_id v, ec_incident_id = ml_incident_id v,
        ec_run_id = ml_run_id v, ec_window = ml_window v, ec_policy = ?p, ec_decision = d,
        ec_evaluation = e\<rparr>) ordered = Inr entries"
    and same: "map me_evidence_id entries = map fst ?pairs"
    and l: "l = v \<lparr>ml_decision := d, ml_entries := entries\<rparr>"
    unfolding validate_metric_evidence_ledger_def
    by (auto simp: res_simps parse_simps Let_def simp del: list.map_comp map_map)
  from evs [unfolded es(1)] have valid: "list_all (valid_evaluation ?p) ?es" "distinct (map evaluation_order ?es)"
    and o: "ordered = sort_key evaluation_order ?es" "cands = sort_key candidate_order (present_candidates ?es)"
    by (simp_all add: parse_simps)
  have "map evaluation_order ?es = map evaluation_order ordered"
    using order [unfolded es(2)] by (simp only: evaluation_order_def [abs_def])
  with o sorted_by_same_keys have ord: "ordered = ?es" by simp
  have strict: "sorted_wrt (<) (map evaluation_order ?es)"
    using evaluations.canon_strict [OF valid(2)] o ord by simp
  have ctx: "context_of l = (\<lambda>e. \<lparr>ec_tenant_id = ml_tenant_id v, ec_incident_id = ml_incident_id v,
        ec_run_id = ml_run_id v, ec_window = ml_window v, ec_policy = ?p, ec_decision = d,
        ec_evaluation = e\<rparr>)"
    by (simp add: context_of_def l fun_eq_iff)
  show evl: "ledger_evaluations l = ?es"
    using rmap_make_entry [OF entries] ord by (simp add: ledger_evaluations_def l)
  have cands: "cands = ledger_candidates v" "ledger_candidates l = ledger_candidates v"
    using o evl by (simp_all add: ledger_candidates_def)
  show "map me_evidence_id (ml_entries l) = map me_evidence_id (ml_entries v)"
    using same by (simp add: l comp_def)
  show "l = v \<lparr>ml_decision := ml_decision l, ml_entries := ml_entries l\<rparr>" by (simp add: l)
  show dv: "ledger_decision (ml_decision v) ?p (ledger_candidates v) = Inr (ml_decision l)"
    using dec cands by (simp add: l)
  have "scored (ledger_candidates v)"
    unfolding ledger_candidates_def by (rule present_candidates_scored [OF valid(1)])
  from decision_consistent_stable [OF this] dv
  have "ledger_decision (ml_decision l) ?p (ledger_candidates v) = Inr (ml_decision l)"
    by (auto simp: parse_simps)
  then show "valid_metric_ledger l"
    unfolding valid_metric_ledger_def evl cands(2) ctx
    using schema ids wp valid strict entries ord by (simp add: l)
qed

lemma compile_Inr:
  assumes "compile_metric_shift_ledger t i r w res = Inr l"
  shows "valid_metric_ledger l" "ledger_evaluations l = sort_key evaluation_order (result_evaluations res)"
    "ml_tenant_id l = t" "ml_incident_id l = i" "ml_run_id l = r" "ml_window l = w"
    "ml_policy l = result_policy res"
proof -
  from assms obtain es cs d entries where
    evs: "evaluations_of (result_evaluations res) (result_policy res) = Inr (es, cs)"
    and entries: "rmap (\<lambda>e. make_entry \<lparr>ec_tenant_id = t, ec_incident_id = i,
        ec_run_id = r, ec_window = w, ec_policy = result_policy res, ec_decision = d,
        ec_evaluation = e\<rparr>) es = Inr entries"
    and v: "validate_metric_evidence_ledger \<lparr>ml_schema_version = SCHEMA_VERSION, ml_tenant_id = t,
         ml_incident_id = i, ml_run_id = r, ml_window = w, ml_policy = result_policy res,
         ml_decision = d, ml_entries = entries\<rparr> = Inr l"
    by (auto simp: compile_metric_shift_ledger_def res_simps parse_simps)
  note l = validate_Inr [OF v]
  show "valid_metric_ledger l" by (rule l(1))
  show "ledger_evaluations l = sort_key evaluation_order (result_evaluations res)"
    using l(2) rmap_make_entry [OF entries] evs by (simp add: ledger_evaluations_def parse_simps)
  show "ml_tenant_id l = t" "ml_incident_id l = i" "ml_run_id l = r" "ml_window l = w"
    "ml_policy l = result_policy res"
    by (subst l(4), simp)+
qed

end
