(* ===== verification/Evidence_Compile.thy ===== *)
theory Evidence_Compile
  imports Evidence_Ledger
begin

text \<open>
  The metric side end to end: every result of the baseline on valid inputs compiles into a
  ledger, provided the names are non-blank and contain no surrogate code points, and a
  compiled or validated ledger satisfies the ledger invariant.
\<close>

section \<open>Baseline results can be replayed\<close>

lemma fadd_sign: "\<not> fsign a \<Longrightarrow> \<not> fsign b \<Longrightarrow> \<not> fsign (fadd a b)"
  by (auto simp: fadd_def Let_def fnan_def fval_def)
    (metis add_nonneg_nonneg fmag_nonneg linorder_not_less)

lemma fdiv_two_sign: "fdiv a float_two = Some z \<Longrightarrow> \<not> fsign a \<Longrightarrow> \<not> fsign z"
  by (auto simp: fdiv_def fnan_def split: if_splits)

lemma median_sign:
  assumes "median xs = Some m" "\<forall>x \<in> set xs. \<not> fsign x"
  shows "\<not> fsign m"
proof -
  let ?d = "sort_key fval xs"
  have n: "length xs \<noteq> 0" using assms(1) by (auto simp: median_def)
  have in_set: "\<not> fsign (?d ! i)" if "i < length xs" for i
    using assms(2) that nth_mem [of i ?d] by simp
  show ?thesis
  proof (cases "odd (length xs)")
    case True
    with assms(1) have "m = ?d ! (length xs div 2)" by (simp add: median_def Let_def split: if_splits)
    with in_set n show ?thesis by simp
  next
    case False
    with assms(1) have "fdiv (fadd (?d ! (length xs div 2 - 1)) (?d ! (length xs div 2))) float_two = Some m"
      by (simp add: median_def Let_def split: if_splits)
    moreover have "length xs div 2 < length xs" "length xs div 2 - 1 < length xs" using n by linarith+
    ultimately show ?thesis using in_set fadd_sign fdiv_two_sign by blast
  qed
qed

lemma nonneg_finiteI: "isfinite x \<Longrightarrow> \<not> fsign x \<Longrightarrow> nonneg_finite x"
  by (simp add: nonneg_finite_def fval_def)

lemma score_candidate_replays:
  assumes "positive_finite (in_absolute_scale_floor item)" "nonneg_finite (bp_relative_scale_floor p)"
    and "\<not> is_blank (signal_value (sig_key (in_signal item)))"
    and "score_candidate item p pre post = Inr c"
  shows "replays c"
proof -
  let ?a = "in_absolute_scale_floor item" and ?r = "bp_relative_scale_floor p"
  from assms(4) obtain l where l: "score_try ?a ?r pre post = Some l"
    and fin: "isfinite (pre_center l)" "isfinite (post_center l)" "isfinite (local_pre_mad l)"
      "isfinite (robust_scale l)" "isfinite (relative_scale l)" "isfinite (local_scale l)"
      "isfinite (local_signed_score l)" "isfinite (local_suspicion_score l)"
    and c: "c = \<lparr>sc_signal_key = sig_key (in_signal item), sc_pre_point_count = int (length pre),
        sc_post_point_count = int (length post), sc_pre_median = pre_center l,
        sc_post_median = post_center l, sc_pre_mad = local_pre_mad l,
        sc_absolute_scale_floor = ?a, sc_relative_scale_floor = ?r,
        sc_scale = local_scale l, sc_signed_score = local_signed_score l,
        sc_suspicion_score = local_suspicion_score l\<rparr>"
    by (auto simp: score_candidate_def require_finite_def split: option.splits if_splits)
  from l have d: "fdiv (fsub (post_center l) (pre_center l)) (local_scale l) = Some (local_signed_score l)"
    and s: "local_scale l = fmax (fmax (robust_scale l) ?a) (relative_scale l)"
    and rs: "robust_scale l = fmul float_1_4826 (local_pre_mad l)"
      "relative_scale l = fmul ?r (fmax (fabs (pre_center l)) ?a)"
    and u: "local_suspicion_score l = fabs (local_signed_score l)"
    and mad: "median (map (\<lambda>v. fabs (fsub v (pre_center l))) pre) = Some (local_pre_mad l)"
    by (auto simp: score_try_def Let_def bind_eq_Some_conv)
  have "\<not> fsign (local_pre_mad l)" by (rule median_sign [OF mad]) auto
  then have "nonneg_finite (local_pre_mad l)" using fin(3) by (intro nonneg_finiteI)
  moreover have "valid_candidate c" using score_candidate_Inr [OF assms(1,4)] .
  moreover have "nonneg_finite (local_suspicion_score l)" using fin(8) u by (simp add: nonneg_finiteI)
  ultimately show ?thesis
    using assms(1-3) fin d s rs u
    by (auto simp: c replays_def replayed_scale_def valid_candidate_def)
qed

lemma evaluate_signal_valid:
  assumes "valid_policy p" "valid_input item" "\<not> is_blank (signal_value (sig_key (in_signal item)))"
    and "evaluate_signal w item p = Inr e"
  shows "valid_evaluation p e"
proof -
  have shape: "evaluation_of w p item e" by (rule evaluate_signal_Inr [OF assms(4)])
  have "replays c" if "se_candidate e = Some c" for c
    using assms that score_candidate_replays
    by (auto simp: evaluate_signal_def Let_def res_simps valid_input_def valid_policy_def
        split: if_splits)
  moreover from this have "matches c e p" if "se_candidate e = Some c" for c
    using shape that assms(1,2)
    by (auto simp: evaluation_of_def matches_def replays_def positive_finite_def nonneg_finite_def)
  ultimately show ?thesis
    using shape assms(2,3) by (auto simp: valid_evaluation_def evaluation_of_def valid_input_def)
qed

lemma finf_not_negative: "\<not> flt (finf False) (fzero s)"
proof -
  have "fval (finf False) = fmag (finf False)" by (simp add: fval_def)
  then show ?thesis using fmag_nonneg [of "finf False"] by (simp add: flt_def del: fmag_nonneg)
qed

lemma candidate_eq_refl: "replays c \<Longrightarrow> candidate_eq c c"
  by (simp add: candidate_eq_def replays_def nonneg_finite_def positive_finite_def)

lemma list_all2_candidate_eq: "list_all replays cs \<Longrightarrow> list_all2 candidate_eq cs cs"
  by (induction cs) (auto simp: candidate_eq_refl)

text \<open>The conclusion of the baseline passes the checks of the decision snapshot.\<close>

lemma decision_of_conclude:
  assumes "list_all replays cs" "scored cs" "valid_policy p"
    and "\<And>first second rest. cs = first # second # rest \<Longrightarrow>
           fval (sc_suspicion_score second) \<le> fval (sc_suspicion_score first)"
  shows "\<exists>d. decision_of (conclude p es cs) p cs = Inr d"
proof (cases cs)
  case Nil
  then show ?thesis
    by (simp add: conclude_def decision_of_def optional_score_def opt_feq_def top_score_of_def
        second_score_of_def expected_reason_def count_of_def)
next
  case (Cons first rest)
  have ce: "list_all2 candidate_eq cs cs" by (rule list_all2_candidate_eq [OF assms(1)])
  have sc: "pred_option nonneg_finite (top_score_of cs)" "pred_option nonneg_finite (second_score_of cs)"
    using scored_scores [OF assms(2)] by auto
  have os: "optional_score (top_score_of cs) = Inr (top_score_of cs)"
    "optional_score (second_score_of cs) = Inr (second_score_of cs)"
    using sc by (simp_all add: parse_simps)
  have lead: "nonneg_finite (fsub (sc_suspicion_score first) (sc_suspicion_score second))"
    if "rest = second # others" for second others
    using fsub_ordered [of "sc_suspicion_score first" "sc_suspicion_score second"] assms(2,4) Cons that
    by (auto simp: scored_def nonneg_finite_def)
  show ?thesis
  proof (cases rest)
    case Nil
    with Cons ce os sc show ?thesis
      by (auto simp: conclude_def decision_of_def Let_def finf_not_negative opt_feq_refl
          expected_reason_def top_score_of_def second_score_of_def count_of_def)
  next
    case rest: (Cons second others)
    note l = lead [OF rest]
    then have "checked_lead p first second (fsub (sc_suspicion_score first) (sc_suspicion_score second)) =
        Inr (Some (fsub (sc_suspicion_score first) (sc_suspicion_score second)))"
      if "\<not> flt (fsub (sc_suspicion_score first) (sc_suspicion_score second)) (bp_minimum_margin p)"
      using that by (simp add: parse_simps nonneg_finite_def)
    with Cons rest ce os sc show ?thesis
      by (auto simp: conclude_def decision_of_def Let_def opt_feq_refl expected_reason_def
          top_score_of_def second_score_of_def count_of_def)
  qed
qed

section \<open>Encodable payloads\<close>

fun json_encodable :: "json \<Rightarrow> bool" where
  "json_encodable (JStr s) \<longleftrightarrow> encodable s"
| "json_encodable (JList js) \<longleftrightarrow> (\<forall>j \<in> set js. json_encodable j)"
| "json_encodable (JObj ps) \<longleftrightarrow> (\<forall>(k, v) \<in> set ps. encodable k \<and> json_encodable v)"
| "json_encodable _ \<longleftrightarrow> True"

lemma encodable_simps [simp]:
  "encodable []" "encodable (a @ b) \<longleftrightarrow> encodable a \<and> encodable b"
  "encodable (c # s) \<longleftrightarrow> (c < 1114112 \<and> \<not> (55296 \<le> c \<and> c < 57344)) \<and> encodable s"
  by (auto simp: encodable_def)

lemma encodable_ascii: "\<forall>c \<in> set s. c < 1000 \<Longrightarrow> encodable s"
  by (auto simp: encodable_def)

lemma encodable_lit [simp]: "encodable (lit s)"
proof (rule encodable_ascii)
  have "(of_char c :: nat) < 1000" for c
    using nat_of_char_less_256 [of c] by linarith
  then show "\<forall>c \<in> set (lit s). c < 1000" by (auto simp: lit_def)
qed

lemma encodable_dec_nat [simp]: "encodable (dec_nat n)"
  using dec_nat_digits [of n] by (auto simp: is_digit_def intro!: encodable_ascii)

lemma encodable_hex_fixed [simp]: "encodable (hex_fixed k n)"
  using hex_fixed_is_hex [of k n] by (auto simp: is_hex_def intro!: encodable_ascii)

lemma encodable_timestamp [simp]: "encodable (timestamp t)"
  using timestamp_ascii [of t] by (auto intro!: encodable_ascii)

lemma encodable_float_hex [simp]: "encodable (float_hex x)"
  by (auto simp: float_hex_def Let_def)

lemma encodable_enums [simp]: "encodable (reason_value a)" "encodable (kind_value k)"
  by (cases a; simp) (cases k; simp)

lemma encodable_esc: "encodable s \<Longrightarrow> encodable (esc s)"
proof (induction s)
  case (Cons c s)
  have "hex_digit (c div 16) < 1000" "hex_digit (c mod 16) < 1000" if "c < 32"
    using that by (auto simp: hex_digit_def)
  with Cons show ?case by (auto simp: esc_char_def)
qed simp

lemma encodable_enc_str: "encodable s \<Longrightarrow> encodable (enc_str s)"
  by (simp add: enc_str_def encodable_esc)

lemma encodable_enc:
  "json_encodable j \<Longrightarrow> encodable (enc j)"
  "\<forall>j \<in> set js. json_encodable j \<Longrightarrow> encodable (enc_tail js)"
  "\<forall>(k, v) \<in> set ps. encodable k \<and> json_encodable v \<Longrightarrow> encodable (enc_pairs ps)"
  by (induction j and js and ps rule: enc_enc_tail_enc_pairs.induct)
    (auto simp: dec_int_def encodable_enc_str)

lemma evidence_id_total:
  assumes "json_encodable (canon j)"
  shows "\<exists>i. evidence_id_of j = Inr i"
proof -
  have "encodable (dumps j)" by (simp add: dumps_def encodable_enc assms)
  then obtain b where "utf8 (dumps j) = Some b" using utf8_encodable by blast
  then show ?thesis by (simp add: evidence_id_of_def content_id_def content_message_def)
qed

text \<open>Every name that reaches a payload.\<close>

definition encodable_names :: "tenant_id \<Rightarrow> incident_id \<Rightarrow> run_id \<Rightarrow> signal_key list \<Rightarrow> bool" where
  "encodable_names t i r ks \<longleftrightarrow> list_all (\<lambda>s. \<not> is_blank s \<and> encodable s)
     (tenant_value t # incident_value i # run_value r # map signal_value ks)"

lemma encodable_names_mono:
  "encodable_names t i r ks \<Longrightarrow> set ls \<subseteq> set ks \<Longrightarrow> encodable_names t i r ls"
  by (auto simp: encodable_names_def list_all_iff)

lemma entry_payload_encodable:
  assumes "encodable_names (ec_tenant_id c) (ec_incident_id c) (ec_run_id c)
      (se_signal_key (ec_evaluation c) # md_candidate_signal_keys (ec_decision c))"
    and "valid_evaluation p (ec_evaluation c)"
  shows "json_encodable (canon (entry_payload c))"
proof -
  have k: "json_encodable (candidate_payload (se_candidate (ec_evaluation c)))"
    using assms by (cases "se_candidate (ec_evaluation c)")
      (auto simp: candidate_payload_def encodable_names_def valid_evaluation_def matches_def)
  have d: "json_encodable (decision_payload (ec_decision c))"
    using assms(1)
    by (auto simp: decision_payload_def encodable_names_def list_all_iff opt_hex_def split: option.splits)
  show ?thesis
    using assms k d unfolding canon_entry_payload
    by (simp add: entry_payload_def policy_payload_def encodable_names_def SCHEMA_VERSION_def)
qed

section \<open>Compilation is total on baseline results\<close>

lemma rmap_total:
  assumes "\<And>x. x \<in> set xs \<Longrightarrow> \<exists>y. f x = Inr y"
  shows "\<exists>ys. rmap f xs = Inr ys"
  using assms by (induction xs) fastforce+

lemma rank_valid_evaluations:
  assumes "valid_policy p" "list_all valid_input inputs" "rank_metric_shifts w inputs p = Inr r"
    and "list_all (\<lambda>i. \<not> is_blank (signal_value (sig_key (in_signal i)))) inputs"
  shows "list_all (valid_evaluation p) (result_evaluations r)"
proof -
  have "valid_evaluation p e" if "e \<in> set (result_evaluations r)" for e
  proof -
    from rank_evaluations(1) [OF assms(3) that] obtain item where
      "item \<in> set inputs" "evaluate_signal w item p = Inr e" by blast
    with assms evaluate_signal_valid show ?thesis by (auto simp: list_all_iff)
  qed
  then show ?thesis by (simp add: list_all_iff)
qed

lemma rank_result_parses:
  assumes "valid_policy p" "list_all valid_input inputs" "rank_metric_shifts w inputs p = Inr r"
    and "list_all (\<lambda>i. \<not> is_blank (signal_value (sig_key (in_signal i)))) inputs"
  shows "evaluations_of (result_evaluations r) p = Inr (result_evaluations r, result_candidates r)"
    and "\<exists>d. decision_of r p (result_candidates r) = Inr d"
proof -
  let ?es = "result_evaluations r" and ?cs = "result_candidates r"
  note valid = rank_valid_evaluations [OF assms]
  from rank_metric_shifts_Inr [OF assms(3)]
  have cs: "?cs = sort_key candidate_order (present_candidates ?es)" and r: "r = conclude p ?es ?cs"
    by auto
  show "evaluations_of ?es p = Inr (?es, ?cs)"
    using valid_evaluations_of [OF valid rank_evaluations(3) [OF assms(3)]] cs by simp
  have "list_all replays ?cs"
    using valid by (auto simp: cs list_all_iff present_candidates_in valid_evaluation_def)
  moreover have "scored ?cs"
    using present_candidates_scored [OF valid] cs by simp
  moreover have "fval (sc_suspicion_score second) \<le> fval (sc_suspicion_score first)"
    if "?cs = first # second # rest" for first second rest
    using rank_scores(3) [OF assms(3,2) that] by simp
  ultimately show "\<exists>d. decision_of r p ?cs = Inr d"
    using decision_of_conclude [OF _ _ assms(1), of ?cs ?es] r by metis
qed

lemma decision_of_keys: "decision_of r p cs = Inr d \<Longrightarrow> md_candidate_signal_keys d = map sc_signal_key cs"
  by (cases r) (auto simp: decision_of_def Let_def res_simps split: list.splits option.splits)

lemma compile_total:
  assumes "valid_window w" "valid_policy p" "list_all valid_input inputs"
    and "encodable_names t i run (map (\<lambda>item. sig_key (in_signal item)) inputs)"
    and "rank_metric_shifts w inputs p = Inr r"
  shows "\<exists>l. compile_metric_shift_ledger t i run w r = Inr l"
proof -
  let ?es = "result_evaluations r" and ?cs = "result_candidates r"
  have names: "list_all (\<lambda>i. \<not> is_blank (signal_value (sig_key (in_signal i)))) inputs"
    using assms(4) by (auto simp: encodable_names_def list_all_iff)
  note parses = rank_result_parses [OF assms(2,3,5) names]
  note valid = rank_valid_evaluations [OF assms(2,3,5) names]
  obtain d where d: "decision_of r p ?cs = Inr d" using parses(2) by blast
  have pol: "result_policy r = p" using rank_metric_shifts_Inr [OF assms(5)] result_conclude(3) by metis
  have keys: "se_signal_key e \<in> (\<lambda>item. sig_key (in_signal item)) ` set inputs" if "e \<in> set ?es" for e
    using rank_evaluations(1) [OF assms(5) that] evaluate_signal_Inr by (force simp: evaluation_of_def)
  have ckeys: "sc_signal_key c \<in> (\<lambda>item. sig_key (in_signal item)) ` set inputs" if "c \<in> set ?cs" for c
  proof -
    from that obtain e where "e \<in> set ?es" "se_candidate e = Some c"
      using mset_eq_setD [OF rank_candidates(3) [OF assms(5)]] by (auto simp: present_candidates_in)
    then show ?thesis using keys valid by (force simp: list_all_iff valid_evaluation_def matches_def)
  qed
  let ?ctx = "\<lambda>e. \<lparr>ec_tenant_id = t, ec_incident_id = i, ec_run_id = run, ec_window = w,
      ec_policy = p, ec_decision = d, ec_evaluation = e\<rparr>"
  have "\<exists>x. make_entry (?ctx e) = Inr x" if "e \<in> set ?es" for e
  proof -
    have "encodable_names t i run (se_signal_key e # md_candidate_signal_keys d)"
      by (rule encodable_names_mono [OF assms(4)])
        (use keys [OF that] ckeys decision_of_keys [OF d] in auto)
    then have "json_encodable (canon (entry_payload (?ctx e)))"
      using valid that by (intro entry_payload_encodable [where p = p]) (auto simp: list_all_iff)
    from evidence_id_total [OF this] show ?thesis by (auto simp: make_entry_def Let_def)
  qed
  then obtain entries where entries: "rmap (\<lambda>e. make_entry (?ctx e)) ?es = Inr entries"
    using rmap_total [of ?es "\<lambda>e. make_entry (?ctx e)"] by blast
  let ?l = "\<lparr>ml_schema_version = SCHEMA_VERSION, ml_tenant_id = t, ml_incident_id = i, ml_run_id = run,
      ml_window = w, ml_policy = p, ml_decision = d, ml_entries = entries\<rparr>"
  have evl: "ledger_evaluations ?l = ?es"
    using rmap_make_entry [OF entries] by (simp add: ledger_evaluations_def)
  have cl: "ledger_candidates ?l = ?cs"
    using parses(1) evl by (simp add: ledger_candidates_def parse_simps)
  have "scored ?cs" using present_candidates_scored [OF valid] cl evl by (simp add: ledger_candidates_def)
  note dec = decision_of_consistent [OF this d]
  have "valid_metric_ledger ?l"
    unfolding valid_metric_ledger_def evl cl context_of_def
    using assms(1,2,4) valid rank_evaluations(3) [OF assms(5)] dec entries
    by (simp add: encodable_names_def)
  note v = validate_valid_ledger [OF this]
  have idents: "identifier_of TenantId (tenant_value t) = Inr t" "identifier_of IncidentId (incident_value i) = Inr i"
    "identifier_of RunId (run_value run) = Inr run" "window_of w = Inr w" "policy_of p = Inr p"
    using assms(1,2,4) by (simp_all add: parse_simps encodable_names_def)
  show ?thesis
    unfolding compile_metric_shift_ledger_def pol idents
    by (simp add: parses(1) d entries v idents)
qed

section \<open>Properties\<close>

lemma valid_ledger_context:
  assumes "valid_metric_ledger l" "e \<in> set (ledger_evaluations l)"
  shows "wf_context (context_of l e)"
proof -
  note v = assms(1) [unfolded valid_metric_ledger_def]
  have e: "valid_evaluation (ml_policy l) e" using v assms(2) by (auto simp: list_all_iff)
  have "scored (ledger_candidates l)"
    unfolding ledger_candidates_def using v by (intro present_candidates_scored) auto
  note scores = scored_scores [OF this]
  have "md_top_score (ml_decision l) = top_score_of (ledger_candidates l)"
    "md_second_score (ml_decision l) = second_score_of (ledger_candidates l)"
    "decision_consistent (ml_decision l) (ml_policy l) (ledger_candidates l)"
    using v by (auto simp: parse_simps) (metis metric_shift_decision.select_convs(5,6)
        metric_shift_decision.surjective metric_shift_decision.update_convs(5,6))+
  then have "finite_decision (ml_decision l)"
    using scores
    by (auto simp: finite_decision_def decision_consistent_def lead_ok_def nonneg_finite_def
        option.pred_set split: decision_kind.splits list.splits)
  moreover have "pred_option finite_candidate (se_candidate e)"
    using e by (auto simp: valid_evaluation_def replays_def finite_candidate_def nonneg_finite_def
        positive_finite_def option.pred_set)
  ultimately show ?thesis
    using v e by (simp add: wf_context_def context_of_def valid_evaluation_def positive_finite_def)
qed

text \<open>
  Compilation accepts what the baseline produces: for a valid window, policy and inputs
  whose names are non-blank and encodable, every ranking or abstention compiles, and the
  ledger's entries are the evaluations of the result under the given tenant, incident and
  run.
\<close>

theorem compile_accepts_baseline_result:
  assumes "valid_window w" "valid_policy p" "list_all valid_input inputs"
    and "encodable_names t i run (map (\<lambda>item. sig_key (in_signal item)) inputs)"
    and "rank_metric_shifts w inputs p = Inr r"
  shows "\<exists>l. compile_metric_shift_ledger t i run w r = Inr l \<and> valid_metric_ledger l \<and>
    ledger_evaluations l = result_evaluations r \<and> ml_tenant_id l = t \<and> ml_incident_id l = i \<and>
    ml_run_id l = run \<and> ml_window l = w \<and> ml_policy l = p"
proof -
  obtain l where l: "compile_metric_shift_ledger t i run w r = Inr l"
    using compile_total [OF assms] by blast
  have "result_policy r = p" using rank_metric_shifts_Inr [OF assms(5)] result_conclude(3) by metis
  moreover have "sort_key evaluation_order (result_evaluations r) = result_evaluations r"
    using rank_evaluations(3) [OF assms(5)] by (simp add: strict_sorted_iff sort_key_id_if_sorted)
  ultimately show ?thesis using compile_Inr [OF l] l by auto
qed

definition sample_tenant :: tenant_id where
  "sample_tenant = TenantId (lit ''acme'')"

definition sample_incident :: incident_id where
  "sample_incident = IncidentId (lit ''inc-1'')"

definition sample_run :: run_id where
  "sample_run = RunId (lit ''run-1'')"

lemma sample_names:
  "encodable_names sample_tenant sample_incident sample_run
     (map (\<lambda>item. sig_key (in_signal item)) [sample_latency, sample_errors])"
  by (simp add: encodable_names_def sample_tenant_def sample_incident_def sample_run_def)
    (simp add: lit_def is_blank_iff py_isspace_def)

theorem compile_accepts_baseline_result_witness:
  "\<exists>l. compile_metric_shift_ledger sample_tenant sample_incident sample_run sample_window
         (Ranking sample_ranking) = Inr l \<and> valid_metric_ledger l"
  using compile_accepts_baseline_result [OF _ _ _ sample_names sample_rank] by auto

text \<open>
  Validation establishes the ledger invariant and is idempotent: what it returns
  satisfies the invariant and validates to itself, unchanged.
\<close>

theorem validation_is_idempotent:
  assumes "validate_metric_evidence_ledger v = Inr l"
  shows "valid_metric_ledger l \<and> validate_metric_evidence_ledger l = Inr l"
  using validate_Inr(1) [OF assms] validate_valid_ledger by blast

lemma sample_ledger_exists:
  "\<exists>l. validate_metric_evidence_ledger l = Inr l \<and> valid_metric_ledger l \<and>
     ledger_evaluations l = br_signal_evaluations sample_ranking \<and>
     ml_tenant_id l = sample_tenant \<and> ml_incident_id l = sample_incident \<and> ml_run_id l = sample_run \<and>
     ml_policy l = sample_policy"
proof -
  obtain l where l: "compile_metric_shift_ledger sample_tenant sample_incident sample_run
      sample_window (Ranking sample_ranking) = Inr l"
    using compile_total [OF _ _ _ sample_names sample_rank] by auto
  have "sort_key evaluation_order (result_evaluations (Ranking sample_ranking)) =
      result_evaluations (Ranking sample_ranking)"
    using rank_evaluations(3) [OF sample_rank] by (simp add: strict_sorted_iff sort_key_id_if_sorted)
  moreover have "result_policy (Ranking sample_ranking) = sample_policy"
    by (simp add: result_policy_def sample_ranking_def)
  ultimately show ?thesis
    using compile_Inr [OF l] validate_valid_ledger by (auto simp: result_evaluations_def)
qed

theorem validation_is_idempotent_witness:
  "\<exists>v l. validate_metric_evidence_ledger v = Inr l \<and> validate_metric_evidence_ledger l = Inr l"
  using sample_ledger_exists validation_is_idempotent by blast

text \<open>
  C16. Validation never repairs: the returned ledger has the context, the evaluations and the
  evidence identifiers of the supplied one, and the supplied decision is consistent with the
  candidates replayed from the supplied entries.
\<close>

theorem validation_never_repairs:
  assumes "validate_metric_evidence_ledger v = Inr l"
  shows "ml_tenant_id l = ml_tenant_id v \<and> ml_incident_id l = ml_incident_id v \<and>
    ml_run_id l = ml_run_id v \<and> ml_window l = ml_window v \<and> ml_policy l = ml_policy v \<and>
    ledger_evaluations l = ledger_evaluations v \<and>
    map me_evidence_id (ml_entries l) = map me_evidence_id (ml_entries v) \<and>
    decision_consistent (ml_decision v) (ml_policy v) (ledger_candidates v)"
proof -
  note f = validate_Inr [OF assms]
  have "ml_tenant_id l = ml_tenant_id v" "ml_incident_id l = ml_incident_id v"
    "ml_run_id l = ml_run_id v" "ml_window l = ml_window v" "ml_policy l = ml_policy v"
    by (subst f(4), simp)+
  with f(2,3,5) show ?thesis by (simp add: parse_simps)
qed

theorem validation_never_repairs_witness:
  "\<exists>v l. validate_metric_evidence_ledger v = Inr l \<and> ledger_evaluations l = ledger_evaluations v"
  using sample_ledger_exists validation_never_repairs by blast

text \<open>
  C17. Identifiers are content-bound, across ledgers: if an entry of one validated ledger and
  an entry of another carry the same evidence identifier, then the two entries describe the
  same evaluation under the same tenant, incident, run, window, policy and decision, or the
  two canonical messages are different byte strings with the same SHA-256 digest.
\<close>

theorem evidence_ids_bind_content:
  assumes "validate_metric_evidence_ledger u = Inr l" "validate_metric_evidence_ledger v = Inr m"
    and "a \<in> set (ml_entries l)" "b \<in> set (ml_entries m)" "me_evidence_id a = me_evidence_id b"
  shows "context_of l (entry_evaluation a) = context_of m (entry_evaluation b) \<or>
    collision (content_message ID_DOMAIN (entry_payload (context_of l (entry_evaluation a))))
              (content_message ID_DOMAIN (entry_payload (context_of m (entry_evaluation b))))"
proof -
  have entry: "wf_context (context_of l (entry_evaluation a)) \<and>
      content_id ID_DOMAIN (entry_payload (context_of l (entry_evaluation a))) = Some (evidence_value (me_evidence_id a))"
    if v: "valid_metric_ledger l" and a: "a \<in> set (ml_entries l)" for l a
  proof -
    from v have "rmap (\<lambda>e. make_entry (context_of l e)) (ledger_evaluations l) = Inr (ml_entries l)"
      by (simp add: valid_metric_ledger_def)
    from rmap_Inr_in [OF this a] obtain e where "make_entry (context_of l e) = Inr a" by blast
    from make_entry_Inr [OF this] have "entry_evaluation a = e"
      "evidence_id_of (entry_payload (context_of l e)) = Inr (me_evidence_id a)"
      by (simp_all add: context_of_def)
    moreover have "entry_evaluation a \<in> set (ledger_evaluations l)"
      using a by (simp add: ledger_evaluations_def)
    ultimately show ?thesis
      using valid_ledger_context [OF v]
      by (cases "me_evidence_id a") (auto simp: evidence_id_of_def split: option.splits)
  qed
  note l = entry [OF validate_Inr(1) [OF assms(1)] assms(3)]
  note m = entry [OF validate_Inr(1) [OF assms(2)] assms(4)]
  from l m assms(5) show ?thesis using metric_id.id_binds by metis
qed

theorem evidence_ids_bind_content_witness:
  "\<exists>l a. validate_metric_evidence_ledger l = Inr l \<and> a \<in> set (ml_entries l) \<and>
     (context_of l (entry_evaluation a) = context_of l (entry_evaluation a) \<or>
      collision (content_message ID_DOMAIN (entry_payload (context_of l (entry_evaluation a))))
              (content_message ID_DOMAIN (entry_payload (context_of l (entry_evaluation a)))))"
proof -
  obtain l where l: "validate_metric_evidence_ledger l = Inr l"
    "ledger_evaluations l = br_signal_evaluations sample_ranking"
    using sample_ledger_exists by blast
  then obtain a where a: "a \<in> set (ml_entries l)"
    by (cases "ml_entries l") (auto simp: ledger_evaluations_def sample_ranking_def)
  from evidence_ids_bind_content [OF l(1) l(1) a a refl] l a show ?thesis by blast
qed

end
