(* ===== verification/Hypotheses.thy ===== *)
theory Hypotheses
  imports Domain_Core
begin

text \<open>
  \<^verbatim>\<open>domain/hypotheses.py\<close>: restricted hypothesis documents, and the two interfaces the metric
  and the change verifier share: three-valued composition (\<open>kleene_composition\<close>) and the
  contract of a document verifier (\<open>evidence_verifier\<close>).
\<close>

section \<open>Documents\<close>

definition MAX_PREDICATES :: nat where
  "MAX_PREDICATES = 32"

datatype hypothesis_semantics = DESCRIPTIVE | CAUSAL

datatype hypothesis_composition = COMPOSE_ALL | COMPOSE_ANY

datatype expected_direction = EXPECT_INCREASE | EXPECT_DECREASE

record metric_shift_predicate =
  mp_predicate_id :: pystr
  mp_signal_key :: signal_key
  mp_expected_direction :: expected_direction

definition make_metric_shift_predicate ::
  "pystr \<Rightarrow> signal_key \<Rightarrow> expected_direction \<Rightarrow> domain_error + metric_shift_predicate" where
  "make_metric_shift_predicate predicate_id key direction =
     (if is_blank predicate_id then Inl InvalidHypothesisError
      else case make_signal_key (PyStr (signal_value key)) of
             Inl _ \<Rightarrow> Inl InvalidHypothesisError
           | Inr k \<Rightarrow> Inr \<lparr>mp_predicate_id = predicate_id, mp_signal_key = k,
                         mp_expected_direction = direction\<rparr>)"

record hypothesis_document =
  hd_hypothesis_id :: pystr
  hd_tenant_id :: tenant_id
  hd_incident_id :: incident_id
  hd_run_id :: run_id
  hd_semantics :: hypothesis_semantics
  hd_composition :: hypothesis_composition
  hd_predicates :: "metric_shift_predicate list"

text \<open>An exception of a nested constructor becomes the hypothesis error.\<close>

definition rewrap :: "domain_error \<Rightarrow> domain_error + 'a \<Rightarrow> domain_error + 'a" where
  "rewrap err m = (case m of Inl _ \<Rightarrow> Inl err | Inr a \<Rightarrow> Inr a)"

definition make_hypothesis_document ::
  "pystr \<Rightarrow> tenant_id \<Rightarrow> incident_id \<Rightarrow> run_id \<Rightarrow> hypothesis_semantics \<Rightarrow> hypothesis_composition
     \<Rightarrow> metric_shift_predicate list \<Rightarrow> domain_error + hypothesis_document" where
  "make_hypothesis_document hypothesis_id tenant_id incident_id run_id semantics composition predicates =
     (if is_blank hypothesis_id then Inl InvalidHypothesisError
      else
        rbind (rewrap InvalidHypothesisError (make_tenant_id (PyStr (tenant_value tenant_id)))) (\<lambda>tenant.
        rbind (rewrap InvalidHypothesisError (make_incident_id (PyStr (incident_value incident_id)))) (\<lambda>incident.
        rbind (rewrap InvalidHypothesisError (make_run_id (PyStr (run_value run_id)))) (\<lambda>run.
        rbind (rmap (\<lambda>p. make_metric_shift_predicate (mp_predicate_id p) (mp_signal_key p)
                          (mp_expected_direction p)) predicates) (\<lambda>copied.
        if \<not> (1 \<le> length copied \<and> length copied \<le> MAX_PREDICATES) then Inl InvalidHypothesisError
        else if \<not> distinct (map mp_predicate_id copied) then Inl InvalidHypothesisError
        else if \<not> distinct (map (\<lambda>p. signal_value (mp_signal_key p)) copied)
        then Inl InvalidHypothesisError
        else Inr \<lparr>hd_hypothesis_id = hypothesis_id, hd_tenant_id = tenant,
               hd_incident_id = incident, hd_run_id = run, hd_semantics = semantics,
               hd_composition = composition, hd_predicates = copied\<rparr>)))))"

definition validate_hypothesis_document ::
  "hypothesis_document \<Rightarrow> domain_error + hypothesis_document" where
  "validate_hypothesis_document v =
     make_hypothesis_document (hd_hypothesis_id v) (hd_tenant_id v) (hd_incident_id v)
       (hd_run_id v) (hd_semantics v) (hd_composition v) (hd_predicates v)"

definition valid_hypothesis :: "hypothesis_document \<Rightarrow> bool" where
  "valid_hypothesis h \<longleftrightarrow>
     list_all (\<lambda>s. \<not> is_blank s) [hd_hypothesis_id h, tenant_value (hd_tenant_id h),
       incident_value (hd_incident_id h), run_value (hd_run_id h)] \<and>
     list_all (\<lambda>p. \<not> is_blank (mp_predicate_id p) \<and> \<not> is_blank (signal_value (mp_signal_key p)))
       (hd_predicates h) \<and>
     1 \<le> length (hd_predicates h) \<and> length (hd_predicates h) \<le> MAX_PREDICATES \<and>
     distinct (map mp_predicate_id (hd_predicates h)) \<and>
     distinct (map (\<lambda>p. signal_value (mp_signal_key p)) (hd_predicates h))"

lemma rewrap_Inr [res_simps]: "rewrap e m = Inr a \<longleftrightarrow> m = Inr a"
  by (auto simp: rewrap_def split: sum.splits)

lemma make_predicate_Inr:
  "make_metric_shift_predicate (mp_predicate_id p) (mp_signal_key p) (mp_expected_direction p) = Inr q
     \<longleftrightarrow> q = p \<and> \<not> is_blank (mp_predicate_id p) \<and> \<not> is_blank (signal_value (mp_signal_key p))"
  by (cases p) (auto simp: make_metric_shift_predicate_def signal.make_ok make_signal_key_def
      split: sum.splits if_splits)

lemma rmap_make_predicate:
  "rmap (\<lambda>p. make_metric_shift_predicate (mp_predicate_id p) (mp_signal_key p)
          (mp_expected_direction p)) ps = Inr qs \<longleftrightarrow>
     qs = ps \<and> list_all (\<lambda>p. \<not> is_blank (mp_predicate_id p) \<and> \<not> is_blank (signal_value (mp_signal_key p))) ps"
  by (induction ps arbitrary: qs) (auto simp: res_simps make_predicate_Inr)

lemma validate_hypothesis_Inr:
  "validate_hypothesis_document v = Inr h \<longleftrightarrow> h = v \<and> valid_hypothesis v"
  by (cases v) (auto simp: validate_hypothesis_document_def make_hypothesis_document_def
      res_simps rmap_make_predicate valid_hypothesis_def tenant.make_ok incident.make_ok run.make_ok
      intro: tenant_id.expand incident_id.expand run_id.expand)

section \<open>Three-valued composition\<close>

datatype verdict = SUPPORTED | REFUTED | UNKNOWN

fun k_and :: "verdict \<Rightarrow> verdict \<Rightarrow> verdict" where
  "k_and REFUTED _ = REFUTED"
| "k_and _ REFUTED = REFUTED"
| "k_and SUPPORTED SUPPORTED = SUPPORTED"
| "k_and _ _ = UNKNOWN"

fun k_or :: "verdict \<Rightarrow> verdict \<Rightarrow> verdict" where
  "k_or SUPPORTED _ = SUPPORTED"
| "k_or _ SUPPORTED = SUPPORTED"
| "k_or REFUTED REFUTED = REFUTED"
| "k_or _ _ = UNKNOWN"

text \<open>The specification: strong Kleene conjunction and disjunction over the whole list.\<close>

definition kleene :: "hypothesis_composition \<Rightarrow> verdict list \<Rightarrow> verdict" where
  "kleene c vs = (case c of COMPOSE_ALL \<Rightarrow> foldr k_and vs SUPPORTED
                          | COMPOSE_ANY \<Rightarrow> foldr k_or vs REFUTED)"

text \<open>The code: membership tests in order of precedence.\<close>

definition compose_verdicts :: "hypothesis_composition \<Rightarrow> verdict list \<Rightarrow> verdict" where
  "compose_verdicts c vs =
     (if c = COMPOSE_ALL then
        (if REFUTED \<in> set vs then REFUTED else if UNKNOWN \<in> set vs then UNKNOWN else SUPPORTED)
      else if SUPPORTED \<in> set vs then SUPPORTED
      else if UNKNOWN \<in> set vs then UNKNOWN else REFUTED)"

lemma k_and_simps: "k_and a b = (if a = REFUTED \<or> b = REFUTED then REFUTED
    else if a = UNKNOWN \<or> b = UNKNOWN then UNKNOWN else SUPPORTED)"
  by (cases a; cases b) auto

lemma k_or_simps: "k_or a b = (if a = SUPPORTED \<or> b = SUPPORTED then SUPPORTED
    else if a = UNKNOWN \<or> b = UNKNOWN then UNKNOWN else REFUTED)"
  by (cases a; cases b) auto

lemma compose_verdicts_kleene: "compose_verdicts c vs = kleene c vs"
proof -
  have "foldr k_and vs SUPPORTED = compose_verdicts COMPOSE_ALL vs"
    "foldr k_or vs REFUTED = compose_verdicts COMPOSE_ANY vs"
    by (induction vs) (auto simp: compose_verdicts_def k_and_simps k_or_simps)
  then show ?thesis by (cases c) (simp_all add: kleene_def)
qed

lemma k_and_iff:
  "k_and a b = SUPPORTED \<longleftrightarrow> a = SUPPORTED \<and> b = SUPPORTED"
  "k_and a b = REFUTED \<longleftrightarrow> a = REFUTED \<or> b = REFUTED"
  by (cases a; cases b; simp)+

lemma k_or_iff:
  "k_or a b = SUPPORTED \<longleftrightarrow> a = SUPPORTED \<or> b = SUPPORTED"
  "k_or a b = REFUTED \<longleftrightarrow> a = REFUTED \<and> b = REFUTED"
  by (cases a; cases b; simp)+

lemma kleene_decided:
  "kleene COMPOSE_ALL vs = SUPPORTED \<longleftrightarrow> (\<forall>v \<in> set vs. v = SUPPORTED)"
  "kleene COMPOSE_ALL vs = REFUTED \<longleftrightarrow> REFUTED \<in> set vs"
  "kleene COMPOSE_ANY vs = SUPPORTED \<longleftrightarrow> SUPPORTED \<in> set vs"
  "kleene COMPOSE_ANY vs = REFUTED \<longleftrightarrow> (\<forall>v \<in> set vs. v = REFUTED)"
  by (induction vs) (auto simp: kleene_def k_and_iff k_or_iff)

text \<open>The information order: an undecided verdict may become any other.\<close>

definition informs :: "verdict \<Rightarrow> verdict \<Rightarrow> bool" where
  "informs a b \<longleftrightarrow> a = UNKNOWN \<or> a = b"

lemma informs_k: "informs a b \<Longrightarrow> informs c d \<Longrightarrow> informs (k_and a c) (k_and b d)"
  "informs a b \<Longrightarrow> informs c d \<Longrightarrow> informs (k_or a c) (k_or b d)"
  by (auto simp: informs_def k_and_simps k_or_simps)

lemma kleene_monotone: "list_all2 informs vs ws \<Longrightarrow> informs (kleene c vs) (kleene c ws)"
proof (induction rule: list_all2_induct)
  case Nil
  then show ?case by (simp add: informs_def)
next
  case (Cons v vs w ws)
  then show ?case by (cases c) (simp_all add: kleene_def informs_k)
qed

text \<open>A component that composes per-predicate results implements the specification.\<close>

locale kleene_composition =
  fixes compose :: "hypothesis_composition \<Rightarrow> 'r list \<Rightarrow> verdict" and verdict_of :: "'r \<Rightarrow> verdict"
  assumes compose_spec: "compose c rs = kleene c (map verdict_of rs)"
begin

lemma all_supported: "compose COMPOSE_ALL rs = SUPPORTED \<longleftrightarrow> (\<forall>r \<in> set rs. verdict_of r = SUPPORTED)"
  by (simp add: compose_spec kleene_decided)

lemma any_refuted: "compose COMPOSE_ANY rs = REFUTED \<longleftrightarrow> (\<forall>r \<in> set rs. verdict_of r = REFUTED)"
  by (simp add: compose_spec kleene_decided)

lemma compose_order: "mset rs = mset ss \<Longrightarrow> compose c rs = compose c ss"
proof -
  assume "mset rs = mset ss"
  then have "set (map verdict_of rs) = set (map verdict_of ss)"
    by (metis mset_map set_mset_mset)
  then show ?thesis
    by (simp add: compose_spec compose_verdicts_def flip: compose_verdicts_kleene)
qed

text \<open>More evidence never overturns a decided verdict.\<close>

lemma compose_monotone:
  assumes "list_all2 (\<lambda>r s. informs (verdict_of r) (verdict_of s)) rs ss"
  shows "informs (compose c rs) (compose c ss)"
  unfolding compose_spec using assms by (intro kleene_monotone) (simp add: list_all2_map1 list_all2_map2)

end

section \<open>The contract of a verifier\<close>

text \<open>
  \<open>verify\<close> is a document verifier over ledgers; the accessors read the document, the ledger,
  the result and the trace of one predicate.
\<close>

locale evidence_verifier =
  fixes verify :: "'h \<Rightarrow> 'l \<Rightarrow> domain_error + 'r"
    and same_context :: "'h \<Rightarrow> 'l \<Rightarrow> bool"
    and semantics :: "'h \<Rightarrow> hypothesis_semantics"
    and composition :: "'h \<Rightarrow> hypothesis_composition"
    and ledger_ids :: "'l \<Rightarrow> evidence_id list"
    and verdict_of :: "'r \<Rightarrow> verdict"
    and traces :: "'r \<Rightarrow> 'p list"
    and supporting :: "'r \<Rightarrow> evidence_id list"
    and contradicting :: "'r \<Rightarrow> evidence_id list"
    and trace_verdict :: "'p \<Rightarrow> verdict"
    and trace_supporting :: "'p \<Rightarrow> evidence_id list"
    and trace_contradicting :: "'p \<Rightarrow> evidence_id list"
  assumes gated: "verify h l = Inr r \<Longrightarrow> \<not> same_context h l \<or> semantics h = CAUSAL \<Longrightarrow>
        verdict_of r = UNKNOWN \<and> (\<forall>p \<in> set (traces r). trace_verdict p = UNKNOWN)"
    and composed: "verify h l = Inr r \<Longrightarrow> same_context h l \<Longrightarrow> semantics h = DESCRIPTIVE \<Longrightarrow>
        verdict_of r = kleene (composition h) (map trace_verdict (traces r))"
    and collected: "verify h l = Inr r \<Longrightarrow>
        supporting r = concat (map trace_supporting (traces r)) \<and>
        contradicting r = concat (map trace_contradicting (traces r))"
    and traced: "verify h l = Inr r \<Longrightarrow> traces r \<noteq> []"
    and trace_cites: "verify h l = Inr r \<Longrightarrow> p \<in> set (traces r) \<Longrightarrow>
        set (trace_supporting p) \<subseteq> set (ledger_ids l) \<and> set (trace_contradicting p) \<subseteq> set (ledger_ids l) \<and>
        (trace_verdict p = SUPPORTED \<longleftrightarrow> trace_supporting p \<noteq> []) \<and>
        (trace_verdict p = REFUTED \<longleftrightarrow> trace_contradicting p \<noteq> [])"
begin

lemma cites_ledger:
  assumes "verify h l = Inr r"
  shows "set (supporting r) \<subseteq> set (ledger_ids l) \<and> set (contradicting r) \<subseteq> set (ledger_ids l)"
  using collected [OF assms] trace_cites [OF assms] by fastforce

lemma decided_cites:
  assumes "verify h l = Inr r"
  shows "(verdict_of r = SUPPORTED \<longrightarrow> supporting r \<noteq> []) \<and> (verdict_of r = REFUTED \<longrightarrow> contradicting r \<noteq> [])"
proof (cases "\<not> same_context h l \<or> semantics h = CAUSAL")
  case True
  then show ?thesis using gated [OF assms] by simp
next
  case False
  then have v: "verdict_of r = kleene (composition h) (map trace_verdict (traces r))"
    using composed [OF assms] by (cases "semantics h") auto
  have "SUPPORTED \<in> trace_verdict ` set (traces r)" if "verdict_of r = SUPPORTED"
    using that v traced [OF assms]
    by (cases "composition h"; cases "traces r") (simp_all add: kleene_decided)
  moreover have "REFUTED \<in> trace_verdict ` set (traces r)" if "verdict_of r = REFUTED"
    using that v traced [OF assms]
    by (cases "composition h"; cases "traces r") (simp_all add: kleene_decided)
  ultimately show ?thesis
    using collected [OF assms] trace_cites [OF assms] by fastforce
qed

lemma decided_context:
  assumes "verify h l = Inr r" "verdict_of r \<noteq> UNKNOWN"
  shows "same_context h l \<and> semantics h = DESCRIPTIVE"
  using gated [OF assms(1)] assms(2) by (cases "semantics h") auto

end

end
