(* ===== verification/Verifier.thy ===== *)
theory Verifier
  imports Hypotheses Evidence_Compile
begin

text \<open>
  \<^verbatim>\<open>domain/verifier.py\<close>: deterministic three-valued verification of a metric hypothesis
  against a ledger. The component interprets the two interfaces of \<open>Hypotheses\<close>.
\<close>

datatype unknown_reason =
    UR_CONTEXT_MISMATCH
  | UR_CAUSAL_CLAIM_NOT_VERIFIABLE
  | UR_SIGNAL_NOT_FOUND
  | UR_INSUFFICIENT_EVIDENCE
  | UR_NO_DIRECTIONAL_SHIFT
  | UR_WEAK_EVIDENCE

datatype observed_direction = OBSERVED_INCREASE | OBSERVED_DECREASE

fun observed_value :: "observed_direction \<Rightarrow> pystr" where
  "observed_value OBSERVED_INCREASE = lit ''increase''"
| "observed_value OBSERVED_DECREASE = lit ''decrease''"

fun expected_value :: "expected_direction \<Rightarrow> pystr" where
  "expected_value EXPECT_INCREASE = lit ''increase''"
| "expected_value EXPECT_DECREASE = lit ''decrease''"

record predicate_verification_result =
  pr_predicate_id :: pystr
  pr_verdict :: verdict
  pr_reason :: "unknown_reason option"
  pr_observed_direction :: "observed_direction option"
  pr_minimum_score :: f64
  pr_supporting_evidence_ids :: "evidence_id list"
  pr_contradicting_evidence_ids :: "evidence_id list"

record hypothesis_verification_result =
  hr_hypothesis_id :: pystr
  hr_composition :: hypothesis_composition
  hr_verdict :: verdict
  hr_reason :: "unknown_reason option"
  hr_predicate_results :: "predicate_verification_result list"
  hr_supporting_evidence_ids :: "evidence_id list"
  hr_contradicting_evidence_ids :: "evidence_id list"

definition unknown_result ::
  "metric_shift_predicate \<Rightarrow> unknown_reason \<Rightarrow> f64 \<Rightarrow> observed_direction option
     \<Rightarrow> predicate_verification_result" where
  "unknown_result predicate reason minimum_score observed =
     \<lparr>pr_predicate_id = mp_predicate_id predicate, pr_verdict = UNKNOWN, pr_reason = Some reason,
      pr_observed_direction = observed, pr_minimum_score = minimum_score,
      pr_supporting_evidence_ids = [], pr_contradicting_evidence_ids = []\<rparr>"

definition evaluate_predicate ::
  "metric_shift_predicate \<Rightarrow> metric_shift_evidence option \<Rightarrow> f64 \<Rightarrow> predicate_verification_result" where
  "evaluate_predicate predicate entry minimum_score =
     (case entry of
        None \<Rightarrow> unknown_result predicate UR_SIGNAL_NOT_FOUND minimum_score None
      | Some e \<Rightarrow>
          (case (me_eligible e, me_candidate e) of
             (True, Some candidate) \<Rightarrow>
               if feq (sc_signed_score candidate) (fzero False)
               then unknown_result predicate UR_NO_DIRECTIONAL_SHIFT minimum_score None
               else
                 let observed = (if flt (fzero False) (sc_signed_score candidate)
                                 then OBSERVED_INCREASE else OBSERVED_DECREASE)
                 in if flt (sc_suspicion_score candidate) minimum_score
                    then unknown_result predicate UR_WEAK_EVIDENCE minimum_score (Some observed)
                    else
                      let matches = (observed_value observed =
                                     expected_value (mp_expected_direction predicate))
                      in \<lparr>pr_predicate_id = mp_predicate_id predicate,
                          pr_verdict = (if matches then SUPPORTED else REFUTED),
                          pr_reason = None, pr_observed_direction = Some observed,
                          pr_minimum_score = minimum_score,
                          pr_supporting_evidence_ids = (if matches then [me_evidence_id e] else []),
                          pr_contradicting_evidence_ids = (if matches then [] else [me_evidence_id e])\<rparr>
           | _ \<Rightarrow> unknown_result predicate UR_INSUFFICIENT_EVIDENCE minimum_score None))"

definition compose_results ::
  "hypothesis_composition \<Rightarrow> predicate_verification_result list \<Rightarrow> verdict" where
  "compose_results composition results =
     (let verdicts = map pr_verdict results in
      if composition = COMPOSE_ALL then
        (if REFUTED \<in> set verdicts then REFUTED
         else if UNKNOWN \<in> set verdicts then UNKNOWN else SUPPORTED)
      else if SUPPORTED \<in> set verdicts then SUPPORTED
      else if UNKNOWN \<in> set verdicts then UNKNOWN else REFUTED)"

text \<open>\<^verbatim>\<open>{entry.signal_key: entry for entry in entries}\<close>: the last entry of a key wins.\<close>

definition by_signal :: "metric_shift_evidence list \<Rightarrow> signal_key \<Rightarrow> metric_shift_evidence option" where
  "by_signal entries = map_of (rev (map (\<lambda>e. (me_signal_key e, e)) entries))"

definition context_matches :: "hypothesis_document \<Rightarrow> metric_evidence_ledger \<Rightarrow> bool" where
  "context_matches h l \<longleftrightarrow> hd_tenant_id h = ml_tenant_id l \<and> hd_incident_id h = ml_incident_id l \<and>
     hd_run_id h = ml_run_id l"

text \<open>The branch on the document: its reason, the traces and the verdict.\<close>

definition judge_document ::
  "hypothesis_document \<Rightarrow> metric_evidence_ledger
     \<Rightarrow> unknown_reason option \<times> predicate_verification_result list \<times> verdict" where
  "judge_document h l =
     (let minimum_score = bp_minimum_score (ml_policy l) in
      if \<not> context_matches h l then
        (Some UR_CONTEXT_MISMATCH,
         map (\<lambda>p. unknown_result p UR_CONTEXT_MISMATCH minimum_score None) (hd_predicates h),
         UNKNOWN)
      else if hd_semantics h = CAUSAL then
        (Some UR_CAUSAL_CLAIM_NOT_VERIFIABLE,
         map (\<lambda>p. unknown_result p UR_CAUSAL_CLAIM_NOT_VERIFIABLE minimum_score None)
           (hd_predicates h),
         UNKNOWN)
      else
        let results = map (\<lambda>p. evaluate_predicate p
              (by_signal (ml_entries l) (mp_signal_key p)) minimum_score) (hd_predicates h)
        in (None, results, compose_results (hd_composition h) results))"

definition verify_hypothesis ::
  "hypothesis_document \<Rightarrow> metric_evidence_ledger \<Rightarrow> domain_error + hypothesis_verification_result" where
  "verify_hypothesis hypothesis ledger =
     rbind (validate_hypothesis_document hypothesis) (\<lambda>h.
     rbind (validate_metric_evidence_ledger ledger) (\<lambda>l.
       case judge_document h l of (reason, results, verdict) \<Rightarrow>
         Inr \<lparr>hr_hypothesis_id = hd_hypothesis_id h, hr_composition = hd_composition h,
              hr_verdict = verdict, hr_reason = reason, hr_predicate_results = results,
              hr_supporting_evidence_ids = concat (map pr_supporting_evidence_ids results),
              hr_contradicting_evidence_ids = concat (map pr_contradicting_evidence_ids results)\<rparr>))"

section \<open>Composition and contract\<close>

interpretation metric_composition: kleene_composition compose_results pr_verdict
  by unfold_locales
    (simp add: compose_results_def Let_def compose_verdicts_def flip: compose_verdicts_kleene)

lemma by_signal_in: "by_signal es k = Some e \<Longrightarrow> e \<in> set es \<and> me_signal_key e = k"
  by (auto simp: by_signal_def dest!: map_of_SomeD)

lemma evaluate_predicate_cites:
  assumes "\<And>e. entry = Some e \<Longrightarrow> e \<in> set es"
  shows "set (pr_supporting_evidence_ids (evaluate_predicate p entry m)) \<subseteq> set (map me_evidence_id es) \<and>
    set (pr_contradicting_evidence_ids (evaluate_predicate p entry m)) \<subseteq> set (map me_evidence_id es) \<and>
    (pr_verdict (evaluate_predicate p entry m) = SUPPORTED \<longleftrightarrow>
       pr_supporting_evidence_ids (evaluate_predicate p entry m) \<noteq> []) \<and>
    (pr_verdict (evaluate_predicate p entry m) = REFUTED \<longleftrightarrow>
       pr_contradicting_evidence_ids (evaluate_predicate p entry m) \<noteq> [])"
  using assms
  by (auto simp: evaluate_predicate_def unknown_result_def Let_def split: option.splits bool.splits)

lemma verify_hypothesis_Inr:
  assumes "verify_hypothesis h ledger = Inr r"
  shows "\<exists>l. valid_hypothesis h \<and> validate_metric_evidence_ledger ledger = Inr l \<and>
    judge_document h l = (hr_reason r, hr_predicate_results r, hr_verdict r) \<and>
    hr_supporting_evidence_ids r = concat (map pr_supporting_evidence_ids (hr_predicate_results r)) \<and>
    hr_contradicting_evidence_ids r = concat (map pr_contradicting_evidence_ids (hr_predicate_results r))"
proof -
  from assms obtain l where "valid_hypothesis h" "validate_metric_evidence_ledger ledger = Inr l"
    "(case judge_document h l of (reason, results, verdict) \<Rightarrow>
         Inr \<lparr>hr_hypothesis_id = hd_hypothesis_id h, hr_composition = hd_composition h,
              hr_verdict = verdict, hr_reason = reason, hr_predicate_results = results,
              hr_supporting_evidence_ids = concat (map pr_supporting_evidence_ids results),
              hr_contradicting_evidence_ids = concat (map pr_contradicting_evidence_ids results)\<rparr>) =
     (Inr r :: domain_error + hypothesis_verification_result)"
    unfolding verify_hypothesis_def rbind_eq_Inr validate_hypothesis_Inr by blast
  then show ?thesis by (cases "judge_document h l") auto
qed

lemma judge_gated:
  assumes "judge_document h l = (reason, results, v)" "\<not> (context_matches h l \<and> hd_semantics h = DESCRIPTIVE)"
  shows "v = UNKNOWN \<and> reason \<noteq> None \<and> length results = length (hd_predicates h) \<and>
    (\<forall>p \<in> set results. pr_verdict p = UNKNOWN \<and> pr_reason p = reason \<and>
       pr_supporting_evidence_ids p = [] \<and> pr_contradicting_evidence_ids p = [])"
  using assms by (cases "hd_semantics h")
    (auto simp: judge_document_def Let_def unknown_result_def split: if_splits)

lemma judge_evaluated:
  assumes "judge_document h l = (reason, results, v)" "context_matches h l" "hd_semantics h = DESCRIPTIVE"
  shows "reason = None" "v = compose_results (hd_composition h) results"
    "results = map (\<lambda>p. evaluate_predicate p (by_signal (ml_entries l) (mp_signal_key p))
       (bp_minimum_score (ml_policy l))) (hd_predicates h)"
  using assms by (auto simp: judge_document_def Let_def)

definition metric_ledger_ids :: "metric_evidence_ledger \<Rightarrow> evidence_id list" where
  "metric_ledger_ids l = map me_evidence_id (ml_entries l)"

lemma context_matches_validated:
  assumes "validate_metric_evidence_ledger ledger = Inr l"
  shows "context_matches h l \<longleftrightarrow> context_matches h ledger" "metric_ledger_ids l = metric_ledger_ids ledger"
proof -
  have "ml_tenant_id l = ml_tenant_id ledger" "ml_incident_id l = ml_incident_id ledger"
    "ml_run_id l = ml_run_id ledger"
    by (subst validate_Inr(4) [OF assms], simp)+
  then show "context_matches h l \<longleftrightarrow> context_matches h ledger" by (simp add: context_matches_def)
  show "metric_ledger_ids l = metric_ledger_ids ledger"
    using validate_Inr(3) [OF assms] by (simp add: metric_ledger_ids_def)
qed

interpretation metric_verifier: evidence_verifier verify_hypothesis context_matches hd_semantics
  hd_composition metric_ledger_ids hr_verdict hr_predicate_results hr_supporting_evidence_ids
  hr_contradicting_evidence_ids pr_verdict pr_supporting_evidence_ids pr_contradicting_evidence_ids
proof unfold_locales
  fix h ledger r assume v: "verify_hypothesis h ledger = Inr r"
  from verify_hypothesis_Inr [OF v] obtain l where
    h: "valid_hypothesis h" and l: "validate_metric_evidence_ledger ledger = Inr l"
    and j: "judge_document h l = (hr_reason r, hr_predicate_results r, hr_verdict r)"
    and ids: "hr_supporting_evidence_ids r = concat (map pr_supporting_evidence_ids (hr_predicate_results r))"
      "hr_contradicting_evidence_ids r = concat (map pr_contradicting_evidence_ids (hr_predicate_results r))"
    by blast
  note ctx = context_matches_validated [OF l]
  show "\<not> context_matches h ledger \<or> hd_semantics h = CAUSAL \<Longrightarrow>
      hr_verdict r = UNKNOWN \<and> (\<forall>p \<in> set (hr_predicate_results r). pr_verdict p = UNKNOWN)"
    using judge_gated [OF j] ctx by auto
  show "context_matches h ledger \<Longrightarrow> hd_semantics h = DESCRIPTIVE \<Longrightarrow>
      hr_verdict r = kleene (hd_composition h) (map pr_verdict (hr_predicate_results r))"
    using judge_evaluated(2) [OF j] ctx by (simp add: metric_composition.compose_spec)
  show "hr_supporting_evidence_ids r = concat (map pr_supporting_evidence_ids (hr_predicate_results r)) \<and>
      hr_contradicting_evidence_ids r = concat (map pr_contradicting_evidence_ids (hr_predicate_results r))"
    using ids by simp
  show "hr_predicate_results r \<noteq> []"
    using judge_gated [OF j] judge_evaluated(3) [OF j] h
    by (cases "context_matches h l \<and> hd_semantics h = DESCRIPTIVE") (auto simp: valid_hypothesis_def)
  fix p assume p: "p \<in> set (hr_predicate_results r)"
  show "set (pr_supporting_evidence_ids p) \<subseteq> set (metric_ledger_ids ledger) \<and>
      set (pr_contradicting_evidence_ids p) \<subseteq> set (metric_ledger_ids ledger) \<and>
      (pr_verdict p = SUPPORTED \<longleftrightarrow> pr_supporting_evidence_ids p \<noteq> []) \<and>
      (pr_verdict p = REFUTED \<longleftrightarrow> pr_contradicting_evidence_ids p \<noteq> [])"
  proof (cases "context_matches h l \<and> hd_semantics h = DESCRIPTIVE")
    case True
    with judge_evaluated(3) [OF j] p obtain q where
      q: "p = evaluate_predicate q (by_signal (ml_entries l) (mp_signal_key q)) (bp_minimum_score (ml_policy l))"
      by auto
    have led: "metric_ledger_ids ledger = map me_evidence_id (ml_entries l)"
      using ctx(2) by (simp add: metric_ledger_ids_def)
    have "e \<in> set (ml_entries l)" if "by_signal (ml_entries l) (mp_signal_key q) = Some e" for e
      using by_signal_in [OF that] by blast
    from evaluate_predicate_cites [where entry = "by_signal (ml_entries l) (mp_signal_key q)"
        and es = "ml_entries l" and p = q and m = "bp_minimum_score (ml_policy l)", OF this]
    show ?thesis unfolding q led .
  next
    case False
    with judge_gated [OF j] p show ?thesis by auto
  qed
qed

section \<open>What a decided predicate means\<close>

lemma replays_direction:
  assumes "replays c"
  shows "0 < fval (sc_signed_score c) \<Longrightarrow> fval (sc_pre_median c) < fval (sc_post_median c)"
    "fval (sc_signed_score c) < 0 \<Longrightarrow> fval (sc_post_median c) < fval (sc_pre_median c)"
proof -
  note r = assms [unfolded replays_def]
  obtain s where s: "fdiv (fsub (sc_post_median c) (sc_pre_median c)) (replayed_scale c) = Some s"
    "isfinite s" "feq (sc_signed_score c) s" using r by blast
  have fin: "isfinite (replayed_scale c)"
    using r fmax_in unfolding replayed_scale_def positive_finite_def by metis
  have "0 < fval (replayed_scale c)"
    using r by (auto simp: feq_def positive_finite_def)
  note sign = fval_pos_sign [OF this]
  note sub = fdiv_finite_operands [OF s(1,2) fin]
  have med: "isfinite (sc_post_median c)" "isfinite (sc_pre_median c)" using r by auto
  have v: "fval (sc_signed_score c) = fval s" using s(3) by (simp add: feq_def)
  show "0 < fval (sc_signed_score c) \<Longrightarrow> fval (sc_pre_median c) < fval (sc_post_median c)"
    using fsub_pos_D [OF med] fdiv_pos_D [OF sub fin sign s(1)] v by simp
  show "fval (sc_signed_score c) < 0 \<Longrightarrow> fval (sc_post_median c) < fval (sc_pre_median c)"
    using fsub_neg_D [OF med] fdiv_neg_D [OF sub fin sign s(1)] v by simp
qed

definition shifted :: "suspicion_candidate \<Rightarrow> expected_direction \<Rightarrow> bool" where
  "shifted c d = (case d of EXPECT_INCREASE \<Rightarrow> fval (sc_pre_median c) < fval (sc_post_median c)
                          | EXPECT_DECREASE \<Rightarrow> fval (sc_post_median c) < fval (sc_pre_median c))"

fun opposite :: "expected_direction \<Rightarrow> expected_direction" where
  "opposite EXPECT_INCREASE = EXPECT_DECREASE"
| "opposite EXPECT_DECREASE = EXPECT_INCREASE"

lemma evaluate_predicate_decided:
  assumes "pr_verdict (evaluate_predicate p entry m) \<noteq> UNKNOWN" "isfinite m"
    and "\<forall>e c. entry = Some e \<longrightarrow> me_candidate e = Some c \<longrightarrow> replays c"
  shows "\<exists>e c. entry = Some e \<and> me_eligible e \<and> me_candidate e = Some c \<and>
    fval m \<le> fval (sc_suspicion_score c) \<and>
    (if pr_verdict (evaluate_predicate p entry m) = SUPPORTED
     then shifted c (mp_expected_direction p) \<and>
          pr_supporting_evidence_ids (evaluate_predicate p entry m) = [me_evidence_id e]
     else shifted c (opposite (mp_expected_direction p)) \<and>
          pr_contradicting_evidence_ids (evaluate_predicate p entry m) = [me_evidence_id e])"
proof -
  from assms(1) obtain e c where e: "entry = Some e" "me_eligible e" "me_candidate e = Some c"
    and nz: "\<not> feq (sc_signed_score c) (fzero False)" and strong: "\<not> flt (sc_suspicion_score c) m"
    by (auto simp: evaluate_predicate_def unknown_result_def Let_def
        split: option.splits bool.splits if_splits)
  have rep: "replays c" using assms(3) e by blast
  then have fin: "isfinite (sc_signed_score c)" "isfinite (sc_suspicion_score c)"
    by (auto simp: replays_def nonneg_finite_def)
  have "fval m \<le> fval (sc_suspicion_score c)"
    using strong fin assms(2) by (simp add: flt_def)
  moreover have "0 < fval (sc_signed_score c) \<or> fval (sc_signed_score c) < 0"
    using nz fin by (auto simp: feq_def)
  ultimately show ?thesis
    using e nz strong fin replays_direction [OF rep]
    by (cases "mp_expected_direction p")
      (auto simp: evaluate_predicate_def Let_def flt_def shifted_def)
qed

lemma validated_entry:
  assumes "validate_metric_evidence_ledger ledger = Inr l" "e \<in> set (ml_entries l)"
  shows "\<exists>e' \<in> set (ml_entries ledger). me_evidence_id e' = me_evidence_id e \<and>
    entry_evaluation e' = entry_evaluation e"
proof -
  have ids: "map me_evidence_id (ml_entries l) = map me_evidence_id (ml_entries ledger)"
    and evs: "map entry_evaluation (ml_entries l) = map entry_evaluation (ml_entries ledger)"
    using validate_Inr(2,3) [OF assms(1)] by (simp_all add: ledger_evaluations_def)
  from assms(2) obtain i where i: "i < length (ml_entries l)" "e = ml_entries l ! i"
    by (auto simp: in_set_conv_nth)
  have len: "length (ml_entries ledger) = length (ml_entries l)"
    using ids by (metis length_map)
  have "me_evidence_id (ml_entries ledger ! i) = me_evidence_id e"
    "entry_evaluation (ml_entries ledger ! i) = entry_evaluation e"
    using i len ids evs by (metis nth_map)+
  then show ?thesis using i len by (metis nth_mem)
qed

section \<open>Properties\<close>

definition sample_predicate :: metric_shift_predicate where
  "sample_predicate = \<lparr>mp_predicate_id = lit ''p1'', mp_signal_key = SignalKey (lit ''latency''),
     mp_expected_direction = EXPECT_INCREASE\<rparr>"

definition sample_hypothesis :: "hypothesis_semantics \<Rightarrow> hypothesis_document" where
  "sample_hypothesis sem = \<lparr>hd_hypothesis_id = lit ''h1'', hd_tenant_id = sample_tenant,
     hd_incident_id = sample_incident, hd_run_id = sample_run, hd_semantics = sem,
     hd_composition = COMPOSE_ALL, hd_predicates = [sample_predicate]\<rparr>"

lemma sample_hypothesis_valid: "validate_hypothesis_document (sample_hypothesis sem) = Inr (sample_hypothesis sem)"
  by (simp add: validate_hypothesis_Inr valid_hypothesis_def sample_hypothesis_def sample_predicate_def
      sample_tenant_def sample_incident_def sample_run_def MAX_PREDICATES_def)
    (simp add: lit_def is_blank_iff py_isspace_def)

text \<open>A ledger with the evaluations of the sample ranking supports the sample predicate.\<close>

lemma sample_supported:
  assumes "validate_metric_evidence_ledger l = Inr l" "ledger_evaluations l = br_signal_evaluations sample_ranking"
    and "ml_policy l = sample_policy" "context_matches h l" "validate_hypothesis_document h = Inr h"
    and "hd_predicates h = [sample_predicate]" "hd_semantics h = DESCRIPTIVE" "hd_composition h = COMPOSE_ALL"
  shows "\<exists>r. verify_hypothesis h l = Inr r \<and> hr_verdict r = SUPPORTED \<and>
    map pr_verdict (hr_predicate_results r) = [SUPPORTED] \<and>
    (\<exists>b \<in> set (ml_entries l). hr_supporting_evidence_ids r = [me_evidence_id b])"
proof -
  obtain a b where ab: "ml_entries l = [a, b]"
    and b: "entry_evaluation a = sample_evaluation ''errors'' sample_errors_candidate"
      "entry_evaluation b = sample_evaluation ''latency'' sample_latency_candidate"
    using assms(2) by (auto simp: ledger_evaluations_def sample_ranking_def)
  have "by_signal (ml_entries l) (SignalKey (lit ''latency'')) = Some b" "me_eligible b"
    "me_candidate b = Some sample_latency_candidate"
    using b by (auto simp: by_signal_def ab entry_evaluation_def sample_evaluation_def)
  then have "evaluate_predicate sample_predicate (by_signal (ml_entries l) (mp_signal_key sample_predicate))
      (bp_minimum_score (ml_policy l)) = \<lparr>pr_predicate_id = lit ''p1'', pr_verdict = SUPPORTED, pr_reason = None,
        pr_observed_direction = Some OBSERVED_INCREASE, pr_minimum_score = float_one,
        pr_supporting_evidence_ids = [me_evidence_id b], pr_contradicting_evidence_ids = []\<rparr>"
    by (simp add: evaluate_predicate_def sample_predicate_def assms(3) sample_policy_def Let_def feq_def flt_def
        sample_latency_candidate_def)
  with assms show ?thesis
    by (auto simp: verify_hypothesis_def judge_document_def Let_def compose_results_def ab)
qed

text \<open>The compiled ledger of the sample ranking supports the sample hypothesis.\<close>

lemma sample_verification:
  "\<exists>l r. verify_hypothesis (sample_hypothesis DESCRIPTIVE) l = Inr r \<and> context_matches (sample_hypothesis DESCRIPTIVE) l \<and>
     hr_verdict r = SUPPORTED \<and> map pr_verdict (hr_predicate_results r) = [SUPPORTED]"
proof -
  obtain l where l: "validate_metric_evidence_ledger l = Inr l"
    "ledger_evaluations l = br_signal_evaluations sample_ranking" "ml_policy l = sample_policy"
    and ctx: "ml_tenant_id l = sample_tenant" "ml_incident_id l = sample_incident" "ml_run_id l = sample_run"
    using sample_ledger_exists by blast
  have c: "context_matches (sample_hypothesis DESCRIPTIVE) l"
    by (simp add: context_matches_def sample_hypothesis_def ctx)
  have "\<exists>r. verify_hypothesis (sample_hypothesis DESCRIPTIVE) l = Inr r \<and> hr_verdict r = SUPPORTED \<and>
      map pr_verdict (hr_predicate_results r) = [SUPPORTED]"
    using sample_supported [OF l c sample_hypothesis_valid] by (auto simp: sample_hypothesis_def)
  with c show ?thesis by metis
qed

text \<open>
  C15. Composition is strong Kleene logic: on a matching context and descriptive semantics,
  the verdict of a document is the three-valued conjunction (or disjunction) of the verdicts
  of its predicates, one trace per predicate in declaration order.
\<close>

theorem verdict_is_kleene_composition:
  assumes "verify_hypothesis h ledger = Inr r" "context_matches h ledger" "hd_semantics h = DESCRIPTIVE"
  shows "hr_verdict r = kleene (hd_composition h) (map pr_verdict (hr_predicate_results r)) \<and>
    map pr_predicate_id (hr_predicate_results r) = map mp_predicate_id (hd_predicates h) \<and>
    hr_reason r = None"
proof -
  from verify_hypothesis_Inr [OF assms(1)] obtain l where
    l: "validate_metric_evidence_ledger ledger = Inr l"
    and j: "judge_document h l = (hr_reason r, hr_predicate_results r, hr_verdict r)" by blast
  have c: "context_matches h l" using context_matches_validated(1) [OF l] assms(2) by simp
  have "pr_predicate_id (evaluate_predicate p e m) = mp_predicate_id p" for p e m
    by (auto simp: evaluate_predicate_def unknown_result_def Let_def split: option.splits bool.splits)
  then show ?thesis
    using metric_verifier.composed [OF assms] judge_evaluated [OF j c assms(3)] by (simp add: comp_def)
qed

theorem verdict_is_kleene_composition_witness:
  "\<exists>l r. verify_hypothesis (sample_hypothesis DESCRIPTIVE) l = Inr r \<and>
     kleene COMPOSE_ALL (map pr_verdict (hr_predicate_results r)) = SUPPORTED"
proof -
  obtain l r where v: "verify_hypothesis (sample_hypothesis DESCRIPTIVE) l = Inr r"
    "context_matches (sample_hypothesis DESCRIPTIVE) l" "hr_verdict r = SUPPORTED"
    using sample_verification by metis
  have "hd_semantics (sample_hypothesis DESCRIPTIVE) = DESCRIPTIVE"
    "hd_composition (sample_hypothesis DESCRIPTIVE) = COMPOSE_ALL" by (simp_all add: sample_hypothesis_def)
  with verdict_is_kleene_composition [OF v(1,2)] v show ?thesis by metis
qed

text \<open>
  C5. No verdict without evidence: a verdict other than unknown is only given to a
  descriptive hypothesis about the ledger's own tenant, incident and run; a supported
  (refuted) verdict cites at least one supporting (contradicting) identifier, and every
  cited identifier is one of the ledger's.
\<close>

theorem decided_verdict_is_grounded:
  assumes "verify_hypothesis h ledger = Inr r" "hr_verdict r \<noteq> UNKNOWN"
  shows "context_matches h ledger \<and> hd_semantics h = DESCRIPTIVE \<and>
    (if hr_verdict r = SUPPORTED then hr_supporting_evidence_ids r \<noteq> []
     else hr_contradicting_evidence_ids r \<noteq> []) \<and>
    set (hr_supporting_evidence_ids r @ hr_contradicting_evidence_ids r)
      \<subseteq> set (map me_evidence_id (ml_entries ledger))"
  using metric_verifier.decided_context [OF assms] metric_verifier.decided_cites [OF assms(1)]
    metric_verifier.cites_ledger [OF assms(1)] assms(2)
  by (cases "hr_verdict r") (auto simp: metric_ledger_ids_def)

theorem decided_verdict_is_grounded_witness:
  "\<exists>l r. verify_hypothesis (sample_hypothesis DESCRIPTIVE) l = Inr r \<and> hr_verdict r = SUPPORTED \<and>
     hr_supporting_evidence_ids r \<noteq> []"
proof -
  obtain l r where v: "verify_hypothesis (sample_hypothesis DESCRIPTIVE) l = Inr r" "hr_verdict r = SUPPORTED"
    using sample_verification by metis
  with decided_verdict_is_grounded [OF v(1)] show ?thesis by auto
qed

text \<open>
  C4. A decided predicate is true of the numbers: when a predicate is supported, the ledger
  has an eligible entry for its exact signal whose score reaches the policy minimum and whose
  median moved in the expected direction, and that entry is cited; when it is refuted, such
  an entry exists with the median moved in the opposite direction.
\<close>

theorem decided_predicate_is_sound:
  assumes "verify_hypothesis h ledger = Inr r"
    and "(p, t) \<in> set (zip (hd_predicates h) (hr_predicate_results r))" "pr_verdict t \<noteq> UNKNOWN"
  shows "\<exists>e \<in> set (ml_entries ledger). \<exists>c. me_signal_key e = mp_signal_key p \<and> me_eligible e \<and>
    me_candidate e = Some c \<and>
    fval (bp_minimum_score (ml_policy ledger)) \<le> fval (sc_suspicion_score c) \<and>
    (if pr_verdict t = SUPPORTED
     then shifted c (mp_expected_direction p) \<and> pr_supporting_evidence_ids t = [me_evidence_id e]
     else shifted c (opposite (mp_expected_direction p)) \<and>
          pr_contradicting_evidence_ids t = [me_evidence_id e])"
proof -
  from verify_hypothesis_Inr [OF assms(1)] obtain l where
    l: "validate_metric_evidence_ledger ledger = Inr l"
    and j: "judge_document h l = (hr_reason r, hr_predicate_results r, hr_verdict r)" by blast
  note valid = validate_Inr(1) [OF l, unfolded valid_metric_ledger_def]
  have pol: "ml_policy l = ml_policy ledger" by (subst validate_Inr(4) [OF l], simp)
  have t: "t \<in> set (hr_predicate_results r)" using assms(2) by (rule set_zip_rightD)
  have ctx: "context_matches h l \<and> hd_semantics h = DESCRIPTIVE"
    using judge_gated [OF j] t assms(3) by blast
  let ?entry = "by_signal (ml_entries l) (mp_signal_key p)" and ?m = "bp_minimum_score (ml_policy l)"
  have tp: "t = evaluate_predicate p ?entry ?m"
    using assms(2) judge_evaluated(3) [OF j] ctx by (auto simp: zip_map2 zip_same_conv_map)
  have "replays c" if "?entry = Some e" "me_candidate e = Some c" for e c
  proof -
    have "entry_evaluation e \<in> set (ledger_evaluations l)"
      using by_signal_in [OF that(1)] by (simp add: ledger_evaluations_def)
    with valid have "valid_evaluation (ml_policy l) (entry_evaluation e)" by (auto simp: list_all_iff)
    with that(2) show ?thesis by (simp add: valid_evaluation_def entry_evaluation_def)
  qed
  then have rep: "\<forall>e c. ?entry = Some e \<longrightarrow> me_candidate e = Some c \<longrightarrow> replays c" by blast
  have fin: "isfinite ?m" using valid by (simp add: valid_policy_def nonneg_finite_def)
  have nu: "pr_verdict (evaluate_predicate p ?entry ?m) \<noteq> UNKNOWN" using assms(3) tp by simp
  from evaluate_predicate_decided [of p ?entry ?m, OF nu fin rep, folded tp] obtain e c where
    e: "?entry = Some e" "me_eligible e" "me_candidate e = Some c" "fval ?m \<le> fval (sc_suspicion_score c)"
    and concl: "if pr_verdict t = SUPPORTED
     then shifted c (mp_expected_direction p) \<and> pr_supporting_evidence_ids t = [me_evidence_id e]
     else shifted c (opposite (mp_expected_direction p)) \<and>
          pr_contradicting_evidence_ids t = [me_evidence_id e]" by (elim exE conjE) (rule that)
  from by_signal_in [OF e(1)] have el: "e \<in> set (ml_entries l)" "me_signal_key e = mp_signal_key p" by auto
  from validated_entry [OF l el(1)] obtain e' where e': "e' \<in> set (ml_entries ledger)"
    "me_evidence_id e' = me_evidence_id e" "entry_evaluation e' = entry_evaluation e" by blast
  then have "me_signal_key e' = mp_signal_key p" "me_eligible e'" "me_candidate e' = Some c"
    using e el by (auto simp: entry_evaluation_def)
  with e' e(4) concl pol show ?thesis
    by (intro bexI [of _ e'] exI [of _ c] conjI) (simp_all split: if_splits)
qed

theorem decided_predicate_is_sound_witness:
  "\<exists>l r. verify_hypothesis (sample_hypothesis DESCRIPTIVE) l = Inr r \<and>
     map pr_verdict (hr_predicate_results r) = [SUPPORTED] \<and>
     (\<exists>e \<in> set (ml_entries l). me_signal_key e = SignalKey (lit ''latency'') \<and> me_eligible e)"
proof -
  obtain l r where v: "verify_hypothesis (sample_hypothesis DESCRIPTIVE) l = Inr r"
    "map pr_verdict (hr_predicate_results r) = [SUPPORTED]"
    using sample_verification by metis
  then obtain t where t: "hr_predicate_results r = [t]" "pr_verdict t = SUPPORTED" by auto
  have "(sample_predicate, t) \<in> set (zip (hd_predicates (sample_hypothesis DESCRIPTIVE)) (hr_predicate_results r))"
    by (simp add: t sample_hypothesis_def)
  from decided_predicate_is_sound [OF v(1) this] t(2)
  have "\<exists>e \<in> set (ml_entries l). me_signal_key e = SignalKey (lit ''latency'') \<and> me_eligible e"
    by (auto simp: sample_predicate_def)
  with v show ?thesis by metis
qed

text \<open>
  Verification fails closed: a hypothesis about another tenant, incident or run, or one
  that makes a causal claim, is answered unknown with the corresponding reason, for the
  document and for every predicate, and nothing of the ledger is cited.
\<close>

theorem foreign_or_causal_is_unknown:
  assumes "verify_hypothesis h ledger = Inr r"
    and "\<not> context_matches h ledger \<or> hd_semantics h = CAUSAL"
  shows "hr_verdict r = UNKNOWN \<and> hr_supporting_evidence_ids r = [] \<and> hr_contradicting_evidence_ids r = [] \<and>
    hr_reason r = Some (if context_matches h ledger then UR_CAUSAL_CLAIM_NOT_VERIFIABLE else UR_CONTEXT_MISMATCH) \<and>
    (\<forall>t \<in> set (hr_predicate_results r). pr_verdict t = UNKNOWN \<and> pr_reason t = hr_reason r)"
proof -
  from verify_hypothesis_Inr [OF assms(1)] obtain l where
    l: "validate_metric_evidence_ledger ledger = Inr l"
    and j: "judge_document h l = (hr_reason r, hr_predicate_results r, hr_verdict r)"
    and ids: "hr_supporting_evidence_ids r = concat (map pr_supporting_evidence_ids (hr_predicate_results r))"
      "hr_contradicting_evidence_ids r = concat (map pr_contradicting_evidence_ids (hr_predicate_results r))"
    by blast
  note ctx = context_matches_validated(1) [OF l]
  have "hr_reason r = Some (if context_matches h ledger then UR_CAUSAL_CLAIM_NOT_VERIFIABLE else UR_CONTEXT_MISMATCH)"
    using j assms(2) ctx by (auto simp: judge_document_def Let_def split: if_splits)
  with judge_gated [OF j] assms(2) ctx ids show ?thesis by auto
qed

theorem foreign_or_causal_is_unknown_witness:
  "\<exists>l r. verify_hypothesis (sample_hypothesis CAUSAL) l = Inr r \<and> hr_verdict r = UNKNOWN"
proof -
  obtain l where l: "validate_metric_evidence_ledger l = Inr l"
    using sample_ledger_exists by blast
  have "\<exists>r. verify_hypothesis (sample_hypothesis CAUSAL) l = Inr r"
    by (cases "judge_document (sample_hypothesis CAUSAL) l")
      (simp add: verify_hypothesis_def sample_hypothesis_valid l)
  then obtain r where r: "verify_hypothesis (sample_hypothesis CAUSAL) l = Inr r" by blast
  have "hd_semantics (sample_hypothesis CAUSAL) = CAUSAL" by (simp add: sample_hypothesis_def)
  with foreign_or_causal_is_unknown [OF r] r show ?thesis by auto
qed

end
