(* ===== verification/Serialization.thy ===== *)
theory Serialization
  imports Evidence_Compile Verifier
begin

text \<open>
  The metric half of \<^verbatim>\<open>domain/serialization.py\<close>: canonical JSON texts of ledgers, single
  entries, baseline results and verification results. Every payload function re-checks the
  value it prints and fails with the one serialization error; a printed payload is then the
  same object the identity module hashes, so the injectivity of those payloads carries over.

  Dictionaries are \<^const>\<open>JObj\<close> association lists and \<open>field k d\<close> is \<^verbatim>\<open>d["k"]\<close>. Enumeration
  members are printed by their \<^verbatim>\<open>value\<close>, and the code's comparisons of printed values are
  kept as comparisons of printed values.
\<close>

section \<open>Fields\<close>

definition VERIFICATION_SCHEMA_VERSION :: pystr where
  "VERIFICATION_SCHEMA_VERSION = lit ''metric-hypothesis-verification.v1''"

definition BASELINE_RANKING_SCHEMA_VERSION :: pystr where
  "BASELINE_RANKING_SCHEMA_VERSION = lit ''baseline-ranking.v1''"

abbreviation ser_fail :: "domain_error + 'a" where
  "ser_fail \<equiv> Inl CanonicalSerializationError"

definition field :: "string \<Rightarrow> json \<Rightarrow> json" where
  "field k d = (case d of JObj ps \<Rightarrow> (case map_of ps (lit k) of Some v \<Rightarrow> v | None \<Rightarrow> JNull) | _ \<Rightarrow> JNull)"

definition ser_text :: "pystr \<Rightarrow> domain_error + json" where
  "ser_text v = (if is_blank v then ser_fail else Inr (JStr v))"

definition ser_count :: "bool \<Rightarrow> int \<Rightarrow> domain_error + json" where
  "ser_count positive v = (if v < (if positive then 1 else 0) then ser_fail else Inr (JInt v))"

definition ser_hex :: "bool \<Rightarrow> bool \<Rightarrow> f64 \<Rightarrow> domain_error + json" where
  "ser_hex nonnegative positive v =
     (if \<not> isfinite v then ser_fail
      else if nonnegative \<and> flt v (fzero False) then ser_fail
      else if positive \<and> fle v (fzero False) then ser_fail
      else Inr (jhex v))"

definition ser_optional_hex :: "bool \<Rightarrow> f64 option \<Rightarrow> domain_error + json" where
  "ser_optional_hex nonnegative v =
     (case v of None \<Rightarrow> Inr JNull | Some x \<Rightarrow> ser_hex nonnegative False x)"

definition ser_evidence_id :: "evidence_id \<Rightarrow> domain_error + json" where
  "ser_evidence_id v =
     rbind (ser_text (evidence_value v)) (\<lambda>raw.
     let (pre, separator, digest) = partition_colon (evidence_value v) in
      if \<not> separator \<or> pre \<noteq> lit ''sha256'' \<or> length digest \<noteq> 64 \<or>
         digest \<noteq> map ascii_lower digest \<or>
         list_ex (\<lambda>c. c \<notin> set (lit ''0123456789abcdef'')) digest
      then ser_fail else Inr raw)"

definition ser_evidence_ids :: "evidence_id list \<Rightarrow> domain_error + json" where
  "ser_evidence_ids ids = rbind (rmap ser_evidence_id ids) (\<lambda>js. Inr (JList js))"

definition ser_window :: "incident_window \<Rightarrow> domain_error + json" where
  "ser_window w =
     (if \<not> (win_start w \<le> win_injection w \<and> win_injection w < win_end w) then ser_fail
      else Inr (JObj
        [(lit ''end'', JStr (timestamp (win_end w))),
         (lit ''injection'', JStr (timestamp (win_injection w))),
         (lit ''start'', JStr (timestamp (win_start w)))]))"

definition ser_policy :: "baseline_policy \<Rightarrow> domain_error + json" where
  "ser_policy p =
     rbind (ser_hex True False (bp_minimum_margin p)) (\<lambda>margin.
     rbind (ser_count True (bp_minimum_points_per_window p)) (\<lambda>points.
     rbind (ser_hex True False (bp_minimum_score p)) (\<lambda>score.
     rbind (ser_hex True False (bp_relative_scale_floor p)) (\<lambda>floor.
     Inr (JObj [(lit ''minimum_margin'', margin), (lit ''minimum_points_per_window'', points),
       (lit ''minimum_score'', score), (lit ''relative_scale_floor'', floor)])))))"

definition ser_signal_key :: "signal_key \<Rightarrow> domain_error + json" where
  "ser_signal_key k = ser_text (signal_value k)"

definition ser_signal_keys :: "signal_key list \<Rightarrow> domain_error + json list" where
  "ser_signal_keys ks =
     rbind (rmap ser_signal_key ks) (\<lambda>serialized.
       if \<not> distinct serialized then ser_fail else Inr serialized)"

definition ser_abstention_reason :: "abstention_reason option \<Rightarrow> json" where
  "ser_abstention_reason v = (case v of None \<Rightarrow> JNull | Some r \<Rightarrow> JStr (reason_value r))"

definition ser_decision :: "metric_shift_decision \<Rightarrow> domain_error + json" where
  "ser_decision d =
     (let kind = kind_value (md_kind d); reason = ser_abstention_reason (md_abstention_reason d) in
      if (kind = kind_value RANKING) \<noteq> (reason = JNull) then ser_fail
      else
        rbind (ser_signal_keys (md_candidate_signal_keys d)) (\<lambda>keys.
        rbind (ser_count False (md_eligible_signal_count d)) (\<lambda>eligible_signal_count.
        if md_eligible_signal_count d \<noteq> int (length keys) then ser_fail
        else
          rbind (ser_optional_hex True (md_lead d)) (\<lambda>lead.
          rbind (ser_optional_hex True (md_second_score d)) (\<lambda>second.
          rbind (ser_optional_hex True (md_top_score d)) (\<lambda>top.
          Inr (JObj [(lit ''abstention_reason'', reason), (lit ''candidate_signal_keys'', JList keys),
            (lit ''eligible_signal_count'', eligible_signal_count), (lit ''kind'', JStr kind),
            (lit ''lead'', lead), (lit ''second_score'', second), (lit ''top_score'', top)])))))))"

definition ser_candidate :: "suspicion_candidate \<Rightarrow> domain_error + json" where
  "ser_candidate c =
     rbind (ser_hex False True (sc_absolute_scale_floor c)) (\<lambda>absolute_floor.
     rbind (ser_hex False False (sc_post_median c)) (\<lambda>post_median.
     rbind (ser_count False (sc_post_point_count c)) (\<lambda>post_count.
     rbind (ser_hex True False (sc_pre_mad c)) (\<lambda>pre_mad.
     rbind (ser_hex False False (sc_pre_median c)) (\<lambda>pre_median.
     rbind (ser_count False (sc_pre_point_count c)) (\<lambda>pre_count.
     rbind (ser_hex True False (sc_relative_scale_floor c)) (\<lambda>relative_floor.
     rbind (ser_hex False True (sc_scale c)) (\<lambda>scale.
     rbind (ser_signal_key (sc_signal_key c)) (\<lambda>signal_key.
     rbind (ser_hex False False (sc_signed_score c)) (\<lambda>signed_score.
     rbind (ser_hex True False (sc_suspicion_score c)) (\<lambda>suspicion_score.
     Inr (JObj [(lit ''absolute_scale_floor'', absolute_floor), (lit ''post_median'', post_median),
       (lit ''post_point_count'', post_count), (lit ''pre_mad'', pre_mad),
       (lit ''pre_median'', pre_median), (lit ''pre_point_count'', pre_count),
       (lit ''relative_scale_floor'', relative_floor), (lit ''scale'', scale),
       (lit ''signal_key'', signal_key), (lit ''signed_score'', signed_score),
       (lit ''suspicion_score'', suspicion_score)]))))))))))))"

section \<open>Entries and ledgers\<close>

definition ser_entry :: "metric_shift_evidence \<Rightarrow> domain_error + json" where
  "ser_entry e =
     rbind (case me_candidate e of None \<Rightarrow> Inr JNull | Some c \<Rightarrow> ser_candidate c) (\<lambda>candidate.
     rbind (ser_signal_key (me_signal_key e)) (\<lambda>signal_key.
     rbind (ser_count False (me_pre_point_count e)) (\<lambda>pre_point_count.
     rbind (ser_count False (me_post_point_count e)) (\<lambda>post_point_count.
     rbind (ser_hex False True (me_absolute_scale_floor e)) (\<lambda>absolute_scale_floor.
     rbind (ser_hex True False (me_relative_scale_floor e)) (\<lambda>relative_scale_floor.
     if me_eligible e \<noteq> (candidate \<noteq> JNull) then ser_fail
     else if candidate \<noteq> JNull \<and>
         (field ''signal_key'' candidate \<noteq> signal_key \<or>
          field ''pre_point_count'' candidate \<noteq> pre_point_count \<or>
          field ''post_point_count'' candidate \<noteq> post_point_count \<or>
          field ''absolute_scale_floor'' candidate \<noteq> absolute_scale_floor \<or>
          field ''relative_scale_floor'' candidate \<noteq> relative_scale_floor) then ser_fail
     else
       rbind (ser_evidence_id (me_evidence_id e)) (\<lambda>evidence_id.
       Inr (JObj [(lit ''absolute_scale_floor'', absolute_scale_floor), (lit ''candidate'', candidate),
         (lit ''eligible'', JBool (me_eligible e)), (lit ''evidence_id'', evidence_id),
         (lit ''post_point_count'', post_point_count), (lit ''pre_point_count'', pre_point_count),
         (lit ''relative_scale_floor'', relative_scale_floor),
         (lit ''signal_key'', signal_key)]))))))))"

definition json_text :: "json \<Rightarrow> pystr" where
  "json_text j = (case j of JStr s \<Rightarrow> s | _ \<Rightarrow> [])"

definition ser_entries :: "metric_shift_evidence list \<Rightarrow> domain_error + json list" where
  "ser_entries es =
     rbind (rmap ser_entry es) (\<lambda>serialized.
     let keys = map (\<lambda>entry. json_text (field ''signal_key'' entry)) serialized in
     if keys \<noteq> sort keys \<or> \<not> distinct keys then ser_fail else Inr serialized)"

definition ser_ledger :: "metric_evidence_ledger \<Rightarrow> domain_error + json" where
  "ser_ledger v =
     rbind (case validate_metric_evidence_ledger v of Inl _ \<Rightarrow> ser_fail | Inr l \<Rightarrow> Inr l) (\<lambda>l.
     rbind (ser_text (ml_schema_version l)) (\<lambda>schema_version.
     if ml_schema_version l \<noteq> SCHEMA_VERSION then ser_fail
     else
       rbind (ser_policy (ml_policy l)) (\<lambda>policy.
       rbind (ser_entries (ml_entries l)) (\<lambda>entries.
       if list_ex (\<lambda>e. field ''relative_scale_floor'' e \<noteq> field ''relative_scale_floor'' policy) entries
       then ser_fail
       else
         rbind (ser_decision (ml_decision l)) (\<lambda>decision.
         rbind (ser_text (incident_value (ml_incident_id l))) (\<lambda>incident_id.
         rbind (ser_window (ml_window l)) (\<lambda>window.
         rbind (ser_text (run_value (ml_run_id l))) (\<lambda>run_id.
         rbind (ser_text (tenant_value (ml_tenant_id l))) (\<lambda>tenant_id.
         Inr (JObj [(lit ''decision'', decision), (lit ''entries'', JList entries),
           (lit ''incident_id'', incident_id), (lit ''incident_window'', window),
           (lit ''policy'', policy), (lit ''run_id'', run_id),
           (lit ''schema_version'', schema_version), (lit ''tenant_id'', tenant_id)]))))))))))"

definition canonical_json :: "json \<Rightarrow> domain_error + pystr" where
  "canonical_json payload =
     (let serialized = dumps payload @ [10] in
      case utf8 serialized of None \<Rightarrow> ser_fail | Some _ \<Rightarrow> Inr serialized)"

definition ledger_json :: "metric_evidence_ledger \<Rightarrow> domain_error + pystr" where
  "ledger_json ledger = rbind (ser_ledger ledger) canonical_json"

definition metric_evidence_entry_json :: "metric_shift_evidence \<Rightarrow> domain_error + pystr" where
  "metric_evidence_entry_json entry = rbind (ser_entry entry) canonical_json"

section \<open>Baseline results\<close>

definition ser_baseline :: "baseline_result \<Rightarrow> domain_error + json" where
  "ser_baseline v =
     (case v of
        Ranking r \<Rightarrow>
          rbind (rmap ser_candidate (br_candidates r)) (\<lambda>candidates.
          rbind (if isfinite (br_lead r) then ser_hex True False (br_lead r) else Inr JNull) (\<lambda>lead.
          rbind (ser_policy (br_policy r)) (\<lambda>policy.
          rbind (case br_candidates r of _ # second # _ \<Rightarrow> ser_hex True False (sc_suspicion_score second)
                 | _ \<Rightarrow> Inr JNull) (\<lambda>second_score.
          rbind (case br_candidates r of first # _ \<Rightarrow> ser_hex True False (sc_suspicion_score first)
                 | [] \<Rightarrow> ser_fail) (\<lambda>top_score.
          Inr (JObj [(lit ''abstention_reason'', JNull), (lit ''candidates'', JList candidates),
            (lit ''kind'', JStr (lit ''ranking'')), (lit ''lead'', lead), (lit ''policy'', policy),
            (lit ''schema_version'', JStr BASELINE_RANKING_SCHEMA_VERSION),
            (lit ''second_score'', second_score), (lit ''top_score'', top_score)]))))))
      | Abstention a \<Rightarrow>
          rbind (rmap ser_candidate (ba_evaluated_candidates a)) (\<lambda>candidates.
          rbind (ser_policy (ba_policy a)) (\<lambda>policy.
          rbind (ser_optional_hex True (ba_second_score a)) (\<lambda>second_score.
          rbind (ser_optional_hex True (ba_top_score a)) (\<lambda>top_score.
          Inr (JObj [(lit ''abstention_reason'', JStr (reason_value (ba_reason a))),
            (lit ''candidates'', JList candidates), (lit ''kind'', JStr (lit ''abstention'')),
            (lit ''lead'', JNull), (lit ''policy'', policy),
            (lit ''schema_version'', JStr BASELINE_RANKING_SCHEMA_VERSION),
            (lit ''second_score'', second_score), (lit ''top_score'', top_score)]))))))"

definition baseline_ranking_json :: "baseline_result \<Rightarrow> domain_error + pystr" where
  "baseline_ranking_json baseline = rbind (ser_baseline baseline) canonical_json"

section \<open>Verification results\<close>

fun verdict_value :: "verdict \<Rightarrow> pystr" where
  "verdict_value SUPPORTED = lit ''supported''"
| "verdict_value REFUTED = lit ''refuted''"
| "verdict_value UNKNOWN = lit ''unknown''"

fun composition_value :: "hypothesis_composition \<Rightarrow> pystr" where
  "composition_value COMPOSE_ALL = lit ''all''"
| "composition_value COMPOSE_ANY = lit ''any''"

fun unknown_reason_value :: "unknown_reason \<Rightarrow> pystr" where
  "unknown_reason_value UR_CONTEXT_MISMATCH = lit ''context_mismatch''"
| "unknown_reason_value UR_CAUSAL_CLAIM_NOT_VERIFIABLE = lit ''causal_claim_not_verifiable''"
| "unknown_reason_value UR_SIGNAL_NOT_FOUND = lit ''signal_not_found''"
| "unknown_reason_value UR_INSUFFICIENT_EVIDENCE = lit ''insufficient_evidence''"
| "unknown_reason_value UR_NO_DIRECTIONAL_SHIFT = lit ''no_directional_shift''"
| "unknown_reason_value UR_WEAK_EVIDENCE = lit ''weak_evidence''"

definition ser_optional :: "('a \<Rightarrow> pystr) \<Rightarrow> 'a option \<Rightarrow> json" where
  "ser_optional val v = (case v of None \<Rightarrow> JNull | Some x \<Rightarrow> JStr (val x))"

abbreviation jverdict :: "verdict \<Rightarrow> json" where
  "jverdict v \<equiv> JStr (verdict_value v)"

abbreviation jreason :: "unknown_reason \<Rightarrow> json" where
  "jreason r \<equiv> JStr (unknown_reason_value r)"

definition items :: "json \<Rightarrow> json list" where
  "items j = (case j of JList js \<Rightarrow> js | _ \<Rightarrow> [])"

definition ser_predicate_result :: "predicate_verification_result \<Rightarrow> domain_error + json" where
  "ser_predicate_result t =
     (let verdict = jverdict (pr_verdict t); reason = ser_optional unknown_reason_value (pr_reason t);
          observed = ser_optional observed_value (pr_observed_direction t) in
      rbind (ser_evidence_ids (pr_supporting_evidence_ids t)) (\<lambda>supporting.
      rbind (ser_evidence_ids (pr_contradicting_evidence_ids t)) (\<lambda>contradicting.
      if set (items supporting) \<inter> set (items contradicting) \<noteq> {} then ser_fail
      else if
        (if verdict = jverdict UNKNOWN then
           reason = JNull \<or> items supporting \<noteq> [] \<or> items contradicting \<noteq> [] \<or>
           (reason \<in> {jreason UR_CONTEXT_MISMATCH, jreason UR_CAUSAL_CLAIM_NOT_VERIFIABLE,
              jreason UR_SIGNAL_NOT_FOUND, jreason UR_INSUFFICIENT_EVIDENCE,
              jreason UR_NO_DIRECTIONAL_SHIFT} \<and> observed \<noteq> JNull) \<or>
           (reason = jreason UR_WEAK_EVIDENCE \<and> observed = JNull)
         else if reason \<noteq> JNull \<or> observed = JNull then True
         else if verdict = jverdict SUPPORTED then items supporting = [] \<or> items contradicting \<noteq> []
         else if verdict = jverdict REFUTED then items supporting \<noteq> [] \<or> items contradicting = []
         else True) then ser_fail
      else
        rbind (ser_hex True False (pr_minimum_score t)) (\<lambda>minimum_score.
        rbind (ser_text (pr_predicate_id t)) (\<lambda>predicate_id.
        Inr (JObj [(lit ''contradicting_evidence_ids'', contradicting),
          (lit ''minimum_score'', minimum_score), (lit ''observed_direction'', observed),
          (lit ''predicate_id'', predicate_id), (lit ''reason'', reason),
          (lit ''supporting_evidence_ids'', supporting), (lit ''verdict'', verdict)]))))))"

definition ser_predicate_results :: "predicate_verification_result list \<Rightarrow> domain_error + json list" where
  "ser_predicate_results ts =
     rbind (rmap ser_predicate_result ts) (\<lambda>serialized.
       if \<not> distinct (map (field ''predicate_id'') serialized) then ser_fail else Inr serialized)"

text \<open>The expected verdict of the children, computed on their printed verdicts.\<close>

definition expected_verdict :: "json \<Rightarrow> json list \<Rightarrow> json" where
  "expected_verdict composition children =
     (if composition = JStr (composition_value COMPOSE_ALL) then
        (if jverdict REFUTED \<in> set children then jverdict REFUTED
         else if jverdict UNKNOWN \<in> set children then jverdict UNKNOWN else jverdict SUPPORTED)
      else if jverdict SUPPORTED \<in> set children then jverdict SUPPORTED
      else if jverdict UNKNOWN \<in> set children then jverdict UNKNOWN else jverdict REFUTED)"

definition ser_verification :: "hypothesis_verification_result \<Rightarrow> domain_error + json" where
  "ser_verification r =
     (let composition = JStr (composition_value (hr_composition r)); verdict = jverdict (hr_verdict r);
          reason = ser_optional unknown_reason_value (hr_reason r);
          gate_reasons = {jreason UR_CONTEXT_MISMATCH, jreason UR_CAUSAL_CLAIM_NOT_VERIFIABLE} in
      rbind (ser_predicate_results (hr_predicate_results r)) (\<lambda>predicates.
      if predicates = [] then ser_fail
      else
        rbind (ser_evidence_ids (hr_supporting_evidence_ids r)) (\<lambda>supporting.
        rbind (ser_evidence_ids (hr_contradicting_evidence_ids r)) (\<lambda>contradicting.
        if items supporting \<noteq> concat (map (\<lambda>p. items (field ''supporting_evidence_ids'' p)) predicates) \<or>
           items contradicting \<noteq> concat (map (\<lambda>p. items (field ''contradicting_evidence_ids'' p)) predicates)
        then ser_fail
        else if verdict \<noteq> expected_verdict composition (map (field ''verdict'') predicates) then ser_fail
        else if
          (if reason \<noteq> JNull then
             reason \<notin> gate_reasons \<or> verdict \<noteq> jverdict UNKNOWN \<or>
             items supporting \<noteq> [] \<or> items contradicting \<noteq> [] \<or>
             list_ex (\<lambda>p. field ''verdict'' p \<noteq> jverdict UNKNOWN \<or> field ''reason'' p \<noteq> reason \<or>
               field ''observed_direction'' p \<noteq> JNull \<or>
               items (field ''supporting_evidence_ids'' p) \<noteq> [] \<or>
               items (field ''contradicting_evidence_ids'' p) \<noteq> []) predicates
           else list_ex (\<lambda>p. field ''reason'' p \<in> gate_reasons) predicates) then ser_fail
        else
          rbind (ser_text (hr_hypothesis_id r)) (\<lambda>hypothesis_id.
          Inr (JObj [(lit ''composition'', composition), (lit ''contradicting_evidence_ids'', contradicting),
            (lit ''hypothesis_id'', hypothesis_id), (lit ''predicate_results'', JList predicates),
            (lit ''reason'', reason), (lit ''schema_version'', JStr VERIFICATION_SCHEMA_VERSION),
            (lit ''supporting_evidence_ids'', supporting), (lit ''verdict'', verdict)]))))))"

definition verification_json :: "hypothesis_verification_result \<Rightarrow> domain_error + pystr" where
  "verification_json result = rbind (ser_verification result) canonical_json"

section \<open>What is printed, and when\<close>

named_theorems ser_simps \<open>exact printing conditions of the payload functions\<close>

lemma positive_feq: "positive_finite a \<Longrightarrow> positive_finite b \<Longrightarrow> feq a b \<longleftrightarrow> a = b"
  using fval_inj by (auto simp: positive_finite_def feq_finite)

lemma ser_text_Inr [ser_simps]: "ser_text v = Inr j \<longleftrightarrow> j = JStr v \<and> \<not> is_blank v"
  by (auto simp: ser_text_def)

lemma ser_count_Inr [ser_simps]:
  "ser_count b v = Inr j \<longleftrightarrow> j = JInt v \<and> (if b then 1 else 0) \<le> v"
  by (auto simp: ser_count_def)

lemma ser_hex_Inr [ser_simps]:
  "ser_hex False False v = Inr j \<longleftrightarrow> j = jhex v \<and> isfinite v"
  "ser_hex True False v = Inr j \<longleftrightarrow> j = jhex v \<and> nonneg_finite v"
  "ser_hex False True v = Inr j \<longleftrightarrow> j = jhex v \<and> positive_finite v"
  by (auto simp: ser_hex_def nonneg_finite_def positive_finite_def flt_def fle_def)

lemma ser_optional_hex_Inr [ser_simps]:
  "ser_optional_hex True v = Inr j \<longleftrightarrow> j = opt_hex v \<and> pred_option nonneg_finite v"
  by (cases v) (auto simp: ser_optional_hex_def opt_hex_def ser_simps)

lemma ser_evidence_id_Inr [ser_simps]:
  "ser_evidence_id v = Inr j \<longleftrightarrow> j = JStr (evidence_value v) \<and> digest_format (evidence_value v)"
proof -
  have "digest_format (evidence_value v) \<Longrightarrow> \<not> is_blank (evidence_value v)"
    by (cases "evidence_value v") (auto simp: digest_format_def lit_def is_blank_Cons py_isspace_def)
  then show ?thesis
    using evidence_identifier_Inr [of v "EvidenceId (evidence_value v)"]
    by (auto simp: ser_evidence_id_def evidence_identifier_def ser_simps res_simps Let_def
        split: prod.splits if_splits)
qed

lemma rmap_printed:
  assumes "\<And>x j. f x = Inr j \<longleftrightarrow> j = g x \<and> P x"
  shows "rmap f xs = Inr js \<longleftrightarrow> js = map g xs \<and> list_all P xs"
  by (induction xs arbitrary: js) (auto simp: res_simps assms)

lemma ser_evidence_ids_Inr [ser_simps]:
  "ser_evidence_ids ids = Inr j \<longleftrightarrow> j = JList (map (\<lambda>i. JStr (evidence_value i)) ids) \<and>
     list_all (\<lambda>i. digest_format (evidence_value i)) ids"
  by (auto simp: ser_evidence_ids_def res_simps rmap_printed [OF ser_evidence_id_Inr])

definition window_payload :: "incident_window \<Rightarrow> json" where
  "window_payload w = JObj [(lit ''end'', JStr (timestamp (win_end w))),
     (lit ''injection'', JStr (timestamp (win_injection w))),
     (lit ''start'', JStr (timestamp (win_start w)))]"

lemma ser_window_Inr [ser_simps]:
  "ser_window w = Inr j \<longleftrightarrow> j = window_payload w \<and> win_start w \<le> win_injection w \<and> win_injection w < win_end w"
  by (auto simp: ser_window_def window_payload_def)

lemma ser_policy_Inr [ser_simps]: "ser_policy p = Inr j \<longleftrightarrow> j = policy_payload p \<and> valid_policy p"
  by (auto simp: ser_policy_def ser_simps res_simps policy_payload_def valid_policy_def)

lemma ser_signal_keys_Inr [ser_simps]:
  "ser_signal_keys ks = Inr js \<longleftrightarrow> js = map (\<lambda>k. JStr (signal_value k)) ks \<and> distinct ks \<and>
     list_all (\<lambda>k. \<not> is_blank (signal_value k)) ks"
proof -
  have "inj (\<lambda>k. JStr (signal_value k))" by (auto simp: inj_def intro: signal_key.expand)
  then have "distinct (map (\<lambda>k. JStr (signal_value k)) ks) \<longleftrightarrow> distinct ks"
    by (simp add: distinct_map inj_on_subset [OF _ subset_UNIV])
  then show ?thesis
    by (auto simp: ser_signal_keys_def res_simps ser_signal_key_def
        rmap_printed [where g = "\<lambda>k. JStr (signal_value k)" and P = "\<lambda>k. \<not> is_blank (signal_value k)"] ser_simps)
qed

definition printable_decision :: "metric_shift_decision \<Rightarrow> bool" where
  "printable_decision d \<longleftrightarrow> (md_kind d = RANKING \<longleftrightarrow> md_abstention_reason d = None) \<and>
     distinct (md_candidate_signal_keys d) \<and>
     list_all (\<lambda>k. \<not> is_blank (signal_value k)) (md_candidate_signal_keys d) \<and>
     md_eligible_signal_count d = int (length (md_candidate_signal_keys d)) \<and>
     pred_option nonneg_finite (md_lead d) \<and> pred_option nonneg_finite (md_second_score d) \<and>
     pred_option nonneg_finite (md_top_score d)"

lemma ser_decision_Inr [ser_simps]:
  "ser_decision d = Inr j \<longleftrightarrow> j = decision_payload d \<and> printable_decision d"
  by (cases "md_kind d"; cases "md_abstention_reason d")
    (auto simp: ser_decision_def ser_simps res_simps Let_def printable_decision_def
      decision_payload_def ser_abstention_reason_def)

definition printable_candidate :: "suspicion_candidate \<Rightarrow> bool" where
  "printable_candidate c \<longleftrightarrow> positive_finite (sc_absolute_scale_floor c) \<and> isfinite (sc_post_median c) \<and>
     0 \<le> sc_post_point_count c \<and> nonneg_finite (sc_pre_mad c) \<and> isfinite (sc_pre_median c) \<and>
     0 \<le> sc_pre_point_count c \<and> nonneg_finite (sc_relative_scale_floor c) \<and> positive_finite (sc_scale c) \<and>
     \<not> is_blank (signal_value (sc_signal_key c)) \<and> isfinite (sc_signed_score c) \<and>
     nonneg_finite (sc_suspicion_score c)"

lemma ser_candidate_Inr [ser_simps]:
  "ser_candidate c = Inr j \<longleftrightarrow> j = candidate_payload (Some c) \<and> printable_candidate c"
  by (auto simp: ser_candidate_def ser_signal_key_def ser_simps res_simps printable_candidate_def
      candidate_payload_def)

lemma replays_printable: "replays c \<Longrightarrow> printable_candidate c"
  by (simp add: replays_def printable_candidate_def)

definition entry_object :: "metric_shift_evidence \<Rightarrow> json" where
  "entry_object e = JObj
     [(lit ''absolute_scale_floor'', jhex (me_absolute_scale_floor e)),
      (lit ''candidate'', candidate_payload (me_candidate e)),
      (lit ''eligible'', JBool (me_eligible e)),
      (lit ''evidence_id'', JStr (evidence_value (me_evidence_id e))),
      (lit ''post_point_count'', JInt (me_post_point_count e)),
      (lit ''pre_point_count'', JInt (me_pre_point_count e)),
      (lit ''relative_scale_floor'', jhex (me_relative_scale_floor e)),
      (lit ''signal_key'', JStr (signal_value (me_signal_key e)))]"

definition printable_entry :: "metric_shift_evidence \<Rightarrow> bool" where
  "printable_entry e \<longleftrightarrow> \<not> is_blank (signal_value (me_signal_key e)) \<and> 0 \<le> me_pre_point_count e \<and>
     0 \<le> me_post_point_count e \<and> positive_finite (me_absolute_scale_floor e) \<and>
     nonneg_finite (me_relative_scale_floor e) \<and> (me_eligible e \<longleftrightarrow> me_candidate e \<noteq> None) \<and>
     digest_format (evidence_value (me_evidence_id e)) \<and>
     (\<forall>c. me_candidate e = Some c \<longrightarrow> printable_candidate c \<and> sc_signal_key c = me_signal_key e \<and>
        sc_pre_point_count c = me_pre_point_count e \<and> sc_post_point_count c = me_post_point_count e \<and>
        sc_absolute_scale_floor c = me_absolute_scale_floor e \<and>
        sc_relative_scale_floor c = me_relative_scale_floor e)"

lemma candidate_fields:
  "field ''signal_key'' (candidate_payload (Some c)) = JStr (signal_value (sc_signal_key c))"
  "field ''pre_point_count'' (candidate_payload (Some c)) = JInt (sc_pre_point_count c)"
  "field ''post_point_count'' (candidate_payload (Some c)) = JInt (sc_post_point_count c)"
  "field ''absolute_scale_floor'' (candidate_payload (Some c)) = jhex (sc_absolute_scale_floor c)"
  "field ''relative_scale_floor'' (candidate_payload (Some c)) = jhex (sc_relative_scale_floor c)"
  "candidate_payload (Some c) \<noteq> JNull"
  by (simp_all add: field_def candidate_payload_def)

lemma jhex_eq: "isfinite a \<Longrightarrow> isfinite b \<Longrightarrow> jhex a = jhex b \<longleftrightarrow> a = b"
  using float_hex_inj by auto

lemma signal_value_eq: "signal_value a = signal_value b \<longleftrightarrow> a = b"
  by (auto intro: signal_key.expand)

lemma ser_entry_Inr [ser_simps]: "ser_entry e = Inr j \<longleftrightarrow> j = entry_object e \<and> printable_entry e"
proof (cases "me_candidate e")
  case None
  then show ?thesis
    by (auto simp: ser_entry_def ser_signal_key_def ser_simps res_simps printable_entry_def
        entry_object_def candidate_payload_def)
next
  case (Some c)
  have "jhex (sc_absolute_scale_floor c) = jhex (me_absolute_scale_floor e) \<longleftrightarrow>
      sc_absolute_scale_floor c = me_absolute_scale_floor e"
    if "positive_finite (sc_absolute_scale_floor c)" "positive_finite (me_absolute_scale_floor e)"
    using that jhex_eq by (auto simp: positive_finite_def)
  moreover have "jhex (sc_relative_scale_floor c) = jhex (me_relative_scale_floor e) \<longleftrightarrow>
      sc_relative_scale_floor c = me_relative_scale_floor e"
    if "nonneg_finite (sc_relative_scale_floor c)" "nonneg_finite (me_relative_scale_floor e)"
    using that jhex_eq by (auto simp: nonneg_finite_def)
  ultimately show ?thesis
    using Some
    by (auto simp: ser_entry_def ser_signal_key_def ser_simps res_simps printable_entry_def
        entry_object_def candidate_fields signal_value_eq printable_candidate_def)
qed

end
