(* ===== verification/Serialization_Ledger.thy ===== *)
theory Serialization_Ledger
  imports Serialization
begin

text \<open>
  Printing ledgers, entries and baseline results: exact conditions, totality on what the
  pipeline produces, and the fact that the printed text determines what was printed.
\<close>

section \<open>Entries and ledgers\<close>

lemma entry_object_fields:
  "field ''signal_key'' (entry_object e) = JStr (signal_value (me_signal_key e))"
  "field ''relative_scale_floor'' (entry_object e) = jhex (me_relative_scale_floor e)"
  by (simp_all add: field_def entry_object_def)

lemma ser_entries_Inr [ser_simps]:
  "ser_entries es = Inr js \<longleftrightarrow> js = map entry_object es \<and> list_all printable_entry es \<and>
     sorted_wrt (<) (map (\<lambda>e. signal_value (me_signal_key e)) es)"
proof -
  have "keys = sort keys \<and> distinct keys \<longleftrightarrow> sorted_wrt (<) keys" for keys :: "pystr list"
    using sorted_sort_id [of keys] sorted_sort [of keys] by (metis strict_sorted_iff)
  then show ?thesis
    by (auto simp: ser_entries_def res_simps rmap_printed [OF ser_entry_Inr] Let_def comp_def
        entry_object_fields json_text_def)
qed

definition ledger_object :: "metric_evidence_ledger \<Rightarrow> json" where
  "ledger_object l = JObj
     [(lit ''decision'', decision_payload (ml_decision l)),
      (lit ''entries'', JList (map entry_object (ml_entries l))),
      (lit ''incident_id'', JStr (incident_value (ml_incident_id l))),
      (lit ''incident_window'', window_payload (ml_window l)),
      (lit ''policy'', policy_payload (ml_policy l)),
      (lit ''run_id'', JStr (run_value (ml_run_id l))),
      (lit ''schema_version'', JStr (ml_schema_version l)),
      (lit ''tenant_id'', JStr (tenant_value (ml_tenant_id l)))]"

text \<open>
  The one thing printing asks of a validated ledger beyond validation: the relative floor
  stored in a candidate is the policy's, not a zero of the other sign.
\<close>

definition exact_floors :: "metric_evidence_ledger \<Rightarrow> bool" where
  "exact_floors l \<longleftrightarrow> (\<forall>c \<in> set (present_candidates (ledger_evaluations l)).
     sc_relative_scale_floor c = bp_relative_scale_floor (ml_policy l))"

lemma valid_ledger_decision:
  assumes "valid_metric_ledger l"
  shows "printable_decision (ml_decision l)"
proof -
  note v = assms [unfolded valid_metric_ledger_def]
  have ev: "list_all (valid_evaluation (ml_policy l)) (ledger_evaluations l)"
    "distinct (map evaluation_order (ledger_evaluations l))"
    using v by (simp_all add: strict_sorted_iff)
  have "distinct (map (\<lambda>c. signal_value (sc_signal_key c)) (present_candidates (ledger_evaluations l)))"
    using ev by (intro candidate_signals_distinct) (auto simp: list_all_iff valid_evaluation_def matches_def)
  then have "distinct (map (\<lambda>c. signal_value (sc_signal_key c)) (ledger_candidates l))"
    by (metis ledger_candidates_def mset_eq_imp_distinct_iff mset_map mset_sort)
  then have "distinct (map sc_signal_key (ledger_candidates l))"
    by (auto simp: distinct_map inj_on_def)
  moreover have "decision_consistent (ml_decision l) (ml_policy l) (ledger_candidates l)"
    using v by (simp add: parse_simps)
  ultimately show ?thesis
    by (auto simp: decision_consistent_def printable_decision_def lead_ok_def
        split: decision_kind.splits list.splits)
qed

lemma valid_ledger_entry:
  assumes "valid_metric_ledger l" "e \<in> set (ml_entries l)"
  shows "valid_entry (ml_policy l) e" "me_relative_scale_floor e = bp_relative_scale_floor (ml_policy l)"
proof -
  note v = assms(1) [unfolded valid_metric_ledger_def]
  have "list_all (valid_entry (ml_policy l)) (ml_entries l)"
    by (rule rmap_make_entry_valid [where f = "context_of l" and es = "ledger_evaluations l"])
      (use v in \<open>auto simp: context_of_def\<close>)
  then show "valid_entry (ml_policy l) e" using assms(2) by (simp add: list_all_iff)
  from v assms(2) obtain x where "make_entry (context_of l x) = Inr e"
    using rmap_Inr_in [of "\<lambda>x. make_entry (context_of l x)" "ledger_evaluations l" "ml_entries l" e] by blast
  from make_entry_Inr(3) [OF this] show "me_relative_scale_floor e = bp_relative_scale_floor (ml_policy l)"
    by (simp add: context_of_def)
qed

lemma valid_ledger_printable_entry:
  assumes "valid_metric_ledger l" "e \<in> set (ml_entries l)"
  shows "printable_entry e \<longleftrightarrow>
    (\<forall>c. me_candidate e = Some c \<longrightarrow> sc_relative_scale_floor c = bp_relative_scale_floor (ml_policy l))"
proof -
  note e = valid_ledger_entry [OF assms]
  have "sc_absolute_scale_floor c = me_absolute_scale_floor e" if "me_candidate e = Some c" for c
    using e(1) that positive_feq
    by (auto simp: valid_entry_def valid_evaluation_def entry_evaluation_def matches_def replays_def)
  then show ?thesis
    using e replays_printable
    by (auto simp: printable_entry_def valid_entry_def valid_evaluation_def entry_evaluation_def
        matches_def)
qed

lemma ser_ledger_Inr:
  "ser_ledger v = Inr j \<longleftrightarrow>
     (\<exists>l. validate_metric_evidence_ledger v = Inr l \<and> exact_floors l \<and> j = ledger_object l)"
proof -
  have "ser_ledger v = Inr j \<longleftrightarrow> exact_floors l \<and> j = ledger_object l"
    if "validate_metric_evidence_ledger v = Inr l" for l
  proof -
    have l: "valid_metric_ledger l" by (rule validate_Inr(1) [OF that])
    note f = l [unfolded valid_metric_ledger_def valid_window_def]
    have ex: "exact_floors l \<longleftrightarrow> list_all printable_entry (ml_entries l)"
      using valid_ledger_printable_entry [OF l]
      by (auto simp: exact_floors_def present_candidates_in ledger_evaluations_def list_all_iff
          entry_evaluation_def)
    have keys: "sorted_wrt (<) (map (\<lambda>e. signal_value (me_signal_key e)) (ml_entries l))"
      using f by (simp add: ledger_evaluations_def comp_def evaluation_order_def entry_evaluation_def)
    have "\<not> is_blank SCHEMA_VERSION"
      by (simp add: SCHEMA_VERSION_def lit_def is_blank_iff py_isspace_def)
    moreover have "\<not> list_ex (\<lambda>e. field ''relative_scale_floor'' e \<noteq>
        field ''relative_scale_floor'' (policy_payload (ml_policy l))) (map entry_object (ml_entries l))"
      using valid_ledger_entry(2) [OF l]
      by (auto simp: list_ex_iff entry_object_fields) (simp add: field_def policy_payload_def)
    ultimately show ?thesis
      using f keys valid_ledger_decision [OF l] that
      by (auto simp: ser_ledger_def res_simps ser_simps ex ledger_object_def)
  qed
  moreover have "(\<exists>l. validate_metric_evidence_ledger v = Inr l) \<or> ser_ledger v \<noteq> Inr j"
    by (auto simp: ser_ledger_def split: sum.splits)
  ultimately show ?thesis by blast
qed

lemma canonical_json_Inr:
  "canonical_json j = Inr s \<longleftrightarrow> s = dumps j @ [10] \<and> encodable (dumps j)"
  using utf8_encodable [of "dumps j @ [10]"]
  by (auto simp: canonical_json_def Let_def split: option.splits)

lemma canonical_json_inj: "canonical_json j = Inr s \<Longrightarrow> canonical_json k = Inr s \<Longrightarrow> canon j = canon k"
  by (auto simp: canonical_json_Inr intro: dumps_inj)

lemma canonical_json_total: "json_encodable (canon j) \<Longrightarrow> canonical_json j = Inr (dumps j @ [10])"
  by (simp add: canonical_json_Inr dumps_def encodable_enc)

section \<open>The text determines the ledger\<close>

lemma canon_entry_object [simp]: "canon (entry_object e) = entry_object e"
  unfolding entry_object_def by (subst canon_sorted) (simp_all add: lit_def)

lemma canon_window_payload [simp]: "canon (window_payload w) = window_payload w"
  unfolding window_payload_def by (subst canon_sorted) (simp_all add: lit_def)

lemma canon_ledger_object: "canon (ledger_object l) = ledger_object l"
  unfolding ledger_object_def
  by (subst canon_sorted) (simp add: lit_def, simp add: comp_def del: canon.simps(2))

lemma window_payload_inj:
  "valid_window v \<Longrightarrow> valid_window w \<Longrightarrow> window_payload v = window_payload w \<Longrightarrow> v = w"
  using timestamp_inj by (cases v; cases w) (simp add: window_payload_def valid_window_def)

lemma finite_printable: "printable_candidate c \<Longrightarrow> finite_candidate c"
  by (simp add: printable_candidate_def finite_candidate_def positive_finite_def nonneg_finite_def)

lemma entry_object_leaves:
  assumes "printable_entry a" "printable_entry b" "entry_object a = entry_object b"
  shows "me_absolute_scale_floor a = me_absolute_scale_floor b"
    "me_relative_scale_floor a = me_relative_scale_floor b"
    "me_eligible a = me_eligible b" "me_evidence_id a = me_evidence_id b"
    "me_signal_key a = me_signal_key b" "me_pre_point_count a = me_pre_point_count b"
    "me_post_point_count a = me_post_point_count b"
proof -
  note eq = assms(3) [unfolded entry_object_def, simplified]
  show "me_eligible a = me_eligible b" "me_pre_point_count a = me_pre_point_count b"
    "me_post_point_count a = me_post_point_count b"
    using eq by simp_all
  show "me_evidence_id a = me_evidence_id b" by (rule evidence_id.expand) (use eq in simp)
  show "me_signal_key a = me_signal_key b" by (rule signal_key.expand) (use eq in simp)
  have "float_hex (me_absolute_scale_floor a) = float_hex (me_absolute_scale_floor b)"
    "float_hex (me_relative_scale_floor a) = float_hex (me_relative_scale_floor b)"
    using eq by simp_all
  with assms(1,2) show "me_absolute_scale_floor a = me_absolute_scale_floor b"
    "me_relative_scale_floor a = me_relative_scale_floor b"
    by (simp_all add: printable_entry_def positive_finite_def nonneg_finite_def float_hex_inj)
qed

lemma entry_object_inj:
  assumes "printable_entry a" "printable_entry b" "entry_object a = entry_object b"
  shows "a = b"
proof -
  have "pred_option finite_candidate (me_candidate a)" "pred_option finite_candidate (me_candidate b)"
    using assms(1,2) finite_printable by (auto simp: printable_entry_def option.pred_set)
  then have "me_candidate a = me_candidate b"
    using assms(3) candidate_payload_inj by (simp add: entry_object_def)
  then show ?thesis
    using entry_object_leaves [OF assms] by (cases a; cases b) simp
qed

lemma entry_objects_inj:
  assumes "list_all printable_entry as" "list_all printable_entry bs" "map entry_object as = map entry_object bs"
  shows "as = bs"
  using assms
proof (induction as arbitrary: bs)
  case (Cons a as)
  then obtain b bs' where b: "bs = b # bs'" by (cases bs) simp_all
  have "a = b" by (rule entry_object_inj) (use Cons.prems b in simp_all)
  moreover have "as = bs'" by (rule Cons.IH) (use Cons.prems b in simp_all)
  ultimately show ?case using b by simp
qed simp

lemma ledger_object_inj:
  assumes "valid_metric_ledger a" "valid_metric_ledger b" "exact_floors a" "exact_floors b"
    and eq: "ledger_object a = ledger_object b"
  shows "a = b"
proof -
  have p: "list_all printable_entry (ml_entries l)" if "valid_metric_ledger l" "exact_floors l" for l
    using valid_ledger_printable_entry [OF that(1)] that(2)
    by (auto simp: exact_floors_def present_candidates_in ledger_evaluations_def list_all_iff
        entry_evaluation_def)
  note v = assms(1,2) [unfolded valid_metric_ledger_def]
  have fin: "finite_decision (ml_decision l)" if "valid_metric_ledger l" for l
    using valid_ledger_decision [OF that]
    by (auto simp: printable_decision_def finite_decision_def nonneg_finite_def option.pred_set)
  have "ml_decision a = ml_decision b"
    using decision_payload_inj [OF fin [OF assms(1)] fin [OF assms(2)]] eq by (simp add: ledger_object_def)
  moreover have "ml_entries a = ml_entries b"
    using entry_objects_inj p assms(1-4) eq by (simp add: ledger_object_def)
  moreover have "ml_window a = ml_window b" "ml_policy a = ml_policy b"
    using eq v window_payload_inj policy_payload_inj by (simp_all add: ledger_object_def)
  moreover have "ml_tenant_id a = ml_tenant_id b" "ml_incident_id a = ml_incident_id b"
    "ml_run_id a = ml_run_id b" "ml_schema_version a = ml_schema_version b"
    using eq by (simp_all add: ledger_object_def tenant_id.expand incident_id.expand run_id.expand)
  ultimately show ?thesis by (cases a; cases b) simp
qed

lemma ledger_json_Inr:
  "ledger_json v = Inr s \<longleftrightarrow> (\<exists>l. validate_metric_evidence_ledger v = Inr l \<and> exact_floors l \<and>
     s = dumps (ledger_object l) @ [10] \<and> encodable (dumps (ledger_object l)))"
  by (auto simp: ledger_json_def res_simps ser_ledger_Inr canonical_json_Inr)

section \<open>Totality on what the pipeline produces\<close>

lemma ledger_object_encodable:
  assumes "valid_metric_ledger l"
    and "encodable_names (ml_tenant_id l) (ml_incident_id l) (ml_run_id l) (map me_signal_key (ml_entries l))"
  shows "json_encodable (canon (ledger_object l))" "\<forall>e \<in> set (ml_entries l). json_encodable (canon (entry_object e))"
proof -
  have cand: "sc_signal_key c = me_signal_key e" if "e \<in> set (ml_entries l)" "me_candidate e = Some c" for e c
    using valid_ledger_entry(1) [OF assms(1) that(1)] that(2)
    by (simp add: valid_entry_def valid_evaluation_def entry_evaluation_def matches_def)
  have digest: "encodable (evidence_value (me_evidence_id e))" if "e \<in> set (ml_entries l)" for e
  proof -
    have "digest_format (evidence_value (me_evidence_id e))"
      using valid_ledger_entry(1) [OF assms(1) that] by (simp add: valid_entry_def)
    then have "encodable (take 7 (evidence_value (me_evidence_id e)) @ drop 7 (evidence_value (me_evidence_id e)))"
      by (auto simp: digest_format_def list_all_iff is_hex_def intro!: encodable_ascii simp del: append_take_drop_id)
    then show ?thesis by simp
  qed
  show entries: "\<forall>e \<in> set (ml_entries l). json_encodable (canon (entry_object e))"
  proof
    fix e assume e: "e \<in> set (ml_entries l)"
    have k: "encodable (signal_value (me_signal_key e))"
      using assms(2) e by (simp add: encodable_names_def list_all_iff)
    have "json_encodable (candidate_payload (me_candidate e))"
      using cand [OF e] k by (cases "me_candidate e") (simp_all add: candidate_payload_def)
    with k digest [OF e] show "json_encodable (canon (entry_object e))"
      by (simp only: canon_entry_object) (simp add: entry_object_def)
  qed
  have keys: "list_all (\<lambda>k. encodable (signal_value k)) (md_candidate_signal_keys (ml_decision l))"
  proof -
    have "decision_consistent (ml_decision l) (ml_policy l) (ledger_candidates l)"
      using assms(1) by (simp add: valid_metric_ledger_def parse_simps)
    then show ?thesis
      using assms(2) cand
      by (force simp: decision_consistent_def ledger_candidates_def list_all_iff present_candidates_in
          ledger_evaluations_def entry_evaluation_def encodable_names_def)
  qed
  have "json_encodable (decision_payload (ml_decision l))"
    using keys by (auto simp: decision_payload_def list_all_iff opt_hex_def split: option.splits)
  then show "json_encodable (canon (ledger_object l))"
    using assms entries unfolding canon_ledger_object
    by (simp add: ledger_object_def policy_payload_def window_payload_def encodable_names_def
        SCHEMA_VERSION_def valid_metric_ledger_def)
qed

lemma rank_candidate_floor:
  assumes "rank_metric_shifts w inputs p = Inr r" "c \<in> set (present_candidates (result_evaluations r))"
  shows "sc_relative_scale_floor c = bp_relative_scale_floor p"
    "\<exists>item \<in> set inputs. sc_signal_key c = sig_key (in_signal item)"
proof -
  from assms(2) obtain e where e: "e \<in> set (result_evaluations r)" "se_candidate e = Some c"
    by (auto simp: present_candidates_in)
  then obtain item where "item \<in> set inputs" "evaluation_of w p item e"
    using rank_evaluations(1) [OF assms(1)] evaluate_signal_Inr by blast
  with e show "sc_relative_scale_floor c = bp_relative_scale_floor p"
    "\<exists>item \<in> set inputs. sc_signal_key c = sig_key (in_signal item)"
    by (auto simp: evaluation_of_def)
qed

lemma compiled_ledger_prints:
  assumes "encodable_names t i run (map (\<lambda>item. sig_key (in_signal item)) inputs)"
    and "rank_metric_shifts w inputs p = Inr r" "compile_metric_shift_ledger t i run w r = Inr l"
  shows "exact_floors l"
    "encodable_names (ml_tenant_id l) (ml_incident_id l) (ml_run_id l) (map me_signal_key (ml_entries l))"
proof -
  note c = compile_Inr [OF assms(3)]
  have pol: "ml_policy l = p"
    using c(7) rank_metric_shifts_Inr [OF assms(2)] result_conclude(3) by metis
  have evs: "ledger_evaluations l = result_evaluations r"
    using c(2) rank_evaluations(3) [OF assms(2)] by (simp add: strict_sorted_iff sort_key_id_if_sorted)
  show "exact_floors l"
    using rank_candidate_floor(1) [OF assms(2)] by (simp add: exact_floors_def evs pol)
  have "me_signal_key e \<in> (\<lambda>item. sig_key (in_signal item)) ` set inputs" if "e \<in> set (ml_entries l)" for e
  proof -
    have "entry_evaluation e \<in> set (result_evaluations r)"
      using that evs by (metis image_eqI ledger_evaluations_def list.set_map)
    then obtain item where "item \<in> set inputs" "evaluation_of w p item (entry_evaluation e)"
      using rank_evaluations(1) [OF assms(2)] evaluate_signal_Inr by blast
    then show ?thesis by (auto simp: evaluation_of_def entry_evaluation_def)
  qed
  then show "encodable_names (ml_tenant_id l) (ml_incident_id l) (ml_run_id l) (map me_signal_key (ml_entries l))"
    unfolding c(3-5) by (intro encodable_names_mono [OF assms(1)]) auto
qed

lemma valid_ledger_json_total:
  assumes "valid_metric_ledger l" "exact_floors l"
    and "encodable_names (ml_tenant_id l) (ml_incident_id l) (ml_run_id l) (map me_signal_key (ml_entries l))"
  shows "ledger_json l = Inr (dumps (ledger_object l) @ [10])"
    and "e \<in> set (ml_entries l) \<Longrightarrow> metric_evidence_entry_json e = Inr (dumps (entry_object e) @ [10])"
proof -
  note enc = ledger_object_encodable [OF assms(1,3)]
  show "ledger_json l = Inr (dumps (ledger_object l) @ [10])"
    using assms(1,2) enc(1) validate_valid_ledger [OF assms(1)]
    by (simp add: ledger_json_def ser_ledger_Inr [of l "ledger_object l", THEN iffD2] canonical_json_total)
  assume e: "e \<in> set (ml_entries l)"
  have "printable_entry e"
    using valid_ledger_printable_entry [OF assms(1) e] assms(2) e
    by (auto simp: exact_floors_def present_candidates_in ledger_evaluations_def entry_evaluation_def)
  then have "ser_entry e = Inr (entry_object e)" by (simp add: ser_simps)
  with enc(2) e show "metric_evidence_entry_json e = Inr (dumps (entry_object e) @ [10])"
    by (simp add: metric_evidence_entry_json_def canonical_json_total)
qed

lemma nonneg_top_lead:
  assumes "isfinite (fsub a b)" "nonneg_finite a" "nonneg_finite b" "fval b \<le> fval a"
  shows "nonneg_finite (fsub a b)"
  using fsub_ordered [of a b] assms by (auto simp: nonneg_finite_def)

lemma json_encodable_canon [simp]: "json_encodable (canon j) \<longleftrightarrow> json_encodable j"
  by (induction j rule: canon.induct) fastforce+

lemma conclude_Ranking_fields:
  assumes "conclude p es cs = Ranking k"
  shows "br_candidates k = cs" "br_policy k = p" "cs \<noteq> []"
    "br_lead k = (case cs of a # b # _ \<Rightarrow> fsub (sc_suspicion_score a) (sc_suspicion_score b) | _ \<Rightarrow> finf False)"
  using assms by (auto simp: conclude_def Let_def split: list.splits if_splits)

lemma conclude_Abstention_fields:
  assumes "conclude p es cs = Abstention a"
  shows "ba_evaluated_candidates a = cs" "ba_policy a = p" "ba_top_score a = top_score_of cs"
    "ba_second_score a = second_score_of cs"
  using assms
  by (auto simp: conclude_def Let_def top_score_of_def second_score_of_def split: list.splits if_splits)

lemma baseline_json_total:
  assumes "valid_policy p" "list_all valid_input inputs" "rank_metric_shifts w inputs p = Inr r"
    and "encodable_names t i run (map (\<lambda>item. sig_key (in_signal item)) inputs)"
  shows "\<exists>b. baseline_ranking_json r = Inr b"
proof -
  let ?es = "result_evaluations r" and ?cs = "result_candidates r"
  have names: "list_all (\<lambda>i. \<not> is_blank (signal_value (sig_key (in_signal i)))) inputs"
    using assms(4) by (auto simp: encodable_names_def list_all_iff)
  note valid = rank_valid_evaluations [OF assms(1-3) names]
  from rank_metric_shifts_Inr [OF assms(3)]
  have cs: "?cs = sort_key candidate_order (present_candidates ?es)" and r: "r = conclude p ?es ?cs" by auto
  have print: "printable_candidate c" if "c \<in> set ?cs" for c
    using that valid replays_printable by (auto simp: cs list_all_iff present_candidates_in valid_evaluation_def)
  then have cands: "rmap ser_candidate ?cs = Inr (map (\<lambda>c. candidate_payload (Some c)) ?cs)"
    using rmap_printed [of ser_candidate "\<lambda>c. candidate_payload (Some c)" printable_candidate, OF ser_candidate_Inr]
    by (simp add: list_all_iff)
  have enc: "json_encodable (candidate_payload (Some c))" if "c \<in> set ?cs" for c
  proof -
    have "c \<in> set (present_candidates ?es)" using that by (simp add: cs)
    from rank_candidate_floor(2) [OF assms(3) this] have "encodable (signal_value (sc_signal_key c))"
      using assms(4) by (auto simp: encodable_names_def list_all_iff)
    then show ?thesis by (simp add: candidate_payload_def)
  qed
  have score: "ser_hex True False (sc_suspicion_score c) = Inr (jhex (sc_suspicion_score c))" if "c \<in> set ?cs" for c
    using print [OF that] by (simp add: ser_simps printable_candidate_def)
  have policy: "ser_policy p = Inr (policy_payload p)" "json_encodable (policy_payload p)"
    using assms(1) by (simp_all add: ser_simps policy_payload_def)
  have "\<exists>j. ser_baseline r = Inr j \<and> json_encodable (canon j)"
  proof (cases r)
    case (Ranking k)
    with r have "conclude p ?es ?cs = Ranking k" by simp
    note k = conclude_Ranking_fields [OF this]
    have "nonneg_finite (br_lead k)" if "isfinite (br_lead k)"
    proof (cases ?cs rule: remdups_adj.cases)
      case (3 a b rest)
      have "fval (sc_suspicion_score b) \<le> fval (sc_suspicion_score a)"
        using rank_scores(3) [OF assms(3,2) 3] by simp
      with 3 that k(4) print show ?thesis
        by (auto simp: printable_candidate_def intro!: nonneg_top_lead)
    qed (use k that in auto)
    then have "\<exists>j. (if isfinite (br_lead k) then ser_hex True False (br_lead k) else Inr JNull) = Inr j \<and>
        json_encodable j" by (simp add: ser_simps)
    moreover have "\<exists>j. (case ?cs of _ # second # _ \<Rightarrow> ser_hex True False (sc_suspicion_score second)
        | _ \<Rightarrow> Inr JNull) = Inr j \<and> json_encodable j"
      using score by (auto split: list.splits)
    moreover have "\<exists>j. (case ?cs of first # _ \<Rightarrow> ser_hex True False (sc_suspicion_score first)
        | [] \<Rightarrow> ser_fail) = Inr j \<and> json_encodable j"
      using score k(3) by (auto split: list.splits)
    ultimately obtain lead second top where
      "(if isfinite (br_lead k) then ser_hex True False (br_lead k) else Inr JNull) = Inr lead"
      "(case ?cs of _ # second # _ \<Rightarrow> ser_hex True False (sc_suspicion_score second) | _ \<Rightarrow> Inr JNull) = Inr second"
      "(case ?cs of first # _ \<Rightarrow> ser_hex True False (sc_suspicion_score first) | [] \<Rightarrow> ser_fail) = Inr top"
      "json_encodable lead" "json_encodable second" "json_encodable top" by blast
    with Ranking k(1,2) cands enc policy show ?thesis
      by (simp add: ser_baseline_def BASELINE_RANKING_SCHEMA_VERSION_def del: canon.simps)
  next
    case (Abstention a)
    with r have "conclude p ?es ?cs = Abstention a" by simp
    note a = conclude_Abstention_fields [OF this]
    have "scored ?cs" using present_candidates_scored [OF valid] cs by simp
    then have "ser_optional_hex True (top_score_of ?cs) = Inr (opt_hex (top_score_of ?cs))"
      "ser_optional_hex True (second_score_of ?cs) = Inr (opt_hex (second_score_of ?cs))"
      using scored_scores by (simp_all add: ser_simps)
    moreover have "json_encodable (opt_hex v)" for v by (cases v) (simp_all add: opt_hex_def)
    ultimately show ?thesis
      using Abstention a cands enc policy
      by (simp add: ser_baseline_def BASELINE_RANKING_SCHEMA_VERSION_def del: canon.simps)
  qed
  then show ?thesis using canonical_json_total by (auto simp: baseline_ranking_json_def)
qed

section \<open>Properties\<close>

text \<open>
  Everything the metric pipeline produces can be stored: for a valid window, policy and
  inputs with encodable names, the compiled ledger, each of its entries and the baseline
  result itself have canonical texts, and the ledger's text is the canonical dump of its
  object followed by a newline.
\<close>

theorem pipeline_artifacts_print:
  assumes "valid_window w" "valid_policy p" "list_all valid_input inputs"
    and "encodable_names t i run (map (\<lambda>item. sig_key (in_signal item)) inputs)"
    and "rank_metric_shifts w inputs p = Inr r"
  shows "\<exists>l b. compile_metric_shift_ledger t i run w r = Inr l \<and> baseline_ranking_json r = Inr b \<and>
    ledger_json l = Inr (dumps (ledger_object l) @ [10]) \<and>
    (\<forall>e \<in> set (ml_entries l). metric_evidence_entry_json e = Inr (dumps (entry_object e) @ [10]))"
proof -
  obtain l where l: "compile_metric_shift_ledger t i run w r = Inr l" using compile_total [OF assms] by blast
  note f = compiled_ledger_prints [OF assms(4,5) l]
  show ?thesis
    using valid_ledger_json_total [OF compile_Inr(1) [OF l] f] baseline_json_total [OF assms(2,3,5,4)] l by blast
qed

theorem pipeline_artifacts_print_witness:
  "\<exists>l b. compile_metric_shift_ledger sample_tenant sample_incident sample_run sample_window
       (Ranking sample_ranking) = Inr l \<and> baseline_ranking_json (Ranking sample_ranking) = Inr b \<and>
     is_ok (ledger_json l)"
proof -
  obtain l b where "compile_metric_shift_ledger sample_tenant sample_incident sample_run sample_window
       (Ranking sample_ranking) = Inr l" "baseline_ranking_json (Ranking sample_ranking) = Inr b"
     "ledger_json l = Inr (dumps (ledger_object l) @ [10])"
    using pipeline_artifacts_print [OF _ _ _ sample_names sample_rank] by auto
  then show ?thesis by (intro exI [of _ l] exI [of _ b]) simp
qed

text \<open>
  C19. The canonical text of a ledger determines the ledger: when two values print to the
  same text, both validate, to the same ledger.
\<close>

theorem ledger_json_determines_ledger:
  assumes "ledger_json u = Inr s" "ledger_json v = Inr s"
  shows "\<exists>l. validate_metric_evidence_ledger u = Inr l \<and> validate_metric_evidence_ledger v = Inr l"
proof -
  from assms obtain l m where
    l: "validate_metric_evidence_ledger u = Inr l" "exact_floors l" and
    m: "validate_metric_evidence_ledger v = Inr m" "exact_floors m" and
    "dumps (ledger_object l) = dumps (ledger_object m)"
    unfolding ledger_json_Inr by force
  then have "ledger_object l = ledger_object m" using dumps_inj canon_ledger_object by metis
  with ledger_object_inj validate_Inr(1) l m have "l = m" by metis
  with l m show ?thesis by blast
qed

theorem ledger_json_determines_ledger_witness:
  "\<exists>v s l. ledger_json v = Inr s \<and> validate_metric_evidence_ledger v = Inr l"
proof -
  obtain l where l: "compile_metric_shift_ledger sample_tenant sample_incident sample_run sample_window
       (Ranking sample_ranking) = Inr l"
    using compile_total [OF _ _ _ sample_names sample_rank] by auto
  note f = compiled_ledger_prints [OF sample_names sample_rank l]
  have "ledger_json l = Inr (dumps (ledger_object l) @ [10])"
    by (rule valid_ledger_json_total(1) [OF compile_Inr(1) [OF l] f])
  from ledger_json_determines_ledger [OF this this] this show ?thesis by metis
qed

end
