(* ===== verification/Serialization_Verification.thy ===== *)
theory Serialization_Verification
  imports Serialization_Ledger
begin

text \<open>
  Printing verification results: the printer accepts exactly the internally consistent ones,
  every result of the verifier is one of them, and the text determines the result.
\<close>

section \<open>Predicate traces\<close>

lemma enum_values_inj [simp]:
  "verdict_value a = verdict_value b \<longleftrightarrow> a = b"
  "unknown_reason_value r = unknown_reason_value s \<longleftrightarrow> r = s"
  "composition_value c = composition_value d \<longleftrightarrow> c = d"
  "observed_value o1 = observed_value o2 \<longleftrightarrow> o1 = o2"
     apply (cases a; cases b; simp)
    apply (cases r; cases s; simp)
   apply (cases c; cases d; simp)
  apply (cases o1; cases o2; simp)
  done

lemma ser_optional_simps [simp]:
  "ser_optional f v = JNull \<longleftrightarrow> v = None" "JNull = ser_optional f v \<longleftrightarrow> v = None"
  "ser_optional f v = JStr s \<longleftrightarrow> (\<exists>x. v = Some x \<and> s = f x)"
  by (cases v; auto simp: ser_optional_def)+

lemma ser_optional_inj:
  "(\<And>a b. f a = f b \<longleftrightarrow> a = b) \<Longrightarrow> ser_optional f v = ser_optional f w \<longleftrightarrow> v = w"
  by (cases v; cases w) (simp_all add: ser_optional_def)

lemmas ser_optional_enum [simp] =
  ser_optional_inj [where f = unknown_reason_value, OF enum_values_inj(2)]
  ser_optional_inj [where f = observed_value, OF enum_values_inj(4)]

abbreviation jids :: "evidence_id list \<Rightarrow> json list" where
  "jids \<equiv> map (\<lambda>i. JStr (evidence_value i))"

lemma jid_eq: "JStr (evidence_value i) = JStr (evidence_value k) \<longleftrightarrow> i = k"
  by (auto intro: evidence_id.expand)

lemma jids_inj: "jids a = jids b \<longleftrightarrow> a = b"
  by (rule inj_map_eq_map) (simp add: inj_def jid_eq del: json.inject)

lemma jids_disjoint: "set (jids a) \<inter> set (jids b) = {} \<longleftrightarrow> set a \<inter> set b = {}"
proof -
  have "inj (\<lambda>i. JStr (evidence_value i))" by (simp add: inj_def jid_eq del: json.inject)
  from image_Int [OF this, of "set a" "set b"] show ?thesis by (auto simp: disjoint_iff)
qed

definition predicate_object :: "predicate_verification_result \<Rightarrow> json" where
  "predicate_object t = JObj
     [(lit ''contradicting_evidence_ids'', JList (jids (pr_contradicting_evidence_ids t))),
      (lit ''minimum_score'', jhex (pr_minimum_score t)),
      (lit ''observed_direction'', ser_optional observed_value (pr_observed_direction t)),
      (lit ''predicate_id'', JStr (pr_predicate_id t)),
      (lit ''reason'', ser_optional unknown_reason_value (pr_reason t)),
      (lit ''supporting_evidence_ids'', JList (jids (pr_supporting_evidence_ids t))),
      (lit ''verdict'', jverdict (pr_verdict t))]"

definition ids_ok :: "evidence_id list \<Rightarrow> bool" where
  "ids_ok ids \<longleftrightarrow> list_all (\<lambda>i. digest_format (evidence_value i)) ids"

text \<open>A trace whose verdict, reason, direction and citations fit together.\<close>

definition consistent_trace :: "predicate_verification_result \<Rightarrow> bool" where
  "consistent_trace t \<longleftrightarrow> ids_ok (pr_supporting_evidence_ids t) \<and> ids_ok (pr_contradicting_evidence_ids t) \<and>
     set (pr_supporting_evidence_ids t) \<inter> set (pr_contradicting_evidence_ids t) = {} \<and>
     (case pr_verdict t of
        UNKNOWN \<Rightarrow> pr_reason t \<noteq> None \<and> pr_supporting_evidence_ids t = [] \<and>
          pr_contradicting_evidence_ids t = [] \<and>
          (pr_observed_direction t \<noteq> None \<longleftrightarrow> pr_reason t = Some UR_WEAK_EVIDENCE)
      | SUPPORTED \<Rightarrow> pr_reason t = None \<and> pr_observed_direction t \<noteq> None \<and>
          pr_supporting_evidence_ids t \<noteq> [] \<and> pr_contradicting_evidence_ids t = []
      | REFUTED \<Rightarrow> pr_reason t = None \<and> pr_observed_direction t \<noteq> None \<and>
          pr_supporting_evidence_ids t = [] \<and> pr_contradicting_evidence_ids t \<noteq> []) \<and>
     nonneg_finite (pr_minimum_score t) \<and> \<not> is_blank (pr_predicate_id t)"

lemma directionless:
  "r \<noteq> None \<Longrightarrow> ser_optional unknown_reason_value r \<in> {jreason UR_CONTEXT_MISMATCH,
     jreason UR_CAUSAL_CLAIM_NOT_VERIFIABLE, jreason UR_SIGNAL_NOT_FOUND, jreason UR_INSUFFICIENT_EVIDENCE,
     jreason UR_NO_DIRECTIONAL_SHIFT} \<longleftrightarrow> r \<noteq> Some UR_WEAK_EVIDENCE"
  by (cases "the r") (auto simp del: unknown_reason_value.simps)

lemma items_simps [simp]: "items (JList js) = js"
  by (simp add: items_def)

lemma ser_predicate_result_Inr:
  "ser_predicate_result t = Inr j \<longleftrightarrow> j = predicate_object t \<and> consistent_trace t"
proof (cases "pr_verdict t")
  case UNKNOWN
  show ?thesis
  proof (cases "pr_reason t")
    case None
    with UNKNOWN show ?thesis
      by (simp add: ser_predicate_result_def Let_def res_simps ser_simps consistent_trace_def)
  next
    case (Some r)
    with UNKNOWN show ?thesis
      using directionless [of "Some r"]
      by (auto simp: ser_predicate_result_def Let_def res_simps ser_simps predicate_object_def
          consistent_trace_def ids_ok_def simp del: unknown_reason_value.simps verdict_value.simps)
  qed
next
  case SUPPORTED
  then show ?thesis
    by (auto simp: ser_predicate_result_def Let_def res_simps ser_simps predicate_object_def
        consistent_trace_def ids_ok_def jids_disjoint simp del: verdict_value.simps)
next
  case REFUTED
  then show ?thesis
    by (auto simp: ser_predicate_result_def Let_def res_simps ser_simps predicate_object_def
        consistent_trace_def ids_ok_def jids_disjoint simp del: verdict_value.simps)
qed

lemma predicate_object_fields:
  "field ''predicate_id'' (predicate_object t) = JStr (pr_predicate_id t)"
  "field ''verdict'' (predicate_object t) = jverdict (pr_verdict t)"
  "field ''reason'' (predicate_object t) = ser_optional unknown_reason_value (pr_reason t)"
  "field ''observed_direction'' (predicate_object t) = ser_optional observed_value (pr_observed_direction t)"
  "field ''supporting_evidence_ids'' (predicate_object t) = JList (jids (pr_supporting_evidence_ids t))"
  "field ''contradicting_evidence_ids'' (predicate_object t) = JList (jids (pr_contradicting_evidence_ids t))"
  by (simp_all add: field_def predicate_object_def)

section \<open>Results\<close>

definition verification_object :: "hypothesis_verification_result \<Rightarrow> json" where
  "verification_object r = JObj
     [(lit ''composition'', JStr (composition_value (hr_composition r))),
      (lit ''contradicting_evidence_ids'', JList (jids (hr_contradicting_evidence_ids r))),
      (lit ''hypothesis_id'', JStr (hr_hypothesis_id r)),
      (lit ''predicate_results'', JList (map predicate_object (hr_predicate_results r))),
      (lit ''reason'', ser_optional unknown_reason_value (hr_reason r)),
      (lit ''schema_version'', JStr VERIFICATION_SCHEMA_VERSION),
      (lit ''supporting_evidence_ids'', JList (jids (hr_supporting_evidence_ids r))),
      (lit ''verdict'', jverdict (hr_verdict r))]"

definition gate :: "unknown_reason \<Rightarrow> bool" where
  "gate r \<longleftrightarrow> r = UR_CONTEXT_MISMATCH \<or> r = UR_CAUSAL_CLAIM_NOT_VERIFIABLE"

definition consistent_result :: "hypothesis_verification_result \<Rightarrow> bool" where
  "consistent_result r \<longleftrightarrow> hr_predicate_results r \<noteq> [] \<and> list_all consistent_trace (hr_predicate_results r) \<and>
     distinct (map pr_predicate_id (hr_predicate_results r)) \<and> \<not> is_blank (hr_hypothesis_id r) \<and>
     hr_supporting_evidence_ids r = concat (map pr_supporting_evidence_ids (hr_predicate_results r)) \<and>
     hr_contradicting_evidence_ids r = concat (map pr_contradicting_evidence_ids (hr_predicate_results r)) \<and>
     hr_verdict r = kleene (hr_composition r) (map pr_verdict (hr_predicate_results r)) \<and>
     (case hr_reason r of
        Some g \<Rightarrow> gate g \<and> (\<forall>t \<in> set (hr_predicate_results r). pr_verdict t = UNKNOWN \<and> pr_reason t = Some g)
      | None \<Rightarrow> (\<forall>t \<in> set (hr_predicate_results r). \<forall>g. pr_reason t = Some g \<longrightarrow> \<not> gate g))"

lemma expected_verdict_kleene:
  "expected_verdict (JStr (composition_value c)) (map jverdict vs) = jverdict (kleene c vs)"
proof -
  have "jverdict v \<in> set (map jverdict vs) \<longleftrightarrow> v \<in> set vs" for v by (auto simp del: verdict_value.simps)
  then show ?thesis
    by (cases c) (simp_all add: expected_verdict_def compose_verdicts_def flip: compose_verdicts_kleene
        del: verdict_value.simps composition_value.simps set_map)
qed

lemma ser_predicate_results_Inr:
  "ser_predicate_results ts = Inr js \<longleftrightarrow> js = map predicate_object ts \<and> list_all consistent_trace ts \<and>
     distinct (map pr_predicate_id ts)"
proof -
  have "distinct (map (field ''predicate_id'') (map predicate_object ts)) \<longleftrightarrow>
      distinct (map pr_predicate_id ts)"
    by (auto simp: predicate_object_fields comp_def distinct_map inj_on_def)
  then show ?thesis
    by (auto simp: ser_predicate_results_def res_simps rmap_printed [OF ser_predicate_result_Inr])
qed

lemma kleene_all_unknown: "vs \<noteq> [] \<Longrightarrow> \<forall>v \<in> set vs. v = UNKNOWN \<Longrightarrow> kleene c vs = UNKNOWN"
  by (cases c; cases vs) (auto simp: compose_verdicts_def simp flip: compose_verdicts_kleene)

lemma gate_reason:
  "ser_optional unknown_reason_value v \<in> {jreason UR_CONTEXT_MISMATCH, jreason UR_CAUSAL_CLAIM_NOT_VERIFIABLE}
     \<longleftrightarrow> (\<exists>g. v = Some g \<and> gate g)"
  by (auto simp: gate_def simp del: unknown_reason_value.simps)

lemma consistent_unknown_trace:
  assumes "consistent_trace t" "pr_verdict t = UNKNOWN" "pr_reason t = Some g" "gate g"
  shows "pr_observed_direction t = None" "pr_supporting_evidence_ids t = []"
    "pr_contradicting_evidence_ids t = []"
  using assms by (auto simp: consistent_trace_def gate_def)

lemma concat_jids: "concat (map (\<lambda>t. jids (f t)) ts) = jids (concat (map f ts))"
  by (simp add: map_concat comp_def)

lemma ser_verification_Inr:
  "ser_verification r = Inr j \<longleftrightarrow> j = verification_object r \<and> consistent_result r"
proof (cases "hr_predicate_results r \<noteq> [] \<and> list_all consistent_trace (hr_predicate_results r) \<and>
     distinct (map pr_predicate_id (hr_predicate_results r))")
  case False
  then show ?thesis
    by (auto simp: ser_verification_def Let_def res_simps ser_predicate_results_Inr consistent_result_def)
next
  case True
  let ?ts = "hr_predicate_results r" and ?ps = "map predicate_object (hr_predicate_results r)"
  have ok: "ids_ok (concat (map pr_supporting_evidence_ids ?ts))" "ids_ok (concat (map pr_contradicting_evidence_ids ?ts))"
    using True by (auto simp: ids_ok_def list_all_iff consistent_trace_def)
  have sup: "concat (map (\<lambda>p. items (field ''supporting_evidence_ids'' p)) ?ps) =
      jids (concat (map pr_supporting_evidence_ids ?ts))"
    and con: "concat (map (\<lambda>p. items (field ''contradicting_evidence_ids'' p)) ?ps) =
      jids (concat (map pr_contradicting_evidence_ids ?ts))"
    by (simp_all add: comp_def predicate_object_fields concat_jids)
  have exp: "expected_verdict (JStr (composition_value (hr_composition r))) (map (field ''verdict'') ?ps) =
      jverdict (kleene (hr_composition r) (map pr_verdict ?ts))"
    using expected_verdict_kleene [of "hr_composition r" "map pr_verdict ?ts"]
    by (simp add: comp_def predicate_object_fields)
  have gated: "\<not> list_ex (\<lambda>p. field ''verdict'' p \<noteq> jverdict UNKNOWN \<or> field ''reason'' p \<noteq> jreason g \<or>
        field ''observed_direction'' p \<noteq> JNull \<or> items (field ''supporting_evidence_ids'' p) \<noteq> [] \<or>
        items (field ''contradicting_evidence_ids'' p) \<noteq> []) ?ps \<longleftrightarrow>
      (\<forall>t \<in> set ?ts. pr_verdict t = UNKNOWN \<and> pr_reason t = Some g)" if "gate g" for g
    using True consistent_unknown_trace [OF _ _ _ that]
    by (auto simp: list_ex_iff list_all_iff predicate_object_fields simp del: unknown_reason_value.simps verdict_value.simps)
  have opn: "\<not> list_ex (\<lambda>p. field ''reason'' p \<in> {jreason UR_CONTEXT_MISMATCH, jreason UR_CAUSAL_CLAIM_NOT_VERIFIABLE}) ?ps
      \<longleftrightarrow> (\<forall>t \<in> set ?ts. \<forall>g. pr_reason t = Some g \<longrightarrow> \<not> gate g)"
    unfolding list_ex_iff list.set_map bex_simps(7) predicate_object_fields gate_reason by blast
  have unk: "kleene (hr_composition r) (map pr_verdict ?ts) = UNKNOWN \<and>
      concat (map pr_supporting_evidence_ids ?ts) = [] \<and> concat (map pr_contradicting_evidence_ids ?ts) = []"
    if "gate g" "\<forall>t \<in> set ?ts. pr_verdict t = UNKNOWN \<and> pr_reason t = Some g" for g
    using True that consistent_unknown_trace kleene_all_unknown [of "map pr_verdict ?ts"]
    by (auto simp: list_all_iff)
  have pr: "ser_predicate_results ?ts = Inr ?ps" using True by (simp add: ser_predicate_results_Inr)
  show ?thesis
  proof (cases "hr_reason r")
    case None
    with True ok show ?thesis
      unfolding ser_verification_def Let_def pr rbind_simps sup con exp opn
      by (auto simp: res_simps ser_evidence_ids_Inr ser_text_Inr sup con exp opn consistent_result_def
          verification_object_def jids_inj ids_ok_def simp del: insert_iff unknown_reason_value.simps verdict_value.simps)
  next
    case (Some g)
    have red: "ser_optional unknown_reason_value (hr_reason r) = jreason g" "hr_reason r = Some g"
      using Some by simp_all
    show ?thesis
    proof (cases "gate g")
      case False
      then have "jreason g \<notin> {jreason UR_CONTEXT_MISMATCH, jreason UR_CAUSAL_CLAIM_NOT_VERIFIABLE}"
        using gate_reason [of "Some g"] red by (simp only: ser_optional_def option.case) blast
      with False show ?thesis
        unfolding ser_verification_def Let_def pr rbind_simps red(1)
        by (simp add: res_simps consistent_result_def red del: insert_iff unknown_reason_value.simps)
    next
      case True
      then have "jreason g \<in> {jreason UR_CONTEXT_MISMATCH, jreason UR_CAUSAL_CLAIM_NOT_VERIFIABLE}"
        using gate_reason [of "Some g"] red by (simp only: ser_optional_def option.case) blast
      note member = this
      show ?thesis
      proof (cases "\<forall>t \<in> set ?ts. pr_verdict t = UNKNOWN \<and> pr_reason t = Some g")
        case False
        with gated [OF True] show ?thesis
          unfolding ser_verification_def Let_def pr rbind_simps red(1)
          by (simp add: res_simps consistent_result_def red(2) False member del: insert_iff unknown_reason_value.simps
              verdict_value.simps)
      next
        case all: True
        note u = unk [OF True all]
        show ?thesis
          unfolding ser_verification_def Let_def pr rbind_simps red(1) sup con exp
          using gated [OF True] all ok \<open>hr_predicate_results r \<noteq> [] \<and> _\<close> True member
          by (simp add: res_simps ser_evidence_ids_Inr ser_text_Inr consistent_result_def red(2) u jids_inj
              verification_object_def ids_ok_def ser_optional_def del: insert_iff unknown_reason_value.simps verdict_value.simps)
            (auto simp del: unknown_reason_value.simps verdict_value.simps)
      qed
    qed
  qed
qed

section \<open>The verifier's results are printable\<close>

lemma evaluate_predicate_consistent:
  assumes "valid_metric_ledger l" "\<not> is_blank (mp_predicate_id p)" "by_signal (ml_entries l) k = entry"
  shows "consistent_trace (evaluate_predicate p entry (bp_minimum_score (ml_policy l)))"
    "pr_reason (evaluate_predicate p entry m) = Some g \<Longrightarrow> \<not> gate g"
proof -
  have m: "nonneg_finite (bp_minimum_score (ml_policy l))"
    using assms(1) by (simp add: valid_metric_ledger_def valid_policy_def)
  have "digest_format (evidence_value (me_evidence_id e))" if "entry = Some e" for e
    using valid_ledger_entry(1) [OF assms(1), of e] by_signal_in [of "ml_entries l" k e] that assms(3)
    by (simp add: valid_entry_def)
  with m assms(2) show "consistent_trace (evaluate_predicate p entry (bp_minimum_score (ml_policy l)))"
    by (auto simp: evaluate_predicate_def unknown_result_def Let_def consistent_trace_def ids_ok_def
        split: option.splits bool.splits)
  show "pr_reason (evaluate_predicate p entry m) = Some g \<Longrightarrow> \<not> gate g"
    by (auto simp: evaluate_predicate_def unknown_result_def Let_def gate_def
        split: option.splits bool.splits if_splits)
qed

lemma unknown_result_consistent:
  "nonneg_finite m \<Longrightarrow> \<not> is_blank (mp_predicate_id p) \<Longrightarrow> gate g \<Longrightarrow> consistent_trace (unknown_result p g m None)"
  by (auto simp: consistent_trace_def unknown_result_def ids_ok_def gate_def)

lemma judge_consistent:
  assumes "valid_metric_ledger l" "valid_hypothesis h" "judge_document h l = (reason, ts, v)"
  shows "list_all consistent_trace ts \<and> map pr_predicate_id ts = map mp_predicate_id (hd_predicates h) \<and>
    v = kleene (hd_composition h) (map pr_verdict ts) \<and>
    (case reason of Some g \<Rightarrow> gate g \<and> (\<forall>t \<in> set ts. pr_verdict t = UNKNOWN \<and> pr_reason t = Some g)
     | None \<Rightarrow> (\<forall>t \<in> set ts. \<forall>g. pr_reason t = Some g \<longrightarrow> \<not> gate g))"
proof -
  have h: "hd_predicates h \<noteq> []" "\<forall>p \<in> set (hd_predicates h). \<not> is_blank (mp_predicate_id p)"
    using assms(2) by (auto simp: valid_hypothesis_def list_all_iff)
  have m: "nonneg_finite (bp_minimum_score (ml_policy l))"
    using assms(1) by (simp add: valid_metric_ledger_def valid_policy_def)
  show ?thesis
  proof (cases "context_matches h l \<and> hd_semantics h = DESCRIPTIVE")
    case True
    then have j: "reason = None" "v = compose_results (hd_composition h) ts"
      "ts = map (\<lambda>p. evaluate_predicate p (by_signal (ml_entries l) (mp_signal_key p))
         (bp_minimum_score (ml_policy l))) (hd_predicates h)"
      using judge_evaluated [OF assms(3)] by auto
    have ids: "pr_predicate_id (evaluate_predicate p e m) = mp_predicate_id p" for p e m
      by (auto simp: evaluate_predicate_def unknown_result_def Let_def split: option.splits bool.splits)
    show ?thesis
      using h evaluate_predicate_consistent [OF assms(1)]
      by (auto simp: j list_all_iff metric_composition.compose_spec ids)
  next
    case False
    then obtain g where g: "gate g" "reason = Some g" "v = UNKNOWN"
      "ts = map (\<lambda>p. unknown_result p g (bp_minimum_score (ml_policy l)) None) (hd_predicates h)"
      using assms(3) by (cases "hd_semantics h")
        (auto simp: judge_document_def Let_def gate_def split: if_splits)
    have "kleene (hd_composition h) (map pr_verdict ts) = UNKNOWN"
      using h(1) by (intro kleene_all_unknown) (auto simp: g(4) unknown_result_def)
    then show ?thesis
      using g h m unknown_result_consistent by (auto simp: list_all_iff) (simp_all add: unknown_result_def)
  qed
qed

lemma verify_consistent:
  assumes "verify_hypothesis h ledger = Inr r"
  shows "consistent_result r" "hr_hypothesis_id r = hd_hypothesis_id h"
    "map pr_predicate_id (hr_predicate_results r) = map mp_predicate_id (hd_predicates h)"
proof -
  from verify_hypothesis_Inr [OF assms] obtain l where
    h: "valid_hypothesis h" and l: "validate_metric_evidence_ledger ledger = Inr l"
    and j: "judge_document h l = (hr_reason r, hr_predicate_results r, hr_verdict r)"
    and ids: "hr_supporting_evidence_ids r = concat (map pr_supporting_evidence_ids (hr_predicate_results r))"
      "hr_contradicting_evidence_ids r = concat (map pr_contradicting_evidence_ids (hr_predicate_results r))"
    by blast
  have vh: "validate_hypothesis_document h = Inr h" using h by (simp add: validate_hypothesis_Inr)
  show id: "hr_hypothesis_id r = hd_hypothesis_id h"
    using arg_cong [OF assms, of "\<lambda>x. hr_hypothesis_id (projr x)"] by (simp add: verify_hypothesis_def vh l j)
  have c: "hr_composition r = hd_composition h"
    using arg_cong [OF assms, of "\<lambda>x. hr_composition (projr x)"] by (simp add: verify_hypothesis_def vh l j)
  note jc = judge_consistent [OF validate_Inr(1) [OF l] h j]
  then show "map pr_predicate_id (hr_predicate_results r) = map mp_predicate_id (hd_predicates h)" by simp
  have "hd_predicates h \<noteq> []" "distinct (map mp_predicate_id (hd_predicates h))" "\<not> is_blank (hd_hypothesis_id h)"
    using h by (auto simp: valid_hypothesis_def)
  with jc ids id c show "consistent_result r"
    by (auto simp: consistent_result_def)
qed

section \<open>The text determines the result\<close>

lemma canon_ser_optional [simp]: "canon (ser_optional f v) = ser_optional f v"
  by (cases v) (simp_all add: ser_optional_def)

lemma canon_predicate_object [simp]: "canon (predicate_object t) = predicate_object t"
  unfolding predicate_object_def by (subst canon_sorted) (simp_all add: lit_def)

lemma canon_verification_object: "canon (verification_object r) = verification_object r"
  unfolding verification_object_def
  by (subst canon_sorted) (simp add: lit_def, simp add: comp_def del: canon.simps(2))

lemma predicate_object_inj:
  assumes "consistent_trace a" "consistent_trace b" "predicate_object a = predicate_object b"
  shows "a = b"
proof -
  note eq = assms(3) [unfolded predicate_object_def, simplified]
  have "jids (pr_supporting_evidence_ids a) = jids (pr_supporting_evidence_ids b)"
    "jids (pr_contradicting_evidence_ids a) = jids (pr_contradicting_evidence_ids b)"
    using eq by blast+
  moreover have "pr_minimum_score a = pr_minimum_score b"
    using eq assms(1,2) float_hex_inj by (simp add: consistent_trace_def nonneg_finite_def)
  ultimately show ?thesis using eq by (cases a; cases b) (simp add: jids_inj)
qed

lemma predicate_objects_inj:
  assumes "list_all consistent_trace as" "list_all consistent_trace bs"
    and "map predicate_object as = map predicate_object bs"
  shows "as = bs"
  using assms
proof (induction as arbitrary: bs)
  case (Cons a as)
  then obtain b bs' where b: "bs = b # bs'" by (cases bs) simp_all
  have "a = b" by (rule predicate_object_inj) (use Cons.prems b in simp_all)
  moreover have "as = bs'" by (rule Cons.IH) (use Cons.prems b in simp_all)
  ultimately show ?case using b by simp
qed simp

lemma verification_json_Inr:
  "verification_json r = Inr s \<longleftrightarrow> consistent_result r \<and> s = dumps (verification_object r) @ [10] \<and>
     encodable (dumps (verification_object r))"
  by (auto simp: verification_json_def res_simps ser_verification_Inr canonical_json_Inr)

lemma digest_encodable: "digest_format raw \<Longrightarrow> encodable raw"
proof -
  assume "digest_format raw"
  then have "encodable (take 7 raw @ drop 7 raw)"
    by (auto simp: digest_format_def list_all_iff is_hex_def intro!: encodable_ascii simp del: append_take_drop_id)
  then show "encodable raw" by simp
qed

lemma encodable_values [simp]:
  "encodable (verdict_value v)" "encodable (unknown_reason_value u)" "encodable (composition_value c)"
  "encodable (observed_value d)"
     apply (cases v; simp)
    apply (cases u; simp)
   apply (cases c; simp)
  apply (cases d; simp)
  done

lemma encodable_optional [simp]: "(\<And>x. encodable (f x)) \<Longrightarrow> json_encodable (ser_optional f v)"
  by (cases v) (simp_all add: ser_optional_def)

lemma verification_object_encodable:
  assumes "consistent_result r" "encodable (hr_hypothesis_id r)"
    and "list_all (\<lambda>t. encodable (pr_predicate_id t)) (hr_predicate_results r)"
  shows "json_encodable (verification_object r)"
proof -
  have ids: "json_encodable (JList (jids ids))" if "ids_ok ids" for ids
    using that digest_encodable by (auto simp: ids_ok_def list_all_iff)
  have "json_encodable (predicate_object t)" if "t \<in> set (hr_predicate_results r)" for t
  proof -
    have t: "consistent_trace t" "encodable (pr_predicate_id t)"
      using assms that by (auto simp: consistent_result_def list_all_iff)
    then have "ids_ok (pr_supporting_evidence_ids t)" "ids_ok (pr_contradicting_evidence_ids t)"
      by (simp_all add: consistent_trace_def)
    note ids [OF this(1)] ids [OF this(2)]
    with t(2) show ?thesis by (simp add: predicate_object_def)
  qed
  moreover have "ids_ok (hr_supporting_evidence_ids r)" "ids_ok (hr_contradicting_evidence_ids r)"
    using assms(1) by (auto simp: consistent_result_def ids_ok_def list_all_iff consistent_trace_def)
  moreover note ids [OF this(1)] ids [OF this(2)]
  ultimately show ?thesis
    using assms(2)
    by (simp add: verification_object_def VERIFICATION_SCHEMA_VERSION_def)
qed

section \<open>Properties\<close>

text \<open>
  The report printer is an integrity check: it accepts a verification result exactly
  when the result is internally consistent (the verdict is the Kleene composition of the
  traces, the citations are the traces' citations, every trace's verdict, reason, direction
  and citations agree, and gate reasons appear on all traces or none) and its canonical text
  can be encoded.
\<close>

theorem verification_json_accepts_exactly_consistent:
  "is_ok (verification_json r) \<longleftrightarrow> consistent_result r \<and> encodable (dumps (verification_object r))"
  using verification_json_Inr [of r] by (cases "verification_json r") auto

text \<open>
  Every result of the verifier can be reported: with encodable hypothesis and predicate
  identifiers the printer returns a text for it.
\<close>

theorem verifier_results_print:
  assumes "verify_hypothesis h ledger = Inr r" "encodable (hd_hypothesis_id h)"
    and "list_all (\<lambda>p. encodable (mp_predicate_id p)) (hd_predicates h)"
  shows "verification_json r = Inr (dumps (verification_object r) @ [10])"
proof -
  note v = verify_consistent [OF assms(1)]
  have "set (map pr_predicate_id (hr_predicate_results r)) = set (map mp_predicate_id (hd_predicates h))"
    by (simp only: v(3))
  then have "list_all (\<lambda>t. encodable (pr_predicate_id t)) (hr_predicate_results r)"
    using assms(3) by (auto simp: list_all_iff) (metis imageE imageI)
  with v assms(2) have "json_encodable (verification_object r)"
    by (intro verification_object_encodable) simp_all
  then show ?thesis
    using v(1) by (simp add: verification_json_Inr dumps_def encodable_enc)
qed

theorem verifier_results_print_witness:
  "\<exists>l r. verify_hypothesis (sample_hypothesis DESCRIPTIVE) l = Inr r \<and> is_ok (verification_json r)"
proof -
  obtain l r where "verify_hypothesis (sample_hypothesis DESCRIPTIVE) l = Inr r"
    using sample_verification by blast
  moreover have "encodable (hd_hypothesis_id (sample_hypothesis DESCRIPTIVE))"
    "list_all (\<lambda>p. encodable (mp_predicate_id p)) (hd_predicates (sample_hypothesis DESCRIPTIVE))"
    by (simp_all add: sample_hypothesis_def sample_predicate_def)
  ultimately show ?thesis using verifier_results_print by (metis is_ok_simps(1))
qed

text \<open>
  C18. A report text determines the verification result it was printed from.
\<close>

theorem verification_json_determines_result:
  assumes "verification_json q = Inr s" "verification_json r = Inr s"
  shows "q = r"
proof -
  from assms have c: "consistent_result q" "consistent_result r"
    and "dumps (verification_object q) = dumps (verification_object r)"
    by (auto simp: verification_json_Inr)
  then have "verification_object q = verification_object r"
    using dumps_inj canon_verification_object by metis
  note eq = this [unfolded verification_object_def, simplified]
  have "hr_predicate_results q = hr_predicate_results r"
    using predicate_objects_inj c eq by (simp add: consistent_result_def)
  moreover have "hr_supporting_evidence_ids q = hr_supporting_evidence_ids r"
    "hr_contradicting_evidence_ids q = hr_contradicting_evidence_ids r"
    using c calculation by (simp_all add: consistent_result_def)
  ultimately show ?thesis using eq by (cases q; cases r) simp
qed

theorem verification_json_determines_result_witness:
  "\<exists>l r s. verify_hypothesis (sample_hypothesis DESCRIPTIVE) l = Inr r \<and> verification_json r = Inr s \<and>
     (\<forall>q. verification_json q = verification_json r \<longrightarrow> q = r)"
proof -
  obtain l r where v: "verify_hypothesis (sample_hypothesis DESCRIPTIVE) l = Inr r"
    using sample_verification by blast
  have "json_encodable (verification_object r)"
    by (rule verification_object_encodable [OF verify_consistent(1) [OF v]])
      (use verify_consistent(2,3) [OF v] in \<open>auto simp: sample_hypothesis_def sample_predicate_def\<close>)
  then have "verification_json r = Inr (dumps (verification_object r) @ [10])"
    using verify_consistent(1) [OF v] by (simp add: verification_json_Inr dumps_def encodable_enc)
  with v verification_json_determines_result show ?thesis by metis
qed

end
