(* ===== verification/Change_Ledger.thy ===== *)
theory Change_Ledger
  imports Evidence_Compile
begin

text \<open>
  \<^verbatim>\<open>domain/changes.py\<close> and \<^verbatim>\<open>domain/change_evidence.py\<close>: change events, the canonically
  ordered change log, and the change-event ledger that classifies each event against the
  incident window and binds it to a content identifier. The ledger uses the interface
  \<open>content_address\<close> with its own domain prefix.
\<close>

section \<open>Events and logs\<close>

definition MAX_CHANGE_EVENTS :: nat where
  "MAX_CHANGE_EVENTS = 512"

datatype change_kind = DEPLOYMENT | CONFIGURATION | ROLLBACK | SCALING | FEATURE_FLAG

fun change_kind_value :: "change_kind \<Rightarrow> pystr" where
  "change_kind_value DEPLOYMENT = lit ''deployment''"
| "change_kind_value CONFIGURATION = lit ''configuration''"
| "change_kind_value ROLLBACK = lit ''rollback''"
| "change_kind_value SCALING = lit ''scaling''"
| "change_kind_value FEATURE_FLAG = lit ''feature_flag''"

datatype change_event_key = ChangeEventKey (event_key_value: pystr)

definition make_change_event_key :: "pyval \<Rightarrow> domain_error + change_event_key" where
  "make_change_event_key v =
     (case v of PyStr s \<Rightarrow> if is_blank s then Inl InvalidChangeEventError else Inr (ChangeEventKey s)
      | _ \<Rightarrow> Inl InvalidChangeEventError)"

record change_event =
  ce_event_key :: change_event_key
  ce_kind :: change_kind
  ce_occurred_at :: int

definition make_change_event ::
  "change_event_key \<Rightarrow> change_kind \<Rightarrow> pydatetime \<Rightarrow> domain_error + change_event" where
  "make_change_event key kind occurred_at =
     rbind (to_utc occurred_at) (\<lambda>t. Inr \<lparr>ce_event_key = key, ce_kind = kind, ce_occurred_at = t\<rparr>)"

definition change_identity :: "change_event \<Rightarrow> pystr \<times> pystr \<times> int" where
  "change_identity e = (event_key_value (ce_event_key e), change_kind_value (ce_kind e), ce_occurred_at e)"

definition order_key :: "change_event \<Rightarrow> int \<times> pystr \<times> pystr" where
  "order_key e = (ce_occurred_at e, change_kind_value (ce_kind e), event_key_value (ce_event_key e))"

definition make_change_event_log :: "change_event list \<Rightarrow> domain_error + change_event list" where
  "make_change_event_log events =
     (if length events > MAX_CHANGE_EVENTS then Inl InvalidChangeEventError
      else if \<not> distinct (map change_identity events) then Inl InvalidChangeEventError
      else Inr (sort_key order_key events))"

section \<open>The ledger\<close>

definition CHANGE_SCHEMA_VERSION :: pystr where
  "CHANGE_SCHEMA_VERSION = lit ''change-event-ledger.v1''"

definition CHANGE_ID_DOMAIN :: pystr where
  "CHANGE_ID_DOMAIN = lit ''incident-evidence-compiler.change-event-evidence.v1''"

datatype change_phase = BEFORE_WINDOW | PRE_INJECTION | POST_INJECTION | AFTER_WINDOW

fun change_phase_value :: "change_phase \<Rightarrow> pystr" where
  "change_phase_value BEFORE_WINDOW = lit ''before_window''"
| "change_phase_value PRE_INJECTION = lit ''pre_injection''"
| "change_phase_value POST_INJECTION = lit ''post_injection''"
| "change_phase_value AFTER_WINDOW = lit ''after_window''"

record change_event_evidence =
  cv_evidence_id :: evidence_id
  cv_event_key :: change_event_key
  cv_kind :: change_kind
  cv_occurred_at :: int
  cv_phase :: change_phase

record change_event_ledger =
  cl_schema_version :: pystr
  cl_tenant_id :: tenant_id
  cl_incident_id :: incident_id
  cl_run_id :: run_id
  cl_window :: incident_window
  cl_entries :: "change_event_evidence list"

abbreviation invalid_change :: "domain_error + 'a" where
  "invalid_change \<equiv> Inl InvalidChangeEventLedgerError"

definition change_identifier_of :: "(pystr \<Rightarrow> 'i) \<Rightarrow> pystr \<Rightarrow> domain_error + 'i" where
  "change_identifier_of expected_type v = (if is_blank v then invalid_change else Inr (expected_type v))"

definition change_window_of :: "incident_window \<Rightarrow> domain_error + incident_window" where
  "change_window_of w =
     (if \<not> (win_start w \<le> win_injection w \<and> win_injection w < win_end w) then invalid_change
      else case make_incident_window (utc (win_start w)) (utc (win_injection w)) (utc (win_end w)) of
             Inl _ \<Rightarrow> invalid_change | Inr v \<Rightarrow> Inr v)"

definition event_key_of :: "change_event_key \<Rightarrow> domain_error + change_event_key" where
  "event_key_of k = (if is_blank (event_key_value k) then invalid_change
                     else Inr (ChangeEventKey (event_key_value k)))"

definition occurred_at_of :: "int \<Rightarrow> domain_error + int" where
  "occurred_at_of t = (case to_utc (utc t) of Inl _ \<Rightarrow> invalid_change | Inr u \<Rightarrow> Inr u)"

definition phase_of :: "int \<Rightarrow> incident_window \<Rightarrow> change_phase" where
  "phase_of occurred_at w =
     (if occurred_at < win_start w then BEFORE_WINDOW
      else if occurred_at < win_injection w then PRE_INJECTION
      else if occurred_at < win_end w then POST_INJECTION
      else AFTER_WINDOW)"

record change_context =
  cc_tenant_id :: tenant_id
  cc_incident_id :: incident_id
  cc_run_id :: run_id
  cc_window :: incident_window
  cc_event :: change_event
  cc_phase :: change_phase

definition change_entry_payload :: "change_context \<Rightarrow> json" where
  "change_entry_payload c = JObj
     [(lit ''event_key'', JStr (event_key_value (ce_event_key (cc_event c)))),
      (lit ''incident_id'', JStr (incident_value (cc_incident_id c))),
      (lit ''incident_window'', JObj
        [(lit ''end'', JStr (timestamp (win_end (cc_window c)))),
         (lit ''injection'', JStr (timestamp (win_injection (cc_window c)))),
         (lit ''start'', JStr (timestamp (win_start (cc_window c))))]),
      (lit ''kind'', JStr (change_kind_value (ce_kind (cc_event c)))),
      (lit ''occurred_at'', JStr (timestamp (ce_occurred_at (cc_event c)))),
      (lit ''phase'', JStr (change_phase_value (cc_phase c))),
      (lit ''run_id'', JStr (run_value (cc_run_id c))),
      (lit ''schema_version'', JStr CHANGE_SCHEMA_VERSION),
      (lit ''tenant_id'', JStr (tenant_value (cc_tenant_id c)))]"

definition change_evidence_id_of :: "json \<Rightarrow> domain_error + evidence_id" where
  "change_evidence_id_of payload =
     (case content_id CHANGE_ID_DOMAIN payload of None \<Rightarrow> invalid_change | Some i \<Rightarrow> Inr (EvidenceId i))"

definition change_evidence_identifier :: "evidence_id \<Rightarrow> domain_error + evidence_id" where
  "change_evidence_identifier v =
     (let (pre, separator, digest) = partition_colon (evidence_value v) in
      if \<not> separator \<or> pre \<noteq> lit ''sha256'' \<or> length digest \<noteq> 64 \<or>
         digest \<noteq> map ascii_lower digest \<or>
         list_ex (\<lambda>c. c \<notin> set (lit ''0123456789abcdef'')) digest
      then invalid_change else Inr (EvidenceId (evidence_value v)))"

definition build_entry ::
  "tenant_id \<Rightarrow> incident_id \<Rightarrow> run_id \<Rightarrow> incident_window \<Rightarrow> change_event
     \<Rightarrow> domain_error + change_event_evidence" where
  "build_entry tenant incident run window event =
     rbind (event_key_of (ce_event_key event)) (\<lambda>key.
     rbind (occurred_at_of (ce_occurred_at event)) (\<lambda>t.
     let phase = phase_of t window in
     rbind (change_evidence_id_of (change_entry_payload \<lparr>cc_tenant_id = tenant,
              cc_incident_id = incident, cc_run_id = run, cc_window = window,
              cc_event = \<lparr>ce_event_key = key, ce_kind = ce_kind event, ce_occurred_at = t\<rparr>,
              cc_phase = phase\<rparr>)) (\<lambda>i.
       Inr \<lparr>cv_evidence_id = i, cv_event_key = key, cv_kind = ce_kind event, cv_occurred_at = t,
            cv_phase = phase\<rparr>)))"

definition build_entries ::
  "tenant_id \<Rightarrow> incident_id \<Rightarrow> run_id \<Rightarrow> incident_window \<Rightarrow> change_event list
     \<Rightarrow> domain_error + change_event_evidence list" where
  "build_entries tenant incident run window events =
     rmap (build_entry tenant incident run window) (sort_key order_key events)"

text \<open>\<^verbatim>\<open>_change_log\<close>: every failure is the one ledger error, so the order of the checks is immaterial.\<close>

definition change_log_of :: "change_event list \<Rightarrow> domain_error + change_event list" where
  "change_log_of events =
     (if length events > MAX_CHANGE_EVENTS then invalid_change
      else rbind (rmap (\<lambda>e. rbind (event_key_of (ce_event_key e)) (\<lambda>key.
                            rbind (occurred_at_of (ce_occurred_at e)) (\<lambda>t.
                              Inr \<lparr>ce_event_key = key, ce_kind = ce_kind e, ce_occurred_at = t\<rparr>))) events)
        (\<lambda>reconstructed.
           if \<not> distinct (map change_identity reconstructed) then invalid_change
           else Inr reconstructed))"

definition check_change_entry ::
  "incident_window \<Rightarrow> change_event_evidence \<Rightarrow> domain_error + evidence_id \<times> change_event" where
  "check_change_entry window entry =
     rbind (change_evidence_identifier (cv_evidence_id entry)) (\<lambda>i.
     rbind (event_key_of (cv_event_key entry)) (\<lambda>key.
     rbind (occurred_at_of (cv_occurred_at entry)) (\<lambda>t.
     if cv_phase entry \<noteq> phase_of t window then invalid_change
     else Inr (i, \<lparr>ce_event_key = key, ce_kind = cv_kind entry, ce_occurred_at = t\<rparr>))))"

definition validate_change_event_ledger ::
  "change_event_ledger \<Rightarrow> domain_error + change_event_ledger" where
  "validate_change_event_ledger v =
     (if cl_schema_version v \<noteq> CHANGE_SCHEMA_VERSION then invalid_change
      else
        rbind (change_identifier_of TenantId (tenant_value (cl_tenant_id v))) (\<lambda>tenant.
        rbind (change_identifier_of IncidentId (incident_value (cl_incident_id v))) (\<lambda>incident.
        rbind (change_identifier_of RunId (run_value (cl_run_id v))) (\<lambda>run.
        rbind (change_window_of (cl_window v)) (\<lambda>window.
        rbind (rmap (check_change_entry window) (cl_entries v)) (\<lambda>checked.
        let reconstructed = map snd checked in
        if \<not> distinct (map change_identity reconstructed) then invalid_change
        else if map order_key reconstructed \<noteq> map order_key (sort_key order_key reconstructed)
        then invalid_change
        else rbind (build_entries tenant incident run window reconstructed) (\<lambda>entries.
          if map (\<lambda>e. evidence_value (cv_evidence_id e)) entries \<noteq>
             map (\<lambda>c. evidence_value (fst c)) checked then invalid_change
          else Inr \<lparr>cl_schema_version = CHANGE_SCHEMA_VERSION, cl_tenant_id = tenant,
                 cl_incident_id = incident, cl_run_id = run, cl_window = window,
                 cl_entries = entries\<rparr>)))))))"

definition compile_change_event_ledger ::
  "tenant_id \<Rightarrow> incident_id \<Rightarrow> run_id \<Rightarrow> incident_window \<Rightarrow> change_event list
     \<Rightarrow> domain_error + change_event_ledger" where
  "compile_change_event_ledger tenant_id incident_id run_id window change_log =
     rbind (change_identifier_of TenantId (tenant_value tenant_id)) (\<lambda>tenant.
     rbind (change_identifier_of IncidentId (incident_value incident_id)) (\<lambda>incident.
     rbind (change_identifier_of RunId (run_value run_id)) (\<lambda>run.
     rbind (change_window_of window) (\<lambda>window.
     rbind (change_log_of change_log) (\<lambda>events.
     rbind (build_entries tenant incident run window events) (\<lambda>entries.
       validate_change_event_ledger \<lparr>cl_schema_version = CHANGE_SCHEMA_VERSION,
         cl_tenant_id = tenant, cl_incident_id = incident, cl_run_id = run, cl_window = window,
         cl_entries = entries\<rparr>))))))"

section \<open>Order and acceptance\<close>

interpretation change_log: canonical_order order_key .

lemma change_kind_value_inj: "change_kind_value a = change_kind_value b \<longleftrightarrow> a = b"
  by (cases a; cases b) simp_all

lemma change_phase_value_inj: "change_phase_value a = change_phase_value b \<longleftrightarrow> a = b"
  by (cases a; cases b) simp_all

lemma order_key_inj: "order_key a = order_key b \<Longrightarrow> a = b"
  by (cases a; cases b) (auto simp: order_key_def change_kind_value_inj intro: change_event_key.expand)

lemma identity_order: "change_identity a = change_identity b \<longleftrightarrow> order_key a = order_key b"
  by (auto simp: change_identity_def order_key_def)

lemma distinct_identity: "distinct (map change_identity es) \<longleftrightarrow> distinct (map order_key es)"
  by (induction es) (auto simp: identity_order)

lemma change_identifier_Inr [parse_simps]:
  "change_identifier_of f v = Inr i \<longleftrightarrow> i = f v \<and> \<not> is_blank v"
  by (auto simp: change_identifier_of_def)

lemma change_window_Inr [parse_simps]: "change_window_of w = Inr v \<longleftrightarrow> v = w \<and> valid_window w"
  using window_of_Inr [of w v]
  by (auto simp: change_window_of_def window_of_def split: sum.splits if_splits)

lemma event_key_of_Inr [parse_simps]:
  "event_key_of k = Inr l \<longleftrightarrow> l = k \<and> \<not> is_blank (event_key_value k)"
  by (auto simp: event_key_of_def)

lemma occurred_at_of_Inr [parse_simps]: "occurred_at_of t = Inr u \<longleftrightarrow> u = t \<and> in_calendar t"
  by (auto simp: occurred_at_of_def utc_def)

lemma change_evidence_identifier_Inr [parse_simps]:
  "change_evidence_identifier v = Inr i \<longleftrightarrow> i = v \<and> digest_format (evidence_value v)"
  using evidence_identifier_Inr [of v i]
  by (auto simp: change_evidence_identifier_def evidence_identifier_def Let_def
      split: prod.splits if_splits)

definition valid_change_event :: "change_event \<Rightarrow> bool" where
  "valid_change_event e \<longleftrightarrow> \<not> is_blank (event_key_value (ce_event_key e)) \<and> in_calendar (ce_occurred_at e)"

lemma rebuild_event:
  "rbind (event_key_of (ce_event_key e)) (\<lambda>key. rbind (occurred_at_of (ce_occurred_at e)) (\<lambda>t.
     Inr \<lparr>ce_event_key = key, ce_kind = ce_kind e, ce_occurred_at = t\<rparr>)) = Inr g \<longleftrightarrow>
   g = e \<and> valid_change_event e"
  by (cases e) (auto simp: res_simps event_key_of_Inr occurred_at_of_Inr valid_change_event_def)

lemma rmap_rebuild:
  "(\<And>e g. f e = Inr g \<longleftrightarrow> g = e \<and> P e) \<Longrightarrow> rmap f es = Inr gs \<longleftrightarrow> gs = es \<and> list_all P es"
  by (induction es arbitrary: gs) (auto simp: rbind_eq_Inr)

lemma change_log_of_Inr [parse_simps]:
  "change_log_of es = Inr fs \<longleftrightarrow> fs = es \<and> length es \<le> MAX_CHANGE_EVENTS \<and>
     list_all valid_change_event es \<and> distinct (map order_key es)"
  unfolding change_log_of_def rmap_rebuild [OF rebuild_event] rbind_eq_Inr
  by (auto simp: rbind_eq_Inr rmap_rebuild [OF rebuild_event] distinct_identity)

text \<open>The event an entry records.\<close>

definition entry_event :: "change_event_evidence \<Rightarrow> change_event" where
  "entry_event e = \<lparr>ce_event_key = cv_event_key e, ce_kind = cv_kind e, ce_occurred_at = cv_occurred_at e\<rparr>"

lemma check_change_entry_Inr [parse_simps]:
  "check_change_entry w e = Inr r \<longleftrightarrow> r = (cv_evidence_id e, entry_event e) \<and>
     digest_format (evidence_value (cv_evidence_id e)) \<and> valid_change_event (entry_event e) \<and>
     cv_phase e = phase_of (cv_occurred_at e) w"
  by (auto simp: check_change_entry_def res_simps parse_simps entry_event_def valid_change_event_def)

lemma build_entry_Inr:
  "build_entry t i r w e = Inr x \<longleftrightarrow> valid_change_event e \<and>
     (\<exists>d. change_evidence_id_of (change_entry_payload \<lparr>cc_tenant_id = t, cc_incident_id = i, cc_run_id = r,
           cc_window = w, cc_event = e, cc_phase = phase_of (ce_occurred_at e) w\<rparr>) = Inr d \<and>
        x = \<lparr>cv_evidence_id = d, cv_event_key = ce_event_key e, cv_kind = ce_kind e,
             cv_occurred_at = ce_occurred_at e, cv_phase = phase_of (ce_occurred_at e) w\<rparr>)"
  by (cases e) (auto simp: build_entry_def res_simps parse_simps Let_def valid_change_event_def)

lemma change_evidence_id_format: "change_evidence_id_of j = Inr i \<Longrightarrow> digest_format (evidence_value i)"
  by (auto simp: change_evidence_id_of_def dest: content_id_format split: option.splits)

lemma build_entry_checks:
  assumes "build_entry t i r w e = Inr x"
  shows "entry_event x = e" "check_change_entry w x = Inr (cv_evidence_id x, e)"
proof -
  show e: "entry_event x = e" using assms by (auto simp: build_entry_Inr entry_event_def)
  show "check_change_entry w x = Inr (cv_evidence_id x, e)"
    using assms e change_evidence_id_format
    unfolding check_change_entry_Inr build_entry_Inr by (elim conjE exE) simp
qed

lemma build_entry_phase:
  "build_entry t i r w e = Inr x \<Longrightarrow> cv_phase x = phase_of (cv_occurred_at x) w"
  by (auto simp: build_entry_Inr)

section \<open>The ledger invariant\<close>

definition valid_change_ledger :: "change_event_ledger \<Rightarrow> bool" where
  "valid_change_ledger l \<longleftrightarrow>
     cl_schema_version l = CHANGE_SCHEMA_VERSION \<and>
     \<not> is_blank (tenant_value (cl_tenant_id l)) \<and> \<not> is_blank (incident_value (cl_incident_id l)) \<and>
     \<not> is_blank (run_value (cl_run_id l)) \<and> valid_window (cl_window l) \<and>
     sorted_wrt (<) (map order_key (map entry_event (cl_entries l))) \<and>
     rmap (build_entry (cl_tenant_id l) (cl_incident_id l) (cl_run_id l) (cl_window l))
       (map entry_event (cl_entries l)) = Inr (cl_entries l)"

lemma rmap_check_change:
  "rmap (check_change_entry w) es = Inr rs \<Longrightarrow> rs = map (\<lambda>e. (cv_evidence_id e, entry_event e)) es"
  by (induction es arbitrary: rs) (auto simp: res_simps parse_simps)

lemma rmap_build_checks:
  assumes "rmap (build_entry t i r w) es = Inr xs"
  shows "map entry_event xs = es \<and> rmap (check_change_entry w) xs = Inr (map (\<lambda>e. (cv_evidence_id e, entry_event e)) xs)"
  using assms by (induction es arbitrary: xs) (auto simp: res_simps build_entry_checks)

lemma sorted_same_order_keys:
  "map order_key es = map order_key (sort_key order_key es) \<Longrightarrow> sort_key order_key es = es"
  by (metis sort_key_id_if_sorted sorted_sort_key)

lemma validate_valid_change_ledger:
  assumes "valid_change_ledger l"
  shows "validate_change_event_ledger l = Inr l"
proof -
  note v = assms [unfolded valid_change_ledger_def]
  let ?es = "map entry_event (cl_entries l)"
  have checked: "rmap (check_change_entry (cl_window l)) (cl_entries l) =
      Inr (map (\<lambda>e. (cv_evidence_id e, entry_event e)) (cl_entries l))"
    using v rmap_build_checks by blast
  have s: "map snd (map (\<lambda>e. (cv_evidence_id e, entry_event e)) (cl_entries l)) = ?es"
    by simp
  have sorted: "sort_key order_key ?es = ?es" "distinct (map order_key ?es)"
    using v by (simp_all add: strict_sorted_iff sort_key_id_if_sorted)
  have idents: "change_identifier_of TenantId (tenant_value (cl_tenant_id l)) = Inr (cl_tenant_id l)"
    "change_identifier_of IncidentId (incident_value (cl_incident_id l)) = Inr (cl_incident_id l)"
    "change_identifier_of RunId (run_value (cl_run_id l)) = Inr (cl_run_id l)"
    "change_window_of (cl_window l) = Inr (cl_window l)"
    using v by (simp_all add: parse_simps)
  have b: "build_entries (cl_tenant_id l) (cl_incident_id l) (cl_run_id l) (cl_window l) ?es = Inr (cl_entries l)"
    using v by (simp add: build_entries_def sorted)
  show ?thesis
    unfolding validate_change_event_ledger_def idents checked rbind_simps Let_def s distinct_identity
      sorted b
    using v sorted(2) by (simp add: comp_def)
qed

lemma entries_eqI:
  assumes "map cv_evidence_id xs = map cv_evidence_id ys" "map entry_event xs = map entry_event ys"
    and "\<forall>x \<in> set xs. cv_phase x = phase_of (cv_occurred_at x) w"
    and "\<forall>y \<in> set ys. cv_phase y = phase_of (cv_occurred_at y) w"
  shows "xs = ys"
  using assms
proof (induction xs arbitrary: ys)
  case (Cons x xs)
  then obtain y zs where ys: "ys = y # zs" by (cases ys) auto
  have "x = y" using Cons.prems ys by (cases x; cases y) (simp add: entry_event_def)
  moreover have "xs = zs" using Cons ys by simp
  ultimately show ?case by (simp add: ys)
qed simp

lemma validate_change_Inr:
  assumes "validate_change_event_ledger v = Inr l"
  shows "l = v" "valid_change_ledger v"
proof -
  let ?pairs = "map (\<lambda>e. (cv_evidence_id e, entry_event e)) (cl_entries v)"
  let ?es = "map entry_event (cl_entries v)"
  have es: "map snd ?pairs = ?es" by simp
  from assms obtain checked entries where
    schema: "cl_schema_version v = CHANGE_SCHEMA_VERSION"
    and ids: "\<not> is_blank (tenant_value (cl_tenant_id v))" "\<not> is_blank (incident_value (cl_incident_id v))"
      "\<not> is_blank (run_value (cl_run_id v))" "valid_window (cl_window v)"
    and chk: "rmap (check_change_entry (cl_window v)) (cl_entries v) = Inr checked"
    and d: "distinct (map change_identity (map snd checked))"
    and o: "map order_key (map snd checked) = map order_key (sort_key order_key (map snd checked))"
    and b: "build_entries (cl_tenant_id v) (cl_incident_id v) (cl_run_id v) (cl_window v) (map snd checked) = Inr entries"
    and same: "map (\<lambda>e. evidence_value (cv_evidence_id e)) entries = map (\<lambda>c. evidence_value (fst c)) checked"
    and l: "l = v \<lparr>cl_entries := entries\<rparr>"
    unfolding validate_change_event_ledger_def
    by (auto simp: res_simps parse_simps Let_def simp del: list.map_comp map_map)
  note c = rmap_check_change [OF chk]
  have ms: "map snd checked = ?es" using c by simp
  have so: "sort_key order_key ?es = ?es" using sorted_same_order_keys o ms by metis
  have strict: "sorted_wrt (<) (map order_key ?es)"
    using change_log.canon_strict [of ?es] d ms so distinct_identity by metis
  have b': "rmap (build_entry (cl_tenant_id v) (cl_incident_id v) (cl_run_id v) (cl_window v)) ?es = Inr entries"
    using b unfolding ms build_entries_def so .
  have "entries = cl_entries v"
  proof (rule entries_eqI [where w = "cl_window v"])
    have "map evidence_value (map cv_evidence_id entries) = map evidence_value (map cv_evidence_id (cl_entries v))"
      using same c by (simp add: comp_def)
    moreover have "inj evidence_value" by (auto simp: inj_def intro: evidence_id.expand)
    ultimately show "map cv_evidence_id entries = map cv_evidence_id (cl_entries v)"
      by (simp only: inj_map_eq_map)
    show "map entry_event entries = ?es" using rmap_build_checks [OF b'] by blast
    show "\<forall>x \<in> set entries. cv_phase x = phase_of (cv_occurred_at x) (cl_window v)"
      using rmap_Inr_in [OF b'] build_entry_phase by blast
    show "\<forall>y \<in> set (cl_entries v). cv_phase y = phase_of (cv_occurred_at y) (cl_window v)"
      using rmap_Inr_in_dom [OF chk] by (auto simp: check_change_entry_Inr)
  qed
  with schema ids strict b' l show "l = v" "valid_change_ledger v"
    by (simp_all add: valid_change_ledger_def)
qed

lemma compile_change_Inr:
  assumes "compile_change_event_ledger t i r w es = Inr l"
  shows "valid_change_ledger l" "map entry_event (cl_entries l) = sort_key order_key es"
    "cl_tenant_id l = t" "cl_incident_id l = i" "cl_run_id l = r" "cl_window l = w"
proof -
  from assms obtain entries where
    entries: "build_entries t i r w es = Inr entries"
    and v: "validate_change_event_ledger \<lparr>cl_schema_version = CHANGE_SCHEMA_VERSION, cl_tenant_id = t,
         cl_incident_id = i, cl_run_id = r, cl_window = w, cl_entries = entries\<rparr> = Inr l"
    by (auto simp: compile_change_event_ledger_def res_simps parse_simps)
  note l = validate_change_Inr [OF v]
  show "valid_change_ledger l" using l by simp
  show "map entry_event (cl_entries l) = sort_key order_key es"
    using rmap_build_checks [OF entries [unfolded build_entries_def]] l(1) by simp
  show "cl_tenant_id l = t" "cl_incident_id l = i" "cl_run_id l = r" "cl_window l = w"
    using l(1) by simp_all
qed

section \<open>Identifiers\<close>

lemma canon_change_payload: "canon (change_entry_payload c) = change_entry_payload c"
proof -
  have w: "canon (JObj [(lit ''end'', JStr a), (lit ''injection'', JStr b), (lit ''start'', JStr d)]) =
      JObj [(lit ''end'', JStr a), (lit ''injection'', JStr b), (lit ''start'', JStr d)]" for a b d
    by (subst canon_sorted) (simp_all add: lit_def)
  show ?thesis
    unfolding change_entry_payload_def
    by (subst canon_sorted) (simp add: lit_def, simp add: w del: canon.simps(2))
qed

definition wf_change_context :: "change_context \<Rightarrow> bool" where
  "wf_change_context c \<longleftrightarrow> valid_window (cc_window c) \<and> in_calendar (ce_occurred_at (cc_event c))"

interpretation change_id: content_address CHANGE_ID_DOMAIN change_entry_payload wf_change_context
proof unfold_locales
  fix a b assume wf: "wf_change_context a" "wf_change_context b"
    and "canon (change_entry_payload a) = canon (change_entry_payload b)"
  then have eq: "change_entry_payload a = change_entry_payload b" by (simp add: canon_change_payload)
  have "cc_window a = cc_window b"
    using eq wf timestamp_inj
    by (cases "cc_window a"; cases "cc_window b")
      (simp add: change_entry_payload_def wf_change_context_def valid_window_def)
  moreover have "cc_event a = cc_event b"
    using eq wf timestamp_inj
    by (cases "cc_event a"; cases "cc_event b")
      (auto simp: change_entry_payload_def wf_change_context_def change_kind_value_inj
        intro: change_event_key.expand)
  moreover have "cc_tenant_id a = cc_tenant_id b" "cc_incident_id a = cc_incident_id b"
    "cc_run_id a = cc_run_id b" "cc_phase a = cc_phase b"
    using eq by (auto simp: change_entry_payload_def change_phase_value_inj
        intro: tenant_id.expand incident_id.expand run_id.expand)
  ultimately show "a = b" by (cases a; cases b) simp
qed

definition change_context_of :: "change_event_ledger \<Rightarrow> change_event_evidence \<Rightarrow> change_context" where
  "change_context_of l e = \<lparr>cc_tenant_id = cl_tenant_id l, cc_incident_id = cl_incident_id l,
     cc_run_id = cl_run_id l, cc_window = cl_window l, cc_event = entry_event e, cc_phase = cv_phase e\<rparr>"

lemma valid_change_entry:
  assumes "valid_change_ledger l" "e \<in> set (cl_entries l)"
  shows "wf_change_context (change_context_of l e)" "cv_phase e = phase_of (cv_occurred_at e) (cl_window l)"
    "content_id CHANGE_ID_DOMAIN (change_entry_payload (change_context_of l e)) = Some (evidence_value (cv_evidence_id e))"
proof -
  note v = assms(1) [unfolded valid_change_ledger_def]
  then have "rmap (build_entry (cl_tenant_id l) (cl_incident_id l) (cl_run_id l) (cl_window l))
      (map entry_event (cl_entries l)) = Inr (cl_entries l)" by simp
  from rmap_Inr_in [OF this assms(2)] obtain x where
    x: "build_entry (cl_tenant_id l) (cl_incident_id l) (cl_run_id l) (cl_window l) x = Inr e" by blast
  have ev: "x = entry_event e" using build_entry_checks(1) [OF x] by simp
  show ph: "cv_phase e = phase_of (cv_occurred_at e) (cl_window l)" by (rule build_entry_phase [OF x])
  have "valid_change_event (entry_event e)" using x ev by (simp add: build_entry_Inr)
  then show "wf_change_context (change_context_of l e)"
    using v by (simp add: wf_change_context_def change_context_of_def valid_change_event_def)
  obtain d where d: "change_evidence_id_of (change_entry_payload \<lparr>cc_tenant_id = cl_tenant_id l,
      cc_incident_id = cl_incident_id l, cc_run_id = cl_run_id l, cc_window = cl_window l, cc_event = x,
      cc_phase = phase_of (ce_occurred_at x) (cl_window l)\<rparr>) = Inr d" "cv_evidence_id e = d"
    using x unfolding build_entry_Inr by auto
  have "change_context_of l e = \<lparr>cc_tenant_id = cl_tenant_id l, cc_incident_id = cl_incident_id l,
      cc_run_id = cl_run_id l, cc_window = cl_window l, cc_event = x,
      cc_phase = phase_of (ce_occurred_at x) (cl_window l)\<rparr>"
    using ph by (simp add: change_context_of_def ev entry_event_def)
  with d show "content_id CHANGE_ID_DOMAIN (change_entry_payload (change_context_of l e)) =
      Some (evidence_value (cv_evidence_id e))"
    by (cases d) (auto simp: change_evidence_id_of_def split: option.splits)
qed

section \<open>Compilation is total\<close>

lemma change_payload_encodable:
  assumes "list_all encodable [tenant_value (cc_tenant_id c), incident_value (cc_incident_id c),
      run_value (cc_run_id c), event_key_value (ce_event_key (cc_event c))]"
  shows "json_encodable (canon (change_entry_payload c))"
proof -
  have "encodable (change_kind_value k)" "encodable (change_phase_value p)" for k p
    by (cases k; simp) (cases p; simp)
  with assms show ?thesis
    unfolding canon_change_payload by (simp add: change_entry_payload_def CHANGE_SCHEMA_VERSION_def)
qed

lemma compile_change_total:
  assumes "valid_window w" "length es \<le> MAX_CHANGE_EVENTS" "distinct (map order_key es)"
    and "list_all (\<lambda>e. valid_change_event e \<and> encodable (event_key_value (ce_event_key e))) es"
    and "list_all (\<lambda>s. \<not> is_blank s \<and> encodable s) [tenant_value t, incident_value i, run_value r]"
  shows "\<exists>l. compile_change_event_ledger t i r w es = Inr l"
proof -
  let ?s = "sort_key order_key es"
  have "\<exists>x. build_entry t i r w e = Inr x" if "e \<in> set ?s" for e
  proof -
    let ?c = "\<lparr>cc_tenant_id = t, cc_incident_id = i, cc_run_id = r, cc_window = w, cc_event = e,
        cc_phase = phase_of (ce_occurred_at e) w\<rparr>"
    have v: "valid_change_event e" "encodable (event_key_value (ce_event_key e))"
      using that assms(4) by (auto simp: list_all_iff)
    then have "json_encodable (canon (change_entry_payload ?c))"
      using assms(5) by (intro change_payload_encodable) simp
    then have "encodable (dumps (change_entry_payload ?c))" by (simp add: dumps_def encodable_enc)
    then obtain b where "utf8 (dumps (change_entry_payload ?c)) = Some b" using utf8_encodable by blast
    then have "\<exists>d. change_evidence_id_of (change_entry_payload ?c) = Inr d"
      by (simp add: change_evidence_id_of_def content_id_def content_message_def)
    with v(1) show ?thesis by (auto simp: build_entry_Inr)
  qed
  then obtain entries where entries: "rmap (build_entry t i r w) ?s = Inr entries"
    using rmap_total by blast
  let ?l = "\<lparr>cl_schema_version = CHANGE_SCHEMA_VERSION, cl_tenant_id = t, cl_incident_id = i,
      cl_run_id = r, cl_window = w, cl_entries = entries\<rparr>"
  have ev: "map entry_event entries = ?s" using rmap_build_checks [OF entries] by blast
  have "valid_change_ledger ?l"
    using assms(1,5) entries ev change_log.canon_strict [OF assms(3)]
    by (simp add: valid_change_ledger_def del: map_map)
  note v = validate_valid_change_ledger [OF this]
  have idents: "change_identifier_of TenantId (tenant_value t) = Inr t"
    "change_identifier_of IncidentId (incident_value i) = Inr i"
    "change_identifier_of RunId (run_value r) = Inr r" "change_window_of w = Inr w"
    using assms(1,5) by (simp_all add: parse_simps)
  have "change_log_of es = Inr es"
    using assms(2-4) by (simp add: change_log_of_Inr list_all_iff)
  then show ?thesis
    unfolding compile_change_event_ledger_def idents
    by (simp add: idents build_entries_def entries v)
qed

section \<open>Properties\<close>

text \<open>
  A change log is canonical: it does not depend on the order the events are given in,
  and a log that is accepted is strictly ordered by time, kind and key and holds exactly the
  given events.
\<close>

theorem change_log_is_canonical:
  assumes "make_change_event_log events = Inr ordered" "mset events = mset events'"
  shows "make_change_event_log events' = Inr ordered \<and> sorted_wrt (<) (map order_key ordered) \<and>
    mset ordered = mset events"
proof -
  have d: "distinct (map order_key events)" "length events \<le> MAX_CHANGE_EVENTS"
    and ordered: "ordered = sort_key order_key events"
    using assms(1) by (auto simp: make_change_event_log_def distinct_identity split: if_splits)
  have "distinct (map order_key events')" "length events' = length events"
    using d assms(2) by (metis mset_eq_imp_distinct_iff mset_map, metis size_mset)
  then show ?thesis
    using d ordered change_log.canon_perm [OF d(1) assms(2)] change_log.canon_strict [OF d(1)] assms(2)
    by (simp add: make_change_event_log_def distinct_identity)
qed

definition sample_change :: "int \<Rightarrow> change_event" where
  "sample_change t = \<lparr>ce_event_key = ChangeEventKey (lit ''api''), ce_kind = DEPLOYMENT, ce_occurred_at = t\<rparr>"

lemma sample_change_log:
  "make_change_event_log [sample_change 90, sample_change 10] = Inr [sample_change 10, sample_change 90]"
  by (simp add: make_change_event_log_def sample_change_def MAX_CHANGE_EVENTS_def change_identity_def
      order_key_def)

theorem change_log_is_canonical_witness:
  "make_change_event_log [sample_change 10, sample_change 90] = Inr [sample_change 10, sample_change 90]"
  using change_log_is_canonical [OF sample_change_log, of "[sample_change 10, sample_change 90]"] by simp

text \<open>
  A change-event ledger that validates is returned unchanged and satisfies the ledger
  invariant: in particular every entry's phase is the one its time has in the ledger's
  window, and the entries are strictly ordered.
\<close>

theorem change_validation_is_exact:
  assumes "validate_change_event_ledger v = Inr l"
  shows "l = v \<and> valid_change_ledger l \<and> sorted_wrt (<) (map (\<lambda>e. order_key (entry_event e)) (cl_entries l)) \<and>
    (\<forall>e \<in> set (cl_entries l). cv_phase e = phase_of (cv_occurred_at e) (cl_window l))"
  using validate_change_Inr [OF assms] valid_change_entry(2)
  by (auto simp: valid_change_ledger_def comp_def)

lemma sample_change_ledger_exists:
  "\<exists>l. validate_change_event_ledger l = Inr l \<and>
     map entry_event (cl_entries l) = [sample_change 10, sample_change 90] \<and>
     cl_tenant_id l = sample_tenant \<and> cl_incident_id l = sample_incident \<and> cl_run_id l = sample_run \<and>
     cl_window l = sample_window"
proof -
  have "\<exists>l. compile_change_event_ledger sample_tenant sample_incident sample_run sample_window
      [sample_change 10, sample_change 90] = Inr l"
    by (rule compile_change_total)
      (simp_all add: MAX_CHANGE_EVENTS_def sample_change_def order_key_def valid_change_event_def
        in_calendar_def min_instant_def max_instant_def sample_tenant_def sample_incident_def
        sample_run_def, simp_all add: lit_def is_blank_iff py_isspace_def)
  then obtain l where l: "compile_change_event_ledger sample_tenant sample_incident sample_run sample_window
      [sample_change 10, sample_change 90] = Inr l" by blast
  have "sort_key order_key [sample_change 10, sample_change 90] = [sample_change 10, sample_change 90]"
    by (simp add: sample_change_def order_key_def)
  then have "map entry_event (cl_entries l) = [sample_change 10, sample_change 90]"
    using compile_change_Inr(2) [OF l] by (simp only:)
  then show ?thesis
    using compile_change_Inr [OF l] validate_valid_change_ledger by metis
qed

theorem change_validation_is_exact_witness:
  "\<exists>l. validate_change_event_ledger l = Inr l \<and> valid_change_ledger l \<and> cl_entries l \<noteq> []"
proof -
  obtain l where l: "validate_change_event_ledger l = Inr l"
    "map entry_event (cl_entries l) = [sample_change 10, sample_change 90]"
    using sample_change_ledger_exists by metis
  with change_validation_is_exact [OF l(1)] show ?thesis by auto
qed

text \<open>
  Change evidence is content-bound across ledgers: equal identifiers in two validated
  ledgers mean the same event, phase, tenant, incident, run and window, or two different
  canonical messages with one SHA-256 digest.
\<close>

theorem change_ids_bind_content:
  assumes "validate_change_event_ledger l = Inr l'" "validate_change_event_ledger m = Inr m'"
    and "a \<in> set (cl_entries l')" "b \<in> set (cl_entries m')" "cv_evidence_id a = cv_evidence_id b"
  shows "change_context_of l' a = change_context_of m' b \<or>
    collision (content_message CHANGE_ID_DOMAIN (change_entry_payload (change_context_of l' a)))
              (content_message CHANGE_ID_DOMAIN (change_entry_payload (change_context_of m' b)))"
proof -
  have v: "valid_change_ledger l'" "valid_change_ledger m'"
    using validate_change_Inr [OF assms(1)] validate_change_Inr [OF assms(2)] by simp_all
  show ?thesis
    using change_id.id_binds [OF valid_change_entry(1) [OF v(1) assms(3)]
        valid_change_entry(1) [OF v(2) assms(4)] valid_change_entry(3) [OF v(1) assms(3)]]
      valid_change_entry(3) [OF v(2) assms(4)] assms(5) by simp
qed

theorem change_ids_bind_content_witness:
  "\<exists>l a. validate_change_event_ledger l = Inr l \<and> a \<in> set (cl_entries l) \<and>
     (change_context_of l a = change_context_of l a \<or>
      collision (content_message CHANGE_ID_DOMAIN (change_entry_payload (change_context_of l a)))
                (content_message CHANGE_ID_DOMAIN (change_entry_payload (change_context_of l a))))"
proof -
  obtain l where l: "validate_change_event_ledger l = Inr l"
    "map entry_event (cl_entries l) = [sample_change 10, sample_change 90]"
    using sample_change_ledger_exists by metis
  then obtain a where a: "a \<in> set (cl_entries l)" by (cases "cl_entries l") auto
  from change_ids_bind_content [OF l(1) l(1) a a refl] l a show ?thesis by metis
qed

end
