(* ===== verification/Change_Verifier.thy ===== *)
theory Change_Verifier
  imports Hypotheses Change_Ledger
begin

text \<open>
  \<^verbatim>\<open>domain/change_hypotheses.py\<close> and \<^verbatim>\<open>domain/change_verifier.py\<close>: co-occurrence hypotheses
  about changes and their three-valued verification. The component interprets the same two
  interfaces as the metric verifier.
\<close>

section \<open>Documents\<close>

definition MAX_CHANGE_PREDICATES :: nat where
  "MAX_CHANGE_PREDICATES = 32"

datatype phase_constraint = WITHIN_WINDOW | PRE_INJECTION_ONLY | POST_INJECTION_ONLY

record change_predicate =
  cp_predicate_id :: pystr
  cp_event_key :: change_event_key
  cp_kind :: change_kind
  cp_phase_constraint :: phase_constraint

definition make_change_predicate ::
  "pystr \<Rightarrow> change_event_key \<Rightarrow> change_kind \<Rightarrow> phase_constraint \<Rightarrow> domain_error + change_predicate" where
  "make_change_predicate predicate_id key kind constraint =
     (if is_blank predicate_id then Inl InvalidChangeHypothesisError
      else case make_change_event_key (PyStr (event_key_value key)) of
             Inl _ \<Rightarrow> Inl InvalidChangeHypothesisError
           | Inr k \<Rightarrow> Inr \<lparr>cp_predicate_id = predicate_id, cp_event_key = k, cp_kind = kind,
                         cp_phase_constraint = constraint\<rparr>)"

record change_hypothesis_document =
  ch_hypothesis_id :: pystr
  ch_tenant_id :: tenant_id
  ch_incident_id :: incident_id
  ch_run_id :: run_id
  ch_semantics :: hypothesis_semantics
  ch_composition :: hypothesis_composition
  ch_predicates :: "change_predicate list"

definition make_change_hypothesis_document ::
  "pystr \<Rightarrow> tenant_id \<Rightarrow> incident_id \<Rightarrow> run_id \<Rightarrow> hypothesis_semantics \<Rightarrow> hypothesis_composition
     \<Rightarrow> change_predicate list \<Rightarrow> domain_error + change_hypothesis_document" where
  "make_change_hypothesis_document hypothesis_id tenant_id incident_id run_id semantics composition predicates =
     (if is_blank hypothesis_id then Inl InvalidChangeHypothesisError
      else
        rbind (rewrap InvalidChangeHypothesisError (make_tenant_id (PyStr (tenant_value tenant_id)))) (\<lambda>tenant.
        rbind (rewrap InvalidChangeHypothesisError (make_incident_id (PyStr (incident_value incident_id)))) (\<lambda>incident.
        rbind (rewrap InvalidChangeHypothesisError (make_run_id (PyStr (run_value run_id)))) (\<lambda>run.
        rbind (rmap (\<lambda>p. make_change_predicate (cp_predicate_id p) (cp_event_key p) (cp_kind p)
                          (cp_phase_constraint p)) predicates) (\<lambda>copied.
        if \<not> (1 \<le> length copied \<and> length copied \<le> MAX_CHANGE_PREDICATES)
        then Inl InvalidChangeHypothesisError
        else if \<not> distinct (map cp_predicate_id copied) then Inl InvalidChangeHypothesisError
        else Inr \<lparr>ch_hypothesis_id = hypothesis_id, ch_tenant_id = tenant,
               ch_incident_id = incident, ch_run_id = run, ch_semantics = semantics,
               ch_composition = composition, ch_predicates = copied\<rparr>)))))"

definition validate_change_hypothesis_document ::
  "change_hypothesis_document \<Rightarrow> domain_error + change_hypothesis_document" where
  "validate_change_hypothesis_document v =
     make_change_hypothesis_document (ch_hypothesis_id v) (ch_tenant_id v) (ch_incident_id v)
       (ch_run_id v) (ch_semantics v) (ch_composition v) (ch_predicates v)"

section \<open>Verification\<close>

datatype change_unknown_reason =
    CR_CONTEXT_MISMATCH
  | CR_CAUSAL_CLAIM_NOT_VERIFIABLE
  | CR_CHANGE_NOT_OBSERVED

record change_predicate_result =
  cpr_predicate_id :: pystr
  cpr_verdict :: verdict
  cpr_reason :: "change_unknown_reason option"
  cpr_phase_constraint :: phase_constraint
  cpr_supporting_evidence_ids :: "evidence_id list"
  cpr_contradicting_evidence_ids :: "evidence_id list"

record change_verification_result =
  cvr_hypothesis_id :: pystr
  cvr_composition :: hypothesis_composition
  cvr_verdict :: verdict
  cvr_reason :: "change_unknown_reason option"
  cvr_predicate_results :: "change_predicate_result list"
  cvr_supporting_evidence_ids :: "evidence_id list"
  cvr_contradicting_evidence_ids :: "evidence_id list"

definition phase_satisfies :: "change_phase \<Rightarrow> phase_constraint \<Rightarrow> bool" where
  "phase_satisfies phase constraint =
     (if constraint = WITHIN_WINDOW then phase = PRE_INJECTION \<or> phase = POST_INJECTION
      else if constraint = PRE_INJECTION_ONLY then phase = PRE_INJECTION
      else phase = POST_INJECTION)"

definition change_unknown :: "change_predicate \<Rightarrow> change_unknown_reason \<Rightarrow> change_predicate_result" where
  "change_unknown predicate reason =
     \<lparr>cpr_predicate_id = cp_predicate_id predicate, cpr_verdict = UNKNOWN, cpr_reason = Some reason,
      cpr_phase_constraint = cp_phase_constraint predicate,
      cpr_supporting_evidence_ids = [], cpr_contradicting_evidence_ids = []\<rparr>"

definition evaluate_change_predicate ::
  "change_predicate \<Rightarrow> change_event_evidence list \<Rightarrow> change_predicate_result" where
  "evaluate_change_predicate predicate entries =
     (let matching = filter (\<lambda>e. cv_event_key e = cp_event_key predicate \<and> cv_kind e = cp_kind predicate) entries
      in if matching = [] then change_unknown predicate CR_CHANGE_NOT_OBSERVED
         else
           let supporting = map cv_evidence_id
                 (filter (\<lambda>e. phase_satisfies (cv_phase e) (cp_phase_constraint predicate)) matching)
           in if supporting \<noteq> [] then
                \<lparr>cpr_predicate_id = cp_predicate_id predicate, cpr_verdict = SUPPORTED, cpr_reason = None,
                 cpr_phase_constraint = cp_phase_constraint predicate,
                 cpr_supporting_evidence_ids = supporting, cpr_contradicting_evidence_ids = []\<rparr>
              else
                \<lparr>cpr_predicate_id = cp_predicate_id predicate, cpr_verdict = REFUTED, cpr_reason = None,
                 cpr_phase_constraint = cp_phase_constraint predicate,
                 cpr_supporting_evidence_ids = [],
                 cpr_contradicting_evidence_ids = map cv_evidence_id matching\<rparr>)"

definition compose_change_results ::
  "hypothesis_composition \<Rightarrow> change_predicate_result list \<Rightarrow> verdict" where
  "compose_change_results composition results =
     (let verdicts = map cpr_verdict results in
      if composition = COMPOSE_ALL then
        (if REFUTED \<in> set verdicts then REFUTED
         else if UNKNOWN \<in> set verdicts then UNKNOWN else SUPPORTED)
      else if SUPPORTED \<in> set verdicts then SUPPORTED
      else if UNKNOWN \<in> set verdicts then UNKNOWN else REFUTED)"

definition change_context_matches :: "change_hypothesis_document \<Rightarrow> change_event_ledger \<Rightarrow> bool" where
  "change_context_matches h l \<longleftrightarrow> ch_tenant_id h = cl_tenant_id l \<and> ch_incident_id h = cl_incident_id l \<and>
     ch_run_id h = cl_run_id l"

definition judge_change_document ::
  "change_hypothesis_document \<Rightarrow> change_event_ledger
     \<Rightarrow> change_unknown_reason option \<times> change_predicate_result list \<times> verdict" where
  "judge_change_document h l =
     (if \<not> change_context_matches h l then
        (Some CR_CONTEXT_MISMATCH, map (\<lambda>p. change_unknown p CR_CONTEXT_MISMATCH) (ch_predicates h), UNKNOWN)
      else if ch_semantics h = CAUSAL then
        (Some CR_CAUSAL_CLAIM_NOT_VERIFIABLE,
         map (\<lambda>p. change_unknown p CR_CAUSAL_CLAIM_NOT_VERIFIABLE) (ch_predicates h), UNKNOWN)
      else
        let results = map (\<lambda>p. evaluate_change_predicate p (cl_entries l)) (ch_predicates h)
        in (None, results, compose_change_results (ch_composition h) results))"

definition verify_change_hypothesis ::
  "change_hypothesis_document \<Rightarrow> change_event_ledger \<Rightarrow> domain_error + change_verification_result" where
  "verify_change_hypothesis hypothesis ledger =
     rbind (validate_change_hypothesis_document hypothesis) (\<lambda>h.
     rbind (validate_change_event_ledger ledger) (\<lambda>l.
       case judge_change_document h l of (reason, results, verdict) \<Rightarrow>
         Inr \<lparr>cvr_hypothesis_id = ch_hypothesis_id h, cvr_composition = ch_composition h,
              cvr_verdict = verdict, cvr_reason = reason, cvr_predicate_results = results,
              cvr_supporting_evidence_ids = concat (map cpr_supporting_evidence_ids results),
              cvr_contradicting_evidence_ids = concat (map cpr_contradicting_evidence_ids results)\<rparr>))"

section \<open>Acceptance and contract\<close>

definition valid_change_hypothesis :: "change_hypothesis_document \<Rightarrow> bool" where
  "valid_change_hypothesis h \<longleftrightarrow>
     list_all (\<lambda>s. \<not> is_blank s) [ch_hypothesis_id h, tenant_value (ch_tenant_id h),
       incident_value (ch_incident_id h), run_value (ch_run_id h)] \<and>
     list_all (\<lambda>p. \<not> is_blank (cp_predicate_id p) \<and> \<not> is_blank (event_key_value (cp_event_key p)))
       (ch_predicates h) \<and>
     1 \<le> length (ch_predicates h) \<and> length (ch_predicates h) \<le> MAX_CHANGE_PREDICATES \<and>
     distinct (map cp_predicate_id (ch_predicates h))"

lemma make_change_predicate_Inr:
  "make_change_predicate (cp_predicate_id p) (cp_event_key p) (cp_kind p) (cp_phase_constraint p) = Inr q
     \<longleftrightarrow> q = p \<and> \<not> is_blank (cp_predicate_id p) \<and> \<not> is_blank (event_key_value (cp_event_key p))"
  by (cases p) (auto simp: make_change_predicate_def make_change_event_key_def split: sum.splits if_splits)

lemma validate_change_hypothesis_Inr:
  "validate_change_hypothesis_document v = Inr h \<longleftrightarrow> h = v \<and> valid_change_hypothesis v"
  by (cases v) (auto simp: validate_change_hypothesis_document_def make_change_hypothesis_document_def
      res_simps rmap_rebuild [OF make_change_predicate_Inr] valid_change_hypothesis_def tenant.make_ok
      incident.make_ok run.make_ok
      intro: tenant_id.expand incident_id.expand run_id.expand)

interpretation change_composition: kleene_composition compose_change_results cpr_verdict
  by unfold_locales
    (simp add: compose_change_results_def Let_def compose_verdicts_def flip: compose_verdicts_kleene)

lemma evaluate_change_cites:
  "set (cpr_supporting_evidence_ids (evaluate_change_predicate p es)) \<subseteq> set (map cv_evidence_id es) \<and>
   set (cpr_contradicting_evidence_ids (evaluate_change_predicate p es)) \<subseteq> set (map cv_evidence_id es) \<and>
   (cpr_verdict (evaluate_change_predicate p es) = SUPPORTED \<longleftrightarrow>
      cpr_supporting_evidence_ids (evaluate_change_predicate p es) \<noteq> []) \<and>
   (cpr_verdict (evaluate_change_predicate p es) = REFUTED \<longleftrightarrow>
      cpr_contradicting_evidence_ids (evaluate_change_predicate p es) \<noteq> [])"
  by (auto simp: evaluate_change_predicate_def change_unknown_def Let_def)

lemma verify_change_Inr:
  assumes "verify_change_hypothesis h ledger = Inr r"
  shows "valid_change_hypothesis h \<and> valid_change_ledger ledger \<and>
    judge_change_document h ledger = (cvr_reason r, cvr_predicate_results r, cvr_verdict r) \<and>
    cvr_supporting_evidence_ids r = concat (map cpr_supporting_evidence_ids (cvr_predicate_results r)) \<and>
    cvr_contradicting_evidence_ids r = concat (map cpr_contradicting_evidence_ids (cvr_predicate_results r))"
proof -
  from assms obtain l where l: "valid_change_hypothesis h" "validate_change_event_ledger ledger = Inr l"
    "(case judge_change_document h l of (reason, results, verdict) \<Rightarrow>
         Inr \<lparr>cvr_hypothesis_id = ch_hypothesis_id h, cvr_composition = ch_composition h,
              cvr_verdict = verdict, cvr_reason = reason, cvr_predicate_results = results,
              cvr_supporting_evidence_ids = concat (map cpr_supporting_evidence_ids results),
              cvr_contradicting_evidence_ids = concat (map cpr_contradicting_evidence_ids results)\<rparr>) =
     (Inr r :: domain_error + change_verification_result)"
    unfolding verify_change_hypothesis_def rbind_eq_Inr validate_change_hypothesis_Inr by blast
  with validate_change_Inr [OF l(2)] show ?thesis by (cases "judge_change_document h l") auto
qed

lemma judge_change_gated:
  assumes "judge_change_document h l = (reason, results, v)"
    and "\<not> (change_context_matches h l \<and> ch_semantics h = DESCRIPTIVE)"
  shows "v = UNKNOWN \<and> reason \<noteq> None \<and> length results = length (ch_predicates h) \<and>
    (\<forall>p \<in> set results. cpr_verdict p = UNKNOWN \<and> cpr_reason p = reason \<and>
       cpr_supporting_evidence_ids p = [] \<and> cpr_contradicting_evidence_ids p = [])"
  using assms by (cases "ch_semantics h")
    (auto simp: judge_change_document_def Let_def change_unknown_def split: if_splits)

lemma judge_change_evaluated:
  assumes "judge_change_document h l = (reason, results, v)" "change_context_matches h l"
    and "ch_semantics h = DESCRIPTIVE"
  shows "reason = None" "v = compose_change_results (ch_composition h) results"
    "results = map (\<lambda>p. evaluate_change_predicate p (cl_entries l)) (ch_predicates h)"
  using assms by (auto simp: judge_change_document_def Let_def)

definition change_ledger_ids :: "change_event_ledger \<Rightarrow> evidence_id list" where
  "change_ledger_ids l = map cv_evidence_id (cl_entries l)"

interpretation change_verifier: evidence_verifier verify_change_hypothesis change_context_matches
  ch_semantics ch_composition change_ledger_ids cvr_verdict cvr_predicate_results
  cvr_supporting_evidence_ids cvr_contradicting_evidence_ids cpr_verdict cpr_supporting_evidence_ids
  cpr_contradicting_evidence_ids
proof unfold_locales
  fix h l r assume v: "verify_change_hypothesis h l = Inr r"
  note f = verify_change_Inr [OF v]
  then have j: "judge_change_document h l = (cvr_reason r, cvr_predicate_results r, cvr_verdict r)" by simp
  show "\<not> change_context_matches h l \<or> ch_semantics h = CAUSAL \<Longrightarrow>
      cvr_verdict r = UNKNOWN \<and> (\<forall>p \<in> set (cvr_predicate_results r). cpr_verdict p = UNKNOWN)"
    using judge_change_gated [OF j] by auto
  show "change_context_matches h l \<Longrightarrow> ch_semantics h = DESCRIPTIVE \<Longrightarrow>
      cvr_verdict r = kleene (ch_composition h) (map cpr_verdict (cvr_predicate_results r))"
    using judge_change_evaluated(2) [OF j] by (simp add: change_composition.compose_spec)
  show "cvr_supporting_evidence_ids r = concat (map cpr_supporting_evidence_ids (cvr_predicate_results r)) \<and>
      cvr_contradicting_evidence_ids r = concat (map cpr_contradicting_evidence_ids (cvr_predicate_results r))"
    using f by simp
  show "cvr_predicate_results r \<noteq> []"
    using judge_change_gated [OF j] judge_change_evaluated(3) [OF j] f
    by (cases "change_context_matches h l \<and> ch_semantics h = DESCRIPTIVE")
      (auto simp: valid_change_hypothesis_def)
  fix p assume p: "p \<in> set (cvr_predicate_results r)"
  show "set (cpr_supporting_evidence_ids p) \<subseteq> set (change_ledger_ids l) \<and>
      set (cpr_contradicting_evidence_ids p) \<subseteq> set (change_ledger_ids l) \<and>
      (cpr_verdict p = SUPPORTED \<longleftrightarrow> cpr_supporting_evidence_ids p \<noteq> []) \<and>
      (cpr_verdict p = REFUTED \<longleftrightarrow> cpr_contradicting_evidence_ids p \<noteq> [])"
  proof (cases "change_context_matches h l \<and> ch_semantics h = DESCRIPTIVE")
    case True
    with judge_change_evaluated(3) [OF j] p obtain q where
      "p = evaluate_change_predicate q (cl_entries l)" by auto
    then show ?thesis using evaluate_change_cites by (simp only: change_ledger_ids_def)
  next
    case False
    with judge_change_gated [OF j] p show ?thesis by auto
  qed
qed

section \<open>Properties\<close>

text \<open>The instants a constraint asks for, read off the window.\<close>

definition in_region :: "phase_constraint \<Rightarrow> incident_window \<Rightarrow> int \<Rightarrow> bool" where
  "in_region c w t =
     (case c of WITHIN_WINDOW \<Rightarrow> win_start w \<le> t \<and> t < win_end w
      | PRE_INJECTION_ONLY \<Rightarrow> win_start w \<le> t \<and> t < win_injection w
      | POST_INJECTION_ONLY \<Rightarrow> win_injection w \<le> t \<and> t < win_end w)"

lemma phase_satisfies_region:
  "valid_window w \<Longrightarrow> phase_satisfies (phase_of t w) c \<longleftrightarrow> in_region c w t"
  by (cases c) (auto simp: phase_satisfies_def phase_of_def in_region_def valid_window_def)

lemma entry_phase_region:
  assumes "valid_change_ledger l" "e \<in> set (cl_entries l)"
  shows "phase_satisfies (cv_phase e) c \<longleftrightarrow> in_region c (cl_window l) (cv_occurred_at e)"
proof -
  have "cv_phase e = phase_of (cv_occurred_at e) (cl_window l)" "valid_window (cl_window l)"
    using valid_change_entry(2) [OF assms] assms(1) by (auto simp: valid_change_ledger_def)
  then show ?thesis by (simp add: phase_satisfies_region)
qed

text \<open>
  C20. The change verifier decides co-occurrence exactly: on a matching descriptive document,
  a predicate is unknown precisely when the ledger has no event of its key and kind,
  supported precisely when such an event lies in the asserted region of the incident window,
  and refuted precisely when there are such events but none lies in it.
\<close>

theorem change_predicate_decided_exactly:
  assumes "verify_change_hypothesis h l = Inr r" "change_context_matches h l" "ch_semantics h = DESCRIPTIVE"
    and "(p, t) \<in> set (zip (ch_predicates h) (cvr_predicate_results r))"
  shows "let hits = filter (\<lambda>e. cv_event_key e = cp_event_key p \<and> cv_kind e = cp_kind p) (cl_entries l);
             inside = filter (\<lambda>e. in_region (cp_phase_constraint p) (cl_window l) (cv_occurred_at e)) hits
         in (cpr_verdict t = UNKNOWN \<longleftrightarrow> hits = []) \<and> (cpr_verdict t = SUPPORTED \<longleftrightarrow> inside \<noteq> []) \<and>
            (cpr_verdict t = REFUTED \<longleftrightarrow> hits \<noteq> [] \<and> inside = []) \<and>
            cpr_supporting_evidence_ids t = map cv_evidence_id inside"
proof -
  let ?hits = "filter (\<lambda>e. cv_event_key e = cp_event_key p \<and> cv_kind e = cp_kind p) (cl_entries l)"
  note f = verify_change_Inr [OF assms(1)]
  then have j: "judge_change_document h l = (cvr_reason r, cvr_predicate_results r, cvr_verdict r)"
    and v: "valid_change_ledger l" by simp_all
  have t: "t = evaluate_change_predicate p (cl_entries l)"
    using assms(4) judge_change_evaluated(3) [OF j assms(2,3)] by (auto simp: zip_map2 zip_same_conv_map)
  have "filter (\<lambda>e. phase_satisfies (cv_phase e) (cp_phase_constraint p)) ?hits =
      filter (\<lambda>e. in_region (cp_phase_constraint p) (cl_window l) (cv_occurred_at e)) ?hits"
    using entry_phase_region [OF v] by (intro filter_cong) auto
  then show ?thesis
    unfolding t evaluate_change_predicate_def Let_def
    by (simp add: change_unknown_def del: filter_filter)
qed

definition sample_change_predicate :: change_predicate where
  "sample_change_predicate = \<lparr>cp_predicate_id = lit ''c1'', cp_event_key = ChangeEventKey (lit ''api''),
     cp_kind = DEPLOYMENT, cp_phase_constraint = PRE_INJECTION_ONLY\<rparr>"

definition sample_change_hypothesis :: change_hypothesis_document where
  "sample_change_hypothesis = \<lparr>ch_hypothesis_id = lit ''h1'', ch_tenant_id = sample_tenant,
     ch_incident_id = sample_incident, ch_run_id = sample_run, ch_semantics = DESCRIPTIVE,
     ch_composition = COMPOSE_ANY, ch_predicates = [sample_change_predicate]\<rparr>"

lemma sample_change_verification:
  "\<exists>l r t. verify_change_hypothesis sample_change_hypothesis l = Inr r \<and>
     change_context_matches sample_change_hypothesis l \<and> cvr_predicate_results r = [t] \<and>
     map entry_event (cl_entries l) = [sample_change 10, sample_change 90] \<and> cl_window l = sample_window"
proof -
  obtain l where l: "validate_change_event_ledger l = Inr l"
    "map entry_event (cl_entries l) = [sample_change 10, sample_change 90]"
    "cl_tenant_id l = sample_tenant" "cl_incident_id l = sample_incident" "cl_run_id l = sample_run"
    "cl_window l = sample_window"
    using sample_change_ledger_exists by metis
  have h: "validate_change_hypothesis_document sample_change_hypothesis = Inr sample_change_hypothesis"
    by (simp add: validate_change_hypothesis_Inr valid_change_hypothesis_def sample_change_hypothesis_def
        sample_change_predicate_def sample_tenant_def sample_incident_def sample_run_def
        MAX_CHANGE_PREDICATES_def)
      (simp add: lit_def is_blank_iff py_isspace_def)
  have c: "change_context_matches sample_change_hypothesis l"
    by (simp add: change_context_matches_def sample_change_hypothesis_def l)
  have "\<exists>r t. verify_change_hypothesis sample_change_hypothesis l = Inr r \<and> cvr_predicate_results r = [t]"
    using c by (simp add: verify_change_hypothesis_def h l(1) judge_change_document_def Let_def)
      (simp add: sample_change_hypothesis_def)
  with c l show ?thesis by metis
qed

theorem change_predicate_decided_exactly_witness:
  "\<exists>l r t. verify_change_hypothesis sample_change_hypothesis l = Inr r \<and> cvr_predicate_results r = [t] \<and>
     cpr_verdict t = SUPPORTED"
proof -
  obtain l r t where v: "verify_change_hypothesis sample_change_hypothesis l = Inr r"
    "change_context_matches sample_change_hypothesis l" "cvr_predicate_results r = [t]"
    "map entry_event (cl_entries l) = [sample_change 10, sample_change 90]" "cl_window l = sample_window"
    using sample_change_verification by metis
  have p: "(sample_change_predicate, t) \<in> set (zip (ch_predicates sample_change_hypothesis) (cvr_predicate_results r))"
    "ch_semantics sample_change_hypothesis = DESCRIPTIVE"
    by (simp_all add: v sample_change_hypothesis_def)
  obtain a b where ab: "cl_entries l = [a, b]" "entry_event a = sample_change 10"
    using v(4) by auto
  then have "cpr_verdict t = SUPPORTED"
    using change_predicate_decided_exactly [OF v(1,2) p(2,1)]
    by (simp add: Let_def entry_event_def sample_change_def sample_change_predicate_def in_region_def
        v(5) sample_window_def)
  with v show ?thesis by metis
qed

text \<open>
  No change verdict without change evidence: a decided verdict is only given to a
  descriptive hypothesis in the ledger's own context, is the Kleene composition of the
  predicate verdicts, cites at least one identifier for its side, and cites only identifiers
  of the ledger.
\<close>

theorem change_verdict_is_grounded:
  assumes "verify_change_hypothesis h l = Inr r" "cvr_verdict r \<noteq> UNKNOWN"
  shows "change_context_matches h l \<and> ch_semantics h = DESCRIPTIVE \<and>
    cvr_verdict r = kleene (ch_composition h) (map cpr_verdict (cvr_predicate_results r)) \<and>
    (if cvr_verdict r = SUPPORTED then cvr_supporting_evidence_ids r \<noteq> []
     else cvr_contradicting_evidence_ids r \<noteq> []) \<and>
    set (cvr_supporting_evidence_ids r @ cvr_contradicting_evidence_ids r)
      \<subseteq> set (map cv_evidence_id (cl_entries l))"
  using change_verifier.decided_context [OF assms] change_verifier.decided_cites [OF assms(1)]
    change_verifier.cites_ledger [OF assms(1)] change_verifier.composed [OF assms(1)] assms(2)
  by (cases "cvr_verdict r") (auto simp: change_ledger_ids_def)

theorem change_verdict_is_grounded_witness:
  "\<exists>l r. verify_change_hypothesis sample_change_hypothesis l = Inr r \<and> cvr_verdict r = SUPPORTED \<and>
     cvr_supporting_evidence_ids r \<noteq> []"
proof -
  obtain l r t where v: "verify_change_hypothesis sample_change_hypothesis l = Inr r"
    "change_context_matches sample_change_hypothesis l"
    "map entry_event (cl_entries l) = [sample_change 10, sample_change 90]" "cl_window l = sample_window"
    using sample_change_verification by metis
  note f = verify_change_Inr [OF v(1)]
  then have j: "judge_change_document sample_change_hypothesis l =
      (cvr_reason r, cvr_predicate_results r, cvr_verdict r)" by simp
  obtain a b where ab: "cl_entries l = [a, b]" "entry_event a = sample_change 10"
    using v(3) by auto
  have "phase_satisfies (cv_phase a) PRE_INJECTION_ONLY"
    using entry_phase_region [of l a] f ab
    by (simp add: in_region_def v(4) sample_window_def entry_event_def sample_change_def)
  then have "SUPPORTED \<in> set (map cpr_verdict (cvr_predicate_results r))"
    using judge_change_evaluated(3) [OF j v(2)] ab
    by (simp add: sample_change_hypothesis_def sample_change_predicate_def evaluate_change_predicate_def
        entry_event_def sample_change_def)
  then have s: "cvr_verdict r = SUPPORTED"
    using judge_change_evaluated(2) [OF j v(2)]
    by (simp add: sample_change_hypothesis_def compose_change_results_def)
  with change_verdict_is_grounded [OF v(1)] v(1) show ?thesis by auto
qed

end
