(* ===== verification/Timestamp_Order.thy ===== *)
theory Timestamp_Order
  imports Civil_Time
begin

text \<open>
  Timestamps sort chronologically: the lexicographic order of the printed texts is the order
  of the instants. The serializer relies on this when it compares printed times.
\<close>

section \<open>Fixed-width decimals\<close>

lemma less_append_same_length:
  "length a = length b \<Longrightarrow> a @ x < b @ y \<longleftrightarrow> a < b \<or> a = b \<and> x < y" for a b x y :: "nat list"
  by (induction a b rule: list_induct2) auto

lemma dec_fixed_mono: "m < n \<Longrightarrow> n < 10 ^ k \<Longrightarrow> dec_fixed k m < dec_fixed k n"
proof (induction k arbitrary: m n)
  case (Suc k)
  have "m div 10 < n div 10 \<or> m div 10 = n div 10 \<and> m mod 10 < n mod 10"
    using Suc.prems(1) by (metis div_le_mono div_mult_mod_eq le_neq_implies_less less_imp_le nat_add_left_cancel_less)
  moreover have "n div 10 < 10 ^ k" using Suc.prems(2) by (simp add: less_mult_imp_div_less mult.commute)
  ultimately show ?case using Suc.IH by (auto simp: less_append_same_length)
qed simp

lemma dec_fixed_mono_int:
  "0 \<le> a \<Longrightarrow> a < b \<Longrightarrow> b < 10 ^ k \<Longrightarrow> dec_fixed k (nat a) < dec_fixed k (nat b)"
  by (rule dec_fixed_mono) (simp_all add: nat_less_iff)

section \<open>Dates\<close>

definition year_start :: "int \<Rightarrow> int" where
  "year_start y = (y - 1) * 365 + (y - 1) div 4 - (y - 1) div 100 + (y - 1) div 400"

lemma div_step: "0 < k \<Longrightarrow> y div k = (y - 1) div k + (if y mod k = 0 then 1 else 0)" for y k :: int
proof -
  assume k: "0 < k"
  have y: "y = k * (y div k) + y mod k" by simp
  have b: "0 \<le> y mod k" "y mod k < k" using k by simp_all
  show ?thesis
  proof (cases "y mod k = 0")
    case True
    then have "(y - 1) div k = y div k - 1"
      using y k by (intro int_div_pos_eq [of _ k _ "k - 1"]) (simp_all add: right_diff_distrib)
    with True show ?thesis by simp
  next
    case False
    then have "(y - 1) div k = y div k"
      using y b by (intro int_div_pos_eq [of _ k _ "y mod k - 1"]) simp_all
    with False show ?thesis by simp
  qed
qed

lemma year_start_Suc: "year_start (y + 1) = year_start y + 365 + (if is_leap y then 1 else 0)"
proof -
  have d: "y mod 400 = 0 \<Longrightarrow> y mod 100 = 0" "y mod 100 = 0 \<Longrightarrow> y mod 4 = 0"
    using mod_mod_cancel [of 100 400 y] mod_mod_cancel [of 4 100 y] by auto
  have "year_start (y + 1) = year_start y + 365 + (if y mod 4 = 0 then 1 else 0)
      - (if y mod 100 = 0 then 1 else 0) + (if y mod 400 = 0 then 1 else 0)"
  proof -
    have step: "y * 365 + a - b + c = (y - 1) * 365 + a' - b' + c' + 365 + p - q + r"
      if "a = a' + p" "b = b' + q" "c = c' + r" for a a' p b b' q c c' r :: int
      using that by (simp add: algebra_simps)
    show ?thesis
      unfolding year_start_def add_diff_cancel_right'
      by (rule step [OF div_step div_step div_step]) simp_all
  qed
  with d show ?thesis unfolding is_leap_def by (smt (verit, best))
qed

lemma year_start_mono: "y \<le> z \<Longrightarrow> year_start y \<le> year_start z"
proof (induction "nat (z - y)" arbitrary: z)
  case (Suc n)
  then have "year_start y \<le> year_start (z - 1)" by simp
  also have "\<dots> \<le> year_start z" using year_start_Suc [of "z - 1"] by simp
  finally show ?case .
qed simp

text \<open>A date of the calendar: its day lies within its month.\<close>

definition valid_ymd :: "int \<times> int \<times> int \<Rightarrow> bool" where
  "valid_ymd x \<longleftrightarrow> (case x of (y, m, d) \<Rightarrow> 1 \<le> m \<and> m \<le> 12 \<and> 1 \<le> d \<and>
     days_before_month (is_leap y) m + d \<le> days_before_month (is_leap y) (m + 1))"

lemma month_cases: "1 \<le> m \<Longrightarrow> m \<le> 12 \<Longrightarrow> m = 1 \<or> m = 2 \<or> m = 3 \<or> m = 4 \<or> m = 5 \<or> m = 6 \<or> m = 7 \<or> m = 8 \<or>
  m = 9 \<or> m = 10 \<or> m = 11 \<or> m = 12" for m :: int
  by presburger

lemma month_next:
  assumes "0 \<le> r" "r < 365"
  shows "r < days_before_month leap (month_of leap r + 1)"
proof -
  define m where "m = (r + 50) div 32"
  have b: "32 * m \<le> r + 50" "r + 50 < 32 * m + 32"
    unfolding m_def by presburger+
  with assms have "1 \<le> m" "m \<le> 12" by linarith+
  from month_cases [OF this] show ?thesis
    using b assms unfolding month_of_def Let_def m_def [symmetric]
    by (elim disjE) (auto simp: days_before_month_def)
qed

lemma days_before_month_step:
  "1 \<le> m \<Longrightarrow> m \<le> 12 \<Longrightarrow> days_before_month l m \<le> days_before_month l (m + 1)"
  using month_cases [of m] by (auto simp: days_before_month_def)

lemma days_before_month_mono:
  assumes "1 \<le> m" "m \<le> n" "n \<le> 13"
  shows "days_before_month l m \<le> days_before_month l n"
  using assms(2,3)
proof (induction "nat (n - m)" arbitrary: n)
  case (Suc k)
  then have "days_before_month l m \<le> days_before_month l (n - 1)" by simp
  also have "\<dots> \<le> days_before_month l (n - 1 + 1)"
    using Suc assms(1) by (intro days_before_month_step) linarith+
  finally show ?case by simp
qed simp

lemma ymd2ord_year: "ymd2ord (y, m, d) = year_start y + days_before_month (is_leap y) m + d - 1"
  by (simp only: ymd2ord_def year_start_def prod.case)

lemma ymd2ord_within_year:
  assumes "valid_ymd (y, m, d)"
  shows "year_start y \<le> ymd2ord (y, m, d)" "ymd2ord (y, m, d) < year_start (y + 1)"
proof -
  have m: "1 \<le> m" "m \<le> 12" and d: "1 \<le> d"
    "days_before_month (is_leap y) m + d \<le> days_before_month (is_leap y) (m + 1)"
    using assms by (simp_all add: valid_ymd_def)
  have "days_before_month (is_leap y) (m + 1) \<le> days_before_month (is_leap y) 13"
    using m by (intro days_before_month_mono) simp_all
  moreover have "days_before_month (is_leap y) 13 = 365 + (if is_leap y then 1 else 0)"
    by (simp add: days_before_month_def)
  moreover have "0 \<le> days_before_month (is_leap y) m"
    by (simp add: days_before_month_def)
  ultimately show "year_start y \<le> ymd2ord (y, m, d)" "ymd2ord (y, m, d) < year_start (y + 1)"
    using d year_start_Suc [of y] unfolding ymd2ord_year by linarith+
qed

lemma ymd2ord_mono:
  assumes "valid_ymd (y, m, d)" "valid_ymd (y', m', d')" "(y, m, d) < (y', m', d')"
  shows "ymd2ord (y, m, d) < ymd2ord (y', m', d')"
proof -
  note b = ymd2ord_within_year [OF assms(1)] ymd2ord_within_year [OF assms(2)]
  consider "y < y'" | "y = y'" "m < m'" | "y = y'" "m = m'" "d < d'"
    using assms(3) by (auto simp: le_less)
  then show ?thesis
  proof cases
    case 1
    then have "year_start (y + 1) \<le> year_start y'" by (intro year_start_mono) simp
    with b show ?thesis by linarith
  next
    case 2
    have "days_before_month (is_leap y) (m + 1) \<le> days_before_month (is_leap y) m'"
      using 2 assms by (intro days_before_month_mono) (auto simp: valid_ymd_def)
    with 2 assms(1,2) show ?thesis by (auto simp: ymd2ord_year valid_ymd_def)
  next
    case 3
    then show ?thesis by (simp add: ymd2ord_year)
  qed
qed

lemma ord2ymd_valid: "valid_ymd (ord2ymd n)"
proof -
  obtain a b c e r where
    parts: "n div 146097 = a" "n mod 146097 div 36524 = b" "n mod 146097 mod 36524 div 1461 = c"
      "n mod 146097 mod 36524 mod 1461 div 365 = e" "n mod 146097 mod 36524 mod 1461 mod 365 = r"
    and bounds: "0 \<le> b" "b \<le> 4" "0 \<le> c" "c \<le> 24" "0 \<le> e" "e \<le> 4" "0 \<le> r" "r < 365"
    using day_cycles [of n] by (elim exE conjE) (rule that)
  show ?thesis
  proof (cases "e = 4 \<or> b = 4")
    case True
    then have "\<exists>y. ord2ymd n = (y, 12, 31)" by (simp add: ord2ymd_def Let_def parts)
    then show ?thesis by (auto simp: valid_ymd_def days_before_month_def)
  next
    case False
    let ?l = "e = 3 \<and> (c \<noteq> 24 \<or> b = 3)"
    have "ord2ymd n = (400 * a + 100 * b + 4 * c + e + 1, month_of ?l r,
        r - days_before_month ?l (month_of ?l r) + 1)"
      using False by (simp add: ord2ymd_def Let_def parts algebra_simps)
    moreover have "is_leap (400 * a + 100 * b + 4 * c + e + 1) = ?l"
      using False bounds by (intro year_cycles(4)) auto
    ultimately show ?thesis
      using month_table [OF bounds(7,8), of ?l] month_next [OF bounds(7,8), of ?l]
      by (simp add: valid_ymd_def)
  qed
qed

lemma ord2ymd_mono:
  assumes "n < k"
  shows "ord2ymd n < ord2ymd k"
proof (rule ccontr)
  assume "\<not> ord2ymd n < ord2ymd k"
  then consider "ord2ymd n = ord2ymd k" | "ord2ymd k < ord2ymd n" by (meson linorder_neqE)
  then show False
  proof cases
    case 1
    then show False using assms ord2ymd_inverse by (metis less_irrefl)
  next
    case 2
    obtain y m d y' m' d' where e: "ord2ymd k = (y, m, d)" "ord2ymd n = (y', m', d')"
      by (metis prod_cases3)
    have "ymd2ord (ord2ymd k) < ymd2ord (ord2ymd n)"
      unfolding e by (rule ymd2ord_mono) (use 2 e ord2ymd_valid [of k] ord2ymd_valid [of n] in auto)
    with assms show False by (simp add: ord2ymd_inverse)
  qed
qed

section \<open>Times of day\<close>

lemma mod_lex: "0 < k \<Longrightarrow> v < w \<Longrightarrow> v div k < w div k \<or> v div k = w div k \<and> v mod k < w mod k" for v w k :: int
proof -
  assume a: "0 < k" "v < w"
  then have "v div k \<le> w div k" by (intro zdiv_mono1) simp_all
  moreover have "v mod k < w mod k" if "v div k = w div k"
  proof -
    have "v = w div k * k + v mod k" "w = w div k * k + w mod k"
      using div_mult_mod_eq [of v k] div_mult_mod_eq [of w k] that by simp_all
    with a(2) show ?thesis by linarith
  qed
  ultimately show ?thesis by fastforce
qed

lemma hms_lex:
  fixes v w :: int
  assumes "v < w"
  shows "v div 3600 < w div 3600 \<or> v div 3600 = w div 3600 \<and>
    (v div 60 mod 60 < w div 60 mod 60 \<or> v div 60 mod 60 = w div 60 mod 60 \<and> v mod 60 < w mod 60)"
proof -
  have e: "v div 60 div 60 = v div 3600" "w div 60 div 60 = w div 3600"
    using zdiv_zmult2_eq [of 60 v 60] zdiv_zmult2_eq [of 60 w 60] by simp_all
  from mod_lex [of 60 v w] assms consider "v div 60 < w div 60" | "v div 60 = w div 60" "v mod 60 < w mod 60"
    by auto
  then show ?thesis
  proof cases
    case 1
    have "0 < (60 :: int)" by simp
    from mod_lex [OF this 1] show ?thesis unfolding e by blast
  next
    case 2
    then have "v div 3600 = w div 3600" using e by metis
    with 2 show ?thesis by (simp only: simp_thms)
  qed
qed

lemma hmsf_lex:
  fixes v w f g :: int
  assumes "v < w \<or> v = w \<and> f < g"
  shows "v div 3600 < w div 3600 \<or> v div 3600 = w div 3600 \<and>
    (v div 60 mod 60 < w div 60 mod 60 \<or> v div 60 mod 60 = w div 60 mod 60 \<and>
     (v mod 60 < w mod 60 \<or> v mod 60 = w mod 60 \<and> f < g))"
  using assms
proof (elim disjE conjE)
  assume "v < w"
  from hms_lex [OF this] show ?thesis by blast
qed blast

text \<open>Date, hours, minutes, seconds and microseconds, in the order they are printed.\<close>

lemma div_mod_lex:
  fixes t u K M :: int
  assumes "t < u" "0 < K" "0 < M"
  shows "t div K < u div K \<or> t div K = u div K \<and>
    (t mod K div M < u mod K div M \<or> t mod K div M = u mod K div M \<and> t mod K mod M < u mod K mod M)"
  using mod_lex [OF assms(2,1)] mod_lex [OF assms(3), of "t mod K" "u mod K"] by blast

lemma instant_lex:
  assumes "t < u"
  shows "ord2ymd (t div 86400000000 + 719162) < ord2ymd (u div 86400000000 + 719162) \<or>
    ord2ymd (t div 86400000000 + 719162) = ord2ymd (u div 86400000000 + 719162) \<and>
    (t mod 86400000000 div 1000000 < u mod 86400000000 div 1000000 \<or>
     t mod 86400000000 div 1000000 = u mod 86400000000 div 1000000 \<and>
     t mod 86400000000 mod 1000000 < u mod 86400000000 mod 1000000)"
proof -
  have "ord2ymd (a + 719162) < ord2ymd (b + 719162)" if "a < b" for a b
    using that by (intro ord2ymd_mono) simp
  with div_mod_lex [OF assms, of 86400000000 1000000, OF zero_less_numeral zero_less_numeral]
  show ?thesis by metis
qed

lemma dec_fixed_lex:
  assumes "0 \<le> a" "a < 10 ^ k" "0 \<le> b" "b < 10 ^ k"
  shows "dec_fixed k (nat a) @ c # x < dec_fixed k (nat b) @ c # y \<longleftrightarrow> a < b \<or> a = b \<and> x < y"
proof (cases a b rule: linorder_cases)
  case less
  with assms show ?thesis by (simp add: less_append_same_length dec_fixed_mono_int)
next
  case greater
  with assms have "dec_fixed k (nat b) < dec_fixed k (nat a)" by (simp add: dec_fixed_mono_int)
  with greater show ?thesis by (auto simp: less_append_same_length)
qed (simp add: less_append_same_length)

definition two :: "int \<Rightarrow> bool" where
  "two a \<longleftrightarrow> 0 \<le> a \<and> a < 10 ^ 2"

lemma fields_lex:
  assumes "0 \<le> y" "y < 10 ^ 4" "0 \<le> y'" "y' < 10 ^ 4" "0 \<le> f" "f < 10 ^ 6" "0 \<le> f'" "f' < 10 ^ 6"
    and "list_all two [m, m', d, d', h, h', i, i', s, s']"
    and "y < y' \<or> y = y' \<and> (m < m' \<or> m = m' \<and> (d < d' \<or> d = d' \<and> (h < h' \<or> h = h' \<and>
      (i < i' \<or> i = i' \<and> (s < s' \<or> s = s' \<and> f < f')))))"
  shows "dec_fixed 4 (nat y) @ 45 # dec_fixed 2 (nat m) @ 45 # dec_fixed 2 (nat d) @
      84 # dec_fixed 2 (nat h) @ 58 # dec_fixed 2 (nat i) @ 58 # dec_fixed 2 (nat s) @ 46 # dec_fixed 6 (nat f) @ [90]
    < dec_fixed 4 (nat y') @ 45 # dec_fixed 2 (nat m') @ 45 # dec_fixed 2 (nat d') @
      84 # dec_fixed 2 (nat h') @ 58 # dec_fixed 2 (nat i') @ 58 # dec_fixed 2 (nat s') @ 46 # dec_fixed 6 (nat f') @ [90]"
proof -
  have t: "two m" "two m'" "two d" "two d'" "two h" "two h'" "two i" "two i'" "two s" "two s'"
    using assms(9) by simp_all
  have lex: "dec_fixed 2 (nat a) @ c # x < dec_fixed 2 (nat b) @ c # z \<longleftrightarrow> a < b \<or> a = b \<and> x < z"
    if "two a" "two b" for a b c x z
    using that unfolding two_def by (intro dec_fixed_lex) simp_all
  show ?thesis
    using assms(10)
    by (simp only: dec_fixed_lex [OF assms(1-4)] lex [OF t(1,2)] lex [OF t(3,4)] lex [OF t(5,6)]
        lex [OF t(7,8)] lex [OF t(9,10)] dec_fixed_lex [OF assms(5-8)] less_irrefl) blast
qed

lemma timestamp_mono:
  assumes "in_calendar t" "in_calendar u" "t < u"
  shows "timestamp t < timestamp u"
proof -
  let ?d = "\<lambda>t. t div 86400000000 + 719162" and ?s = "\<lambda>t. t mod 86400000000 div 1000000"
  let ?f = "\<lambda>t. t mod 86400000000 mod 1000000"
  obtain y m d y' m' d' where ymd: "ord2ymd (?d t) = (y, m, d)" "ord2ymd (?d u) = (y', m', d')"
    by (metis prod_cases3)
  have "0 \<le> ?d t \<and> ?d t < 3652059" "0 \<le> ?d u \<and> ?d u < 3652059"
    using assms(1,2) by (auto simp: in_calendar_def min_instant_def max_instant_def)
  with ord2ymd_bounds [OF _ _ ymd(1)] ord2ymd_bounds [OF _ _ ymd(2)]
  have b: "1 \<le> y \<and> y \<le> 9999 \<and> 1 \<le> m \<and> m \<le> 12 \<and> 1 \<le> d \<and> d \<le> 99"
    "1 \<le> y' \<and> y' \<le> 9999 \<and> 1 \<le> m' \<and> m' \<le> 12 \<and> 1 \<le> d' \<and> d' \<le> 99" by auto
  have f: "0 \<le> a mod 1000000" "a mod 1000000 < 10 ^ 6" and sixty: "two (a mod 60)" for a :: int
    using pos_mod_bound [of 60 a] by (simp_all add: two_def)
  have hour: "two (?s x div 3600)" for x :: int
    unfolding two_def using hours_bound by blast
  have md: "two m" "two m'" "two d" "two d'" "0 \<le> y" "y < 10 ^ 4" "0 \<le> y'" "y' < 10 ^ 4"
    using b by (simp_all add: two_def)
  have day: "(y, m, d) < (y', m', d') \<or> (y, m, d) = (y', m', d') \<and> (?s t < ?s u \<or> ?s t = ?s u \<and> ?f t < ?f u)"
    using instant_lex [OF assms(3)] unfolding ymd .
  have ordered: "y < y' \<or> y = y' \<and> (m < m' \<or> m = m' \<and> (d < d' \<or> d = d' \<and>
      (?s t div 3600 < ?s u div 3600 \<or> ?s t div 3600 = ?s u div 3600 \<and>
       (?s t div 60 mod 60 < ?s u div 60 mod 60 \<or> ?s t div 60 mod 60 = ?s u div 60 mod 60 \<and>
        (?s t mod 60 < ?s u mod 60 \<or> ?s t mod 60 = ?s u mod 60 \<and> ?f t < ?f u)))))"
  proof (cases "(y, m, d) < (y', m', d')")
    case True
    then have "y < y' \<or> y = y' \<and> (m < m' \<or> m = m' \<and> d < d')" by (auto simp: le_less)
    then show ?thesis by blast
  next
    case False
    with day have "y = y'" "m = m'" "d = d'" "?s t < ?s u \<or> ?s t = ?s u \<and> ?f t < ?f u" by blast+
    with hmsf_lex [OF this(4)] show ?thesis by blast
  qed
  show ?thesis
    unfolding timestamp_def ymd Let_def prod.case
    by (rule fields_lex [OF md(5-8) f f _ ordered])
      (simp only: list.pred_inject md hour sixty simp_thms)
qed

end
