(* ===== verification/Change_Serialization.thy ===== *)
theory Change_Serialization
  imports Serialization_Verification Change_Verifier Timestamp_Order
begin

text \<open>
  The change half of \<^verbatim>\<open>domain/serialization.py\<close>: canonical texts of change-event ledgers and
  of change verification results. A validated change ledger always prints, because printed
  times sort chronologically; the printed text determines the ledger.
\<close>

section \<open>Ledgers\<close>

definition CHANGE_VERIFICATION_SCHEMA_VERSION :: pystr where
  "CHANGE_VERIFICATION_SCHEMA_VERSION = lit ''change-cooccurrence-verification.v1''"

definition ser_change_event_key :: "change_event_key \<Rightarrow> domain_error + json" where
  "ser_change_event_key k = ser_text (event_key_value k)"

definition ser_change_entry :: "change_event_evidence \<Rightarrow> domain_error + json" where
  "ser_change_entry e =
     rbind (ser_change_event_key (cv_event_key e)) (\<lambda>event_key.
     rbind (ser_evidence_id (cv_evidence_id e)) (\<lambda>evidence_id.
     Inr (JObj [(lit ''event_key'', event_key), (lit ''evidence_id'', evidence_id),
       (lit ''kind'', JStr (change_kind_value (cv_kind e))),
       (lit ''occurred_at'', JStr (timestamp (cv_occurred_at e))),
       (lit ''phase'', JStr (change_phase_value (cv_phase e)))])))"

definition ser_change_entries :: "change_event_evidence list \<Rightarrow> domain_error + json list" where
  "ser_change_entries es =
     rbind (rmap ser_change_entry es) (\<lambda>serialized.
     let order = map (\<lambda>entry. (json_text (field ''occurred_at'' entry), json_text (field ''kind'' entry),
           json_text (field ''event_key'' entry))) serialized in
     if order \<noteq> sort order \<or> \<not> distinct order then ser_fail else Inr serialized)"

definition ser_change_ledger :: "change_event_ledger \<Rightarrow> domain_error + json" where
  "ser_change_ledger v =
     rbind (case validate_change_event_ledger v of Inl _ \<Rightarrow> ser_fail | Inr l \<Rightarrow> Inr l) (\<lambda>l.
     rbind (ser_text (cl_schema_version l)) (\<lambda>schema_version.
     if cl_schema_version l \<noteq> CHANGE_SCHEMA_VERSION then ser_fail
     else
       rbind (ser_change_entries (cl_entries l)) (\<lambda>entries.
       rbind (ser_text (incident_value (cl_incident_id l))) (\<lambda>incident_id.
       rbind (ser_window (cl_window l)) (\<lambda>window.
       rbind (ser_text (run_value (cl_run_id l))) (\<lambda>run_id.
       rbind (ser_text (tenant_value (cl_tenant_id l))) (\<lambda>tenant_id.
       Inr (JObj [(lit ''entries'', JList entries), (lit ''incident_id'', incident_id),
         (lit ''incident_window'', window), (lit ''run_id'', run_id),
         (lit ''schema_version'', schema_version), (lit ''tenant_id'', tenant_id)]))))))))"

definition change_ledger_json :: "change_event_ledger \<Rightarrow> domain_error + pystr" where
  "change_ledger_json ledger = rbind (ser_change_ledger ledger) canonical_json"

section \<open>Verification results\<close>

fun change_unknown_reason_value :: "change_unknown_reason \<Rightarrow> pystr" where
  "change_unknown_reason_value CR_CONTEXT_MISMATCH = lit ''context_mismatch''"
| "change_unknown_reason_value CR_CAUSAL_CLAIM_NOT_VERIFIABLE = lit ''causal_claim_not_verifiable''"
| "change_unknown_reason_value CR_CHANGE_NOT_OBSERVED = lit ''change_not_observed''"

fun phase_constraint_value :: "phase_constraint \<Rightarrow> pystr" where
  "phase_constraint_value WITHIN_WINDOW = lit ''within_window''"
| "phase_constraint_value PRE_INJECTION_ONLY = lit ''pre_injection''"
| "phase_constraint_value POST_INJECTION_ONLY = lit ''post_injection''"

abbreviation jchange_reason :: "change_unknown_reason \<Rightarrow> json" where
  "jchange_reason r \<equiv> JStr (change_unknown_reason_value r)"

definition ser_change_predicate_result :: "change_predicate_result \<Rightarrow> domain_error + json" where
  "ser_change_predicate_result t =
     (let verdict = jverdict (cpr_verdict t);
          reason = ser_optional change_unknown_reason_value (cpr_reason t);
          phase_constraint = JStr (phase_constraint_value (cpr_phase_constraint t)) in
      rbind (ser_evidence_ids (cpr_supporting_evidence_ids t)) (\<lambda>supporting.
      rbind (ser_evidence_ids (cpr_contradicting_evidence_ids t)) (\<lambda>contradicting.
      if set (items supporting) \<inter> set (items contradicting) \<noteq> {} then ser_fail
      else if
        (if verdict = jverdict UNKNOWN then
           reason = JNull \<or> items supporting \<noteq> [] \<or> items contradicting \<noteq> []
         else if reason \<noteq> JNull then True
         else if verdict = jverdict SUPPORTED then items supporting = [] \<or> items contradicting \<noteq> []
         else if verdict = jverdict REFUTED then items supporting \<noteq> [] \<or> items contradicting = []
         else True) then ser_fail
      else
        rbind (ser_text (cpr_predicate_id t)) (\<lambda>predicate_id.
        Inr (JObj [(lit ''contradicting_evidence_ids'', contradicting),
          (lit ''phase_constraint'', phase_constraint), (lit ''predicate_id'', predicate_id),
          (lit ''reason'', reason), (lit ''supporting_evidence_ids'', supporting),
          (lit ''verdict'', verdict)])))))"

definition ser_change_predicate_results :: "change_predicate_result list \<Rightarrow> domain_error + json list" where
  "ser_change_predicate_results ts =
     rbind (rmap ser_change_predicate_result ts) (\<lambda>serialized.
       if \<not> distinct (map (field ''predicate_id'') serialized) then ser_fail else Inr serialized)"

definition ser_change_verification :: "change_verification_result \<Rightarrow> domain_error + json" where
  "ser_change_verification r =
     (let composition = JStr (composition_value (cvr_composition r)); verdict = jverdict (cvr_verdict r);
          reason = ser_optional change_unknown_reason_value (cvr_reason r);
          gate_reasons = {jchange_reason CR_CONTEXT_MISMATCH, jchange_reason CR_CAUSAL_CLAIM_NOT_VERIFIABLE} in
      rbind (ser_change_predicate_results (cvr_predicate_results r)) (\<lambda>predicates.
      if predicates = [] then ser_fail
      else
        rbind (ser_evidence_ids (cvr_supporting_evidence_ids r)) (\<lambda>supporting.
        rbind (ser_evidence_ids (cvr_contradicting_evidence_ids r)) (\<lambda>contradicting.
        if items supporting \<noteq> concat (map (\<lambda>p. items (field ''supporting_evidence_ids'' p)) predicates) \<or>
           items contradicting \<noteq> concat (map (\<lambda>p. items (field ''contradicting_evidence_ids'' p)) predicates)
        then ser_fail
        else if verdict \<noteq> expected_verdict composition (map (field ''verdict'') predicates) then ser_fail
        else if
          (if reason \<noteq> JNull then
             reason \<notin> gate_reasons \<or> verdict \<noteq> jverdict UNKNOWN \<or>
             items supporting \<noteq> [] \<or> items contradicting \<noteq> [] \<or>
             list_ex (\<lambda>p. field ''verdict'' p \<noteq> jverdict UNKNOWN \<or> field ''reason'' p \<noteq> reason \<or>
               items (field ''supporting_evidence_ids'' p) \<noteq> [] \<or>
               items (field ''contradicting_evidence_ids'' p) \<noteq> []) predicates
           else list_ex (\<lambda>p. field ''reason'' p \<in> gate_reasons) predicates) then ser_fail
        else
          rbind (ser_text (cvr_hypothesis_id r)) (\<lambda>hypothesis_id.
          Inr (JObj [(lit ''composition'', composition), (lit ''contradicting_evidence_ids'', contradicting),
            (lit ''hypothesis_id'', hypothesis_id), (lit ''predicate_results'', JList predicates),
            (lit ''reason'', reason), (lit ''schema_version'', JStr CHANGE_VERIFICATION_SCHEMA_VERSION),
            (lit ''supporting_evidence_ids'', supporting), (lit ''verdict'', verdict)]))))))"

definition change_verification_json :: "change_verification_result \<Rightarrow> domain_error + pystr" where
  "change_verification_json result = rbind (ser_change_verification result) canonical_json"

section \<open>Printing ledgers\<close>

definition change_entry_object :: "change_event_evidence \<Rightarrow> json" where
  "change_entry_object e = JObj
     [(lit ''event_key'', JStr (event_key_value (cv_event_key e))),
      (lit ''evidence_id'', JStr (evidence_value (cv_evidence_id e))),
      (lit ''kind'', JStr (change_kind_value (cv_kind e))),
      (lit ''occurred_at'', JStr (timestamp (cv_occurred_at e))),
      (lit ''phase'', JStr (change_phase_value (cv_phase e)))]"

lemma ser_change_entry_Inr [ser_simps]:
  "ser_change_entry e = Inr j \<longleftrightarrow> j = change_entry_object e \<and>
     \<not> is_blank (event_key_value (cv_event_key e)) \<and> digest_format (evidence_value (cv_evidence_id e))"
  by (auto simp: ser_change_entry_def ser_change_event_key_def ser_simps res_simps change_entry_object_def)

definition change_ledger_object :: "change_event_ledger \<Rightarrow> json" where
  "change_ledger_object l = JObj
     [(lit ''entries'', JList (map change_entry_object (cl_entries l))),
      (lit ''incident_id'', JStr (incident_value (cl_incident_id l))),
      (lit ''incident_window'', window_payload (cl_window l)),
      (lit ''run_id'', JStr (run_value (cl_run_id l))),
      (lit ''schema_version'', JStr (cl_schema_version l)),
      (lit ''tenant_id'', JStr (tenant_value (cl_tenant_id l)))]"

lemma valid_change_entry_facts:
  assumes "valid_change_ledger l" "e \<in> set (cl_entries l)"
  shows "\<not> is_blank (event_key_value (cv_event_key e))" "in_calendar (cv_occurred_at e)"
    "digest_format (evidence_value (cv_evidence_id e))"
proof -
  have "rmap (build_entry (cl_tenant_id l) (cl_incident_id l) (cl_run_id l) (cl_window l))
      (map entry_event (cl_entries l)) = Inr (cl_entries l)"
    using assms(1) by (simp add: valid_change_ledger_def)
  from rmap_Inr_in [OF this assms(2)] obtain x where
    x: "build_entry (cl_tenant_id l) (cl_incident_id l) (cl_run_id l) (cl_window l) x = Inr e" by blast
  have "check_change_entry (cl_window l) e = Inr (cv_evidence_id e, x)" by (rule build_entry_checks(2) [OF x])
  then show "\<not> is_blank (event_key_value (cv_event_key e))" "in_calendar (cv_occurred_at e)"
    "digest_format (evidence_value (cv_evidence_id e))"
    by (simp_all add: parse_simps valid_change_event_def entry_event_def)
qed

text \<open>The order of the printed triples is the order of the events.\<close>

lemma printed_order:
  assumes "valid_change_ledger l"
  shows "sorted_wrt (<) (map (\<lambda>e. (timestamp (cv_occurred_at e), change_kind_value (cv_kind e),
    event_key_value (cv_event_key e))) (cl_entries l))"
proof -
  let ?p = "\<lambda>e. (timestamp (cv_occurred_at e), change_kind_value (cv_kind e), event_key_value (cv_event_key e))"
  have keys: "sorted_wrt (\<lambda>a b. order_key (entry_event a) < order_key (entry_event b)) (cl_entries l)"
    using assms by (simp add: valid_change_ledger_def sorted_wrt_map comp_def)
  have "?p a < ?p b" if "a \<in> set (cl_entries l)" "b \<in> set (cl_entries l)"
    "order_key (entry_event a) < order_key (entry_event b)" for a b
    using that(3) timestamp_mono [OF valid_change_entry_facts(2) [OF assms that(1)]
        valid_change_entry_facts(2) [OF assms that(2)]]
    by (auto simp: order_key_def entry_event_def le_less)
  from sorted_wrt_mono_rel [OF this keys] show ?thesis by (simp add: sorted_wrt_map)
qed

lemma ser_change_ledger_Inr:
  "ser_change_ledger v = Inr j \<longleftrightarrow> validate_change_event_ledger v = Inr v \<and> j = change_ledger_object v"
proof (cases "validate_change_event_ledger v")
  case (Inl e)
  then show ?thesis by (simp add: ser_change_ledger_def)
next
  case (Inr l)
  from validate_change_Inr [OF Inr] have l: "valid_change_ledger v" "l = v" by auto
  note f = l(1) [unfolded valid_change_ledger_def valid_window_def]
  have rows: "rmap ser_change_entry (cl_entries v) = Inr (map change_entry_object (cl_entries v))"
    using valid_change_entry_facts [OF l(1)] by (intro rmap_Inr_map) (simp add: ser_simps)
  have order: "map (\<lambda>entry. (json_text (field ''occurred_at'' entry), json_text (field ''kind'' entry),
      json_text (field ''event_key'' entry))) (map change_entry_object (cl_entries v)) =
    map (\<lambda>e. (timestamp (cv_occurred_at e), change_kind_value (cv_kind e), event_key_value (cv_event_key e)))
      (cl_entries v)"
    by (simp add: field_def change_entry_object_def json_text_def)
  have canon: "sort ks = ks \<and> distinct ks" if "sorted_wrt (<) ks" for ks :: "(pystr \<times> pystr \<times> pystr) list"
    using that by (simp add: strict_sorted_iff sorted_sort_id)
  have entries: "ser_change_entries (cl_entries v) = Inr (map change_entry_object (cl_entries v))"
    unfolding ser_change_entries_def Let_def rows rbind_simps order
    using canon [OF printed_order [OF l(1)]] by simp
  have "\<not> is_blank CHANGE_SCHEMA_VERSION"
    by (simp add: CHANGE_SCHEMA_VERSION_def lit_def is_blank_iff py_isspace_def)
  with f entries Inr l(2) show ?thesis
    by (auto simp: ser_change_ledger_def res_simps ser_simps change_ledger_object_def)
qed

lemma change_ledger_json_Inr:
  "change_ledger_json v = Inr s \<longleftrightarrow> validate_change_event_ledger v = Inr v \<and>
     s = dumps (change_ledger_object v) @ [10] \<and> encodable (dumps (change_ledger_object v))"
  by (auto simp: change_ledger_json_def res_simps ser_change_ledger_Inr canonical_json_Inr)

lemma canon_change_entry_object [simp]: "canon (change_entry_object e) = change_entry_object e"
  unfolding change_entry_object_def by (subst canon_sorted) (simp_all add: lit_def)

lemma canon_change_ledger_object: "canon (change_ledger_object l) = change_ledger_object l"
  unfolding change_ledger_object_def
  by (subst canon_sorted) (simp add: lit_def, simp add: comp_def del: canon.simps(2))

lemma change_entry_object_inj:
  assumes "in_calendar (cv_occurred_at a)" "in_calendar (cv_occurred_at b)"
    and "change_entry_object a = change_entry_object b"
  shows "a = b"
  using assms timestamp_inj
  by (cases a; cases b)
    (simp add: change_entry_object_def change_kind_value_inj change_phase_value_inj evidence_id.expand
      change_event_key.expand)

lemma change_entry_objects_inj:
  assumes "\<forall>e \<in> set as. in_calendar (cv_occurred_at e)" "\<forall>e \<in> set bs. in_calendar (cv_occurred_at e)"
    and "map change_entry_object as = map change_entry_object bs"
  shows "as = bs"
  using assms
proof (induction as arbitrary: bs)
  case (Cons a as)
  then obtain b bs' where b: "bs = b # bs'" by (cases bs) simp_all
  have "a = b" by (rule change_entry_object_inj) (use Cons.prems b in simp_all)
  moreover have "as = bs'" by (rule Cons.IH) (use Cons.prems b in simp_all)
  ultimately show ?case using b by simp
qed simp

lemma encodable_change_enums [simp]: "encodable (change_kind_value k)" "encodable (change_phase_value p)"
  by (cases k; simp) (cases p; simp)

lemma change_ledger_object_encodable:
  assumes "valid_change_ledger l" "\<forall>e \<in> set (cl_entries l). encodable (event_key_value (cv_event_key e))"
    and "list_all encodable [tenant_value (cl_tenant_id l), incident_value (cl_incident_id l), run_value (cl_run_id l)]"
  shows "json_encodable (change_ledger_object l)"
proof -
  have "json_encodable (change_entry_object e)" if "e \<in> set (cl_entries l)" for e
    using assms(2) that digest_encodable [OF valid_change_entry_facts(3) [OF assms(1) that]]
    by (simp add: change_entry_object_def)
  with assms show ?thesis
    by (simp add: change_ledger_object_def window_payload_def valid_change_ledger_def CHANGE_SCHEMA_VERSION_def)
qed

section \<open>Printing change verification results\<close>

definition change_predicate_object :: "change_predicate_result \<Rightarrow> json" where
  "change_predicate_object t = JObj
     [(lit ''contradicting_evidence_ids'', JList (jids (cpr_contradicting_evidence_ids t))),
      (lit ''phase_constraint'', JStr (phase_constraint_value (cpr_phase_constraint t))),
      (lit ''predicate_id'', JStr (cpr_predicate_id t)),
      (lit ''reason'', ser_optional change_unknown_reason_value (cpr_reason t)),
      (lit ''supporting_evidence_ids'', JList (jids (cpr_supporting_evidence_ids t))),
      (lit ''verdict'', jverdict (cpr_verdict t))]"

definition consistent_change_trace :: "change_predicate_result \<Rightarrow> bool" where
  "consistent_change_trace t \<longleftrightarrow> ids_ok (cpr_supporting_evidence_ids t) \<and> ids_ok (cpr_contradicting_evidence_ids t) \<and>
     (cpr_verdict t = UNKNOWN \<longleftrightarrow> cpr_reason t \<noteq> None) \<and>
     (cpr_verdict t = SUPPORTED \<longleftrightarrow> cpr_supporting_evidence_ids t \<noteq> []) \<and>
     (cpr_verdict t = REFUTED \<longleftrightarrow> cpr_contradicting_evidence_ids t \<noteq> []) \<and> \<not> is_blank (cpr_predicate_id t)"

lemma ser_change_predicate_result_ok:
  "consistent_change_trace t \<Longrightarrow> ser_change_predicate_result t = Inr (change_predicate_object t)"
  by (cases "cpr_verdict t")
    (auto simp: consistent_change_trace_def ser_change_predicate_result_def Let_def ids_ok_def
      ser_evidence_ids_Inr [THEN iffD2] ser_text_Inr [THEN iffD2] change_predicate_object_def
      simp del: verdict_value.simps split: verdict.splits)

lemma change_predicate_object_fields:
  "field ''predicate_id'' (change_predicate_object t) = JStr (cpr_predicate_id t)"
  "field ''verdict'' (change_predicate_object t) = jverdict (cpr_verdict t)"
  "field ''reason'' (change_predicate_object t) = ser_optional change_unknown_reason_value (cpr_reason t)"
  "field ''supporting_evidence_ids'' (change_predicate_object t) = JList (jids (cpr_supporting_evidence_ids t))"
  "field ''contradicting_evidence_ids'' (change_predicate_object t) = JList (jids (cpr_contradicting_evidence_ids t))"
  by (simp_all add: field_def change_predicate_object_def)

definition change_gate :: "change_unknown_reason \<Rightarrow> bool" where
  "change_gate r \<longleftrightarrow> r = CR_CONTEXT_MISMATCH \<or> r = CR_CAUSAL_CLAIM_NOT_VERIFIABLE"

definition change_verification_object :: "change_verification_result \<Rightarrow> json" where
  "change_verification_object r = JObj
     [(lit ''composition'', JStr (composition_value (cvr_composition r))),
      (lit ''contradicting_evidence_ids'', JList (jids (cvr_contradicting_evidence_ids r))),
      (lit ''hypothesis_id'', JStr (cvr_hypothesis_id r)),
      (lit ''predicate_results'', JList (map change_predicate_object (cvr_predicate_results r))),
      (lit ''reason'', ser_optional change_unknown_reason_value (cvr_reason r)),
      (lit ''schema_version'', JStr CHANGE_VERIFICATION_SCHEMA_VERSION),
      (lit ''supporting_evidence_ids'', JList (jids (cvr_supporting_evidence_ids r))),
      (lit ''verdict'', jverdict (cvr_verdict r))]"

definition consistent_change_result :: "change_verification_result \<Rightarrow> bool" where
  "consistent_change_result r \<longleftrightarrow> cvr_predicate_results r \<noteq> [] \<and>
     list_all consistent_change_trace (cvr_predicate_results r) \<and>
     distinct (map cpr_predicate_id (cvr_predicate_results r)) \<and> \<not> is_blank (cvr_hypothesis_id r) \<and>
     cvr_supporting_evidence_ids r = concat (map cpr_supporting_evidence_ids (cvr_predicate_results r)) \<and>
     cvr_contradicting_evidence_ids r = concat (map cpr_contradicting_evidence_ids (cvr_predicate_results r)) \<and>
     cvr_verdict r = kleene (cvr_composition r) (map cpr_verdict (cvr_predicate_results r)) \<and>
     (case cvr_reason r of
        Some g \<Rightarrow> change_gate g \<and> (\<forall>t \<in> set (cvr_predicate_results r). cpr_reason t = Some g)
      | None \<Rightarrow> (\<forall>t \<in> set (cvr_predicate_results r). \<forall>g. cpr_reason t = Some g \<longrightarrow> \<not> change_gate g))"

lemma change_reason_value_inj [simp]:
  "change_unknown_reason_value a = change_unknown_reason_value b \<longleftrightarrow> a = b"
  by (cases a; cases b) simp_all

lemma change_gate_reason:
  "ser_optional change_unknown_reason_value v \<in>
     {jchange_reason CR_CONTEXT_MISMATCH, jchange_reason CR_CAUSAL_CLAIM_NOT_VERIFIABLE}
     \<longleftrightarrow> (\<exists>g. v = Some g \<and> change_gate g)"
  by (auto simp: change_gate_def simp del: change_unknown_reason_value.simps)

lemma consistent_unknown:
  "consistent_change_trace t \<Longrightarrow> cpr_reason t = Some g \<Longrightarrow> cpr_verdict t = UNKNOWN \<and>
     cpr_supporting_evidence_ids t = [] \<and> cpr_contradicting_evidence_ids t = []"
  by (auto simp: consistent_change_trace_def)

lemma ser_change_verification_ok:
  assumes "consistent_change_result r"
  shows "ser_change_verification r = Inr (change_verification_object r)"
proof -
  let ?ts = "cvr_predicate_results r" and ?ps = "map change_predicate_object (cvr_predicate_results r)"
  note c = assms [unfolded consistent_change_result_def]
  have "rmap ser_change_predicate_result ?ts = Inr ?ps"
    using c ser_change_predicate_result_ok by (intro rmap_Inr_map) (simp add: list_all_iff)
  moreover have "distinct (map (field ''predicate_id'') ?ps)"
    using c by (auto simp: change_predicate_object_fields comp_def distinct_map inj_on_def)
  ultimately have pr: "ser_change_predicate_results ?ts = Inr ?ps"
    by (simp add: ser_change_predicate_results_def)
  have sup: "concat (map (\<lambda>p. items (field ''supporting_evidence_ids'' p)) ?ps) = jids (cvr_supporting_evidence_ids r)"
    and con: "concat (map (\<lambda>p. items (field ''contradicting_evidence_ids'' p)) ?ps) = jids (cvr_contradicting_evidence_ids r)"
    using c by (simp_all add: comp_def change_predicate_object_fields concat_jids)
  have exp: "expected_verdict (JStr (composition_value (cvr_composition r))) (map (field ''verdict'') ?ps) =
      jverdict (cvr_verdict r)"
    using c expected_verdict_kleene [of "cvr_composition r" "map cpr_verdict ?ts"]
    by (simp add: comp_def change_predicate_object_fields)
  have ok: "list_all (\<lambda>i. digest_format (evidence_value i)) (cvr_supporting_evidence_ids r)"
    "list_all (\<lambda>i. digest_format (evidence_value i)) (cvr_contradicting_evidence_ids r)"
    using c by (auto simp: list_all_iff consistent_change_trace_def ids_ok_def)
  have ids: "ser_evidence_ids (cvr_supporting_evidence_ids r) = Inr (JList (jids (cvr_supporting_evidence_ids r)))"
    "ser_evidence_ids (cvr_contradicting_evidence_ids r) = Inr (JList (jids (cvr_contradicting_evidence_ids r)))"
    using ok by (simp_all add: ser_evidence_ids_Inr)
  have guard: "(if ser_optional change_unknown_reason_value (cvr_reason r) \<noteq> JNull then
      ser_optional change_unknown_reason_value (cvr_reason r) \<notin>
        {jchange_reason CR_CONTEXT_MISMATCH, jchange_reason CR_CAUSAL_CLAIM_NOT_VERIFIABLE} \<or>
      jverdict (cvr_verdict r) \<noteq> jverdict UNKNOWN \<or> items (JList (jids (cvr_supporting_evidence_ids r))) \<noteq> [] \<or>
      items (JList (jids (cvr_contradicting_evidence_ids r))) \<noteq> [] \<or>
      list_ex (\<lambda>p. field ''verdict'' p \<noteq> jverdict UNKNOWN \<or>
        field ''reason'' p \<noteq> ser_optional change_unknown_reason_value (cvr_reason r) \<or>
        items (field ''supporting_evidence_ids'' p) \<noteq> [] \<or> items (field ''contradicting_evidence_ids'' p) \<noteq> []) ?ps
    else list_ex (\<lambda>p. field ''reason'' p \<in>
        {jchange_reason CR_CONTEXT_MISMATCH, jchange_reason CR_CAUSAL_CLAIM_NOT_VERIFIABLE}) ?ps) = False"
  proof (cases "cvr_reason r")
    case None
    then have "\<forall>t \<in> set ?ts. \<nexists>g. cpr_reason t = Some g \<and> change_gate g" using c by simp
    with None show ?thesis
      unfolding list_ex_iff list.set_map bex_simps(7) change_predicate_object_fields change_gate_reason by simp
  next
    case (Some g)
    then have t: "\<forall>t \<in> set ?ts. cpr_reason t = Some g \<and> cpr_verdict t = UNKNOWN \<and>
        cpr_supporting_evidence_ids t = [] \<and> cpr_contradicting_evidence_ids t = []" and g: "change_gate g"
      using c consistent_unknown by (auto simp: list_all_iff)
    then have "cvr_verdict r = UNKNOWN" "cvr_supporting_evidence_ids r = []" "cvr_contradicting_evidence_ids r = []"
      using c kleene_all_unknown [of "map cpr_verdict ?ts"] by auto
    with t g show ?thesis
      unfolding list_ex_iff list.set_map bex_simps(7) change_predicate_object_fields change_gate_reason Some
      by simp
  qed
  show ?thesis
    unfolding ser_change_verification_def Let_def pr rbind_simps ids sup con exp guard
    using c by (simp add: ser_text_def change_verification_object_def)
qed

lemma judge_change_consistent:
  assumes "valid_change_ledger l" "valid_change_hypothesis h" "judge_change_document h l = (reason, ts, v)"
  shows "list_all consistent_change_trace ts \<and> map cpr_predicate_id ts = map cp_predicate_id (ch_predicates h) \<and>
    v = kleene (ch_composition h) (map cpr_verdict ts) \<and>
    (case reason of Some g \<Rightarrow> change_gate g \<and> (\<forall>t \<in> set ts. cpr_reason t = Some g)
     | None \<Rightarrow> (\<forall>t \<in> set ts. \<forall>g. cpr_reason t = Some g \<longrightarrow> \<not> change_gate g))"
proof -
  have h: "ch_predicates h \<noteq> []" "\<forall>p \<in> set (ch_predicates h). \<not> is_blank (cp_predicate_id p)"
    using assms(2) by (auto simp: valid_change_hypothesis_def list_all_iff)
  have d: "\<forall>i \<in> set (map cv_evidence_id (cl_entries l)). digest_format (evidence_value i)"
    using valid_change_entry_facts(3) [OF assms(1)] by simp
  show ?thesis
  proof (cases "change_context_matches h l \<and> ch_semantics h = DESCRIPTIVE")
    case True
    then have j: "reason = None" "v = compose_change_results (ch_composition h) ts"
      "ts = map (\<lambda>p. evaluate_change_predicate p (cl_entries l)) (ch_predicates h)"
      using judge_change_evaluated [OF assms(3)] by auto
    have e: "cpr_predicate_id (evaluate_change_predicate p es) = cp_predicate_id p"
      "(cpr_verdict (evaluate_change_predicate p es) = UNKNOWN \<longleftrightarrow> cpr_reason (evaluate_change_predicate p es) \<noteq> None)"
      "cpr_reason (evaluate_change_predicate p es) = Some g \<Longrightarrow> \<not> change_gate g" for p es g
      by (auto simp: evaluate_change_predicate_def change_unknown_def Let_def change_gate_def split: if_splits)
    have "consistent_change_trace (evaluate_change_predicate p (cl_entries l))" if "p \<in> set (ch_predicates h)" for p
    proof -
      let ?t = "evaluate_change_predicate p (cl_entries l)"
      note cites = evaluate_change_cites [of p "cl_entries l"]
      have "ids_ok (cpr_supporting_evidence_ids ?t)" "ids_ok (cpr_contradicting_evidence_ids ?t)"
        using cites d unfolding ids_ok_def list_all_iff by blast+
      with cites e(2) [of p "cl_entries l"] h(2) that show ?thesis
        by (simp add: consistent_change_trace_def e(1))
    qed
    with e show ?thesis
      by (auto simp: j list_all_iff change_composition.compose_spec)
  next
    case False
    then obtain g where g: "change_gate g" "reason = Some g" "v = UNKNOWN"
      "ts = map (\<lambda>p. change_unknown p g) (ch_predicates h)"
      using assms(3) by (cases "ch_semantics h")
        (auto simp: judge_change_document_def Let_def change_gate_def split: if_splits)
    have "kleene (ch_composition h) (map cpr_verdict ts) = UNKNOWN"
      using h(1) by (intro kleene_all_unknown) (auto simp: g(4) change_unknown_def)
    then show ?thesis
      using g h(2) by (auto simp: list_all_iff change_unknown_def consistent_change_trace_def ids_ok_def)
  qed
qed

section \<open>Properties\<close>

text \<open>
  A change-event ledger prints whenever it validates and its names can be encoded, and
  the printed text determines it: the printer's own check, on printed times, never rejects a
  valid ledger, because ISO timestamps sort chronologically.
\<close>

theorem change_ledger_json_is_total_and_injective:
  assumes "validate_change_event_ledger l = Inr l"
    and "\<forall>e \<in> set (cl_entries l). encodable (event_key_value (cv_event_key e))"
    and "list_all encodable [tenant_value (cl_tenant_id l), incident_value (cl_incident_id l), run_value (cl_run_id l)]"
  shows "change_ledger_json l = Inr (dumps (change_ledger_object l) @ [10]) \<and>
    (\<forall>m. change_ledger_json m = change_ledger_json l \<longrightarrow> m = l)"
proof (intro conjI allI impI)
  have v: "valid_change_ledger l" using validate_change_Inr [OF assms(1)] by simp
  show p: "change_ledger_json l = Inr (dumps (change_ledger_object l) @ [10])"
    using change_ledger_object_encodable [OF v assms(2,3)] assms(1)
    by (simp add: change_ledger_json_Inr dumps_def encodable_enc)
  fix m assume "change_ledger_json m = change_ledger_json l"
  then have q: "change_ledger_json m = Inr (dumps (change_ledger_object l) @ [10])" by (simp only: p)
  then have m: "validate_change_event_ledger m = Inr m"
    and "dumps (change_ledger_object m) = dumps (change_ledger_object l)"
    unfolding change_ledger_json_Inr by simp_all
  then have "change_ledger_object m = change_ledger_object l"
    using dumps_inj canon_change_ledger_object by metis
  note eq = this [unfolded change_ledger_object_def, simplified]
  have w: "valid_change_ledger m" using validate_change_Inr [OF m] by simp
  have "cl_entries m = cl_entries l"
    using change_entry_objects_inj valid_change_entry_facts(2) [OF v] valid_change_entry_facts(2) [OF w] eq by simp
  moreover have "cl_window m = cl_window l"
    using window_payload_inj v w eq by (simp add: valid_change_ledger_def)
  moreover have "cl_tenant_id m = cl_tenant_id l" "cl_incident_id m = cl_incident_id l"
    "cl_run_id m = cl_run_id l" "cl_schema_version m = cl_schema_version l"
    using eq by (simp_all add: tenant_id.expand incident_id.expand run_id.expand)
  ultimately show "m = l" by (cases m; cases l) simp
qed

theorem change_ledger_json_is_total_and_injective_witness:
  "\<exists>l. map entry_event (cl_entries l) = [sample_change 10, sample_change 90] \<and>
     change_ledger_json l = Inr (dumps (change_ledger_object l) @ [10])"
proof -
  obtain l where l: "validate_change_event_ledger l = Inr l"
    "map entry_event (cl_entries l) = [sample_change 10, sample_change 90]"
    "cl_tenant_id l = sample_tenant" "cl_incident_id l = sample_incident" "cl_run_id l = sample_run"
    using sample_change_ledger_exists by metis
  have "encodable (event_key_value (cv_event_key e))" if "e \<in> set (cl_entries l)" for e
  proof -
    have "entry_event e \<in> {sample_change 10, sample_change 90}"
      using that l(2) by (metis image_eqI list.set_map list.simps(15) empty_set)
    then show ?thesis by (auto simp: entry_event_def sample_change_def)
  qed
  then have "change_ledger_json l = Inr (dumps (change_ledger_object l) @ [10])"
    using change_ledger_json_is_total_and_injective [OF l(1)] l(3-5)
    by (simp add: sample_tenant_def sample_incident_def sample_run_def)
  with l(2) show ?thesis by metis
qed

text \<open>
  Every result of the change verifier can be reported: it passes the printer's
  consistency check, so that with encodable identifiers its canonical text exists.
\<close>

theorem change_verifier_results_print:
  assumes "verify_change_hypothesis h l = Inr r"
  shows "consistent_change_result r \<and>
    (encodable (dumps (change_verification_object r)) \<longrightarrow>
       change_verification_json r = Inr (dumps (change_verification_object r) @ [10]))"
proof -
  note f = verify_change_Inr [OF assms]
  then have h: "valid_change_hypothesis h" and l: "valid_change_ledger l"
    and j: "judge_change_document h l = (cvr_reason r, cvr_predicate_results r, cvr_verdict r)" by simp_all
  have v: "validate_change_hypothesis_document h = Inr h" "validate_change_event_ledger l = Inr l"
    using h l by (simp_all add: validate_change_hypothesis_Inr validate_valid_change_ledger)
  have "cvr_hypothesis_id r = ch_hypothesis_id h" "cvr_composition r = ch_composition h"
    using arg_cong [OF assms, of "\<lambda>x. cvr_hypothesis_id (projr x)"]
      arg_cong [OF assms, of "\<lambda>x. cvr_composition (projr x)"]
    by (simp_all add: verify_change_hypothesis_def v j)
  moreover have "ch_predicates h \<noteq> []" "distinct (map cp_predicate_id (ch_predicates h))" "\<not> is_blank (ch_hypothesis_id h)"
    using h by (auto simp: valid_change_hypothesis_def)
  ultimately have "consistent_change_result r"
    using judge_change_consistent [OF l h j] f by (auto simp: consistent_change_result_def)
  then show ?thesis
    by (simp add: change_verification_json_def ser_change_verification_ok canonical_json_Inr)
qed

theorem change_verifier_results_print_witness:
  "\<exists>l r. verify_change_hypothesis sample_change_hypothesis l = Inr r \<and> consistent_change_result r"
  using sample_change_verification change_verifier_results_print by metis

end
