(* ===== verification/Persistence.thy ===== *)
theory Persistence
  imports Domain_Core Canonical_Json "HOL-Library.AList"
begin

text \<open>
  \<^verbatim>\<open>persistence/errors.py\<close>, \<^verbatim>\<open>records.py\<close>, \<^verbatim>\<open>repositories.py\<close> and \<^verbatim>\<open>memory.py\<close>: the records, the
  in-memory tables and the repository operations over them.

  A table is the association list of a Python dictionary in insertion order: assignment to a
  present key keeps its place, a new key goes to the end (\<^const>\<open>AList.update\<close>). Instants are
  microseconds, as in the domain; a clock reading (\<^verbatim>\<open>datetime.now(UTC)\<close>) is an argument.
  Operations take the tables and return the tables, or the exception that is raised.
\<close>

section \<open>Errors and identifiers\<close>

datatype persistence_error =
    InvalidPersistenceIdentifierError
  | InvalidPersistenceTimestampError
  | InvalidPersistenceRecordError
  | IdempotencyConflictError
  | RecordNotFoundError
  | OverflowError

text \<open>
  The last constructor is Python's own, raised when \<^verbatim>\<open>moment + lease\<close> leaves the calendar; it
  has no code.
\<close>

fun persistence_error_code :: "persistence_error \<Rightarrow> pystr option" where
  "persistence_error_code InvalidPersistenceIdentifierError = Some (lit ''invalid_persistence_identifier'')"
| "persistence_error_code InvalidPersistenceTimestampError = Some (lit ''invalid_persistence_timestamp'')"
| "persistence_error_code InvalidPersistenceRecordError = Some (lit ''invalid_persistence_record'')"
| "persistence_error_code IdempotencyConflictError = Some (lit ''idempotency_conflict'')"
| "persistence_error_code RecordNotFoundError = Some (lit ''record_not_found'')"
| "persistence_error_code OverflowError = None"

text \<open>A UUID is a number of 128 bits; \<^verbatim>\<open>str\<close> prints it in groups of hexadecimal digits.\<close>

type_synonym uuid = "128 word"

definition uuid_str :: "uuid \<Rightarrow> pystr" where
  "uuid_str u = (let h = hex_fixed 32 (unat u) in
     take 8 h @ 45 # take 4 (drop 8 h) @ 45 # take 4 (drop 12 h) @ 45 # take 4 (drop 16 h) @ 45 # drop 20 h)"

datatype investigation_id = InvestigationId (investigation_uuid: uuid)
datatype job_id = JobId (job_uuid: uuid)
datatype attempt_id = AttemptId (attempt_uuid: uuid)

datatype investigation_status = INV_PENDING | INV_RUNNING | INV_SUCCEEDED | INV_FAILED | INV_CANCELLED
datatype job_status = JOB_QUEUED | JOB_CLAIMED | JOB_RUNNING | JOB_SUCCEEDED | JOB_FAILED | JOB_CANCELLED
datatype attempt_outcome = OUTCOME_SUCCEEDED | OUTCOME_FAILED | OUTCOME_TIMEOUT | OUTCOME_CANCELLED
datatype ledger_kind = LEDGER_METRIC | LEDGER_CHANGE

section \<open>Records\<close>

definition check_text :: "pystr \<Rightarrow> persistence_error + unit" where
  "check_text v = (if is_blank v then Inl InvalidPersistenceRecordError else Inr ())"

definition check_optional_text :: "pystr option \<Rightarrow> persistence_error + unit" where
  "check_optional_text v = (case v of None \<Rightarrow> Inr () | Some s \<Rightarrow> check_text s)"

definition check_count :: "int \<Rightarrow> int \<Rightarrow> persistence_error + unit" where
  "check_count v minimum = (if v < minimum then Inl InvalidPersistenceRecordError else Inr ())"

record investigation_record =
  inv_investigation_id :: investigation_id
  inv_tenant :: tenant_id
  inv_incident :: incident_id
  inv_run :: run_id
  inv_window :: incident_window
  inv_status :: investigation_status
  inv_idempotency_key :: "pystr option"
  inv_created_at :: int
  inv_updated_at :: int

definition make_investigation_record :: "investigation_record \<Rightarrow> persistence_error + investigation_record" where
  "make_investigation_record r = rbind (check_optional_text (inv_idempotency_key r)) (\<lambda>_. Inr r)"

record job_record =
  job_job_id :: job_id
  job_investigation_id :: investigation_id
  job_tenant :: tenant_id
  job_status :: job_status
  job_available_at :: int
  job_claimed_by :: "pystr option"
  job_claimed_at :: "int option"
  job_lease_expires_at :: "int option"
  job_attempt_count :: int
  job_max_attempts :: int
  job_created_at :: int
  job_updated_at :: int

definition make_job_record :: "job_record \<Rightarrow> persistence_error + job_record" where
  "make_job_record r =
     rbind (check_optional_text (job_claimed_by r)) (\<lambda>_.
     rbind (check_count (job_attempt_count r) 0) (\<lambda>_.
     rbind (check_count (job_max_attempts r) 1) (\<lambda>_. Inr r)))"

record claimed_job =
  cj_job_id :: job_id
  cj_investigation_id :: investigation_id
  cj_tenant :: tenant_id
  cj_worker_id :: pystr
  cj_lease_expires_at :: int
  cj_attempt_count :: int

definition make_claimed_job :: "claimed_job \<Rightarrow> persistence_error + claimed_job" where
  "make_claimed_job r =
     rbind (check_text (cj_worker_id r)) (\<lambda>_. rbind (check_count (cj_attempt_count r) 1) (\<lambda>_. Inr r))"

record attempt_record =
  at_attempt_id :: attempt_id
  at_job_id :: job_id
  at_tenant :: tenant_id
  at_attempt_number :: int
  at_worker_id :: pystr
  at_started_at :: int
  at_finished_at :: "int option"
  at_outcome :: "attempt_outcome option"
  at_error_code :: "pystr option"
  at_created_at :: int

definition make_attempt_record :: "attempt_record \<Rightarrow> persistence_error + attempt_record" where
  "make_attempt_record r =
     rbind (check_count (at_attempt_number r) 1) (\<lambda>_.
     rbind (check_text (at_worker_id r)) (\<lambda>_.
     rbind (check_optional_text (at_error_code r)) (\<lambda>_. Inr r)))"

record evidence_record =
  er_tenant :: tenant_id
  er_investigation_id :: investigation_id
  er_run :: run_id
  er_evidence_id :: evidence_id
  er_ledger_kind :: ledger_kind
  er_schema_version :: pystr
  er_payload :: pystr
  er_created_at :: int

definition make_evidence_record :: "evidence_record \<Rightarrow> persistence_error + evidence_record" where
  "make_evidence_record r =
     rbind (check_text (er_schema_version r)) (\<lambda>_. rbind (check_text (er_payload r)) (\<lambda>_. Inr r))"

record report_record =
  rp_investigation_id :: investigation_id
  rp_tenant :: tenant_id
  rp_run :: run_id
  rp_schema_version :: pystr
  rp_payload :: pystr
  rp_created_at :: int
  rp_baseline_payload :: "pystr option"

definition make_report_record :: "report_record \<Rightarrow> persistence_error + report_record" where
  "make_report_record r =
     rbind (check_text (rp_schema_version r)) (\<lambda>_.
     rbind (check_text (rp_payload r)) (\<lambda>_.
     rbind (check_optional_text (rp_baseline_payload r)) (\<lambda>_. Inr r)))"

record audit_record =
  au_tenant :: tenant_id
  au_investigation_id :: "investigation_id option"
  au_actor :: pystr
  au_action :: pystr
  au_detail :: "pystr option"
  au_occurred_at :: int

definition make_audit_record :: "audit_record \<Rightarrow> persistence_error + audit_record" where
  "make_audit_record r =
     rbind (check_text (au_actor r)) (\<lambda>_.
     rbind (check_text (au_action r)) (\<lambda>_.
     rbind (check_optional_text (au_detail r)) (\<lambda>_. Inr r)))"

section \<open>Tables\<close>

type_synonym 'v table = "(uuid \<times> 'v) list"
type_synonym evidence_key = "pystr \<times> pystr \<times> pystr"

record tables =
  t_investigations :: "investigation_record table"
  t_jobs :: "job_record table"
  t_attempts :: "attempt_record table"
  t_evidence :: "(evidence_key \<times> evidence_record) list"
  t_reports :: "report_record table"
  t_audit :: "audit_record list"

definition empty_store :: tables where
  "empty_store = \<lparr>t_investigations = [], t_jobs = [], t_attempts = [], t_evidence = [],
     t_reports = [], t_audit = []\<rparr>"

section \<open>Investigations\<close>

definition by_key :: "tables \<Rightarrow> tenant_id \<Rightarrow> pystr option \<Rightarrow> investigation_record option" where
  "by_key s tenant key =
     (case key of None \<Rightarrow> None
      | Some k \<Rightarrow> find (\<lambda>r. inv_tenant r = tenant \<and> inv_idempotency_key r = Some k) (map snd (t_investigations s)))"

definition investigations_create ::
  "investigation_record \<Rightarrow> tables \<Rightarrow> persistence_error + investigation_record \<times> tables" where
  "investigations_create r s =
     (case by_key s (inv_tenant r) (inv_idempotency_key r) of
        Some existing \<Rightarrow> Inr (existing, s)
      | None \<Rightarrow>
          let u = investigation_uuid (inv_investigation_id r) in
          if u \<in> fst ` set (t_investigations s) then Inl IdempotencyConflictError
          else Inr (r, s\<lparr>t_investigations := AList.update u r (t_investigations s)\<rparr>))"

definition investigations_get ::
  "tenant_id \<Rightarrow> investigation_id \<Rightarrow> tables \<Rightarrow> persistence_error + investigation_record" where
  "investigations_get tenant i s =
     (case map_of (t_investigations s) (investigation_uuid i) of
        None \<Rightarrow> Inl RecordNotFoundError
      | Some r \<Rightarrow> if inv_tenant r \<noteq> tenant then Inl RecordNotFoundError else Inr r)"

definition investigations_set_status ::
  "int \<Rightarrow> tenant_id \<Rightarrow> investigation_id \<Rightarrow> investigation_status \<Rightarrow> tables
     \<Rightarrow> persistence_error + investigation_record \<times> tables" where
  "investigations_set_status now tenant i status s =
     rbind (investigations_get tenant i s) (\<lambda>r.
     rbind (make_investigation_record (r\<lparr>inv_status := status, inv_updated_at := now\<rparr>)) (\<lambda>updated.
     Inr (updated, s\<lparr>t_investigations :=
       AList.update (investigation_uuid i) updated (t_investigations s)\<rparr>)))"

section \<open>The job queue\<close>

definition jobs_enqueue :: "job_record \<Rightarrow> tables \<Rightarrow> persistence_error + job_record \<times> tables" where
  "jobs_enqueue r s =
     (let u = job_uuid (job_job_id r) in
      if u \<in> fst ` set (t_jobs s) then Inl IdempotencyConflictError
      else Inr (r, s\<lparr>t_jobs := AList.update u r (t_jobs s)\<rparr>))"

definition claimable :: "job_record \<Rightarrow> int \<Rightarrow> bool" where
  "claimable job moment \<longleftrightarrow>
     (if job_status job = JOB_QUEUED \<and> job_available_at job \<le> moment then True
      else job_status job = JOB_CLAIMED \<and>
        (case job_lease_expires_at job of None \<Rightarrow> False | Some t \<Rightarrow> t \<le> moment))"

definition claim_order :: "job_record \<Rightarrow> int \<times> pystr" where
  "claim_order job = (job_available_at job, uuid_str (job_uuid (job_job_id job)))"

definition jobs_claim ::
  "pystr \<Rightarrow> int \<Rightarrow> int \<Rightarrow> tables \<Rightarrow> persistence_error + claimed_job option \<times> tables" where
  "jobs_claim worker_id lease moment s =
     (if is_blank worker_id then Inl InvalidPersistenceRecordError
      else
        case sort_key claim_order (filter (\<lambda>job. claimable job moment) (map snd (t_jobs s))) of
          [] \<Rightarrow> Inr (None, s)
        | job # _ \<Rightarrow>
            if \<not> in_calendar (moment + lease) then Inl OverflowError
            else
              let lease_expiry = moment + lease; attempt_count = job_attempt_count job + 1 in
              rbind (make_job_record (job\<lparr>job_status := JOB_CLAIMED, job_claimed_by := Some worker_id,
                  job_claimed_at := Some moment, job_lease_expires_at := Some lease_expiry,
                  job_attempt_count := attempt_count, job_updated_at := moment\<rparr>)) (\<lambda>updated.
              rbind (make_claimed_job \<lparr>cj_job_id = job_job_id job,
                  cj_investigation_id = job_investigation_id job, cj_tenant = job_tenant job,
                  cj_worker_id = worker_id, cj_lease_expires_at = lease_expiry,
                  cj_attempt_count = attempt_count\<rparr>) (\<lambda>claimed.
              Inr (Some claimed,
                s\<lparr>t_jobs := AList.update (job_uuid (job_job_id job)) updated (t_jobs s)\<rparr>))))"

definition jobs_get :: "tenant_id \<Rightarrow> job_id \<Rightarrow> tables \<Rightarrow> persistence_error + job_record" where
  "jobs_get tenant j s =
     (case map_of (t_jobs s) (job_uuid j) of
        None \<Rightarrow> Inl RecordNotFoundError
      | Some r \<Rightarrow> if job_tenant r \<noteq> tenant then Inl RecordNotFoundError else Inr r)"

definition jobs_set_status ::
  "int \<Rightarrow> tenant_id \<Rightarrow> job_id \<Rightarrow> job_status \<Rightarrow> tables \<Rightarrow> persistence_error + job_record \<times> tables" where
  "jobs_set_status now tenant j status s =
     rbind (jobs_get tenant j s) (\<lambda>r.
     rbind (make_job_record (r\<lparr>job_status := status, job_updated_at := now\<rparr>)) (\<lambda>updated.
     Inr (updated, s\<lparr>t_jobs := AList.update (job_uuid j) updated (t_jobs s)\<rparr>)))"

section \<open>Attempts, evidence, reports and audit\<close>

definition attempts_record :: "attempt_record \<Rightarrow> tables \<Rightarrow> persistence_error + attempt_record \<times> tables" where
  "attempts_record r s =
     (if list_ex (\<lambda>existing. at_job_id existing = at_job_id r \<and> at_attempt_number existing = at_attempt_number r)
           (map snd (t_attempts s))
      then Inl IdempotencyConflictError
      else Inr (r, s\<lparr>t_attempts := AList.update (attempt_uuid (at_attempt_id r)) r (t_attempts s)\<rparr>))"

definition attempts_list_for_job :: "tenant_id \<Rightarrow> job_id \<Rightarrow> tables \<Rightarrow> attempt_record list" where
  "attempts_list_for_job tenant j s =
     sort_key at_attempt_number
       (filter (\<lambda>a. at_tenant a = tenant \<and> at_job_id a = j) (map snd (t_attempts s)))"

definition evidence_key_of :: "evidence_record \<Rightarrow> evidence_key" where
  "evidence_key_of r = (tenant_value (er_tenant r), run_value (er_run r), evidence_value (er_evidence_id r))"

fun evidence_append :: "evidence_record list \<Rightarrow> tables \<Rightarrow> evidence_record list \<times> tables" where
  "evidence_append [] s = ([], s)"
| "evidence_append (r # rs) s =
     (case map_of (t_evidence s) (evidence_key_of r) of
        Some existing \<Rightarrow> (case evidence_append rs s of (stored, s') \<Rightarrow> (existing # stored, s'))
      | None \<Rightarrow>
          (case evidence_append rs (s\<lparr>t_evidence := AList.update (evidence_key_of r) r (t_evidence s)\<rparr>) of
             (stored, s') \<Rightarrow> (r # stored, s')))"

definition evidence_list_for_investigation ::
  "tenant_id \<Rightarrow> investigation_id \<Rightarrow> tables \<Rightarrow> evidence_record list" where
  "evidence_list_for_investigation tenant i s =
     sort_key (\<lambda>r. evidence_value (er_evidence_id r))
       (filter (\<lambda>r. er_tenant r = tenant \<and> er_investigation_id r = i) (map snd (t_evidence s)))"

definition reports_put :: "report_record \<Rightarrow> tables \<Rightarrow> persistence_error + report_record \<times> tables" where
  "reports_put r s =
     (let u = investigation_uuid (rp_investigation_id r) in
      if u \<in> fst ` set (t_reports s) then Inl IdempotencyConflictError
      else Inr (r, s\<lparr>t_reports := AList.update u r (t_reports s)\<rparr>))"

definition reports_get :: "tenant_id \<Rightarrow> investigation_id \<Rightarrow> tables \<Rightarrow> persistence_error + report_record" where
  "reports_get tenant i s =
     (case map_of (t_reports s) (investigation_uuid i) of
        None \<Rightarrow> Inl RecordNotFoundError
      | Some r \<Rightarrow> if rp_tenant r \<noteq> tenant then Inl RecordNotFoundError else Inr r)"

definition audit_append :: "audit_record \<Rightarrow> tables \<Rightarrow> tables" where
  "audit_append r s = s\<lparr>t_audit := t_audit s @ [r]\<rparr>"

definition audit_list_for_investigation ::
  "tenant_id \<Rightarrow> investigation_id \<Rightarrow> tables \<Rightarrow> audit_record list" where
  "audit_list_for_investigation tenant i s =
     filter (\<lambda>r. au_tenant r = tenant \<and> au_investigation_id r = Some i) (t_audit s)"

end
