(* ===== verification/Store_Laws.thy ===== *)
theory Store_Laws
  imports Persistence Evidence_Compile
begin

text \<open>
  The contract of the repositories (\<^verbatim>\<open>persistence/repositories.py\<close>) and that the tables of
  \<^verbatim>\<open>persistence/memory.py\<close> keep it.

  \<open>repository_call\<close> lists the calls of the protocols that change the store and \<open>perform\<close> runs
  one. \<open>store_ok\<close> is the invariant of the tables: primary keys are unique, every row is filed
  under its own key, and every row satisfies the checks of its record class. \<open>view\<close> is what one
  tenant owns of the store. The locale \<open>tenant_table\<close> is the contract of a tenant-scoped lookup;
  it is interpreted on investigations, jobs and reports.
\<close>

section \<open>Dictionaries\<close>

lemma filter_update_other:
  "\<not> P v \<Longrightarrow> (\<And>w. map_of xs k = Some w \<Longrightarrow> \<not> P w) \<Longrightarrow>
     filter (\<lambda>kv. P (snd kv)) (AList.update k v xs) = filter (\<lambda>kv. P (snd kv)) xs"
  by (induction xs) (auto split: if_splits)

lemma map_of_filter_value:
  "distinct (map fst xs) \<Longrightarrow>
     map_of (filter (\<lambda>kv. P (snd kv)) xs) k =
       (case map_of xs k of Some v \<Rightarrow> if P v then Some v else None | None \<Rightarrow> None)"
  by (induction xs) (auto split: option.splits simp: map_of_eq_None_iff image_iff)

lemma set_update_subset: "set (AList.update k v xs) \<subseteq> insert (k, v) (set xs)"
  by (induction xs) auto

lemma list_all_update:
  "list_all (\<lambda>kv. P (fst kv) (snd kv)) xs \<Longrightarrow> P k v \<Longrightarrow>
     list_all (\<lambda>kv. P (fst kv) (snd kv)) (AList.update k v xs)"
  by (induction xs) auto

lemma map_of_list_all: "list_all (\<lambda>kv. P (fst kv) (snd kv)) xs \<Longrightarrow> map_of xs k = Some v \<Longrightarrow> P k v"
  by (auto simp: list_all_iff dest!: map_of_SomeD)

lemma update_absent: "k \<notin> fst ` set xs \<Longrightarrow> AList.update k v xs = xs @ [(k, v)]"
  by (induction xs) auto

section \<open>The printed UUID\<close>

lemma uuid_str_inj: "uuid_str a = uuid_str b \<Longrightarrow> a = b"
proof -
  define g where "g h = take 8 h @ 45 # take 4 (drop 8 h) @ 45 # take 4 (drop 12 h) @ 45 # take 4 (drop 16 h) @ 45 # drop 20 h"
    for h :: pystr
  define ungroup where "ungroup t = take 8 t @ take 4 (drop 9 t) @ take 4 (drop 14 t) @ take 4 (drop 19 t) @ drop 24 t"
    for t :: pystr
  have ungroup: "ungroup (g h) = h" if len: "length h = 32" for h
  proof -
    have d: "drop n h = take k (drop n h) @ drop (n + k) h" for n k
      by (metis append_take_drop_id drop_drop add.commute)
    have "ungroup (g h) = take 8 h @ take 4 (drop 8 h) @ take 4 (drop 12 h) @ take 4 (drop 16 h) @ drop 20 h"
      using len by (simp add: g_def ungroup_def)
    also have "\<dots> = h"
      using d [of 0 8] d [of 8 4] d [of 12 4] d [of 16 4] by simp
    finally show ?thesis .
  qed
  assume "uuid_str a = uuid_str b"
  then have "g (hex_fixed 32 (unat a)) = g (hex_fixed 32 (unat b))"
    by (simp add: uuid_str_def g_def Let_def)
  then have "hex_fixed 32 (unat a) = hex_fixed 32 (unat b)"
    by (metis ungroup length_hex_fixed)
  moreover have "unat x < 16 ^ 32" for x :: uuid
    using unsigned_less [of x] by simp
  ultimately have "unat a = unat b"
    by (blast intro: hex_fixed_inj)
  then show ?thesis by (rule unsigned_word_eqI)
qed

section \<open>Tenant-scoped lookups\<close>

locale tenant_table =
  fixes rows :: "tables \<Rightarrow> 'r table"
    and owner :: "'r \<Rightarrow> tenant_id"
    and key :: "'i \<Rightarrow> uuid"
    and lookup :: "tenant_id \<Rightarrow> 'i \<Rightarrow> tables \<Rightarrow> persistence_error + 'r"
  assumes lookup_spec: "lookup t i s =
      (case map_of (rows s) (key i) of
         None \<Rightarrow> Inl RecordNotFoundError
       | Some r \<Rightarrow> if owner r \<noteq> t then Inl RecordNotFoundError else Inr r)"
begin

lemma found_iff: "lookup t i s = Inr r \<longleftrightarrow> map_of (rows s) (key i) = Some r \<and> owner r = t"
  by (auto simp: lookup_spec split: option.splits)

lemma not_found: "lookup t i s = Inl e \<Longrightarrow> e = RecordNotFoundError"
  by (auto simp: lookup_spec split: option.splits if_splits)

lemma other_tenant: "lookup t i s = Inr r \<Longrightarrow> t' \<noteq> t \<Longrightarrow> lookup t' i s = Inl RecordNotFoundError"
  by (auto simp: lookup_spec split: option.splits if_splits)

text \<open>A lookup reads only the rows of its tenant.\<close>

lemma reads_own_rows:
  assumes "distinct (map fst (rows s))"
    and "rows s' = filter (\<lambda>kv. owner (snd kv) = t) (rows s)"
  shows "lookup t i s' = lookup t i s"
  using map_of_filter_value [OF assms(1), of "\<lambda>r. owner r = t" "key i"]
  by (simp add: lookup_spec assms(2) split: option.splits)

end

interpretation investigations: tenant_table t_investigations inv_tenant investigation_uuid investigations_get
  by unfold_locales (simp add: investigations_get_def)

interpretation jobs: tenant_table t_jobs job_tenant job_uuid jobs_get
  by unfold_locales (simp add: jobs_get_def)

interpretation reports: tenant_table t_reports rp_tenant investigation_uuid reports_get
  by unfold_locales (simp add: reports_get_def)

section \<open>The calls and the invariant\<close>

datatype repository_call =
    CreateCall investigation_record
  | InvestigationStatusCall int tenant_id investigation_id investigation_status
  | EnqueueCall job_record
  | ClaimCall pystr int int
  | JobStatusCall int tenant_id job_id job_status
  | AttemptCall attempt_record
  | EvidenceCall "evidence_record list"
  | ReportCall report_record
  | AuditCall audit_record

fun perform :: "repository_call \<Rightarrow> tables \<Rightarrow> persistence_error + tables" where
  "perform (CreateCall r) s = rbind (investigations_create r s) (\<lambda>(_, s'). Inr s')"
| "perform (InvestigationStatusCall now t i st) s =
     rbind (investigations_set_status now t i st s) (\<lambda>(_, s'). Inr s')"
| "perform (EnqueueCall r) s = rbind (jobs_enqueue r s) (\<lambda>(_, s'). Inr s')"
| "perform (ClaimCall w lease now) s = rbind (jobs_claim w lease now s) (\<lambda>(_, s'). Inr s')"
| "perform (JobStatusCall now t j st) s = rbind (jobs_set_status now t j st s) (\<lambda>(_, s'). Inr s')"
| "perform (AttemptCall r) s = rbind (attempts_record r s) (\<lambda>(_, s'). Inr s')"
| "perform (EvidenceCall rs) s = Inr (snd (evidence_append rs s))"
| "perform (ReportCall r) s = rbind (reports_put r s) (\<lambda>(_, s'). Inr s')"
| "perform (AuditCall r) s = Inr (audit_append r s)"

text \<open>A record that exists has passed the checks of its class.\<close>

definition valid_investigation :: "investigation_record \<Rightarrow> bool" where
  "valid_investigation r \<longleftrightarrow> make_investigation_record r = Inr r"

definition valid_job :: "job_record \<Rightarrow> bool" where
  "valid_job r \<longleftrightarrow> make_job_record r = Inr r"

definition valid_attempt :: "attempt_record \<Rightarrow> bool" where
  "valid_attempt r \<longleftrightarrow> make_attempt_record r = Inr r"

definition valid_evidence :: "evidence_record \<Rightarrow> bool" where
  "valid_evidence r \<longleftrightarrow> make_evidence_record r = Inr r"

definition valid_report :: "report_record \<Rightarrow> bool" where
  "valid_report r \<longleftrightarrow> make_report_record r = Inr r"

definition valid_audit :: "audit_record \<Rightarrow> bool" where
  "valid_audit r \<longleftrightarrow> make_audit_record r = Inr r"

fun valid_call :: "repository_call \<Rightarrow> bool" where
  "valid_call (CreateCall r) \<longleftrightarrow> valid_investigation r"
| "valid_call (EnqueueCall r) \<longleftrightarrow> valid_job r"
| "valid_call (AttemptCall r) \<longleftrightarrow> valid_attempt r"
| "valid_call (EvidenceCall rs) \<longleftrightarrow> list_all valid_evidence rs"
| "valid_call (ReportCall r) \<longleftrightarrow> valid_report r"
| "valid_call (AuditCall r) \<longleftrightarrow> valid_audit r"
| "valid_call _ \<longleftrightarrow> True"

definition table_ok :: "('k \<Rightarrow> 'r \<Rightarrow> bool) \<Rightarrow> ('k \<times> 'r) list \<Rightarrow> bool" where
  "table_ok P xs \<longleftrightarrow> distinct (map fst xs) \<and> list_all (\<lambda>kv. P (fst kv) (snd kv)) xs"

definition store_ok :: "tables \<Rightarrow> bool" where
  "store_ok s \<longleftrightarrow>
     table_ok (\<lambda>u r. u = investigation_uuid (inv_investigation_id r) \<and> valid_investigation r) (t_investigations s) \<and>
     table_ok (\<lambda>u r. u = job_uuid (job_job_id r) \<and> valid_job r) (t_jobs s) \<and>
     table_ok (\<lambda>u r. u = attempt_uuid (at_attempt_id r) \<and> valid_attempt r) (t_attempts s) \<and>
     table_ok (\<lambda>u r. u = evidence_key_of r \<and> valid_evidence r) (t_evidence s) \<and>
     table_ok (\<lambda>u r. u = investigation_uuid (rp_investigation_id r) \<and> valid_report r) (t_reports s) \<and>
     list_all valid_audit (t_audit s)"

lemmas valid_record_defs = valid_investigation_def valid_job_def valid_attempt_def valid_evidence_def
  valid_report_def valid_audit_def make_investigation_record_def make_job_record_def
  make_attempt_record_def make_evidence_record_def make_report_record_def make_audit_record_def
  make_claimed_job_def

lemma check_Inr [res_simps]:
  "check_text v = Inr u \<longleftrightarrow> \<not> is_blank v"
  "check_count n k = Inr u \<longleftrightarrow> k \<le> n"
  "check_optional_text o' = Inr u \<longleftrightarrow> (\<forall>x. o' = Some x \<longrightarrow> \<not> is_blank x)"
  by (auto simp: check_text_def check_count_def check_optional_text_def split: option.splits)

lemma valid_record_iff:
  "valid_investigation i \<longleftrightarrow> (\<forall>k. inv_idempotency_key i = Some k \<longrightarrow> \<not> is_blank k)"
  "valid_job j \<longleftrightarrow> (\<forall>w. job_claimed_by j = Some w \<longrightarrow> \<not> is_blank w) \<and> 0 \<le> job_attempt_count j \<and> 1 \<le> job_max_attempts j"
  "valid_attempt a \<longleftrightarrow> 1 \<le> at_attempt_number a \<and> \<not> is_blank (at_worker_id a) \<and>
     (\<forall>c. at_error_code a = Some c \<longrightarrow> \<not> is_blank c)"
  "valid_evidence e \<longleftrightarrow> \<not> is_blank (er_schema_version e) \<and> \<not> is_blank (er_payload e)"
  "valid_report p \<longleftrightarrow> \<not> is_blank (rp_schema_version p) \<and> \<not> is_blank (rp_payload p) \<and>
     (\<forall>b. rp_baseline_payload p = Some b \<longrightarrow> \<not> is_blank b)"
  "valid_audit d \<longleftrightarrow> \<not> is_blank (au_actor d) \<and> \<not> is_blank (au_action d) \<and>
     (\<forall>x. au_detail d = Some x \<longrightarrow> \<not> is_blank x)"
  by (auto simp: valid_record_defs res_simps)

lemma make_record_Inr [res_simps]:
  "make_investigation_record i = Inr i' \<longleftrightarrow> i' = i \<and> valid_investigation i"
  "make_job_record j = Inr j' \<longleftrightarrow> j' = j \<and> valid_job j"
  "make_attempt_record a = Inr a' \<longleftrightarrow> a' = a \<and> valid_attempt a"
  "make_evidence_record e = Inr e' \<longleftrightarrow> e' = e \<and> valid_evidence e"
  "make_report_record p = Inr p' \<longleftrightarrow> p' = p \<and> valid_report p"
  "make_audit_record d = Inr d' \<longleftrightarrow> d' = d \<and> valid_audit d"
  by (auto simp: valid_record_defs res_simps)

lemma table_ok_update: "table_ok P xs \<Longrightarrow> P k v \<Longrightarrow> table_ok P (AList.update k v xs)"
  by (simp add: table_ok_def distinct_update list_all_update)

lemma table_ok_lookup: "table_ok P xs \<Longrightarrow> map_of xs k = Some v \<Longrightarrow> P k v"
  by (auto simp: table_ok_def intro: map_of_list_all)

lemma table_ok_member: "table_ok P xs \<Longrightarrow> (k, v) \<in> set xs \<longleftrightarrow> map_of xs k = Some v"
  by (auto simp: table_ok_def)

lemma table_ok_distinct: "table_ok P xs \<Longrightarrow> distinct (map fst xs)"
  by (simp add: table_ok_def)

lemma store_okD:
  assumes "store_ok s"
  shows "map_of (t_investigations s) u = Some i \<Longrightarrow> u = investigation_uuid (inv_investigation_id i) \<and> valid_investigation i"
    and "map_of (t_jobs s) u = Some j \<Longrightarrow> u = job_uuid (job_job_id j) \<and> valid_job j"
    and "map_of (t_reports s) u = Some r \<Longrightarrow> u = investigation_uuid (rp_investigation_id r) \<and> valid_report r"
  using assms by (auto simp: store_ok_def dest: table_ok_lookup)

section \<open>What the calls do\<close>

lemma sort_key_hd:
  assumes "sort_key f xs = y # ys"
  shows "y \<in> set xs \<and> (\<forall>x \<in> set xs. f y \<le> f x)"
proof -
  have "sorted (map f (y # ys))" "set xs = set (y # ys)"
    using assms by (metis sorted_sort_key, metis set_sort)
  then show ?thesis by auto
qed

lemma sort_key_Nil_iff: "sort_key f xs = [] \<longleftrightarrow> xs = []"
  by (metis length_0_conv length_sort)

definition claimed_version :: "pystr \<Rightarrow> int \<Rightarrow> int \<Rightarrow> job_record \<Rightarrow> job_record" where
  "claimed_version w lease now job = job\<lparr>job_status := JOB_CLAIMED, job_claimed_by := Some w,
     job_claimed_at := Some now, job_lease_expires_at := Some (now + lease),
     job_attempt_count := job_attempt_count job + 1, job_updated_at := now\<rparr>"

definition claim_receipt :: "pystr \<Rightarrow> int \<Rightarrow> int \<Rightarrow> job_record \<Rightarrow> claimed_job" where
  "claim_receipt w lease now job = \<lparr>cj_job_id = job_job_id job, cj_investigation_id = job_investigation_id job,
     cj_tenant = job_tenant job, cj_worker_id = w, cj_lease_expires_at = now + lease,
     cj_attempt_count = job_attempt_count job + 1\<rparr>"

lemma claim_None:
  "jobs_claim w lease now s = Inr (None, s') \<longleftrightarrow>
     s' = s \<and> \<not> is_blank w \<and> (\<forall>job \<in> snd ` set (t_jobs s). \<not> claimable job now)"
  by (auto simp: jobs_claim_def Let_def res_simps sort_key_Nil_iff filter_empty_conv
      split: if_splits list.splits)

lemma claim_SomeD:
  assumes "jobs_claim w lease now s = Inr (Some c, s')"
  shows "\<exists>job. job \<in> snd ` set (t_jobs s) \<and> claimable job now \<and> \<not> is_blank w \<and>
    (\<forall>other \<in> snd ` set (t_jobs s). claimable other now \<longrightarrow> claim_order job \<le> claim_order other) \<and>
    c = claim_receipt w lease now job \<and>
    s' = s\<lparr>t_jobs := AList.update (job_uuid (job_job_id job)) (claimed_version w lease now job) (t_jobs s)\<rparr>"
proof -
  let ?e = "filter (\<lambda>job. claimable job now) (map snd (t_jobs s))"
  obtain job rest where e: "sort_key claim_order ?e = job # rest"
    using assms by (auto simp: jobs_claim_def split: if_splits list.splits)
  note j = sort_key_hd [OF e]
  have "\<not> is_blank w \<and> c = claim_receipt w lease now job \<and>
    s' = s\<lparr>t_jobs := AList.update (job_uuid (job_job_id job)) (claimed_version w lease now job) (t_jobs s)\<rparr>"
    using assms by (auto simp: jobs_claim_def e Let_def res_simps claim_receipt_def claimed_version_def
        make_claimed_job_def split: if_splits)
  with j show ?thesis by (intro exI [of _ job]) auto
qed

lemma claim_Some:
  assumes "store_ok s" "job \<in> snd ` set (t_jobs s)" "claimable job now" "\<not> is_blank w" "in_calendar (now + lease)"
  shows "\<exists>c s'. jobs_claim w lease now s = Inr (Some c, s')"
proof -
  let ?e = "filter (\<lambda>job. claimable job now) (map snd (t_jobs s))"
  obtain j rest where e: "sort_key claim_order ?e = j # rest"
    using assms(2,3) by (cases "sort_key claim_order ?e") (auto simp: sort_key_Nil_iff filter_empty_conv)
  have "valid_job j"
    using sort_key_hd [OF e] assms(1) by (auto simp: store_ok_def table_ok_def list_all_iff)
  then have "make_job_record (claimed_version w lease now j) = Inr (claimed_version w lease now j)"
    "make_claimed_job (claim_receipt w lease now j) = Inr (claim_receipt w lease now j)"
    using assms(4) by (auto simp: res_simps valid_record_iff claimed_version_def make_claimed_job_def claim_receipt_def)
  with e assms(4,5) show ?thesis
    by (simp add: jobs_claim_def Let_def claimed_version_def claim_receipt_def)
qed

definition evidence_insert :: "evidence_record \<Rightarrow> tables \<Rightarrow> tables" where
  "evidence_insert r s = (case map_of (t_evidence s) (evidence_key_of r) of
     Some _ \<Rightarrow> s | None \<Rightarrow> s\<lparr>t_evidence := AList.update (evidence_key_of r) r (t_evidence s)\<rparr>)"

lemma evidence_append_fold: "snd (evidence_append rs s) = fold evidence_insert rs s"
proof (induction rs arbitrary: s)
  case (Cons r rs)
  have "snd (evidence_append (r # rs) s) = snd (evidence_append rs (evidence_insert r s))"
    by (simp add: evidence_insert_def split: option.splits prod.splits)
  with Cons show ?case by simp
qed simp

lemma evidence_insert_frame [simp]:
  "t_investigations (evidence_insert r s) = t_investigations s"
  "t_jobs (evidence_insert r s) = t_jobs s"
  "t_attempts (evidence_insert r s) = t_attempts s"
  "t_reports (evidence_insert r s) = t_reports s"
  "t_audit (evidence_insert r s) = t_audit s"
  by (simp_all add: evidence_insert_def split: option.splits)

lemma evidence_fold_frame [simp]:
  "t_investigations (fold evidence_insert rs s) = t_investigations s"
  "t_jobs (fold evidence_insert rs s) = t_jobs s"
  "t_attempts (fold evidence_insert rs s) = t_attempts s"
  "t_reports (fold evidence_insert rs s) = t_reports s"
  "t_audit (fold evidence_insert rs s) = t_audit s"
  by (induction rs arbitrary: s) simp_all

lemma evidence_insert_lookup:
  "map_of (t_evidence (evidence_insert r s)) k =
     (case map_of (t_evidence s) k of Some v \<Rightarrow> Some v
      | None \<Rightarrow> if k = evidence_key_of r then Some r else None)"
  by (simp add: evidence_insert_def update_conv' split: option.splits)

section \<open>The invariant is kept\<close>

lemma update_ok:
  assumes "store_ok s"
  shows "u = investigation_uuid (inv_investigation_id i) \<Longrightarrow> valid_investigation i \<Longrightarrow>
      store_ok (s\<lparr>t_investigations := AList.update u i (t_investigations s)\<rparr>)"
    and "v = job_uuid (job_job_id j) \<Longrightarrow> valid_job j \<Longrightarrow> store_ok (s\<lparr>t_jobs := AList.update v j (t_jobs s)\<rparr>)"
    and "w = attempt_uuid (at_attempt_id a) \<Longrightarrow> valid_attempt a \<Longrightarrow>
      store_ok (s\<lparr>t_attempts := AList.update w a (t_attempts s)\<rparr>)"
    and "k = evidence_key_of e \<Longrightarrow> valid_evidence e \<Longrightarrow> store_ok (s\<lparr>t_evidence := AList.update k e (t_evidence s)\<rparr>)"
    and "x = investigation_uuid (rp_investigation_id p) \<Longrightarrow> valid_report p \<Longrightarrow>
      store_ok (s\<lparr>t_reports := AList.update x p (t_reports s)\<rparr>)"
    and "valid_audit d \<Longrightarrow> store_ok (audit_append d s)"
  using assms by (auto simp: store_ok_def audit_append_def intro!: table_ok_update)

lemma evidence_fold_ok: "store_ok s \<Longrightarrow> list_all valid_evidence rs \<Longrightarrow> store_ok (fold evidence_insert rs s)"
proof (induction rs arbitrary: s)
  case (Cons r rs)
  then have "store_ok (evidence_insert r s)"
    by (auto simp: evidence_insert_def update_ok split: option.splits)
  with Cons show ?case by simp
qed simp

lemma investigations_set_status_Inr:
  "investigations_set_status now t i st s = Inr (r', s') \<longleftrightarrow>
     (\<exists>r. map_of (t_investigations s) (investigation_uuid i) = Some r \<and> inv_tenant r = t \<and> valid_investigation r \<and>
        r' = r\<lparr>inv_status := st, inv_updated_at := now\<rparr> \<and>
        s' = s\<lparr>t_investigations := AList.update (investigation_uuid i) r' (t_investigations s)\<rparr>)"
  by (auto simp: investigations_set_status_def res_simps investigations.found_iff valid_record_iff)

lemma jobs_set_status_Inr:
  "jobs_set_status now t j st s = Inr (r', s') \<longleftrightarrow>
     (\<exists>r. map_of (t_jobs s) (job_uuid j) = Some r \<and> job_tenant r = t \<and> valid_job r \<and>
        r' = r\<lparr>job_status := st, job_updated_at := now\<rparr> \<and>
        s' = s\<lparr>t_jobs := AList.update (job_uuid j) r' (t_jobs s)\<rparr>)"
  by (auto simp: jobs_set_status_def res_simps jobs.found_iff valid_record_iff)

lemma investigations_create_Inr:
  "investigations_create r s = Inr (r', s') \<longleftrightarrow>
     by_key s (inv_tenant r) (inv_idempotency_key r) = Some r' \<and> s' = s \<or>
     by_key s (inv_tenant r) (inv_idempotency_key r) = None \<and> r' = r \<and>
       investigation_uuid (inv_investigation_id r) \<notin> fst ` set (t_investigations s) \<and>
       s' = s\<lparr>t_investigations :=
         AList.update (investigation_uuid (inv_investigation_id r)) r (t_investigations s)\<rparr>"
  by (auto simp: investigations_create_def Let_def res_simps split: option.splits)

lemma insert_Inr:
  "jobs_enqueue j s = Inr (j', s') \<longleftrightarrow> j' = j \<and> job_uuid (job_job_id j) \<notin> fst ` set (t_jobs s) \<and>
     s' = s\<lparr>t_jobs := AList.update (job_uuid (job_job_id j)) j (t_jobs s)\<rparr>"
  "reports_put p s = Inr (p', s') \<longleftrightarrow> p' = p \<and> investigation_uuid (rp_investigation_id p) \<notin> fst ` set (t_reports s) \<and>
     s' = s\<lparr>t_reports := AList.update (investigation_uuid (rp_investigation_id p)) p (t_reports s)\<rparr>"
  "attempts_record a s = Inr (a', s') \<longleftrightarrow> a' = a \<and>
     (\<forall>b \<in> snd ` set (t_attempts s). at_job_id b = at_job_id a \<longrightarrow> at_attempt_number b \<noteq> at_attempt_number a) \<and>
     s' = s\<lparr>t_attempts := AList.update (attempt_uuid (at_attempt_id a)) a (t_attempts s)\<rparr>"
  by (auto simp: jobs_enqueue_def reports_put_def attempts_record_def Let_def res_simps list_ex_iff)

lemmas call_Inr = investigations_set_status_Inr jobs_set_status_Inr investigations_create_Inr insert_Inr

lemma perform_ok:
  assumes ok: "store_ok s" and valid: "valid_call c" and run: "perform c s = Inr s'"
  shows "store_ok s'"
proof (cases c)
  case (ClaimCall w lease now)
  then obtain r where r: "jobs_claim w lease now s = Inr (r, s')"
    using run by (auto simp: res_simps)
  show ?thesis
  proof (cases r)
    case None
    with r ok show ?thesis by (simp add: claim_None)
  next
    case (Some c')
    from claim_SomeD [OF r [unfolded this]] obtain job where job: "job \<in> snd ` set (t_jobs s)" "\<not> is_blank w"
      and s': "s' = s\<lparr>t_jobs := AList.update (job_uuid (job_job_id job)) (claimed_version w lease now job) (t_jobs s)\<rparr>"
      by (elim exE conjE) (rule that)
    have "valid_job job"
      using job(1) ok by (auto simp: store_ok_def table_ok_def list_all_iff)
    then show ?thesis
      unfolding s' using ok job(2)
      by (intro update_ok(2)) (auto simp: claimed_version_def valid_record_iff)
  qed
qed (use assms in \<open>auto simp: res_simps call_Inr evidence_append_fold valid_record_iff dest: store_okD
  intro!: update_ok evidence_fold_ok\<close>)

fun run_calls :: "repository_call list \<Rightarrow> tables \<Rightarrow> tables" where
  "run_calls [] s = s"
| "run_calls (c # cs) s = run_calls cs (case perform c s of Inl _ \<Rightarrow> s | Inr s' \<Rightarrow> s')"

lemma run_calls_ok: "store_ok s \<Longrightarrow> list_all valid_call cs \<Longrightarrow> store_ok (run_calls cs s)"
proof (induction cs arbitrary: s)
  case (Cons c cs)
  then have "store_ok (case perform c s of Inl _ \<Rightarrow> s | Inr s' \<Rightarrow> s')"
    by (auto split: sum.splits intro: perform_ok)
  with Cons show ?case by simp
qed simp

lemma empty_store_ok: "store_ok empty_store"
  by (simp add: store_ok_def empty_store_def table_ok_def)

section \<open>What a tenant sees\<close>

definition view :: "tenant_id \<Rightarrow> tables \<Rightarrow> tables" where
  "view t s = \<lparr>t_investigations = filter (\<lambda>kv. inv_tenant (snd kv) = t) (t_investigations s),
     t_jobs = filter (\<lambda>kv. job_tenant (snd kv) = t) (t_jobs s),
     t_attempts = filter (\<lambda>kv. at_tenant (snd kv) = t) (t_attempts s),
     t_evidence = filter (\<lambda>kv. er_tenant (snd kv) = t) (t_evidence s),
     t_reports = filter (\<lambda>kv. rp_tenant (snd kv) = t) (t_reports s),
     t_audit = filter (\<lambda>r. au_tenant r = t) (t_audit s)\<rparr>"

text \<open>A call acts for a tenant when it names the tenant or writes rows of the tenant. Claiming is
  the worker's call and may pick a job of any tenant.\<close>

fun acts_for :: "repository_call \<Rightarrow> tenant_id \<Rightarrow> bool" where
  "acts_for (CreateCall r) t \<longleftrightarrow> inv_tenant r = t"
| "acts_for (InvestigationStatusCall now t' i st) t \<longleftrightarrow> t' = t"
| "acts_for (EnqueueCall r) t \<longleftrightarrow> job_tenant r = t"
| "acts_for (ClaimCall w lease now) t \<longleftrightarrow> True"
| "acts_for (JobStatusCall now t' j st) t \<longleftrightarrow> t' = t"
| "acts_for (AttemptCall r) t \<longleftrightarrow> at_tenant r = t"
| "acts_for (EvidenceCall rs) t \<longleftrightarrow> list_ex (\<lambda>r. er_tenant r = t) rs"
| "acts_for (ReportCall r) t \<longleftrightarrow> rp_tenant r = t"
| "acts_for (AuditCall r) t \<longleftrightarrow> au_tenant r = t"

text \<open>The identifier of a new attempt is not in use (it comes from \<^verbatim>\<open>uuid4\<close>).\<close>

fun fresh_attempt :: "repository_call \<Rightarrow> tables \<Rightarrow> bool" where
  "fresh_attempt (AttemptCall r) s \<longleftrightarrow> attempt_uuid (at_attempt_id r) \<notin> fst ` set (t_attempts s)"
| "fresh_attempt _ s \<longleftrightarrow> True"

lemma view_evidence: "\<not> list_ex (\<lambda>r. er_tenant r = t) rs \<Longrightarrow> view t (fold evidence_insert rs s) = view t s"
proof (induction rs arbitrary: s)
  case (Cons r rs)
  have "view t (evidence_insert r s) = view t s"
    using Cons.prems by (auto simp: view_def evidence_insert_def
        intro!: filter_update_other [of "\<lambda>r. er_tenant r = t"] split: option.splits)
  with Cons show ?case by simp
qed simp

lemma map_of_absent: "k \<notin> fst ` set xs \<Longrightarrow> map_of xs k = Some v \<Longrightarrow> P"
  by (simp add: map_of_eq_None_iff [symmetric])

lemma perform_view:
  assumes "perform c s = Inr s'" "\<not> acts_for c t" "fresh_attempt c s"
  shows "view t s' = view t s"
proof (cases c)
  case (EvidenceCall rs)
  with assms show ?thesis by (auto simp: evidence_append_fold view_evidence)
next
  case (AuditCall r)
  with assms show ?thesis by (auto simp: audit_append_def view_def)
qed (use assms in \<open>auto simp: res_simps call_Inr view_def elim: map_of_absent intro!: filter_update_other\<close>)

lemma view_reads:
  assumes ok: "store_ok s"
  shows "investigations_get t i s = investigations_get t i (view t s)"
    and "jobs_get t j s = jobs_get t j (view t s)"
    and "reports_get t i s = reports_get t i (view t s)"
    and "attempts_list_for_job t j s = attempts_list_for_job t j (view t s)"
    and "evidence_list_for_investigation t i s = evidence_list_for_investigation t i (view t s)"
    and "audit_list_for_investigation t i s = audit_list_for_investigation t i (view t s)"
proof -
  have d: "distinct (map fst (t_investigations s))" "distinct (map fst (t_jobs s))" "distinct (map fst (t_reports s))"
    using ok by (simp_all add: store_ok_def table_ok_def)
  show "investigations_get t i s = investigations_get t i (view t s)"
    by (rule investigations.reads_own_rows [symmetric, OF d(1)]) (simp add: view_def)
  show "jobs_get t j s = jobs_get t j (view t s)"
    by (rule jobs.reads_own_rows [symmetric, OF d(2)]) (simp add: view_def)
  show "reports_get t i s = reports_get t i (view t s)"
    by (rule reports.reads_own_rows [symmetric, OF d(3)]) (simp add: view_def)
  show "attempts_list_for_job t j s = attempts_list_for_job t j (view t s)"
    by (simp add: attempts_list_for_job_def view_def filter_map o_def conj_ac)
  show "evidence_list_for_investigation t i s = evidence_list_for_investigation t i (view t s)"
    by (simp add: evidence_list_for_investigation_def view_def filter_map o_def conj_ac)
  show "audit_list_for_investigation t i s = audit_list_for_investigation t i (view t s)"
    by (simp add: audit_list_for_investigation_def view_def conj_ac)
qed

section \<open>Evidence rows\<close>

lemma evidence_fold_keeps:
  "map_of (t_evidence s) k = Some v \<Longrightarrow> map_of (t_evidence (fold evidence_insert rs s)) k = Some v"
  by (induction rs arbitrary: s) (simp_all add: evidence_insert_lookup)

lemma evidence_fold_has:
  "r \<in> set rs \<Longrightarrow> map_of (t_evidence (fold evidence_insert rs s)) (evidence_key_of r) \<noteq> None"
proof (induction rs arbitrary: s)
  case (Cons x rs)
  show ?case
  proof (cases "r = x")
    case True
    have "\<exists>v. map_of (t_evidence (evidence_insert x s)) (evidence_key_of x) = Some v"
      by (simp add: evidence_insert_lookup split: option.splits)
    with True show ?thesis by (auto dest: evidence_fold_keeps)
  next
    case False
    with Cons show ?thesis by simp
  qed
qed simp

lemma evidence_append_stored:
  "fst (evidence_append rs s) = map (\<lambda>r. the (map_of (t_evidence (fold evidence_insert rs s)) (evidence_key_of r))) rs"
proof (induction rs arbitrary: s)
  case (Cons r rs)
  have step: "fst (evidence_append (r # rs) s) =
      the (map_of (t_evidence (evidence_insert r s)) (evidence_key_of r)) # fst (evidence_append rs (evidence_insert r s))"
    by (simp add: evidence_insert_def update_conv' split: option.splits prod.splits)
  obtain v where "map_of (t_evidence (evidence_insert r s)) (evidence_key_of r) = Some v"
    by (cases "map_of (t_evidence s) (evidence_key_of r)") (auto simp: evidence_insert_lookup)
  then show ?case by (simp add: step Cons.IH evidence_fold_keeps del: evidence_append.simps)
qed simp

lemma evidence_insert_present:
  "map_of (t_evidence s) (evidence_key_of r) \<noteq> None \<Longrightarrow> evidence_insert r s = s"
  by (auto simp: evidence_insert_def)

lemma evidence_fold_present:
  "\<forall>r \<in> set rs. map_of (t_evidence s) (evidence_key_of r) \<noteq> None \<Longrightarrow> fold evidence_insert rs s = s"
  by (induction rs) (auto simp: evidence_insert_present)

section \<open>Properties\<close>

definition sample_investigation :: investigation_record where
  "sample_investigation = \<lparr>inv_investigation_id = InvestigationId 1, inv_tenant = sample_tenant,
     inv_incident = sample_incident, inv_run = sample_run, inv_window = sample_window,
     inv_status = INV_PENDING, inv_idempotency_key = Some (lit ''k1''), inv_created_at = 0, inv_updated_at = 0\<rparr>"

definition sample_job :: job_record where
  "sample_job = \<lparr>job_job_id = JobId 2, job_investigation_id = InvestigationId 1, job_tenant = sample_tenant,
     job_status = JOB_QUEUED, job_available_at = 0, job_claimed_by = None, job_claimed_at = None,
     job_lease_expires_at = None, job_attempt_count = 0, job_max_attempts = 3, job_created_at = 0,
     job_updated_at = 0\<rparr>"

definition sample_evidence :: evidence_record where
  "sample_evidence = \<lparr>er_tenant = sample_tenant, er_investigation_id = InvestigationId 1, er_run = sample_run,
     er_evidence_id = EvidenceId (lit ''e1''), er_ledger_kind = LEDGER_METRIC, er_schema_version = lit ''v1'',
     er_payload = lit ''x'', er_created_at = 0\<rparr>"

definition sample_store :: tables where
  "sample_store = empty_store\<lparr>t_investigations := [(1, sample_investigation)], t_jobs := [(2, sample_job)]\<rparr>"

lemmas sample_row_defs = sample_investigation_def sample_job_def sample_evidence_def sample_store_def
  sample_tenant_def sample_incident_def sample_run_def empty_store_def

lemma sample_rows_valid: "valid_investigation sample_investigation" "valid_job sample_job" "valid_evidence sample_evidence"
  by (simp_all add: valid_record_iff sample_row_defs is_blank_iff lit_def py_isspace_def)

lemma sample_store_ok: "store_ok sample_store"
  using sample_rows_valid
  by (simp add: store_ok_def table_ok_def sample_store_def empty_store_def)
    (simp add: sample_investigation_def sample_job_def)

text \<open>
  The tables stay well-formed: whatever sequence of repository calls with valid records is
  made on an empty store, where a call that raises leaves the tables alone, primary keys are
  unique, every row is filed under its own key and every row passes the checks of its class.
\<close>

theorem repository_calls_keep_store:
  assumes "list_all valid_call cs"
  shows "store_ok (run_calls cs empty_store)"
  using run_calls_ok [OF empty_store_ok assms] .

theorem repository_calls_keep_store_witness:
  "store_ok (run_calls [CreateCall sample_investigation, EnqueueCall sample_job, EvidenceCall [sample_evidence]]
     empty_store)"
  by (rule repository_calls_keep_store) (simp add: sample_rows_valid)

text \<open>
  C7. Tenant isolation: a successful call that does not act for a tenant changes nothing that
  tenant can read, through any of the six tenant-scoped reads. (The identifier of a new attempt
  is assumed unused, since the attempts table overwrites on a collision.)
\<close>

theorem tenant_isolation:
  assumes "store_ok s" "valid_call c" "perform c s = Inr s'" "\<not> acts_for c t" "fresh_attempt c s"
  shows "investigations_get t i s' = investigations_get t i s \<and> jobs_get t j s' = jobs_get t j s \<and>
    reports_get t i s' = reports_get t i s \<and> attempts_list_for_job t j s' = attempts_list_for_job t j s \<and>
    evidence_list_for_investigation t i s' = evidence_list_for_investigation t i s \<and>
    audit_list_for_investigation t i s' = audit_list_for_investigation t i s"
proof -
  have "store_ok s'"
    using perform_ok [OF assms(1-3)] .
  then show ?thesis
    using view_reads [OF assms(1)] view_reads [of s'] perform_view [OF assms(3-5)] by simp
qed

theorem tenant_isolation_witness:
  "perform (InvestigationStatusCall 5 sample_tenant (InvestigationId 1) INV_RUNNING) sample_store \<noteq> Inl RecordNotFoundError \<and>
   investigations_get (TenantId (lit ''other'')) (InvestigationId 1)
     (projr (perform (InvestigationStatusCall 5 sample_tenant (InvestigationId 1) INV_RUNNING) sample_store)) =
   Inl RecordNotFoundError"
proof -
  let ?c = "InvestigationStatusCall 5 sample_tenant (InvestigationId 1) INV_RUNNING"
  obtain s' where s': "perform ?c sample_store = Inr s'"
    using sample_rows_valid(1)
    by (simp add: res_simps investigations_set_status_Inr sample_store_def empty_store_def)
      (simp add: sample_investigation_def)
  have "\<not> acts_for ?c (TenantId (lit ''other''))"
    by (simp add: sample_tenant_def)
  then have "investigations_get (TenantId (lit ''other'')) (InvestigationId 1) s' =
      investigations_get (TenantId (lit ''other'')) (InvestigationId 1) sample_store"
    using tenant_isolation [OF sample_store_ok _ s'] by simp
  then show ?thesis
    by (simp add: s' del: perform.simps) (simp add: investigations_get_def sample_row_defs)
qed

text \<open>
  C10. Claiming takes the oldest eligible job and holds it: the claimed job was queued and due or
  its lease had run out, no eligible job precedes it by availability and identifier, only its row
  changes, its attempt counter grows by one, and until the lease ends no claim returns it again.
\<close>

theorem claim_is_oldest_and_exclusive:
  assumes "store_ok s" "jobs_claim w lease now s = Inr (Some c, s')"
  shows "\<exists>job. jobs_get (cj_tenant c) (cj_job_id c) s = Inr job \<and> claimable job now \<and>
    (\<forall>other \<in> snd ` set (t_jobs s). claimable other now \<longrightarrow> claim_order job \<le> claim_order other) \<and>
    jobs_get (cj_tenant c) (cj_job_id c) s' = Inr (claimed_version w lease now job) \<and>
    (\<forall>j t. j \<noteq> cj_job_id c \<longrightarrow> jobs_get t j s' = jobs_get t j s) \<and>
    cj_attempt_count c = job_attempt_count job + 1 \<and>
    (\<forall>w2 lease2 now2 c2 s2. now2 < now + lease \<longrightarrow>
       jobs_claim w2 lease2 now2 s' = Inr (Some c2, s2) \<longrightarrow> cj_job_id c2 \<noteq> cj_job_id c)"
proof -
  obtain job where job: "job \<in> snd ` set (t_jobs s)" "claimable job now"
      "\<forall>other \<in> snd ` set (t_jobs s). claimable other now \<longrightarrow> claim_order job \<le> claim_order other"
    and c: "c = claim_receipt w lease now job"
    and s': "s' = s\<lparr>t_jobs := AList.update (job_uuid (job_job_id job)) (claimed_version w lease now job) (t_jobs s)\<rparr>"
    and w: "\<not> is_blank w"
    using claim_SomeD [OF assms(2)] by (elim exE conjE) (rule that)
  let ?u = "job_uuid (job_job_id job)"
  have row: "map_of (t_jobs s) ?u = Some job"
    using job(1) assms(1) by (force simp: store_ok_def table_ok_def list_all_iff)
  have ok': "store_ok s'"
    using perform_ok [of s "ClaimCall w lease now" s'] assms by simp
  have excl: "cj_job_id c2 \<noteq> cj_job_id c"
    if "now2 < now + lease" "jobs_claim w2 lease2 now2 s' = Inr (Some c2, s2)" for w2 lease2 now2 c2 s2
  proof
    note second = claim_SomeD [OF that(2)]
    obtain job2 where job2: "job2 \<in> snd ` set (t_jobs s')" "claimable job2 now2" "c2 = claim_receipt w2 lease2 now2 job2"
      using second by (elim exE conjE) (rule that)
    assume "cj_job_id c2 = cj_job_id c"
    then have "job_job_id job2 = job_job_id job"
      using job2(3) by (simp add: c claim_receipt_def)
    moreover have "map_of (t_jobs s') (job_uuid (job_job_id job2)) = Some job2"
      using job2(1) ok' by (force simp: store_ok_def table_ok_def list_all_iff)
    ultimately have "job2 = claimed_version w lease now job"
      by (simp add: s' update_conv')
    with job2(2) that(1) show False by (simp add: claimable_def claimed_version_def)
  qed
  show ?thesis
  proof (intro exI [of _ job] conjI allI impI)
    show "jobs_get (cj_tenant c) (cj_job_id c) s = Inr job"
      using row by (simp add: jobs.found_iff c claim_receipt_def)
    show "jobs_get (cj_tenant c) (cj_job_id c) s' = Inr (claimed_version w lease now job)"
      by (simp add: jobs.found_iff c claim_receipt_def s' update_conv' claimed_version_def)
    show "jobs_get t j s' = jobs_get t j s" if "j \<noteq> cj_job_id c" for j t
    proof -
      have "job_uuid j \<noteq> ?u"
        using that by (auto simp: c claim_receipt_def intro: job_id.expand)
      then show ?thesis by (simp add: jobs.lookup_spec s' update_conv')
    qed
  qed (use job excl in \<open>simp_all add: c claim_receipt_def\<close>)
qed

lemma sample_claim: "\<exists>c s'. jobs_claim (lit ''w1'') 30 7 sample_store = Inr (Some c, s')"
  by (rule claim_Some [OF sample_store_ok, of sample_job])
    (simp_all add: sample_store_def empty_store_def, simp_all add: sample_job_def claimable_def is_blank_iff
      lit_def py_isspace_def in_calendar_def min_instant_def max_instant_def)

theorem claim_is_oldest_and_exclusive_witness:
  "\<exists>c s' job. jobs_claim (lit ''w1'') 30 7 sample_store = Inr (Some c, s') \<and>
     jobs_get (cj_tenant c) (cj_job_id c) s' = Inr (claimed_version (lit ''w1'') 30 7 job)"
proof -
  obtain c s' where c: "jobs_claim (lit ''w1'') 30 7 sample_store = Inr (Some c, s')"
    using sample_claim by blast
  from claim_is_oldest_and_exclusive [OF sample_store_ok c] show ?thesis
    using c by blast
qed

text \<open>
  Evidence is append-only and idempotent by content address: appending again returns the
  rows that are already stored and changes nothing, no stored row is ever replaced, and each
  returned row has the key of the record that was submitted.
\<close>

theorem evidence_append_is_idempotent:
  assumes "store_ok s" "list_all valid_evidence rs" "evidence_append rs s = (stored, s')"
  shows "evidence_append rs s' = (stored, s') \<and>
    (\<forall>k v. map_of (t_evidence s) k = Some v \<longrightarrow> map_of (t_evidence s') k = Some v) \<and>
    map evidence_key_of stored = map evidence_key_of rs"
proof -
  have s': "s' = fold evidence_insert rs s"
    using assms(3) evidence_append_fold [of rs s] by simp
  have stored: "stored = map (\<lambda>r. the (map_of (t_evidence s') (evidence_key_of r))) rs"
    using assms(3) evidence_append_stored [of rs s] by (simp add: s')
  have again: "fold evidence_insert rs s' = s'"
    by (rule evidence_fold_present) (simp add: s' evidence_fold_has)
  have "evidence_append rs s' = (stored, s')"
    using evidence_append_stored [of rs s'] evidence_append_fold [of rs s']
    by (simp add: again stored prod_eq_iff)
  moreover have "evidence_key_of (the (map_of (t_evidence s') (evidence_key_of r))) = evidence_key_of r" if r: "r \<in> set rs" for r
  proof -
    have "store_ok s'"
      unfolding s' using assms(1,2) by (rule evidence_fold_ok)
    then have t: "table_ok (\<lambda>u r. u = evidence_key_of r \<and> valid_evidence r) (t_evidence s')"
      by (simp add: store_ok_def)
    obtain v where "map_of (t_evidence s') (evidence_key_of r) = Some v"
      using evidence_fold_has [OF r, of s] by (auto simp: s')
    with table_ok_lookup [OF t this] show ?thesis by simp
  qed
  ultimately show ?thesis
    using evidence_fold_keeps by (simp add: stored s')
qed

theorem evidence_append_is_idempotent_witness:
  "\<exists>stored s'. evidence_append [sample_evidence] sample_store = (stored, s') \<and>
     evidence_append [sample_evidence] s' = (stored, s')"
proof -
  obtain stored s' where "evidence_append [sample_evidence] sample_store = (stored, s')"
    by (metis surj_pair)
  moreover have "list_all valid_evidence [sample_evidence]"
    by (simp add: sample_rows_valid)
  ultimately show ?thesis
    using evidence_append_is_idempotent [OF sample_store_ok] by blast
qed

end
