(* ===== verification/Unit_Of_Work.thy ===== *)
theory Unit_Of_Work
  imports Store_Laws
begin

text \<open>
  \<^verbatim>\<open>InMemoryUnitOfWork\<close> and its factory (\<^verbatim>\<open>persistence/memory.py\<close>): units of work of several
  clients over one shared store and one lock.

  A client is a number. \<open>uow_enter\<close> is \<^verbatim>\<open>__aenter__\<close> once the lock is free, \<open>uow_exit\<close> is
  \<^verbatim>\<open>__aexit__\<close>; the repository calls of a client work on its snapshot. \<open>uow_step\<close> interleaves the
  clients, each of which makes its calls between entering and leaving, as \<^verbatim>\<open>async with\<close> does.
  The abstract specification \<open>serial\<close> is a log: the calls of the committed transactions, one
  transaction after the other; the lemma \<open>simulation\<close> is the refinement.
\<close>

section \<open>The shared store and the units of work\<close>

type_synonym client = nat

record uow_system =
  us_shared :: tables
  us_lock :: "client option"
  us_working :: "client \<Rightarrow> tables"

definition uow_init :: uow_system where
  "uow_init = \<lparr>us_shared = empty_store, us_lock = None, us_working = (\<lambda>_. empty_store)\<rparr>"

definition uow_create :: "client \<Rightarrow> uow_system \<Rightarrow> uow_system" where
  "uow_create c st = st\<lparr>us_working := (us_working st)(c := us_shared st)\<rparr>"

definition uow_enter :: "client \<Rightarrow> uow_system \<Rightarrow> uow_system option" where
  "uow_enter c st =
     (if us_lock st \<noteq> None then None
      else Some (st\<lparr>us_lock := Some c, us_working := (us_working st)(c := us_shared st)\<rparr>))"

definition uow_call :: "client \<Rightarrow> repository_call \<Rightarrow> uow_system \<Rightarrow> persistence_error option \<times> uow_system" where
  "uow_call c op st =
     (case perform op (us_working st c) of
        Inl e \<Rightarrow> (Some e, st)
      | Inr w \<Rightarrow> (None, st\<lparr>us_working := (us_working st)(c := w)\<rparr>))"

definition uow_commit :: "client \<Rightarrow> uow_system \<Rightarrow> uow_system" where
  "uow_commit c st =
     (let shared = us_working st c in
      st\<lparr>us_shared := shared, us_working := (us_working st)(c := shared)\<rparr>)"

definition uow_rollback :: "client \<Rightarrow> uow_system \<Rightarrow> uow_system" where
  "uow_rollback c st = st\<lparr>us_working := (us_working st)(c := us_shared st)\<rparr>"

definition uow_exit :: "client \<Rightarrow> uow_system \<Rightarrow> uow_system" where
  "uow_exit c st = st\<lparr>us_lock := None\<rparr>"

section \<open>Interleaved executions\<close>

datatype uow_event =
    Create client
  | Enter client
  | Call client repository_call
  | Commit client
  | Rollback client
  | Exit client

inductive uow_step :: "uow_system \<Rightarrow> uow_event \<Rightarrow> uow_system \<Rightarrow> bool" where
  create: "us_lock st \<noteq> Some c \<Longrightarrow> uow_step st (Create c) (uow_create c st)"
| enter: "uow_enter c st = Some st' \<Longrightarrow> uow_step st (Enter c) st'"
| call: "us_lock st = Some c \<Longrightarrow> uow_step st (Call c op) (snd (uow_call c op st))"
| commit: "us_lock st = Some c \<Longrightarrow> uow_step st (Commit c) (uow_commit c st)"
| rollback: "us_lock st = Some c \<Longrightarrow> uow_step st (Rollback c) (uow_rollback c st)"
| exit: "us_lock st = Some c \<Longrightarrow> uow_step st (Exit c) (uow_exit c st)"

inductive uow_trace :: "uow_event list \<Rightarrow> uow_system \<Rightarrow> bool" where
  start: "uow_trace [] uow_init"
| extend: "uow_trace es st \<Longrightarrow> uow_step st e st' \<Longrightarrow> uow_trace (es @ [e]) st'"

inductive_cases uow_stepE: "uow_step st e st'"

section \<open>The serial specification\<close>

text \<open>What is published and what the current transaction has done since its last commit.\<close>

record serial =
  published :: "repository_call list"
  pending :: "repository_call list"

fun serial_step :: "serial \<Rightarrow> uow_event \<Rightarrow> serial" where
  "serial_step a (Create c) = a"
| "serial_step a (Enter c) = a\<lparr>pending := []\<rparr>"
| "serial_step a (Call c op) = a\<lparr>pending := pending a @ [op]\<rparr>"
| "serial_step a (Commit c) = \<lparr>published = published a @ pending a, pending = []\<rparr>"
| "serial_step a (Rollback c) = a\<lparr>pending := []\<rparr>"
| "serial_step a (Exit c) = a\<lparr>pending := []\<rparr>"

definition serial_run :: "uow_event list \<Rightarrow> serial" where
  "serial_run es = foldl serial_step \<lparr>published = [], pending = []\<rparr> es"

definition implements :: "uow_system \<Rightarrow> serial \<Rightarrow> bool" where
  "implements st a \<longleftrightarrow>
     us_shared st = run_calls (published a) empty_store \<and>
     (case us_lock st of None \<Rightarrow> pending a = []
      | Some c \<Rightarrow> us_working st c = run_calls (pending a) (us_shared st))"

lemma run_calls_append: "run_calls (cs @ ds) s = run_calls ds (run_calls cs s)"
  by (induction cs arbitrary: s) simp_all

lemma run_calls_snoc: "run_calls (cs @ [c]) s =
    (case perform c (run_calls cs s) of Inl _ \<Rightarrow> run_calls cs s | Inr s' \<Rightarrow> s')"
  by (simp add: run_calls_append)

lemma simulation:
  assumes "uow_step st e st'" "implements st a"
  shows "implements st' (serial_step a e)"
  using assms
proof (cases rule: uow_step.cases)
  case (call c op)
  then show ?thesis
    using assms(2) by (auto simp: implements_def uow_call_def run_calls_snoc split: sum.splits)
qed (auto simp: implements_def uow_create_def uow_enter_def uow_commit_def uow_rollback_def uow_exit_def
    run_calls_append Let_def split: if_splits option.splits)

lemma trace_implements: "uow_trace es st \<Longrightarrow> implements st (serial_run es)"
proof (induction rule: uow_trace.induct)
  case start
  then show ?case by (simp add: implements_def serial_run_def uow_init_def)
next
  case (extend es st e st')
  then show ?case by (simp add: serial_run_def simulation)
qed

text \<open>Between entering and leaving, every event is the holder's or a creation.\<close>

fun event_client :: "uow_event \<Rightarrow> client option" where
  "event_client (Create c) = None"
| "event_client (Enter c) = Some c"
| "event_client (Call c op) = Some c"
| "event_client (Commit c) = Some c"
| "event_client (Rollback c) = Some c"
| "event_client (Exit c) = Some c"

lemma holder_acts_alone:
  "uow_step st e st' \<Longrightarrow> us_lock st = Some c \<Longrightarrow> event_client e = Some d \<Longrightarrow> d = c"
  by (auto elim!: uow_stepE simp: uow_enter_def)

section \<open>Properties\<close>

text \<open>
  C9. Units of work are serialisable and atomic: in every interleaving of any number of clients
  the shared store is the result of running, from the empty store and in commit order, exactly
  the calls of committed transactions; the holder of the lock sees that store with its own
  uncommitted calls applied, and no other client acts until it leaves.
\<close>

theorem committed_work_is_serial:
  assumes "uow_trace es st"
  shows "us_shared st = run_calls (published (serial_run es)) empty_store \<and>
    (\<forall>c. us_lock st = Some c \<longrightarrow>
       us_working st c = run_calls (published (serial_run es) @ pending (serial_run es)) empty_store \<and>
       (\<forall>e d st'. uow_step st e st' \<longrightarrow> event_client e = Some d \<longrightarrow> d = c))"
  using trace_implements [OF assms] holder_acts_alone
  by (auto simp: implements_def run_calls_append)

lemma sample_trace:
  "uow_trace [Enter 1, Call 1 (CreateCall sample_investigation), Exit 1, Enter 2, Call 2 (EnqueueCall sample_job), Commit 2]
     (uow_init\<lparr>us_shared := run_calls [EnqueueCall sample_job] empty_store, us_lock := Some 2,
        us_working := (\<lambda>_. empty_store)(1 := run_calls [CreateCall sample_investigation] empty_store,
          2 := run_calls [EnqueueCall sample_job] empty_store)\<rparr>)"
proof -
  have snoc: "uow_trace es st \<Longrightarrow> uow_step st e st'' \<Longrightarrow> st'' = st' \<Longrightarrow> uow_trace (es @ [e]) st'" for es st e st' st''
    by (auto intro: uow_trace.extend)
  let ?s1 = "uow_init\<lparr>us_lock := Some 1\<rparr>"
  have "uow_trace ([] @ [Enter 1]) ?s1"
    by (rule snoc [OF uow_trace.start uow_step.enter]) (auto simp: uow_enter_def uow_init_def fun_eq_iff)
  then have "uow_trace (([] @ [Enter 1]) @ [Call 1 (CreateCall sample_investigation)]) (snd (uow_call 1 (CreateCall sample_investigation) ?s1))"
    by (rule snoc [OF _ uow_step.call]) simp_all
  then have "uow_trace ((([] @ [Enter 1]) @ [Call 1 (CreateCall sample_investigation)]) @ [Exit 1])
      (uow_exit 1 (snd (uow_call 1 (CreateCall sample_investigation) ?s1)))"
    by (rule snoc [OF _ uow_step.exit]) (simp_all add: uow_call_def split: sum.splits)
  then have "uow_trace (((([] @ [Enter 1]) @ [Call 1 (CreateCall sample_investigation)]) @ [Exit 1]) @ [Enter 2])
      (uow_init\<lparr>us_lock := Some 2, us_working := (\<lambda>_. empty_store)(1 := run_calls [CreateCall sample_investigation] empty_store)\<rparr>)"
    by (rule snoc [OF _ uow_step.enter])
      (auto simp: uow_enter_def uow_exit_def uow_call_def uow_init_def fun_eq_iff split: sum.splits)
  then have "uow_trace ((((([] @ [Enter 1]) @ [Call 1 (CreateCall sample_investigation)]) @ [Exit 1]) @ [Enter 2]) @
        [Call 2 (EnqueueCall sample_job)])
      (uow_init\<lparr>us_lock := Some 2, us_working := (\<lambda>_. empty_store)(1 := run_calls [CreateCall sample_investigation] empty_store,
          2 := run_calls [EnqueueCall sample_job] empty_store)\<rparr>)"
    by (rule snoc [OF _ uow_step.call]) (auto simp: uow_call_def uow_init_def fun_eq_iff split: sum.splits)
  then show ?thesis
    by - (drule snoc [OF _ uow_step.commit], auto simp: uow_commit_def uow_init_def Let_def)
qed

theorem committed_work_is_serial_witness:
  "\<exists>st. uow_trace [Enter 1, Call 1 (CreateCall sample_investigation), Exit 1, Enter 2,
       Call 2 (EnqueueCall sample_job), Commit 2] st \<and>
     us_shared st = run_calls [EnqueueCall sample_job] empty_store"
  using committed_work_is_serial [OF sample_trace] sample_trace
  by (auto simp: serial_run_def simp del: run_calls.simps)

end
