(* ===== verification/Json_Loads.thy ===== *)
theory Json_Loads
  imports Canonical_Json Domain_Core "HOL-Library.AList"
begin

text \<open>
  Python's \<^verbatim>\<open>json.loads\<close> on a string, as far as the code relies on it: the scanner of the
  standard library with its strict strings, escapes and surrogate pairs, numbers, the constants
  \<^verbatim>\<open>NaN\<close> and \<^verbatim>\<open>Infinity\<close>, duplicate keys (the last value wins, in the place of the first), the
  limit of 4300 digits on integers (a plain \<^verbatim>\<open>ValueError\<close>), and the nesting depth at which the
  interpreter raises \<^verbatim>\<open>RecursionError\<close>, which is an argument.

  The scanner is a nested recursion: what remains after a value is shorter than what was there
  before it (\<open>scan_shorter\<close>), which gives termination. The main lemma is that the canonical texts
  of \<^verbatim>\<open>json.dumps\<close> are read back (\<open>loads_dumps\<close>).
\<close>

datatype loads_error = JSONDecodeError | RecursionError | DigitLimitError

datatype pyjson =
    LNull
  | LBool bool
  | LInt int
  | LFloat f64
  | LStr pystr
  | LList "pyjson list"
  | LDict "(pystr \<times> pyjson) list"

section \<open>Strings\<close>

definition hex_value :: "nat \<Rightarrow> nat option" where
  "hex_value c = (if 48 \<le> c \<and> c \<le> 57 then Some (c - 48) else if 97 \<le> c \<and> c \<le> 102 then Some (c - 87)
                  else if 65 \<le> c \<and> c \<le> 70 then Some (c - 55) else None)"

fun hex4 :: "pystr \<Rightarrow> nat option" where
  "hex4 (a # b # c # d # r) =
     (case (hex_value a, hex_value b, hex_value c, hex_value d) of
        (Some w, Some x, Some y, Some z) \<Rightarrow> Some (((w * 16 + x) * 16 + y) * 16 + z)
      | _ \<Rightarrow> None)"
| "hex4 _ = None"

definition simple_escape :: "nat \<Rightarrow> nat option" where
  "simple_escape c = (if c = 34 \<or> c = 92 \<or> c = 47 then Some c else if c = 98 then Some 8
     else if c = 102 then Some 12 else if c = 110 then Some 10 else if c = 114 then Some 13
     else if c = 116 then Some 9 else None)"

definition low_surrogate :: "pystr \<Rightarrow> nat option" where
  "low_surrogate r =
     (if take 2 r = [92, 117] then
        (case hex4 (drop 2 r) of Some v \<Rightarrow> if 56320 \<le> v \<and> v \<le> 57343 then Some v else None | None \<Rightarrow> None)
      else None)"

fun scan_string :: "pystr \<Rightarrow> loads_error + pystr \<times> pystr" where
  "scan_string [] = Inl JSONDecodeError"
| "scan_string (c # r) =
     (if c = 34 then Inr ([], r)
      else if c = 92 then
        (case r of [] \<Rightarrow> Inl JSONDecodeError
         | e # r \<Rightarrow>
             if e = 117 then
               (case hex4 r of None \<Rightarrow> Inl JSONDecodeError
                | Some u \<Rightarrow>
                    (case (if 55296 \<le> u \<and> u \<le> 56319 then low_surrogate (drop 4 r) else None) of
                       Some v \<Rightarrow> rbind (scan_string (drop 10 r))
                         (\<lambda>(t, q). Inr ((65536 + (u - 55296) * 1024 + (v - 56320)) # t, q))
                     | None \<Rightarrow> rbind (scan_string (drop 4 r)) (\<lambda>(t, q). Inr (u # t, q))))
             else (case simple_escape e of None \<Rightarrow> Inl JSONDecodeError
                   | Some d \<Rightarrow> rbind (scan_string r) (\<lambda>(t, q). Inr (d # t, q))))
      else if c < 32 then Inl JSONDecodeError
      else rbind (scan_string r) (\<lambda>(t, q). Inr (c # t, q)))"

section \<open>Numbers\<close>

definition INT_MAX_STR_DIGITS :: nat where
  "INT_MAX_STR_DIGITS = 4300"

definition digits_value :: "pystr \<Rightarrow> nat" where
  "digits_value ds = foldl (\<lambda>a d. a * 10 + (d - 48)) 0 ds"

definition int_part :: "pystr \<Rightarrow> pystr" where
  "int_part r = (if take 1 r = [48] then [48] else takeWhile is_digit r)"

definition frac_part :: "pystr \<Rightarrow> pystr" where
  "frac_part r = (if take 1 r = [46] then takeWhile is_digit (drop 1 r) else [])"

text \<open>The sign of the exponent, its digits and the number of characters it takes.\<close>

definition exp_part :: "pystr \<Rightarrow> bool \<times> pystr \<times> nat" where
  "exp_part r =
     (if take 1 r = [101] \<or> take 1 r = [69] then
        let signed = take 1 (drop 1 r) = [43] \<or> take 1 (drop 1 r) = [45];
            k = (if signed then 2 else 1);
            ds = takeWhile is_digit (drop k r)
        in if ds = [] then (False, [], 0) else (take 1 (drop 1 r) = [45], ds, k + length ds)
      else (False, [], 0))"

definition scan_number :: "pystr \<Rightarrow> loads_error + pyjson \<times> pystr" where
  "scan_number s =
     (let neg = (take 1 s = [45]); r = (if neg then drop 1 s else s); ip = int_part r in
      if ip = [] then Inl JSONDecodeError
      else
        let r1 = drop (length ip) r; fp = frac_part r1;
            r2 = (if fp = [] then r1 else drop (1 + length fp) r1);
            (eneg, ep, n) = exp_part r2; r3 = drop n r2
        in if fp = [] \<and> ep = [] then
             (if INT_MAX_STR_DIGITS < length ip then Inl DigitLimitError
              else let v = int (digits_value ip) in Inr (LInt (if neg then - v else v), r3))
           else
             let e = int (digits_value ep); x = (if eneg then - e else e) - int (length fp)
             in Inr (LFloat (fround neg (of_nat (digits_value (ip @ fp)) * 10 powi x)), r3))"

section \<open>Values\<close>

definition is_ws :: "nat \<Rightarrow> bool" where
  "is_ws c \<longleftrightarrow> c = 32 \<or> c = 9 \<or> c = 10 \<or> c = 13"

definition skip_ws :: "pystr \<Rightarrow> pystr" where
  "skip_ws s = dropWhile is_ws s"

definition dict_of :: "(pystr \<times> pyjson) list \<Rightarrow> (pystr \<times> pyjson) list" where
  "dict_of ps = foldl (\<lambda>d (k, v). AList.update k v d) [] ps"

definition scan_word :: "string \<Rightarrow> pyjson \<Rightarrow> pystr \<Rightarrow> (loads_error + pyjson \<times> pystr) \<Rightarrow> loads_error + pyjson \<times> pystr" where
  "scan_word w v s other =
     (if take (length w) s = lit w then Inr (v, drop (length w) s) else other)"

text \<open>The constants and numbers: every value that does not nest.\<close>

definition scan_plain :: "pystr \<Rightarrow> loads_error + pyjson \<times> pystr" where
  "scan_plain s =
     scan_word ''null'' LNull s (scan_word ''true'' (LBool True) s (scan_word ''false'' (LBool False) s
     (scan_word ''NaN'' (LFloat fnan) s (scan_word ''Infinity'' (LFloat (finf False)) s
     (scan_word ''-Infinity'' (LFloat (finf True)) s (scan_number s))))))"

function (sequential) scan_value :: "nat \<Rightarrow> pystr \<Rightarrow> loads_error + pyjson \<times> pystr"
  and scan_items :: "nat \<Rightarrow> pystr \<Rightarrow> loads_error + pyjson list \<times> pystr"
  and scan_pairs :: "nat \<Rightarrow> pystr \<Rightarrow> loads_error + (pystr \<times> pyjson) list \<times> pystr" where
  "scan_value d [] = Inl JSONDecodeError"
| "scan_value d (c # r) =
     (if c = 34 then rbind (scan_string r) (\<lambda>(t, q). Inr (LStr t, q))
      else if c = 123 then
        (if d = 0 then Inl RecursionError
         else if take 1 (skip_ws r) = [125] then Inr (LDict [], drop 1 (skip_ws r))
         else rbind (scan_pairs (d - 1) (skip_ws r)) (\<lambda>(ps, q). Inr (LDict (dict_of ps), q)))
      else if c = 91 then
        (if d = 0 then Inl RecursionError
         else if take 1 (skip_ws r) = [93] then Inr (LList [], drop 1 (skip_ws r))
         else rbind (scan_items (d - 1) (skip_ws r)) (\<lambda>(vs, q). Inr (LList vs, q)))
      else scan_plain (c # r))"
| "scan_items d s =
     rbind (scan_value d s) (\<lambda>(v, q).
       (case skip_ws q of
          [] \<Rightarrow> Inl JSONDecodeError
        | c # q \<Rightarrow>
            if c = 93 then Inr ([v], q)
            else if c = 44 then rbind (scan_items d (skip_ws q)) (\<lambda>(vs, q). Inr (v # vs, q))
            else Inl JSONDecodeError))"
| "scan_pairs d [] = Inl JSONDecodeError"
| "scan_pairs d (c # r) =
     (if c \<noteq> 34 then Inl JSONDecodeError
      else rbind (scan_string r) (\<lambda>(k, q).
        (case skip_ws q of
           [] \<Rightarrow> Inl JSONDecodeError
         | c # q \<Rightarrow>
             if c \<noteq> 58 then Inl JSONDecodeError
             else rbind (scan_value d (skip_ws q)) (\<lambda>(v, q).
               (case skip_ws q of
                  [] \<Rightarrow> Inl JSONDecodeError
                | c # q \<Rightarrow>
                    if c = 125 then Inr ([(k, v)], q)
                    else if c = 44 then rbind (scan_pairs d (skip_ws q)) (\<lambda>(ps, q). Inr ((k, v) # ps, q))
                    else Inl JSONDecodeError)))))"
  by pat_completeness auto

section \<open>The scanner ends\<close>

lemma case_list_eq_Inr [res_simps]:
  "(case xs of [] \<Rightarrow> Inl e | c # q \<Rightarrow> f c q) = Inr v \<longleftrightarrow> (\<exists>c q. xs = c # q \<and> f c q = Inr v)"
  by (cases xs) auto

lemma length_skip_ws: "length (skip_ws s) \<le> length s"
  by (simp add: skip_ws_def length_dropWhile_le)

lemma skip_ws_Cons: "skip_ws s = c # q \<Longrightarrow> length q < length s"
  using length_skip_ws [of s] by simp

lemma scan_string_shorter: "scan_string r = Inr (t, q) \<Longrightarrow> length q < length r"
proof (induction r arbitrary: t q rule: scan_string.induct)
  case (2 c r)
  then show ?case
    by (auto simp: res_simps split: if_splits list.splits option.splits prod.splits) (fastforce+)?
qed simp

lemma scan_number_shorter: "scan_number s = Inr (v, q) \<Longrightarrow> length q < length s"
proof -
  assume n: "scan_number s = Inr (v, q)"
  let ?r = "if take 1 s = [45] then drop 1 s else s"
  have "int_part ?r \<noteq> []" and len: "length q \<le> length ?r - length (int_part ?r)"
    using n by (auto simp: scan_number_def Let_def split: if_splits prod.splits)
  have "?r \<noteq> []"
    using \<open>int_part ?r \<noteq> []\<close> by (auto simp: int_part_def split: if_splits)
  then have "0 < length (int_part ?r)" "0 < length ?r"
    using \<open>int_part ?r \<noteq> []\<close> by simp_all
  moreover have "length ?r \<le> length s" by simp
  ultimately show ?thesis using len by linarith
qed

lemma scan_word_shorter:
  assumes "w \<noteq> []" "other = Inr (v', q) \<Longrightarrow> length q < length s" "scan_word w v s other = Inr (v', q)"
  shows "length q < length s"
proof (cases "take (length w) s = lit w")
  case True
  then have "length (take (length w) s) = length w" by simp
  then have "length w \<le> length s" by (simp add: min_def split: if_splits)
  moreover have "q = drop (length w) s"
    using True assms(3) by (simp add: scan_word_def)
  ultimately show ?thesis using assms(1) by (cases w) auto
qed (use assms in \<open>simp add: scan_word_def\<close>)

lemma scan_plain_shorter: "scan_plain s = Inr (v, q) \<Longrightarrow> length q < length s"
  unfolding scan_plain_def by (elim scan_word_shorter [rotated 2]) (simp_all add: scan_number_shorter)

lemma scan_shorter_partial:
  "scan_value_scan_items_scan_pairs_dom (Inl (d, s)) \<Longrightarrow> scan_value d s = Inr (v, q) \<Longrightarrow> length q < length s"
  "scan_value_scan_items_scan_pairs_dom (Inr (Inl (d, s))) \<Longrightarrow> scan_items d s = Inr (vs, q) \<Longrightarrow> length q < length s"
  "scan_value_scan_items_scan_pairs_dom (Inr (Inr (d, s))) \<Longrightarrow> scan_pairs d s = Inr (ps, q) \<Longrightarrow> length q < length s"
proof (induction arbitrary: v q and vs q and ps q rule: scan_value_scan_items_scan_pairs.pinduct)
  case (1 d)
  then show ?case by (simp add: scan_value.psimps)
next
  case (2 d c r)
  then show ?case
    using length_skip_ws [of r]
    by (fastforce simp: scan_value.psimps res_simps dest: scan_string_shorter scan_plain_shorter split: if_splits prod.splits)
next
  case (3 d s)
  obtain v1 q1 c q2 where v: "scan_value d s = Inr (v1, q1)" and c: "skip_ws q1 = c # q2"
    and k: "c = 93 \<and> q = q2 \<or> c \<noteq> 93 \<and> c = 44 \<and> (\<exists>vs'. scan_items d (skip_ws q2) = Inr (vs', q))"
    using 3(1,4) by (auto simp: scan_items.psimps res_simps split: if_splits)
  have "length q2 < length s"
    using 3(2) [OF v] skip_ws_Cons [OF c] by simp
  moreover have "length q < length (skip_ws q2)" if "c \<noteq> 93" "c = 44" "scan_items d (skip_ws q2) = Inr (vs', q)" for vs'
    using 3(3) [OF v refl c that] .
  ultimately show ?case
    using k length_skip_ws [of q2] by fastforce
next
  case (4 d)
  then show ?case by (simp add: scan_pairs.psimps)
next
  case (5 d c r)
  obtain key q1 x q2 v q3 y q4 where s: "c = 34" "scan_string r = Inr (key, q1)" and x: "skip_ws q1 = x # q2" "x = 58"
    and v: "scan_value d (skip_ws q2) = Inr (v, q3)" and y: "skip_ws q3 = y # q4"
    and k: "y = 125 \<and> q = q4 \<or> y \<noteq> 125 \<and> y = 44 \<and> (\<exists>ps'. scan_pairs d (skip_ws q4) = Inr (ps', q))"
    using 5(1,4) by (auto simp: scan_pairs.psimps res_simps split: if_splits)
  have "length q4 < length (c # r)"
    using scan_string_shorter [OF s(2)] skip_ws_Cons [OF x(1)] 5(2) [OF _ s(2) refl x(1) _ v] skip_ws_Cons [OF y]
      length_skip_ws [of q2] s(1) x(2) by simp
  moreover have "length q < length (skip_ws q4)" if "y \<noteq> 125" "y = 44" "scan_pairs d (skip_ws q4) = Inr (ps', q)" for ps'
    using 5(3) [OF _ s(2) refl x(1) _ v refl y that] s(1) x(2) by simp
  ultimately show ?case
    using k length_skip_ws [of q4] by fastforce
qed

fun scan_size :: "nat \<times> pystr + nat \<times> pystr + nat \<times> pystr \<Rightarrow> nat" where
  "scan_size (Inl (d, s)) = 2 * length s"
| "scan_size (Inr (Inl (d, s))) = 2 * length s + 1"
| "scan_size (Inr (Inr (d, s))) = 2 * length s"

termination scan_value
proof (relation "measure scan_size")
  fix d c :: nat and r :: pystr
  assume "c = 123"
  show "(Inr (Inr (d - 1, skip_ws r)), Inl (d, c # r)) \<in> measure scan_size"
    using length_skip_ws [of r] by simp
next
  fix d c :: nat and r :: pystr
  assume "c = 91"
  show "(Inr (Inl (d - 1, skip_ws r)), Inl (d, c # r)) \<in> measure scan_size"
    using length_skip_ws [of r] by simp
next
  fix d c :: nat and s q r :: pystr and a v
  assume "scan_value_scan_items_scan_pairs_dom (Inl (d, s))" "scan_value d s = Inr a" "(v, q) = a" "skip_ws q = c # r"
  then have "length r < length s"
    using scan_shorter_partial(1) [of d s v q] skip_ws_Cons [of q c r] by simp
  then show "(Inr (Inl (d, skip_ws r)), Inr (Inl (d, s))) \<in> measure scan_size"
    using length_skip_ws [of r] by simp
next
  fix d c x :: nat and r k q q2 :: pystr and a
  assume "scan_string r = Inr a" "(k, q) = a" "skip_ws q = x # q2"
  then have "length q2 < length r"
    using scan_string_shorter [of r k q] skip_ws_Cons [of q x q2] by simp
  then show "(Inl (d, skip_ws q2), Inr (Inr (d, c # r))) \<in> measure scan_size"
    using length_skip_ws [of q2] by simp
next
  fix d c x y :: nat and r k q q2 q3 q4 :: pystr and a b v
  assume "scan_string r = Inr a" "(k, q) = a" "skip_ws q = x # q2"
    "scan_value_scan_items_scan_pairs_dom (Inl (d, skip_ws q2))" "scan_value d (skip_ws q2) = Inr b" "(v, q3) = b"
    "skip_ws q3 = y # q4"
  then have "length q4 < length r"
    using scan_string_shorter [of r k q] skip_ws_Cons [of q x q2] scan_shorter_partial(1) [of d "skip_ws q2" v q3]
      skip_ws_Cons [of q3 y q4] length_skip_ws [of q2] by simp
  then show "(Inr (Inr (d, skip_ws q4)), Inr (Inr (d, c # r))) \<in> measure scan_size"
    using length_skip_ws [of q4] by simp
qed simp_all

definition loads :: "nat \<Rightarrow> pystr \<Rightarrow> loads_error + pyjson" where
  "loads limit s =
     (if take 1 s = [65279] then Inl JSONDecodeError
      else rbind (scan_value limit (skip_ws s)) (\<lambda>(v, q).
        if skip_ws q = [] then Inr v else Inl JSONDecodeError))"

section \<open>Canonical texts are read back\<close>

fun of_json :: "json \<Rightarrow> pyjson" where
  "of_json JNull = LNull"
| "of_json (JBool b) = LBool b"
| "of_json (JInt i) = LInt i"
| "of_json (JStr s) = LStr s"
| "of_json (JList js) = LList (map of_json js)"
| "of_json (JObj ps) = LDict (map (\<lambda>(k, v). (k, of_json v)) ps)"

text \<open>Within the nesting limit, with distinct keys and integers within the digit limit.\<close>

fun readable :: "nat \<Rightarrow> json \<Rightarrow> bool" where
  "readable d (JInt i) \<longleftrightarrow> length (dec_nat (nat \<bar>i\<bar>)) \<le> INT_MAX_STR_DIGITS"
| "readable d (JList js) \<longleftrightarrow> 0 < d \<and> (\<forall>j \<in> set js. readable (d - 1) j)"
| "readable d (JObj ps) \<longleftrightarrow> 0 < d \<and> distinct (map fst ps) \<and> (\<forall>p \<in> set ps. readable (d - 1) (snd p))"
| "readable d _ \<longleftrightarrow> True"

definition stops :: "pystr \<Rightarrow> bool" where
  "stops r \<longleftrightarrow> r = [] \<or> hd r = 44 \<or> hd r = 93 \<or> hd r = 125 \<or> hd r = 10"

lemma hex_value_digit [simp]: "d < 16 \<Longrightarrow> hex_value (hex_digit d) = Some d"
  by (auto simp: hex_value_def hex_digit_def)

lemma scan_string_esc_char:
  "scan_string (esc_char c @ x) = rbind (scan_string x) (\<lambda>(t, q). Inr (c # t, q))"
proof (cases "c = 34 \<or> c = 92 \<or> c = 10 \<or> c = 13 \<or> c = 9 \<or> c = 12 \<or> c = 8")
  case True
  then show ?thesis by (elim disjE) (simp_all add: esc_char_def simple_escape_def)
next
  case False
  then show ?thesis
  proof (cases "c < 32")
    case True
    then have "hex4 (48 # 48 # hex_digit (c div 16) # hex_digit (c mod 16) # x) = Some c"
      by (simp add: hex_value_def [of 48])
    with False True show ?thesis by (simp add: esc_char_def)
  qed (simp add: esc_char_def)
qed

lemma scan_string_esc: "scan_string (esc s @ 34 # r) = Inr (s, r)"
  by (induction s) (simp_all add: scan_string_esc_char)

lemma dec_nat_nonzero_hd: "0 < n \<Longrightarrow> hd (dec_nat n) \<noteq> 48"
proof (induction n rule: dec_nat.induct)
  case (1 n)
  then show ?case
    by (cases "n < 10") (simp_all add: dec_nat.simps [of n] hd_append)
qed

lemma stops_not_digit: "stops r \<Longrightarrow> takeWhile is_digit r = []"
  by (cases r) (auto simp: stops_def is_digit_def)

lemma takeWhile_dec_nat_stops: "stops r \<Longrightarrow> takeWhile is_digit (dec_nat n @ r) = dec_nat n"
  using dec_nat_digits [of n] by (simp add: takeWhile_append stops_not_digit)

lemma int_part_dec_nat: "stops r \<Longrightarrow> int_part (dec_nat n @ r) = dec_nat n"
proof (cases "n = 0")
  case True
  then show ?thesis by (simp add: int_part_def dec_nat.simps [of 0])
next
  case False
  assume "stops r"
  moreover obtain c t where "dec_nat n = c # t" "c \<noteq> 48"
    using dec_nat_nonzero_hd [of n] False by (cases "dec_nat n") auto
  ultimately show ?thesis using takeWhile_dec_nat_stops [of r n] by (simp add: int_part_def)
qed

lemma stops_parts: "stops r \<Longrightarrow> frac_part r = [] \<and> exp_part r = (False, [], 0)"
  by (cases r) (auto simp: stops_def frac_part_def exp_part_def)

lemma scan_number_dec_int:
  assumes "stops r" "length (dec_nat (nat \<bar>i\<bar>)) \<le> INT_MAX_STR_DIGITS"
  shows "scan_number (dec_int i @ r) = Inr (LInt i, r)"
proof (cases "i < 0")
  case True
  with assms show ?thesis
    by (simp add: scan_number_def dec_int_def int_part_dec_nat stops_parts digits_value_def dec_nat_value)
next
  case False
  obtain c t where "dec_nat (nat i) = c # t" "is_digit c"
    using dec_nat_hd by blast
  moreover from this have "c \<noteq> 45" by (simp add: is_digit_def)
  ultimately have "take 1 (dec_nat (nat i) @ r) \<noteq> [45]" by simp
  with False assms show ?thesis
    using int_part_dec_nat [OF assms(1), of "nat i"]
    by (simp add: scan_number_def dec_int_def stops_parts digits_value_def dec_nat_value)
qed

lemma scan_plain_dec_int:
  assumes "stops r" "length (dec_nat (nat \<bar>i\<bar>)) \<le> INT_MAX_STR_DIGITS"
  shows "scan_plain (dec_int i @ r) = Inr (LInt i, r)"
proof -
  obtain c t where "dec_nat (nat \<bar>i\<bar>) = c # t" "is_digit c"
    using dec_nat_hd by blast
  then have "(\<exists>c t. dec_int i @ r = c # t \<and> is_digit c) \<or> (\<exists>c t. dec_int i @ r = 45 # c # t \<and> is_digit c)"
    by (cases "i < 0") (simp_all add: dec_int_def)
  then have "scan_plain (dec_int i @ r) = scan_number (dec_int i @ r)"
    by (elim disjE exE conjE) (simp_all add: scan_plain_def scan_word_def lit_def is_digit_def)
  then show ?thesis using scan_number_dec_int [OF assms] by simp
qed

lemma dict_of_distinct: "distinct (map fst ps) \<Longrightarrow> dict_of ps = ps"
proof (induction ps rule: rev_induct)
  case (snoc p ps)
  have "AList.update k v xs = xs @ [(k, v)]" if "k \<notin> fst ` set xs" for k :: pystr and v :: pyjson and xs
    using that by (induction xs) auto
  with snoc show ?case by (cases p) (simp add: dict_of_def)
qed (simp add: dict_of_def)

lemma shape_not_ws: "shape j c \<Longrightarrow> \<not> is_ws c"
  by (cases j) (auto simp: is_digit_def is_ws_def split: if_splits)

lemma skip_ws_enc [simp]: "skip_ws (enc j @ r) = enc j @ r"
  using enc_shape [of j] shape_not_ws by (auto simp: skip_ws_def)

lemma skip_ws_head [simp]: "\<not> is_ws c \<Longrightarrow> skip_ws (c # r) = c # r"
  by (simp add: skip_ws_def)

lemma enc_not_close: "take 1 (enc j @ r) \<noteq> [93] \<and> take 1 (enc j @ r) \<noteq> [125]"
  using enc_shape [of j] shape_delim by auto

lemma stops_tails: "stops (enc_tail js @ 93 # r)" "stops (enc_pairs ps @ 125 # r)"
  using delimited_tails(1) [of js r] delimited_tails(2) [of ps r] by (auto simp: stops_def delimited_def)

lemma is_ws_simps [simp]: "\<not> is_ws 34" "\<not> is_ws 44" "\<not> is_ws 58" "\<not> is_ws 93" "\<not> is_ws 125"
  by (simp_all add: is_ws_def)

text \<open>What follows a value in an array and a pair in an object.\<close>

definition items_after :: "nat \<Rightarrow> pyjson \<Rightarrow> pystr \<Rightarrow> loads_error + pyjson list \<times> pystr" where
  "items_after d v q = (case skip_ws q of
     [] \<Rightarrow> Inl JSONDecodeError
   | c # q \<Rightarrow> if c = 93 then Inr ([v], q)
       else if c = 44 then rbind (scan_items d (skip_ws q)) (\<lambda>(vs, q). Inr (v # vs, q))
       else Inl JSONDecodeError)"

definition pairs_after :: "nat \<Rightarrow> pystr \<Rightarrow> pyjson \<Rightarrow> pystr \<Rightarrow> loads_error + (pystr \<times> pyjson) list \<times> pystr" where
  "pairs_after d k v q = (case skip_ws q of
     [] \<Rightarrow> Inl JSONDecodeError
   | c # q \<Rightarrow> if c = 125 then Inr ([(k, v)], q)
       else if c = 44 then rbind (scan_pairs d (skip_ws q)) (\<lambda>(ps, q). Inr ((k, v) # ps, q))
       else Inl JSONDecodeError)"

lemma scan_items_after: "scan_value d s = Inr (v, q) \<Longrightarrow> scan_items d s = items_after d v q"
  by (simp add: items_after_def)

lemma scan_pairs_after:
  assumes "scan_value d (enc v @ t) = Inr (w, q)"
  shows "scan_pairs d (enc_str k @ 58 # enc v @ t) = pairs_after d k w q"
proof -
  have "scan_string (esc k @ 34 # 58 # enc v @ t) = Inr (k, 58 # enc v @ t)"
    by (rule scan_string_esc)
  with assms show ?thesis by (simp add: enc_str_def pairs_after_def)
qed

declare scan_items.simps [simp del] scan_pairs.simps [simp del]

lemma scan_enc:
  "\<forall>d r. readable d j \<longrightarrow> stops r \<longrightarrow> scan_value d (enc j @ r) = Inr (of_json j, r)"
  "\<forall>d v r. (\<forall>j \<in> set js. readable d j) \<longrightarrow>
     items_after d v (enc_tail js @ 93 # r) = Inr (v # map of_json js, r)"
  "\<forall>d k v r. (\<forall>p \<in> set ps. readable d (snd p)) \<longrightarrow>
     pairs_after d k v (enc_pairs ps @ 125 # r) = Inr ((k, v) # map (\<lambda>(k, v). (k, of_json v)) ps, r)"
proof (induction j and js and ps rule: enc_enc_tail_enc_pairs.induct)
  case (3 i)
  show ?case
  proof (intro allI impI)
    fix d r assume a: "readable d (JInt i)" "stops r"
    obtain c t where "enc (JInt i) @ r = c # t" "shape (JInt i) c"
      using enc_shape [of "JInt i"] by auto
    then have "scan_value d (enc (JInt i) @ r) = scan_plain (dec_int i @ r)"
      by (auto simp: is_digit_def)
    with a show "scan_value d (enc (JInt i) @ r) = Inr (of_json (JInt i), r)"
      by (simp add: scan_plain_dec_int)
  qed
next
  case (6 j js)
  show ?case
  proof (intro allI impI)
    fix d r assume a: "readable d (JList (j # js))" "stops r"
    then have "scan_value (d - 1) (enc j @ enc_tail js @ 93 # r) = Inr (of_json j, enc_tail js @ 93 # r)"
      using 6(1) stops_tails(1) by simp
    from scan_items_after [OF this] a show "scan_value d (enc (JList (j # js)) @ r) = Inr (of_json (JList (j # js)), r)"
      using 6(2) enc_not_close [of j "enc_tail js @ 93 # r"] by simp
  qed
next
  case (8 k v ps)
  show ?case
  proof (intro allI impI)
    fix d r assume a: "readable d (JObj ((k, v) # ps))" "stops r"
    then have "scan_value (d - 1) (enc v @ enc_pairs ps @ 125 # r) = Inr (of_json v, enc_pairs ps @ 125 # r)"
      using 8(1) stops_tails(2) by simp
    from scan_pairs_after [OF this, of k]
    have "scan_pairs (d - 1) (enc_str k @ 58 # enc v @ enc_pairs ps @ 125 # r) =
        Inr ((k, of_json v) # map (\<lambda>(k, v). (k, of_json v)) ps, r)"
      using 8(2) a by simp
    moreover have "dict_of ((k, of_json v) # map (\<lambda>(k, v). (k, of_json v)) ps) =
        (k, of_json v) # map (\<lambda>(k, v). (k, of_json v)) ps"
      by (rule dict_of_distinct) (use a in \<open>auto simp: comp_def case_prod_unfold\<close>)
    ultimately show "scan_value d (enc (JObj ((k, v) # ps)) @ r) = Inr (of_json (JObj ((k, v) # ps)), r)"
      using a by (simp add: enc_str_def)
  qed
next
  case (10 j js)
  show ?case
  proof (intro allI impI)
    fix d v r assume a: "\<forall>j \<in> set (j # js). readable d j"
    then have "scan_value d (enc j @ enc_tail js @ 93 # r) = Inr (of_json j, enc_tail js @ 93 # r)"
      using 10(1) stops_tails(1) by simp
    from scan_items_after [OF this] a show
      "items_after d v (enc_tail (j # js) @ 93 # r) = Inr (v # map of_json (j # js), r)"
      using 10(2) by (simp add: items_after_def [of d v])
  qed
next
  case (12 k v ps)
  show ?case
  proof (intro allI impI)
    fix d key w r assume a: "\<forall>p \<in> set ((k, v) # ps). readable d (snd p)"
    then have "scan_value d (enc v @ enc_pairs ps @ 125 # r) = Inr (of_json v, enc_pairs ps @ 125 # r)"
      using 12(1) stops_tails(2) by simp
    from scan_pairs_after [OF this, of k]
    have "scan_pairs d (enc_str k @ 58 # enc v @ enc_pairs ps @ 125 # r) =
        Inr ((k, of_json v) # map (\<lambda>(k, v). (k, of_json v)) ps, r)"
      using 12(2) a by simp
    moreover have "skip_ws (enc_str k @ x) = enc_str k @ x" for x
      by (simp add: enc_str_def)
    ultimately show "pairs_after d key w (enc_pairs ((k, v) # ps) @ 125 # r) =
        Inr ((key, w) # map (\<lambda>(k, v). (k, of_json v)) ((k, v) # ps), r)"
      by (simp add: pairs_after_def [of d key])
  qed
qed (simp_all add: scan_plain_def scan_word_def lit_def enc_str_def scan_string_esc items_after_def pairs_after_def)

lemma enc_not_bom: "take 1 (enc j @ r) \<noteq> [65279]"
  using enc_shape [of j] by (cases j) (auto simp: is_digit_def split: if_splits)

theorem loads_dumps:
  assumes "readable limit (canon j)"
  shows "loads limit (dumps j) = Inr (of_json (canon j)) \<and> loads limit (dumps j @ [10]) = Inr (of_json (canon j))"
proof -
  have "scan_value limit (enc (canon j) @ r) = Inr (of_json (canon j), r)" if "stops r" for r
    using scan_enc(1) assms that by blast
  from this [of "[]"] this [of "[10]"] show ?thesis
    using enc_not_bom [of "canon j" "[]"] enc_not_bom [of "canon j" "[10]"] skip_ws_enc [of "canon j" "[]"]
    by (simp add: loads_def dumps_def stops_def) (simp add: skip_ws_def is_ws_def)
qed

end
