(* ===== verification/Py_Numbers.thy ===== *)
theory Py_Numbers
  imports Json_Loads Civil_Time
begin

text \<open>
  Python's conversions of text to numbers, \<^verbatim>\<open>float(text)\<close> and \<^verbatim>\<open>int(text)\<close>, and of a number to
  an instant, \<^verbatim>\<open>datetime.fromtimestamp(value, tz=UTC)\<close>, as CPython 3.12 has them: the decimal digits
  of every script and Unicode white space are read, underscores may separate digits, \<^verbatim>\<open>float\<close> knows
  infinities and NaNs and rounds correctly, \<^verbatim>\<open>int\<close> has a digit limit. \<open>fromtimestamp\<close> keeps the three
  exceptions apart: \<^verbatim>\<open>ValueError\<close> for a NaN and for years outside 1 to 9999, \<^verbatim>\<open>OverflowError\<close> outside
  the platform's 64-bit \<^verbatim>\<open>time_t\<close>, and \<^verbatim>\<open>OSError\<close> where \<^verbatim>\<open>gmtime_r\<close> cannot represent the year.
\<close>

section \<open>Digits and underscores\<close>

text \<open>The zeros of the 68 blocks of ten decimal digits of Unicode 15.\<close>

definition decimal_zeros :: "nat list" where
  "decimal_zeros =
     [1632, 1776, 1984, 2406, 2534, 2662, 2790, 2918, 3046, 3174, 3302, 3430, 3558, 3664, 3792, 3872,
      4160, 4240, 6112, 6160, 6470, 6608, 6784, 6800, 6992, 7088, 7232, 7248, 42528, 43216, 43264,
      43472, 43504, 43600, 44016, 65296, 66720, 68912, 69734, 69872, 69942, 70096, 70384, 70736,
      70864, 71248, 71360, 71472, 71904, 72016, 72784, 73040, 73120, 73552, 92768, 92864, 93008,
      120782, 120792, 120802, 120812, 120822, 123200, 123632, 124144, 125264, 130032]"

text \<open>A space or digit of another script becomes its ASCII form, anything else is no number.\<close>

definition num_char :: "nat \<Rightarrow> nat" where
  "num_char c =
     (if c < 127 then c else if py_isspace c then 32
      else case filter (\<lambda>z. z \<le> c \<and> c < z + 10) decimal_zeros of [] \<Rightarrow> 63 | z # _ \<Rightarrow> 48 + (c - z))"

definition ascii_space :: "nat \<Rightarrow> bool" where
  "ascii_space c \<longleftrightarrow> (9 \<le> c \<and> c \<le> 13) \<or> c = 32"

definition num_strip :: "pystr \<Rightarrow> pystr" where
  "num_strip s = rev (dropWhile ascii_space (rev (dropWhile ascii_space (map num_char s))))"

fun underscores_ok :: "nat \<Rightarrow> pystr \<Rightarrow> bool" where
  "underscores_ok p [] \<longleftrightarrow> p \<noteq> 95"
| "underscores_ok p (c # s) \<longleftrightarrow>
     (if c = 95 then is_digit p else p = 95 \<longrightarrow> is_digit c) \<and> underscores_ok c s"

definition signed :: "pystr \<Rightarrow> bool" where
  "signed s \<longleftrightarrow> take 1 s = [43] \<or> take 1 s = [45]"

section \<open>float(text)\<close>

definition scan_decimal :: "bool \<Rightarrow> pystr \<Rightarrow> f64 option" where
  "scan_decimal neg s =
     (let ip = takeWhile is_digit s; r1 = drop (length ip) s;
          fp = frac_part r1;
          r2 = (if take 1 r1 = [46] then drop (1 + length fp) r1 else r1);
          (eneg, ep, n) = exp_part r2;
          e = int (digits_value ep);
          x = (if eneg then - e else e) - int (length fp)
      in if ip @ fp = [] \<or> drop n r2 \<noteq> [] then None
         else Some (fround neg (of_nat (digits_value (ip @ fp)) * 10 powi x)))"

definition py_float_str :: "pystr \<Rightarrow> f64 option" where
  "py_float_str s =
     (let t = num_strip s; u = filter (\<lambda>c. c \<noteq> 95) t;
          neg = (take 1 u = [45]);
          r = (if signed u then drop 1 u else u); l = map ascii_lower r
      in if \<not> underscores_ok 0 t then None
         else if l = lit ''inf'' \<or> l = lit ''infinity'' then Some (finf neg)
         else if l = lit ''nan'' then Some fnan
         else scan_decimal neg r)"

section \<open>int(text)\<close>

definition py_int_str :: "pystr \<Rightarrow> int option" where
  "py_int_str s =
     (let t = num_strip s;
          neg = (take 1 t = [45]);
          r = (if signed t then drop 1 t else t); ds = filter (\<lambda>c. c \<noteq> 95) r
      in if ds = [] \<or> \<not> list_all is_digit ds \<or> \<not> underscores_ok 0 r \<or> INT_MAX_STR_DIGITS < length ds
         then None
         else let v = int (digits_value ds) in Some (if neg then - v else v))"

section \<open>datetime.fromtimestamp(value, tz=UTC)\<close>

datatype timestamp_error = TsValueError | TsOverflowError | TsOSError

text \<open>The value is split into whole seconds and a fraction, whose microseconds are a rounded product.\<close>

definition timestamp_us :: "f64 \<Rightarrow> int" where
  "timestamp_us x =
     (let v = fval x;
          whole = (if v < 0 then - \<lfloor>- v\<rfloor> else \<lfloor>v\<rfloor>);
          part = v - of_int whole
      in whole * 1000000 + rnd_even (fval (fround (part < 0) (\<bar>part\<bar> * 1000000))))"

definition fromtimestamp :: "f64 \<Rightarrow> timestamp_error + int" where
  "fromtimestamp x =
     (if isnan x then Inl TsValueError
      else let t = timestamp_us x; s = t div 1000000 in
        if s < - (2 ^ 63) \<or> 2 ^ 63 \<le> s then Inl TsOverflowError
        else if s < -67768040609740800 \<or> 67768036191676799 < s then Inl TsOSError
        else if in_calendar t then Inr t
        else Inl TsValueError)"

lemma fromtimestamp_in_calendar: "fromtimestamp x = Inr t \<Longrightarrow> in_calendar t"
  by (auto simp: fromtimestamp_def Let_def split: if_splits)

end
