(* ===== verification/Iso_Format.thy ===== *)
theory Iso_Format
  imports Py_Numbers
begin

text \<open>
  \<^verbatim>\<open>datetime.fromisoformat(text)\<close> of CPython 3.12 on text without lone surrogates and null
  characters (the loader rejects both before it gets here). The parser works on the UTF-8 bytes,
  reads a null after the last one, finds the separator of date and time from the shape of the
  date, and accepts calendar dates and ISO week dates, basic and extended times with a fraction of
  a second cut to six digits, and a UTC offset. The result keeps the wall clock and the offset
  apart, as an aware \<^verbatim>\<open>datetime\<close> does; \<^term>\<open>None\<close> is \<^verbatim>\<open>ValueError\<close>.
\<close>

definition byte_at :: "nat list \<Rightarrow> nat \<Rightarrow> nat" where
  "byte_at b i = (if i < length b then b ! i else 0)"

definition fixed_digits :: "nat \<Rightarrow> nat list \<Rightarrow> (int \<times> nat list) option" where
  "fixed_digits k b =
     (if length (takeWhile is_digit (take k b)) = k then Some (int (digits_value (take k b)), drop k b)
      else None)"

section \<open>Dates\<close>

definition separator_position :: "nat list \<Rightarrow> nat option" where
  "separator_position b =
     (let n = length b in
      if n = 7 then Some 7
      else if byte_at b 4 = 45 then
        (if byte_at b 5 = 87 then
           (if n < 8 then None
            else if 8 < n \<and> byte_at b 8 = 45 then
              (if n = 9 then None else if 10 < n \<and> is_digit (byte_at b 10) then Some 8 else Some 10)
            else Some 8)
         else Some 10)
      else if byte_at b 4 = 87 then
        (let pos = 7 + length (takeWhile is_digit (drop 7 b)) in
         if pos < 9 then Some pos else if even pos then Some 7 else Some 8)
      else Some 8)"

definition valid_date :: "int \<times> int \<times> int \<Rightarrow> bool" where
  "valid_date d = (case d of (y, m, day) \<Rightarrow>
     1 \<le> y \<and> y \<le> 9999 \<and> 1 \<le> m \<and> m \<le> 12 \<and> 1 \<le> day \<and>
     day \<le> days_before_month (is_leap y) (m + 1) - days_before_month (is_leap y) m)"

text \<open>The day number of a week date, day 0 being the Monday 0001-01-01.\<close>

definition week_ordinal :: "int \<Rightarrow> int \<Rightarrow> int \<Rightarrow> int option" where
  "week_ordinal y w d =
     (let first = ymd2ord (y, 1, 1); wd = first mod 7 in
      if \<not> (1 \<le> y \<and> y \<le> 9999) \<or> \<not> (1 \<le> d \<and> d \<le> 7) \<or>
         \<not> (1 \<le> w \<and> (w \<le> 52 \<or> w = 53 \<and> (wd = 3 \<or> wd = 2 \<and> is_leap y)))
      then None
      else Some (first - wd + (if 3 < wd then 7 else 0) + (w - 1) * 7 + d - 1))"

definition skip_byte :: "bool \<Rightarrow> nat \<Rightarrow> nat list \<Rightarrow> nat list option" where
  "skip_byte required c b =
     (if \<not> required then Some b else if byte_at b 0 = c then Some (tl b) else None)"

text \<open>\<open>parse_date b n\<close>: the day number of a date that takes \<open>n\<close> bytes.\<close>

definition parse_date :: "nat list \<Rightarrow> nat \<Rightarrow> int option" where
  "parse_date b n =
     Option.bind (fixed_digits 4 b) (\<lambda>(y, r).
       let dashed = (byte_at r 0 = 45); r = (if dashed then tl r else r) in
       if byte_at r 0 = 87 then
         Option.bind (fixed_digits 2 (tl r)) (\<lambda>(w, q).
           if length b - length q < n then
             Option.bind (skip_byte dashed 45 q) (\<lambda>q.
             Option.bind (fixed_digits 1 q) (\<lambda>(d, _). week_ordinal y w d))
           else week_ordinal y w 1)
       else
         Option.bind (fixed_digits 2 r) (\<lambda>(m, r).
         Option.bind (skip_byte dashed 45 r) (\<lambda>r.
         Option.bind (fixed_digits 2 r) (\<lambda>(d, r).
           if length b - length r = n \<and> valid_date (y, m, d) then Some (ymd2ord (y, m, d))
           else None))))"

section \<open>Times\<close>

text \<open>
  The fields of a time whose end lies \<open>n\<close> bytes ahead: hour, minute and second, then whether a
  fraction is due, where the parser stands and how far the end still is. \<^verbatim>\<open>Done\<close> carries the byte
  after the last field, which is not null when something is left over.
\<close>

datatype fields = Done "int list" nat | Fraction "int list" "nat list" int

primrec time_fields :: "nat \<Rightarrow> bool \<Rightarrow> bool \<Rightarrow> nat list \<Rightarrow> int \<Rightarrow> fields option" where
  "time_fields 0 is_first colons b n = Some (Fraction [] b n)"
| "time_fields (Suc i) is_first colons b n =
     Option.bind (fixed_digits 2 b) (\<lambda>(v, r).
       let c = byte_at r 0; colons = (if is_first then c = 58 else colons);
           more = (\<lambda>r n. map_option (\<lambda>f. case f of Done vs c \<Rightarrow> Done (v # vs) c
                                           | Fraction vs r n \<Rightarrow> Fraction (v # vs) r n)
                          (time_fields i False colons r n))
       in if n - 3 \<le> 0 then Some (Done [v] c)
          else if colons \<and> c = 58 then more (tl r) (n - 3)
          else if c = 46 \<or> c = 44 then Some (Fraction [v] (tl r) (n - 3))
          else if \<not> colons then more r (n - 2)
          else None)"

definition clock_us :: "int list \<Rightarrow> int \<Rightarrow> int option" where
  "clock_us vs us =
     (let h = vs ! 0; m = (if 1 < length vs then vs ! 1 else 0); s = (if 2 < length vs then vs ! 2 else 0)
      in if h < 24 \<and> m < 60 \<and> s < 60 then Some ((h * 3600 + m * 60 + s) * 1000000 + us) else None)"

text \<open>The fields, the microseconds, and whether something is left over.\<close>

definition time_parts :: "nat list \<Rightarrow> int \<Rightarrow> (int list \<times> int \<times> bool) option" where
  "time_parts b n =
     Option.bind (time_fields 3 True True b n) (\<lambda>f.
       case f of Done vs c \<Rightarrow> Some (vs, 0, c \<noteq> 0)
       | Fraction vs r m \<Rightarrow>
           (let k = (if 6 \<le> m then 6 else nat m) in
            Option.bind (fixed_digits k r) (\<lambda>(us, q).
              Some (vs, us * 10 ^ (6 - k), byte_at (dropWhile is_digit q) 0 \<noteq> 0))))"

definition is_zone_start :: "nat \<Rightarrow> bool" where
  "is_zone_start c \<longleftrightarrow> c = 43 \<or> c = 45 \<or> c = 90"

definition total_seconds :: "int list \<Rightarrow> int" where
  "total_seconds vs =
     vs ! 0 * 3600 + (if 1 < length vs then vs ! 1 * 60 else 0) + (if 2 < length vs then vs ! 2 else 0)"

text \<open>The microseconds of the day, and the offset in microseconds when there is one.\<close>

definition zone_offset :: "nat list \<Rightarrow> int option" where
  "zone_offset z =
     (if byte_at z 0 = 90 then (if length z = 1 then Some 0 else None)
      else case time_parts (tl z) (int (length (tl z))) of
             Some (vs, us, False) \<Rightarrow>
               (let sign = (if byte_at z 0 = 45 then -1 else 1); secs = total_seconds vs;
                    off = (if secs = 0 then 0 else sign * (secs * 1000000 + us))
                in if \<bar>off\<bar> < 86400000000 then Some off else None)
           | _ \<Rightarrow> None)"

definition parse_time :: "nat list \<Rightarrow> (int \<times> int option) option" where
  "parse_time b =
     (let body = takeWhile (\<lambda>c. \<not> is_zone_start c) b; z = drop (length body) b in
      Option.bind (time_parts b (int (length body))) (\<lambda>(vs, us, rest).
      Option.bind (clock_us vs us) (\<lambda>t.
        if z = [] then (if rest then None else Some (t, None))
        else map_option (\<lambda>off. (t, Some off)) (zone_offset z))))"

section \<open>datetime.fromisoformat(text)\<close>

definition separator_width :: "nat \<Rightarrow> nat" where
  "separator_width c = (if c < 128 then 1 else if c div 16 = 14 then 3 else if c div 16 = 15 then 4 else 2)"

definition fromisoformat :: "pystr \<Rightarrow> pydatetime option" where
  "fromisoformat s =
     (if length s < 7 then None
      else Option.bind (utf8 s) (\<lambda>b. Option.bind (separator_position b) (\<lambda>p.
        Option.bind (parse_date b p) (\<lambda>day.
          let midnight = (day - 719162) * 86400000000 in
          if \<not> in_calendar midnight then None
          else if p < length b then
            map_option (\<lambda>(t, off). case off of None \<Rightarrow> Naive (midnight + t) | Some o1 \<Rightarrow> Aware (midnight + t) (Some o1))
              (parse_time (drop (p + separator_width (b ! p)) b))
          else Some (Naive midnight)))))"

end
