(* ===== verification/Csv_Reader.thy ===== *)
theory Csv_Reader
  imports Prelude
begin

text \<open>
  The part of the standard library's \<^verbatim>\<open>csv\<close> module the loader uses, \<^verbatim>\<open>csv.reader(io.StringIO(text),
  strict=True)\<close> with the default dialect, and the loader's own \<^verbatim>\<open>_validate_logical_record_width\<close>.

  The reader is the state machine of CPython 3.12: it takes the lines of the text one by one, each
  followed by an end-of-line event, until it is back in the start state, and returns the fields of
  one record. The width check is a second, simpler machine over the same characters. The main
  result relates the two: where every quote opens or closes a quoted field, the check accepts a
  text exactly if no record of it is wider than the limit.
\<close>

section \<open>The reader\<close>

datatype csv_error = FieldTooLarge | CsvFormatError

datatype csv_state =
  START_RECORD | START_FIELD | IN_FIELD | IN_QUOTED_FIELD | QUOTE_IN_QUOTED_FIELD | EAT_CRNL

record csv_parser =
  cp_state :: csv_state
  cp_fields :: "pystr list"
  cp_field :: pystr

definition parser_reset :: csv_parser where
  "parser_reset = \<lparr>cp_state = START_RECORD, cp_fields = [], cp_field = []\<rparr>"

definition add_char :: "int \<Rightarrow> nat \<Rightarrow> csv_state \<Rightarrow> csv_parser \<Rightarrow> csv_error + csv_parser" where
  "add_char limit c st p =
     (if limit \<le> int (length (cp_field p)) then Inl FieldTooLarge
      else Inr (p\<lparr>cp_field := cp_field p @ [c], cp_state := st\<rparr>))"

definition save_field :: "csv_state \<Rightarrow> csv_parser \<Rightarrow> csv_parser" where
  "save_field st p = p\<lparr>cp_fields := cp_fields p @ [cp_field p], cp_field := [], cp_state := st\<rparr>"

definition is_newline :: "nat \<Rightarrow> bool" where
  "is_newline c \<longleftrightarrow> c = 10 \<or> c = 13"

text \<open>One character in the middle of a line.\<close>

definition process_char :: "int \<Rightarrow> nat \<Rightarrow> csv_parser \<Rightarrow> csv_error + csv_parser" where
  "process_char limit c p =
     (let start_field =
            (if is_newline c then Inr (save_field EAT_CRNL p)
             else if c = 34 then Inr (p\<lparr>cp_state := IN_QUOTED_FIELD\<rparr>)
             else if c = 44 then Inr (save_field START_FIELD p)
             else add_char limit c IN_FIELD p)
      in case cp_state p of
        START_RECORD \<Rightarrow> if is_newline c then Inr (p\<lparr>cp_state := EAT_CRNL\<rparr>) else start_field
      | START_FIELD \<Rightarrow> start_field
      | IN_FIELD \<Rightarrow>
          if is_newline c then Inr (save_field EAT_CRNL p)
          else if c = 44 then Inr (save_field START_FIELD p)
          else add_char limit c IN_FIELD p
      | IN_QUOTED_FIELD \<Rightarrow>
          if c = 34 then Inr (p\<lparr>cp_state := QUOTE_IN_QUOTED_FIELD\<rparr>)
          else add_char limit c IN_QUOTED_FIELD p
      | QUOTE_IN_QUOTED_FIELD \<Rightarrow>
          if c = 34 then add_char limit c IN_QUOTED_FIELD p
          else if c = 44 then Inr (save_field START_FIELD p)
          else if is_newline c then Inr (save_field EAT_CRNL p)
          else Inl CsvFormatError
      | EAT_CRNL \<Rightarrow> if is_newline c then Inr p else Inl CsvFormatError)"

text \<open>The end of a line.\<close>

definition process_eol :: "csv_parser \<Rightarrow> csv_parser" where
  "process_eol p =
     (case cp_state p of
        START_RECORD \<Rightarrow> p
      | IN_QUOTED_FIELD \<Rightarrow> p
      | EAT_CRNL \<Rightarrow> p\<lparr>cp_state := START_RECORD\<rparr>
      | _ \<Rightarrow> save_field START_RECORD p)"

primrec process_line :: "int \<Rightarrow> pystr \<Rightarrow> csv_parser \<Rightarrow> csv_error + csv_parser" where
  "process_line limit [] p = Inr (process_eol p)"
| "process_line limit (c # s) p = rbind (process_char limit c p) (process_line limit s)"

text \<open>\<^verbatim>\<open>next(reader)\<close> on the lines that are left: \<^term>\<open>None\<close> is \<^verbatim>\<open>StopIteration\<close>.\<close>

primrec read_record ::
  "int \<Rightarrow> csv_parser \<Rightarrow> pystr list \<Rightarrow> csv_error + (pystr list \<times> pystr list) option" where
  "read_record limit p [] =
     (if cp_field p \<noteq> [] \<or> cp_state p = IN_QUOTED_FIELD then Inl CsvFormatError else Inr None)"
| "read_record limit p (l # ls) =
     rbind (process_line limit l p) (\<lambda>p.
       if cp_state p = START_RECORD then Inr (Some (cp_fields p, ls)) else read_record limit p ls)"

text \<open>The lines of \<^verbatim>\<open>io.StringIO(text)\<close>, each with its line feed.\<close>

fun py_lines :: "pystr \<Rightarrow> pystr list" where
  "py_lines [] = []"
| "py_lines (c # s) =
     (if c = 10 then [c] # py_lines s
      else case py_lines s of [] \<Rightarrow> [[c]] | l # ls \<Rightarrow> (c # l) # ls)"

lemma read_record_shorter:
  "read_record limit p ls = Inr (Some (row, rest)) \<Longrightarrow> length rest < length ls"
  by (induction ls arbitrary: p) (auto simp: rbind_eq_Inr less_SucI split: if_splits)

text \<open>All records, as a loop over the reader sees them.\<close>

function read_all :: "int \<Rightarrow> pystr list \<Rightarrow> csv_error + pystr list list" where
  "read_all limit ls =
     (case read_record limit parser_reset ls of
        Inl e \<Rightarrow> Inl e
      | Inr None \<Rightarrow> Inr []
      | Inr (Some (row, rest)) \<Rightarrow> rbind (read_all limit rest) (\<lambda>rows. Inr (row # rows)))"
  by pat_completeness auto
termination
  by (relation "measure (length \<circ> snd)") (auto dest: read_record_shorter)

declare read_all.simps [simp del]

section \<open>The width check\<close>

text \<open>
  \<^verbatim>\<open>_validate_logical_record_width\<close> on the rest of the text; \<^term>\<open>False\<close> is the error
  \<^verbatim>\<open>COLUMN_LIMIT_EXCEEDED\<close>.
\<close>

function width_scan :: "int \<Rightarrow> bool \<Rightarrow> int \<Rightarrow> pystr \<Rightarrow> bool" where
  "width_scan maximum in_quotes column_count text =
     (case text of
        [] \<Rightarrow> True
      | c # s \<Rightarrow>
          if c = 34 then
            (if in_quotes \<and> take 1 s = [34] then width_scan maximum in_quotes column_count (drop 1 s)
             else width_scan maximum (\<not> in_quotes) column_count s)
          else if c = 44 \<and> \<not> in_quotes then
            (if maximum < column_count + 1 then False
             else width_scan maximum in_quotes (column_count + 1) s)
          else if (c = 13 \<or> c = 10) \<and> \<not> in_quotes then
            (if c = 13 \<and> take 1 s = [10] then width_scan maximum in_quotes 1 (drop 1 s)
             else width_scan maximum in_quotes 1 s)
          else width_scan maximum in_quotes column_count s)"
  by pat_completeness auto
termination
  by (relation "measure (\<lambda>(_, _, _, s). length s)") auto

declare width_scan.simps [simp del]

definition validate_logical_record_width :: "int \<Rightarrow> pystr \<Rightarrow> bool" where
  "validate_logical_record_width maximum text = width_scan maximum False 1 text"

text \<open>The looks ahead change nothing: two quotes toggle twice, two line ends reset twice.\<close>

definition width_step :: "int \<Rightarrow> nat \<Rightarrow> bool \<times> int \<Rightarrow> (bool \<times> int) option" where
  "width_step maximum c st =
     (case st of (q, n) \<Rightarrow>
        if c = 34 then Some (\<not> q, n)
        else if q then Some (q, n)
        else if c = 44 then (if maximum < n + 1 then None else Some (q, n + 1))
        else if is_newline c then Some (q, 1)
        else Some (q, n))"

primrec width_run :: "int \<Rightarrow> pystr \<Rightarrow> bool \<times> int \<Rightarrow> (bool \<times> int) option" where
  "width_run maximum [] st = Some st"
| "width_run maximum (c # s) st = Option.bind (width_step maximum c st) (width_run maximum s)"

lemma width_scan_run: "width_scan maximum q n s \<longleftrightarrow> width_run maximum s (q, n) \<noteq> None"
proof (induction maximum q n s rule: width_scan.induct)
  case (1 maximum q n s)
  show ?case
  proof (cases s)
    case (Cons c r)
    note IH = "1.IH" [OF Cons]
    have unfold: "width_scan maximum q n (c # r) =
        (if c = 34 then
            (if q \<and> take 1 r = [34] then width_scan maximum q n (drop 1 r) else width_scan maximum (\<not> q) n r)
          else if c = 44 \<and> \<not> q then
            (if maximum < n + 1 then False else width_scan maximum q (n + 1) r)
          else if (c = 13 \<or> c = 10) \<and> \<not> q then
            (if c = 13 \<and> take 1 r = [10] then width_scan maximum q 1 (drop 1 r) else width_scan maximum q 1 r)
          else width_scan maximum q n r)"
      by (subst width_scan.simps) simp
    have peek: "take 1 r = [d] \<Longrightarrow> r = d # drop 1 r" for d
      by (cases r) auto
    consider "c = 34" "q" "take 1 r = [34]" | "c = 34" "\<not> (q \<and> take 1 r = [34])" | "c = 44" "\<not> q"
      | "c = 13" "\<not> q" "take 1 r = [10]" | "c = 13 \<or> c = 10" "\<not> q" "\<not> (c = 13 \<and> take 1 r = [10])"
      | "c \<noteq> 34" "q" | "c \<noteq> 34" "c \<noteq> 44" "c \<noteq> 13" "c \<noteq> 10"
      by blast
    then show ?thesis
    proof cases
      case 1
      have "width_run maximum r (\<not> q, n) = width_run maximum (drop 1 r) (q, n)"
        by (subst peek [OF 1(3)]) (simp add: width_step_def)
      with 1 IH(1) show ?thesis unfolding Cons unfold by (simp add: width_step_def)
    next
      case 4
      have "width_run maximum r (q, 1) = width_run maximum (drop 1 r) (q, 1)"
        using 4(2) by (subst peek [OF 4(3)]) (simp add: width_step_def is_newline_def)
      with 4 IH(4) show ?thesis unfolding Cons unfold by (simp add: width_step_def is_newline_def)
    qed (use IH in \<open>unfold Cons unfold, auto simp: width_step_def is_newline_def\<close>)
  qed (simp add: width_scan.simps)
qed

section \<open>The width check against the reader\<close>

text \<open>No quote is read in the middle of an unquoted field.\<close>

primrec chars_quoted :: "int \<Rightarrow> pystr \<Rightarrow> csv_parser \<Rightarrow> bool" where
  "chars_quoted limit [] p \<longleftrightarrow> True"
| "chars_quoted limit (c # s) p \<longleftrightarrow> (c = 34 \<longrightarrow> cp_state p \<noteq> IN_FIELD) \<and>
     (case process_char limit c p of Inl _ \<Rightarrow> True | Inr p \<Rightarrow> chars_quoted limit s p)"

primrec well_quoted :: "int \<Rightarrow> pystr list \<Rightarrow> csv_parser \<Rightarrow> bool" where
  "well_quoted limit [] p \<longleftrightarrow> True"
| "well_quoted limit (l # ls) p \<longleftrightarrow> chars_quoted limit l p \<and>
     (case process_line limit l p of
        Inl _ \<Rightarrow> True
      | Inr p \<Rightarrow> well_quoted limit ls (if cp_state p = START_RECORD then parser_reset else p))"

primrec process_chars :: "int \<Rightarrow> pystr \<Rightarrow> csv_parser \<Rightarrow> csv_error + csv_parser" where
  "process_chars limit [] p = Inr p"
| "process_chars limit (c # s) p = rbind (process_char limit c p) (process_chars limit s)"

definition record_width :: "csv_parser \<Rightarrow> nat" where
  "record_width p = (if cp_state p = START_RECORD \<or> cp_state p = EAT_CRNL then length (cp_fields p)
                     else Suc (length (cp_fields p)))"

text \<open>How the two machines correspond while the check has not failed.\<close>

definition in_step :: "int \<Rightarrow> csv_parser \<Rightarrow> bool \<times> int \<Rightarrow> bool" where
  "in_step m p st \<longleftrightarrow> fst st = (cp_state p = IN_QUOTED_FIELD) \<and> snd st \<le> m \<and>
     (case cp_state p of
        START_RECORD \<Rightarrow> cp_fields p = [] \<and> snd st = 1
      | EAT_CRNL \<Rightarrow> int (length (cp_fields p)) \<le> m \<and> snd st = 1
      | _ \<Rightarrow> snd st = int (length (cp_fields p)) + 1)"

lemmas reader_defs = process_char_def process_eol_def save_field_def add_char_def is_newline_def Let_def

lemma process_line_chars: "process_line limit s p = rbind (process_chars limit s p) (\<lambda>p. Inr (process_eol p))"
proof (induction s arbitrary: p)
  case (Cons c s)
  then show ?case by (cases "process_char limit c p") simp_all
qed simp

lemma process_char_width:
  assumes "process_char limit c p = Inr p'" "cp_state p = START_RECORD \<longrightarrow> cp_fields p = []"
  shows "record_width p \<le> record_width p' \<and> cp_state p' \<noteq> START_RECORD"
  using assms by (cases "cp_state p") (auto simp: reader_defs record_width_def split: if_splits)

lemma process_chars_width:
  assumes "process_chars limit s p = Inr p'" "cp_state p = START_RECORD \<longrightarrow> cp_fields p = []"
  shows "record_width p \<le> record_width p' \<and> (cp_state p' = START_RECORD \<longrightarrow> cp_fields p' = [])"
  using assms
proof (induction s arbitrary: p)
  case (Cons c s)
  then obtain r where r: "process_char limit c p = Inr r" "process_chars limit s r = Inr p'"
    by (auto simp: rbind_eq_Inr)
  with Cons.IH [of r] process_char_width [OF r(1) Cons.prems(2)] show ?case by auto
qed simp

lemma process_eol_width:
  "record_width (process_eol p) = record_width p"
  "cp_state (process_eol p) = START_RECORD \<or> cp_state (process_eol p) = IN_QUOTED_FIELD"
  by (cases "cp_state p"; simp add: reader_defs record_width_def)+

lemma process_char_in_step:
  assumes "process_char limit c p = Inr p'" "in_step m p st" "c = 34 \<longrightarrow> cp_state p \<noteq> IN_FIELD" "1 \<le> m"
  shows "(\<exists>st'. width_step m c st = Some st' \<and> in_step m p' st')
       \<or> (width_step m c st = None \<and> m < int (record_width p'))"
  using assms
  by (cases st; cases "cp_state p") (auto simp: reader_defs in_step_def width_step_def record_width_def split: if_splits)

lemma in_step_start: "in_step m p st \<Longrightarrow> cp_state p = START_RECORD \<longrightarrow> cp_fields p = []"
  by (auto simp: in_step_def)

lemma process_chars_in_step:
  assumes "process_chars limit s p = Inr p'" "in_step m p st" "chars_quoted limit s p" "1 \<le> m"
  shows "(\<exists>st'. width_run m s st = Some st' \<and> in_step m p' st')
       \<or> (width_run m s st = None \<and> m < int (record_width p'))"
  using assms
proof (induction s arbitrary: p st)
  case (Cons c s)
  then obtain r where r: "process_char limit c p = Inr r" "process_chars limit s r = Inr p'"
    by (auto simp: rbind_eq_Inr)
  with Cons.prems have q: "c = 34 \<longrightarrow> cp_state p \<noteq> IN_FIELD" "chars_quoted limit s r"
    by auto
  from process_char_in_step [OF r(1) Cons.prems(2) q(1) Cons.prems(4)] show ?case
  proof
    assume "\<exists>st'. width_step m c st = Some st' \<and> in_step m r st'"
    then obtain st' where st': "width_step m c st = Some st'" "in_step m r st'" by blast
    with Cons.IH [OF r(2) st'(2) q(2) Cons.prems(4)] show ?case by simp
  next
    assume "width_step m c st = None \<and> m < int (record_width r)"
    moreover have "cp_state r \<noteq> START_RECORD"
      using process_char_width [OF r(1) in_step_start [OF Cons.prems(2)]] by simp
    ultimately show ?case
      using process_chars_width [OF r(2)] by auto
  qed
qed simp

definition proper_lines :: "pystr list \<Rightarrow> bool" where
  "proper_lines ls \<longleftrightarrow> (\<forall>l \<in> set (butlast ls). l \<noteq> [] \<and> last l = 10)"

lemma proper_lines_Cons:
  "proper_lines (l # ls) \<longleftrightarrow> (ls \<noteq> [] \<longrightarrow> l \<noteq> [] \<and> last l = 10) \<and> proper_lines ls"
  by (auto simp: proper_lines_def)

lemma process_chars_last:
  assumes "process_chars limit s p = Inr p'" "s \<noteq> []" "last s = 10"
  shows "cp_state p' = EAT_CRNL \<or> cp_state p' = IN_QUOTED_FIELD"
  using assms
proof (induction s arbitrary: p)
  case (Cons c s)
  show ?case
  proof (cases "s = []")
    case True
    with Cons.prems show ?thesis
      by (cases "cp_state p") (auto simp: reader_defs rbind_eq_Inr split: if_splits)
  qed (use Cons in \<open>auto simp: rbind_eq_Inr\<close>)
qed simp

lemma width_run_append: "width_run m (s @ t) st = Option.bind (width_run m s st) (width_run m t)"
proof (induction s arbitrary: st)
  case (Cons c s)
  then show ?case by (cases "width_step m c st") simp_all
qed simp

lemma process_line_state:
  "process_line limit l p = Inr p' \<Longrightarrow> cp_state p' = START_RECORD \<or> cp_state p' = IN_QUOTED_FIELD"
  using process_eol_width(2) by (auto simp: process_line_chars rbind_eq_Inr)

lemma process_line_width:
  "process_line limit l p = Inr p' \<Longrightarrow> (cp_state p = START_RECORD \<longrightarrow> cp_fields p = []) \<Longrightarrow>
     record_width p \<le> record_width p'"
  using process_chars_width by (fastforce simp: process_line_chars rbind_eq_Inr process_eol_width)

text \<open>After a line: the record is complete and narrow enough, or a quoted field goes on.\<close>

lemma process_line_in_step:
  assumes "process_line limit l p = Inr p'" "in_step m p st" "chars_quoted limit l p" "1 \<le> m"
  shows "(\<exists>st'. width_run m l st = Some st' \<and>
            (if cp_state p' = START_RECORD
             then int (length (cp_fields p')) \<le> m \<and> (l \<noteq> [] \<and> last l = 10 \<longrightarrow> st' = (False, 1))
             else in_step m p' st'))
       \<or> (width_run m l st = None \<and> m < int (record_width p'))"
proof -
  obtain r where r: "process_chars limit l p = Inr r" "p' = process_eol r"
    using assms(1) by (auto simp: process_line_chars rbind_eq_Inr)
  from process_chars_in_step [OF r(1) assms(2-4)] show ?thesis
  proof
    assume "width_run m l st = None \<and> m < int (record_width r)"
    then show ?thesis by (simp add: r(2) process_eol_width)
  next
    assume "\<exists>st'. width_run m l st = Some st' \<and> in_step m r st'"
    then obtain st' where st': "width_run m l st = Some st'" "in_step m r st'" by blast
    have "if cp_state p' = START_RECORD
          then int (length (cp_fields p')) \<le> m \<and> (l \<noteq> [] \<and> last l = 10 \<longrightarrow> st' = (False, 1))
          else in_step m p' st'"
      using st'(2) process_chars_last [OF r(1)] assms(4) r(2)
      by (cases "cp_state r"; cases st') (auto simp: in_step_def process_eol_def save_field_def)
    with st'(1) show ?thesis by blast
  qed
qed

lemma read_record_width:
  assumes "read_record limit p ls = Inr (Some (row, rest))" "cp_state p = START_RECORD \<longrightarrow> cp_fields p = []"
  shows "record_width p \<le> length row"
  using assms
proof (induction ls arbitrary: p)
  case (Cons l ls)
  then obtain r where r: "process_line limit l p = Inr r" by (auto simp: rbind_eq_Inr)
  have le: "record_width p \<le> record_width r"
    using process_line_width [OF r Cons.prems(2)] .
  show ?case
  proof (cases "cp_state r = START_RECORD")
    case True
    with le r Cons.prems(1) show ?thesis by (simp add: record_width_def)
  next
    case False
    with r Cons.prems(1) Cons.IH [of r] have "record_width r \<le> length row" by simp
    with le show ?thesis by simp
  qed
qed (simp split: if_splits)

lemma read_record_rest:
  assumes "read_record limit p ls = Inr (Some (row, rest))" "well_quoted limit ls p" "proper_lines ls"
  shows "well_quoted limit rest parser_reset \<and> proper_lines rest"
  using assms
  by (induction ls arbitrary: p) (auto simp: rbind_eq_Inr proper_lines_Cons split: if_splits)

lemma read_record_in_step:
  assumes "read_record limit p ls = Inr (Some (row, rest))" "in_step m p st" "well_quoted limit ls p"
    "proper_lines ls" "1 \<le> m"
  shows "(width_run m (concat ls) st \<noteq> None \<longleftrightarrow>
            int (length row) \<le> m \<and> width_run m (concat rest) (False, 1) \<noteq> None) \<and>
         well_quoted limit rest parser_reset \<and> proper_lines rest"
  using assms
proof (induction ls arbitrary: p st)
  case (Cons l ls)
  then obtain r where r: "process_line limit l p = Inr r"
    "(if cp_state r = START_RECORD then Inr (Some (cp_fields r, ls)) else read_record limit r ls)
       = Inr (Some (row, rest))"
    by (auto simp: rbind_eq_Inr)
  have q: "chars_quoted limit l p"
    "well_quoted limit ls (if cp_state r = START_RECORD then parser_reset else r)"
    using Cons.prems(3) r(1) by auto
  have proper: "proper_lines ls" "ls \<noteq> [] \<longrightarrow> l \<noteq> [] \<and> last l = 10"
    using Cons.prems(4) by (auto simp: proper_lines_Cons)
  note line = process_line_in_step [OF r(1) Cons.prems(2) q(1) Cons.prems(5)]
  show ?case
  proof (cases "cp_state r = START_RECORD")
    case True
    with r(2) have row: "row = cp_fields r" "rest = ls" by auto
    show ?thesis
    proof (cases "ls = []")
      case True
      with line row \<open>cp_state r = START_RECORD\<close> show ?thesis
        by (auto simp: record_width_def proper_lines_def)
    next
      case False
      with line row proper q(2) True show ?thesis
        by (auto simp: record_width_def width_run_append)
    qed
  next
    case False
    with r(2) have rec: "read_record limit r ls = Inr (Some (row, rest))" by simp
    from line False consider
      st' where "width_run m l st = Some st'" "in_step m r st'"
      | "width_run m l st = None" "m < int (record_width r)" by auto
    then show ?thesis
    proof cases
      case 1
      with Cons.IH [OF rec 1(2)] q(2) proper Cons.prems(5) False show ?thesis
        by (simp add: width_run_append)
    next
      case 2
      with read_record_width [OF rec] False have "m < int (length row)" by simp
      with 2 show ?thesis
        using read_record_rest [OF Cons.prems(1,3,4)] by (simp add: width_run_append)
    qed
  qed
qed (simp split: if_splits)

lemma concat_py_lines [simp]: "concat (py_lines s) = s"
  by (induction s rule: py_lines.induct) (auto split: list.splits)

lemma py_lines_Nil_iff [simp]: "py_lines s = [] \<longleftrightarrow> s = []"
  by (induction s rule: py_lines.induct) (auto split: list.splits)

lemma py_lines_not_Nil: "l \<in> set (py_lines s) \<Longrightarrow> l \<noteq> []"
  by (induction s arbitrary: l rule: py_lines.induct) (auto split: list.splits if_splits)

lemma proper_py_lines: "proper_lines (py_lines s)"
proof (induction s rule: py_lines.induct)
  case (2 c s)
  then show ?case
    using py_lines_not_Nil [of _ s]
    by (auto simp: proper_lines_Cons split: list.splits)
qed (simp add: proper_lines_def)

lemma read_record_None:
  assumes "read_record limit p ls = Inr None" "cp_state p = START_RECORD \<or> cp_state p = IN_QUOTED_FIELD"
  shows "ls = []"
proof -
  have quoted: "read_record limit p ls' \<noteq> Inr None" if "cp_state p = IN_QUOTED_FIELD" for p ls'
    using that
    by (induction ls' arbitrary: p) (auto simp: rbind_eq_Inr dest: process_line_state)
  show ?thesis
  proof (cases ls)
    case (Cons l rest)
    then obtain r where "process_line limit l p = Inr r"
      "(if cp_state r = START_RECORD then Inr (Some (cp_fields r, rest)) else read_record limit r rest) = Inr None"
      using assms(1) by (auto simp: rbind_eq_Inr)
    then show ?thesis
      using quoted [of r rest] process_line_state [of limit l p r] by (auto split: if_splits)
  qed simp
qed

lemma in_step_reset: "1 \<le> m \<Longrightarrow> in_step m parser_reset (False, 1)"
  by (simp add: in_step_def parser_reset_def)

lemma read_all_in_step:
  assumes "read_all limit ls = Inr rows" "well_quoted limit ls parser_reset" "proper_lines ls" "1 \<le> m"
  shows "width_run m (concat ls) (False, 1) \<noteq> None \<longleftrightarrow> list_all (\<lambda>row. int (length row) \<le> m) rows"
  using assms
proof (induction limit ls arbitrary: rows rule: read_all.induct)
  case (1 limit ls)
  from 1(2) consider "read_record limit parser_reset ls = Inr None" "rows = []"
    | row rest rows' where "read_record limit parser_reset ls = Inr (Some (row, rest))"
        "read_all limit rest = Inr rows'" "rows = row # rows'"
    by (subst (asm) read_all.simps) (auto simp: rbind_eq_Inr split: sum.splits option.splits)
  then show ?case
  proof cases
    case 1
    with read_record_None [OF 1(1)] show ?thesis by (simp add: parser_reset_def)
  next
    case 2
    from read_record_in_step [OF 2(1) in_step_reset [OF 1(5)] 1(3,4,5)] 1(1) [OF 2(1)] 2 1(5)
    show ?thesis by auto
  qed
qed

text \<open>
  C25. On a text whose quotes all open, close or escape inside quoted fields, the width check, which
  looks at characters before any record is built, accepts exactly the texts of which the reader
  returns no record wider than the limit.
\<close>

theorem width_check_is_exact:
  assumes "read_all limit (py_lines text) = Inr rows" "well_quoted limit (py_lines text) parser_reset" "1 \<le> m"
  shows "validate_logical_record_width m text \<longleftrightarrow> list_all (\<lambda>row. int (length row) \<le> m) rows"
  using read_all_in_step [OF assms(1,2) proper_py_lines assms(3)]
  by (simp add: validate_logical_record_width_def width_scan_run)

text \<open>A quoted field with a comma, an escaped quote and a line end inside.\<close>

theorem width_check_is_exact_witness:
  "read_all 9 (py_lines [116, 44, 97, 10, 49, 44, 34, 44, 34, 34, 10, 34, 13, 10]) =
     Inr [[[116], [97]], [[49], [44, 34, 10]]] \<and>
   validate_logical_record_width 2 [116, 44, 97, 10, 49, 44, 34, 44, 34, 34, 10, 34, 13, 10]"
proof -
  let ?text = "[116, 44, 97, 10, 49, 44, 34, 44, 34, 34, 10, 34, 13, 10] :: nat list"
  have rows: "read_all 9 (py_lines ?text) = Inr [[[116], [97]], [[49], [44, 34, 10]]]"
    by code_simp
  have quoted: "well_quoted 9 (py_lines ?text) parser_reset"
    by code_simp
  show ?thesis
    using width_check_is_exact [OF rows quoted, of 2] rows by simp
qed

end
