(* ===== verification/Case_Ids.thy ===== *)
theory Case_Ids
  imports Persistence
begin

text \<open>
  \<^verbatim>\<open>evaluation/rcaeval/errors.py\<close>, \<^verbatim>\<open>limits.py\<close>, \<^verbatim>\<open>ids.py\<close> and the \<^verbatim>\<open>CaseId\<close> of
  \<^verbatim>\<open>domain/identifiers.py\<close>: the stable codes of the dataset adapter, its limits, which split may be
  loaded under which permit, and the assignment of fresh random case identifiers.
\<close>

section \<open>Errors\<close>

datatype load_error_code =
    INVALID_SPLIT | SPLIT_RESERVED | SEALED_SPLIT_DENIED | INVALID_ROOT | SCAN_LIMIT_EXCEEDED
  | CASE_LIMIT_EXCEEDED | MISSING_INJECTION_TIME | UNSUPPORTED_CASE_LAYOUT | UNSUPPORTED_CSV_SCHEMA
  | METRIC_FILE_TOO_LARGE | INJECTION_FILE_TOO_LARGE | INVALID_ENCODING | FIELD_TOO_LONG
  | ROW_LIMIT_EXCEEDED | COLUMN_LIMIT_EXCEEDED | ROW_WIDTH_MISMATCH | INVALID_TIMESTAMP
  | TIMESTAMPS_NOT_ORDERED | INVALID_NUMBER | NON_FINITE_NUMBER | INVALID_CASE_ID
  | CASE_ID_COLLISION | SIDECAR_WRITE_FAILED

fun load_error_value :: "load_error_code \<Rightarrow> pystr" where
  "load_error_value INVALID_SPLIT = lit ''invalid_split''"
| "load_error_value SPLIT_RESERVED = lit ''split_reserved''"
| "load_error_value SEALED_SPLIT_DENIED = lit ''sealed_split_denied''"
| "load_error_value INVALID_ROOT = lit ''invalid_root''"
| "load_error_value SCAN_LIMIT_EXCEEDED = lit ''scan_limit_exceeded''"
| "load_error_value CASE_LIMIT_EXCEEDED = lit ''case_limit_exceeded''"
| "load_error_value MISSING_INJECTION_TIME = lit ''missing_injection_time''"
| "load_error_value UNSUPPORTED_CASE_LAYOUT = lit ''unsupported_case_layout''"
| "load_error_value UNSUPPORTED_CSV_SCHEMA = lit ''unsupported_csv_schema''"
| "load_error_value METRIC_FILE_TOO_LARGE = lit ''metric_file_too_large''"
| "load_error_value INJECTION_FILE_TOO_LARGE = lit ''injection_file_too_large''"
| "load_error_value INVALID_ENCODING = lit ''invalid_encoding''"
| "load_error_value FIELD_TOO_LONG = lit ''field_too_long''"
| "load_error_value ROW_LIMIT_EXCEEDED = lit ''row_limit_exceeded''"
| "load_error_value COLUMN_LIMIT_EXCEEDED = lit ''column_limit_exceeded''"
| "load_error_value ROW_WIDTH_MISMATCH = lit ''row_width_mismatch''"
| "load_error_value INVALID_TIMESTAMP = lit ''invalid_timestamp''"
| "load_error_value TIMESTAMPS_NOT_ORDERED = lit ''timestamps_not_ordered''"
| "load_error_value INVALID_NUMBER = lit ''invalid_number''"
| "load_error_value NON_FINITE_NUMBER = lit ''non_finite_number''"
| "load_error_value INVALID_CASE_ID = lit ''invalid_case_id''"
| "load_error_value CASE_ID_COLLISION = lit ''case_id_collision''"
| "load_error_value SIDECAR_WRITE_FAILED = lit ''sidecar_write_failed''"

datatype case_id = CaseId (case_uuid: uuid)

definition case_id_str :: "case_id \<Rightarrow> pystr" where
  "case_id_str c = uuid_str (case_uuid c)"

record load_error =
  le_code :: load_error_code
  le_case_id :: "case_id option"

definition load_error_str :: "load_error \<Rightarrow> pystr" where
  "load_error_str e = lit ''rcaeval load failed ['' @ load_error_value (le_code e) @ lit '']'' @
     (case le_case_id e of None \<Rightarrow> [] | Some c \<Rightarrow> lit '' case_id='' @ case_id_str c)"

text \<open>
  The adapter's own error, or an exception of the standard library that no handler of the
  adapter catches.
\<close>

datatype load_failure = LoadError load_error | UncaughtOSError

definition load_failed :: "load_error_code \<Rightarrow> load_failure" where
  "load_failed code = LoadError \<lparr>le_code = code, le_case_id = None\<rparr>"

definition case_failed :: "load_error_code \<Rightarrow> case_id \<Rightarrow> load_failure" where
  "case_failed code c = LoadError \<lparr>le_code = code, le_case_id = Some c\<rparr>"

section \<open>Limits\<close>

record loader_limits =
  max_metric_file_bytes :: int
  max_inject_time_file_bytes :: int
  max_data_rows :: int
  max_columns :: int
  max_field_characters :: int
  max_discovered_cases :: int
  max_scanned_entries :: int

definition default_limits :: loader_limits where
  "default_limits = \<lparr>max_metric_file_bytes = 67108864, max_inject_time_file_bytes = 4096,
     max_data_rows = 250000, max_columns = 2048, max_field_characters = 65536,
     max_discovered_cases = 512, max_scanned_entries = 100000\<rparr>"

text \<open>The check of \<^verbatim>\<open>__post_init__\<close>: \<^verbatim>\<open>None\<close> slips through, \<^term>\<open>False\<close> is \<^verbatim>\<open>ValueError\<close>.\<close>

definition limit_field_ok :: "pyval \<Rightarrow> bool" where
  "limit_field_ok v \<longleftrightarrow> (case v of PyNone \<Rightarrow> True | PyNum (PyInt n) \<Rightarrow> 1 \<le> n | _ \<Rightarrow> False)"

definition valid_limits :: "loader_limits \<Rightarrow> bool" where
  "valid_limits l \<longleftrightarrow> list_all (\<lambda>n. limit_field_ok (PyNum (PyInt n)))
     [max_metric_file_bytes l, max_inject_time_file_bytes l, max_data_rows l, max_columns l,
      max_field_characters l, max_discovered_cases l, max_scanned_entries l]"

section \<open>Splits\<close>

datatype rcaeval_split = OB | SS | TT

fun split_value :: "rcaeval_split \<Rightarrow> pystr" where
  "split_value OB = lit ''OB''"
| "split_value SS = lit ''SS''"
| "split_value TT = lit ''TT''"

definition parse_split :: "pyval \<Rightarrow> load_failure + rcaeval_split" where
  "parse_split v =
     (case v of
        PyStr s \<Rightarrow> (case find (\<lambda>x. split_value x = s) [OB, SS, TT] of
                     None \<Rightarrow> Inl (load_failed INVALID_SPLIT) | Some x \<Rightarrow> Inr x)
      | _ \<Rightarrow> Inl (load_failed INVALID_SPLIT))"

text \<open>
  A permit carries the module's private token, which only \<^verbatim>\<open>authorize_sealed_split\<close> hands out, or
  some other object.
\<close>

record sealed_permit =
  permit_genuine :: bool
  permit_reason :: pystr

definition authorize_sealed_split :: "bool \<Rightarrow> pyval \<Rightarrow> load_failure + sealed_permit" where
  "authorize_sealed_split confirmed reason =
     (case (confirmed, reason) of
        (True, PyStr s) \<Rightarrow> if is_blank s then Inl (load_failed SEALED_SPLIT_DENIED)
                         else Inr \<lparr>permit_genuine = True, permit_reason = s\<rparr>
      | _ \<Rightarrow> Inl (load_failed SEALED_SPLIT_DENIED))"

definition guard_split :: "rcaeval_split \<Rightarrow> sealed_permit option \<Rightarrow> load_failure + unit" where
  "guard_split x permit =
     (if x = SS then Inl (load_failed SPLIT_RESERVED)
      else if x = TT \<and> (case permit of None \<Rightarrow> True | Some p \<Rightarrow> \<not> permit_genuine p)
      then Inl (load_failed SEALED_SPLIT_DENIED)
      else Inr ())"

section \<open>Fresh case identifiers\<close>

text \<open>A call of the factory raises, returns a \<^verbatim>\<open>CaseId\<close>, or returns anything else.\<close>

datatype factory_outcome = FactoryRaised | FactoryReturned case_id | FactoryReturnedOther

definition uuid_version :: "uuid \<Rightarrow> nat option" where
  "uuid_version u = (if bit u 63 \<and> \<not> bit u 62 then Some (unat u div 2 ^ 76 mod 16) else None)"

text \<open>The factory is a function of its own state, which every call advances.\<close>

primrec unique_case_id ::
  "('s \<Rightarrow> factory_outcome \<times> 's) \<Rightarrow> nat \<Rightarrow> case_id set \<Rightarrow> 's \<Rightarrow> (load_failure + case_id) \<times> 's" where
  "unique_case_id factory 0 assigned s = (Inl (load_failed CASE_ID_COLLISION), s)"
| "unique_case_id factory (Suc n) assigned s =
     (case factory s of
        (FactoryReturned c, s) \<Rightarrow>
          if uuid_version (case_uuid c) \<noteq> Some 4 then (Inl (load_failed INVALID_CASE_ID), s)
          else if c \<notin> assigned then (Inr c, s)
          else unique_case_id factory n assigned s
      | (_, s) \<Rightarrow> (Inl (load_failed INVALID_CASE_ID), s))"

definition UNIQUE_CASE_ID_ATTEMPTS :: nat where
  "UNIQUE_CASE_ID_ATTEMPTS = 8"

lemma unique_case_id_fresh:
  "unique_case_id factory n assigned s = (Inr c, s') \<Longrightarrow>
     c \<notin> assigned \<and> uuid_version (case_uuid c) = Some 4"
  by (induction n arbitrary: s) (auto split: prod.splits factory_outcome.splits if_splits)

lemma unique_case_id_first:
  "0 < n \<Longrightarrow> factory s = (FactoryReturned c, s') \<Longrightarrow> uuid_version (case_uuid c) = Some 4 \<Longrightarrow> c \<notin> assigned \<Longrightarrow>
     unique_case_id factory n assigned s = (Inr c, s')"
  by (cases n) auto

lemma parse_split_value [simp]: "parse_split (PyStr (split_value x)) = Inr x"
  by (cases x) (simp_all add: parse_split_def)

lemma parse_split_Inr: "parse_split v = Inr x \<longleftrightarrow> v = PyStr (split_value x)"
  by (cases x) (auto simp: parse_split_def split: pyval.splits if_splits)

lemma guard_split_Inr [res_simps]:
  "guard_split x permit = Inr u \<longleftrightarrow> x \<noteq> SS \<and> (x = TT \<longrightarrow> (\<exists>p. permit = Some p \<and> permit_genuine p))"
  by (auto simp: guard_split_def split: option.splits)

end
