(* ===== verification/Case_Loader.thy ===== *)
theory Case_Loader
  imports Iso_Format Csv_Reader Case_Ids
begin

text \<open>
  \<^verbatim>\<open>evaluation/rcaeval/csv_loader.py\<close>: reading one case of the dataset. A file is what opening it
  shows (whether it is a regular file, the size it reports, its bytes), or nothing when it cannot
  be opened. The rows come from the model of \<^verbatim>\<open>csv.reader\<close>; a row is processed before the next
  one is read, so the errors keep their order.

  A cell that is empty or not finite is a gap: it adds no point and is counted. Timestamps must
  increase from row to row, so every column is a valid signal. A numeric timestamp whose year the
  platform cannot represent raises \<^verbatim>\<open>OSError\<close>, which \<^verbatim>\<open>parse_timestamp\<close> does not catch
  (\<^verbatim>\<open>UncaughtOSError\<close>).

  Limits are unbounded integers here, as \<^verbatim>\<open>LoaderLimits\<close> accepts them. Left out are the limits that the
  platform cannot handle, whose exceptions no handler catches: a file limit for which
  \<^verbatim>\<open>stream.read(maximum + 1)\<close> raises \<^verbatim>\<open>OverflowError\<close> (from \<open>2 ^ 63 - 1\<close> on) or \<^verbatim>\<open>MemoryError\<close>
  (\<^verbatim>\<open>bounded_text\<close>), and a field limit beyond a C \<^verbatim>\<open>long\<close>, which \<^verbatim>\<open>csv.field_size_limit\<close> rejects with
  \<^verbatim>\<open>OverflowError\<close>. The theorems speak of the limits below these.
\<close>

section \<open>Bytes to text\<close>

definition utf8_next :: "nat list \<Rightarrow> (nat \<times> nat list) option" where
  "utf8_next b =
     (let c = fst (utf8_decode1 (b @ [0, 0, 0])) in
      case utf8_char c of
        None \<Rightarrow> None
      | Some bs \<Rightarrow> if take (length bs) b = bs then Some (c, drop (length bs) b) else None)"

lemma utf8_next_shorter: "utf8_next b = Some (c, r) \<Longrightarrow> length r < length b"
  by (auto simp: utf8_next_def Let_def split: option.splits if_splits dest!: utf8_char_not_Nil)
    (metis append_Nil diff_less length_greater_0_conv take_eq_Nil)

text \<open>\<^verbatim>\<open>bytes.decode("utf-8")\<close>; \<^term>\<open>None\<close> is \<^verbatim>\<open>UnicodeDecodeError\<close>.\<close>

function utf8_decode :: "nat list \<Rightarrow> pystr option" where
  "utf8_decode b =
     (if b = [] then Some []
      else case utf8_next b of None \<Rightarrow> None | Some (c, r) \<Rightarrow> map_option (Cons c) (utf8_decode r))"
  by pat_completeness auto
termination
  by (relation "measure length") (auto dest: utf8_next_shorter)

declare utf8_decode.simps [simp del]

definition utf8_sig_decode :: "nat list \<Rightarrow> pystr option" where
  "utf8_sig_decode b = utf8_decode (if take 3 b = [239, 187, 191] then drop 3 b else b)"

record file_data =
  file_regular :: bool
  file_size :: int
  file_bytes :: "nat list"

definition bounded_text ::
  "file_data option \<Rightarrow> int \<Rightarrow> load_error_code \<Rightarrow> case_id \<Rightarrow> load_failure + pystr" where
  "bounded_text f maximum too_large c =
     (case f of
        None \<Rightarrow> Inl (case_failed INVALID_ENCODING c)
      | Some f \<Rightarrow>
          if \<not> file_regular f \<or> maximum < file_size f then Inl (case_failed too_large c)
          else
            let payload = take (nat (maximum + 1)) (file_bytes f) in
            if maximum < int (length payload) then Inl (case_failed too_large c)
            else if 0 \<in> set payload then Inl (case_failed INVALID_ENCODING c)
            else case utf8_sig_decode payload of
                   None \<Rightarrow> Inl (case_failed INVALID_ENCODING c)
                 | Some text \<Rightarrow> Inr text)"

section \<open>Cells\<close>

definition parse_iso_timestamp :: "pystr \<Rightarrow> case_id \<Rightarrow> load_failure + int" where
  "parse_iso_timestamp raw c =
     (let raw = (if raw \<noteq> [] \<and> last raw = 90 then butlast raw @ lit ''+00:00'' else raw) in
      case fromisoformat raw of
        None \<Rightarrow> Inl (case_failed INVALID_TIMESTAMP c)
      | Some parsed \<Rightarrow>
          (case to_utc parsed of
             Inl _ \<Rightarrow> Inl (case_failed INVALID_TIMESTAMP c)
           | Inr t \<Rightarrow> Inr t))"

definition parse_timestamp :: "pystr \<Rightarrow> case_id \<Rightarrow> load_failure + int" where
  "parse_timestamp raw c =
     (if raw = [] \<or> raw \<noteq> py_strip raw then Inl (case_failed INVALID_TIMESTAMP c)
      else case py_float_str raw of
        None \<Rightarrow> parse_iso_timestamp raw c
      | Some x \<Rightarrow>
          if isfinite x then
            (case fromtimestamp x of
               Inr t \<Rightarrow> Inr t
             | Inl TsOSError \<Rightarrow> Inl UncaughtOSError
             | Inl _ \<Rightarrow> parse_iso_timestamp raw c)
          else parse_iso_timestamp raw c)"

definition finite_value_or_gap :: "pystr \<Rightarrow> case_id \<Rightarrow> load_failure + f64 option" where
  "finite_value_or_gap raw c =
     (if raw = [] then Inr None
      else case py_float_str raw of
             None \<Rightarrow> Inl (case_failed INVALID_NUMBER c)
           | Some x \<Rightarrow> Inr (if isfinite x then Some x else None))"

section \<open>The metric file\<close>

record csv_columns =
  cc_timestamps :: "int list"
  cc_columns :: "metric_point list list"
  cc_row_count :: int
  cc_dropped_cell_count :: int

definition add_value :: "int \<Rightarrow> metric_point list \<Rightarrow> f64 option \<Rightarrow> metric_point list" where
  "add_value t points v =
     (case v of None \<Rightarrow> points | Some x \<Rightarrow> points @ [\<lparr>pt_observed_at = t, pt_value = x\<rparr>])"

definition add_row ::
  "loader_limits \<Rightarrow> case_id \<Rightarrow> nat \<Rightarrow> pystr list \<Rightarrow> csv_columns \<Rightarrow> load_failure + csv_columns" where
  "add_row l c width row st =
     (if max_columns l < int (length row) then Inl (case_failed COLUMN_LIMIT_EXCEEDED c)
      else if max_data_rows l < cc_row_count st + 1 then Inl (case_failed ROW_LIMIT_EXCEEDED c)
      else if length row \<noteq> width then Inl (case_failed ROW_WIDTH_MISMATCH c)
      else rbind (parse_timestamp (hd row) c) (\<lambda>t.
        if cc_timestamps st \<noteq> [] \<and> last (cc_timestamps st) \<ge> t then Inl (case_failed TIMESTAMPS_NOT_ORDERED c)
        else rbind (rmap (\<lambda>raw. finite_value_or_gap raw c) (tl row)) (\<lambda>values.
          Inr \<lparr>cc_timestamps = cc_timestamps st @ [t],
               cc_columns = map2 (add_value t) (cc_columns st) values,
               cc_row_count = cc_row_count st + 1,
               cc_dropped_cell_count =
                 cc_dropped_cell_count st + int (length (filter (\<lambda>v. v = None) values))\<rparr>)))"

fun csv_error_code :: "csv_error \<Rightarrow> load_error_code" where
  "csv_error_code FieldTooLarge = FIELD_TOO_LONG"
| "csv_error_code CsvFormatError = UNSUPPORTED_CSV_SCHEMA"

definition next_row ::
  "loader_limits \<Rightarrow> case_id \<Rightarrow> pystr list \<Rightarrow> load_failure + (pystr list \<times> pystr list) option" where
  "next_row l c ls =
     (case read_record (max_field_characters l) parser_reset ls of
        Inl e \<Rightarrow> Inl (case_failed (csv_error_code e) c)
      | Inr r \<Rightarrow> Inr r)"

lemma next_row_shorter: "next_row l c ls = Inr (Some (row, rest)) \<Longrightarrow> length rest < length ls"
  by (auto simp: next_row_def split: sum.splits dest: read_record_shorter)

function data_rows ::
  "loader_limits \<Rightarrow> case_id \<Rightarrow> nat \<Rightarrow> pystr list \<Rightarrow> csv_columns \<Rightarrow> load_failure + csv_columns" where
  "data_rows l c width ls st =
     (case next_row l c ls of
        Inl e \<Rightarrow> Inl e
      | Inr None \<Rightarrow> Inr st
      | Inr (Some (row, rest)) \<Rightarrow> rbind (add_row l c width row st) (data_rows l c width rest))"
  by pat_completeness auto
termination
  by (relation "measure (\<lambda>(_, _, _, ls, _). length ls)") (auto dest: next_row_shorter)

declare data_rows.simps [simp del]

definition header_ok :: "pystr list \<Rightarrow> bool" where
  "header_ok header \<longleftrightarrow> 2 \<le> length header \<and> hd header = lit ''time'' \<and> [] \<notin> set header \<and> distinct header"

definition parse_metric_csv ::
  "pystr \<Rightarrow> loader_limits \<Rightarrow> case_id \<Rightarrow> load_failure + pystr list \<times> csv_columns" where
  "parse_metric_csv text l c =
     (if \<not> validate_logical_record_width (max_columns l) text then Inl (case_failed COLUMN_LIMIT_EXCEEDED c)
      else rbind (next_row l c (py_lines text)) (\<lambda>r.
        case r of
          None \<Rightarrow> Inl (case_failed UNSUPPORTED_CSV_SCHEMA c)
        | Some (header, rest) \<Rightarrow>
            if max_columns l < int (length header) then Inl (case_failed COLUMN_LIMIT_EXCEEDED c)
            else if \<not> header_ok header then Inl (case_failed UNSUPPORTED_CSV_SCHEMA c)
            else
              rbind (data_rows l c (length header) rest
                \<lparr>cc_timestamps = [], cc_columns = replicate (length header - 1) [],
                 cc_row_count = 0, cc_dropped_cell_count = 0\<rparr>) (\<lambda>st.
              if cc_row_count st = 0 then Inl (case_failed UNSUPPORTED_CSV_SCHEMA c)
              else Inr (header, st))))"

section \<open>The case\<close>

record parsed_case =
  pc_window :: incident_window
  pc_signals :: "metric_signal list"
  pc_row_count :: int
  pc_column_count :: int
  pc_dropped_cell_count :: int

text \<open>The construction inside the last \<^verbatim>\<open>try\<close>: \<^verbatim>\<open>OverflowError\<close> and every \<^verbatim>\<open>ValueError\<close> are one error.\<close>

definition build_case ::
  "int list \<Rightarrow> int \<Rightarrow> pystr list \<Rightarrow> metric_point list list \<Rightarrow> domain_error + incident_window \<times> metric_signal list" where
  "build_case timestamps injection names columns =
     rbind (if in_calendar (last timestamps + 1) then Inr (last timestamps + 1) else Inl InvalidTimestampError) (\<lambda>finish.
     rbind (make_incident_window (utc (hd timestamps)) (utc injection) (utc finish)) (\<lambda>window.
     rbind (rmap (\<lambda>(name, points). rbind (make_signal_key (PyStr name)) (\<lambda>key. make_metric_signal key points))
             (zip names columns)) (\<lambda>signals.
     Inr (window, signals))))"

definition parse_case ::
  "file_data option \<Rightarrow> file_data option \<Rightarrow> case_id \<Rightarrow> loader_limits \<Rightarrow> load_failure + parsed_case" where
  "parse_case metric_file injection_file c l =
     rbind (bounded_text metric_file (max_metric_file_bytes l) METRIC_FILE_TOO_LARGE c) (\<lambda>text.
     rbind (parse_metric_csv text l c) (\<lambda>(header, st).
     rbind (bounded_text injection_file (max_inject_time_file_bytes l) INJECTION_FILE_TOO_LARGE c) (\<lambda>injection_text.
     rbind (parse_timestamp (py_strip injection_text) c) (\<lambda>injection.
       case build_case (cc_timestamps st) injection (tl header) (cc_columns st) of
         Inl _ \<Rightarrow> Inl (case_failed INVALID_TIMESTAMP c)
       | Inr (window, signals) \<Rightarrow>
           Inr \<lparr>pc_window = window, pc_signals = signals, pc_row_count = cc_row_count st,
                pc_column_count = int (length header),
                pc_dropped_cell_count = cc_dropped_cell_count st\<rparr>))))"

section \<open>The loop over the rows\<close>

primrec add_rows ::
  "loader_limits \<Rightarrow> case_id \<Rightarrow> nat \<Rightarrow> pystr list list \<Rightarrow> csv_columns \<Rightarrow> load_failure + csv_columns" where
  "add_rows l c width [] st = Inr st"
| "add_rows l c width (row # rows) st = rbind (add_row l c width row st) (add_rows l c width rows)"

lemma data_rows_read_all:
  "data_rows l c width ls st = Inr st' \<Longrightarrow>
     \<exists>rows. read_all (max_field_characters l) ls = Inr rows \<and> add_rows l c width rows st = Inr st'"
proof (induction l c width ls st rule: data_rows.induct)
  case (1 l c width ls st)
  from 1(2) consider "next_row l c ls = Inr None" "st' = st"
    | row rest st1 where "next_row l c ls = Inr (Some (row, rest))"
        "add_row l c width row st = Inr st1" "data_rows l c width rest st1 = Inr st'"
    by (subst (asm) data_rows.simps) (auto simp: rbind_eq_Inr split: sum.splits option.splits)
  then show ?case
  proof cases
    case 1
    then show ?thesis
      by (subst read_all.simps) (auto simp: next_row_def split: sum.splits)
  next
    case 2
    with "1.IH" [OF 2(1) refl refl 2(2,3)] obtain rows where
      "read_all (max_field_characters l) rest = Inr rows" "add_rows l c width rows st1 = Inr st'"
      by auto
    with 2 show ?thesis
      by (subst read_all.simps) (auto simp: next_row_def split: sum.splits)
  qed
qed

text \<open>The points of one column: those rows whose cell is no gap, at the time of the row.\<close>

definition cell_value :: "case_id \<Rightarrow> pystr \<Rightarrow> f64 option" where
  "cell_value c raw = (case finite_value_or_gap raw c of Inr v \<Rightarrow> v | Inl _ \<Rightarrow> None)"

definition column_points :: "case_id \<Rightarrow> nat \<Rightarrow> pystr list list \<Rightarrow> int list \<Rightarrow> metric_point list" where
  "column_points c j rows ts =
     List.map_filter (\<lambda>(row, t). map_option (\<lambda>x. \<lparr>pt_observed_at = t, pt_value = x\<rparr>) (cell_value c (row ! Suc j)))
       (zip rows ts)"

definition gap_count :: "case_id \<Rightarrow> pystr list list \<Rightarrow> nat" where
  "gap_count c rows = sum_list (map (\<lambda>row. length (filter (\<lambda>raw. cell_value c raw = None) (tl row))) rows)"

definition row_ok :: "loader_limits \<Rightarrow> case_id \<Rightarrow> nat \<Rightarrow> pystr list \<Rightarrow> bool" where
  "row_ok l c width row \<longleftrightarrow> length row = width \<and> int width \<le> max_columns l \<and>
     list_all (\<lambda>raw. is_ok (finite_value_or_gap raw c)) (tl row)"

lemma rmap_cells:
  "rmap (\<lambda>raw. finite_value_or_gap raw c) raws = Inr vs \<longleftrightarrow>
     list_all (\<lambda>raw. is_ok (finite_value_or_gap raw c)) raws \<and> vs = map (cell_value c) raws"
  by (induction raws arbitrary: vs) (auto simp: rbind_eq_Inr cell_value_def is_ok_def split: sum.splits)

lemma add_row_Inr:
  "add_row l c width row st = Inr st' \<longleftrightarrow>
     row_ok l c width row \<and> cc_row_count st + 1 \<le> max_data_rows l \<and>
     (\<exists>t. parse_timestamp (hd row) c = Inr t \<and> (cc_timestamps st \<noteq> [] \<longrightarrow> last (cc_timestamps st) < t) \<and>
       st' = \<lparr>cc_timestamps = cc_timestamps st @ [t],
              cc_columns = map2 (add_value t) (cc_columns st) (map (cell_value c) (tl row)),
              cc_row_count = cc_row_count st + 1,
              cc_dropped_cell_count = cc_dropped_cell_count st
                + int (length (filter (\<lambda>raw. cell_value c raw = None) (tl row)))\<rparr>)"
  by (auto simp: add_row_def row_ok_def rbind_eq_Inr rmap_cells filter_map o_def not_le)

lemma column_points_Nil [simp]: "column_points c j [] ts = []"
  by (simp add: column_points_def)

lemma column_points_snoc:
  "length rows = length ts \<Longrightarrow>
     column_points c j (rows @ [row]) (ts @ [t]) = add_value t (column_points c j rows ts) (cell_value c (row ! Suc j))"
  by (simp add: column_points_def add_value_def map_filter_def split: option.splits)

text \<open>What the loop has built after some rows.\<close>

definition columns_of :: "loader_limits \<Rightarrow> case_id \<Rightarrow> nat \<Rightarrow> pystr list list \<Rightarrow> csv_columns \<Rightarrow> bool" where
  "columns_of l c width rows st \<longleftrightarrow> list_all (row_ok l c width) rows \<and>
     rmap (\<lambda>row. parse_timestamp (hd row) c) rows = Inr (cc_timestamps st) \<and>
     sorted_wrt (<) (cc_timestamps st) \<and>
     cc_columns st = map (\<lambda>j. column_points c j rows (cc_timestamps st)) [0..<width - 1] \<and>
     cc_row_count st = int (length rows) \<and> (rows \<noteq> [] \<longrightarrow> cc_row_count st \<le> max_data_rows l) \<and>
     cc_dropped_cell_count st = int (gap_count c rows)"

lemma rmap_snoc: "rmap f (xs @ [x]) = rbind (rmap f xs) (\<lambda>ys. rbind (f x) (\<lambda>y. Inr (ys @ [y])))"
  by (induction xs) (auto simp: rbind_def split: sum.splits)

lemma sorted_wrt_less_snoc:
  "sorted_wrt (<) ts \<Longrightarrow> (ts \<noteq> [] \<longrightarrow> last ts < t) \<Longrightarrow> sorted_wrt (<) (ts @ [t])" for t :: int
  by (cases ts rule: rev_cases) (auto simp: sorted_wrt_append)

lemma add_row_columns:
  assumes "add_row l c width row st = Inr st'" "columns_of l c width rows st"
  shows "columns_of l c width (rows @ [row]) st'"
proof -
  from assms(1) obtain t where row: "row_ok l c width row" "cc_row_count st + 1 \<le> max_data_rows l"
    "parse_timestamp (hd row) c = Inr t" "cc_timestamps st \<noteq> [] \<longrightarrow> last (cc_timestamps st) < t"
    and st': "st' = \<lparr>cc_timestamps = cc_timestamps st @ [t],
              cc_columns = map2 (add_value t) (cc_columns st) (map (cell_value c) (tl row)),
              cc_row_count = cc_row_count st + 1,
              cc_dropped_cell_count = cc_dropped_cell_count st
                + int (length (filter (\<lambda>raw. cell_value c raw = None) (tl row)))\<rparr>"
    by (auto simp: add_row_Inr)
  have len: "length rows = length (cc_timestamps st)"
    using assms(2) rmap_Inr_length by (fastforce simp: columns_of_def)
  have cols: "cc_columns st = map (\<lambda>j. column_points c j rows (cc_timestamps st)) [0..<width - 1]"
    using assms(2) by (simp add: columns_of_def)
  have "map2 (add_value t) (cc_columns st) (map (cell_value c) (tl row))
      = map (\<lambda>j. column_points c j (rows @ [row]) (cc_timestamps st @ [t])) [0..<width - 1]"
    using row(1) len by (intro nth_equalityI) (auto simp: cols row_ok_def column_points_snoc nth_tl)
  moreover have "sorted_wrt (<) (cc_timestamps st @ [t])"
    using assms(2) row(4) by (intro sorted_wrt_less_snoc) (auto simp: columns_of_def)
  moreover have "rmap (\<lambda>row. parse_timestamp (hd row) c) (rows @ [row]) = Inr (cc_timestamps st @ [t])"
    using assms(2) row(3) by (simp add: columns_of_def rmap_snoc)
  moreover have "list_all (row_ok l c width) (rows @ [row])"
    using assms(2) row(1) by (simp add: columns_of_def)
  ultimately show ?thesis
    using assms(2) row(2) by (simp add: columns_of_def st' gap_count_def)
qed

lemma add_rows_columns:
  "add_rows l c width rows st = Inr st' \<Longrightarrow> columns_of l c width before st \<Longrightarrow>
     columns_of l c width (before @ rows) st'"
proof (induction rows arbitrary: before st)
  case (Cons row rows)
  then show ?case
    using add_row_columns Cons.IH [of _ "before @ [row]"] by (auto simp: rbind_eq_Inr)
qed simp

section \<open>What a loaded case holds\<close>

lemma cell_value_finite: "cell_value c raw = Some x \<Longrightarrow> isfinite x"
  by (auto simp: cell_value_def finite_value_or_gap_def split: sum.splits option.splits if_splits)

lemma column_points_Cons:
  "column_points c j (row # rows) (t # ts) =
     (case cell_value c (row ! Suc j) of None \<Rightarrow> [] | Some x \<Rightarrow> [\<lparr>pt_observed_at = t, pt_value = x\<rparr>])
       @ column_points c j rows ts"
  by (simp add: column_points_def map_filter_def split: option.splits)

lemma column_points_in:
  "p \<in> set (column_points c j rows ts) \<Longrightarrow> pt_observed_at p \<in> set ts \<and> valid_point p"
  by (auto simp: column_points_def map_filter_def valid_point_def cell_value_finite
      dest!: set_zip_rightD split: prod.splits option.splits)

lemma column_points_sorted:
  "length rows = length ts \<Longrightarrow> sorted_wrt (<) ts \<Longrightarrow>
     sorted_wrt (<) (map pt_observed_at (column_points c j rows ts))"
proof (induction rows ts rule: list_induct2)
  case (Cons row rows t ts)
  then show ?case
    using column_points_in [of _ c j rows ts] by (auto simp: column_points_Cons split: option.splits)
qed simp

lemma length_filter_nth: "length (filter P xs) = (\<Sum>j \<leftarrow> [0..<length xs]. if P (xs ! j) then 1 else 0)"
proof (induction xs rule: rev_induct)
  case (snoc x xs)
  have "(\<Sum>j \<leftarrow> [0..<length xs]. if P ((xs @ [x]) ! j) then 1 else 0)
      = (\<Sum>j \<leftarrow> [0..<length xs]. if P (xs ! j) then 1 else (0 :: nat))"
    by (intro arg_cong [where f = sum_list] map_cong) (auto simp: nth_append)
  with snoc show ?case by simp
qed simp

text \<open>Every cell below the header is a point of its column or counted as a gap.\<close>

lemma points_and_gaps:
  assumes "length rows = length ts" "\<forall>row \<in> set rows. length row = Suc n"
  shows "(\<Sum>j \<leftarrow> [0..<n]. length (column_points c j rows ts)) + gap_count c rows = length rows * n"
  using assms
proof (induction rows ts rule: list_induct2)
  case (Cons row rows t ts)
  have "length (filter (\<lambda>raw. cell_value c raw = None) (tl row))
      = (\<Sum>j \<leftarrow> [0..<n]. if cell_value c (row ! Suc j) = None then 1 else 0)"
  proof -
    have "(\<Sum>j \<leftarrow> [0..<n]. if cell_value c (tl row ! j) = None then 1 else 0)
        = (\<Sum>j \<leftarrow> [0..<n]. if cell_value c (row ! Suc j) = None then 1 else (0 :: nat))"
      using Cons.prems by (intro arg_cong [where f = sum_list] map_cong) (auto simp: nth_tl)
    with Cons.prems show ?thesis
      using length_filter_nth [of "\<lambda>raw. cell_value c raw = None" "tl row"] by simp
  qed
  moreover have "(\<Sum>j \<leftarrow> [0..<n]. length (column_points c j (row # rows) (t # ts)))
      + (\<Sum>j \<leftarrow> [0..<n]. if cell_value c (row ! Suc j) = None then 1 else 0)
      = n + (\<Sum>j \<leftarrow> [0..<n]. length (column_points c j rows ts))"
    by (induction n) (auto simp: column_points_Cons split: option.splits)
  ultimately show ?case
    using Cons by (simp add: gap_count_def)
qed (simp add: gap_count_def sum_list_0)

lemma parse_metric_csv_columns:
  assumes "parse_metric_csv text l c = Inr (header, st)"
  obtains rows where "read_all (max_field_characters l) (py_lines text) = Inr (header # rows)"
    "header_ok header" "rows \<noteq> []" "columns_of l c (length header) rows st"
proof -
  from assms obtain rest where rest: "next_row l c (py_lines text) = Inr (Some (header, rest))"
    "header_ok header" "cc_row_count st \<noteq> 0"
    "data_rows l c (length header) rest \<lparr>cc_timestamps = [], cc_columns = replicate (length header - 1) [],
       cc_row_count = 0, cc_dropped_cell_count = 0\<rparr> = Inr st"
    by (auto simp: parse_metric_csv_def res_simps split: option.splits if_splits)
  from data_rows_read_all [OF rest(4)] obtain rows where rows:
    "read_all (max_field_characters l) rest = Inr rows"
    "add_rows l c (length header) rows \<lparr>cc_timestamps = [], cc_columns = replicate (length header - 1) [],
       cc_row_count = 0, cc_dropped_cell_count = 0\<rparr> = Inr st" by blast
  have "columns_of l c (length header) [] \<lparr>cc_timestamps = [],
      cc_columns = replicate (length header - 1) [], cc_row_count = 0, cc_dropped_cell_count = 0\<rparr>"
    by (simp add: columns_of_def gap_count_def map_replicate_const)
  from add_rows_columns [OF rows(2) this] have cols: "columns_of l c (length header) rows st" by simp
  moreover have "rows \<noteq> []"
    using rest(3) cols by (auto simp: columns_of_def)
  moreover have "read_all (max_field_characters l) (py_lines text) = Inr (header # rows)"
    using rest(1) rows(1) by (subst read_all.simps) (auto simp: next_row_def split: sum.splits)
  ultimately show ?thesis using that rest(2) by blast
qed

text \<open>
  C23. A metric file that is accepted is read exactly: the header and the rows are the records of
  the CSV reader, the timestamps are those of the rows and increase, each column holds the finite
  values of its cells at the time of their row, and every cell is a point or is counted as a gap.
\<close>

theorem metric_file_is_read_exactly:
  assumes "parse_metric_csv text l c = Inr (header, st)"
  shows "\<exists>rows. read_all (max_field_characters l) (py_lines text) = Inr (header # rows) \<and>
    header_ok header \<and> rows \<noteq> [] \<and> columns_of l c (length header) rows st \<and>
    int (sum_list (map length (cc_columns st))) + cc_dropped_cell_count st
      = int (length rows) * int (length header - 1)"
proof -
  obtain rows where rows: "read_all (max_field_characters l) (py_lines text) = Inr (header # rows)"
    "header_ok header" "rows \<noteq> []" "columns_of l c (length header) rows st"
    using parse_metric_csv_columns [OF assms] by blast
  have len: "length rows = length (cc_timestamps st)"
    using rows(4) rmap_Inr_length by (fastforce simp: columns_of_def)
  have "\<forall>row \<in> set rows. length row = Suc (length header - 1)"
    using rows(2,4) by (auto simp: columns_of_def row_ok_def header_ok_def list_all_iff)
  from points_and_gaps [OF len this, of c] rows show ?thesis
    by (auto simp: columns_of_def o_def simp flip: of_nat_add of_nat_mult)
qed

lemma build_case_Inr:
  assumes "build_case ts injection names columns = Inr (window, signals)" "length names = length columns"
  shows "valid_window window \<and> win_start window = hd ts \<and> win_injection window = injection \<and>
    win_end window = last ts + 1 \<and> map (signal_value \<circ> sig_key) signals = names \<and>
    map sig_points signals = columns \<and>
    (list_all (list_all valid_point) columns \<longrightarrow> list_all valid_signal signals)"
proof -
  from assms(1) have window: "make_incident_window (utc (hd ts)) (utc injection) (utc (last ts + 1)) = Inr window"
    and sigs: "rmap (\<lambda>(name, points). rbind (make_signal_key (PyStr name)) (\<lambda>key. make_metric_signal key points))
      (zip names columns) = Inr signals"
    by (auto simp: build_case_def res_simps)
  have "win_start window = hd ts \<and> win_injection window = injection \<and> win_end window = last ts + 1"
    using window by (auto simp: make_incident_window_def utc_def res_simps split: if_splits)
  moreover have "map (signal_value \<circ> sig_key) signals = names \<and> map sig_points signals = columns \<and>
      (list_all (list_all valid_point) columns \<longrightarrow> list_all valid_signal signals)"
    using assms(2) sigs
  proof (induction names columns arbitrary: signals rule: list_induct2)
    case (Cons name names points columns)
    then obtain s rest where s: "rbind (make_signal_key (PyStr name)) (\<lambda>key. make_metric_signal key points) = Inr s"
      "signals = s # rest"
      and rest: "rmap (\<lambda>(name, points). rbind (make_signal_key (PyStr name)) (\<lambda>key. make_metric_signal key points))
        (zip names columns) = Inr rest"
      by (auto simp: rbind_eq_Inr)
    from s(1) have "signal_value (sig_key s) = name" "sig_points s = points"
      by (auto simp: make_signal_key_def make_metric_signal_def res_simps split: if_splits)
    moreover from s(1) have "list_all valid_point points \<longrightarrow> valid_signal s"
      using make_metric_signal_valid by (auto simp: res_simps)
    ultimately show ?case
      using Cons.IH [OF rest] s(2) by auto
  qed simp
  ultimately show ?thesis using make_incident_window_valid [OF window] by blast
qed

lemma sorted_bounds:
  "sorted_wrt (<) ts \<Longrightarrow> t \<in> set ts \<Longrightarrow> hd ts \<le> t \<and> t \<le> last ts" for t :: int
  by (induction ts) (auto simp: last_in_set less_imp_le)

text \<open>
  A case that loads is ready for the baseline: its window is valid and covers every point of
  every signal, each signal is strictly increasing in time with finite values, and no two signals
  share a key.
\<close>

theorem loaded_case_is_valid:
  assumes "parse_case metric_file injection_file c l = Inr pc"
  shows "valid_window (pc_window pc) \<and> list_all valid_signal (pc_signals pc) \<and>
    distinct (map (signal_value \<circ> sig_key) (pc_signals pc)) \<and>
    (\<forall>s \<in> set (pc_signals pc). \<forall>p \<in> set (sig_points s).
       win_start (pc_window pc) \<le> pt_observed_at p \<and> pt_observed_at p < win_end (pc_window pc))"
proof -
  from assms obtain content header st injection where
    csv: "parse_metric_csv content l c = Inr (header, st)"
    and built_case: "(case build_case (cc_timestamps st) injection (tl header) (cc_columns st) of
        Inl _ \<Rightarrow> Inl (case_failed INVALID_TIMESTAMP c)
      | Inr (window, signals) \<Rightarrow>
          Inr \<lparr>pc_window = window, pc_signals = signals, pc_row_count = cc_row_count st,
               pc_column_count = int (length header), pc_dropped_cell_count = cc_dropped_cell_count st\<rparr>) = Inr pc"
    unfolding parse_case_def rbind_eq_Inr by (auto simp: rbind_eq_Inr)
  then have built: "build_case (cc_timestamps st) injection (tl header) (cc_columns st) = Inr (pc_window pc, pc_signals pc)"
    by (cases "build_case (cc_timestamps st) injection (tl header) (cc_columns st)") auto
  obtain rows where rows: "header_ok header" "rows \<noteq> []" "columns_of l c (length header) rows st"
    using parse_metric_csv_columns [OF csv] by blast
  have cols: "cc_columns st = map (\<lambda>j. column_points c j rows (cc_timestamps st)) [0..<length header - 1]"
    and sorted: "sorted_wrt (<) (cc_timestamps st)"
    using rows(3) by (auto simp: columns_of_def)
  have "list_all (list_all valid_point) (cc_columns st)"
    using column_points_in by (auto simp: cols list_all_iff)
  with build_case_Inr [OF built] have case_facts: "valid_window (pc_window pc)"
    "win_start (pc_window pc) = hd (cc_timestamps st)" "win_end (pc_window pc) = last (cc_timestamps st) + 1"
    "map (signal_value \<circ> sig_key) (pc_signals pc) = tl header" "map sig_points (pc_signals pc) = cc_columns st"
    "list_all valid_signal (pc_signals pc)"
    by (auto simp: cols)
  have "win_start (pc_window pc) \<le> pt_observed_at p \<and> pt_observed_at p < win_end (pc_window pc)"
    if "s \<in> set (pc_signals pc)" "p \<in> set (sig_points s)" for s p
  proof -
    have "sig_points s \<in> set (cc_columns st)"
      using that(1) case_facts(5) by (metis image_eqI set_map)
    then have "pt_observed_at p \<in> set (cc_timestamps st)"
      using that(2) column_points_in by (auto simp: cols)
    then show ?thesis using sorted_bounds [OF sorted] case_facts(2,3) by fastforce
  qed
  moreover have "distinct (tl header)"
    using rows(1) by (simp add: header_ok_def distinct_tl)
  ultimately show ?thesis using case_facts by auto
qed

section \<open>Errors\<close>

lemma parse_timestamp_Inl:
  "parse_timestamp raw c = Inl e \<Longrightarrow> e = case_failed INVALID_TIMESTAMP c \<or>
     e = UncaughtOSError \<and> (\<exists>x. py_float_str raw = Some x \<and> isfinite x \<and> fromtimestamp x = Inl TsOSError)"
  by (auto simp: parse_timestamp_def parse_iso_timestamp_def Let_def
      split: if_splits option.splits sum.splits timestamp_error.splits)

text \<open>An error of the case, or the exception that escapes from a timestamp of the given text.\<close>

definition case_error :: "case_id \<Rightarrow> load_failure \<Rightarrow> bool" where
  "case_error c e \<longleftrightarrow> (\<exists>code. e = case_failed code c) \<or>
     e = UncaughtOSError \<and> (\<exists>raw x. py_float_str raw = Some x \<and> isfinite x \<and> fromtimestamp x = Inl TsOSError)"

lemma case_error_failed [simp]: "case_error c (case_failed code c)"
  by (auto simp: case_error_def)

lemma case_error_rbind:
  assumes "rbind m f = Inl e" "\<And>e. m = Inl e \<Longrightarrow> case_error c e"
    "\<And>a e. m = Inr a \<Longrightarrow> f a = Inl e \<Longrightarrow> case_error c e"
  shows "case_error c e"
  using assms by (cases m) auto

lemma parse_timestamp_error: "parse_timestamp raw c = Inl e \<Longrightarrow> case_error c e"
  unfolding case_error_def using parse_timestamp_Inl by blast

lemma cell_error: "finite_value_or_gap raw c = Inl e \<Longrightarrow> case_error c e"
  by (auto simp: finite_value_or_gap_def split: if_splits option.splits)

lemma cells_error: "rmap (\<lambda>raw. finite_value_or_gap raw c) raws = Inl e \<Longrightarrow> case_error c e"
  using rmap_eq_Inl cell_error by metis

lemma bounded_text_error: "bounded_text f m code c = Inl e \<Longrightarrow> case_error c e"
  by (auto simp: bounded_text_def Let_def split: option.splits if_splits)

lemma add_row_error: "add_row l c w row st = Inl e \<Longrightarrow> case_error c e"
  unfolding add_row_def
  by (auto split: if_splits elim!: case_error_rbind dest: parse_timestamp_error cells_error)

lemma next_row_error: "next_row l c ls = Inl e \<Longrightarrow> case_error c e"
  by (auto simp: next_row_def split: sum.splits)

lemma data_rows_error: "data_rows l c w ls st = Inl e \<Longrightarrow> case_error c e"
proof (induction l c w ls st arbitrary: e rule: data_rows.induct)
  case (1 l c w ls st)
  show ?case
  proof (cases "next_row l c ls")
    case (Inr r)
    show ?thesis
    proof (cases r)
      case None
      with Inr 1(2) show ?thesis by (simp add: data_rows.simps [of l c w ls])
    next
      case (Some q)
      then obtain row rest where r: "r = Some (row, rest)" by (cases q) auto
      with Inr 1(2) have "rbind (add_row l c w row st) (data_rows l c w rest) = Inl e"
        by (simp add: data_rows.simps [of l c w ls])
      then show ?thesis
        using "1.IH" [OF Inr r refl] by (auto elim!: case_error_rbind dest: add_row_error)
    qed
  qed (use 1(2) next_row_error in \<open>simp add: data_rows.simps [of l c w ls]\<close>)
qed

lemma parse_metric_csv_error: "parse_metric_csv s l c = Inl e \<Longrightarrow> case_error c e"
  unfolding parse_metric_csv_def
  by (auto split: if_splits option.splits prod.splits elim!: case_error_rbind
      intro: next_row_error data_rows_error dest!: data_rows_error)

text \<open>
  C24. A case that does not load fails with a stable code and its own opaque identifier, nothing
  else; the one exception is the OSError of a numeric timestamp beyond the years the platform
  represents, which escapes untyped.
\<close>

theorem case_errors_are_typed:
  assumes "parse_case metric_file injection_file c l = Inl e"
  shows "(\<exists>code. e = case_failed code c) \<or>
    e = UncaughtOSError \<and> (\<exists>raw x. py_float_str raw = Some x \<and> isfinite x \<and> fromtimestamp x = Inl TsOSError)"
proof -
  have "case_error c e"
    using assms
    unfolding parse_case_def
    by (auto split: sum.splits prod.splits elim!: case_error_rbind
        dest: bounded_text_error parse_metric_csv_error parse_timestamp_error)
  then show ?thesis by (simp add: case_error_def)
qed

section \<open>The identifier of a case is used in its errors only\<close>

text \<open>The code of a failure, without the identifier; \<^term>\<open>None\<close> is the \<^verbatim>\<open>OSError\<close>.\<close>

definition failure_code :: "load_failure \<Rightarrow> load_error_code option" where
  "failure_code e = (case e of LoadError e \<Rightarrow> Some (le_code e) | UncaughtOSError \<Rightarrow> None)"

definition anonymous :: "load_failure + 'a \<Rightarrow> load_error_code option + 'a" where
  "anonymous m = map_sum failure_code (\<lambda>a. a) m"

lemma anonymous_simps [simp]:
  "anonymous (Inr a) = Inr a"
  "anonymous (Inl (case_failed code c)) = Inl (Some code)"
  "anonymous (Inl UncaughtOSError) = Inl None"
  by (simp_all add: anonymous_def failure_code_def case_failed_def)

lemma anonymous_rbind:
  assumes "anonymous m = anonymous m'" "\<And>a. m = Inr a \<Longrightarrow> anonymous (f a) = anonymous (g a)"
  shows "anonymous (rbind m f) = anonymous (rbind m' g)"
  using assms by (cases m; cases m') (auto simp: anonymous_def)

lemma anonymous_rmap:
  "(\<And>a. anonymous (f a) = anonymous (g a)) \<Longrightarrow> anonymous (rmap f xs) = anonymous (rmap g xs)"
  by (induction xs) (auto intro!: anonymous_rbind)

lemma bounded_text_anonymous: "anonymous (bounded_text f m code c) = anonymous (bounded_text f m code c')"
  by (simp add: bounded_text_def Let_def split: option.split)

lemma parse_timestamp_anonymous: "anonymous (parse_timestamp raw c) = anonymous (parse_timestamp raw c')"
proof -
  have "anonymous (parse_iso_timestamp s c) = anonymous (parse_iso_timestamp s c')" for s
    by (simp add: parse_iso_timestamp_def Let_def split: option.split sum.split)
  then show ?thesis
    by (auto simp: parse_timestamp_def split: option.split sum.split timestamp_error.split)
qed

lemma cell_anonymous: "anonymous (finite_value_or_gap raw c) = anonymous (finite_value_or_gap raw c')"
  by (simp add: finite_value_or_gap_def split: option.split)

lemma add_row_anonymous: "anonymous (add_row l c w row st) = anonymous (add_row l c' w row st)"
  unfolding add_row_def
  by (auto intro!: anonymous_rbind parse_timestamp_anonymous anonymous_rmap cell_anonymous)

lemma next_row_anonymous: "anonymous (next_row l c ls) = anonymous (next_row l c' ls)"
  by (simp add: next_row_def split: sum.split)

lemma data_rows_anonymous: "anonymous (data_rows l c w ls st) = anonymous (data_rows l c' w ls st)"
proof (induction l c w ls st rule: data_rows.induct)
  case (1 l c w ls st)
  show ?case
  proof (cases "next_row l c ls")
    case (Inl e)
    with next_row_anonymous [of l c ls c'] obtain e' where "next_row l c' ls = Inl e'" "failure_code e = failure_code e'"
      by (cases "next_row l c' ls") (auto simp: anonymous_def)
    with Inl show ?thesis by (simp add: data_rows.simps [of l _ w ls] anonymous_def)
  next
    case (Inr r)
    then have "next_row l c' ls = Inr r"
      using next_row_anonymous [of l c ls c'] by (cases "next_row l c' ls") (auto simp: anonymous_def)
    with Inr "1.IH" show ?thesis
      by (auto simp: data_rows.simps [of l _ w ls] intro!: anonymous_rbind add_row_anonymous split: option.split)
  qed
qed

lemma parse_metric_csv_anonymous: "anonymous (parse_metric_csv s l c) = anonymous (parse_metric_csv s l c')"
  unfolding parse_metric_csv_def
  by (auto intro!: anonymous_rbind next_row_anonymous data_rows_anonymous split: option.split)

lemma parse_case_anonymous: "anonymous (parse_case m i c l) = anonymous (parse_case m i c' l)"
  unfolding parse_case_def
  by (intro anonymous_rbind bounded_text_anonymous parse_metric_csv_anonymous parse_timestamp_anonymous)
    (auto intro!: anonymous_rbind bounded_text_anonymous parse_timestamp_anonymous split: sum.split prod.split)

section \<open>Witnesses\<close>

definition sample_file :: "nat list \<Rightarrow> file_data option" where
  "sample_file b = Some \<lparr>file_regular = True, file_size = int (length b), file_bytes = b\<rparr>"

definition sample_limits :: loader_limits where
  "sample_limits = \<lparr>max_metric_file_bytes = 30, max_inject_time_file_bytes = 30, max_data_rows = 5,
     max_columns = 3, max_field_characters = 9, max_discovered_cases = 2, max_scanned_entries = 9\<rparr>"

text \<open>A header \<open>time,a,b\<close> and the rows \<open>10,1,\<close> and \<open>20,2.5,3\<close>.\<close>

definition sample_metrics :: "nat list" where
  "sample_metrics = [116, 105, 109, 101, 44, 97, 44, 98, 10, 49, 48, 44, 49, 44, 10,
     50, 48, 44, 50, 46, 53, 44, 51, 10]"

definition sample_table :: csv_columns where
  "sample_table = \<lparr>cc_timestamps = [10000000, 20000000],
     cc_columns = [[\<lparr>pt_observed_at = 10000000, pt_value = float_one\<rparr>,
                    \<lparr>pt_observed_at = 20000000, pt_value = F64 False 1024 1125899906842624\<rparr>],
                   [\<lparr>pt_observed_at = 20000000, pt_value = F64 False 1024 2251799813685248\<rparr>]],
     cc_row_count = 2, cc_dropped_cell_count = 1\<rparr>"

lemma timestamp_us_whole:
  assumes "fval x = of_int k"
  shows "timestamp_us x = k * 1000000"
proof -
  have "(if fval x < 0 then - \<lfloor>- fval x\<rfloor> else \<lfloor>fval x\<rfloor>) = k"
    unfolding assms by (simp flip: of_int_minus)
  moreover have "rnd_even (fval (fround (0 < (0 :: rat)) (\<bar>0\<bar> * 1000000))) = 0"
    by (simp add: fround_def rnd_even_def)
  ultimately show ?thesis
    by (simp add: timestamp_us_def Let_def assms)
qed

lemma sample_cells:
  "py_float_str [49, 48] = Some (F64 False 1026 1125899906842624)"
  "py_float_str [50, 48] = Some (F64 False 1027 1125899906842624)"
  "py_float_str [49, 53] = Some (F64 False 1026 3940649673949184)"
  "py_float_str [49] = Some float_one"
  "py_float_str [50, 46, 53] = Some (F64 False 1024 1125899906842624)"
  "py_float_str [51] = Some (F64 False 1024 2251799813685248)"
  "py_float_str [49, 101, 49, 56] = Some (F64 False 1082 3308900372629504)"
proof -
  have all: "(py_float_str [49, 48] = Some (F64 False 1026 1125899906842624)) \<and>
    (py_float_str [50, 48] = Some (F64 False 1027 1125899906842624)) \<and>
    (py_float_str [49, 53] = Some (F64 False 1026 3940649673949184)) \<and>
    (py_float_str [49] = Some float_one) \<and>
    (py_float_str [50, 46, 53] = Some (F64 False 1024 1125899906842624)) \<and>
    (py_float_str [51] = Some (F64 False 1024 2251799813685248)) \<and>
    (py_float_str [49, 101, 49, 56] = Some (F64 False 1082 3308900372629504))"
    by code_simp
  show "py_float_str [49, 48] = Some (F64 False 1026 1125899906842624)"
    "py_float_str [50, 48] = Some (F64 False 1027 1125899906842624)"
    "py_float_str [49, 53] = Some (F64 False 1026 3940649673949184)"
    "py_float_str [49] = Some float_one"
    "py_float_str [50, 46, 53] = Some (F64 False 1024 1125899906842624)"
    "py_float_str [51] = Some (F64 False 1024 2251799813685248)"
    "py_float_str [49, 101, 49, 56] = Some (F64 False 1082 3308900372629504)"
    by (simp_all only: all)
qed

lemma sample_seconds:
  "fval (F64 False 1026 1125899906842624) = of_int 10"
  "fval (F64 False 1027 1125899906842624) = of_int 20"
  "fval (F64 False 1026 3940649673949184) = of_int 15"
  "fval (F64 False 1082 3308900372629504) = of_int 1000000000000000000"
  by (simp_all add: fval_def fmag_def fsig_def fexpo_def power_int_def power_one_over)

lemma sample_timestamps:
  "parse_timestamp [49, 48] c = Inr 10000000"
  "parse_timestamp [50, 48] c = Inr 20000000"
  "parse_timestamp [49, 53] c = Inr 15000000"
  "parse_timestamp [49, 101, 49, 56] c = Inl UncaughtOSError"
  using sample_seconds [THEN timestamp_us_whole]
  by (simp_all add: parse_timestamp_def sample_cells fromtimestamp_def py_strip_def py_isspace_def
      isfinite_def isnan_def in_calendar_def min_instant_def max_instant_def)

lemma sample_rows:
  "next_row sample_limits c (py_lines sample_metrics) =
     Inr (Some ([lit ''time'', lit ''a'', lit ''b''], [[49, 48, 44, 49, 44, 10], [50, 48, 44, 50, 46, 53, 44, 51, 10]]))"
  "next_row sample_limits c [[49, 48, 44, 49, 44, 10], [50, 48, 44, 50, 46, 53, 44, 51, 10]] =
     Inr (Some ([[49, 48], [49], []], [[50, 48, 44, 50, 46, 53, 44, 51, 10]]))"
  "next_row sample_limits c [[50, 48, 44, 50, 46, 53, 44, 51, 10]] = Inr (Some ([[50, 48], [50, 46, 53], [51]], []))"
  "next_row sample_limits c [] = Inr None"
  by code_simp+

lemma sample_csv:
  "parse_metric_csv sample_metrics sample_limits c = Inr ([lit ''time'', lit ''a'', lit ''b''], sample_table)"
proof -
  have width: "validate_logical_record_width (max_columns sample_limits) sample_metrics" by code_simp
  have header: "header_ok [lit ''time'', lit ''a'', lit ''b'']" by code_simp
  have cells: "finite_value_or_gap [49] c = Inr (Some float_one)" "finite_value_or_gap [] c = Inr None"
    "finite_value_or_gap [50, 46, 53] c = Inr (Some (F64 False 1024 1125899906842624))"
    "finite_value_or_gap [51] c = Inr (Some (F64 False 1024 2251799813685248))"
    by (simp_all add: finite_value_or_gap_def sample_cells isfinite_def float_one_def)
  show ?thesis
    by (simp add: parse_metric_csv_def width header sample_rows data_rows.simps add_row_def cells
        sample_timestamps add_value_def sample_table_def) (simp add: sample_limits_def)
qed

lemma sample_text:
  "bounded_text (sample_file sample_metrics) 30 METRIC_FILE_TOO_LARGE c = Inr sample_metrics"
  "bounded_text (sample_file [49, 53, 10]) 30 INJECTION_FILE_TOO_LARGE c = Inr [49, 53, 10]"
  "bounded_text (sample_file [50, 48, 10]) 30 INJECTION_FILE_TOO_LARGE c = Inr [50, 48, 10]"
  "bounded_text (sample_file [49, 101, 49, 56]) 30 INJECTION_FILE_TOO_LARGE c = Inr [49, 101, 49, 56]"
  by code_simp+

theorem metric_file_is_read_exactly_witness:
  "\<exists>rows. parse_metric_csv sample_metrics sample_limits (CaseId 0)
       = Inr ([lit ''time'', lit ''a'', lit ''b''], sample_table) \<and>
     read_all 9 (py_lines sample_metrics) = Inr ([lit ''time'', lit ''a'', lit ''b''] # rows) \<and>
     columns_of sample_limits (CaseId 0) 3 rows sample_table"
proof -
  have "max_field_characters sample_limits = 9" by (simp add: sample_limits_def)
  with metric_file_is_read_exactly [OF sample_csv, of "CaseId 0"] show ?thesis
    by (auto simp: sample_csv numeral_3_eq_3)
qed

lemma sample_case:
  "\<exists>pc. (\<forall>c. parse_case (sample_file sample_metrics) (sample_file [49, 53, 10]) c sample_limits = Inr pc) \<and>
     win_injection (pc_window pc) = 15000000 \<and> length (pc_signals pc) = 2"
proof -
  have "max_metric_file_bytes sample_limits = 30" "max_inject_time_file_bytes sample_limits = 30"
    by (simp_all add: sample_limits_def)
  moreover have "py_strip [49, 53, 10] = [49, 53]" by (simp add: py_strip_def py_isspace_def)
  moreover have "\<not> is_blank (lit ''a'')" "\<not> is_blank (lit ''b'')"
    by (simp_all add: is_blank_iff lit_def py_isspace_def)
  ultimately show ?thesis
    by (simp add: parse_case_def sample_text sample_csv sample_timestamps sample_table_def build_case_def
        in_calendar_def min_instant_def max_instant_def make_incident_window_def utc_def
        make_signal_key_def make_metric_signal_def pairwise_any_def)
qed

text \<open>The same metrics with a later injection.\<close>

lemma later_case:
  "\<exists>pc. (\<forall>c. parse_case (sample_file sample_metrics) (sample_file [50, 48, 10]) c sample_limits = Inr pc) \<and>
     win_injection (pc_window pc) = 20000000 \<and> length (pc_signals pc) = 2"
proof -
  have "max_metric_file_bytes sample_limits = 30" "max_inject_time_file_bytes sample_limits = 30"
    by (simp_all add: sample_limits_def)
  moreover have "py_strip [50, 48, 10] = [50, 48]" by (simp add: py_strip_def py_isspace_def)
  moreover have "\<not> is_blank (lit ''a'')" "\<not> is_blank (lit ''b'')"
    by (simp_all add: is_blank_iff lit_def py_isspace_def)
  ultimately show ?thesis
    by (simp add: parse_case_def sample_text sample_csv sample_timestamps sample_table_def build_case_def
        in_calendar_def min_instant_def max_instant_def make_incident_window_def utc_def
        make_signal_key_def make_metric_signal_def pairwise_any_def)
qed

theorem loaded_case_is_valid_witness:
  "\<exists>pc. parse_case (sample_file sample_metrics) (sample_file [49, 53, 10]) (CaseId 0) sample_limits = Inr pc \<and>
     valid_window (pc_window pc) \<and> list_all valid_signal (pc_signals pc) \<and> length (pc_signals pc) = 2 \<and>
     win_injection (pc_window pc) = 15000000"
  using sample_case loaded_case_is_valid by blast

theorem case_errors_are_typed_witness:
  "parse_case (sample_file sample_metrics) (sample_file [49, 101, 49, 56]) (CaseId 0) sample_limits
     = Inl UncaughtOSError \<and>
   (\<exists>raw x. py_float_str raw = Some x \<and> isfinite x \<and> fromtimestamp x = Inl TsOSError)"
proof -
  have "max_metric_file_bytes sample_limits = 30" "max_inject_time_file_bytes sample_limits = 30"
    by (simp_all add: sample_limits_def)
  moreover have "py_strip [49, 101, 49, 56] = [49, 101, 49, 56]" by (simp add: py_strip_def py_isspace_def)
  ultimately have e: "parse_case (sample_file sample_metrics) (sample_file [49, 101, 49, 56]) (CaseId 0) sample_limits
      = Inl UncaughtOSError"
    by (simp add: parse_case_def sample_text sample_csv sample_timestamps)
  with case_errors_are_typed [OF e] show ?thesis
    by (auto simp: case_failed_def)
qed

end
