(* ===== verification/Case_Discovery.thy ===== *)
theory Case_Discovery
  imports Case_Loader "HOL-Library.List_Lexorder"
begin

text \<open>
  \<^verbatim>\<open>evaluation/rcaeval/discovery.py\<close>: the walk over an extracted split. The directory tree is a
  datatype, fixed while it is walked; a directory lists its entries in any order and sorts them by
  name, and a path is the list of names below the root. The walk is the loop of the source over an
  explicit stack. It is compared with the recursion \<open>cases_of\<close>, and that with the declarative
  \<open>case_at\<close>: the cases found are exactly the directories with a metric file that lie below no
  other such directory, in lexicographic order.
\<close>

section \<open>The tree\<close>

text \<open>\<^verbatim>\<open>FsOther\<close> is neither a regular file nor a directory without following links.\<close>

datatype fs_node =
    FsFile file_data
  | FsDirectory "(pystr \<times> fs_node) list"
  | FsUnreadable
  | FsOther

record split_root =
  rt_parent_name :: pystr
  rt_name :: pystr
  rt_symlink :: bool
  rt_node :: fs_node

fun is_dir :: "fs_node \<Rightarrow> bool" where
  "is_dir (FsDirectory _) = True"
| "is_dir FsUnreadable = True"
| "is_dir _ = False"

definition validate_root :: "split_root \<Rightarrow> rcaeval_split \<Rightarrow> load_failure + unit" where
  "validate_root r x =
     (if rt_name r \<noteq> lit ''RE2-'' @ split_value x \<or> rt_symlink r \<or> \<not> is_dir (rt_node r)
      then Inl (load_failed INVALID_ROOT) else Inr ())"

record discovered_case =
  dc_directory :: "pystr list"
  dc_metric_file :: "pystr list"
  dc_injection_file :: "pystr list"
  dc_source_locator :: pystr
  dc_root_cause_service :: pystr
  dc_injected_fault_type :: pystr
  dc_repetition :: pystr

section \<open>Names\<close>

text \<open>\<^verbatim>\<open>text.split(c)\<close> and \<^verbatim>\<open>c.join(parts)\<close> for one character.\<close>

fun py_split :: "nat \<Rightarrow> pystr \<Rightarrow> pystr list" where
  "py_split c [] = [[]]"
| "py_split c (x # s) =
     (if x = c then [] # py_split c s
      else case py_split c s of [] \<Rightarrow> [[x]] | p # ps \<Rightarrow> (x # p) # ps)"

fun py_join :: "nat \<Rightarrow> pystr list \<Rightarrow> pystr" where
  "py_join c [] = []"
| "py_join c [p] = p"
| "py_join c (p # q # ps) = p @ c # py_join c (q # ps)"

text \<open>The name of a directory and of its parent; the path of the root has both.\<close>

definition full_path :: "split_root \<Rightarrow> pystr list \<Rightarrow> pystr list" where
  "full_path r path = rt_parent_name r # rt_name r # path"

definition layout :: "split_root \<Rightarrow> pystr list \<Rightarrow> load_failure + pystr \<times> pystr \<times> pystr" where
  "layout r path =
     (let names = full_path r path; name = last names;
          parts = py_split 95 (last (butlast names)) in
      if length parts \<noteq> 2 \<or> [] \<in> set parts \<or> name = [] then Inl (load_failed UNSUPPORTED_CASE_LAYOUT)
      else Inr (parts ! 0, parts ! 1, name))"

definition as_posix :: "pystr list \<Rightarrow> pystr" where
  "as_posix path = (if path = [] then [46] else py_join 47 path)"

definition regular_names :: "(pystr \<times> fs_node) list \<Rightarrow> pystr list" where
  "regular_names es = map fst (filter (\<lambda>(_, d). case d of FsFile _ \<Rightarrow> True | _ \<Rightarrow> False) es)"

definition selected_file :: "(pystr \<times> fs_node) list \<Rightarrow> pystr option" where
  "selected_file es =
     (if lit ''data.csv'' \<in> set (regular_names es) then Some (lit ''data.csv'')
      else if lit ''simple_metrics.csv'' \<in> set (regular_names es) then Some (lit ''simple_metrics.csv'')
      else None)"

section \<open>The walk\<close>

definition child_directories :: "pystr list \<Rightarrow> (pystr \<times> fs_node) list \<Rightarrow> (pystr list \<times> fs_node) list" where
  "child_directories path es = map (\<lambda>(n, d). (path @ [n], d)) (filter (\<lambda>(_, d). is_dir d) es)"

definition found_case :: "split_root \<Rightarrow> pystr list \<Rightarrow> pystr \<Rightarrow> pystr \<times> pystr \<times> pystr \<Rightarrow> discovered_case" where
  "found_case r path selected parts =
     (case parts of (service, fault, repetition) \<Rightarrow>
        \<lparr>dc_directory = path, dc_metric_file = path @ [selected],
         dc_injection_file = path @ [lit ''inject_time.txt''], dc_source_locator = as_posix path,
         dc_root_cause_service = service, dc_injected_fault_type = fault, dc_repetition = repetition\<rparr>)"

text \<open>One directory: its case, if it is one, or the directories to walk next.\<close>

definition scan_directory ::
  "split_root \<Rightarrow> pystr list \<Rightarrow> (pystr \<times> fs_node) list
     \<Rightarrow> load_failure + (discovered_case + (pystr list \<times> fs_node) list)" where
  "scan_directory r path es =
     (case selected_file es of
        Some selected \<Rightarrow>
          if lit ''inject_time.txt'' \<notin> set (regular_names es) then Inl (load_failed MISSING_INJECTION_TIME)
          else rbind (layout r path) (\<lambda>parts. Inr (Inl (found_case r path selected parts)))
      | None \<Rightarrow> Inr (Inr (child_directories path es)))"

fun node_count :: "fs_node \<Rightarrow> nat" where
  "node_count (FsDirectory es) = Suc (sum_list (map (\<lambda>(_, d). node_count d) es))"
| "node_count _ = 1"

text \<open>The stack has its top in front; \<^verbatim>\<open>pending.extend(reversed(children))\<close> puts the first child there.\<close>

function discover_loop ::
  "loader_limits \<Rightarrow> split_root \<Rightarrow> (pystr list \<times> fs_node) list \<Rightarrow> int \<Rightarrow> discovered_case list
     \<Rightarrow> load_failure + discovered_case list" where
  "discover_loop l r [] scanned found = Inr found"
| "discover_loop l r ((path, FsDirectory es) # pending) scanned found =
     (let es = sort_key fst es; scanned = scanned + int (length es) in
      if max_scanned_entries l < scanned then Inl (load_failed SCAN_LIMIT_EXCEEDED)
      else case scan_directory r path es of
        Inl e \<Rightarrow> Inl e
      | Inr (Inl d) \<Rightarrow>
          if max_discovered_cases l < int (length (found @ [d])) then Inl (load_failed CASE_LIMIT_EXCEEDED)
          else discover_loop l r pending scanned (found @ [d])
      | Inr (Inr children) \<Rightarrow> discover_loop l r (children @ pending) scanned found)"
| "discover_loop l r ((path, FsFile f) # pending) scanned found = Inl (load_failed INVALID_ROOT)"
| "discover_loop l r ((path, FsUnreadable) # pending) scanned found = Inl (load_failed INVALID_ROOT)"
| "discover_loop l r ((path, FsOther) # pending) scanned found = Inl (load_failed INVALID_ROOT)"
  by pat_completeness auto

lemma sum_list_sort_key: "sum_list (map f (sort_key k xs)) = sum_list (map f xs)" for f :: "'a \<Rightarrow> nat"
  by (metis mset_map mset_sort sum_mset_sum_list)

lemma child_directories_count:
  "sum_list (map (\<lambda>(_, d). node_count d) (child_directories path es)) \<le> sum_list (map (\<lambda>(_, d). node_count d) es)"
  by (induction es) (auto simp: child_directories_def split: prod.splits)

lemma scan_directory_children:
  "scan_directory r path es = Inr (Inr children) \<longleftrightarrow>
     selected_file es = None \<and> children = child_directories path es"
  by (auto simp: scan_directory_def rbind_eq_Inr split: option.splits)

lemma scan_directory_count:
  assumes "scan_directory r path (sort_key fst es) = Inr (Inr children)"
  shows "sum_list (map (\<lambda>(_, d). node_count d) children) \<le> sum_list (map (\<lambda>(_, d). node_count d) es)"
  using assms child_directories_count [of path "sort_key fst es"]
  by (simp add: scan_directory_children sum_list_sort_key)

termination discover_loop
  by (relation "measure (\<lambda>(_, _, stack, _, _). sum_list (map (\<lambda>(_, d). node_count d) stack))")
    (auto dest!: scan_directory_count)

definition discover_cases :: "split_root \<Rightarrow> loader_limits \<Rightarrow> load_failure + discovered_case list" where
  "discover_cases r l = discover_loop l r [([], rt_node r)] 0 []"

section \<open>The loop is a recursion\<close>

lemma node_in_size: "(n, d) \<in> set es \<Longrightarrow> node_count d < node_count (FsDirectory es)"
  by (induction es) (auto simp: less_Suc_eq_le)

function cases_of :: "pystr list \<Rightarrow> fs_node \<Rightarrow> pystr list list" where
  "cases_of path (FsDirectory es) =
     (if selected_file es \<noteq> None then [path]
      else concat (map (\<lambda>(n, d). cases_of (path @ [n]) d) (sort_key fst es)))"
| "cases_of path (FsFile f) = []"
| "cases_of path FsUnreadable = []"
| "cases_of path FsOther = []"
  by pat_completeness auto
termination
  by (relation "measure (\<lambda>(_, d). node_count d)") (auto dest: node_in_size simp del: node_count.simps)

lemma regular_names_sort [simp]: "set (regular_names (sort_key fst es)) = set (regular_names es)"
  by (auto simp: regular_names_def)

lemma selected_file_sort [simp]: "selected_file (sort_key fst es) = selected_file es"
  by (simp add: selected_file_def)

lemma cases_of_not_dir: "\<not> is_dir d \<Longrightarrow> cases_of path d = []"
  by (cases d) auto

lemma cases_of_children:
  "concat (map (\<lambda>(p, d). cases_of p d) (child_directories path es)) = concat (map (\<lambda>(n, d). cases_of (path @ [n]) d) es)"
  by (induction es) (auto simp: child_directories_def cases_of_not_dir)

definition root_layout :: "split_root \<Rightarrow> discovered_case \<Rightarrow> bool" where
  "root_layout r d \<longleftrightarrow>
     layout r (dc_directory d) = Inr (dc_root_cause_service d, dc_injected_fault_type d, dc_repetition d) \<and>
     dc_source_locator d = as_posix (dc_directory d) \<and>
     butlast (dc_metric_file d) = dc_directory d \<and> dc_injection_file d = dc_directory d @ [lit ''inject_time.txt'']"

lemma scan_directory_case:
  "scan_directory r path es = Inr (Inl d) \<Longrightarrow>
     selected_file es \<noteq> None \<and> dc_directory d = path \<and> root_layout r d"
  by (auto simp: scan_directory_def rbind_eq_Inr found_case_def root_layout_def split: option.splits if_splits)

text \<open>What the loop adds to the cases found so far, for any stack.\<close>

lemma discover_loop_cases:
  assumes "discover_loop l r stack scanned found = Inr ds"
  shows "map dc_directory ds = map dc_directory found @ concat (map (\<lambda>(p, d). cases_of p d) stack) \<and>
    (list_all (root_layout r) found \<longrightarrow> list_all (root_layout r) ds) \<and>
    (int (length found) \<le> max_discovered_cases l \<longrightarrow> int (length ds) \<le> max_discovered_cases l)"
  using assms
proof (induction l r stack scanned found rule: discover_loop.induct)
  case (2 l r path es pending scanned found)
  show ?case
  proof (cases "scan_directory r path (sort_key fst es)")
    case (Inr x)
    show ?thesis
    proof (cases x)
      case (Inl d)
      with Inr 2(3) have
        "discover_loop l r pending (scanned + int (length es)) (found @ [d]) = Inr ds"
        "int (length (found @ [d])) \<le> max_discovered_cases l"
        by (auto simp: Let_def split: if_splits)
      with 2(1) [OF refl refl _ _ Inl] 2(3) Inr Inl scan_directory_case [of r path "sort_key fst es" d]
      show ?thesis by (auto simp: Let_def split: if_splits)
    next
      case (Inr children)
      with \<open>scan_directory r path (sort_key fst es) = Inr x\<close>
      have scan: "scan_directory r path (sort_key fst es) = Inr (Inr children)" by simp
      then have children: "selected_file es = None" "children = child_directories path (sort_key fst es)"
        by (simp_all add: scan_directory_children)
      from scan 2(3) have loop:
        "discover_loop l r (children @ pending) (scanned + int (length es)) found = Inr ds"
        "\<not> max_scanned_entries l < scanned + int (length es)"
        by (auto simp: Let_def split: if_splits)
      have "concat (map (\<lambda>(p, d). cases_of p d) (children @ pending))
          = concat (map (\<lambda>(p, d). cases_of p d) ((path, FsDirectory es) # pending))"
        by (simp add: children cases_of_children)
      then show ?thesis
        using 2(2) [OF refl refl _ scan refl] loop by (simp add: Let_def)
    qed
  qed (use 2(3) in \<open>simp add: Let_def split: if_splits\<close>)
qed auto

section \<open>The cases of a tree\<close>

text \<open>A path leads to a case when it ends at the first directory with a metric file it meets.\<close>

fun case_at :: "fs_node \<Rightarrow> pystr list \<Rightarrow> bool" where
  "case_at (FsDirectory es) [] \<longleftrightarrow> selected_file es \<noteq> None"
| "case_at (FsDirectory es) (n # path) \<longleftrightarrow> selected_file es = None \<and>
     (case map_of es n of None \<Rightarrow> False | Some d \<Rightarrow> case_at d path)"
| "case_at _ path \<longleftrightarrow> False"

text \<open>No directory has two entries of one name.\<close>

fun tree_ok :: "fs_node \<Rightarrow> bool" where
  "tree_ok (FsDirectory es) \<longleftrightarrow> distinct (map fst es) \<and> (\<forall>(n, d) \<in> set es. tree_ok d)"
| "tree_ok _ \<longleftrightarrow> True"

lemma cases_of_iff:
  "tree_ok d \<Longrightarrow> q \<in> set (cases_of path d) \<longleftrightarrow> (\<exists>rest. q = path @ rest \<and> case_at d rest)"
proof (induction path d arbitrary: q rule: cases_of.induct)
  case (1 path es)
  show ?case
  proof (cases "selected_file es = None")
    case True
    have IH: "q \<in> set (cases_of (path @ [n]) d) \<longleftrightarrow> (\<exists>rest. q = (path @ [n]) @ rest \<and> case_at d rest)"
      if "(n, d) \<in> set es" for n d
      using 1(1) [of "(n, d)" n d q] that 1(2) True by fastforce
    have "q \<in> set (cases_of path (FsDirectory es)) \<longleftrightarrow>
        (\<exists>(n, d) \<in> set es. q \<in> set (cases_of (path @ [n]) d))"
      using True by auto
    also have "\<dots> \<longleftrightarrow> (\<exists>(n, d) \<in> set es. \<exists>rest. q = (path @ [n]) @ rest \<and> case_at d rest)"
      using IH by blast
    also have "\<dots> \<longleftrightarrow> (\<exists>n d rest. map_of es n = Some d \<and> q = path @ n # rest \<and> case_at d rest)"
      using 1(2) by (auto simp: map_of_eq_Some_iff)
    also have "\<dots> \<longleftrightarrow> (\<exists>rest. q = path @ rest \<and> case_at (FsDirectory es) rest)"
    proof
      assume "\<exists>rest. q = path @ rest \<and> case_at (FsDirectory es) rest"
      then obtain rest where rest: "q = path @ rest" "case_at (FsDirectory es) rest" by blast
      then show "\<exists>n d rest. map_of es n = Some d \<and> q = path @ n # rest \<and> case_at d rest"
        using True by (cases rest) (auto split: option.splits)
    qed (use True in auto)
    finally show ?thesis .
  next
    case False
    have "case_at (FsDirectory es) rest \<longleftrightarrow> rest = []" for rest
      using False by (cases rest) auto
    with False show ?thesis by auto
  qed
qed auto

lemma append_less_append: "a < b \<Longrightarrow> path @ a # x < path @ b # y" for a b :: pystr
  by (induction path) auto

lemma cases_of_prefix: "q \<in> set (cases_of path d) \<Longrightarrow> \<exists>rest. q = path @ rest"
proof (induction path d rule: cases_of.induct)
  case (1 path es)
  then show ?case by (auto split: if_splits) fastforce
qed auto

lemma cases_of_sorted: "tree_ok d \<Longrightarrow> sorted_wrt (<) (cases_of path d)"
proof (induction path d rule: cases_of.induct)
  case (1 path es)
  show ?case
  proof (cases "selected_file es = None")
    case True
    have each: "sorted_wrt (<) (cases_of (path @ [n]) d)" if "(n, d) \<in> set es" for n d
      using 1(1) [of "(n, d)" n d] that 1(2) True by fastforce
    have order: "sorted_wrt (\<lambda>x y. fst x < fst y) (sort_key fst es)"
      using 1(2) by (simp add: sorted_wrt_map [symmetric] strict_sorted_iff)
        (metis distinct_map mset_map mset_eq_imp_distinct_iff mset_sort)
    have "sorted_wrt (<) (concat (map (\<lambda>(n, d). cases_of (path @ [n]) d) xs))"
      if "sorted_wrt (\<lambda>x y. fst x < fst y) xs" "set xs \<subseteq> set es" for xs
      using that
    proof (induction xs)
      case (Cons x xs)
      obtain n d where x: "x = (n, d)" by (cases x)
      have "a < b" if "a \<in> set (cases_of (path @ [n]) d)" "(m, e) \<in> set xs" "b \<in> set (cases_of (path @ [m]) e)"
        for a b m e
      proof -
        have "n < m" using Cons.prems(1) that(2) x by auto
        then show ?thesis
          using cases_of_prefix [OF that(1)] cases_of_prefix [OF that(3)] append_less_append by auto
      qed
      with Cons x each show ?case by (auto simp: sorted_wrt_append)
    qed simp
    with order True show ?thesis by simp
  qed simp
qed auto

text \<open>
  C26. A walk that succeeds has found exactly the directories with a metric file that lie below no
  other such directory, each once and in lexicographic order of their paths whatever order the
  file system lists its entries in, with the labels their names spell, and no more than the limit.
\<close>

theorem discovery_is_exact:
  assumes "discover_cases r l = Inr ds" "tree_ok (rt_node r)" "valid_limits l"
  shows "(\<forall>path. path \<in> dc_directory ` set ds \<longleftrightarrow> case_at (rt_node r) path) \<and>
    sorted_wrt (<) (map dc_directory ds) \<and> list_all (root_layout r) ds \<and>
    int (length ds) \<le> max_discovered_cases l"
proof -
  from discover_loop_cases [OF assms(1) [unfolded discover_cases_def]] assms(3)
  have dirs: "map dc_directory ds = cases_of [] (rt_node r)" and rest: "list_all (root_layout r) ds"
    "int (length ds) \<le> max_discovered_cases l"
    by (auto simp: valid_limits_def limit_field_ok_def)
  have "path \<in> dc_directory ` set ds \<longleftrightarrow> case_at (rt_node r) path" for path
    using cases_of_iff [OF assms(2), of path "[]"] by (metis append_Nil dirs set_map)
  with dirs rest cases_of_sorted [OF assms(2), of "[]"] show ?thesis by simp
qed

text \<open>Two cases, listed out of order, below a root of the first split.\<close>

definition sample_case_directory :: "string \<Rightarrow> nat list \<Rightarrow> nat list \<Rightarrow> fs_node" where
  "sample_case_directory metrics b i = FsDirectory
     [(lit metrics, FsFile (the (sample_file b))), (lit ''inject_time.txt'', FsFile (the (sample_file i)))]"

definition sample_root :: split_root where
  "sample_root = \<lparr>rt_parent_name = lit ''data'', rt_name = lit ''RE2-OB'', rt_symlink = False,
     rt_node = FsDirectory
       [(lit ''cart_mem'', FsDirectory [(lit ''1'', sample_case_directory ''simple_metrics.csv'' sample_metrics [49, 53, 10])]),
        (lit ''ad_cpu'', FsDirectory [(lit ''1'', sample_case_directory ''data.csv'' sample_metrics [49, 53, 10])])]\<rparr>"

definition sample_discovered :: "string \<Rightarrow> string \<Rightarrow> string \<Rightarrow> discovered_case" where
  "sample_discovered service fault metrics =
     \<lparr>dc_directory = [lit service @ 95 # lit fault, lit ''1''],
      dc_metric_file = [lit service @ 95 # lit fault, lit ''1'', lit metrics],
      dc_injection_file = [lit service @ 95 # lit fault, lit ''1'', lit ''inject_time.txt''],
      dc_source_locator = lit service @ 95 # lit fault @ 47 # lit ''1'',
      dc_root_cause_service = lit service, dc_injected_fault_type = lit fault, dc_repetition = lit ''1''\<rparr>"

lemma sample_discovery:
  "discover_cases sample_root sample_limits =
     Inr [sample_discovered ''ad'' ''cpu'' ''data.csv'', sample_discovered ''cart'' ''mem'' ''simple_metrics.csv'']"
  by code_simp

theorem discovery_is_exact_witness:
  "case_at (rt_node sample_root) [lit ''cart_mem'', lit ''1''] \<and>
   sorted_wrt (<) [[lit ''ad_cpu'', lit ''1''], [lit ''cart_mem'', lit ''1'']]"
proof -
  have "tree_ok (rt_node sample_root)" by code_simp
  moreover have "valid_limits sample_limits" by code_simp
  moreover have "lit ''ad'' @ 95 # lit ''cpu'' = lit ''ad_cpu''" "lit ''cart'' @ 95 # lit ''mem'' = lit ''cart_mem''"
    by code_simp+
  ultimately show ?thesis
    using discovery_is_exact [OF sample_discovery]
    by (auto simp: sample_discovered_def)
qed

end
