(* ===== verification/Rcaeval_Adapter.thy ===== *)
theory Rcaeval_Adapter
  imports Case_Discovery "HOL-Library.Sublist"
begin

text \<open>
  \<^verbatim>\<open>evaluation/rcaeval/sidecar.py\<close> and \<^verbatim>\<open>adapter.py\<close>: loading a split into cases for the
  investigation and, apart from them, a sidecar with the labels. The calls of the case identifier
  factory thread the factory's state; which steps of writing the sidecar fail is an argument.
\<close>

section \<open>The sidecar\<close>

record sidecar_entry =
  se_case_id :: case_id
  se_split :: rcaeval_split
  se_source_locator :: pystr
  se_root_cause_service :: pystr
  se_injected_fault_type :: pystr
  se_repetition :: pystr
  se_answer_labels :: "pystr list"

record evaluation_sidecar =
  es_manifest_release :: pystr
  es_manifest_commit :: pystr
  es_entries :: "sidecar_entry list"
  es_schema_version :: int

definition entry_json :: "sidecar_entry \<Rightarrow> json" where
  "entry_json e = JObj [(lit ''split'', JStr (split_value (se_split e))),
     (lit ''source_locator'', JStr (se_source_locator e)),
     (lit ''root_cause_service'', JStr (se_root_cause_service e)),
     (lit ''injected_fault_type'', JStr (se_injected_fault_type e)),
     (lit ''repetition'', JStr (se_repetition e)),
     (lit ''answer_labels'', JList (map JStr (se_answer_labels e)))]"

definition sidecar_payload :: "evaluation_sidecar \<Rightarrow> json" where
  "sidecar_payload s = JObj [(lit ''schema_version'', JInt (es_schema_version s)),
     (lit ''manifest_release'', JStr (es_manifest_release s)),
     (lit ''manifest_commit'', JStr (es_manifest_commit s)),
     (lit ''entries'', JObj (foldl (\<lambda>d e. AList.update (case_id_str (se_case_id e)) (entry_json e) d) [] (es_entries s)))]"

text \<open>\<^verbatim>\<open>ensure_ascii\<close>: what is left outside ASCII stands inside strings and becomes an escape.\<close>

definition hex_escape :: "nat \<Rightarrow> pystr" where
  "hex_escape c = 92 # 117 # hex_fixed 4 c"

definition ascii_char :: "nat \<Rightarrow> pystr" where
  "ascii_char c =
     (if c < 127 then [c]
      else if c < 65536 then hex_escape c
      else hex_escape (55296 + (c - 65536) div 1024) @ hex_escape (56320 + (c - 65536) mod 1024))"

definition sidecar_json :: "evaluation_sidecar \<Rightarrow> pystr" where
  "sidecar_json s = concat (map ascii_char (dumps (sidecar_payload s))) @ [10]"

text \<open>The destination and the temporary file beside it, and what goes wrong on the way.\<close>

record sidecar_disk =
  sd_destination :: "pystr option"
  sd_temporary :: "pystr option"

record sidecar_faults =
  sf_outside_root :: bool
  sf_create_fails :: bool
  sf_write_fails :: "nat option"
  sf_replace_fails :: bool
  sf_unlink_fails :: bool

text \<open>
  \<^verbatim>\<open>sf_write_fails\<close> is the number of characters that reach the temporary file before writing,
  flushing or \<^verbatim>\<open>fsync\<close> fails. A failing \<^verbatim>\<open>chmod\<close> has no effect. The clean-up runs in \<^verbatim>\<open>finally\<close>
  whenever the temporary file was created.
\<close>

definition persist_sidecar ::
  "sidecar_faults \<Rightarrow> evaluation_sidecar \<Rightarrow> sidecar_disk \<Rightarrow> (load_failure + unit) \<times> sidecar_disk" where
  "persist_sidecar faults s disk =
     (if sf_outside_root faults \<or> sf_create_fails faults then (Inl (load_failed SIDECAR_WRITE_FAILED), disk)
      else
        let (failed, disk) =
              (case sf_write_fails faults of
                 Some n \<Rightarrow> (True, disk\<lparr>sd_temporary := Some (take n (sidecar_json s))\<rparr>)
               | None \<Rightarrow>
                   if sf_replace_fails faults then (True, disk\<lparr>sd_temporary := Some (sidecar_json s)\<rparr>)
                   else (False, disk\<lparr>sd_destination := Some (sidecar_json s), sd_temporary := None\<rparr>));
            (failed, disk) =
              (if sf_unlink_fails faults then (True, disk) else (failed, disk\<lparr>sd_temporary := None\<rparr>))
        in (if failed then Inl (load_failed SIDECAR_WRITE_FAILED) else Inr (), disk))"

section \<open>The adapter\<close>

record investigation_case =
  ic_case_id :: case_id
  ic_split :: rcaeval_split
  ic_window :: incident_window
  ic_signals :: "metric_signal list"

record evaluation_batch =
  eb_cases :: "investigation_case list"
  eb_sidecar :: evaluation_sidecar
  eb_skipped_case_count :: int

record 's rcaeval_adapter =
  ad_limits :: loader_limits
  ad_case_id_factory :: "'s \<Rightarrow> factory_outcome \<times> 's"

fun file_at :: "fs_node \<Rightarrow> pystr list \<Rightarrow> file_data option" where
  "file_at (FsFile f) [] = Some f"
| "file_at (FsDirectory es) (n # path) = (case map_of es n of None \<Rightarrow> None | Some d \<Rightarrow> file_at d path)"
| "file_at _ _ = None"

definition parse_discovered ::
  "fs_node \<Rightarrow> discovered_case \<Rightarrow> case_id \<Rightarrow> loader_limits \<Rightarrow> load_failure + parsed_case" where
  "parse_discovered fs d c l = parse_case (file_at fs (dc_metric_file d)) (file_at fs (dc_injection_file d)) c l"

definition entry_of :: "case_id \<Rightarrow> rcaeval_split \<Rightarrow> discovered_case \<Rightarrow> sidecar_entry" where
  "entry_of c x d = \<lparr>se_case_id = c, se_split = x, se_source_locator = dc_source_locator d,
     se_root_cause_service = dc_root_cause_service d, se_injected_fault_type = dc_injected_fault_type d,
     se_repetition = dc_repetition d, se_answer_labels = [dc_root_cause_service d, dc_injected_fault_type d]\<rparr>"

definition case_of :: "case_id \<Rightarrow> rcaeval_split \<Rightarrow> parsed_case \<Rightarrow> investigation_case" where
  "case_of c x p = \<lparr>ic_case_id = c, ic_split = x, ic_window = pc_window p, ic_signals = pc_signals p\<rparr>"

record 's load_state =
  ld_assigned :: "case_id set"
  ld_cases :: "investigation_case list"
  ld_entries :: "sidecar_entry list"
  ld_skipped :: int
  ld_factory :: 's

definition load_one ::
  "'s rcaeval_adapter \<Rightarrow> fs_node \<Rightarrow> rcaeval_split \<Rightarrow> bool \<Rightarrow> discovered_case \<Rightarrow> 's load_state
     \<Rightarrow> load_failure + 's load_state" where
  "load_one a fs x skip d st =
     (case unique_case_id (ad_case_id_factory a) UNIQUE_CASE_ID_ATTEMPTS (ld_assigned st) (ld_factory st) of
        (Inl e, s) \<Rightarrow> Inl e
      | (Inr c, s) \<Rightarrow>
          let st = st\<lparr>ld_assigned := insert c (ld_assigned st), ld_factory := s\<rparr> in
          (case parse_discovered fs d c (ad_limits a) of
             Inl (LoadError e) \<Rightarrow>
               if skip then Inr (st\<lparr>ld_skipped := ld_skipped st + 1\<rparr>) else Inl (LoadError e)
           | Inl UncaughtOSError \<Rightarrow> Inl UncaughtOSError
           | Inr p \<Rightarrow>
               Inr (st\<lparr>ld_cases := ld_cases st @ [case_of c x p], ld_entries := ld_entries st @ [entry_of c x d]\<rparr>)))"

primrec load_all ::
  "'s rcaeval_adapter \<Rightarrow> fs_node \<Rightarrow> rcaeval_split \<Rightarrow> bool \<Rightarrow> discovered_case list \<Rightarrow> 's load_state
     \<Rightarrow> load_failure + 's load_state" where
  "load_all a fs x skip [] st = Inr st"
| "load_all a fs x skip (d # ds) st = rbind (load_one a fs x skip d st) (load_all a fs x skip ds)"

definition MANIFEST_RELEASE :: pystr where
  "MANIFEST_RELEASE = lit ''1.2.0''"

definition MANIFEST_COMMIT :: pystr where
  "MANIFEST_COMMIT = lit ''bc49dbd85bd14032101fb9a69a5a37e9d6d55178''"

definition initial_load :: "'s \<Rightarrow> 's load_state" where
  "initial_load s = \<lparr>ld_assigned = {}, ld_cases = [], ld_entries = [], ld_skipped = 0, ld_factory = s\<rparr>"

text \<open>Everything of \<^verbatim>\<open>load\<close> up to the batch, and then the optional copy of the sidecar.\<close>

definition load_batch ::
  "'s rcaeval_adapter \<Rightarrow> split_root \<Rightarrow> pyval \<Rightarrow> sealed_permit option \<Rightarrow> bool \<Rightarrow> 's \<Rightarrow> load_failure + evaluation_batch" where
  "load_batch a r x permit skip s =
     rbind (parse_split x) (\<lambda>x.
     rbind (guard_split x permit) (\<lambda>_.
     rbind (validate_root r x) (\<lambda>_.
     rbind (discover_cases r (ad_limits a)) (\<lambda>ds.
     rbind (load_all a (rt_node r) x skip ds (initial_load s)) (\<lambda>st.
       Inr \<lparr>eb_cases = ld_cases st,
            eb_sidecar = \<lparr>es_manifest_release = MANIFEST_RELEASE, es_manifest_commit = MANIFEST_COMMIT,
              es_entries = ld_entries st, es_schema_version = 1\<rparr>,
            eb_skipped_case_count = ld_skipped st\<rparr>)))))"

text \<open>The replay arguments: no destination, a destination without a root, or both.\<close>

datatype replay = NoReplay | ReplayWithoutRoot | ReplayTo sidecar_faults

definition adapter_load ::
  "'s rcaeval_adapter \<Rightarrow> split_root \<Rightarrow> pyval \<Rightarrow> sealed_permit option \<Rightarrow> replay \<Rightarrow> bool \<Rightarrow> 's \<Rightarrow> sidecar_disk
     \<Rightarrow> (load_failure + evaluation_batch) \<times> sidecar_disk" where
  "adapter_load a r x permit rp skip s disk =
     (case load_batch a r x permit skip s of
        Inl e \<Rightarrow> (Inl e, disk)
      | Inr batch \<Rightarrow>
          (case rp of
             NoReplay \<Rightarrow> (Inr batch, disk)
           | ReplayWithoutRoot \<Rightarrow> (Inl (load_failed SIDECAR_WRITE_FAILED), disk)
           | ReplayTo faults \<Rightarrow>
               (case persist_sidecar faults (eb_sidecar batch) disk of
                  (Inl e, disk) \<Rightarrow> (Inl e, disk)
                | (Inr _, disk) \<Rightarrow> (Inr batch, disk))))"

section \<open>No label reaches a case\<close>

text \<open>The two files of a case, and what they hold for the investigation.\<close>

definition case_files :: "fs_node \<Rightarrow> discovered_case \<Rightarrow> file_data option \<times> file_data option" where
  "case_files fs d = (file_at fs (dc_metric_file d), file_at fs (dc_injection_file d))"

text \<open>Two cases with the same files, whatever their directories are called.\<close>

definition same_files :: "fs_node \<Rightarrow> fs_node \<Rightarrow> discovered_case \<Rightarrow> discovered_case \<Rightarrow> bool" where
  "same_files fs fs' d d' \<longleftrightarrow> case_files fs d = case_files fs' d'"

lemma same_files_all:
  "list_all2 (same_files fs fs') ds ds' \<longleftrightarrow> map (case_files fs) ds = map (case_files fs') ds'"
  by (auto simp: same_files_def list_all2_conv_all_nth list_eq_iff_nth_eq)

definition forget_labels :: "'s load_state \<Rightarrow> 's load_state" where
  "forget_labels st = st\<lparr>ld_entries := []\<rparr>"

lemma forget_labels_eq:
  "forget_labels st = forget_labels st' \<longleftrightarrow> ld_assigned st = ld_assigned st' \<and> ld_cases st = ld_cases st' \<and>
     ld_skipped st = ld_skipped st' \<and> ld_factory st = ld_factory st'"
  by (cases st; cases st') (auto simp: forget_labels_def)

lemma load_one_same_files:
  assumes "same_files fs fs' d d'" "forget_labels st = forget_labels st'"
  shows "map_sum (\<lambda>e. e) forget_labels (load_one a fs x skip d st) = map_sum (\<lambda>e. e) forget_labels (load_one a fs' x skip d' st')"
proof -
  have parse: "parse_discovered fs d c l = parse_discovered fs' d' c l" for c l
    using assms(1) by (simp add: parse_discovered_def same_files_def case_files_def)
  show ?thesis
    using assms(2)
    by (auto simp: load_one_def parse forget_labels_eq Let_def
        split: prod.splits sum.splits load_failure.splits)
qed

lemma load_all_same_files:
  assumes "list_all2 (same_files fs fs') ds ds'" "forget_labels st = forget_labels st'"
  shows "map_sum (\<lambda>e. e) forget_labels (load_all a fs x skip ds st) = map_sum (\<lambda>e. e) forget_labels (load_all a fs' x skip ds' st')"
  using assms
proof (induction ds ds' arbitrary: st st' rule: list_all2_induct)
  case (Cons d ds d' ds')
  from load_one_same_files [OF Cons.hyps(1) Cons.prems, of a x skip]
  show ?case
    by (cases "load_one a fs x skip d st"; cases "load_one a fs' x skip d' st'") (auto intro: Cons.IH)
qed simp

definition files_content ::
  "loader_limits \<Rightarrow> file_data option \<times> file_data option \<Rightarrow> load_error_code option + incident_window \<times> metric_signal list" where
  "files_content l fs = map_sum failure_code (\<lambda>p. (pc_window p, pc_signals p)) (parse_case (fst fs) (snd fs) (CaseId 0) l)"

text \<open>The identifiers of a number of cases, one successful draw after the other.\<close>

primrec draw_ids :: "('s \<Rightarrow> factory_outcome \<times> 's) \<Rightarrow> nat \<Rightarrow> case_id set \<Rightarrow> 's \<Rightarrow> case_id list option" where
  "draw_ids factory 0 assigned s = Some []"
| "draw_ids factory (Suc n) assigned s =
     (case unique_case_id factory UNIQUE_CASE_ID_ATTEMPTS assigned s of
        (Inl e, s) \<Rightarrow> None
      | (Inr c, s) \<Rightarrow> map_option (Cons c) (draw_ids factory n (insert c assigned) s))"

lemma draw_ids_fresh:
  "draw_ids factory n assigned s = Some ids \<Longrightarrow> length ids = n \<and> distinct ids \<and> set ids \<inter> assigned = {}"
  by (induction n arbitrary: assigned s ids)
    (auto dest!: unique_case_id_fresh split: prod.splits sum.splits, blast+)

definition loaded_case ::
  "loader_limits \<Rightarrow> rcaeval_split \<Rightarrow> case_id \<times> file_data option \<times> file_data option \<Rightarrow> investigation_case option" where
  "loaded_case l x cf = (case files_content l (snd cf) of
     Inl e \<Rightarrow> None | Inr (w, sigs) \<Rightarrow> Some \<lparr>ic_case_id = fst cf, ic_split = x, ic_window = w, ic_signals = sigs\<rparr>)"

text \<open>A failure is passed over only when it is a load error and the caller asked for that.\<close>

definition tolerated :: "bool \<Rightarrow> loader_limits \<Rightarrow> file_data option \<times> file_data option \<Rightarrow> bool" where
  "tolerated skip l fs = (case files_content l fs of Inl None \<Rightarrow> False | Inl (Some code) \<Rightarrow> skip | Inr content \<Rightarrow> True)"

lemma files_content_parse:
  "(case parse_discovered fs d c l of
      Inl (LoadError e) \<Rightarrow> files_content l (case_files fs d) = Inl (Some (le_code e))
    | Inl UncaughtOSError \<Rightarrow> files_content l (case_files fs d) = Inl None
    | Inr p \<Rightarrow> files_content l (case_files fs d) = Inr (pc_window p, pc_signals p))"
proof -
  have "files_content l (case_files fs d) = map_sum (\<lambda>e. e) (\<lambda>p. (pc_window p, pc_signals p))
      (anonymous (parse_case (file_at fs (dc_metric_file d)) (file_at fs (dc_injection_file d)) (CaseId 0) l))"
    by (simp add: files_content_def case_files_def anonymous_def sum.map_comp o_def)
  also have "\<dots> = map_sum (\<lambda>e. e) (\<lambda>p. (pc_window p, pc_signals p)) (anonymous (parse_discovered fs d c l))"
    unfolding parse_discovered_def by (subst parse_case_anonymous [of _ _ _ _ c]) simp
  finally show ?thesis
    by (auto simp: anonymous_def failure_code_def split: sum.split load_failure.split)
qed

lemma load_all_content:
  "case load_all a fs x skip ds st of
     Inl e \<Rightarrow> \<not> (list_all (tolerated skip (ad_limits a)) (map (case_files fs) ds) \<and>
       draw_ids (ad_case_id_factory a) (length ds) (ld_assigned st) (ld_factory st) \<noteq> None)
   | Inr st' \<Rightarrow> list_all (tolerated skip (ad_limits a)) (map (case_files fs) ds) \<and>
       (\<exists>ids. draw_ids (ad_case_id_factory a) (length ds) (ld_assigned st) (ld_factory st) = Some ids \<and>
         ld_cases st' = ld_cases st @ List.map_filter (loaded_case (ad_limits a) x) (zip ids (map (case_files fs) ds))) \<and>
       ld_skipped st' + int (length (ld_cases st')) = ld_skipped st + int (length (ld_cases st)) + int (length ds)"
proof (induction ds arbitrary: st)
  case (Cons d ds)
  show ?case
  proof (cases "unique_case_id (ad_case_id_factory a) UNIQUE_CASE_ID_ATTEMPTS (ld_assigned st) (ld_factory st)")
    case (Pair r s)
    show ?thesis
    proof (cases r)
      case (Inr c)
      let ?st = "st\<lparr>ld_assigned := insert c (ld_assigned st), ld_factory := s\<rparr>"
      note content = files_content_parse [where fs = fs and d = d and c = c and l = "ad_limits a"]
      consider e where "parse_discovered fs d c (ad_limits a) = Inl (LoadError e)" "skip"
        | e where "parse_discovered fs d c (ad_limits a) = Inl e" "load_one a fs x skip d st = Inl e" "\<not> tolerated skip (ad_limits a) (case_files fs d)"
        | p where "parse_discovered fs d c (ad_limits a) = Inr p"
        using content Pair Inr
        by (cases "parse_discovered fs d c (ad_limits a)")
          (auto simp: load_one_def Let_def tolerated_def split: load_failure.splits)
      then show ?thesis
      proof cases
        case 1
        then have one: "load_one a fs x skip d st = Inr (?st\<lparr>ld_skipped := ld_skipped st + 1\<rparr>)"
          using Pair Inr by (simp add: load_one_def)
        have "loaded_case (ad_limits a) x (c, case_files fs d) = None" "tolerated skip (ad_limits a) (case_files fs d)"
          using content 1 by (auto simp: loaded_case_def tolerated_def)
        then show ?thesis
          using Cons.IH [of "?st\<lparr>ld_skipped := ld_skipped st + 1\<rparr>"] Pair Inr
          by (auto simp: one map_filter_simps split: sum.splits)
      next
        case 2
        then show ?thesis by simp
      next
        case 3
        let ?st' = "?st\<lparr>ld_cases := ld_cases st @ [case_of c x p], ld_entries := ld_entries st @ [entry_of c x d]\<rparr>"
        have one: "load_one a fs x skip d st = Inr ?st'"
          using 3 Pair Inr by (simp add: load_one_def)
        have "loaded_case (ad_limits a) x (c, case_files fs d) = Some (case_of c x p)" "tolerated skip (ad_limits a) (case_files fs d)"
          using content 3 by (auto simp: loaded_case_def tolerated_def case_of_def)
        then show ?thesis
          using Cons.IH [of ?st'] Pair Inr by (auto simp: one map_filter_simps split: sum.splits)
      qed
    qed (simp add: load_one_def Pair)
  qed
qed (simp add: map_filter_simps)

definition case_content :: "investigation_case \<Rightarrow> rcaeval_split \<times> incident_window \<times> metric_signal list" where
  "case_content c = (ic_split c, ic_window c, ic_signals c)"

lemma loaded_contents:
  "length ids = length fs \<Longrightarrow> map case_content (List.map_filter (loaded_case l x) (zip ids fs))
     = List.map_filter (\<lambda>f. case files_content l f of Inl e \<Rightarrow> None | Inr content \<Rightarrow> Some (x, content)) fs"
  by (induction ids fs rule: list_induct2)
    (auto simp: map_filter_simps loaded_case_def case_content_def split: sum.split prod.split)

lemma loaded_ids:
  "length ids = length fs \<Longrightarrow> subseq (map ic_case_id (List.map_filter (loaded_case l x) (zip ids fs))) ids"
  by (induction ids fs rule: list_induct2)
    (auto simp: map_filter_simps loaded_case_def split: sum.split prod.split)

lemma loaded_all_ids:
  "length ids = length fs \<Longrightarrow> list_all (tolerated False l) fs \<Longrightarrow>
     map ic_case_id (List.map_filter (loaded_case l x) (zip ids fs)) = ids"
  by (induction ids fs rule: list_induct2)
    (auto simp: map_filter_simps loaded_case_def tolerated_def split: sum.splits option.splits)

lemma mset_map_filter:
  "mset (List.map_filter g xs) = image_mset (the \<circ> g) (filter_mset (\<lambda>x. g x \<noteq> None) (mset xs))"
  by (simp add: List.map_filter_def mset_filter)

lemma load_all_permuted:
  fixes a :: "'s rcaeval_adapter"
  assumes files: "mset (map (case_files fs) ds) = mset (map (case_files fs') ds')"
  shows "case (load_all a fs x skip ds (initial_load s), load_all a fs' x skip ds' (initial_load s)) of
      (Inr st, Inr st') \<Rightarrow>
        mset (map case_content (ld_cases st)) = mset (map case_content (ld_cases st')) \<and>
        ld_skipped st = ld_skipped st' \<and>
        (\<exists>ids. length ids = length ds \<and> distinct ids \<and> subseq (map ic_case_id (ld_cases st)) ids \<and>
           subseq (map ic_case_id (ld_cases st')) ids) \<and>
        (\<not> skip \<longrightarrow> map ic_case_id (ld_cases st) = map ic_case_id (ld_cases st'))
    | (Inl _, Inl _) \<Rightarrow> True
    | _ \<Rightarrow> False"
proof -
  let ?l = "ad_limits a" and ?fs = "map (case_files fs) ds" and ?fs' = "map (case_files fs') ds'"
  let ?ids = "draw_ids (ad_case_id_factory a) (length ds) {} s"
  have count: "length ds' = length ds" using mset_eq_length [OF files] by simp
  have tol: "list_all (tolerated skip ?l) ?fs' \<longleftrightarrow> list_all (tolerated skip ?l) ?fs"
    using mset_eq_setD [OF files] by (simp only: list_all_iff)
  note one = load_all_content [where a = a and fs = fs and ds = ds and skip = skip and x = x and st = "initial_load s"] and two = load_all_content [where a = a and fs = fs' and ds = ds' and skip = skip and x = x and st = "initial_load s"]
  show ?thesis
  proof (cases "list_all (tolerated skip ?l) ?fs \<and> ?ids \<noteq> None")
    case False
    then obtain e e' where "load_all a fs x skip ds (initial_load s) = Inl e" "load_all a fs' x skip ds' (initial_load s) = Inl e'"
      using one two unfolding tol count by (fastforce simp: initial_load_def split: sum.splits)
    then show ?thesis by simp
  next
    case True
    then obtain ids where ids: "?ids = Some ids" by blast
    note drawn = draw_ids_fresh [OF ids]
    obtain st st' where st: "load_all a fs x skip ds (initial_load s) = Inr st" "load_all a fs' x skip ds' (initial_load s) = Inr st'"
      using one two True unfolding tol count by (fastforce simp: initial_load_def split: sum.splits)
    have loaded: "ld_cases st = List.map_filter (loaded_case ?l x) (zip ids ?fs)"
      "ld_cases st' = List.map_filter (loaded_case ?l x) (zip ids ?fs')"
      using one two ids unfolding st count by (auto simp: initial_load_def)
    have lens: "length ids = length ?fs" "length ids = length ?fs'" using drawn count by simp_all
    have same: "mset (map case_content (ld_cases st)) = mset (map case_content (ld_cases st'))"
      by (simp only: loaded loaded_contents [OF lens(1)] loaded_contents [OF lens(2)] mset_map_filter files)
    have "length (ld_cases st) = length (ld_cases st')" using mset_eq_length [OF same] by simp
    then have skipped: "ld_skipped st = ld_skipped st'"
      using one two unfolding st count by (simp add: initial_load_def)
    have "map ic_case_id (ld_cases st) = map ic_case_id (ld_cases st')" if "\<not> skip"
      using True that tol loaded_all_ids [OF lens(1)] loaded_all_ids [OF lens(2)] by (simp add: loaded)
    moreover have "\<exists>ids. length ids = length ds \<and> distinct ids \<and> subseq (map ic_case_id (ld_cases st)) ids \<and>
           subseq (map ic_case_id (ld_cases st')) ids"
      unfolding loaded using drawn loaded_ids [OF lens(1)] loaded_ids [OF lens(2)] by blast
    ultimately show ?thesis using same skipped by (simp add: st)
  qed
qed

lemma discover_cases_is_dir: "discover_cases r l = Inr ds \<Longrightarrow> is_dir (rt_node r)"
  by (cases "rt_node r") (auto simp: discover_cases_def)

text \<open>
  C27. No label reaches a case. Take two copies of a split, by name and as directories the same,
  in which the discovery succeeds and finds cases with the same pairs of files, in any order: the
  directories of the cases, whose names spell service, fault and repetition, may be called
  differently in the two. Then either both loads fail or both succeed, and then they skip equally many
  cases, the loaded cases have the same windows and signals up to their order, and their
  identifiers are drawn, in that order, from one sequence of draws of the factory that is the
  same for both; it is used up when no failing case may be skipped. The order of the cases is the
  path order of their directories, so it is all that the names can change: when it is the same in
  both, the whole list of cases, identifiers included, or the error, is the same.
\<close>

theorem cases_carry_no_label:
  assumes "discover_cases r (ad_limits a) = Inr ds" "discover_cases r' (ad_limits a) = Inr ds'"
    "mset (map (case_files (rt_node r)) ds) = mset (map (case_files (rt_node r')) ds')"
    "rt_name r = rt_name r'" "rt_symlink r = rt_symlink r'"
  shows "(case (load_batch a r x permit skip s, load_batch a r' x permit skip s) of
       (Inr batch, Inr batch') \<Rightarrow>
         mset (map case_content (eb_cases batch)) = mset (map case_content (eb_cases batch')) \<and>
         eb_skipped_case_count batch = eb_skipped_case_count batch' \<and>
         (\<exists>ids. length ids = length ds \<and> distinct ids \<and> subseq (map ic_case_id (eb_cases batch)) ids \<and>
            subseq (map ic_case_id (eb_cases batch')) ids) \<and>
         (\<not> skip \<longrightarrow> map ic_case_id (eb_cases batch) = map ic_case_id (eb_cases batch'))
     | (Inl _, Inl _) \<Rightarrow> True
     | _ \<Rightarrow> False) \<and>
    (map (case_files (rt_node r)) ds = map (case_files (rt_node r')) ds' \<longrightarrow>
       map_sum (\<lambda>e. e) eb_cases (load_batch a r x permit skip s) = map_sum (\<lambda>e. e) eb_cases (load_batch a r' x permit skip s))"
proof (cases "rbind (parse_split x) (\<lambda>y. rbind (guard_split y permit) (\<lambda>_. rbind (validate_root r y) (\<lambda>_. Inr y)))")
  case (Inl e)
  have "validate_root r y = validate_root r' y" for y
    using assms(4,5) discover_cases_is_dir [OF assms(1)] discover_cases_is_dir [OF assms(2)]
    by (simp add: validate_root_def)
  with Inl have "load_batch a r x permit skip s = Inl e" "load_batch a r' x permit skip s = Inl e"
    unfolding load_batch_def by (auto simp: rbind_eq_Inl)
  then show ?thesis by simp
next
  case (Inr y)
  then have parts: "parse_split x = Inr y" "guard_split y permit = Inr ()" "validate_root r y = Inr ()"
    by (auto simp: rbind_eq_Inr)
  have root: "validate_root r' y = Inr ()"
    using parts(3) assms(4,5) discover_cases_is_dir [OF assms(1)] discover_cases_is_dir [OF assms(2)]
    by (simp add: validate_root_def)
  note loads = load_batch_def parts root assms(1,2) rbind_simps
  have ordered: "map_sum (\<lambda>e. e) forget_labels (load_all a (rt_node r) y skip ds (initial_load s))
      = map_sum (\<lambda>e. e) forget_labels (load_all a (rt_node r') y skip ds' (initial_load s))"
    if "map (case_files (rt_node r)) ds = map (case_files (rt_node r')) ds'"
    by (rule load_all_same_files [OF same_files_all [THEN iffD2, OF that] refl])
  show ?thesis
    unfolding loads
    using load_all_permuted [OF assms(3), where a = a and x = y and skip = skip and s = s] ordered
    by (cases "load_all a (rt_node r) y skip ds (initial_load s)"; cases "load_all a (rt_node r') y skip ds' (initial_load s)")
      (auto simp: forget_labels_eq)
qed

section \<open>Cases and sidecar\<close>

definition load_ok :: "rcaeval_split \<Rightarrow> bool \<Rightarrow> discovered_case list \<Rightarrow> 's load_state \<Rightarrow> bool" where
  "load_ok x skip ds st \<longleftrightarrow> map se_case_id (ld_entries st) = map ic_case_id (ld_cases st) \<and>
     distinct (map ic_case_id (ld_cases st)) \<and> ic_case_id ` set (ld_cases st) \<subseteq> ld_assigned st \<and>
     list_all (\<lambda>c. uuid_version (case_uuid (ic_case_id c)) = Some 4 \<and> ic_split c = x \<and>
       valid_window (ic_window c) \<and> list_all valid_signal (ic_signals c) \<and>
       distinct (map (signal_value \<circ> sig_key) (ic_signals c))) (ld_cases st) \<and>
     list_all (\<lambda>e. \<exists>d \<in> set ds. e = entry_of (se_case_id e) x d) (ld_entries st) \<and>
     ld_skipped st + int (length (ld_cases st)) = int (length ds) \<and> 0 \<le> ld_skipped st \<and>
     (\<not> skip \<longrightarrow> ld_skipped st = 0)"

lemma load_one_ok:
  assumes "load_one a fs x skip d st = Inr st'" "load_ok x skip ds st"
  shows "load_ok x skip (ds @ [d]) st'"
proof -
  obtain c s where id: "unique_case_id (ad_case_id_factory a) UNIQUE_CASE_ID_ATTEMPTS (ld_assigned st) (ld_factory st) = (Inr c, s)"
    using assms(1) by (auto simp: load_one_def split: prod.splits sum.splits)
  note fresh = unique_case_id_fresh [OF id]
  let ?st = "st\<lparr>ld_assigned := insert c (ld_assigned st), ld_factory := s\<rparr>"
  consider "skip" "st' = ?st\<lparr>ld_skipped := ld_skipped st + 1\<rparr>"
    | p where "parse_discovered fs d c (ad_limits a) = Inr p"
      "st' = ?st\<lparr>ld_cases := ld_cases st @ [case_of c x p], ld_entries := ld_entries st @ [entry_of c x d]\<rparr>"
    using assms(1) id by (auto simp: load_one_def Let_def split: sum.splits load_failure.splits if_splits)
  then show ?thesis
  proof cases
    case 1
    with assms(2) show ?thesis by (auto simp: load_ok_def list_all_iff)
  next
    case 2
    note valid = loaded_case_is_valid [OF 2(1) [unfolded parse_discovered_def]]
    show ?thesis
      unfolding load_ok_def
      using assms(2) fresh valid by (auto simp: 2(2) load_ok_def case_of_def entry_of_def list_all_iff)
  qed
qed

lemma load_all_ok:
  "load_all a fs x skip ds st = Inr st' \<Longrightarrow> load_ok x skip before st \<Longrightarrow> load_ok x skip (before @ ds) st'"
proof (induction ds arbitrary: before st)
  case (Cons d ds)
  then obtain st1 where one: "load_one a fs x skip d st = Inr st1" "load_all a fs x skip ds st1 = Inr st'"
    by (auto simp: rbind_eq_Inr)
  from Cons.IH [OF one(2) load_one_ok [OF one(1) Cons.prems(2)]] show ?case by simp
qed simp

lemma load_batch_load_all:
  assumes "load_batch a r x permit skip s = Inr batch"
  obtains y ds st where "x = PyStr (split_value y)" "guard_split y permit = Inr ()"
    "discover_cases r (ad_limits a) = Inr ds" "load_all a (rt_node r) y skip ds (initial_load s) = Inr st"
    "batch = \<lparr>eb_cases = ld_cases st,
       eb_sidecar = \<lparr>es_manifest_release = MANIFEST_RELEASE, es_manifest_commit = MANIFEST_COMMIT,
         es_entries = ld_entries st, es_schema_version = 1\<rparr>,
       eb_skipped_case_count = ld_skipped st\<rparr>"
  using assms by (auto simp: load_batch_def rbind_eq_Inr parse_split_Inr)

lemma load_batch_ok:
  fixes a :: "'s rcaeval_adapter"
  assumes "load_batch a r x permit skip s = Inr batch"
  shows "\<exists>y ds (st :: 's load_state). x = PyStr (split_value y) \<and> y \<noteq> SS \<and>
    (y = TT \<longrightarrow> (\<exists>p. permit = Some p \<and> permit_genuine p)) \<and>
    discover_cases r (ad_limits a) = Inr ds \<and> load_ok y skip ds st \<and>
    eb_cases batch = ld_cases st \<and> es_entries (eb_sidecar batch) = ld_entries st \<and>
    eb_skipped_case_count batch = ld_skipped st"
proof -
  obtain y ds st where batch: "x = PyStr (split_value y)" "guard_split y permit = Inr ()"
    "discover_cases r (ad_limits a) = Inr ds" "load_all a (rt_node r) y skip ds (initial_load s) = Inr st"
    "batch = \<lparr>eb_cases = ld_cases st,
       eb_sidecar = \<lparr>es_manifest_release = MANIFEST_RELEASE, es_manifest_commit = MANIFEST_COMMIT,
         es_entries = ld_entries st, es_schema_version = 1\<rparr>,
       eb_skipped_case_count = ld_skipped st\<rparr>"
    using load_batch_load_all [OF assms] by blast
  have "load_ok y skip [] (initial_load s)"
    by (simp add: load_ok_def initial_load_def)
  from load_all_ok [OF batch(4) this] have "load_ok y skip ds st" by simp
  with batch show ?thesis
    by (intro exI [of _ y] exI [of _ ds] exI [of _ st]) (auto simp: guard_split_Inr)
qed

text \<open>
  A loaded batch is consistent: the reserved split never loads and the sealed one only with a
  genuine permit; cases and sidecar entries correspond one to one by pairwise different random
  identifiers; every case is valid, every entry describes a discovered directory, and every
  discovered directory is a case or is counted as skipped, which takes the caller's consent.
\<close>

theorem loaded_batch_is_consistent:
  fixes a :: "'s rcaeval_adapter"
  assumes "load_batch a r x permit skip s = Inr batch"
  shows "\<exists>y ds (st :: 's load_state). x = PyStr (split_value y) \<and> y \<noteq> SS \<and>
    (y = TT \<longrightarrow> (\<exists>p. permit = Some p \<and> permit_genuine p)) \<and>
    discover_cases r (ad_limits a) = Inr ds \<and> load_ok y skip ds st \<and>
    eb_cases batch = ld_cases st \<and> es_entries (eb_sidecar batch) = ld_entries st \<and>
    eb_skipped_case_count batch = ld_skipped st"
  by (rule load_batch_ok [OF assms])

section \<open>The sidecar file\<close>

text \<open>
  C28. Writing the sidecar is atomic: the destination keeps its old content or has the whole new
  text, success means the new text and no temporary file, and a temporary file stays behind only
  where deleting it fails, which is reported.
\<close>

theorem sidecar_write_is_atomic:
  assumes "persist_sidecar faults s disk = (result, disk')" "sd_temporary disk = None"
  shows "(sd_destination disk' = sd_destination disk \<or> sd_destination disk' = Some (sidecar_json s)) \<and>
    (result = Inr () \<longrightarrow> sd_destination disk' = Some (sidecar_json s) \<and> sd_temporary disk' = None) \<and>
    (result \<noteq> Inr () \<longrightarrow> result = Inl (load_failed SIDECAR_WRITE_FAILED)) \<and>
    (sd_temporary disk' \<noteq> None \<longrightarrow> sf_unlink_fails faults \<and> result \<noteq> Inr ())"
  using assms by (auto simp: persist_sidecar_def Let_def split: if_splits option.splits)

section \<open>Witnesses\<close>

definition sample_uuid :: "nat \<Rightarrow> uuid" where
  "sample_uuid n = (if n = 0 then 302240678275694148452352 else 302240678275694148452353)"

definition sample_adapter :: "nat rcaeval_adapter" where
  "sample_adapter = \<lparr>ad_limits = sample_limits,
     ad_case_id_factory = (\<lambda>n. (FactoryReturned (CaseId (sample_uuid n)), Suc n))\<rparr>"

lemma sample_ids:
  "uuid_version (sample_uuid n) = Some 4" "sample_uuid 0 \<noteq> sample_uuid (Suc 0)"
  "sample_uuid (Suc 0) \<noteq> sample_uuid 0"
  by (simp_all add: sample_uuid_def uuid_version_def)

lemma sample_files:
  "file_at (rt_node sample_root) (dc_metric_file (sample_discovered ''ad'' ''cpu'' ''data.csv'')) = sample_file sample_metrics"
  "file_at (rt_node sample_root) (dc_injection_file (sample_discovered ''ad'' ''cpu'' ''data.csv'')) = sample_file [49, 53, 10]"
  "file_at (rt_node sample_root) (dc_metric_file (sample_discovered ''cart'' ''mem'' ''simple_metrics.csv'')) = sample_file sample_metrics"
  "file_at (rt_node sample_root) (dc_injection_file (sample_discovered ''cart'' ''mem'' ''simple_metrics.csv'')) = sample_file [49, 53, 10]"
  by (simp_all add: sample_root_def sample_discovered_def sample_case_directory_def sample_file_def lit_def)

lemma sample_load_one:
  assumes "file_at fs (dc_metric_file d) = mf"
    "file_at fs (dc_injection_file d) = jf"
    "CaseId (sample_uuid (ld_factory st)) \<notin> ld_assigned st"
    "\<And>c. parse_case mf jf c sample_limits = Inr pc"
  shows "load_one sample_adapter fs x skip d st =
    (let c = CaseId (sample_uuid (ld_factory st)) in
     Inr (st\<lparr>ld_assigned := insert c (ld_assigned st), ld_factory := Suc (ld_factory st),
       ld_cases := ld_cases st @ [case_of c x pc], ld_entries := ld_entries st @ [entry_of c x d]\<rparr>))"
proof -
  have "0 < UNIQUE_CASE_ID_ATTEMPTS" by (simp add: UNIQUE_CASE_ID_ATTEMPTS_def)
  with assms(3) have "unique_case_id (ad_case_id_factory sample_adapter) UNIQUE_CASE_ID_ATTEMPTS (ld_assigned st) (ld_factory st)
      = (Inr (CaseId (sample_uuid (ld_factory st))), Suc (ld_factory st))"
    by (intro unique_case_id_first) (simp_all add: sample_adapter_def sample_ids)
  moreover have "parse_discovered fs d c (ad_limits sample_adapter) = Inr pc" for c
    using assms(1,2,4) by (simp add: parse_discovered_def sample_adapter_def)
  ultimately show ?thesis
    by (simp add: load_one_def Let_def)
qed

lemma sample_batch:
  "\<exists>batch. load_batch sample_adapter sample_root (PyStr (lit ''OB'')) None False 0 = Inr batch \<and>
     map ic_case_id (eb_cases batch) = [CaseId (sample_uuid 0), CaseId (sample_uuid (Suc 0))]"
proof -
  obtain pc where pc: "\<And>c. parse_case (sample_file sample_metrics) (sample_file [49, 53, 10]) c sample_limits = Inr pc"
    using sample_case by blast
  let ?ds = "[sample_discovered ''ad'' ''cpu'' ''data.csv'', sample_discovered ''cart'' ''mem'' ''simple_metrics.csv'']"
  obtain st where st: "load_all sample_adapter (rt_node sample_root) OB False ?ds (initial_load 0) = Inr st"
    "map ic_case_id (ld_cases st) = [CaseId (sample_uuid 0), CaseId (sample_uuid (Suc 0))]"
    using sample_ids(2,3)
    by (simp add: initial_load_def sample_load_one [OF _ _ _ pc] sample_files Let_def case_of_def)
  have parts: "parse_split (PyStr (lit ''OB'')) = Inr OB" "validate_root sample_root OB = Inr ()"
    "guard_split OB None = Inr ()"
    using parse_split_value [of OB] by (simp_all add: validate_root_def guard_split_def sample_root_def lit_def)
  have found: "discover_cases sample_root (ad_limits sample_adapter) = Inr ?ds"
    using sample_discovery by (simp add: sample_adapter_def)
  show ?thesis
    unfolding load_batch_def parts found rbind_simps st(1) using st(2) by simp
qed

theorem loaded_batch_is_consistent_witness:
  "\<exists>batch (st :: nat load_state). load_batch sample_adapter sample_root (PyStr (lit ''OB'')) None False 0 = Inr batch \<and>
     load_ok OB False [sample_discovered ''ad'' ''cpu'' ''data.csv'', sample_discovered ''cart'' ''mem'' ''simple_metrics.csv''] st \<and>
     eb_cases batch = ld_cases st \<and> length (eb_cases batch) = 2"
proof -
  obtain batch where batch: "load_batch sample_adapter sample_root (PyStr (lit ''OB'')) None False 0 = Inr batch"
    "map ic_case_id (eb_cases batch) = [CaseId (sample_uuid 0), CaseId (sample_uuid (Suc 0))]"
    using sample_batch by (elim exE conjE)
  have "length (map ic_case_id (eb_cases batch)) = 2"
    unfolding batch(2) by simp
  then have "length (eb_cases batch) = 2" by (simp only: length_map)
  moreover have "lit ''OB'' = split_value y \<Longrightarrow> y = OB" for y by (cases y) auto
  moreover have "discover_cases sample_root (ad_limits sample_adapter) =
      Inr [sample_discovered ''ad'' ''cpu'' ''data.csv'', sample_discovered ''cart'' ''mem'' ''simple_metrics.csv'']"
    using sample_discovery by (simp add: sample_adapter_def)
  ultimately show ?thesis
    using loaded_batch_is_consistent [OF batch(1)] batch(1) by (auto simp del: split_value.simps)
qed

theorem sidecar_write_is_atomic_witness:
  "\<exists>result disk. persist_sidecar \<lparr>sf_outside_root = False, sf_create_fails = False, sf_write_fails = Some 3,
       sf_replace_fails = False, sf_unlink_fails = False\<rparr>
       \<lparr>es_manifest_release = [], es_manifest_commit = [], es_entries = [], es_schema_version = 1\<rparr>
       \<lparr>sd_destination = Some [49], sd_temporary = None\<rparr> = (result, disk) \<and>
     result = Inl (load_failed SIDECAR_WRITE_FAILED) \<and> sd_temporary disk = None"
proof -
  let ?f = "\<lparr>sf_outside_root = False, sf_create_fails = False, sf_write_fails = Some 3,
       sf_replace_fails = False, sf_unlink_fails = False\<rparr>"
  let ?s = "\<lparr>es_manifest_release = [], es_manifest_commit = [], es_entries = [], es_schema_version = 1\<rparr>"
  let ?d = "\<lparr>sd_destination = Some [49], sd_temporary = None\<rparr>"
  obtain result disk where run: "persist_sidecar ?f ?s ?d = (result, disk)" by (cases "persist_sidecar ?f ?s ?d")
  then have "result \<noteq> Inr ()" by (auto simp: persist_sidecar_def)
  with sidecar_write_is_atomic [OF run] run show ?thesis by auto
qed

text \<open>
  Two cases that differ in their injection, and a copy of the split whose directories have other
  names, which also reverse the order of the cases.
\<close>

definition labelled_root :: split_root where
  "labelled_root = sample_root\<lparr>rt_node := FsDirectory
       [(lit ''cart_mem'', FsDirectory [(lit ''1'', sample_case_directory ''simple_metrics.csv'' sample_metrics [49, 53, 10])]),
        (lit ''ad_cpu'', FsDirectory [(lit ''1'', sample_case_directory ''data.csv'' sample_metrics [50, 48, 10])])]\<rparr>"

definition renamed_root :: split_root where
  "renamed_root = sample_root\<lparr>rt_node := FsDirectory
       [(lit ''zoo_net'', FsDirectory [(lit ''7'', sample_case_directory ''data.csv'' sample_metrics [50, 48, 10])]),
        (lit ''pay_disk'', FsDirectory [(lit ''3'', sample_case_directory ''data.csv'' sample_metrics [49, 53, 10])])]\<rparr>"

definition renamed_case :: "string \<Rightarrow> string \<Rightarrow> string \<Rightarrow> discovered_case" where
  "renamed_case service fault n =
     \<lparr>dc_directory = [lit service @ 95 # lit fault, lit n],
      dc_metric_file = [lit service @ 95 # lit fault, lit n, lit ''data.csv''],
      dc_injection_file = [lit service @ 95 # lit fault, lit n, lit ''inject_time.txt''],
      dc_source_locator = lit service @ 95 # lit fault @ 47 # lit n,
      dc_root_cause_service = lit service, dc_injected_fault_type = lit fault, dc_repetition = lit n\<rparr>"

lemma labelled_discovery:
  "discover_cases labelled_root sample_limits =
     Inr [sample_discovered ''ad'' ''cpu'' ''data.csv'', sample_discovered ''cart'' ''mem'' ''simple_metrics.csv'']"
  "discover_cases renamed_root sample_limits = Inr [renamed_case ''pay'' ''disk'' ''3'', renamed_case ''zoo'' ''net'' ''7'']"
  by code_simp+

lemma labelled_files:
  "case_files (rt_node labelled_root) (sample_discovered ''ad'' ''cpu'' ''data.csv'') = (sample_file sample_metrics, sample_file [50, 48, 10])"
  "case_files (rt_node labelled_root) (sample_discovered ''cart'' ''mem'' ''simple_metrics.csv'') = (sample_file sample_metrics, sample_file [49, 53, 10])"
  "case_files (rt_node renamed_root) (renamed_case ''pay'' ''disk'' ''3'') = (sample_file sample_metrics, sample_file [49, 53, 10])"
  "case_files (rt_node renamed_root) (renamed_case ''zoo'' ''net'' ''7'') = (sample_file sample_metrics, sample_file [50, 48, 10])"
  by (simp_all add: labelled_root_def renamed_root_def renamed_case_def sample_discovered_def case_files_def
      sample_case_directory_def sample_file_def lit_def)

lemma labelled_batch:
  assumes "discover_cases r sample_limits = Inr [d, e]" "rt_name r = rt_name sample_root" "rt_symlink r = False"
    and d: "\<And>c. parse_case (fst (case_files (rt_node r) d)) (snd (case_files (rt_node r) d)) c sample_limits = Inr p"
    and e: "\<And>c. parse_case (fst (case_files (rt_node r) e)) (snd (case_files (rt_node r) e)) c sample_limits = Inr q"
  shows "\<exists>batch. load_batch sample_adapter r (PyStr (lit ''OB'')) None False 0 = Inr batch \<and>
    eb_cases batch = [case_of (CaseId (sample_uuid 0)) OB p, case_of (CaseId (sample_uuid (Suc 0))) OB q]"
proof -
  obtain st where st: "load_all sample_adapter (rt_node r) OB False [d, e] (initial_load 0) = Inr st"
    "ld_cases st = [case_of (CaseId (sample_uuid 0)) OB p, case_of (CaseId (sample_uuid (Suc 0))) OB q]"
    using sample_ids(2,3) d e
    by (simp add: initial_load_def sample_load_one [OF refl refl] case_files_def Let_def)
  have parts: "parse_split (PyStr (lit ''OB'')) = Inr OB" "validate_root r OB = Inr ()" "guard_split OB None = Inr ()"
    using parse_split_value [of OB] discover_cases_is_dir [OF assms(1)] assms(2,3)
    by (simp_all add: validate_root_def guard_split_def sample_root_def lit_def)
  have found: "discover_cases r (ad_limits sample_adapter) = Inr [d, e]"
    using assms(1) by (simp add: sample_adapter_def)
  show ?thesis
    unfolding load_batch_def parts found rbind_simps st(1) using st(2) by simp
qed

theorem cases_carry_no_label_witness:
  "\<exists>batch batch'. load_batch sample_adapter labelled_root (PyStr (lit ''OB'')) None False 0 = Inr batch \<and>
     load_batch sample_adapter renamed_root (PyStr (lit ''OB'')) None False 0 = Inr batch' \<and>
     mset (map case_content (eb_cases batch)) = mset (map case_content (eb_cases batch')) \<and>
     map case_content (eb_cases batch) \<noteq> map case_content (eb_cases batch') \<and>
     map ic_case_id (eb_cases batch) = map ic_case_id (eb_cases batch')"
proof -
  let ?ds = "[sample_discovered ''ad'' ''cpu'' ''data.csv'', sample_discovered ''cart'' ''mem'' ''simple_metrics.csv'']"
  let ?ds' = "[renamed_case ''pay'' ''disk'' ''3'', renamed_case ''zoo'' ''net'' ''7'']"
  have found: "discover_cases labelled_root (ad_limits sample_adapter) = Inr ?ds"
    "discover_cases renamed_root (ad_limits sample_adapter) = Inr ?ds'"
    using labelled_discovery by (simp_all add: sample_adapter_def)
  have names: "rt_name labelled_root = rt_name renamed_root" "rt_symlink labelled_root = rt_symlink renamed_root"
    "rt_name labelled_root = rt_name sample_root" "rt_symlink labelled_root = False"
    "rt_name renamed_root = rt_name sample_root" "rt_symlink renamed_root = False"
    by (simp_all add: renamed_root_def labelled_root_def sample_root_def)
  have files: "mset (map (case_files (rt_node labelled_root)) ?ds) = mset (map (case_files (rt_node renamed_root)) ?ds')"
    by (simp add: labelled_files)
  obtain p where p: "\<And>c. parse_case (sample_file sample_metrics) (sample_file [49, 53, 10]) c sample_limits = Inr p"
    "win_injection (pc_window p) = 15000000" using sample_case by blast
  obtain q where q: "\<And>c. parse_case (sample_file sample_metrics) (sample_file [50, 48, 10]) c sample_limits = Inr q"
    "win_injection (pc_window q) = 20000000" using later_case by blast
  obtain batch where batch: "load_batch sample_adapter labelled_root (PyStr (lit ''OB'')) None False 0 = Inr batch"
    "eb_cases batch = [case_of (CaseId (sample_uuid 0)) OB q, case_of (CaseId (sample_uuid (Suc 0))) OB p]"
    using labelled_batch [OF labelled_discovery(1) names(3,4), where p = q and q = p] p(1) q(1) by (auto simp: labelled_files)
  obtain batch' where batch': "load_batch sample_adapter renamed_root (PyStr (lit ''OB'')) None False 0 = Inr batch'"
    "eb_cases batch' = [case_of (CaseId (sample_uuid 0)) OB p, case_of (CaseId (sample_uuid (Suc 0))) OB q]"
    using labelled_batch [OF labelled_discovery(2) names(5,6), where p = p and q = q] p(1) q(1) by (auto simp: labelled_files)
  have "map case_content (eb_cases batch) \<noteq> map case_content (eb_cases batch')"
    using p(2) q(2) by (auto simp: batch(2) batch'(2) case_content_def case_of_def)
  moreover note cases_carry_no_label [OF found files names(1,2), where x = "PyStr (lit ''OB'')" and permit = None and skip = False and s = 0]
  ultimately show ?thesis using batch(1) batch'(1) by auto
qed

end
