(* ===== verification/Baseline_Inputs.thy ===== *)
theory Baseline_Inputs
  imports Baseline
begin

text \<open>
  \<^verbatim>\<open>evaluation/harness/baseline_inputs.py\<close>: the scale floor of a signal, derived from its own
  magnitude, and the service a telemetry column belongs to. Both the evaluation harness and the
  Prometheus source build their baseline inputs here.
\<close>

text \<open>The literals \<^verbatim>\<open>1e-9\<close>, \<^verbatim>\<open>0.05\<close> and \<^verbatim>\<open>3.0\<close>.\<close>

definition DEFAULT_ABSOLUTE_EPSILON :: f64 where
  "DEFAULT_ABSOLUTE_EPSILON = F64 False 993 332103651088021"

definition DEFAULT_RELATIVE_FLOOR_FRACTION :: f64 where
  "DEFAULT_RELATIVE_FLOOR_FRACTION = F64 False 1018 2702159776422298"

definition float_three :: f64 where
  "float_three = F64 False 1024 2251799813685248"

definition DEFAULT_EVALUATION_POLICY :: baseline_policy where
  "DEFAULT_EVALUATION_POLICY = \<lparr>bp_minimum_points_per_window = 2, bp_minimum_score = float_three,
     bp_minimum_margin = fzero False, bp_relative_scale_floor = fzero False\<rparr>"

record scale_floor_policy =
  fp_relative_floor_fraction :: f64
  fp_absolute_epsilon :: f64

text \<open>\<^term>\<open>None\<close> is \<^verbatim>\<open>ValueError\<close>.\<close>

definition make_scale_floor_policy :: "f64 \<Rightarrow> f64 \<Rightarrow> scale_floor_policy option" where
  "make_scale_floor_policy fraction epsilon =
     (if \<not> fle (fzero False) fraction then None
      else if \<not> flt (fzero False) epsilon then None
      else Some \<lparr>fp_relative_floor_fraction = fraction, fp_absolute_epsilon = epsilon\<rparr>)"

definition default_scale_floor_policy :: scale_floor_policy where
  "default_scale_floor_policy = \<lparr>fp_relative_floor_fraction = DEFAULT_RELATIVE_FLOOR_FRACTION,
     fp_absolute_epsilon = DEFAULT_ABSOLUTE_EPSILON\<rparr>"

definition floor_for :: "scale_floor_policy \<Rightarrow> metric_signal \<Rightarrow> f64" where
  "floor_for policy s =
     (case median (map (\<lambda>p. fabs (pt_value p)) (sig_points s)) of
        None \<Rightarrow> fp_absolute_epsilon policy
      | Some typical \<Rightarrow> fmax (fp_absolute_epsilon policy) (fmul (fp_relative_floor_fraction policy) typical))"

text \<open>\<^verbatim>\<open>rpartition("_")\<close>: everything before the last underscore, or the whole key without one.\<close>

definition service_of :: "pystr \<Rightarrow> pystr" where
  "service_of key =
     (if 95 \<in> set key then rev (drop 1 (dropWhile (\<lambda>c. c \<noteq> 95) (rev key))) else key)"

definition to_baseline_inputs ::
  "metric_signal list \<Rightarrow> scale_floor_policy option \<Rightarrow> domain_error + signal_baseline_input list" where
  "to_baseline_inputs sigs floor_policy =
     (let policy = (case floor_policy of None \<Rightarrow> default_scale_floor_policy | Some p \<Rightarrow> p) in
      rmap (\<lambda>s. make_signal_baseline_input s (PyNum (PyFloat (floor_for policy s)))) sigs)"

section \<open>Floors are positive\<close>

definition valid_floor_policy :: "scale_floor_policy \<Rightarrow> bool" where
  "valid_floor_policy p \<longleftrightarrow> fle (fzero False) (fp_relative_floor_fraction p) \<and> flt (fzero False) (fp_absolute_epsilon p)"

lemma make_scale_floor_policy_valid: "make_scale_floor_policy f e = Some p \<longleftrightarrow>
    p = \<lparr>fp_relative_floor_fraction = f, fp_absolute_epsilon = e\<rparr> \<and> valid_floor_policy p"
  by (auto simp: make_scale_floor_policy_def valid_floor_policy_def)

lemma default_policy_valid: "valid_floor_policy default_scale_floor_policy"
  by (simp add: valid_floor_policy_def default_scale_floor_policy_def DEFAULT_RELATIVE_FLOOR_FRACTION_def
      DEFAULT_ABSOLUTE_EPSILON_def fle_def flt_def isnan_def fzero_def fval_def fmag_def fsig_def)

lemma flt_trans: "flt x y \<Longrightarrow> flt y z \<Longrightarrow> flt x z"
  by (auto simp: flt_def)

lemma floor_for_positive:
  assumes "valid_floor_policy p"
  shows "flt (fzero False) (floor_for p s) \<and> fle (fp_absolute_epsilon p) (floor_for p s)"
proof -
  have "flt (fzero False) (fp_absolute_epsilon p)"
    using assms by (simp add: valid_floor_policy_def)
  then show ?thesis
    by (auto simp: floor_for_def fmax_def fle_def flt_def split: option.splits)
qed

lemma fneg_zero_order: "flt (fzero False) x \<Longrightarrow> \<not> fle x (fzero False)"
  by (auto simp: flt_def fle_def)

lemma make_input_of_floor:
  assumes "valid_floor_policy p"
  shows "make_signal_baseline_input s (PyNum (PyFloat (floor_for p s))) =
    (if isfinite (floor_for p s) then Inr \<lparr>in_signal = s, in_absolute_scale_floor = floor_for p s\<rparr>
     else Inl InvalidBaselineConfigurationError)"
  using floor_for_positive [OF assms, of s]
  by (auto simp: make_signal_baseline_input_def finite_nonnegative_def fneg_zero_order fle_def flt_def)

text \<open>
  Every derived floor is strictly positive and at least the epsilon, so the inputs the baseline
  requires are built, one per signal and in order, unless the floor of some signal overflows.
\<close>

theorem derived_floors_are_valid:
  assumes "valid_floor_policy p"
  shows "if list_all (\<lambda>s. isfinite (floor_for p s)) sigs
    then \<exists>inputs. to_baseline_inputs sigs (Some p) = Inr inputs \<and> map in_signal inputs = sigs \<and>
      list_all (\<lambda>i. positive_finite (in_absolute_scale_floor i) \<and>
        fle (fp_absolute_epsilon p) (in_absolute_scale_floor i)) inputs
    else to_baseline_inputs sigs (Some p) = Inl InvalidBaselineConfigurationError"
proof (induction sigs)
  case (Cons s sigs)
  show ?case
    using Cons floor_for_positive [OF assms, of s]
    by (cases "list_all (\<lambda>s. isfinite (floor_for p s)) sigs")
      (auto simp: to_baseline_inputs_def make_input_of_floor [OF assms] positive_finite_def flt_def)
qed (simp add: to_baseline_inputs_def)

text \<open>Of the values 1 and 10 the median is 5.5, which is the floor where the fraction is 1.\<close>

theorem derived_floors_are_valid_witness:
  "\<exists>inputs. to_baseline_inputs [sample_signal ''latency'' float_one float_ten]
       (Some \<lparr>fp_relative_floor_fraction = float_one, fp_absolute_epsilon = float_one\<rparr>) = Inr inputs \<and>
     map in_absolute_scale_floor inputs = [F64 False 1025 1688849860263936]"
proof -
  let ?p = "\<lparr>fp_relative_floor_fraction = float_one, fp_absolute_epsilon = float_one\<rparr>"
  have floor: "floor_for ?p (sample_signal ''latency'' float_one float_ten) = F64 False 1025 1688849860263936"
    by code_simp
  have finite: "isfinite (F64 False 1025 1688849860263936)" by code_simp
  have valid: "valid_floor_policy ?p"
    by (simp add: valid_floor_policy_def fle_def flt_def isnan_def float_one_def fzero_def fval_def fmag_def fsig_def)
  note input = make_input_of_floor [OF valid, of "sample_signal ''latency'' float_one float_ten", unfolded floor]
  show ?thesis
    using derived_floors_are_valid [OF valid, of "[sample_signal ''latency'' float_one float_ten]"] finite
    by (auto simp: to_baseline_inputs_def input floor)
qed

end
