(* ===== verification/Float_Repr.thy ===== *)
theory Float_Repr
  imports Float64 Canonical_Json
begin

text \<open>
  Python's conversions of a \<^verbatim>\<open>float\<close> to text and to shorter decimals: \<^verbatim>\<open>repr(x)\<close>, the shortest digits
  that read back as the same number, \<^verbatim>\<open>format(x, ".3f")\<close>, \<^verbatim>\<open>round(x, n)\<close>, and the quotient of two
  integers. A decimal is a whole number of digits times a power of ten; seventeen digits always
  suffice.
\<close>

text \<open>\<^verbatim>\<open>n / d\<close> of two integers with a positive divisor.\<close>

definition int_ratio :: "int \<Rightarrow> int \<Rightarrow> f64" where
  "int_ratio n d = fround (n < 0) (\<bar>of_int n\<bar> / of_int d)"

text \<open>\<^verbatim>\<open>timedelta.total_seconds()\<close> of a number of microseconds.\<close>

definition duration_seconds :: "int \<Rightarrow> f64" where
  "duration_seconds us = int_ratio us 1000000"

section \<open>Shortest digits\<close>

text \<open>The power of ten below a positive number.\<close>

definition ilog10 :: "rat \<Rightarrow> int" where
  "ilog10 q =
     (if 1 \<le> q then int (length (dec_nat (nat \<lfloor>q\<rfloor>))) - 1
      else - int (length (dec_nat (nat (\<lceil>1 / q\<rceil> - 1)))))"

text \<open>The decimals of a number of digits beside a value that read back as it, the nearer one first.\<close>

definition decimals_of :: "f64 \<Rightarrow> nat \<Rightarrow> (nat \<times> int) list" where
  "decimals_of x n =
     (let q = fmag x; k = ilog10 q + 1 - int n; s = q / 10 powi k;
          lower = nat \<lfloor>s\<rfloor>; upper = nat \<lceil>s\<rceil>
      in map (\<lambda>c. (c, k)) (filter (\<lambda>c. fround (fsign x) (of_nat c * 10 powi k) = x)
           (if s - of_nat lower \<le> of_nat upper - s then [lower, upper] else [upper, lower])))"

definition shortest_decimal :: "f64 \<Rightarrow> nat \<times> int" where
  "shortest_decimal x =
     (case concat (map (decimals_of x) [1..<18]) of
        [] \<Rightarrow> (0, 0)
      | d # _ \<Rightarrow> d)"

section \<open>repr\<close>

definition zeros :: "int \<Rightarrow> pystr" where
  "zeros n = replicate (nat n) 48"

definition strip_zeros :: "pystr \<Rightarrow> pystr" where
  "strip_zeros ds = rev (dropWhile (\<lambda>c. c = 48) (rev ds))"

definition exponent_text :: "int \<Rightarrow> pystr" where
  "exponent_text e =
     101 # (if e < 0 then 45 else 43) # (if \<bar>e\<bar> < 10 then [48] else []) @ dec_nat (nat \<bar>e\<bar>)"

text \<open>The digits with the decimal point after the given number of them.\<close>

definition place_point :: "pystr \<Rightarrow> int \<Rightarrow> pystr" where
  "place_point ds point =
     (if point \<le> -4 \<or> 16 < point then
        take 1 ds @ (if length ds = 1 then [] else 46 # drop 1 ds) @ exponent_text (point - 1)
      else if point \<le> 0 then [48, 46] @ zeros (- point) @ ds
      else if int (length ds) \<le> point then ds @ zeros (point - int (length ds)) @ [46, 48]
      else take (nat point) ds @ 46 # drop (nat point) ds)"

definition float_repr :: "f64 \<Rightarrow> pystr" where
  "float_repr x =
     (if isnan x then lit ''nan''
      else (if fsign x then [45] else []) @
        (if isinf x then lit ''inf''
         else if iszero x then lit ''0.0''
         else case shortest_decimal x of (c, k) \<Rightarrow>
           place_point (strip_zeros (dec_nat c)) (int (length (dec_nat c)) + k)))"

text \<open>\<^verbatim>\<open>json.dumps\<close> of a \<^verbatim>\<open>float\<close>.\<close>

definition json_float :: "f64 \<Rightarrow> pystr" where
  "json_float x =
     (if isnan x then lit ''NaN''
      else if isinf x then (if fsign x then lit ''-Infinity'' else lit ''Infinity'')
      else float_repr x)"

section \<open>Fixed decimals\<close>

definition rounded_digits :: "nat \<Rightarrow> f64 \<Rightarrow> nat" where
  "rounded_digits n x = nat (rnd_even (fmag x * 10 ^ n))"

text \<open>\<^verbatim>\<open>format(x, ".nf")\<close> of a finite number.\<close>

definition format_fixed :: "nat \<Rightarrow> f64 \<Rightarrow> pystr" where
  "format_fixed n x =
     (let d = rounded_digits n x in
      (if fsign x then [45] else []) @ dec_nat (d div 10 ^ n) @ 46 # dec_fixed n (d mod 10 ^ n))"

definition round_digits :: "nat \<Rightarrow> f64 \<Rightarrow> f64" where
  "round_digits n x = (if isfinite x then fround (fsign x) (of_nat (rounded_digits n x) / 10 ^ n) else x)"

end
