(* ===== verification/Scoring.thy ===== *)
theory Scoring
  imports Float_Repr
begin

text \<open>
  \<^verbatim>\<open>evaluation/harness/scoring.py\<close>: the rank of the true service in a prediction and the aggregate
  metrics. Ratios of counts are Python's true division of integers, which rounds the exact
  quotient once; the reciprocal ranks are summed as \<^verbatim>\<open>sum\<close> does since Python 3.12, with Neumaier's
  compensation. The artifact rounds its rates to six decimals and prints them with \<^verbatim>\<open>repr\<close>.
\<close>

section \<open>Scores\<close>

record case_score =
  cs_abstained :: bool
  cs_hit_rank :: "nat option"
  cs_predicted_service_count :: nat
  cs_invalid_evidence_id_count :: int

definition top1 :: "case_score \<Rightarrow> bool" where
  "top1 s \<longleftrightarrow> cs_hit_rank s = Some 1"

definition top3 :: "case_score \<Rightarrow> bool" where
  "top3 s \<longleftrightarrow> (case cs_hit_rank s of None \<Rightarrow> False | Some r \<Rightarrow> r \<le> 3)"

definition reciprocal_rank :: "case_score \<Rightarrow> f64" where
  "reciprocal_rank s = (case cs_hit_rank s of None \<Rightarrow> fzero False | Some r \<Rightarrow> int_ratio 1 (int r))"

text \<open>The loop with \<^verbatim>\<open>break\<close>: the first position of the service, counted from 1.\<close>

primrec hit_rank_from :: "nat \<Rightarrow> 'a \<Rightarrow> 'a list \<Rightarrow> nat option" where
  "hit_rank_from i truth [] = None"
| "hit_rank_from i truth (service # ranking) =
     (if service = truth then Some i else hit_rank_from (Suc i) truth ranking)"

text \<open>\<^term>\<open>None\<close> is \<^verbatim>\<open>ValueError\<close>.\<close>

definition score_case :: "pystr list \<Rightarrow> pystr \<Rightarrow> bool \<Rightarrow> int \<Rightarrow> case_score option" where
  "score_case predicted truth abstained invalid =
     (if invalid < 0 then None
      else let ranking = (if abstained then [] else predicted) in
        Some \<lparr>cs_abstained = abstained, cs_hit_rank = hit_rank_from 1 truth ranking,
              cs_predicted_service_count = length ranking, cs_invalid_evidence_id_count = invalid\<rparr>)"

section \<open>Aggregation\<close>

record evaluation_summary =
  su_case_count :: nat
  su_abstained_count :: nat
  su_answered_count :: nat
  su_abstention_rate :: f64
  su_top1_accuracy :: f64
  su_top3_accuracy :: f64
  su_mrr :: f64
  su_top1_accuracy_answered :: f64
  su_top3_accuracy_answered :: f64
  su_mrr_answered :: f64
  su_invalid_evidence_id_count :: int

definition count_ratio :: "nat \<Rightarrow> nat \<Rightarrow> f64" where
  "count_ratio n d = (if d = 0 then fzero False else int_ratio (int n) (int d))"

text \<open>One step of the compensated sum, and its result.\<close>

definition neumaier_step :: "f64 \<times> f64 \<Rightarrow> f64 \<Rightarrow> f64 \<times> f64" where
  "neumaier_step acc x =
     (case acc of (f, c) \<Rightarrow>
        let t = fadd f x in
        (t, fadd c (if fle (fabs x) (fabs f) then fadd (fsub f t) x else fadd (fsub x t) f)))"

definition float_sum :: "f64 list \<Rightarrow> f64" where
  "float_sum xs =
     (case xs of
        [] \<Rightarrow> fzero False
      | x # rest \<Rightarrow>
          (case foldl neumaier_step (fadd (fzero False) x, fzero False) rest of
             (f, c) \<Rightarrow> if \<not> iszero c \<and> isfinite c then fadd f c else f))"

text \<open>\<^verbatim>\<open>_ratio\<close> of a float; the count is exact as a float.\<close>

definition float_ratio :: "f64 \<Rightarrow> nat \<Rightarrow> f64" where
  "float_ratio x d =
     (if d = 0 then fzero False
      else case float_of_int (int d) of
             None \<Rightarrow> fzero False
           | Some y \<Rightarrow> (case fdiv x y of None \<Rightarrow> fzero False | Some r \<Rightarrow> r))"

definition aggregate :: "case_score list \<Rightarrow> evaluation_summary" where
  "aggregate scores =
     (let case_count = length scores;
          abstained_count = length (filter cs_abstained scores);
          answered = filter (\<lambda>s. \<not> cs_abstained s) scores;
          answered_count = case_count - abstained_count
      in \<lparr>su_case_count = case_count, su_abstained_count = abstained_count, su_answered_count = answered_count,
          su_abstention_rate = count_ratio abstained_count case_count,
          su_top1_accuracy = count_ratio (length (filter top1 scores)) case_count,
          su_top3_accuracy = count_ratio (length (filter top3 scores)) case_count,
          su_mrr = float_ratio (float_sum (map reciprocal_rank scores)) case_count,
          su_top1_accuracy_answered = count_ratio (length (filter top1 answered)) answered_count,
          su_top3_accuracy_answered = count_ratio (length (filter top3 answered)) answered_count,
          su_mrr_answered = float_ratio (float_sum (map reciprocal_rank answered)) answered_count,
          su_invalid_evidence_id_count = sum_list (map cs_invalid_evidence_id_count scores)\<rparr>)"

section \<open>The artifact\<close>

datatype summary_value = SummaryInt int | SummaryFloat f64

definition summary_payload :: "evaluation_summary \<Rightarrow> (pystr \<times> summary_value) list" where
  "summary_payload s =
     [(lit ''case_count'', SummaryInt (int (su_case_count s))),
      (lit ''abstained_count'', SummaryInt (int (su_abstained_count s))),
      (lit ''answered_count'', SummaryInt (int (su_answered_count s))),
      (lit ''abstention_rate'', SummaryFloat (round_digits 6 (su_abstention_rate s))),
      (lit ''top1_accuracy'', SummaryFloat (round_digits 6 (su_top1_accuracy s))),
      (lit ''top3_accuracy'', SummaryFloat (round_digits 6 (su_top3_accuracy s))),
      (lit ''mrr'', SummaryFloat (round_digits 6 (su_mrr s))),
      (lit ''top1_accuracy_answered'', SummaryFloat (round_digits 6 (su_top1_accuracy_answered s))),
      (lit ''top3_accuracy_answered'', SummaryFloat (round_digits 6 (su_top3_accuracy_answered s))),
      (lit ''mrr_answered'', SummaryFloat (round_digits 6 (su_mrr_answered s))),
      (lit ''invalid_evidence_id_count'', SummaryInt (su_invalid_evidence_id_count s))]"

fun summary_value_text :: "summary_value \<Rightarrow> pystr" where
  "summary_value_text (SummaryInt i) = dec_int i"
| "summary_value_text (SummaryFloat x) = json_float x"

text \<open>The items in the order of their keys, which are distinct, separated by commas.\<close>

definition summary_json :: "evaluation_summary \<Rightarrow> pystr" where
  "summary_json s =
     123 # concat (case map (\<lambda>(k, v). enc_str k @ 58 # summary_value_text v) (sort_key fst (summary_payload s)) of
       [] \<Rightarrow> [] | item # rest \<Rightarrow> item # map (Cons 44) rest) @ [125, 10]"

section \<open>Properties of scores\<close>

lemma hit_rank_from_None: "hit_rank_from i truth xs = None \<longleftrightarrow> truth \<notin> set xs"
  by (induction xs arbitrary: i) auto

lemma hit_rank_from_Some:
  "hit_rank_from i truth xs = Some r \<longleftrightarrow> (\<exists>k < length xs. r = i + k \<and> xs ! k = truth \<and> truth \<notin> set (take k xs))"
proof (induction xs arbitrary: i)
  case (Cons x xs)
  show ?case
  proof (cases "x = truth")
    case True
    have "(\<exists>k < length (x # xs). r = i + k \<and> (x # xs) ! k = truth \<and> truth \<notin> set (take k (x # xs))) \<longleftrightarrow> r = i"
      using True by (auto simp: take_Cons' split: if_splits)
    with True show ?thesis by auto
  next
    case False
    have "(\<exists>k < length (x # xs). r = i + k \<and> (x # xs) ! k = truth \<and> truth \<notin> set (take k (x # xs))) \<longleftrightarrow>
        (\<exists>k < length xs. r = Suc i + k \<and> xs ! k = truth \<and> truth \<notin> set (take k xs))" (is "?l \<longleftrightarrow> ?r")
    proof
      assume ?l
      then obtain k where "k < length (x # xs)" "r = i + k" "(x # xs) ! k = truth" "truth \<notin> set (take k (x # xs))"
        by blast
      with False show ?r by (cases k) auto
    next
      assume ?r
      then obtain k where "k < length xs" "r = Suc i + k" "xs ! k = truth" "truth \<notin> set (take k xs)" by blast
      with False show ?l by (intro exI [of _ "Suc k"]) auto
    qed
    with False Cons.IH [of "Suc i"] show ?thesis by simp
  qed
qed simp

lemma score_case_abstained:
  "score_case xs truth abstained n = Some s \<Longrightarrow> cs_abstained s = abstained \<and> (abstained \<longrightarrow> cs_hit_rank s = None)"
  by (auto simp: score_case_def Let_def split: if_splits)

text \<open>
  The score of a prediction: an abstention never hits; otherwise the hit rank is the position,
  counted from 1, of the first occurrence of the true service, and there is none exactly if the
  service was not predicted. A rank is at most the number of predictions.
\<close>

theorem score_is_first_rank:
  assumes "score_case predicted truth abstained invalid = Some s"
  shows "(cs_hit_rank s = None \<longleftrightarrow> abstained \<or> truth \<notin> set predicted) \<and>
    (\<forall>r. cs_hit_rank s = Some r \<longrightarrow> 1 \<le> r \<and> r \<le> length predicted \<and> predicted ! (r - 1) = truth \<and>
       truth \<notin> set (take (r - 1) predicted)) \<and>
    (top1 s \<longrightarrow> top3 s) \<and> 0 \<le> cs_invalid_evidence_id_count s"
  using assms
  by (auto simp: score_case_def Let_def hit_rank_from_None hit_rank_from_Some top1_def top3_def split: if_splits)

theorem score_is_first_rank_witness:
  "\<exists>s. score_case [[97], [98], [99]] [98] False 0 = Some s \<and> cs_hit_rank s = Some 2 \<and> \<not> top1 s \<and> top3 s"
proof -
  obtain s where s: "score_case [[97], [98], [99]] [98] False 0 = Some s" "cs_hit_rank s = Some 2"
    by (simp add: score_case_def)
  with score_is_first_rank [OF s(1)] show ?thesis by (auto simp: top1_def top3_def)
qed

section \<open>Properties of summaries\<close>

definition scores_ok :: "case_score list \<Rightarrow> bool" where
  "scores_ok scores \<longleftrightarrow> list_all (\<lambda>s. cs_abstained s \<longrightarrow> cs_hit_rank s = None) scores"

lemma filter_answered:
  "scores_ok scores \<Longrightarrow> filter top1 (filter (\<lambda>s. \<not> cs_abstained s) scores) = filter top1 scores"
  "scores_ok scores \<Longrightarrow> filter top3 (filter (\<lambda>s. \<not> cs_abstained s) scores) = filter top3 scores"
  by (auto simp: scores_ok_def list_all_iff filter_filter top1_def top3_def intro!: filter_cong)

lemma int_ratio_value:
  assumes "n \<le> d"
  shows "isfinite (int_ratio (int n) (int d))" "\<not> fsign (int_ratio (int n) (int d))"
    "fval (int_ratio (int n) (int d)) = fmag (fround False (of_nat n / of_nat d))"
proof -
  have "(of_nat n / of_nat d :: rat) \<le> 1"
    using assms by (cases "d = 0") (simp_all add: divide_le_eq_1)
  also have "1 \<le> max_finite" by (simp add: power_int_def)
  finally show "isfinite (int_ratio (int n) (int d))"
    using fround_exact_value(1) [of "of_nat n / of_nat d"] by (simp add: int_ratio_def)
  show "\<not> fsign (int_ratio (int n) (int d))" by (simp add: int_ratio_def)
  then show "fval (int_ratio (int n) (int d)) = fmag (fround False (of_nat n / of_nat d))"
    by (simp add: fval_def int_ratio_def)
qed

lemma count_ratio_mono:
  assumes "n \<le> d" "n' \<le> d'" "n * d' \<le> n' * d" "d' = 0 \<longrightarrow> n = 0"
  shows "fle (count_ratio n d) (count_ratio n' d')"
proof (cases "d = 0 \<or> d' = 0")
  case True
  have zero: "fval (int_ratio 0 (int d)) = 0" "\<not> isnan (int_ratio 0 (int d))" for d :: nat
    by (simp_all add: int_ratio_def fround_def)
  have "0 \<le> fval (int_ratio (int n') (int d'))" "\<not> isnan (int_ratio (int n') (int d'))"
    using int_ratio_value [OF assms(2)] by (auto simp: int_ratio_def fmag_def fsig_def)
  with True assms(1,4) zero show ?thesis
    by (auto simp: count_ratio_def fle_def)
next
  case False
  have "(of_nat n / of_nat d :: rat) \<le> of_nat n' / of_nat d'"
    using assms(3) False by (simp add: frac_le_eq divide_le_0_iff) (simp add: field_simps flip: of_nat_mult)
  moreover have "(of_nat n' / of_nat d' :: rat) \<le> max_finite"
  proof -
    have "(of_nat n' / of_nat d' :: rat) \<le> 1" using assms(2) by (cases "d' = 0") (simp_all add: divide_le_eq_1)
    also have "1 \<le> max_finite" by (simp add: power_int_def)
    finally show ?thesis .
  qed
  ultimately have "fval (int_ratio (int n) (int d)) \<le> fval (int_ratio (int n') (int d'))"
    unfolding int_ratio_value(3) [OF assms(1)] int_ratio_value(3) [OF assms(2)]
    by (intro fround_mono) auto
  with False show ?thesis
    by (simp add: count_ratio_def fle_def int_ratio_def)
qed

lemma count_ratio_one: "count_ratio 1 1 = float_one"
  by code_simp

lemma count_ratio_bounds:
  "n \<le> d \<Longrightarrow> fle (fzero False) (count_ratio n d)" "n \<le> d \<Longrightarrow> fle (count_ratio n d) float_one"
  using count_ratio_mono [of 0 0 n d] count_ratio_mono [of n d 1 1] count_ratio_one
  by (auto simp: count_ratio_def)

lemma top1_top3: "length (filter top1 xs) \<le> length (filter top3 xs)"
  by (induction xs) (auto simp: top1_def top3_def)

text \<open>
  The rates of a summary are consistent, rounding included: counts partition the cases, each
  rate lies between 0 and 1, top-3 is at least top-1, and counting abstentions as misses never
  raises a rate above the one over the answered cases.
\<close>

theorem summary_rates_are_consistent:
  assumes "scores_ok scores"
  shows "(let su = aggregate scores in
    su_abstained_count su + su_answered_count su = su_case_count su \<and>
    fle (fzero False) (su_abstention_rate su) \<and> fle (su_abstention_rate su) float_one \<and>
    fle (fzero False) (su_top1_accuracy su) \<and> fle (su_top1_accuracy su) (su_top3_accuracy su) \<and>
    fle (su_top1_accuracy su) (su_top1_accuracy_answered su) \<and>
    fle (su_top3_accuracy su) (su_top3_accuracy_answered su) \<and>
    fle (su_top1_accuracy_answered su) (su_top3_accuracy_answered su) \<and>
    fle (su_top3_accuracy_answered su) float_one)"
proof -
  let ?answered = "filter (\<lambda>s. \<not> cs_abstained s) scores"
  have count: "length scores - length (filter cs_abstained scores) = length ?answered"
    using sum_length_filter_compl [of cs_abstained scores] by simp
  have le: "length (filter top1 scores) \<le> length (filter top3 scores)" by (rule top1_top3)
  have hits: "length (filter top3 scores) \<le> length ?answered"
    using filter_answered(2) [OF assms] length_filter_le [of top3 ?answered] by simp
  have all: "length ?answered \<le> length scores" "length (filter cs_abstained scores) \<le> length scores"
    by (rule length_filter_le)+
  have "length (filter cs_abstained scores) + length ?answered = length scores"
    by (rule sum_length_filter_compl)
  with le hits all show ?thesis
    by (auto simp: aggregate_def Let_def filter_answered [OF assms] count
        simp del: filter_filter intro!: count_ratio_bounds count_ratio_mono mult_le_mono)
qed

theorem summary_rates_are_consistent_witness:
  "fle (su_top1_accuracy (aggregate [\<lparr>cs_abstained = False, cs_hit_rank = Some 1, cs_predicted_service_count = 1,
       cs_invalid_evidence_id_count = 0\<rparr>, \<lparr>cs_abstained = True, cs_hit_rank = None,
       cs_predicted_service_count = 0, cs_invalid_evidence_id_count = 0\<rparr>]))
     (su_top1_accuracy_answered (aggregate [\<lparr>cs_abstained = False, cs_hit_rank = Some 1, cs_predicted_service_count = 1,
       cs_invalid_evidence_id_count = 0\<rparr>, \<lparr>cs_abstained = True, cs_hit_rank = None,
       cs_predicted_service_count = 0, cs_invalid_evidence_id_count = 0\<rparr>]))"
proof -
  have "scores_ok [\<lparr>cs_abstained = False, cs_hit_rank = Some 1, cs_predicted_service_count = 1,
       cs_invalid_evidence_id_count = 0\<rparr>, \<lparr>cs_abstained = True, cs_hit_rank = None,
       cs_predicted_service_count = 0, cs_invalid_evidence_id_count = 0\<rparr>]"
    by (simp add: scores_ok_def)
  from summary_rates_are_consistent [OF this] show ?thesis by (simp add: Let_def)
qed

end
