(* ===== verification/Llm_Parsing.thy ===== *)
theory Llm_Parsing
  imports Json_Loads Serialization
begin

text \<open>
  \<^verbatim>\<open>llm/errors.py\<close>, \<^verbatim>\<open>llm/client.py\<close>, \<^verbatim>\<open>llm/fake.py\<close> and \<^verbatim>\<open>llm/parsing.py\<close>: the provider boundary
  and the parser of untrusted proposals. A provider is a function of the request, with the
  outcomes the callers tell apart. The parser works on the value of \<open>loads\<close>; the interpreter's
  recursion limit is its first argument.
\<close>

section \<open>Errors\<close>

datatype llm_error =
    MalformedProposalError
  | EmptyProposalError
  | ProposalSchemaError
  | UnauthorizedEntityError
  | TooManyPredicatesError
  | ProposalTooLargeError
  | ProviderTimeoutError
  | ProviderUnavailableError
  | ProviderResponseError
  | ProposalsExhaustedError

fun llm_error_code :: "llm_error \<Rightarrow> pystr" where
  "llm_error_code MalformedProposalError = lit ''malformed_proposal''"
| "llm_error_code EmptyProposalError = lit ''empty_proposal''"
| "llm_error_code ProposalSchemaError = lit ''proposal_schema_invalid''"
| "llm_error_code UnauthorizedEntityError = lit ''unauthorized_entity''"
| "llm_error_code TooManyPredicatesError = lit ''too_many_predicates''"
| "llm_error_code ProposalTooLargeError = lit ''proposal_too_large''"
| "llm_error_code ProviderTimeoutError = lit ''provider_timeout''"
| "llm_error_code ProviderUnavailableError = lit ''provider_unavailable''"
| "llm_error_code ProviderResponseError = lit ''provider_response_invalid''"
| "llm_error_code ProposalsExhaustedError = lit ''proposals_exhausted''"

text \<open>The subclasses of \<^verbatim>\<open>LLMValidationError\<close>.\<close>

definition llm_validation_error :: "llm_error \<Rightarrow> bool" where
  "llm_validation_error e \<longleftrightarrow> e \<in> {MalformedProposalError, EmptyProposalError, ProposalSchemaError,
     UnauthorizedEntityError, TooManyPredicatesError, ProposalTooLargeError}"

text \<open>What leaves the parser: an \<^verbatim>\<open>LLMError\<close>, or a \<^verbatim>\<open>ValueError\<close> of the standard library.\<close>

datatype parse_failure = Rejected llm_error | PlainValueError

section \<open>Requests and proposals\<close>

record hypothesis_request =
  rq_tenant :: tenant_id
  rq_incident :: incident_id
  rq_run :: run_id
  rq_allowed_signals :: "signal_key set"

record llm_proposal =
  lp_raw_json :: pystr
  lp_model :: "pystr option"
  lp_prompt_tokens :: "int option"
  lp_completion_tokens :: "int option"

text \<open>
  A call of a client returns a proposal, raises an \<^verbatim>\<open>LLMError\<close>, is cut off by the caller's
  deadline (\<^verbatim>\<open>TimeoutError\<close>), or raises anything else.
\<close>

datatype llm_outcome = Proposed llm_proposal | LlmRaised llm_error | DeadlineExceeded | LlmCrashed

record fake_llm_client =
  fake_responses :: "pystr list"
  fake_index :: nat

definition fake_propose :: "fake_llm_client \<Rightarrow> hypothesis_request \<Rightarrow> llm_outcome \<times> fake_llm_client" where
  "fake_propose c request =
     (if length (fake_responses c) \<le> fake_index c then (LlmRaised ProposalsExhaustedError, c)
      else (Proposed \<lparr>lp_raw_json = fake_responses c ! fake_index c, lp_model = None,
              lp_prompt_tokens = None, lp_completion_tokens = None\<rparr>,
            c\<lparr>fake_index := fake_index c + 1\<rparr>))"

section \<open>Parsing\<close>

definition MAX_PROPOSAL_CHARS :: nat where
  "MAX_PROPOSAL_CHARS = 65536"

text \<open>Every \<^verbatim>\<open>KeyError\<close>, \<^verbatim>\<open>TypeError\<close> and \<^verbatim>\<open>ValueError\<close> of the construction becomes one error.\<close>

definition schema :: "'e + 'a \<Rightarrow> llm_error + 'a" where
  "schema m = (case m of Inl _ \<Rightarrow> Inl ProposalSchemaError | Inr a \<Rightarrow> Inr a)"

definition item_of :: "(pystr \<times> pyjson) list \<Rightarrow> string \<Rightarrow> llm_error + pyjson" where
  "item_of d k = (case map_of d (lit k) of None \<Rightarrow> Inl ProposalSchemaError | Some v \<Rightarrow> Inr v)"

definition pyval_of :: "pyjson \<Rightarrow> pyval" where
  "pyval_of v = (case v of LStr s \<Rightarrow> PyStr s | _ \<Rightarrow> PyOther)"

definition text_of :: "pyjson \<Rightarrow> llm_error + pystr" where
  "text_of v = (case v of LStr s \<Rightarrow> Inr s | _ \<Rightarrow> Inl ProposalSchemaError)"

definition member_of :: "(string \<times> 'a) list \<Rightarrow> pyjson \<Rightarrow> llm_error + 'a" where
  "member_of members v =
     (case v of
        LStr s \<Rightarrow> (case find (\<lambda>m. lit (fst m) = s) members of None \<Rightarrow> Inl ProposalSchemaError | Some m \<Rightarrow> Inr (snd m))
      | _ \<Rightarrow> Inl ProposalSchemaError)"

definition direction_of :: "pyjson \<Rightarrow> llm_error + expected_direction" where
  "direction_of = member_of [(''increase'', EXPECT_INCREASE), (''decrease'', EXPECT_DECREASE)]"

definition semantics_of :: "pyjson \<Rightarrow> llm_error + hypothesis_semantics" where
  "semantics_of = member_of [(''descriptive'', DESCRIPTIVE), (''causal'', CAUSAL)]"

definition composition_of :: "pyjson \<Rightarrow> llm_error + hypothesis_composition" where
  "composition_of = member_of [(''all'', COMPOSE_ALL), (''any'', COMPOSE_ANY)]"

definition build_predicate :: "pyjson \<Rightarrow> llm_error + metric_shift_predicate" where
  "build_predicate entry =
     (case entry of
        LDict d \<Rightarrow>
          rbind (item_of d ''predicate_id'') (\<lambda>pid.
          rbind (item_of d ''signal_key'') (\<lambda>key.
          rbind (schema (make_signal_key (pyval_of key))) (\<lambda>signal.
          rbind (item_of d ''expected_direction'') (\<lambda>dir.
          rbind (direction_of dir) (\<lambda>direction.
          rbind (text_of pid) (\<lambda>predicate_id.
          schema (make_metric_shift_predicate predicate_id signal direction)))))))
      | _ \<Rightarrow> Inl ProposalSchemaError)"

definition build_document ::
  "(pystr \<times> pyjson) list \<Rightarrow> metric_shift_predicate list \<Rightarrow> llm_error + hypothesis_document" where
  "build_document d predicates =
     rbind (item_of d ''hypothesis_id'') (\<lambda>hid.
     rbind (item_of d ''tenant_id'') (\<lambda>t.
     rbind (schema (make_tenant_id (pyval_of t))) (\<lambda>tenant.
     rbind (item_of d ''incident_id'') (\<lambda>i.
     rbind (schema (make_incident_id (pyval_of i))) (\<lambda>incident.
     rbind (item_of d ''run_id'') (\<lambda>r.
     rbind (schema (make_run_id (pyval_of r))) (\<lambda>run.
     rbind (item_of d ''semantics'') (\<lambda>s.
     rbind (semantics_of s) (\<lambda>semantics.
     rbind (item_of d ''composition'') (\<lambda>c.
     rbind (composition_of c) (\<lambda>composition.
     rbind (text_of hid) (\<lambda>hypothesis_id.
     schema (rbind (make_hypothesis_document hypothesis_id tenant incident run semantics composition predicates)
       validate_hypothesis_document)))))))))))))"

definition parse_object ::
  "(pystr \<times> pyjson) list \<Rightarrow> signal_key set \<Rightarrow> llm_error + hypothesis_document" where
  "parse_object d allowed =
     (case map_of d (lit ''predicates'') of
        Some (LList entries) \<Rightarrow>
          if MAX_PREDICATES < length entries then Inl TooManyPredicatesError
          else
            rbind (rmap build_predicate entries) (\<lambda>predicates.
            rbind (build_document d predicates) (\<lambda>document.
            if list_all (\<lambda>p. mp_signal_key p \<in> allowed) (hd_predicates document) then Inr document
            else Inl UnauthorizedEntityError))
      | _ \<Rightarrow> Inl ProposalSchemaError)"

definition parse_metric_hypothesis ::
  "nat \<Rightarrow> pystr \<Rightarrow> signal_key set \<Rightarrow> parse_failure + hypothesis_document" where
  "parse_metric_hypothesis limit raw allowed =
     (if MAX_PROPOSAL_CHARS < length raw then Inl (Rejected ProposalTooLargeError)
      else if is_blank raw then Inl (Rejected EmptyProposalError)
      else
        case loads limit raw of
          Inl RecursionError \<Rightarrow> Inl (Rejected MalformedProposalError)
        | Inl JSONDecodeError \<Rightarrow> Inl (Rejected MalformedProposalError)
        | Inl DigitLimitError \<Rightarrow> Inl PlainValueError
        | Inr (LDict d) \<Rightarrow>
            (case parse_object d allowed of Inl e \<Rightarrow> Inl (Rejected e) | Inr document \<Rightarrow> Inr document)
        | Inr _ \<Rightarrow> Inl (Rejected ProposalSchemaError))"

section \<open>What is accepted\<close>

lemma schema_Inr [res_simps]: "schema m = Inr a \<longleftrightarrow> m = Inr a"
  by (auto simp: schema_def split: sum.splits)

lemma item_of_Inr [res_simps]: "item_of d k = Inr v \<longleftrightarrow> map_of d (lit k) = Some v"
  by (auto simp: item_of_def split: option.splits)

lemma text_of_Inr [res_simps]: "text_of v = Inr s \<longleftrightarrow> v = LStr s"
  by (auto simp: text_of_def split: pyjson.splits)

lemma pyval_of_PyStr [res_simps]: "pyval_of v = PyStr s \<longleftrightarrow> v = LStr s"
  by (auto simp: pyval_of_def split: pyjson.splits)

fun semantics_value :: "hypothesis_semantics \<Rightarrow> pystr" where
  "semantics_value DESCRIPTIVE = lit ''descriptive''"
| "semantics_value CAUSAL = lit ''causal''"

lemma member_Inr [res_simps]:
  "direction_of v = Inr x \<longleftrightarrow> v = LStr (expected_value x)"
  "semantics_of v = Inr y \<longleftrightarrow> v = LStr (semantics_value y)"
  "composition_of v = Inr z \<longleftrightarrow> v = LStr (composition_value z)"
  by (cases x; cases y; cases z; auto simp: direction_of_def semantics_of_def composition_of_def member_of_def
      split: pyjson.splits if_splits)+

definition describes_predicate :: "pyjson \<Rightarrow> metric_shift_predicate \<Rightarrow> bool" where
  "describes_predicate v p \<longleftrightarrow> (\<exists>d. v = LDict d \<and>
     map_of d (lit ''predicate_id'') = Some (LStr (mp_predicate_id p)) \<and>
     map_of d (lit ''signal_key'') = Some (LStr (signal_value (mp_signal_key p))) \<and>
     map_of d (lit ''expected_direction'') = Some (LStr (expected_value (mp_expected_direction p))))"

lemma make_metric_shift_predicate_Inr:
  "make_metric_shift_predicate pid k dir = Inr p \<longleftrightarrow>
     p = \<lparr>mp_predicate_id = pid, mp_signal_key = k, mp_expected_direction = dir\<rparr> \<and>
     \<not> is_blank pid \<and> \<not> is_blank (signal_value k)"
  using make_predicate_Inr [of "\<lparr>mp_predicate_id = pid, mp_signal_key = k, mp_expected_direction = dir\<rparr>" p]
  by simp

lemma build_predicate_Inr:
  "build_predicate v = Inr p \<longleftrightarrow> describes_predicate v p \<and> \<not> is_blank (mp_predicate_id p) \<and>
     \<not> is_blank (signal_value (mp_signal_key p))"
proof (cases v)
  case (LDict d)
  have "(k = SignalKey s) \<longleftrightarrow> signal_value k = s" for k s
    by (cases k) simp
  then show ?thesis
    by (cases p) (auto simp: LDict build_predicate_def res_simps describes_predicate_def signal.make_ok
        make_metric_shift_predicate_Inr)
qed (simp_all add: build_predicate_def describes_predicate_def)

definition describes_document :: "(pystr \<times> pyjson) list \<Rightarrow> hypothesis_document \<Rightarrow> bool" where
  "describes_document d h \<longleftrightarrow>
     map_of d (lit ''hypothesis_id'') = Some (LStr (hd_hypothesis_id h)) \<and>
     map_of d (lit ''tenant_id'') = Some (LStr (tenant_value (hd_tenant_id h))) \<and>
     map_of d (lit ''incident_id'') = Some (LStr (incident_value (hd_incident_id h))) \<and>
     map_of d (lit ''run_id'') = Some (LStr (run_value (hd_run_id h))) \<and>
     map_of d (lit ''semantics'') = Some (LStr (semantics_value (hd_semantics h))) \<and>
     map_of d (lit ''composition'') = Some (LStr (composition_value (hd_composition h))) \<and>
     (\<exists>entries. map_of d (lit ''predicates'') = Some (LList entries) \<and>
        list_all2 describes_predicate entries (hd_predicates h))"

lemma make_hypothesis_document_Inr:
  "make_hypothesis_document hid t i r sem c ps = Inr h \<longleftrightarrow>
     h = \<lparr>hd_hypothesis_id = hid, hd_tenant_id = t, hd_incident_id = i, hd_run_id = r, hd_semantics = sem,
       hd_composition = c, hd_predicates = ps\<rparr> \<and> valid_hypothesis h"
  using validate_hypothesis_Inr [of "\<lparr>hd_hypothesis_id = hid, hd_tenant_id = t, hd_incident_id = i, hd_run_id = r,
     hd_semantics = sem, hd_composition = c, hd_predicates = ps\<rparr>" h]
  by (auto simp: validate_hypothesis_document_def)

lemma build_document_Inr:
  assumes "map_of d (lit ''predicates'') = Some (LList entries)" "list_all2 describes_predicate entries ps"
  shows "build_document d ps = Inr h \<longleftrightarrow> describes_document d h \<and> valid_hypothesis h \<and> hd_predicates h = ps"
  using assms
  by (cases h) (auto simp: build_document_def res_simps describes_document_def make_hypothesis_document_Inr
      validate_hypothesis_Inr tenant.make_ok incident.make_ok run.make_ok valid_hypothesis_def)

lemma rmap_build_predicate:
  "rmap build_predicate entries = Inr ps \<longleftrightarrow> list_all2 describes_predicate entries ps \<and>
     list_all (\<lambda>p. \<not> is_blank (mp_predicate_id p) \<and> \<not> is_blank (signal_value (mp_signal_key p))) ps"
  by (auto simp: rmap_eq_Inr build_predicate_Inr list_all2_conv_all_nth list_all_length)

lemma parse_object_Inr:
  "parse_object d allowed = Inr h \<longleftrightarrow> describes_document d h \<and> valid_hypothesis h \<and>
     list_all (\<lambda>p. mp_signal_key p \<in> allowed) (hd_predicates h)"
proof (cases "\<exists>entries. map_of d (lit ''predicates'') = Some (LList entries)")
  case True
  then obtain entries where e: "map_of d (lit ''predicates'') = Some (LList entries)" by blast
  have "parse_object d allowed = Inr h \<longleftrightarrow> \<not> MAX_PREDICATES < length entries \<and>
      (\<exists>ps. list_all2 describes_predicate entries ps \<and>
        list_all (\<lambda>p. \<not> is_blank (mp_predicate_id p) \<and> \<not> is_blank (signal_value (mp_signal_key p))) ps \<and>
        build_document d ps = Inr h) \<and> list_all (\<lambda>p. mp_signal_key p \<in> allowed) (hd_predicates h)"
    by (auto simp: parse_object_def e res_simps rmap_build_predicate)
  also have "\<dots> \<longleftrightarrow> describes_document d h \<and> valid_hypothesis h \<and>
      list_all (\<lambda>p. mp_signal_key p \<in> allowed) (hd_predicates h)"
    using build_document_Inr [OF e] list_all2_lengthD [of describes_predicate entries "hd_predicates h"]
    by (auto simp: describes_document_def valid_hypothesis_def e)
  finally show ?thesis .
next
  case False
  then show ?thesis
    by (auto simp: parse_object_def describes_document_def split: option.splits pyjson.splits)
qed

lemma parse_Inr:
  "parse_metric_hypothesis limit raw allowed = Inr h \<longleftrightarrow>
     length raw \<le> MAX_PROPOSAL_CHARS \<and> \<not> is_blank raw \<and>
     (\<exists>d. loads limit raw = Inr (LDict d) \<and> describes_document d h) \<and> valid_hypothesis h \<and>
     list_all (\<lambda>p. mp_signal_key p \<in> allowed) (hd_predicates h)"
proof (cases "\<exists>d. loads limit raw = Inr (LDict d)")
  case True
  then obtain d where d: "loads limit raw = Inr (LDict d)" by blast
  have "(case parse_object d allowed of Inl e \<Rightarrow> Inl (Rejected e) | Inr document \<Rightarrow> Inr document) = Inr h \<longleftrightarrow>
      parse_object d allowed = Inr h"
    by (cases "parse_object d allowed") simp_all
  then show ?thesis
    by (auto simp: parse_metric_hypothesis_def d parse_object_Inr)
next
  case False
  then show ?thesis
    by (auto simp: parse_metric_hypothesis_def split: sum.splits pyjson.splits loads_error.splits)
qed

text \<open>The construction of a document has one error only.\<close>

definition schema_only :: "llm_error + 'a \<Rightarrow> bool" where
  "schema_only m \<longleftrightarrow> (\<forall>e. m = Inl e \<longrightarrow> e = ProposalSchemaError)"

lemma schema_only_rbind: "schema_only m \<Longrightarrow> (\<And>a. schema_only (f a)) \<Longrightarrow> schema_only (rbind m f)"
  by (simp add: schema_only_def rbind_eq_Inl) blast

lemma schema_only_parts:
  "schema_only (item_of d k)" "schema_only (schema m)" "schema_only (text_of v)" "schema_only (member_of ms v)"
  "schema_only (Inl ProposalSchemaError)"
  by (simp_all add: schema_only_def item_of_def schema_def text_of_def member_of_def
      split: option.splits sum.splits pyjson.splits)

lemma build_schema_only: "schema_only (build_predicate v)" "schema_only (build_document d ps)"
  by (cases v; simp add: build_predicate_def direction_of_def schema_only_parts schema_only_rbind)
    (simp add: build_document_def semantics_of_def composition_of_def schema_only_parts schema_only_rbind)

lemma rmap_schema_only: "rmap build_predicate vs = Inl e \<Longrightarrow> e = ProposalSchemaError"
  using build_schema_only(1) by (auto simp: schema_only_def dest!: rmap_eq_Inl)

lemma parse_object_Inl: "parse_object d allowed = Inl e \<Longrightarrow> llm_validation_error e"
  using build_schema_only(2) [of d]
  by (auto simp: parse_object_def rbind_eq_Inl llm_validation_error_def schema_only_def dest!: rmap_schema_only
      split: option.splits pyjson.splits if_splits)

section \<open>Printing a proposal\<close>

definition proposal_predicate :: "metric_shift_predicate \<Rightarrow> json" where
  "proposal_predicate p = JObj [(lit ''expected_direction'', JStr (expected_value (mp_expected_direction p))),
     (lit ''predicate_id'', JStr (mp_predicate_id p)),
     (lit ''signal_key'', JStr (signal_value (mp_signal_key p)))]"

definition proposal_object :: "hypothesis_document \<Rightarrow> json" where
  "proposal_object h = JObj [(lit ''composition'', JStr (composition_value (hd_composition h))),
     (lit ''hypothesis_id'', JStr (hd_hypothesis_id h)),
     (lit ''incident_id'', JStr (incident_value (hd_incident_id h))),
     (lit ''predicates'', JList (map proposal_predicate (hd_predicates h))),
     (lit ''run_id'', JStr (run_value (hd_run_id h))),
     (lit ''semantics'', JStr (semantics_value (hd_semantics h))),
     (lit ''tenant_id'', JStr (tenant_value (hd_tenant_id h)))]"

lemma canon_proposal_predicate: "canon (proposal_predicate p) = proposal_predicate p"
  by (simp add: proposal_predicate_def canon_sorted lit_def)

lemma canon_proposal_object: "canon (proposal_object h) = proposal_object h"
proof -
  have "sorted (map fst [(lit ''composition'', a), (lit ''hypothesis_id'', b), (lit ''incident_id'', c),
      (lit ''predicates'', d), (lit ''run_id'', e), (lit ''semantics'', f), (lit ''tenant_id'', g)])"
    for a b c d e f g :: json
    by (simp add: lit_def)
  note sorted = this
  show ?thesis
    unfolding proposal_object_def by (subst canon_sorted [OF sorted]) (simp add: canon_proposal_predicate comp_def)
qed

lemma proposal_readable: "3 \<le> limit \<Longrightarrow> readable limit (proposal_object h)"
  by (auto simp: proposal_object_def proposal_predicate_def)

lemma proposal_describes:
  "\<exists>d. of_json (proposal_object h) = LDict d \<and> describes_document d h"
proof -
  have "describes_predicate (of_json (proposal_predicate p)) p" for p
    by (simp add: proposal_predicate_def describes_predicate_def)
  then have "list_all2 describes_predicate (map (of_json \<circ> proposal_predicate) (hd_predicates h)) (hd_predicates h)"
    by (simp add: list_all2_conv_all_nth)
  then show ?thesis by (simp add: proposal_object_def describes_document_def)
qed

section \<open>Properties\<close>

text \<open>
  C8. Untrusted text is accepted exactly when it is within the size limit, not blank, and a JSON
  object that spells out, field by field and without repair, a valid document (bounded number of
  predicates, unique identifiers and signals, no blank names) whose signals are all in the
  caller's allow-list; the document returned is that one.
\<close>

theorem accepted_proposals_are_exact:
  "parse_metric_hypothesis limit raw allowed = Inr h \<longleftrightarrow>
     length raw \<le> MAX_PROPOSAL_CHARS \<and> \<not> is_blank raw \<and>
     (\<exists>d. loads limit raw = Inr (LDict d) \<and> describes_document d h) \<and> valid_hypothesis h \<and>
     list_all (\<lambda>p. mp_signal_key p \<in> allowed) (hd_predicates h)"
  by (rule parse_Inr)

lemma proposal_reads:
  assumes "valid_hypothesis h" "list_all (\<lambda>p. mp_signal_key p \<in> allowed) (hd_predicates h)"
    and "length (dumps (proposal_object h)) \<le> MAX_PROPOSAL_CHARS" "3 \<le> limit"
  shows "parse_metric_hypothesis limit (dumps (proposal_object h)) allowed = Inr h"
proof -
  have "loads limit (dumps (proposal_object h)) = Inr (of_json (proposal_object h))"
    using loads_dumps [of limit "proposal_object h"] proposal_readable [OF assms(4)]
    by (simp add: canon_proposal_object)
  moreover have "\<not> is_blank (dumps (proposal_object h))"
    by (simp add: dumps_def canon_proposal_object) (simp add: proposal_object_def is_blank_Cons py_isspace_def)
  ultimately show ?thesis
    using proposal_describes [of h] assms(1-3) by (auto simp: parse_Inr)
qed

text \<open>
  Every valid document over allowed signals can be proposed: its canonical JSON text, if it
  fits the size limit, parses back to the document.
\<close>

theorem proposals_round_trip:
  assumes "valid_hypothesis h" "list_all (\<lambda>p. mp_signal_key p \<in> allowed) (hd_predicates h)"
    and "length (dumps (proposal_object h)) \<le> MAX_PROPOSAL_CHARS" "3 \<le> limit"
  shows "parse_metric_hypothesis limit (dumps (proposal_object h)) allowed = Inr h"
  by (rule proposal_reads [OF assms])

lemma sample_proposal_size: "length (dumps (proposal_object (sample_hypothesis DESCRIPTIVE))) \<le> MAX_PROPOSAL_CHARS"
  by (simp add: dumps_def canon_proposal_object)
    (simp add: proposal_object_def proposal_predicate_def sample_hypothesis_def sample_predicate_def MAX_PROPOSAL_CHARS_def
      sample_tenant_def sample_incident_def sample_run_def enc_str_def lit_def esc_char_def)

theorem proposals_round_trip_witness:
  "parse_metric_hypothesis 100 (dumps (proposal_object (sample_hypothesis DESCRIPTIVE))) {SignalKey (lit ''latency'')} =
     Inr (sample_hypothesis DESCRIPTIVE)"
proof (rule proposals_round_trip)
  show "valid_hypothesis (sample_hypothesis DESCRIPTIVE)"
    using sample_hypothesis_valid by (simp add: validate_hypothesis_Inr)
  show "list_all (\<lambda>p. mp_signal_key p \<in> {SignalKey (lit ''latency'')}) (hd_predicates (sample_hypothesis DESCRIPTIVE))"
    by (simp add: sample_hypothesis_def sample_predicate_def)
qed (simp_all add: sample_proposal_size)

text \<open>A number beyond the digit limit.\<close>

lemma long_number_escapes:
  assumes "INT_MAX_STR_DIGITS < n" "n \<le> MAX_PROPOSAL_CHARS"
  shows "parse_metric_hypothesis limit (replicate n 49) allowed = Inl PlainValueError"
proof -
  obtain m where n: "n = Suc m"
    using assms(1) by (cases n) auto
  have digits: "takeWhile is_digit (replicate k 49) = replicate k 49" for k
    by (simp add: takeWhile_eq_all_conv is_digit_def)
  have "int_part (replicate n 49) = replicate n 49"
    using digits [of n] by (simp add: int_part_def n)
  then have "scan_number (replicate n 49) = Inl DigitLimitError"
    using assms(1) by (simp add: scan_number_def n frac_part_def exp_part_def)
  then have "scan_value limit (replicate n 49) = Inl DigitLimitError"
    by (simp add: n scan_plain_def scan_word_def lit_def)
  moreover have "skip_ws (replicate n 49) = replicate n 49"
    by (simp add: n is_ws_def)
  ultimately have "loads limit (replicate n 49) = Inl DigitLimitError"
    by (simp add: loads_def n)
  moreover have "\<not> is_blank (replicate n 49)"
    by (simp add: n is_blank_Cons py_isspace_def)
  ultimately show ?thesis
    using assms(2) by (simp add: parse_metric_hypothesis_def)
qed

lemma rejection_cases:
  "(case parse_metric_hypothesis limit raw allowed of
      Inl (Rejected e) \<Rightarrow> llm_validation_error e
    | Inl PlainValueError \<Rightarrow>
        length raw \<le> MAX_PROPOSAL_CHARS \<and> \<not> is_blank raw \<and> loads limit raw = Inl DigitLimitError
    | Inr h \<Rightarrow> True) \<and>
   (parse_metric_hypothesis limit raw allowed = Inl (Rejected ProposalTooLargeError) \<longleftrightarrow>
      MAX_PROPOSAL_CHARS < length raw) \<and>
   (parse_metric_hypothesis limit raw allowed = Inl (Rejected EmptyProposalError) \<longleftrightarrow>
      length raw \<le> MAX_PROPOSAL_CHARS \<and> is_blank raw)"
proof -
  have obj: "parse_object d allowed \<noteq> Inl ProposalTooLargeError" "parse_object d allowed \<noteq> Inl EmptyProposalError" for d
    using build_schema_only(2) [of d]
    by (auto simp: parse_object_def rbind_eq_Inl schema_only_def dest!: rmap_schema_only
        split: option.splits pyjson.splits if_splits)
  show ?thesis
  proof (cases "MAX_PROPOSAL_CHARS < length raw \<or> is_blank raw")
    case True
    then show ?thesis by (auto simp: parse_metric_hypothesis_def llm_validation_error_def)
  next
    case False
    show ?thesis
    proof (cases "\<exists>d. loads limit raw = Inr (LDict d)")
      case True
      then obtain d where d: "loads limit raw = Inr (LDict d)" by blast
      then show ?thesis
        using False obj [of d] parse_object_Inl [of d allowed]
        by (cases "parse_object d allowed") (auto simp: parse_metric_hypothesis_def)
    next
      case notdict: False
      then show ?thesis
        using False by (auto simp: parse_metric_hypothesis_def llm_validation_error_def
            split: sum.splits pyjson.splits loads_error.splits)
    qed
  qed
qed

text \<open>
  C21. A rejection is one of the stable validation errors, with the single exception of an
  integer literal beyond the interpreter's digit limit, whose plain ValueError passes through
  the parser (as it does for 4301 ones); size and emptiness are decided before any parsing.
\<close>

theorem rejections_are_typed:
  "(case parse_metric_hypothesis limit raw allowed of
      Inl (Rejected e) \<Rightarrow> llm_validation_error e
    | Inl PlainValueError \<Rightarrow>
        length raw \<le> MAX_PROPOSAL_CHARS \<and> \<not> is_blank raw \<and> loads limit raw = Inl DigitLimitError
    | Inr h \<Rightarrow> True) \<and>
   (parse_metric_hypothesis limit raw allowed = Inl (Rejected ProposalTooLargeError) \<longleftrightarrow>
      MAX_PROPOSAL_CHARS < length raw) \<and>
   (parse_metric_hypothesis limit raw allowed = Inl (Rejected EmptyProposalError) \<longleftrightarrow>
      length raw \<le> MAX_PROPOSAL_CHARS \<and> is_blank raw) \<and>
   parse_metric_hypothesis limit (replicate 4301 49) allowed = Inl PlainValueError"
proof -
  have "INT_MAX_STR_DIGITS < 4301" "4301 \<le> MAX_PROPOSAL_CHARS"
    by (simp_all add: INT_MAX_STR_DIGITS_def MAX_PROPOSAL_CHARS_def)
  from long_number_escapes [OF this] rejection_cases show ?thesis by blast
qed

end
