(* ===== verification/Harness.thy ===== *)
theory Harness
  imports Rcaeval_Adapter Baseline_Inputs Scoring Verifier Llm_Parsing
begin

text \<open>
  \<^verbatim>\<open>evaluation/harness/runner.py\<close>: predicting services for a loaded case, with the baseline alone
  or with the model and the verifier, and scoring a batch. The model client is a parameter: the
  outcome of each attempt, for each case, in the vocabulary of the LLM boundary; a function of case
  and attempt covers every interleaving of concurrent cases. When several cases fail, the error of
  the first in the batch is returned; with concurrency another of them may be raised. The pauses
  between attempts are part of the result.
\<close>

datatype harness_failure = HarnessDomain domain_error | HarnessKeyError | HarnessValueError | HarnessTimeout | HarnessCrashed

definition raise_domain :: "domain_error + 'a \<Rightarrow> harness_failure + 'a" where
  "raise_domain m = (case m of Inl e \<Rightarrow> Inl (HarnessDomain e) | Inr a \<Rightarrow> Inr a)"

definition EVALUATION_TENANT :: tenant_id where
  "EVALUATION_TENANT = TenantId (lit ''evaluation'')"

definition MAX_PROVIDER_RETRIES :: nat where
  "MAX_PROVIDER_RETRIES = 5"

datatype arm = BASELINE_ARM | GEMINI_ARM

definition case_context :: "investigation_case \<Rightarrow> tenant_id \<times> incident_id \<times> run_id" where
  "case_context c = (let ref = case_id_str (ic_case_id c) in (EVALUATION_TENANT, IncidentId ref, RunId ref))"

primrec dedup_from :: "'a set \<Rightarrow> 'a list \<Rightarrow> 'a list" where
  "dedup_from seen [] = []"
| "dedup_from seen (x # xs) = (if x \<in> seen then dedup_from seen xs else x # dedup_from (insert x seen) xs)"

definition dedup :: "'a list \<Rightarrow> 'a list" where
  "dedup xs = dedup_from {} xs"

record harness_options =
  ho_policy :: baseline_policy
  ho_floor_policy :: "scale_floor_policy option"
  ho_recursion_limit :: nat

definition rank_case :: "harness_options \<Rightarrow> investigation_case \<Rightarrow> harness_failure + baseline_result" where
  "rank_case ho c =
     rbind (raise_domain (to_baseline_inputs (ic_signals c) (ho_floor_policy ho))) (\<lambda>inputs.
     raise_domain (rank_metric_shifts (ic_window c) inputs (ho_policy ho)))"

definition predict_services_baseline ::
  "harness_options \<Rightarrow> investigation_case \<Rightarrow> harness_failure + pystr list \<times> bool" where
  "predict_services_baseline ho c =
     rbind (rank_case ho c) (\<lambda>result.
       case result of
         Abstention _ \<Rightarrow> Inr ([], True)
       | Ranking r \<Rightarrow> Inr (dedup (map (\<lambda>x. service_of (signal_value (sc_signal_key x))) (br_candidates r)), False))"

section \<open>The model arm\<close>

datatype proposal_result = GotProposal llm_proposal | NoProposal | ProviderFailed harness_failure

text \<open>The remaining iterations of the loop from an attempt on, with the pauses in seconds.\<close>

primrec propose_from :: "nat \<Rightarrow> nat \<Rightarrow> (nat \<Rightarrow> llm_outcome) \<Rightarrow> proposal_result \<times> nat list" where
  "propose_from 0 attempt outcomes = (NoProposal, [])"
| "propose_from (Suc n) attempt outcomes =
     (case outcomes attempt of
        Proposed p \<Rightarrow> (GotProposal p, [])
      | LlmRaised e \<Rightarrow>
          if llm_validation_error e \<or> MAX_PROVIDER_RETRIES \<le> attempt then (NoProposal, [])
          else (case propose_from n (Suc attempt) outcomes of (r, pauses) \<Rightarrow> (r, 2 ^ attempt # pauses))
      | DeadlineExceeded \<Rightarrow> (ProviderFailed HarnessTimeout, [])
      | LlmCrashed \<Rightarrow> (ProviderFailed HarnessCrashed, []))"

definition propose_with_retries :: "(nat \<Rightarrow> llm_outcome) \<Rightarrow> proposal_result \<times> nat list" where
  "propose_with_retries outcomes = propose_from (Suc MAX_PROVIDER_RETRIES) 0 outcomes"

definition entry_by_id :: "metric_evidence_ledger \<Rightarrow> evidence_id \<Rightarrow> metric_shift_evidence option" where
  "entry_by_id l = map_of (rev (map (\<lambda>e. (me_evidence_id e, e)) (ml_entries l)))"

definition suspicion_of :: "metric_evidence_ledger \<Rightarrow> signal_key \<Rightarrow> f64" where
  "suspicion_of l k =
     (case by_signal (ml_entries l) k of
        None \<Rightarrow> fzero False
      | Some e \<Rightarrow> (case me_candidate e of None \<Rightarrow> fzero False | Some c \<Rightarrow> sc_suspicion_score c))"

primrec supported_keys :: "metric_evidence_ledger \<Rightarrow> signal_key set \<Rightarrow> evidence_id list \<Rightarrow> signal_key list" where
  "supported_keys l seen [] = []"
| "supported_keys l seen (i # ids) =
     (case entry_by_id l i of
        None \<Rightarrow> supported_keys l seen ids
      | Some e \<Rightarrow>
          if me_signal_key e \<in> seen then supported_keys l seen ids
          else me_signal_key e # supported_keys l (insert (me_signal_key e) seen) ids)"

definition services_of_verification ::
  "metric_evidence_ledger \<Rightarrow> evidence_id list \<Rightarrow> pystr list \<times> bool \<times> int" where
  "services_of_verification l ids =
     (let bad_ids = length (filter (\<lambda>i. entry_by_id l i = None) ids);
          keys = sort_key (\<lambda>k. (fval (fneg (suspicion_of l k)), signal_value k)) (supported_keys l {} ids);
          services = dedup (map (\<lambda>k. service_of (signal_value k)) keys)
      in (services, services = [], int bad_ids))"

definition compile_case ::
  "harness_options \<Rightarrow> investigation_case \<Rightarrow> harness_failure + metric_evidence_ledger" where
  "compile_case ho c =
     rbind (rank_case ho c) (\<lambda>baseline.
       case case_context c of (tenant, incident, run) \<Rightarrow>
         raise_domain (compile_metric_shift_ledger tenant incident run (ic_window c) baseline))"

definition allowed_signals :: "metric_evidence_ledger \<Rightarrow> signal_key set" where
  "allowed_signals l = set (map me_signal_key (ml_entries l))"

definition judge_proposal ::
  "harness_options \<Rightarrow> metric_evidence_ledger \<Rightarrow> llm_proposal \<Rightarrow> harness_failure + pystr list \<times> bool \<times> int" where
  "judge_proposal ho l p =
     (case parse_metric_hypothesis (ho_recursion_limit ho) (lp_raw_json p) (allowed_signals l) of
        Inl (Rejected _) \<Rightarrow> Inr ([], True, 0)
      | Inl PlainValueError \<Rightarrow> Inl HarnessValueError
      | Inr document \<Rightarrow>
          rbind (raise_domain (verify_hypothesis document l)) (\<lambda>v.
            Inr (services_of_verification l (hr_supporting_evidence_ids v))))"

definition predict_services_with_llm ::
  "harness_options \<Rightarrow> (nat \<Rightarrow> llm_outcome) \<Rightarrow> investigation_case \<Rightarrow> harness_failure + pystr list \<times> bool \<times> int" where
  "predict_services_with_llm ho outcomes c =
     rbind (compile_case ho c) (\<lambda>l.
       case fst (propose_with_retries outcomes) of
         NoProposal \<Rightarrow> Inr ([], True, 0)
       | ProviderFailed e \<Rightarrow> Inl e
       | GotProposal p \<Rightarrow> judge_proposal ho l p)"

section \<open>The batch\<close>

text \<open>\<^verbatim>\<open>xs[:limit]\<close>, which counts from the end for a negative limit.\<close>

definition py_prefix :: "int option \<Rightarrow> 'a list \<Rightarrow> 'a list" where
  "py_prefix limit xs =
     (case limit of None \<Rightarrow> xs | Some n \<Rightarrow> take (nat (if n < 0 then int (length xs) + n else n)) xs)"

definition ground_truth :: "evaluation_batch \<Rightarrow> case_id \<Rightarrow> harness_failure + pystr" where
  "ground_truth b c =
     (case map_of (rev (map (\<lambda>e. (se_case_id e, se_root_cause_service e)) (es_entries (eb_sidecar b)))) c of
        None \<Rightarrow> Inl HarnessKeyError | Some s \<Rightarrow> Inr s)"

definition score_prediction ::
  "evaluation_batch \<Rightarrow> investigation_case \<Rightarrow> pystr list \<times> bool \<times> int \<Rightarrow> harness_failure + case_score" where
  "score_prediction b c prediction =
     (case prediction of (services, abstained, bad_ids) \<Rightarrow>
        rbind (ground_truth b (ic_case_id c)) (\<lambda>truth.
          case score_case services truth abstained bad_ids of None \<Rightarrow> Inl HarnessValueError | Some s \<Rightarrow> Inr s))"

definition evaluate_batch ::
  "harness_options \<Rightarrow> evaluation_batch \<Rightarrow> arm \<Rightarrow> (nat \<Rightarrow> nat \<Rightarrow> llm_outcome) option \<Rightarrow> int option \<Rightarrow> int
     \<Rightarrow> harness_failure + evaluation_summary" where
  "evaluate_batch ho b arm client limit concurrency =
     (if arm = GEMINI_ARM \<and> client = None then Inl HarnessValueError
      else if concurrency < 1 then Inl HarnessValueError
      else
        let cases = py_prefix limit (eb_cases b) in
        case (arm, client) of
          (GEMINI_ARM, Some outcomes) \<Rightarrow>
            rbind (rmap (\<lambda>(i, c). predict_services_with_llm ho (outcomes i) c) (enumerate 0 cases)) (\<lambda>predictions.
            rbind (rmap (\<lambda>(c, p). score_prediction b c p) (zip cases predictions)) (\<lambda>scores.
            Inr (aggregate scores)))
        | _ \<Rightarrow>
            rbind (rmap (\<lambda>c. rbind (predict_services_baseline ho c) (\<lambda>(services, abstained).
                             score_prediction b c (services, abstained, 0))) cases) (\<lambda>scores.
            Inr (aggregate scores)))"

section \<open>Retries\<close>

definition transient :: "llm_outcome \<Rightarrow> bool" where
  "transient x \<longleftrightarrow> (case x of LlmRaised e \<Rightarrow> \<not> llm_validation_error e | _ \<Rightarrow> False)"

lemma propose_from_Got:
  "propose_from n a outcomes = (GotProposal p, pauses) \<longleftrightarrow>
     (\<exists>m < n. (\<forall>k < m. transient (outcomes (a + k)) \<and> a + k < MAX_PROVIDER_RETRIES) \<and>
       outcomes (a + m) = Proposed p \<and> pauses = map (\<lambda>k. 2 ^ (a + k)) [0..<m])"
proof (induction n arbitrary: a pauses)
  case (Suc n)
  have "propose_from (Suc n) a outcomes = (GotProposal p, pauses) \<longleftrightarrow>
      (outcomes a = Proposed p \<and> pauses = []) \<or>
      (transient (outcomes a) \<and> a < MAX_PROVIDER_RETRIES \<and>
        (\<exists>rest. propose_from n (Suc a) outcomes = (GotProposal p, rest) \<and> pauses = 2 ^ a # rest))"
    by (cases "outcomes a") (auto simp: transient_def split: prod.splits)
  also have "\<dots> \<longleftrightarrow> (\<exists>m < Suc n. (\<forall>k < m. transient (outcomes (a + k)) \<and> a + k < MAX_PROVIDER_RETRIES) \<and>
       outcomes (a + m) = Proposed p \<and> pauses = map (\<lambda>k. 2 ^ (a + k)) [0..<m])"
    unfolding Suc.IH Ex_less_Suc2 All_less_Suc2 map_upt_Suc by auto
  finally show ?case .
qed simp

text \<open>
  C29. Transient provider failures do not cost a case its answer: a proposal is obtained exactly when
  one of the first six attempts returns it and every attempt before it failed in a transient way,
  and the pauses before it are 1, 2, 4, 8 and 16 seconds.
\<close>

theorem transient_failures_are_survived:
  "propose_with_retries outcomes = (GotProposal p, pauses) \<longleftrightarrow>
     (\<exists>m \<le> MAX_PROVIDER_RETRIES. list_all (\<lambda>k. transient (outcomes k)) [0..<m] \<and> outcomes m = Proposed p \<and>
       pauses = map (\<lambda>k. 2 ^ k) [0..<m])"
proof -
  have step: "(\<forall>k < m. transient (outcomes (0 + k)) \<and> 0 + k < MAX_PROVIDER_RETRIES) \<longleftrightarrow>
      list_all (\<lambda>k. transient (outcomes k)) [0..<m]" if "m \<le> MAX_PROVIDER_RETRIES" for m
    using that by (auto simp: list_all_iff)
  show ?thesis
    unfolding propose_with_retries_def propose_from_Got less_Suc_eq_le
    by (rule iff_exI) (use step in \<open>simp cong: conj_cong\<close>)
qed

section \<open>Predictions are grounded\<close>

lemma dedup_from_distinct: "distinct (dedup_from seen xs) \<and> set (dedup_from seen xs) = set xs - seen"
  by (induction xs arbitrary: seen) auto

lemma supported_keys_entries:
  "k \<in> set (supported_keys l seen ids) \<Longrightarrow> \<exists>e \<in> set (ml_entries l). me_signal_key e = k \<and> me_evidence_id e \<in> set ids"
  by (induction ids arbitrary: seen) (auto simp: entry_by_id_def split: option.splits if_splits dest!: map_of_SomeD)

lemma entry_by_id_known: "i \<in> set (map me_evidence_id (ml_entries l)) \<Longrightarrow> entry_by_id l i \<noteq> None"
  by (auto simp: entry_by_id_def map_of_eq_None_iff image_image)

lemma services_of_verification_grounded:
  assumes "set ids \<subseteq> set (map me_evidence_id (ml_entries l))" "services_of_verification l ids = (services, abstained, bad_ids)"
  shows "bad_ids = 0 \<and> abstained = (services = []) \<and> distinct services \<and>
    (\<forall>s \<in> set services. \<exists>e \<in> set (ml_entries l). s = service_of (signal_value (me_signal_key e)) \<and> me_evidence_id e \<in> set ids)"
proof -
  have "filter (\<lambda>i. entry_by_id l i = None) ids = []"
    using assms(1) entry_by_id_known by (fastforce simp: filter_empty_conv)
  with assms(2) show ?thesis
    using supported_keys_entries [of _ l "{}" ids]
    by (fastforce simp: services_of_verification_def Let_def dedup_def dedup_from_distinct)
qed

text \<open>
  C30. The services the model arm predicts are grounded in verified evidence: unless the case is an
  abstention, there are a compiled ledger, a document the parser accepted over its signals and a
  verification of it, and every predicted service owns a signal whose ledger entry the verifier
  cites as support; the count of unknown evidence identifiers is always 0.
\<close>

theorem llm_predictions_are_grounded:
  assumes "predict_services_with_llm ho outcomes c = Inr (services, abstained, bad_ids)"
  shows "bad_ids = 0 \<and> abstained = (services = []) \<and> distinct services \<and>
    (services \<noteq> [] \<longrightarrow> (\<exists>l p doc v. compile_case ho c = Inr l \<and>
       fst (propose_with_retries outcomes) = GotProposal p \<and>
       parse_metric_hypothesis (ho_recursion_limit ho) (lp_raw_json p) (allowed_signals l) = Inr doc \<and>
       verify_hypothesis doc l = Inr v \<and>
       (\<forall>s \<in> set services. \<exists>e \<in> set (ml_entries l). s = service_of (signal_value (me_signal_key e)) \<and>
          me_evidence_id e \<in> set (hr_supporting_evidence_ids v))))"
proof -
  obtain l where l: "compile_case ho c = Inr l"
    and r: "(case fst (propose_with_retries outcomes) of NoProposal \<Rightarrow> Inr ([], True, 0)
       | ProviderFailed e \<Rightarrow> Inl e | GotProposal p \<Rightarrow> judge_proposal ho l p) = Inr (services, abstained, bad_ids)"
    using assms by (auto simp: predict_services_with_llm_def rbind_eq_Inr)
  show ?thesis
  proof (cases "fst (propose_with_retries outcomes)")
    case (GotProposal p)
    show ?thesis
    proof (cases "parse_metric_hypothesis (ho_recursion_limit ho) (lp_raw_json p) (allowed_signals l)")
      case (Inr doc)
      with r GotProposal obtain v where v: "verify_hypothesis doc l = Inr v"
        "services_of_verification l (hr_supporting_evidence_ids v) = (services, abstained, bad_ids)"
        by (auto simp: judge_proposal_def rbind_eq_Inr raise_domain_def split: sum.splits)
      have "set (hr_supporting_evidence_ids v) \<subseteq> set (map me_evidence_id (ml_entries l))"
        using metric_verifier.cites_ledger [OF v(1)] by (auto simp: metric_ledger_ids_def)
      note grounded = services_of_verification_grounded [OF this v(2)]
      show ?thesis
        by (intro conjI impI exI [of _ l] exI [of _ p] exI [of _ doc] exI [of _ v])
          (use grounded l GotProposal Inr v(1) in simp_all)
    next
      case (Inl e)
      with r GotProposal show ?thesis by (cases e) (auto simp: judge_proposal_def)
    qed
  qed (use r in auto)
qed

lemma sample_supported_services:
  assumes "e \<in> set (ml_entries l)"
  shows "fst (services_of_verification l [me_evidence_id e]) \<noteq> []"
proof -
  obtain e' where "entry_by_id l (me_evidence_id e) = Some e'"
    using entry_by_id_known [of "me_evidence_id e" l] assms by auto
  then show ?thesis by (simp add: services_of_verification_def Let_def dedup_def)
qed

text \<open>The sample telemetry as a case, with floors of 1.\<close>

definition sample_options :: harness_options where
  "sample_options = \<lparr>ho_policy = sample_policy,
     ho_floor_policy = Some \<lparr>fp_relative_floor_fraction = fzero False, fp_absolute_epsilon = float_one\<rparr>,
     ho_recursion_limit = 100\<rparr>"

definition sample_input_case :: investigation_case where
  "sample_input_case = \<lparr>ic_case_id = CaseId (sample_uuid 0), ic_split = OB, ic_window = sample_window,
     ic_signals = [sample_signal ''latency'' float_one float_ten, sample_signal ''errors'' float_two float_two]\<rparr>"

definition sample_document :: hypothesis_document where
  "sample_document = (case case_context sample_input_case of (t, i, r) \<Rightarrow>
     (sample_hypothesis DESCRIPTIVE)\<lparr>hd_tenant_id := t, hd_incident_id := i, hd_run_id := r\<rparr>)"

definition sample_answer :: "nat \<Rightarrow> llm_outcome" where
  "sample_answer n = Proposed \<lparr>lp_raw_json = dumps (proposal_object sample_document),
     lp_model = None, lp_prompt_tokens = None, lp_completion_tokens = None\<rparr>"

lemma hex_fixed_numeral:
  "hex_fixed (numeral k) n = hex_fixed (pred_numeral k) (n div 16) @ [hex_digit (n mod 16)]"
  by (subst numeral_eq_Suc) (rule hex_fixed.simps(2))

lemma sample_hex: "hex_fixed 32 302240678275694148452352 = lit ''00000000000040008000000000000000''"
  by (simp add: hex_fixed_numeral hex_digit_def lit_def)

lemma sample_case_id: "case_id_str (CaseId (sample_uuid 0)) = lit ''00000000-0000-4000-8000-000000000000''"
proof -
  have "unat (sample_uuid 0) = 302240678275694148452352" by (simp add: sample_uuid_def)
  then show ?thesis
    by (simp only: case_id_str_def case_id.sel uuid_str_def sample_hex Let_def) (simp add: lit_def)
qed

lemma sample_case_ranked: "rank_case sample_options sample_input_case = Inr (Ranking sample_ranking)"
proof -
  let ?p = "\<lparr>fp_relative_floor_fraction = fzero False, fp_absolute_epsilon = float_one\<rparr>"
  have medians: "median [float_one, float_ten] = Some (F64 False 1025 1688849860263936)"
    "median [float_two, float_two] = Some float_two"
    by code_simp+
  have finite: "isfinite (F64 False 1025 1688849860263936)" "fabs float_ten = float_ten"
    by (simp_all add: isfinite_def fabs_def float_ten_def)
  have floor: "floor_for ?p (sample_signal ''latency'' float_one float_ten) = float_one"
    "floor_for ?p (sample_signal ''errors'' float_two float_two) = float_one"
    unfolding floor_for_def sample_signal_def using medians finite by (simp_all add: fmax_def flt_def)
  have valid: "valid_floor_policy ?p"
    by (simp add: valid_floor_policy_def fle_def flt_def isnan_def float_one_def fzero_def fval_def fmag_def fsig_def)
  have "to_baseline_inputs (ic_signals sample_input_case) (ho_floor_policy sample_options) =
      Inr [sample_latency, sample_errors]"
    using make_input_of_floor [OF valid, of "sample_signal ''latency'' float_one float_ten"]
      make_input_of_floor [OF valid, of "sample_signal ''errors'' float_two float_two"]
    by (simp add: floor to_baseline_inputs_def sample_input_case_def sample_options_def
        sample_latency_def sample_errors_def)
  then show ?thesis
    using sample_rank by (simp add: rank_case_def raise_domain_def sample_options_def sample_input_case_def)
qed

lemma sample_case_compiled:
  "\<exists>l. compile_case sample_options sample_input_case = Inr l \<and> validate_metric_evidence_ledger l = Inr l \<and>
     ledger_evaluations l = br_signal_evaluations sample_ranking \<and> ml_policy l = sample_policy \<and>
     context_matches sample_document l"
proof -
  obtain t i r where ctx: "case_context sample_input_case = (t, i, r)" by (cases "case_context sample_input_case")
  have "encodable_names t i r (map (\<lambda>item. sig_key (in_signal item)) [sample_latency, sample_errors])"
    using ctx
    by (auto simp: case_context_def sample_input_case_def sample_case_id EVALUATION_TENANT_def encodable_names_def Let_def)
      (auto simp: lit_def is_blank_iff py_isspace_def encodable_def)
  from compile_total [OF _ _ _ this sample_rank]
  obtain l where l: "compile_metric_shift_ledger t i r sample_window (Ranking sample_ranking) = Inr l" by auto
  have "sort_key evaluation_order (result_evaluations (Ranking sample_ranking)) =
      result_evaluations (Ranking sample_ranking)"
    using rank_evaluations(3) [OF sample_rank] by (simp add: strict_sorted_iff sort_key_id_if_sorted)
  moreover have "result_policy (Ranking sample_ranking) = sample_policy"
    by (simp add: result_policy_def sample_ranking_def)
  moreover have "compile_case sample_options sample_input_case = Inr l"
    using l by (simp add: compile_case_def sample_case_ranked ctx raise_domain_def)
      (simp add: sample_input_case_def)
  ultimately show ?thesis
    using compile_Inr [OF l] validate_valid_ledger
    by (auto simp: result_evaluations_def context_matches_def sample_document_def ctx)
qed

lemma sample_document_valid: "validate_hypothesis_document sample_document = Inr sample_document"
  by (simp add: validate_hypothesis_Inr valid_hypothesis_def sample_document_def case_context_def sample_input_case_def
      EVALUATION_TENANT_def Let_def sample_case_id sample_hypothesis_def sample_predicate_def MAX_PREDICATES_def)
    (simp add: lit_def is_blank_iff py_isspace_def)

lemma sample_document_size: "length (dumps (proposal_object sample_document)) \<le> MAX_PROPOSAL_CHARS"
  by (simp add: dumps_def canon_proposal_object)
    (simp add: proposal_object_def proposal_predicate_def sample_document_def case_context_def sample_input_case_def
      EVALUATION_TENANT_def Let_def sample_case_id sample_hypothesis_def sample_predicate_def MAX_PROPOSAL_CHARS_def
      enc_str_def lit_def esc_char_def)

lemma sample_prediction:
  "\<exists>services. predict_services_with_llm sample_options sample_answer sample_input_case = Inr (services, False, 0) \<and>
     services \<noteq> []"
proof -
  obtain l where l: "compile_case sample_options sample_input_case = Inr l"
    and v: "validate_metric_evidence_ledger l = Inr l" "ledger_evaluations l = br_signal_evaluations sample_ranking"
      "ml_policy l = sample_policy" "context_matches sample_document l"
    using sample_case_compiled by blast
  have parts: "hd_predicates sample_document = [sample_predicate]" "hd_semantics sample_document = DESCRIPTIVE"
    "hd_composition sample_document = COMPOSE_ALL"
    by (simp_all add: sample_document_def sample_hypothesis_def split: prod.splits)
  obtain r b where r: "verify_hypothesis sample_document l = Inr r" "b \<in> set (ml_entries l)"
    "hr_supporting_evidence_ids r = [me_evidence_id b]"
    using sample_supported [OF v sample_document_valid parts] by blast
  have "me_signal_key ` set (ml_entries l) = se_signal_key ` set (ledger_evaluations l)"
    by (simp add: ledger_evaluations_def entry_evaluation_def image_image)
  then have "SignalKey (lit ''latency'') \<in> allowed_signals l"
    by (auto simp: allowed_signals_def v(2) sample_ranking_def sample_evaluation_def)
  then have "parse_metric_hypothesis (ho_recursion_limit sample_options) (dumps (proposal_object sample_document))
      (allowed_signals l) = Inr sample_document"
    using proposal_reads [of sample_document] sample_document_valid sample_document_size parts
    by (simp add: validate_hypothesis_Inr sample_predicate_def sample_options_def)
  moreover obtain services abstained bad_ids where s:
    "services_of_verification l [me_evidence_id b] = (services, abstained, bad_ids)" by (cases "services_of_verification l [me_evidence_id b]")
  ultimately have "predict_services_with_llm sample_options sample_answer sample_input_case =
      Inr (services, abstained, bad_ids)"
    using l r by (simp add: predict_services_with_llm_def propose_with_retries_def sample_answer_def judge_proposal_def
        raise_domain_def)
  moreover have "services \<noteq> []" using sample_supported_services [OF r(2)] s by simp
  moreover have "bad_ids = 0 \<and> abstained = (services = [])"
    using services_of_verification_grounded [OF _ s] r(2) by auto
  ultimately show ?thesis by auto
qed

theorem llm_predictions_are_grounded_witness:
  "\<exists>services l v. predict_services_with_llm sample_options sample_answer sample_input_case = Inr (services, False, 0) \<and>
     services \<noteq> [] \<and> compile_case sample_options sample_input_case = Inr l \<and>
     hd services \<in> (\<lambda>e. service_of (signal_value (me_signal_key e))) ` set (ml_entries l)"
proof -
  obtain services where p: "predict_services_with_llm sample_options sample_answer sample_input_case =
      Inr (services, False, 0)" "services \<noteq> []"
    using sample_prediction by blast
  with llm_predictions_are_grounded [OF p(1)] hd_in_set [OF p(2)] show ?thesis by (fastforce simp: image_iff)
qed

section \<open>Scoring a loaded batch\<close>

lemma ground_truth_known:
  fixes a :: "'s rcaeval_adapter"
  assumes "load_batch a r x permit skip s = Inr batch" "c \<in> set (eb_cases batch)"
  shows "\<exists>e \<in> set (es_entries (eb_sidecar batch)). se_case_id e = ic_case_id c \<and>
    ground_truth batch (ic_case_id c) = Inr (se_root_cause_service e)"
proof -
  obtain ids: "map se_case_id (es_entries (eb_sidecar batch)) = map ic_case_id (eb_cases batch)"
    using load_batch_ok [OF assms(1)] by (auto simp: load_ok_def)
  have "ic_case_id c \<in> set (map se_case_id (es_entries (eb_sidecar batch)))"
    unfolding ids using assms(2) by simp
  then have "map_of (rev (map (\<lambda>e. (se_case_id e, se_root_cause_service e)) (es_entries (eb_sidecar batch))))
      (ic_case_id c) \<noteq> None"
    by (auto simp: map_of_eq_None_iff image_image)
  then obtain truth where truth: "map_of (rev (map (\<lambda>e. (se_case_id e, se_root_cause_service e))
      (es_entries (eb_sidecar batch)))) (ic_case_id c) = Some truth" by auto
  from map_of_SomeD [OF this] truth show ?thesis by (auto simp: ground_truth_def)
qed

lemma py_prefix_subset: "set (py_prefix limit xs) \<subseteq> set xs"
  by (auto simp: py_prefix_def dest: in_set_takeD split: option.splits)

lemma score_case_total: "\<exists>s. score_case services truth abstained 0 = Some s \<and> cs_invalid_evidence_id_count s = 0"
  by (simp add: score_case_def Let_def)

lemma predict_services_baseline_Inl: "predict_services_baseline ho c = Inl e \<longleftrightarrow> rank_case ho c = Inl e"
  by (auto simp: predict_services_baseline_def rbind_eq_Inl)
    (metis (no_types, lifting) Inl_Inr_False baseline_result.exhaust baseline_result.simps(5,6))

text \<open>
  Evaluating a loaded batch with the baseline loses no case: either every selected case was
  ranked and scored, so that the summary counts them all and no unknown evidence, or the error is
  the one the ranking of a selected case raised; no case lacks a ground truth.
\<close>

theorem baseline_evaluation_loses_no_case:
  fixes a :: "'s rcaeval_adapter"
  assumes "load_batch a r x permit skip s = Inr batch" "1 \<le> concurrency"
  shows "case evaluate_batch ho batch BASELINE_ARM client limit concurrency of
      Inr summary \<Rightarrow> su_case_count summary = length (py_prefix limit (eb_cases batch)) \<and>
        su_invalid_evidence_id_count summary = 0 \<and> list_all (\<lambda>c. is_ok (rank_case ho c)) (py_prefix limit (eb_cases batch))
    | Inl e \<Rightarrow> \<exists>c \<in> set (py_prefix limit (eb_cases batch)). rank_case ho c = Inl e"
proof -
  let ?cases = "py_prefix limit (eb_cases batch)"
  let ?score = "\<lambda>c. rbind (predict_services_baseline ho c) (\<lambda>(services, abstained).
      score_prediction batch c (services, abstained, 0))"
  have score: "(case ?score c of Inl e \<Rightarrow> rank_case ho c = Inl e
      | Inr sc \<Rightarrow> cs_invalid_evidence_id_count sc = 0 \<and> is_ok (rank_case ho c))" if c: "c \<in> set ?cases" for c
  proof (cases "predict_services_baseline ho c")
    case (Inr p)
    then have "is_ok (rank_case ho c)"
      using predict_services_baseline_Inl [of ho c] by (cases "rank_case ho c") auto
    moreover obtain truth where "ground_truth batch (ic_case_id c) = Inr truth"
      using ground_truth_known [OF assms(1)] subsetD [OF py_prefix_subset c] by blast
    ultimately show ?thesis
      using Inr score_case_total [of "fst p" truth "snd p"]
      by (auto simp: score_prediction_def split: prod.splits option.splits)
  next
    case (Inl e)
    then show ?thesis by (simp add: predict_services_baseline_Inl [THEN iffD1])
  qed
  have run: "evaluate_batch ho batch BASELINE_ARM client limit concurrency =
      rbind (rmap ?score ?cases) (\<lambda>scores. Inr (aggregate scores))"
    using assms(2) by (simp add: evaluate_batch_def Let_def)
  show ?thesis
  proof (cases "rmap ?score ?cases")
    case (Inl e)
    from rmap_eq_Inl [OF this] score run Inl show ?thesis by force
  next
    case (Inr scores)
    have "\<forall>sc \<in> set scores. cs_invalid_evidence_id_count sc = 0"
      using rmap_Inr_in [OF Inr] score by force
    then have "sum_list (map cs_invalid_evidence_id_count scores) = 0"
      by (simp add: sum_list_0 cong: map_cong)
    moreover have "list_all (\<lambda>c. is_ok (rank_case ho c)) ?cases"
      using rmap_Inr_in_dom [OF Inr] score by (force simp: list_all_iff)
    ultimately show ?thesis
      using run Inr rmap_Inr_length [OF Inr] by (simp add: aggregate_def Let_def)
  qed
qed

theorem baseline_evaluation_loses_no_case_witness:
  "\<exists>batch. load_batch sample_adapter sample_root (PyStr (lit ''OB'')) None False 0 = Inr batch \<and>
     length (eb_cases batch) = 2 \<and>
     (case evaluate_batch sample_options batch BASELINE_ARM None (Some 1) 1 of
        Inr summary \<Rightarrow> su_case_count summary = 1
      | Inl e \<Rightarrow> rank_case sample_options (hd (eb_cases batch)) = Inl e)"
proof -
  obtain batch where batch: "load_batch sample_adapter sample_root (PyStr (lit ''OB'')) None False 0 = Inr batch"
    "map ic_case_id (eb_cases batch) = [CaseId (sample_uuid 0), CaseId (sample_uuid (Suc 0))]"
    using sample_batch by (elim exE conjE)
  then obtain c d where cases: "eb_cases batch = [c, d]" by (auto simp: map_eq_Cons_conv)
  with baseline_evaluation_loses_no_case [OF batch(1), where ho = sample_options and client = None and limit = "Some 1" and concurrency = 1] batch(1)
  show ?thesis by (auto simp: py_prefix_def split: sum.splits)
qed

end
