(* ===== verification/Rcaeval_Manifest.thy ===== *)
theory Rcaeval_Manifest
  imports Rcaeval_Adapter Llm_Parsing Iso_Format
begin

text \<open>
  \<^verbatim>\<open>evaluation/rcaeval/manifest.py\<close>: the strict reader of the provenance manifest. Reading the file
  gives its bytes or fails; the interpreter's recursion limit is an argument. Every failure is one
  \<^verbatim>\<open>ValueError\<close>, except \<^verbatim>\<open>RecursionError\<close>, which no clause catches. The texts that reach the URL and
  date parsers are pinned constants by then, so of \<^verbatim>\<open>urlparse\<close> only the scheme and the network
  location of a plain address are modelled.
\<close>

section \<open>Pinned values\<close>

datatype manifest_error = InvalidManifest | ManifestRecursion

record archive_record =
  ar_split :: pystr
  ar_filename :: pystr
  ar_role :: pystr
  ar_bytes :: int
  ar_checksum_algorithm :: pystr
  ar_checksum_value :: pystr

record license_notice =
  ln_source :: pystr
  ln_identifier :: pystr
  ln_note :: pystr

record rcaeval_manifest =
  mf_schema_version :: int
  mf_dataset :: pystr
  mf_repository_url :: pystr
  mf_release :: pystr
  mf_annotated_tag_object :: pystr
  mf_release_commit :: pystr
  mf_archive_record_url :: pystr
  mf_archive_api_url :: pystr
  mf_record_doi :: pystr
  mf_metadata_publication_date :: int
  mf_record_created_at :: pydatetime
  mf_metadata_retrieved_on :: int
  mf_raw_redistribution :: bool
  mf_archives :: "archive_record list"
  mf_license_notices :: "license_notice list"

definition EXPECTED_ARCHIVES :: "(string \<times> string \<times> string \<times> int \<times> string) list" where
  "EXPECTED_ARCHIVES =
     [(''OB'', ''RE2-OB.zip'', ''development_calibration'', 1191025569, ''b9e23f8842c404b396ffd2becff15de4''),
      (''SS'', ''RE2-SS.zip'', ''reserved'', 245629018, ''bd747a8fc7c5be00c613e13fbf9dd74b''),
      (''TT'', ''RE2-TT.zip'', ''sealed_evaluation'', 2801345134, ''a7fbcd1ada406067dcc50771ae398408'')]"

definition TOP_KEYS :: "string list" where
  "TOP_KEYS = [''schema_version'', ''dataset'', ''repository_url'', ''release'', ''annotated_tag_object'',
     ''release_commit'', ''archive_record_url'', ''archive_api_url'', ''record_doi'', ''metadata_publication_date'',
     ''record_created_at'', ''metadata_retrieved_on'', ''raw_redistribution'', ''archives'', ''license_notices'']"

definition expected_scalars :: "(string \<times> string) list" where
  "expected_scalars =
     [(''dataset'', ''RCAEval RE2''), (''repository_url'', ''https://github.com/phamquiluan/RCAEval''),
      (''release'', ''1.2.0''), (''annotated_tag_object'', ''5f22afb1cd9e383f52c41c2e8e99c8ef930db5d8''),
      (''release_commit'', ''bc49dbd85bd14032101fb9a69a5a37e9d6d55178''),
      (''archive_record_url'', ''https://zenodo.org/records/14590730''),
      (''archive_api_url'', ''https://zenodo.org/api/records/14590730''), (''record_doi'', ''10.5281/zenodo.14590730''),
      (''metadata_publication_date'', ''2024-01-03''), (''record_created_at'', ''2025-01-03T12:06:03.078444+00:00''),
      (''metadata_retrieved_on'', ''2026-07-16'')]"

definition expected_notices :: "(string \<times> string) list" where
  "expected_notices = [(''pinned_repository'', ''MIT''), (''zenodo_record_14590730'', ''CC-BY-4.0'')]"

section \<open>Fields\<close>

definition mapping_with :: "pyjson \<Rightarrow> string list \<Rightarrow> manifest_error + (pystr \<times> pyjson) list" where
  "mapping_with v keys =
     (case v of
        LDict d \<Rightarrow> if fst ` set d = lit ` set keys then Inr d else Inl InvalidManifest
      | _ \<Rightarrow> Inl InvalidManifest)"

text \<open>A missing key is a \<^verbatim>\<open>KeyError\<close>, which becomes the same error.\<close>

definition manifest_field :: "(pystr \<times> pyjson) list \<Rightarrow> string \<Rightarrow> manifest_error + pyjson" where
  "manifest_field d key = (case map_of d (lit key) of None \<Rightarrow> Inl InvalidManifest | Some v \<Rightarrow> Inr v)"

definition text_field :: "(pystr \<times> pyjson) list \<Rightarrow> string \<Rightarrow> manifest_error + pystr" where
  "text_field d key =
     rbind (manifest_field d key) (\<lambda>v. case v of LStr s \<Rightarrow> if s = [] then Inl InvalidManifest else Inr s | _ \<Rightarrow> Inl InvalidManifest)"

definition accept_if :: "bool \<Rightarrow> manifest_error + unit" where
  "accept_if b = (if b then Inr () else Inl InvalidManifest)"

definition https_url :: "pystr \<Rightarrow> manifest_error + pystr" where
  "https_url v =
     rbind (accept_if (map ascii_lower (take 8 v) = lit ''https://'' \<and>
       takeWhile (\<lambda>c. c \<noteq> 47 \<and> c \<noteq> 63 \<and> c \<noteq> 35) (drop 8 v) \<noteq> [])) (\<lambda>_. Inr v)"

definition hex_of_length :: "nat \<Rightarrow> pystr \<Rightarrow> bool" where
  "hex_of_length n s \<longleftrightarrow> length s = n \<and> list_all (\<lambda>c. (48 \<le> c \<and> c \<le> 57) \<or> (97 \<le> c \<and> c \<le> 102)) s"

text \<open>\<^verbatim>\<open>value != 1\<close> of a JSON value: true and 1.0 equal 1.\<close>

definition equals_one :: "pyjson \<Rightarrow> bool" where
  "equals_one v = (case v of LBool b \<Rightarrow> b | LInt i \<Rightarrow> i = 1 | LFloat x \<Rightarrow> feq x float_one | _ \<Rightarrow> False)"

text \<open>\<^verbatim>\<open>date.fromisoformat\<close>, as a day number.\<close>

definition iso_date :: "pystr \<Rightarrow> manifest_error + int" where
  "iso_date s =
     (case utf8 s of
        None \<Rightarrow> Inl InvalidManifest
      | Some b \<Rightarrow>
          if length b = 7 \<or> length b = 8 \<or> length b = 10
          then (case parse_date b (length b) of None \<Rightarrow> Inl InvalidManifest | Some day \<Rightarrow> Inr day)
          else Inl InvalidManifest)"

definition iso_instant :: "pystr \<Rightarrow> manifest_error + pydatetime" where
  "iso_instant s =
     (case fromisoformat s of
        Some (Aware t (Some off)) \<Rightarrow> Inr (Aware t (Some off))
      | _ \<Rightarrow> Inl InvalidManifest)"

section \<open>The manifest\<close>

definition parse_archive :: "pyjson \<Rightarrow> manifest_error + archive_record" where
  "parse_archive raw =
     rbind (mapping_with raw [''split'', ''filename'', ''role'', ''bytes'', ''checksum'']) (\<lambda>archive.
     rbind (text_field archive ''split'') (\<lambda>split.
     rbind (text_field archive ''role'') (\<lambda>role.
     rbind (manifest_field archive ''bytes'') (\<lambda>size.
     rbind (manifest_field archive ''checksum'') (\<lambda>c.
     rbind (mapping_with c [''algorithm'', ''value'']) (\<lambda>checksum.
     rbind (text_field checksum ''value'') (\<lambda>checksum_value.
       case find (\<lambda>e. lit (fst e) = split) EXPECTED_ARCHIVES of
         None \<Rightarrow> Inl InvalidManifest
       | Some (_, expected_filename, expected_role, expected_size, expected_checksum) \<Rightarrow>
           rbind (text_field archive ''filename'') (\<lambda>filename.
           rbind (text_field checksum ''algorithm'') (\<lambda>algorithm.
           rbind (accept_if (filename = lit expected_filename \<and> role = lit expected_role \<and>
               size = LInt expected_size \<and> algorithm = lit ''md5'' \<and> checksum_value = lit expected_checksum \<and>
               hex_of_length 32 checksum_value)) (\<lambda>_.
             Inr \<lparr>ar_split = split, ar_filename = filename, ar_role = role, ar_bytes = expected_size,
                  ar_checksum_algorithm = lit ''md5'', ar_checksum_value = checksum_value\<rparr>))))))))))"

definition parse_notice :: "pyjson \<Rightarrow> manifest_error + license_notice" where
  "parse_notice item =
     rbind (mapping_with item [''source'', ''identifier'', ''note'']) (\<lambda>notice.
     rbind (text_field notice ''source'') (\<lambda>source.
     rbind (text_field notice ''identifier'') (\<lambda>identifier.
     rbind (text_field notice ''note'') (\<lambda>note.
       Inr \<lparr>ln_source = source, ln_identifier = identifier, ln_note = note\<rparr>))))"

definition list_field :: "(pystr \<times> pyjson) list \<Rightarrow> string \<Rightarrow> manifest_error + pyjson list" where
  "list_field d key = rbind (manifest_field d key) (\<lambda>v. case v of LList xs \<Rightarrow> Inr xs | _ \<Rightarrow> Inl InvalidManifest)"

definition scalar_matches :: "(pystr \<times> pyjson) list \<Rightarrow> string \<times> string \<Rightarrow> bool" where
  "scalar_matches d e \<longleftrightarrow> map_of d (lit (fst e)) = Some (LStr (lit (snd e)))"

definition notice_key :: "license_notice \<Rightarrow> pystr \<times> pystr" where
  "notice_key n = (ln_source n, ln_identifier n)"

definition manifest_of :: "pyjson \<Rightarrow> manifest_error + rcaeval_manifest" where
  "manifest_of raw =
     rbind (mapping_with raw TOP_KEYS) (\<lambda>d.
     rbind (manifest_field d ''schema_version'') (\<lambda>version.
     rbind (manifest_field d ''raw_redistribution'') (\<lambda>redistribution.
     rbind (accept_if (equals_one version \<and> redistribution = LBool False)) (\<lambda>_.
     rbind (accept_if (list_all (scalar_matches d) expected_scalars)) (\<lambda>_.
     rbind (text_field d ''annotated_tag_object'') (\<lambda>tag.
     rbind (text_field d ''release_commit'') (\<lambda>commit.
     rbind (accept_if (hex_of_length 40 tag \<and> hex_of_length 40 commit)) (\<lambda>_.
     rbind (list_field d ''archives'') (\<lambda>archives_raw.
     rbind (rmap parse_archive archives_raw) (\<lambda>archives.
     rbind (accept_if (ar_split ` set archives = lit ` set (map fst EXPECTED_ARCHIVES) \<and> length archives = 3)) (\<lambda>_.
     rbind (list_field d ''license_notices'') (\<lambda>notices_raw.
     rbind (rmap parse_notice notices_raw) (\<lambda>notices.
     rbind (accept_if (notice_key ` set notices = map_prod lit lit ` set expected_notices)) (\<lambda>_.
     rbind (rbind (text_field d ''metadata_publication_date'') iso_date) (\<lambda>publication.
     rbind (rbind (text_field d ''metadata_retrieved_on'') iso_date) (\<lambda>retrieved.
     rbind (rbind (text_field d ''record_created_at'') iso_instant) (\<lambda>created.
     rbind (text_field d ''dataset'') (\<lambda>dataset.
     rbind (rbind (text_field d ''repository_url'') https_url) (\<lambda>repository_url.
     rbind (text_field d ''release'') (\<lambda>release.
     rbind (rbind (text_field d ''archive_record_url'') https_url) (\<lambda>archive_record_url.
     rbind (rbind (text_field d ''archive_api_url'') https_url) (\<lambda>archive_api_url.
     rbind (text_field d ''record_doi'') (\<lambda>record_doi.
       Inr \<lparr>mf_schema_version = 1, mf_dataset = dataset, mf_repository_url = repository_url, mf_release = release,
            mf_annotated_tag_object = tag, mf_release_commit = commit, mf_archive_record_url = archive_record_url,
            mf_archive_api_url = archive_api_url, mf_record_doi = record_doi,
            mf_metadata_publication_date = publication, mf_record_created_at = created,
            mf_metadata_retrieved_on = retrieved, mf_raw_redistribution = False, mf_archives = archives,
            mf_license_notices = notices\<rparr>)))))))))))))))))))))))"

text \<open>\<^verbatim>\<open>read_text\<close>: universal newlines after the UTF-8 decoder.\<close>

function universal_newlines :: "pystr \<Rightarrow> pystr" where
  "universal_newlines [] = []"
| "universal_newlines (c # r) =
     (if c = 13 then 10 # universal_newlines (if take 1 r = [10] then tl r else r) else c # universal_newlines r)"
  by pat_completeness auto
termination by (relation "measure length") auto

definition load_manifest :: "nat \<Rightarrow> nat list option \<Rightarrow> manifest_error + rcaeval_manifest" where
  "load_manifest recursion_limit content =
     (case Option.bind content utf8_decode of
        None \<Rightarrow> Inl InvalidManifest
      | Some t \<Rightarrow>
          (case loads recursion_limit (universal_newlines t) of
             Inl RecursionError \<Rightarrow> Inl ManifestRecursion
           | Inl _ \<Rightarrow> Inl InvalidManifest
           | Inr raw \<Rightarrow> manifest_of raw))"

section \<open>Documents that spell out a manifest\<close>

text \<open>An object with exactly the given fields, in any order, whose values satisfy their predicates.\<close>

definition is_dict :: "pyjson \<Rightarrow> (string \<times> (pyjson \<Rightarrow> bool)) list \<Rightarrow> bool" where
  "is_dict v fs \<longleftrightarrow>
     (\<exists>d. v = LDict d \<and> fst ` set d = lit ` set (map fst fs) \<and>
        list_all (\<lambda>(k, P). \<exists>x. map_of d (lit k) = Some x \<and> P x) fs)"

definition archive_text :: "pyjson \<Rightarrow> archive_record \<Rightarrow> bool" where
  "archive_text v a \<longleftrightarrow> is_dict v
     [(''split'', (=) (LStr (ar_split a))), (''filename'', (=) (LStr (ar_filename a))),
      (''role'', (=) (LStr (ar_role a))), (''bytes'', (=) (LInt (ar_bytes a))),
      (''checksum'', \<lambda>c. is_dict c [(''algorithm'', (=) (LStr (ar_checksum_algorithm a))),
                                    (''value'', (=) (LStr (ar_checksum_value a)))])]"

definition notice_text :: "pyjson \<Rightarrow> license_notice \<Rightarrow> bool" where
  "notice_text v n \<longleftrightarrow> ln_source n \<noteq> [] \<and> ln_identifier n \<noteq> [] \<and> ln_note n \<noteq> [] \<and>
     is_dict v [(''source'', (=) (LStr (ln_source n))), (''identifier'', (=) (LStr (ln_identifier n))),
                (''note'', (=) (LStr (ln_note n)))]"

definition document_text :: "pyjson \<Rightarrow> archive_record list \<Rightarrow> license_notice list \<Rightarrow> bool" where
  "document_text v archives notices \<longleftrightarrow> is_dict v
     ([(''schema_version'', equals_one), (''raw_redistribution'', (=) (LBool False)),
       (''archives'', \<lambda>x. \<exists>xs. x = LList xs \<and> list_all2 archive_text xs archives),
       (''license_notices'', \<lambda>x. \<exists>xs. x = LList xs \<and> list_all2 notice_text xs notices)]
      @ map (\<lambda>(k, t). (k, (=) (LStr (lit t)))) expected_scalars)"

definition pinned_archives :: "archive_record list" where
  "pinned_archives = map (\<lambda>(split, filename, role, size, checksum).
     \<lparr>ar_split = lit split, ar_filename = lit filename, ar_role = lit role, ar_bytes = size,
      ar_checksum_algorithm = lit ''md5'', ar_checksum_value = lit checksum\<rparr>) EXPECTED_ARCHIVES"

definition pinned_manifest :: "archive_record list \<Rightarrow> license_notice list \<Rightarrow> rcaeval_manifest" where
  "pinned_manifest archives notices =
     \<lparr>mf_schema_version = 1, mf_dataset = lit ''RCAEval RE2'',
      mf_repository_url = lit ''https://github.com/phamquiluan/RCAEval'', mf_release = MANIFEST_RELEASE,
      mf_annotated_tag_object = lit ''5f22afb1cd9e383f52c41c2e8e99c8ef930db5d8'', mf_release_commit = MANIFEST_COMMIT,
      mf_archive_record_url = lit ''https://zenodo.org/records/14590730'',
      mf_archive_api_url = lit ''https://zenodo.org/api/records/14590730'', mf_record_doi = lit ''10.5281/zenodo.14590730'',
      mf_metadata_publication_date = ymd2ord (2024, 1, 3), mf_record_created_at = Aware 1735905963078444 (Some 0),
      mf_metadata_retrieved_on = ymd2ord (2026, 7, 16), mf_raw_redistribution = False, mf_archives = archives,
      mf_license_notices = notices\<rparr>"

section \<open>The reader is exact\<close>

lemma manifest_step [simp]:
  "mapping_with v keys = Inr d \<longleftrightarrow> v = LDict d \<and> fst ` set d = lit ` set keys"
  "manifest_field d k = Inr x \<longleftrightarrow> map_of d (lit k) = Some x"
  "text_field d k = Inr t \<longleftrightarrow> map_of d (lit k) = Some (LStr t) \<and> t \<noteq> []"
  "list_field d k = Inr xs \<longleftrightarrow> map_of d (lit k) = Some (LList xs)"
  "accept_if b = Inr u \<longleftrightarrow> b"
proof -
  show "mapping_with v keys = Inr d \<longleftrightarrow> v = LDict d \<and> fst ` set d = lit ` set keys"
    by (cases v) (auto simp: mapping_with_def)
  show "manifest_field d k = Inr x \<longleftrightarrow> map_of d (lit k) = Some x" "accept_if b = Inr u \<longleftrightarrow> b"
    by (auto simp: manifest_field_def accept_if_def split: option.splits)
  show "text_field d k = Inr t \<longleftrightarrow> map_of d (lit k) = Some (LStr t) \<and> t \<noteq> []"
    "list_field d k = Inr xs \<longleftrightarrow> map_of d (lit k) = Some (LList xs)"
    by (cases "map_of d (lit k)"; auto simp: text_field_def list_field_def manifest_field_def split: pyjson.split)+
qed

lemma parse_notice_iff: "parse_notice v = Inr n \<longleftrightarrow> notice_text v n"
  by (cases n) (auto simp: parse_notice_def notice_text_def is_dict_def rbind_eq_Inr)

lemma pinned_hex: "a \<in> set pinned_archives \<Longrightarrow> hex_of_length 32 (ar_checksum_value a)"
  by (auto simp: pinned_archives_def EXPECTED_ARCHIVES_def hex_of_length_def lit_def)

lemma parse_archive_iff: "parse_archive v = Inr a \<longleftrightarrow> archive_text v a \<and> a \<in> set pinned_archives"
proof
  assume "parse_archive v = Inr a"
  then show "archive_text v a \<and> a \<in> set pinned_archives"
    by (auto simp: parse_archive_def archive_text_def is_dict_def rbind_eq_Inr EXPECTED_ARCHIVES_def pinned_archives_def
        split: option.splits if_splits)
next
  assume a: "archive_text v a \<and> a \<in> set pinned_archives"
  then show "parse_archive v = Inr a"
    using pinned_hex [of a]
    by (auto simp: parse_archive_def archive_text_def is_dict_def rbind_eq_Inr EXPECTED_ARCHIVES_def pinned_archives_def
        split: option.splits)
qed

lemma pinned_splits:
  "ar_split ` set pinned_archives = lit ` set (map fst EXPECTED_ARCHIVES)" "inj_on ar_split (set pinned_archives)"
  "distinct pinned_archives" "length pinned_archives = 3"
  by (auto simp: pinned_archives_def EXPECTED_ARCHIVES_def inj_on_def)

lemma archives_complete_iff:
  assumes "set as \<subseteq> set pinned_archives"
  shows "ar_split ` set as = lit ` set (map fst EXPECTED_ARCHIVES) \<and> length as = 3 \<longleftrightarrow> mset as = mset pinned_archives"
proof
  assume l: "ar_split ` set as = lit ` set (map fst EXPECTED_ARCHIVES) \<and> length as = 3"
  then have "ar_split ` set as = ar_split ` set pinned_archives" by (simp add: pinned_splits)
  then have same: "set as = set pinned_archives"
    using inj_on_image_eq_iff [OF pinned_splits(2) assms subset_refl] by blast
  then have "card (set as) = length as" using l distinct_card [OF pinned_splits(3)] pinned_splits(4) by simp
  then have "distinct as" by (rule card_distinct)
  then show "mset as = mset pinned_archives" using same pinned_splits(3) set_eq_iff_mset_eq_distinct by blast
next
  assume "mset as = mset pinned_archives"
  then have "set as = set pinned_archives" "length as = length pinned_archives" by (auto dest: mset_eq_setD mset_eq_length)
  then show "ar_split ` set as = lit ` set (map fst EXPECTED_ARCHIVES) \<and> length as = 3" by (simp add: pinned_splits)
qed

lemmas date_defs = parse_date_def fixed_digits_def byte_at_def Let_def is_digit_def digits_value_def skip_byte_def
  valid_date_def ymd2ord_def is_leap_def days_before_month_def

lemma pinned_days:
  "iso_date (lit ''2024-01-03'') = Inr (ymd2ord (2024, 1, 3))" "iso_date (lit ''2026-07-16'') = Inr (ymd2ord (2026, 7, 16))"
  by (simp_all add: iso_date_def lit_def utf8_char_def date_defs)

lemma pinned_instant:
  "iso_instant (lit ''2025-01-03T12:06:03.078444+00:00'') = Inr (Aware 1735905963078444 (Some 0))"
proof -
  let ?date = "[50, 48, 50, 53, 45, 48, 49, 45, 48, 51] :: nat list"
  let ?time = "[49, 50, 58, 48, 54, 58, 48, 51, 46, 48, 55, 56, 52, 52, 52, 43, 48, 48, 58, 48, 48] :: nat list"
  have "utf8 (lit ''2025-01-03T12:06:03.078444+00:00'') = Some (?date @ 84 # ?time)"
    by (simp add: lit_def utf8_char_def)
  moreover have "parse_date (?date @ 84 # ?time) 10 = Some 739253" by (simp add: date_defs)
  moreover have "parse_time ?time = Some (43563078444, Some 0)"
    by (simp add: parse_time_def time_parts_def is_zone_start_def clock_us_def zone_offset_def total_seconds_def
        numeral_3_eq_3 date_defs)
  ultimately show ?thesis
    by (simp add: iso_instant_def fromisoformat_def separator_position_def byte_at_def in_calendar_def min_instant_def
        max_instant_def separator_width_def Let_def)
qed

lemmas pinned_dates = pinned_days pinned_instant

lemma pinned_texts:
  "https_url (lit ''https://github.com/phamquiluan/RCAEval'') = Inr (lit ''https://github.com/phamquiluan/RCAEval'')"
  "https_url (lit ''https://zenodo.org/records/14590730'') = Inr (lit ''https://zenodo.org/records/14590730'')"
  "https_url (lit ''https://zenodo.org/api/records/14590730'') = Inr (lit ''https://zenodo.org/api/records/14590730'')"
  "hex_of_length 40 (lit ''5f22afb1cd9e383f52c41c2e8e99c8ef930db5d8'')"
  "hex_of_length 40 (lit ''bc49dbd85bd14032101fb9a69a5a37e9d6d55178'')"
  by (simp_all add: https_url_def accept_if_def hex_of_length_def lit_def ascii_lower_def)

lemma archives_read:
  "rmap parse_archive xs = Inr as \<and> ar_split ` set as = lit ` set (map fst EXPECTED_ARCHIVES) \<and> length as = 3 \<longleftrightarrow>
   list_all2 archive_text xs as \<and> mset as = mset pinned_archives"
proof -
  have "rmap parse_archive xs = Inr as \<longleftrightarrow> list_all2 (\<lambda>x a. archive_text x a \<and> a \<in> set pinned_archives) xs as"
    by (simp add: rmap_eq_Inr parse_archive_iff)
  also have "\<dots> \<longleftrightarrow> list_all2 archive_text xs as \<and> set as \<subseteq> set pinned_archives"
    by (induction xs as rule: list_induct2') auto
  finally have "rmap parse_archive xs = Inr as \<longleftrightarrow> list_all2 archive_text xs as \<and> set as \<subseteq> set pinned_archives" .
  moreover have "set as \<subseteq> set pinned_archives" if "mset as = mset pinned_archives"
    using mset_eq_setD [OF that] by simp
  ultimately show ?thesis using archives_complete_iff by blast
qed

lemma notices_read: "rmap parse_notice xs = Inr ns \<longleftrightarrow> list_all2 notice_text xs ns"
  by (simp add: rmap_eq_Inr parse_notice_iff)

lemma scalars_match: "list_all (scalar_matches d) expected_scalars \<longleftrightarrow>
   list_all (\<lambda>(k, P). \<exists>x. map_of d (lit k) = Some x \<and> P x) (map (\<lambda>(k, t). (k, (=) (LStr (lit t)))) expected_scalars)"
  by (auto simp: list_all_iff scalar_matches_def)

lemma document_keys: "set (map fst ([(''schema_version'', equals_one), (''raw_redistribution'', (=) (LBool False)), (''archives'', P),
   (''license_notices'', Q)] @ map (\<lambda>(k, t). (k, (=) (LStr (lit t)))) expected_scalars)) = set TOP_KEYS"
  by (auto simp: TOP_KEYS_def expected_scalars_def)

lemma read_parts:
  assumes d: "raw = LDict d" "fst ` set d = lit ` set TOP_KEYS"
      "map_of d (lit ''schema_version'') = Some version" "equals_one version"
      "map_of d (lit ''raw_redistribution'') = Some (LBool False)" "list_all (scalar_matches d) expected_scalars"
    and l: "map_of d (lit ''archives'') = Some (LList xs)" "rmap parse_archive xs = Inr archives"
      "ar_split ` set archives = lit ` set (map fst EXPECTED_ARCHIVES) \<and> length archives = 3"
      "map_of d (lit ''license_notices'') = Some (LList ns)" "rmap parse_notice ns = Inr notices"
      "notice_key ` set notices = map_prod lit lit ` set expected_notices"
  shows "manifest_of raw = Inr (pinned_manifest archives notices)"
proof -
  have scalar: "text_field d k = Inr (lit t)" if "(k, t) \<in> set expected_scalars" "t \<noteq> []" for k t
    using d(6) that by (auto simp: list_all_iff scalar_matches_def)
  have texts: "text_field d ''dataset'' = Inr (lit ''RCAEval RE2'')"
    "text_field d ''repository_url'' = Inr (lit ''https://github.com/phamquiluan/RCAEval'')"
    "text_field d ''release'' = Inr (lit ''1.2.0'')"
    "text_field d ''annotated_tag_object'' = Inr (lit ''5f22afb1cd9e383f52c41c2e8e99c8ef930db5d8'')"
    "text_field d ''release_commit'' = Inr (lit ''bc49dbd85bd14032101fb9a69a5a37e9d6d55178'')"
    "text_field d ''archive_record_url'' = Inr (lit ''https://zenodo.org/records/14590730'')"
    "text_field d ''archive_api_url'' = Inr (lit ''https://zenodo.org/api/records/14590730'')"
    "text_field d ''record_doi'' = Inr (lit ''10.5281/zenodo.14590730'')"
    "text_field d ''metadata_publication_date'' = Inr (lit ''2024-01-03'')"
    "text_field d ''record_created_at'' = Inr (lit ''2025-01-03T12:06:03.078444+00:00'')"
    "text_field d ''metadata_retrieved_on'' = Inr (lit ''2026-07-16'')"
    by (rule scalar; simp add: expected_scalars_def)+
  have others: "mapping_with raw TOP_KEYS = Inr d" "manifest_field d ''schema_version'' = Inr version"
    "manifest_field d ''raw_redistribution'' = Inr (LBool False)" "list_field d ''archives'' = Inr xs"
    "list_field d ''license_notices'' = Inr ns"
    using d l by simp_all
  have accept: "accept_if b = Inr ()" if b for b using that by simp
  note checks = accept [OF conjI [OF d(4) refl]] accept [OF d(6)] accept [OF conjI [OF pinned_texts(4,5)]]
    accept [OF l(3)] accept [OF l(6)]
  show ?thesis
    unfolding manifest_of_def others texts l(2,5) pinned_dates pinned_texts rbind_simps checks
    by (simp add: pinned_manifest_def MANIFEST_RELEASE_def MANIFEST_COMMIT_def)
qed

lemma manifest_parts:
  assumes "manifest_of raw = Inr m"
  obtains d version archives notices xs ns where "raw = LDict d" "fst ` set d = lit ` set TOP_KEYS"
      "map_of d (lit ''schema_version'') = Some version" "equals_one version"
      "map_of d (lit ''raw_redistribution'') = Some (LBool False)" "list_all (scalar_matches d) expected_scalars"
      "map_of d (lit ''archives'') = Some (LList xs)" "rmap parse_archive xs = Inr archives"
      "ar_split ` set archives = lit ` set (map fst EXPECTED_ARCHIVES) \<and> length archives = 3"
      "map_of d (lit ''license_notices'') = Some (LList ns)" "rmap parse_notice ns = Inr notices"
      "notice_key ` set notices = map_prod lit lit ` set expected_notices"
  using assms unfolding manifest_of_def rbind_eq_Inr manifest_step
  by (elim exE conjE) (rule that, (assumption | hypsubst | rule conjI)+)

text \<open>
  C40. Only the pinned provenance is accepted: a JSON value is read as a manifest exactly when it spells
  out, in any order of its fields, the pinned scalars, the three pinned archives in some order, and
  license notices for exactly the two pinned sources; the result is then that manifest, and its release
  and commit are those the label sidecar records. (The schema version may also be true or 1.0.)
\<close>

theorem manifest_is_pinned:
  "manifest_of raw = Inr m \<longleftrightarrow>
     (\<exists>archives notices. document_text raw archives notices \<and> mset archives = mset pinned_archives \<and>
        notice_key ` set notices = map_prod lit lit ` set expected_notices \<and> m = pinned_manifest archives notices)"
proof
  assume m: "manifest_of raw = Inr m"
  then obtain d version archives notices xs ns where d: "raw = LDict d" "fst ` set d = lit ` set TOP_KEYS"
      "map_of d (lit ''schema_version'') = Some version" "equals_one version"
      "map_of d (lit ''raw_redistribution'') = Some (LBool False)" "list_all (scalar_matches d) expected_scalars"
      "map_of d (lit ''archives'') = Some (LList xs)" "rmap parse_archive xs = Inr archives"
      "ar_split ` set archives = lit ` set (map fst EXPECTED_ARCHIVES) \<and> length archives = 3"
      "map_of d (lit ''license_notices'') = Some (LList ns)" "rmap parse_notice ns = Inr notices"
      "notice_key ` set notices = map_prod lit lit ` set expected_notices"
    by (rule manifest_parts)
  have m: "m = pinned_manifest archives notices" using read_parts [OF d] m by simp
  have read: "list_all2 archive_text xs archives \<and> mset archives = mset pinned_archives" "list_all2 notice_text ns notices"
    using archives_read [of xs archives] notices_read [of ns notices] d(8,9,11) by blast+
  have "document_text raw archives notices"
    unfolding document_text_def is_dict_def document_keys using d read by (simp add: scalars_match)
  then show "\<exists>archives notices. document_text raw archives notices \<and> mset archives = mset pinned_archives \<and>
      notice_key ` set notices = map_prod lit lit ` set expected_notices \<and> m = pinned_manifest archives notices"
    using m d(12) read(1) by blast
next
  assume "\<exists>archives notices. document_text raw archives notices \<and> mset archives = mset pinned_archives \<and>
    notice_key ` set notices = map_prod lit lit ` set expected_notices \<and> m = pinned_manifest archives notices"
  then obtain archives notices where p: "document_text raw archives notices" "mset archives = mset pinned_archives"
    "notice_key ` set notices = map_prod lit lit ` set expected_notices" "m = pinned_manifest archives notices" by blast
  then obtain d version xs ns where d: "raw = LDict d" "fst ` set d = lit ` set TOP_KEYS"
      "map_of d (lit ''schema_version'') = Some version" "equals_one version"
      "map_of d (lit ''raw_redistribution'') = Some (LBool False)" "list_all (scalar_matches d) expected_scalars"
      "map_of d (lit ''archives'') = Some (LList xs)" "list_all2 archive_text xs archives"
      "map_of d (lit ''license_notices'') = Some (LList ns)" "list_all2 notice_text ns notices"
    unfolding document_text_def is_dict_def document_keys by (auto simp: scalars_match)
  have "rmap parse_archive xs = Inr archives \<and> ar_split ` set archives = lit ` set (map fst EXPECTED_ARCHIVES) \<and>
      length archives = 3"
    using archives_read d(8) p(2) by blast
  moreover have "rmap parse_notice ns = Inr notices" using notices_read d(10) by blast
  ultimately show "manifest_of raw = Inr m"
    unfolding p(4) by (intro read_parts [OF d(1-7) _ _ d(9) _ p(3)]) simp_all
qed

text \<open>The committed manifest, as \<^verbatim>\<open>docs/datasets/rcaeval-re2.manifest.json\<close> spells it out.\<close>

definition committed_notices :: "license_notice list" where
  "committed_notices =
     [\<lparr>ln_source = lit ''pinned_repository'', ln_identifier = lit ''MIT'',
       ln_note = lit ''Repository LICENSE and release README state MIT for author code/datasets.''\<rparr>,
      \<lparr>ln_source = lit ''zenodo_record_14590730'', ln_identifier = lit ''CC-BY-4.0'',
       ln_note = lit ''Archive metadata identifies CC-BY-4.0; discrepancy remains unresolved.''\<rparr>]"

definition archive_json :: "archive_record \<Rightarrow> pyjson" where
  "archive_json a = LDict
     [(lit ''split'', LStr (ar_split a)), (lit ''filename'', LStr (ar_filename a)), (lit ''role'', LStr (ar_role a)),
      (lit ''bytes'', LInt (ar_bytes a)),
      (lit ''checksum'', LDict [(lit ''algorithm'', LStr (ar_checksum_algorithm a)),
                                (lit ''value'', LStr (ar_checksum_value a))])]"

definition notice_json :: "license_notice \<Rightarrow> pyjson" where
  "notice_json n = LDict
     [(lit ''source'', LStr (ln_source n)), (lit ''identifier'', LStr (ln_identifier n)), (lit ''note'', LStr (ln_note n))]"

definition committed_document :: pyjson where
  "committed_document = LDict
     ((lit ''schema_version'', LInt 1) # map (\<lambda>(k, t). (lit k, LStr (lit t))) expected_scalars @
      [(lit ''raw_redistribution'', LBool False), (lit ''archives'', LList (map archive_json pinned_archives)),
       (lit ''license_notices'', LList (map notice_json committed_notices))])"

lemma committed_parts: "archive_text (archive_json a) a"
  "ln_source n \<noteq> [] \<Longrightarrow> ln_identifier n \<noteq> [] \<Longrightarrow> ln_note n \<noteq> [] \<Longrightarrow> notice_text (notice_json n) n"
  by (simp_all add: archive_text_def archive_json_def notice_text_def notice_json_def is_dict_def)

lemma committed_text: "document_text committed_document pinned_archives committed_notices"
proof -
  have "list_all2 archive_text (map archive_json pinned_archives) pinned_archives"
    by (simp add: list_all2_conv_all_nth committed_parts)
  moreover have "list_all2 notice_text (map notice_json committed_notices) committed_notices"
    by (simp add: committed_notices_def committed_parts)
  ultimately show ?thesis
    by (simp add: document_text_def is_dict_def committed_document_def expected_scalars_def equals_one_def) blast
qed

theorem manifest_is_pinned_witness:
  "manifest_of committed_document = Inr (pinned_manifest pinned_archives committed_notices)"
proof -
  have "notice_key ` set committed_notices = map_prod lit lit ` set expected_notices"
    by (simp add: committed_notices_def expected_notices_def notice_key_def)
  then show ?thesis using manifest_is_pinned committed_text by blast
qed

end
