(* ===== verification/Metrics.thy ===== *)
theory Metrics
  imports Domain_Core "HOL-Library.AList"
begin

text \<open>
  \<^verbatim>\<open>observability/metrics.py\<close>: counters, cumulative histograms, timers and the registry with its
  idempotent registration. Values are IEEE numbers; a count added to a counter is converted as
  Python converts it, which raises for an integer beyond the range. The locks only make each
  operation atomic. The text exposition is in \<^verbatim>\<open>Metrics_Text\<close>.
\<close>

datatype metric_error = MetricValueError | MetricOverflowError

definition DEFAULT_LATENCY_BUCKETS :: "f64 list" where
  "DEFAULT_LATENCY_BUCKETS = map (fround False)
     [5 / 1000, 1 / 100, 25 / 1000, 5 / 100, 1 / 10, 25 / 100, 1 / 2, 1, 5 / 2, 5, 10, 30, 60]"

definition metric_name_char :: "nat \<Rightarrow> bool" where
  "metric_name_char c \<longleftrightarrow> (97 \<le> c \<and> c \<le> 122) \<or> (65 \<le> c \<and> c \<le> 90) \<or> (48 \<le> c \<and> c \<le> 57) \<or> c = 95 \<or> c = 58"

definition validate_name :: "pystr \<Rightarrow> metric_error + pystr" where
  "validate_name name =
     (if name = [] \<or> (48 \<le> hd name \<and> hd name \<le> 57) \<or> list_ex (\<lambda>c. \<not> metric_name_char c) name
      then Inl MetricValueError else Inr name)"

type_synonym label_key = "pystr list"

definition check_labels :: "pystr list \<Rightarrow> pystr list \<Rightarrow> metric_error + label_key" where
  "check_labels labelnames labels =
     (if length labels \<noteq> length labelnames then Inl MetricValueError else Inr labels)"

section \<open>Counters\<close>

record counter =
  ct_name :: pystr
  ct_documentation :: pystr
  ct_labelnames :: "pystr list"
  ct_values :: "(label_key \<times> f64) list"

definition make_counter :: "pystr \<Rightarrow> pystr \<Rightarrow> pystr list \<Rightarrow> metric_error + counter" where
  "make_counter name documentation labelnames =
     rbind (validate_name name) (\<lambda>n. Inr \<lparr>ct_name = n, ct_documentation = documentation,
       ct_labelnames = labelnames, ct_values = []\<rparr>)"

fun negative_amount :: "pynum \<Rightarrow> bool" where
  "negative_amount (PyBool b) = False"
| "negative_amount (PyInt i) = (i < 0)"
| "negative_amount (PyFloat x) = flt x (fzero False)"

definition value_at :: "'v \<Rightarrow> (label_key \<times> 'v) list \<Rightarrow> label_key \<Rightarrow> 'v" where
  "value_at dflt d key = (case map_of d key of None \<Rightarrow> dflt | Some v \<Rightarrow> v)"

definition counter_inc :: "pynum \<Rightarrow> pystr list \<Rightarrow> counter \<Rightarrow> metric_error + counter" where
  "counter_inc amount labels c =
     (if negative_amount amount then Inl MetricValueError
      else rbind (check_labels (ct_labelnames c) labels) (\<lambda>key.
        case py_float amount of
          None \<Rightarrow> Inl MetricOverflowError
        | Some a \<Rightarrow> Inr (c\<lparr>ct_values := AList.update key (fadd (value_at (fzero False) (ct_values c) key) a) (ct_values c)\<rparr>)))"

section \<open>Histograms\<close>

record histogram =
  hg_name :: pystr
  hg_documentation :: pystr
  hg_labelnames :: "pystr list"
  hg_bounds :: "f64 list"
  hg_counts :: "(label_key \<times> int list) list"
  hg_sums :: "(label_key \<times> f64) list"
  hg_totals :: "(label_key \<times> int) list"

definition make_histogram :: "pystr \<Rightarrow> pystr \<Rightarrow> f64 list \<Rightarrow> pystr list \<Rightarrow> metric_error + histogram" where
  "make_histogram name documentation buckets labelnames =
     rbind (validate_name name) (\<lambda>n.
       let bounds = sort_key fval buckets in
       if bounds = [] then Inl MetricValueError
       else Inr \<lparr>hg_name = n, hg_documentation = documentation, hg_labelnames = labelnames, hg_bounds = bounds,
         hg_counts = [], hg_sums = [], hg_totals = []\<rparr>)"

definition bump :: "f64 \<Rightarrow> f64 list \<Rightarrow> int list \<Rightarrow> int list" where
  "bump value bounds counts = map (\<lambda>(bound, n). if fle value bound then n + 1 else n) (zip bounds counts)"

definition histogram_observe :: "f64 \<Rightarrow> pystr list \<Rightarrow> histogram \<Rightarrow> metric_error + histogram" where
  "histogram_observe value labels h =
     rbind (check_labels (hg_labelnames h) labels) (\<lambda>key.
       let counts = value_at (replicate (length (hg_bounds h)) 0) (hg_counts h) key in
       Inr (h\<lparr>hg_counts := AList.update key (bump value (hg_bounds h) counts) (hg_counts h),
              hg_sums := AList.update key (fadd (value_at (fzero False) (hg_sums h) key) value) (hg_sums h),
              hg_totals := AList.update key (value_at 0 (hg_totals h) key + 1) (hg_totals h)\<rparr>))"

text \<open>Leaving a timed scope, with the two readings of \<^verbatim>\<open>perf_counter\<close>.\<close>

definition timer_exit :: "f64 \<Rightarrow> f64 \<Rightarrow> pystr list \<Rightarrow> histogram \<Rightarrow> metric_error + histogram" where
  "timer_exit start stop labels h = histogram_observe (fsub stop start) labels h"

section \<open>The registry\<close>

record registry =
  rg_counters :: "(pystr \<times> counter) list"
  rg_histograms :: "(pystr \<times> histogram) list"

definition empty_registry :: registry where
  "empty_registry = \<lparr>rg_counters = [], rg_histograms = []\<rparr>"

definition registry_counter :: "pystr \<Rightarrow> pystr \<Rightarrow> pystr list \<Rightarrow> registry \<Rightarrow> metric_error + counter \<times> registry" where
  "registry_counter name documentation labelnames g =
     (case map_of (rg_counters g) name of
        Some existing \<Rightarrow> Inr (existing, g)
      | None \<Rightarrow> rbind (make_counter name documentation labelnames) (\<lambda>c.
          Inr (c, g\<lparr>rg_counters := AList.update name c (rg_counters g)\<rparr>)))"

definition registry_histogram ::
  "pystr \<Rightarrow> pystr \<Rightarrow> f64 list \<Rightarrow> pystr list \<Rightarrow> registry \<Rightarrow> metric_error + histogram \<times> registry" where
  "registry_histogram name documentation buckets labelnames g =
     (case map_of (rg_histograms g) name of
        Some existing \<Rightarrow> Inr (existing, g)
      | None \<Rightarrow> rbind (make_histogram name documentation buckets labelnames) (\<lambda>h.
          Inr (h, g\<lparr>rg_histograms := AList.update name h (rg_histograms g)\<rparr>)))"

text \<open>
  The objects the registry hands out are shared: an update through one holder is an update of
  the entry. A holder that looks up a name it has registered always finds it.
\<close>

definition registry_inc :: "pystr \<Rightarrow> pynum \<Rightarrow> pystr list \<Rightarrow> registry \<Rightarrow> metric_error + registry" where
  "registry_inc name amount labels g =
     (case map_of (rg_counters g) name of
        None \<Rightarrow> Inl MetricValueError
      | Some c \<Rightarrow> rbind (counter_inc amount labels c) (\<lambda>c'. Inr (g\<lparr>rg_counters := AList.update name c' (rg_counters g)\<rparr>)))"

definition registry_observe :: "pystr \<Rightarrow> f64 \<Rightarrow> f64 \<Rightarrow> pystr list \<Rightarrow> registry \<Rightarrow> metric_error + registry" where
  "registry_observe name start stop labels g =
     (case map_of (rg_histograms g) name of
        None \<Rightarrow> Inl MetricValueError
      | Some h \<Rightarrow> rbind (timer_exit start stop labels h) (\<lambda>h'. Inr (g\<lparr>rg_histograms := AList.update name h' (rg_histograms g)\<rparr>)))"

section \<open>Histograms count exactly\<close>

fun observe_all :: "(pystr list \<times> f64) list \<Rightarrow> histogram \<Rightarrow> metric_error + histogram" where
  "observe_all [] h = Inr h"
| "observe_all ((labels, v) # obs) h = rbind (histogram_observe v labels h) (observe_all obs)"

text \<open>The observations of one label set.\<close>

definition observed :: "(pystr list \<times> f64) list \<Rightarrow> label_key \<Rightarrow> f64 list" where
  "observed obs key = map snd (filter (\<lambda>o'. fst o' = key) obs)"

definition exact_counts :: "f64 list \<Rightarrow> f64 list \<Rightarrow> int list" where
  "exact_counts bounds vs = map (\<lambda>b. int (length (filter (\<lambda>v. fle v b) vs))) bounds"

lemma bump_exact: "bump v bounds (exact_counts bounds vs) = exact_counts bounds (vs @ [v])"
  by (induction bounds) (simp_all add: bump_def exact_counts_def)

lemma histogram_observe_Inr:
  assumes "histogram_observe v labels h = Inr h'"
  shows "hg_bounds h' = hg_bounds h" "hg_labelnames h' = hg_labelnames h" "length labels = length (hg_labelnames h)"
    and "value_at 0 (hg_totals h') key = value_at 0 (hg_totals h) key + (if key = labels then 1 else 0)"
    and "value_at (replicate (length (hg_bounds h)) 0) (hg_counts h') key =
       (let old = value_at (replicate (length (hg_bounds h)) 0) (hg_counts h) key
        in if key = labels then bump v (hg_bounds h) old else old)"
proof -
  have l: "length labels = length (hg_labelnames h)"
    and h': "h' = h\<lparr>hg_counts := AList.update labels (bump v (hg_bounds h)
          (value_at (replicate (length (hg_bounds h)) 0) (hg_counts h) labels)) (hg_counts h),
        hg_sums := AList.update labels (fadd (value_at (fzero False) (hg_sums h) labels) v) (hg_sums h),
        hg_totals := AList.update labels (value_at 0 (hg_totals h) labels + 1) (hg_totals h)\<rparr>"
    using assms by (simp_all add: histogram_observe_def check_labels_def Let_def split: if_splits)
  show "hg_bounds h' = hg_bounds h" "hg_labelnames h' = hg_labelnames h" "length labels = length (hg_labelnames h)"
    by (simp_all add: h' l)
  show "value_at 0 (hg_totals h') key = value_at 0 (hg_totals h) key + (if key = labels then 1 else 0)"
    by (simp add: h' value_at_def update_conv')
  show "value_at (replicate (length (hg_bounds h)) 0) (hg_counts h') key =
       (let old = value_at (replicate (length (hg_bounds h)) 0) (hg_counts h) key
        in if key = labels then bump v (hg_bounds h) old else old)"
    by (simp add: h' value_at_def update_conv' Let_def)
qed

lemma observe_all_exact:
  assumes "observe_all obs h = Inr h'"
    and "value_at (replicate (length (hg_bounds h)) 0) (hg_counts h) key = exact_counts (hg_bounds h) vs"
    and "value_at 0 (hg_totals h) key = int (length vs)"
  shows "hg_bounds h' = hg_bounds h \<and>
    value_at (replicate (length (hg_bounds h')) 0) (hg_counts h') key = exact_counts (hg_bounds h') (vs @ observed obs key) \<and>
    value_at 0 (hg_totals h') key = int (length (vs @ observed obs key))"
  using assms
proof (induction obs arbitrary: h vs)
  case Nil
  then show ?case by (simp add: observed_def)
next
  case (Cons o' obs)
  obtain labels v where o': "o' = (labels, v)" by (cases o')
  with Cons.prems(1) obtain h1 where h1: "histogram_observe v labels h = Inr h1" "observe_all obs h1 = Inr h'"
    by (auto simp: res_simps)
  note step = histogram_observe_Inr(1) [OF h1(1)] histogram_observe_Inr(4,5) [OF h1(1), of key]
  let ?vs = "if key = labels then vs @ [v] else vs"
  have c: "value_at (replicate (length (hg_bounds h1)) 0) (hg_counts h1) key = exact_counts (hg_bounds h1) ?vs"
    using step Cons.prems(2) bump_exact [of v "hg_bounds h" vs] by (simp add: Let_def)
  have t: "value_at 0 (hg_totals h1) key = int (length ?vs)"
    using step Cons.prems(3) by simp
  have "?vs @ observed obs key = vs @ observed (o' # obs) key"
    by (simp add: observed_def o')
  note eq = this
  show ?case
    using Cons.IH [OF h1(2) c t] unfolding eq step(1) .
qed

lemma fle_trans_bound: "fle v a \<Longrightarrow> fval a \<le> fval b \<Longrightarrow> \<not> isnan b \<Longrightarrow> fle v b"
  by (auto simp: fle_def)

section \<open>Properties\<close>

text \<open>
  C22. Histograms are exact and cumulative: starting from a new histogram whose bounds are
  numbers, after any sequence of observations the count of each bucket of a label set is the
  number of that label set's observations not above the bucket's bound, the counts never
  decrease along the buckets, and none exceeds the total, which is the number of observations.
\<close>

theorem histogram_is_cumulative:
  assumes "make_histogram name doc buckets labelnames = Inr h" "list_all (\<lambda>b. \<not> isnan b) buckets"
    and "observe_all obs h = Inr h'"
  shows "let counts = value_at (replicate (length (hg_bounds h')) 0) (hg_counts h') key in
      counts = map (\<lambda>b. int (length (filter (\<lambda>v. fle v b) (observed obs key)))) (hg_bounds h') \<and>
      sorted counts \<and> list_all (\<lambda>n. n \<le> value_at 0 (hg_totals h') key) counts \<and>
      value_at 0 (hg_totals h') key = int (length (observed obs key)) \<and> length counts = length buckets"
proof -
  have h: "hg_bounds h = sort_key fval buckets" "hg_counts h = []" "hg_totals h = []"
    using assms(1) by (auto simp: make_histogram_def res_simps Let_def)
  have start: "value_at (replicate (length (hg_bounds h)) 0) (hg_counts h) key = exact_counts (hg_bounds h) []"
    "value_at 0 (hg_totals h) key = int (length ([] :: f64 list))"
    by (simp_all add: h value_at_def exact_counts_def map_replicate_const)
  note exact = observe_all_exact [OF assms(3) start]
  note e = exact [THEN conjunct1] exact [THEN conjunct2, THEN conjunct1] exact [THEN conjunct2, THEN conjunct2]
  let ?c = "exact_counts (hg_bounds h') (observed obs key)"
  have bounds: "sorted (map fval (hg_bounds h'))" "\<forall>b \<in> set (hg_bounds h'). \<not> isnan b"
    using assms(2) by (simp_all add: e(1) h list_all_iff)
  have "length (filter (\<lambda>v. fle v a) vs) \<le> length (filter (\<lambda>v. fle v b) vs)"
    if "fval a \<le> fval b" "\<not> isnan b" for a b vs
    using fle_trans_bound [OF _ that] by (induction vs) auto
  then have "sorted ?c"
    using bounds by (auto simp: exact_counts_def sorted_iff_nth_mono)
  moreover have "list_all (\<lambda>n. n \<le> int (length (observed obs key))) ?c"
    by (simp add: exact_counts_def list_all_iff)
  moreover have c: "value_at (replicate (length (hg_bounds h')) 0) (hg_counts h') key = ?c"
    "value_at 0 (hg_totals h') key = int (length (observed obs key))" "length (hg_bounds h') = length buckets"
    using e(2,3) by (simp_all add: e(1) h(1))
  ultimately show ?thesis
    unfolding Let_def c(1,2) by (simp add: exact_counts_def c(3))
qed

theorem histogram_is_cumulative_witness:
  "\<exists>h h'. make_histogram (lit ''iec_stage'') (lit ''x'') [float_one] [lit ''stage''] = Inr h \<and>
     observe_all [([lit ''llm''], fzero False), ([lit ''llm''], float_one)] h = Inr h' \<and>
     sorted (value_at (replicate (length (hg_bounds h')) 0) (hg_counts h') [lit ''llm''])"
proof -
  obtain h where h: "make_histogram (lit ''iec_stage'') (lit ''x'') [float_one] [lit ''stage''] = Inr h"
    and l: "hg_labelnames h = [lit ''stage'']"
    by (auto simp: make_histogram_def validate_name_def metric_name_char_def lit_def Let_def)
  obtain h1 where h1: "histogram_observe (fzero False) [lit ''llm''] h = Inr h1"
    by (simp add: histogram_observe_def check_labels_def l Let_def)
  then obtain h' where h': "histogram_observe float_one [lit ''llm''] h1 = Inr h'"
    using histogram_observe_Inr [OF h1] by (simp add: histogram_observe_def check_labels_def l Let_def)
  have obs: "observe_all [([lit ''llm''], fzero False), ([lit ''llm''], float_one)] h = Inr h'"
    by (simp add: h1 h')
  have "list_all (\<lambda>b. \<not> isnan b) [float_one]"
    by (simp add: isnan_def float_one_def fzero_def)
  from histogram_is_cumulative [OF h this obs, of "[lit ''llm'']"] show ?thesis
    using h obs by (auto simp: Let_def)
qed

end
