(* ===== verification/Metrics_Text.thy ===== *)
theory Metrics_Text
  imports Metrics Float_Repr
begin

text \<open>
  The text exposition of \<^verbatim>\<open>observability/metrics.py\<close>: escaping of label values, number formatting,
  the lines of a counter and of a histogram, and \<^verbatim>\<open>MetricsRegistry.render\<close>. Formatting raises for
  a NaN (\<^verbatim>\<open>ValueError\<close>) and for an infinity (\<^verbatim>\<open>OverflowError\<close>), where \<^verbatim>\<open>int(value)\<close> does.
\<close>

definition py_replace :: "nat \<Rightarrow> pystr \<Rightarrow> pystr \<Rightarrow> pystr" where
  "py_replace c t s = concat (map (\<lambda>x. if x = c then t else [x]) s)"

definition escape_label_value :: "pystr \<Rightarrow> pystr" where
  "escape_label_value v = py_replace 10 [92, 110] (py_replace 34 [92, 34] (py_replace 92 [92, 92] v))"

fun join_with :: "pystr \<Rightarrow> pystr list \<Rightarrow> pystr" where
  "join_with sep [] = []"
| "join_with sep [p] = p"
| "join_with sep (p # q # ps) = p @ sep @ join_with sep (q # ps)"

definition label_pair :: "pystr \<times> pystr \<Rightarrow> pystr" where
  "label_pair p = fst p @ [61, 34] @ escape_label_value (snd p) @ [34]"

definition render_labels :: "pystr list \<Rightarrow> label_key \<Rightarrow> pystr option \<Rightarrow> metric_error + pystr" where
  "render_labels labelnames values extra =
     (if length labelnames \<noteq> length values then Inl MetricValueError
      else let pairs = map label_pair (zip labelnames values) @ (case extra of None \<Rightarrow> [] | Some e \<Rightarrow> [e]) in
        Inr (if pairs = [] then [] else [123] @ join_with [44] pairs @ [125]))"

definition truncated :: "f64 \<Rightarrow> int" where
  "truncated x = (if fval x < 0 then - \<lfloor>- fval x\<rfloor> else \<lfloor>fval x\<rfloor>)"

definition format_value :: "f64 \<Rightarrow> metric_error + pystr" where
  "format_value x =
     (if isnan x then Inl MetricValueError
      else if isinf x then Inl MetricOverflowError
      else Inr (if fval x = of_int (truncated x) then dec_int (truncated x) else float_repr x))"

definition sample_line :: "pystr \<Rightarrow> pystr \<Rightarrow> pystr \<Rightarrow> pystr" where
  "sample_line name labels number = name @ labels @ 32 # number"

definition header_lines :: "pystr \<Rightarrow> pystr \<Rightarrow> string \<Rightarrow> pystr list" where
  "header_lines name documentation kind =
     [lit ''# HELP '' @ name @ 32 # documentation, lit ''# TYPE '' @ name @ 32 # lit kind]"

definition counter_items :: "counter \<Rightarrow> (label_key \<times> f64) list" where
  "counter_items c =
     (let items = sort_key fst (ct_values c)
      in if items = [] \<and> ct_labelnames c = [] then [([], fzero False)] else items)"

definition counter_lines :: "counter \<Rightarrow> metric_error + pystr list" where
  "counter_lines c =
     rbind (rmap (\<lambda>(key, value).
         rbind (render_labels (ct_labelnames c) key None) (\<lambda>labels.
         rbind (format_value value) (\<lambda>number. Inr (sample_line (ct_name c) labels number))))
       (counter_items c)) (\<lambda>samples.
     Inr (header_lines (ct_name c) (ct_documentation c) ''counter'' @ samples))"

definition le_label :: "pystr \<Rightarrow> pystr" where
  "le_label number = lit ''le=\"'' @ number @ [34]"

definition bucket_name :: "histogram \<Rightarrow> pystr" where
  "bucket_name h = hg_name h @ lit ''_bucket''"

definition bucket_line :: "histogram \<Rightarrow> label_key \<Rightarrow> pystr \<Rightarrow> int \<Rightarrow> metric_error + pystr" where
  "bucket_line h key le n =
     rbind (render_labels (hg_labelnames h) key (Some (le_label le))) (\<lambda>labels.
       Inr (sample_line (bucket_name h) labels (dec_int n)))"

definition key_lines :: "histogram \<Rightarrow> label_key \<Rightarrow> metric_error + pystr list" where
  "key_lines h key =
     rbind (rmap (\<lambda>(bound, n). rbind (format_value bound) (\<lambda>le. bucket_line h key le n))
       (zip (hg_bounds h) (value_at [] (hg_counts h) key))) (\<lambda>buckets.
     rbind (bucket_line h key (lit ''+Inf'') (value_at 0 (hg_totals h) key)) (\<lambda>last_bucket.
     rbind (render_labels (hg_labelnames h) key None) (\<lambda>base.
     rbind (format_value (value_at (fzero False) (hg_sums h) key)) (\<lambda>total_sum.
     Inr (buckets @ [last_bucket, sample_line (hg_name h @ lit ''_sum'') base total_sum,
       sample_line (hg_name h @ lit ''_count'') base (dec_int (value_at 0 (hg_totals h) key))])))))"

definition histogram_lines :: "histogram \<Rightarrow> metric_error + pystr list" where
  "histogram_lines h =
     rbind (rmap (key_lines h) (sort (map fst (hg_counts h)))) (\<lambda>blocks.
     Inr (header_lines (hg_name h) (hg_documentation h) ''histogram'' @ concat blocks))"

definition render :: "registry \<Rightarrow> metric_error + pystr" where
  "render g =
     (let metrics = sort_key fst (map (\<lambda>(_, c). (ct_name c, Inl c)) (rg_counters g) @
                                  map (\<lambda>(_, h). (hg_name h, Inr h)) (rg_histograms g)) in
      rbind (rmap (\<lambda>(_, m). case m of Inl c \<Rightarrow> counter_lines c | Inr h \<Rightarrow> histogram_lines h) metrics) (\<lambda>blocks.
      let lines = concat blocks in Inr (if lines = [] then [] else join_with [10] lines @ [10])))"

section \<open>Label sets stay apart\<close>

definition escape_char :: "nat \<Rightarrow> pystr" where
  "escape_char c = (if c = 92 then [92, 92] else if c = 34 then [92, 34] else if c = 10 then [92, 110] else [c])"

lemma escape_Cons [simp]: "escape_label_value (c # s) = escape_char c @ escape_label_value s"
  by (auto simp: escape_label_value_def py_replace_def escape_char_def)

lemma escape_Nil [simp]: "escape_label_value [] = []"
  by (simp add: escape_label_value_def py_replace_def)

lemma escape_prefix: "escape_label_value s @ 34 # x = escape_label_value t @ 34 # y \<Longrightarrow> s = t \<and> x = y"
proof (induction s arbitrary: t)
  case Nil
  then show ?case by (cases t) (auto simp: escape_char_def split: if_splits)
next
  case (Cons c s)
  then obtain d u where t: "t = d # u"
    by (cases t) (auto simp: escape_char_def split: if_splits)
  with Cons.prems have "c = d \<and> escape_label_value s @ 34 # x = escape_label_value u @ 34 # y"
    by (auto simp: escape_char_def split: if_splits)
  with Cons.IH t show ?case by auto
qed

lemma label_pair_prefix: "label_pair (n, v) @ x = label_pair (n, w) @ y \<Longrightarrow> v = w \<and> x = y"
  by (auto simp: label_pair_def dest: escape_prefix)

lemma join_labels_inj:
  assumes "length vs = length ns" "length ws = length ns"
    and "join_with [44] (map label_pair (zip ns vs) @ e) = join_with [44] (map label_pair (zip ns ws) @ e)"
  shows "vs = ws"
  using assms
proof (induction ns arbitrary: vs ws)
  case (Cons n ns)
  then obtain v vs' w ws' where v: "vs = v # vs'" and w: "ws = w # ws'"
    by (metis length_Suc_conv)
  define rest where "rest = (\<lambda>us. if map label_pair (zip ns us) @ e = [] then []
    else 44 # join_with [44] (map label_pair (zip ns us) @ e))"
  have join: "join_with [44] (map label_pair (zip (n # ns) (u # us)) @ e) = label_pair (n, u) @ rest us" for u us
    by (cases "map label_pair (zip ns us) @ e") (auto simp: rest_def)
  have "label_pair (n, v) @ rest vs' = label_pair (n, w) @ rest ws'"
    using Cons.prems(3) unfolding v w join .
  then have "v = w" "rest vs' = rest ws'"
    by (auto dest: label_pair_prefix)
  moreover have "vs' = ws'"
    using Cons.IH [of vs' ws'] Cons.prems(1,2) \<open>rest vs' = rest ws'\<close>
    by (cases ns) (auto simp: v w rest_def split: if_splits)
  ultimately show ?case by (simp add: v w)
qed simp

text \<open>
  Different label sets never share a line: two sets of values of the same labels, escaped and
  rendered with the same extra label, are the same text only if they are the same values.
\<close>

theorem label_sets_render_apart:
  assumes "render_labels names vs extra = Inr t" "render_labels names ws extra = Inr t"
  shows "vs = ws"
proof (cases "names = [] \<and> extra = None")
  case False
  let ?e = "case extra of None \<Rightarrow> [] | Some e \<Rightarrow> [e]"
  have len: "length vs = length names" "length ws = length names"
    using assms by (simp_all add: render_labels_def Let_def split: if_splits)
  moreover have "map label_pair (zip names vs) @ ?e \<noteq> []" "map label_pair (zip names ws) @ ?e \<noteq> []"
    using False len by (auto split: option.splits)
  ultimately have "join_with [44] (map label_pair (zip names vs) @ ?e) = join_with [44] (map label_pair (zip names ws) @ ?e)"
    using assms by (auto simp: render_labels_def Let_def split: if_splits)
  with len show ?thesis by (rule join_labels_inj)
next
  case True
  with assms show ?thesis by (simp add: render_labels_def split: if_splits)
qed

theorem label_sets_render_apart_witness:
  "render_labels [lit ''stage''] [[97, 34, 10]] None = Inr (lit ''{stage=\"a'' @ [92, 34, 92, 110, 34, 125]) \<and>
   (\<exists>t. render_labels [lit ''stage''] [[97]] None = Inr t \<and> t \<noteq> lit ''{stage=\"a'' @ [92, 34, 92, 110, 34, 125])"
proof -
  have a: "render_labels [lit ''stage''] [[97, 34, 10]] None = Inr (lit ''{stage=\"a'' @ [92, 34, 92, 110, 34, 125])"
    by (simp add: render_labels_def Let_def label_pair_def escape_char_def lit_def)
  obtain t where t: "render_labels [lit ''stage''] [[97]] None = Inr t"
    by (simp add: render_labels_def Let_def)
  have "t \<noteq> lit ''{stage=\"a'' @ [92, 34, 92, 110, 34, 125]"
    using label_sets_render_apart [OF t] a by fastforce
  with a t show ?thesis by blast
qed

end
