(* ===== verification/Use_Cases.thy ===== *)
theory Use_Cases
  imports Unit_Of_Work
begin

text \<open>
  \<^verbatim>\<open>application/errors.py\<close>, \<^verbatim>\<open>contracts.py\<close> and \<^verbatim>\<open>use_cases.py\<close>. A use case runs in one unit of
  work: it takes the shared store and returns its result with the shared store afterwards, which
  is the working copy if it was committed and the old store if the scope was left before. The
  readings of the clock and of the identifier factory are arguments.
\<close>

datatype application_error =
    InvestigationNotFoundError
  | ReportNotReadyError
  | TelemetryUnavailableError

fun application_error_code :: "application_error \<Rightarrow> pystr" where
  "application_error_code InvestigationNotFoundError = lit ''investigation_not_found''"
| "application_error_code ReportNotReadyError = lit ''report_not_ready''"
| "application_error_code TelemetryUnavailableError = lit ''telemetry_unavailable''"

record create_investigation_command =
  cmd_tenant :: tenant_id
  cmd_incident :: incident_id
  cmd_run :: run_id
  cmd_window :: incident_window
  cmd_idempotency_key :: "pystr option"

definition DEFAULT_MAX_ATTEMPTS :: int where
  "DEFAULT_MAX_ATTEMPTS = 3"

definition pending_investigation ::
  "int \<Rightarrow> uuid \<Rightarrow> create_investigation_command \<Rightarrow> investigation_record" where
  "pending_investigation now u cmd = \<lparr>inv_investigation_id = InvestigationId u, inv_tenant = cmd_tenant cmd,
     inv_incident = cmd_incident cmd, inv_run = cmd_run cmd, inv_window = cmd_window cmd,
     inv_status = INV_PENDING, inv_idempotency_key = cmd_idempotency_key cmd,
     inv_created_at = now, inv_updated_at = now\<rparr>"

definition queued_job :: "int \<Rightarrow> int \<Rightarrow> uuid \<Rightarrow> uuid \<Rightarrow> create_investigation_command \<Rightarrow> job_record" where
  "queued_job max_attempts now u j cmd = \<lparr>job_job_id = JobId j, job_investigation_id = InvestigationId u,
     job_tenant = cmd_tenant cmd, job_status = JOB_QUEUED, job_available_at = now, job_claimed_by = None,
     job_claimed_at = None, job_lease_expires_at = None, job_attempt_count = 0,
     job_max_attempts = max_attempts, job_created_at = now, job_updated_at = now\<rparr>"

definition created_audit :: "int \<Rightarrow> uuid \<Rightarrow> create_investigation_command \<Rightarrow> audit_record" where
  "created_audit now u cmd = \<lparr>au_tenant = cmd_tenant cmd, au_investigation_id = Some (InvestigationId u),
     au_actor = lit ''control-plane'', au_action = lit ''investigation.created'', au_detail = None,
     au_occurred_at = now\<rparr>"

definition create_scope ::
  "int \<Rightarrow> int \<Rightarrow> uuid \<Rightarrow> uuid \<Rightarrow> create_investigation_command \<Rightarrow> tables
     \<Rightarrow> persistence_error + investigation_id \<times> tables" where
  "create_scope max_attempts now u j cmd s =
     rbind (make_investigation_record (pending_investigation now u cmd)) (\<lambda>r.
     rbind (investigations_create r s) (\<lambda>(stored, w).
     if inv_investigation_id stored = InvestigationId u then
       rbind (make_job_record (queued_job max_attempts now u j cmd)) (\<lambda>job.
       rbind (jobs_enqueue job w) (\<lambda>(_, w).
       rbind (make_audit_record (created_audit now u cmd)) (\<lambda>event.
       Inr (inv_investigation_id stored, audit_append event w))))
     else Inr (inv_investigation_id stored, w)))"

definition create_investigation ::
  "int \<Rightarrow> int \<Rightarrow> uuid \<Rightarrow> uuid \<Rightarrow> create_investigation_command \<Rightarrow> tables
     \<Rightarrow> (persistence_error + investigation_id) \<times> tables" where
  "create_investigation max_attempts now u j cmd s =
     (case create_scope max_attempts now u j cmd s of
        Inl e \<Rightarrow> (Inl e, s)
      | Inr (i, w) \<Rightarrow> (Inr i, w))"

definition get_investigation_status ::
  "tenant_id \<Rightarrow> investigation_id \<Rightarrow> tables \<Rightarrow> application_error + investigation_record" where
  "get_investigation_status tenant i s =
     (case investigations_get tenant i s of Inl _ \<Rightarrow> Inl InvestigationNotFoundError | Inr r \<Rightarrow> Inr r)"

definition get_report ::
  "tenant_id \<Rightarrow> investigation_id \<Rightarrow> tables \<Rightarrow> application_error + report_record" where
  "get_report tenant i s =
     (case investigations_get tenant i s of
        Inl _ \<Rightarrow> Inl InvestigationNotFoundError
      | Inr _ \<Rightarrow> (case reports_get tenant i s of Inl _ \<Rightarrow> Inl ReportNotReadyError | Inr r \<Rightarrow> Inr r))"

section \<open>What a creation does\<close>

lemma created_audit_valid: "valid_audit (created_audit now u cmd)"
  by (simp add: valid_record_iff created_audit_def is_blank_iff lit_def py_isspace_def)

lemma queued_job_valid: "valid_job (queued_job m now u j cmd) \<longleftrightarrow> 1 \<le> m"
  by (simp add: valid_record_iff queued_job_def)

lemma pending_valid: "valid_investigation (pending_investigation now u cmd) \<longleftrightarrow>
    (\<forall>k. cmd_idempotency_key cmd = Some k \<longrightarrow> \<not> is_blank k)"
  by (simp add: valid_record_iff pending_investigation_def)

definition with_new_investigation ::
  "int \<Rightarrow> int \<Rightarrow> uuid \<Rightarrow> uuid \<Rightarrow> create_investigation_command \<Rightarrow> tables \<Rightarrow> tables" where
  "with_new_investigation m now u j cmd s = audit_append (created_audit now u cmd)
     (s\<lparr>t_investigations := t_investigations s @ [(u, pending_investigation now u cmd)],
        t_jobs := t_jobs s @ [(j, queued_job m now u j cmd)]\<rparr>)"

lemma by_key_Some:
  "by_key s t key = Some r \<Longrightarrow>
     r \<in> snd ` set (t_investigations s) \<and> inv_tenant r = t \<and> inv_idempotency_key r = key \<and> key \<noteq> None"
  by (auto simp: by_key_def find_Some_iff in_set_conv_nth image_iff split: option.splits) (metis nth_mem)+

lemma by_key_row:
  assumes "store_ok s" "by_key s t key = Some r"
  shows "map_of (t_investigations s) (investigation_uuid (inv_investigation_id r)) = Some r"
  using by_key_Some [OF assms(2)] assms(1) by (force simp: store_ok_def table_ok_def list_all_iff)

text \<open>A creation that commits either replays a stored one or adds one row to each table.\<close>

lemma create_cases:
  assumes "store_ok s" "u \<notin> fst ` set (t_investigations s)" "create_investigation m now u j cmd s = (Inr i, s')"
  shows "(\<exists>r. by_key s (cmd_tenant cmd) (cmd_idempotency_key cmd) = Some r \<and> i = inv_investigation_id r \<and> s' = s) \<or>
    (by_key s (cmd_tenant cmd) (cmd_idempotency_key cmd) = None \<and> i = InvestigationId u \<and> 1 \<le> m \<and>
      (\<forall>k. cmd_idempotency_key cmd = Some k \<longrightarrow> \<not> is_blank k) \<and> j \<notin> fst ` set (t_jobs s) \<and>
      s' = with_new_investigation m now u j cmd s)"
proof -
  let ?r = "pending_investigation now u cmd"
  have run: "create_scope m now u j cmd s = Inr (i, s')"
    using assms(3) by (auto simp: create_investigation_def split: sum.splits)
  then obtain stored w where c: "investigations_create ?r s = Inr (stored, w)" and v: "valid_investigation ?r"
    by (auto simp: create_scope_def res_simps)
  show ?thesis
  proof (cases "by_key s (cmd_tenant cmd) (cmd_idempotency_key cmd)")
    case (Some r)
    have "inv_investigation_id r \<noteq> InvestigationId u"
      using by_key_row [OF assms(1) Some] assms(2) by (auto elim: map_of_absent)
    with Some run show ?thesis
      by (auto simp: create_scope_def res_simps pending_investigation_def investigations_create_def)
  next
    case None
    then have "stored = ?r" "w = s\<lparr>t_investigations := t_investigations s @ [(u, ?r)]\<rparr>"
      using c assms(2) by (auto simp: investigations_create_Inr pending_investigation_def update_absent)
    with None run c v show ?thesis
      by (auto simp: create_scope_def res_simps insert_Inr update_absent pending_investigation_def queued_job_def
          queued_job_valid [unfolded queued_job_def] pending_valid [unfolded pending_investigation_def]
          with_new_investigation_def)
  qed
qed

lemma create_new:
  assumes "u \<notin> fst ` set (t_investigations s)" "j \<notin> fst ` set (t_jobs s)" "1 \<le> m"
    and "\<forall>k. cmd_idempotency_key cmd = Some k \<longrightarrow> \<not> is_blank k"
    and "by_key s (cmd_tenant cmd) (cmd_idempotency_key cmd) = None"
  shows "create_investigation m now u j cmd s = (Inr (InvestigationId u), with_new_investigation m now u j cmd s)"
proof -
  let ?r = "pending_investigation now u cmd" and ?j = "queued_job m now u j cmd"
  have f: "inv_tenant ?r = cmd_tenant cmd" "inv_idempotency_key ?r = cmd_idempotency_key cmd"
    "inv_investigation_id ?r = InvestigationId u" "job_job_id ?j = JobId j"
    by (simp_all add: pending_investigation_def queued_job_def)
  have "make_investigation_record ?r = Inr ?r" "make_job_record ?j = Inr ?j"
    "make_audit_record (created_audit now u cmd) = Inr (created_audit now u cmd)"
    using assms(3,4) by (simp_all add: make_record_Inr pending_valid queued_job_valid created_audit_valid)
  then show ?thesis
    using assms(1,2,5)
    by (simp add: create_investigation_def create_scope_def investigations_create_def jobs_enqueue_def Let_def
        f update_absent with_new_investigation_def)
qed

lemma create_replay:
  assumes "store_ok s" "u \<notin> fst ` set (t_investigations s)"
    and "by_key s (cmd_tenant cmd) (cmd_idempotency_key cmd) = Some r"
  shows "create_investigation m now u j cmd s = (Inr (inv_investigation_id r), s)"
proof -
  have f: "inv_tenant (pending_investigation now u cmd) = cmd_tenant cmd"
    "inv_idempotency_key (pending_investigation now u cmd) = cmd_idempotency_key cmd"
    by (simp_all add: pending_investigation_def)
  have row: "map_of (t_investigations s) (investigation_uuid (inv_investigation_id r)) = Some r"
    using by_key_row [OF assms(1,3)] .
  then have "inv_investigation_id r \<noteq> InvestigationId u"
    using assms(2) by (auto elim: map_of_absent)
  moreover have "\<forall>k. cmd_idempotency_key cmd = Some k \<longrightarrow> \<not> is_blank k"
    using store_okD(1) [OF assms(1) row] by_key_Some [OF assms(3)] by (auto simp: valid_record_iff)
  then have "make_investigation_record (pending_investigation now u cmd) = Inr (pending_investigation now u cmd)"
    by (simp add: make_record_Inr pending_valid)
  ultimately show ?thesis
    using assms(3) by (simp add: create_investigation_def create_scope_def investigations_create_def f)
qed

section \<open>Properties\<close>

definition sample_command :: create_investigation_command where
  "sample_command = \<lparr>cmd_tenant = sample_tenant, cmd_incident = sample_incident, cmd_run = sample_run,
     cmd_window = sample_window, cmd_idempotency_key = Some (lit ''k1'')\<rparr>"

lemma sample_creation:
  "create_investigation 3 0 1 2 sample_command empty_store =
     (Inr (InvestigationId 1), with_new_investigation 3 0 1 2 sample_command empty_store)"
  by (rule create_new) (simp_all add: empty_store_def by_key_def sample_command_def is_blank_iff lit_def py_isspace_def)

lemma find_append_new: "find P xs = None \<Longrightarrow> P x \<Longrightarrow> find P (xs @ [x]) = Some x"
  by (induction xs) (auto split: if_splits)

lemma with_new_by_key:
  assumes "by_key s (cmd_tenant cmd) (Some k) = None" "cmd_idempotency_key cmd = Some k"
  shows "by_key (with_new_investigation m now u j cmd s) (cmd_tenant cmd) (Some k) =
    Some (pending_investigation now u cmd)"
  using assms
  by (auto simp: by_key_def with_new_investigation_def audit_append_def pending_investigation_def find_append_new)

lemma with_new_ok:
  assumes "store_ok s" "1 \<le> m" "\<forall>k. cmd_idempotency_key cmd = Some k \<longrightarrow> \<not> is_blank k"
    and "u \<notin> fst ` set (t_investigations s)" "j \<notin> fst ` set (t_jobs s)"
  shows "store_ok (with_new_investigation m now u j cmd s)"
  using assms unfolding with_new_investigation_def
  by (intro update_ok(6) created_audit_valid)
    (auto simp: store_ok_def table_ok_def pending_valid queued_job_valid, auto simp: pending_investigation_def queued_job_def)

lemma replayed_creation:
  assumes "store_ok s" "u \<notin> fst ` set (t_investigations s)"
    and "create_investigation m now u j cmd s = (Inr i, s')" "cmd_idempotency_key cmd = Some k"
    and "cmd_tenant again = cmd_tenant cmd" "cmd_idempotency_key again = Some k"
    and "u' \<notin> fst ` set (t_investigations s')"
  shows "create_investigation m' now' u' j' again s' = (Inr i, s')"
  using create_cases [OF assms(1-3)]
proof (elim disjE exE conjE)
  fix r assume r: "by_key s (cmd_tenant cmd) (cmd_idempotency_key cmd) = Some r" "i = inv_investigation_id r" "s' = s"
  with create_replay [OF assms(1), of u' again r m' now' j'] assms(4-7) show ?thesis by simp
next
  assume n: "by_key s (cmd_tenant cmd) (cmd_idempotency_key cmd) = None" "i = InvestigationId u" "1 \<le> m"
    "\<forall>k. cmd_idempotency_key cmd = Some k \<longrightarrow> \<not> is_blank k" "j \<notin> fst ` set (t_jobs s)"
    "s' = with_new_investigation m now u j cmd s"
  have "by_key s' (cmd_tenant again) (cmd_idempotency_key again) = Some (pending_investigation now u cmd)"
    using with_new_by_key [OF n(1) [unfolded assms(4)] assms(4)] assms(5,6) n(6) by simp
  moreover have "store_ok s'"
    unfolding n(6) by (rule with_new_ok [OF assms(1) n(3,4) assms(2) n(5)])
  ultimately have "create_investigation m' now' u' j' again s' =
      (Inr (inv_investigation_id (pending_investigation now u cmd)), s')"
    using assms(7) by (intro create_replay)
  then show ?thesis by (simp add: n(2) pending_investigation_def)
qed

text \<open>
  Creating an investigation is idempotent: once a creation under an idempotency key has
  succeeded, any later creation by the same tenant under the same key, whatever its other fields,
  clock and (unused) identifiers are, returns the same investigation and leaves the store, its
  queue and its audit trail as they are.
\<close>

theorem create_investigation_is_idempotent:
  assumes "store_ok s" "u \<notin> fst ` set (t_investigations s)"
    and "create_investigation m now u j cmd s = (Inr i, s')" "cmd_idempotency_key cmd = Some k"
    and "cmd_tenant again = cmd_tenant cmd" "cmd_idempotency_key again = Some k"
    and "u' \<notin> fst ` set (t_investigations s')"
  shows "create_investigation m' now' u' j' again s' = (Inr i, s')"
  by (rule replayed_creation [OF assms])

theorem create_investigation_is_idempotent_witness:
  "create_investigation 5 9 7 8 (sample_command\<lparr>cmd_run := RunId (lit ''r2'')\<rparr>)
     (with_new_investigation 3 0 1 2 sample_command empty_store) =
   (Inr (InvestigationId 1), with_new_investigation 3 0 1 2 sample_command empty_store)"
  by (rule create_investigation_is_idempotent [OF empty_store_ok _ sample_creation, of "lit ''k1''"])
    (simp_all add: sample_command_def empty_store_def with_new_investigation_def audit_append_def)

text \<open>
  A new investigation is visible to its tenant only, pending, without a report and with one
  due job: with unused identifiers, a positive attempt budget and a key that is absent or not
  blank and not yet used, the creation succeeds; the status is then pending, the report is not
  ready, the job is queued and claimable at once, and for every other tenant the investigation
  does not exist.
\<close>

theorem created_investigation_is_pending:
  assumes "store_ok s" "u \<notin> fst ` set (t_investigations s)" "j \<notin> fst ` set (t_jobs s)" "1 \<le> m"
    and "u \<notin> fst ` set (t_reports s)" "\<forall>k. cmd_idempotency_key cmd = Some k \<longrightarrow> \<not> is_blank k"
    and "by_key s (cmd_tenant cmd) (cmd_idempotency_key cmd) = None"
  shows "\<exists>s' r job. create_investigation m now u j cmd s = (Inr (InvestigationId u), s') \<and>
    get_investigation_status (cmd_tenant cmd) (InvestigationId u) s' = Inr r \<and> inv_status r = INV_PENDING \<and>
    get_report (cmd_tenant cmd) (InvestigationId u) s' = Inl ReportNotReadyError \<and>
    jobs_get (cmd_tenant cmd) (JobId j) s' = Inr job \<and> claimable job now \<and> job_attempt_count job = 0 \<and>
    (\<forall>t. t \<noteq> cmd_tenant cmd \<longrightarrow> get_investigation_status t (InvestigationId u) s' = Inl InvestigationNotFoundError \<and>
       get_report t (InvestigationId u) s' = Inl InvestigationNotFoundError)"
proof -
  let ?s = "with_new_investigation m now u j cmd s" and ?r = "pending_investigation now u cmd"
    and ?j = "queued_job m now u j cmd"
  have absent: "map_of (t_investigations s) u = None" "map_of (t_jobs s) j = None" "map_of (t_reports s) u = None"
    using assms(2,3,5) by (simp_all add: map_of_eq_None_iff)
  then have rows: "map_of (t_investigations ?s) u = Some ?r" "map_of (t_jobs ?s) j = Some ?j" "map_of (t_reports ?s) u = None"
    by (simp_all add: with_new_investigation_def audit_append_def map_add_def)
  have fields: "inv_tenant ?r = cmd_tenant cmd" "inv_status ?r = INV_PENDING" "job_tenant ?j = cmd_tenant cmd"
    "claimable ?j now" "job_attempt_count ?j = 0"
    by (simp_all add: pending_investigation_def queued_job_def claimable_def)
  show ?thesis
    by (intro exI [of _ ?s] exI [of _ ?r] exI [of _ ?j] conjI create_new [OF assms(2,3,4,6,7)])
      (simp_all add: get_investigation_status_def get_report_def investigations.lookup_spec reports.lookup_spec
        jobs.lookup_spec rows fields)
qed

theorem created_investigation_is_pending_witness:
  "\<exists>s' r. create_investigation 3 0 1 2 sample_command empty_store = (Inr (InvestigationId 1), s') \<and>
     get_investigation_status sample_tenant (InvestigationId 1) s' = Inr r \<and> inv_status r = INV_PENDING"
  using created_investigation_is_pending [OF empty_store_ok, of 1 2 3 sample_command 0]
  by (auto simp: empty_store_def by_key_def sample_command_def is_blank_iff lit_def py_isspace_def)

end
