(* ===== verification/Worker.thy ===== *)
theory Worker
  imports Use_Cases Llm_Parsing Metrics Serialization_Verification
begin

text \<open>
  \<^verbatim>\<open>application/telemetry.py\<close> and \<^verbatim>\<open>application/worker.py\<close>.

  A step of the worker is a computation on the working tables of its unit of work and on the
  metrics registry; an exception keeps the changes made before it, as in Python. The telemetry
  source and the model client are parameters (\<open>ports\<close>), with the outcomes the worker tells
  apart; the deadline of the model call is the outcome \<^const>\<open>DeadlineExceeded\<close>. The readings of the
  clocks and of the identifier factory in one run are the fields of \<open>run_readings\<close>; each is read
  at one place only.
\<close>

section \<open>Telemetry\<close>

datatype telemetry_outcome = Loaded "signal_baseline_input list" | TelemetryMissing | TelemetryCrashed

type_synonym telemetry_table = "((pystr \<times> pystr \<times> pystr) \<times> signal_baseline_input list) list"

definition telemetry_key :: "tenant_id \<Rightarrow> incident_id \<Rightarrow> run_id \<Rightarrow> pystr \<times> pystr \<times> pystr" where
  "telemetry_key tenant incident run = (tenant_value tenant, incident_value incident, run_value run)"

definition telemetry_set ::
  "tenant_id \<Rightarrow> incident_id \<Rightarrow> run_id \<Rightarrow> signal_baseline_input list \<Rightarrow> telemetry_table \<Rightarrow> telemetry_table" where
  "telemetry_set tenant incident run signals d = AList.update (telemetry_key tenant incident run) signals d"

definition telemetry_load ::
  "telemetry_table \<Rightarrow> tenant_id \<Rightarrow> incident_id \<Rightarrow> run_id \<Rightarrow> incident_window \<Rightarrow> telemetry_outcome" where
  "telemetry_load d tenant incident run window =
     (case map_of d (telemetry_key tenant incident run) of
        None \<Rightarrow> TelemetryMissing | Some signals \<Rightarrow> Loaded signals)"

section \<open>The worker and its surroundings\<close>

record worker =
  wk_worker_id :: pystr
  wk_lease :: int
  wk_max_attempts :: int
  wk_policy :: baseline_policy

definition DEFAULT_BASELINE_POLICY :: baseline_policy where
  "DEFAULT_BASELINE_POLICY = \<lparr>bp_minimum_points_per_window = 2, bp_minimum_score = float_one,
     bp_minimum_margin = fzero False, bp_relative_scale_floor = fzero False\<rparr>"

record ports =
  pt_telemetry :: "tenant_id \<Rightarrow> incident_id \<Rightarrow> run_id \<Rightarrow> incident_window \<Rightarrow> telemetry_outcome"
  pt_llm :: "hypothesis_request \<Rightarrow> llm_outcome"
  pt_recursion_limit :: nat

record run_readings =
  rr_claim_now :: int
  rr_started :: int
  rr_running_at :: int
  rr_persisted_at :: int
  rr_succeeded_at :: int
  rr_failed_at :: int
  rr_job_at :: int
  rr_finished_at :: int
  rr_attempt_created_at :: int
  rr_audit_at :: int
  rr_attempt_id :: uuid
  rr_timer :: "string \<Rightarrow> f64 \<times> f64"

definition JOBS_TOTAL :: pystr where "JOBS_TOTAL = lit ''iec_worker_jobs_total''"
definition STAGE_SECONDS :: pystr where "STAGE_SECONDS = lit ''iec_worker_stage_duration_seconds''"
definition PROVIDER_TIMEOUTS :: pystr where "PROVIDER_TIMEOUTS = lit ''iec_provider_timeouts_total''"
definition LLM_TOKENS :: pystr where "LLM_TOKENS = lit ''iec_llm_tokens_total''"
definition VERDICTS :: pystr where "VERDICTS = lit ''iec_investigation_verdicts_total''"

definition make_worker :: "worker \<Rightarrow> registry \<Rightarrow> metric_error + worker \<times> registry" where
  "make_worker wk g =
     (if is_blank (wk_worker_id wk) then Inl MetricValueError
      else
        rbind (registry_counter JOBS_TOTAL (lit ''Worker job outcomes.'') [lit ''outcome''] g) (\<lambda>(_, g).
        rbind (registry_histogram STAGE_SECONDS (lit ''Per-stage worker latency in seconds.'')
          DEFAULT_LATENCY_BUCKETS [lit ''stage''] g) (\<lambda>(_, g).
        rbind (registry_counter PROVIDER_TIMEOUTS (lit ''LLM provider timeouts.'') [] g) (\<lambda>(_, g).
        rbind (registry_counter LLM_TOKENS (lit ''LLM tokens consumed.'') [lit ''kind''] g) (\<lambda>(_, g).
        rbind (registry_counter VERDICTS (lit ''Verification verdicts.'') [lit ''verdict''] g) (\<lambda>(_, g).
        Inr (wk, g)))))))"

section \<open>Computations of the worker\<close>

datatype worker_exn = TerminalFailure pystr | RetryableFailure pystr | StoreFailure persistence_error | OtherFailure

record worker_state =
  ws_store :: tables
  ws_metrics :: registry

type_synonym 'a action = "worker_state \<Rightarrow> (worker_exn + 'a) \<times> worker_state"

definition ret :: "'a \<Rightarrow> 'a action" where
  "ret a st = (Inr a, st)"

definition raise :: "worker_exn \<Rightarrow> 'a action" where
  "raise e st = (Inl e, st)"

definition seq :: "'a action \<Rightarrow> ('a \<Rightarrow> 'b action) \<Rightarrow> 'b action" where
  "seq m f st = (case m st of (Inl e, st') \<Rightarrow> (Inl e, st') | (Inr a, st') \<Rightarrow> f a st')"

definition store_op :: "(tables \<Rightarrow> persistence_error + 'a \<times> tables) \<Rightarrow> 'a action" where
  "store_op f st = (case f (ws_store st) of Inl e \<Rightarrow> (Inl (StoreFailure e), st)
                    | Inr (a, s) \<Rightarrow> (Inr a, st\<lparr>ws_store := s\<rparr>))"

definition checked :: "persistence_error + 'a \<Rightarrow> 'a action" where
  "checked m = (case m of Inl e \<Rightarrow> raise (StoreFailure e) | Inr a \<Rightarrow> ret a)"

definition metric_op :: "(registry \<Rightarrow> metric_error + registry) \<Rightarrow> unit action" where
  "metric_op f st = (case f (ws_metrics st) of Inl _ \<Rightarrow> (Inl OtherFailure, st)
                     | Inr g \<Rightarrow> (Inr (), st\<lparr>ws_metrics := g\<rparr>))"

text \<open>\<^verbatim>\<open>except DomainError as exc: raise _TerminalFailure(exc.code)\<close>.\<close>

definition domain_step :: "domain_error + 'a \<Rightarrow> 'a action" where
  "domain_step m = (case m of Inl e \<Rightarrow> raise (TerminalFailure (error_code e)) | Inr a \<Rightarrow> ret a)"

text \<open>\<^verbatim>\<open>with self._stage_seconds.time(...)\<close>: the latency is recorded however the body ends.\<close>

definition timed :: "run_readings \<Rightarrow> string \<Rightarrow> 'a action \<Rightarrow> 'a action" where
  "timed rr stage m st =
     (case m st of (r, st') \<Rightarrow>
        (case rr_timer rr stage of (start, stop) \<Rightarrow>
          (case registry_observe STAGE_SECONDS start stop [lit stage] (ws_metrics st') of
             Inl _ \<Rightarrow> (Inl OtherFailure, st')
           | Inr g \<Rightarrow> (r, st'\<lparr>ws_metrics := g\<rparr>))))"

definition count_jobs :: "string \<Rightarrow> unit action" where
  "count_jobs outcome = metric_op (registry_inc JOBS_TOTAL (PyFloat float_one) [lit outcome])"

section \<open>The pipeline\<close>

definition load_telemetry :: "ports \<Rightarrow> investigation_record \<Rightarrow> signal_baseline_input list action" where
  "load_telemetry pt ir =
     (case pt_telemetry pt (inv_tenant ir) (inv_incident ir) (inv_run ir) (inv_window ir) of
        Loaded signals \<Rightarrow> ret signals
      | TelemetryMissing \<Rightarrow> raise (TerminalFailure (lit ''telemetry_unavailable''))
      | TelemetryCrashed \<Rightarrow> raise OtherFailure)"

definition baseline_stage ::
  "worker \<Rightarrow> investigation_record \<Rightarrow> signal_baseline_input list \<Rightarrow> (baseline_result \<times> metric_evidence_ledger) action" where
  "baseline_stage wk ir telemetry =
     domain_step (rbind (rank_metric_shifts (inv_window ir) telemetry (wk_policy wk)) (\<lambda>baseline.
       rbind (compile_metric_shift_ledger (inv_tenant ir) (inv_incident ir) (inv_run ir) (inv_window ir) baseline)
         (\<lambda>ledger. Inr (baseline, ledger))))"

definition propose_stage :: "run_readings \<Rightarrow> ports \<Rightarrow> hypothesis_request \<Rightarrow> llm_proposal action" where
  "propose_stage rr pt request =
     seq (timed rr ''llm_propose'' (ret (pt_llm pt request))) (\<lambda>outcome.
       case outcome of
         Proposed proposal \<Rightarrow> ret proposal
       | DeadlineExceeded \<Rightarrow>
           seq (metric_op (registry_inc PROVIDER_TIMEOUTS (PyFloat float_one) [])) (\<lambda>_.
             raise (RetryableFailure (lit ''provider_timeout'')))
       | LlmRaised e \<Rightarrow>
           if e = ProviderTimeoutError \<or> e = ProviderUnavailableError
           then raise (RetryableFailure (lit ''provider_unavailable''))
           else if e = ProviderResponseError then raise (TerminalFailure (lit ''provider_response_invalid''))
           else raise OtherFailure
       | LlmCrashed \<Rightarrow> raise OtherFailure)"

definition count_tokens :: "string \<Rightarrow> int option \<Rightarrow> unit action" where
  "count_tokens kind tokens =
     (case tokens of
        Some n \<Rightarrow> if 0 < n then metric_op (registry_inc LLM_TOKENS (PyInt n) [lit kind]) else ret ()
      | None \<Rightarrow> ret ())"

definition parse_stage :: "ports \<Rightarrow> pystr \<Rightarrow> signal_key set \<Rightarrow> hypothesis_document action" where
  "parse_stage pt raw allowed =
     (case parse_metric_hypothesis (pt_recursion_limit pt) raw allowed of
        Inr document \<Rightarrow> ret document
      | Inl (Rejected e) \<Rightarrow>
          if llm_validation_error e then raise (TerminalFailure (llm_error_code e)) else raise OtherFailure
      | Inl PlainValueError \<Rightarrow> raise OtherFailure)"

record artifacts =
  af_verification :: hypothesis_verification_result
  af_evidence_payloads :: "(evidence_id \<times> pystr) list"
  af_report_payload :: pystr
  af_baseline_payload :: pystr

definition verify_stage ::
  "run_readings \<Rightarrow> baseline_result \<Rightarrow> metric_evidence_ledger \<Rightarrow> hypothesis_document \<Rightarrow> artifacts action" where
  "verify_stage rr baseline ledger document =
     seq (timed rr ''verify'' (domain_step (verify_hypothesis document ledger))) (\<lambda>verification.
     domain_step (
       rbind (rmap (\<lambda>e. rbind (metric_evidence_entry_json e) (\<lambda>payload. Inr (me_evidence_id e, payload))) (ml_entries ledger)) (\<lambda>payloads.
       rbind (verification_json verification) (\<lambda>report_payload.
       rbind (baseline_ranking_json baseline) (\<lambda>baseline_payload.
       Inr \<lparr>af_verification = verification, af_evidence_payloads = payloads,
            af_report_payload = report_payload, af_baseline_payload = baseline_payload\<rparr>)))))"

definition evidence_rows :: "int \<Rightarrow> investigation_record \<Rightarrow> artifacts \<Rightarrow> persistence_error + evidence_record list" where
  "evidence_rows now ir af =
     rmap (\<lambda>(evidence_id, payload). make_evidence_record \<lparr>er_tenant = inv_tenant ir,
       er_investigation_id = inv_investigation_id ir, er_run = inv_run ir, er_evidence_id = evidence_id,
       er_ledger_kind = LEDGER_METRIC, er_schema_version = SCHEMA_VERSION, er_payload = payload,
       er_created_at = now\<rparr>) (af_evidence_payloads af)"

definition report_row :: "int \<Rightarrow> investigation_record \<Rightarrow> artifacts \<Rightarrow> report_record" where
  "report_row now ir af = \<lparr>rp_investigation_id = inv_investigation_id ir, rp_tenant = inv_tenant ir,
     rp_run = inv_run ir, rp_schema_version = VERIFICATION_SCHEMA_VERSION, rp_payload = af_report_payload af,
     rp_created_at = now, rp_baseline_payload = Some (af_baseline_payload af)\<rparr>"

definition audit_row :: "worker \<Rightarrow> tenant_id \<Rightarrow> investigation_id \<Rightarrow> string \<Rightarrow> pystr option \<Rightarrow> int \<Rightarrow> audit_record" where
  "audit_row wk tenant i action detail now = \<lparr>au_tenant = tenant, au_investigation_id = Some i,
     au_actor = wk_worker_id wk, au_action = lit action, au_detail = detail, au_occurred_at = now\<rparr>"

definition record_audit :: "audit_record \<Rightarrow> unit action" where
  "record_audit r = seq (checked (make_audit_record r)) (\<lambda>r. store_op (\<lambda>s. Inr ((), audit_append r s)))"

definition persist_stage :: "worker \<Rightarrow> run_readings \<Rightarrow> investigation_record \<Rightarrow> artifacts \<Rightarrow> unit action" where
  "persist_stage wk rr ir af =
     (let now = rr_persisted_at rr in
      seq (timed rr ''persist''
        (seq (checked (evidence_rows now ir af)) (\<lambda>rows.
         seq (store_op (\<lambda>s. Inr (evidence_append rows s))) (\<lambda>_.
         seq (checked (make_report_record (report_row now ir af))) (\<lambda>report.
         store_op (reports_put report)))))) (\<lambda>_.
      seq (store_op (investigations_set_status (rr_succeeded_at rr) (inv_tenant ir) (inv_investigation_id ir)
        INV_SUCCEEDED)) (\<lambda>_.
      record_audit (audit_row wk (inv_tenant ir) (inv_investigation_id ir) ''report.persisted'' None now))))"

definition run_pipeline :: "worker \<Rightarrow> ports \<Rightarrow> run_readings \<Rightarrow> investigation_record \<Rightarrow> unit action" where
  "run_pipeline wk pt rr ir =
     seq (timed rr ''telemetry_load'' (load_telemetry pt ir)) (\<lambda>telemetry.
     seq (timed rr ''baseline'' (baseline_stage wk ir telemetry)) (\<lambda>(baseline, ledger).
     let allowed = me_signal_key ` set (ml_entries ledger) in
     seq (propose_stage rr pt \<lparr>rq_tenant = inv_tenant ir, rq_incident = inv_incident ir,
       rq_run = inv_run ir, rq_allowed_signals = allowed\<rparr>) (\<lambda>proposal.
     seq (count_tokens ''prompt'' (lp_prompt_tokens proposal)) (\<lambda>_.
     seq (count_tokens ''completion'' (lp_completion_tokens proposal)) (\<lambda>_.
     seq (parse_stage pt (lp_raw_json proposal) allowed) (\<lambda>document.
     seq (verify_stage rr baseline ledger document) (\<lambda>af.
     seq (metric_op (registry_inc VERDICTS (PyFloat float_one)
       [verdict_value (hr_verdict (af_verification af))])) (\<lambda>_.
     persist_stage wk rr ir af))))))))"

section \<open>One run\<close>

definition record_attempt ::
  "worker \<Rightarrow> run_readings \<Rightarrow> claimed_job \<Rightarrow> attempt_outcome \<Rightarrow> pystr option \<Rightarrow> unit action" where
  "record_attempt wk rr claimed outcome code =
     seq (checked (make_attempt_record \<lparr>at_attempt_id = AttemptId (rr_attempt_id rr), at_job_id = cj_job_id claimed,
       at_tenant = cj_tenant claimed, at_attempt_number = cj_attempt_count claimed,
       at_worker_id = wk_worker_id wk, at_started_at = rr_started rr, at_finished_at = Some (rr_finished_at rr),
       at_outcome = Some outcome, at_error_code = code, at_created_at = rr_attempt_created_at rr\<rparr>)) (\<lambda>a.
     seq (store_op (attempts_record a)) (\<lambda>_. ret ()))"

definition set_job :: "run_readings \<Rightarrow> claimed_job \<Rightarrow> job_status \<Rightarrow> unit action" where
  "set_job rr claimed status =
     seq (store_op (jobs_set_status (rr_job_at rr) (cj_tenant claimed) (cj_job_id claimed) status)) (\<lambda>_. ret ())"

definition terminal_fail :: "worker \<Rightarrow> run_readings \<Rightarrow> claimed_job \<Rightarrow> pystr \<Rightarrow> unit action" where
  "terminal_fail wk rr claimed code =
     seq (store_op (investigations_set_status (rr_failed_at rr) (cj_tenant claimed) (cj_investigation_id claimed)
       INV_FAILED)) (\<lambda>_.
     seq (set_job rr claimed JOB_FAILED) (\<lambda>_.
     seq (record_attempt wk rr claimed OUTCOME_FAILED (Some code)) (\<lambda>_.
     seq (count_jobs ''failed'') (\<lambda>_.
     record_audit (audit_row wk (cj_tenant claimed) (cj_investigation_id claimed) ''investigation.failed'' (Some code)
       (rr_audit_at rr))))))"

definition retry_or_fail :: "worker \<Rightarrow> run_readings \<Rightarrow> claimed_job \<Rightarrow> pystr \<Rightarrow> unit action" where
  "retry_or_fail wk rr claimed code =
     (if wk_max_attempts wk \<le> cj_attempt_count claimed then terminal_fail wk rr claimed code
      else
        seq (set_job rr claimed JOB_QUEUED) (\<lambda>_.
        seq (record_attempt wk rr claimed OUTCOME_FAILED (Some code)) (\<lambda>_.
        count_jobs ''retried'')))"

text \<open>The \<^verbatim>\<open>try\<close> statement around the pipeline.\<close>

definition process :: "worker \<Rightarrow> ports \<Rightarrow> run_readings \<Rightarrow> claimed_job \<Rightarrow> investigation_record \<Rightarrow> unit action" where
  "process wk pt rr claimed ir st =
     (case run_pipeline wk pt rr ir st of
        (Inl (TerminalFailure code), st') \<Rightarrow> terminal_fail wk rr claimed code st'
      | (Inl (RetryableFailure code), st') \<Rightarrow> retry_or_fail wk rr claimed code st'
      | (Inl _, st') \<Rightarrow> terminal_fail wk rr claimed (lit ''internal_error'') st'
      | (Inr _, st') \<Rightarrow>
          seq (set_job rr claimed JOB_SUCCEEDED) (\<lambda>_.
          seq (record_attempt wk rr claimed OUTCOME_SUCCEEDED None) (\<lambda>_.
          count_jobs ''succeeded'')) st')"

definition run_claimed :: "worker \<Rightarrow> ports \<Rightarrow> run_readings \<Rightarrow> claimed_job \<Rightarrow> unit action" where
  "run_claimed wk pt rr claimed st =
     (case investigations_get (cj_tenant claimed) (cj_investigation_id claimed) (ws_store st) of
        Inl _ \<Rightarrow> set_job rr claimed JOB_FAILED st
      | Inr ir \<Rightarrow>
          if inv_status ir = INV_CANCELLED then
            seq (set_job rr claimed JOB_CANCELLED) (\<lambda>_. count_jobs ''cancelled'') st
          else
            seq (store_op (investigations_set_status (rr_running_at rr) (cj_tenant claimed)
              (cj_investigation_id claimed) INV_RUNNING)) (\<lambda>_. process wk pt rr claimed ir) st)"

definition run_scope :: "worker \<Rightarrow> ports \<Rightarrow> run_readings \<Rightarrow> bool action" where
  "run_scope wk pt rr =
     seq (store_op (jobs_claim (wk_worker_id wk) (wk_lease wk) (rr_claim_now rr))) (\<lambda>claimed.
       case claimed of
         None \<Rightarrow> ret False
       | Some c \<Rightarrow> seq (run_claimed wk pt rr c) (\<lambda>_. ret True))"

text \<open>The unit of work is committed when the scope returns and dropped when it raises.\<close>

definition run_once ::
  "worker \<Rightarrow> ports \<Rightarrow> run_readings \<Rightarrow> registry \<Rightarrow> tables \<Rightarrow> (worker_exn + bool) \<times> tables \<times> registry" where
  "run_once wk pt rr g s =
     (case run_scope wk pt rr \<lparr>ws_store = s, ws_metrics = g\<rparr> of
        (Inl e, st) \<Rightarrow> (Inl e, s, ws_metrics st)
      | (Inr b, st) \<Rightarrow> (Inr b, ws_store st, ws_metrics st))"

end
