(* ===== verification/Worker_Run.thy ===== *)
theory Worker_Run
  imports Worker
begin

text \<open>
  What a run of the worker does to the shared store: the invariant of the committed stores
  (\<open>system_ok\<close>), that a run neither raises nor breaks it, the exact ways a run can end, and that
  a bounded number of runs empties the queue.
\<close>

section \<open>Metrics never fail\<close>

definition counter_arity :: "registry \<Rightarrow> pystr \<Rightarrow> nat \<Rightarrow> bool" where
  "counter_arity g name n \<longleftrightarrow> (\<exists>c. map_of (rg_counters g) name = Some c \<and> length (ct_labelnames c) = n)"

definition metrics_ok :: "registry \<Rightarrow> bool" where
  "metrics_ok g \<longleftrightarrow> counter_arity g JOBS_TOTAL 1 \<and> counter_arity g PROVIDER_TIMEOUTS 0 \<and>
     counter_arity g LLM_TOKENS 1 \<and> counter_arity g VERDICTS 1 \<and>
     (\<exists>h. map_of (rg_histograms g) STAGE_SECONDS = Some h \<and> length (hg_labelnames h) = 1)"

lemma counter_inc_labels: "counter_inc a ls c = Inr c' \<Longrightarrow> ct_labelnames c' = ct_labelnames c"
  by (auto simp: counter_inc_def res_simps split: if_splits option.splits)

lemma registry_inc_keeps: "registry_inc n a ls g = Inr g' \<Longrightarrow> metrics_ok g \<Longrightarrow> metrics_ok g'"
  by (auto simp: registry_inc_def res_simps metrics_ok_def counter_arity_def update_conv' dest!: counter_inc_labels
      split: option.splits if_splits)

lemma flt_one: "\<not> flt float_one (fzero False)"
proof -
  have "0 \<le> fval float_one" "fval (fzero False) = 0"
    by (simp_all add: fval_def fmag_def fsig_def float_one_def fzero_def)
  then show ?thesis by (simp add: flt_def)
qed

lemma registry_inc_float: "counter_arity g n (length ls) \<Longrightarrow> \<exists>g'. registry_inc n (PyFloat float_one) ls g = Inr g'"
  by (auto simp: counter_arity_def registry_inc_def counter_inc_def check_labels_def flt_one)

lemma registry_observe_ok:
  assumes "metrics_ok g"
  shows "\<exists>g'. registry_observe STAGE_SECONDS a b [l] g = Inr g' \<and> metrics_ok g'"
proof -
  obtain h where h: "map_of (rg_histograms g) STAGE_SECONDS = Some h" "length (hg_labelnames h) = 1"
    using assms by (auto simp: metrics_ok_def)
  then obtain h' where h': "timer_exit a b [l] h = Inr h'"
    by (simp add: timer_exit_def histogram_observe_def check_labels_def Let_def)
  then have "length (hg_labelnames h') = 1"
    using histogram_observe_Inr(2) h(2) by (metis timer_exit_def)
  with h h' assms show ?thesis
    by (simp add: registry_observe_def metrics_ok_def counter_arity_def update_conv')
qed

lemma make_worker_metrics: "make_worker wk empty_registry = Inr (wk', g) \<Longrightarrow> metrics_ok g"
  by (auto simp: make_worker_def res_simps registry_counter_def registry_histogram_def empty_registry_def
      make_counter_def make_histogram_def Let_def metrics_ok_def counter_arity_def update_conv'
      JOBS_TOTAL_def STAGE_SECONDS_def PROVIDER_TIMEOUTS_def LLM_TOKENS_def VERDICTS_def split: if_splits)

section \<open>Partial correctness of computations\<close>

text \<open>
  \<open>hoare I m Q E\<close>: started in a state with \<open>I\<close>, the computation \<open>m\<close> returns into \<open>Q\<close> or raises into
  \<open>E\<close>. \<open>holds s\<close> says that the working tables are \<open>s\<close> and the worker's metrics are registered.
\<close>

definition hoare ::
  "(worker_state \<Rightarrow> bool) \<Rightarrow> 'a action \<Rightarrow> ('a \<Rightarrow> worker_state \<Rightarrow> bool) \<Rightarrow> (worker_exn \<Rightarrow> worker_state \<Rightarrow> bool) \<Rightarrow> bool" where
  "hoare I m Q E \<longleftrightarrow> (\<forall>st. I st \<longrightarrow> (case m st of (Inl e, st') \<Rightarrow> E e st' | (Inr a, st') \<Rightarrow> Q a st'))"

definition holds :: "tables \<Rightarrow> worker_state \<Rightarrow> bool" where
  "holds s st \<longleftrightarrow> ws_store st = s \<and> metrics_ok (ws_metrics st)"

lemma hoareD: "hoare I m Q E \<Longrightarrow> I st \<Longrightarrow> m st = (r, st') \<Longrightarrow> (case r of Inl e \<Rightarrow> E e st' | Inr a \<Rightarrow> Q a st')"
  unfolding hoare_def by fastforce

lemma hoare_ret: "(\<And>st. I st \<Longrightarrow> Q a st) \<Longrightarrow> hoare I (ret a) Q E"
  by (simp add: hoare_def ret_def)

lemma hoare_raise: "(\<And>st. I st \<Longrightarrow> E e st) \<Longrightarrow> hoare I (raise e) Q E"
  by (simp add: hoare_def raise_def)

lemma hoare_seq: "hoare I m Q E \<Longrightarrow> (\<And>a. hoare (Q a) (f a) R E) \<Longrightarrow> hoare I (seq m f) R E"
  unfolding hoare_def seq_def by (fastforce split: prod.splits sum.splits)

lemma hoare_fact: "(A \<Longrightarrow> hoare I m Q E) \<Longrightarrow> hoare (\<lambda>st. A \<and> I st) m Q E"
  by (simp add: hoare_def)

lemma hoare_weaken: "hoare I m Q E \<Longrightarrow> (\<And>a st. Q a st \<Longrightarrow> Q' a st) \<Longrightarrow> (\<And>e st. E e st \<Longrightarrow> E' e st) \<Longrightarrow> hoare I m Q' E'"
  unfolding hoare_def by (fastforce split: prod.splits sum.splits)

lemma hoare_timed:
  assumes "hoare (holds s) m (\<lambda>a st. Q a \<and> holds s' st) (\<lambda>e st. E e \<and> holds s'' st)"
  shows "hoare (holds s) (timed rr stage m) (\<lambda>a st. Q a \<and> holds s' st) (\<lambda>e st. E e \<and> holds s'' st)"
  unfolding hoare_def
proof (intro allI impI)
  fix st assume i: "holds s st"
  obtain q st1 where q: "m st = (q, st1)" by (cases "m st")
  note k = hoareD [OF assms i q]
  obtain a b where t: "rr_timer rr stage = (a, b)" by (cases "rr_timer rr stage")
  have "metrics_ok (ws_metrics st1)"
    using k by (auto simp: holds_def split: sum.splits)
  then obtain g' where "registry_observe STAGE_SECONDS a b [lit stage] (ws_metrics st1) = Inr g'" "metrics_ok g'"
    using registry_observe_ok by blast
  with k show "case timed rr stage m st of (Inl e, st') \<Rightarrow> E e \<and> holds s'' st' | (Inr a, st') \<Rightarrow> Q a \<and> holds s' st'"
    by (cases q) (simp_all add: timed_def q t holds_def)
qed

lemma hoare_inc:
  assumes "\<And>g. metrics_ok g \<Longrightarrow> counter_arity g n (length ls)"
  shows "hoare (holds s) (metric_op (registry_inc n (PyFloat float_one) ls)) (\<lambda>_. holds s) (\<lambda>_ _. False)"
  unfolding hoare_def
proof (intro allI impI)
  fix st assume i: "holds s st"
  then have "metrics_ok (ws_metrics st)" by (simp add: holds_def)
  then obtain g' where "registry_inc n (PyFloat float_one) ls (ws_metrics st) = Inr g'"
    using registry_inc_float [OF assms] by blast
  with i show "case metric_op (registry_inc n (PyFloat float_one) ls) st of (Inl e, st') \<Rightarrow> False | (Inr a, st') \<Rightarrow> holds s st'"
    by (auto simp: metric_op_def holds_def intro: registry_inc_keeps)
qed

lemma hoare_inc_any: "hoare (holds s) (metric_op (registry_inc n a ls)) (\<lambda>_. holds s) (\<lambda>e st. e = OtherFailure \<and> holds s st)"
  by (auto simp: hoare_def metric_op_def holds_def intro: registry_inc_keeps split: sum.splits)

lemma hoare_store_op:
  "f s = Inr (a, s') \<Longrightarrow> hoare (holds s) (store_op f) (\<lambda>b st. b = a \<and> holds s' st) (\<lambda>_ _. False)"
  by (auto simp: hoare_def store_op_def holds_def)

lemma hoare_checked: "m = Inr a \<Longrightarrow> hoare (holds s) (checked m) (\<lambda>b st. b = a \<and> holds s st) (\<lambda>_ _. False)"
  by (simp add: checked_def hoare_ret)

lemma hoare_no_error: "hoare I m Q (\<lambda>_ _. False) \<Longrightarrow> hoare I m Q E"
  by (erule hoare_weaken) simp_all

lemma metrics_ok_arity:
  "metrics_ok g \<Longrightarrow> counter_arity g JOBS_TOTAL (length [l])"
  "metrics_ok g \<Longrightarrow> counter_arity g PROVIDER_TIMEOUTS (length [])"
  "metrics_ok g \<Longrightarrow> counter_arity g VERDICTS (length [l])"
  by (simp_all add: metrics_ok_def)

section \<open>The analysis stages\<close>

text \<open>The codes a failure can carry: none comes from the model's text.\<close>

definition stable_code :: "pystr \<Rightarrow> bool" where
  "stable_code c \<longleftrightarrow> c \<in> range error_code \<or> c \<in> llm_error_code ` {e. llm_validation_error e} \<or>
     c \<in> {lit ''telemetry_unavailable'', lit ''provider_timeout'', lit ''provider_unavailable'',
       lit ''provider_response_invalid'', lit ''internal_error''}"

fun typed_exn :: "worker_exn \<Rightarrow> bool" where
  "typed_exn (TerminalFailure c) = stable_code c"
| "typed_exn (RetryableFailure c) = stable_code c"
| "typed_exn (StoreFailure e) = True"
| "typed_exn OtherFailure = True"

lemma stable_code_not_blank: "stable_code c \<Longrightarrow> \<not> is_blank c"
proof -
  have "\<not> is_blank (error_code e)" for e
    by (cases e) (simp_all add: is_blank_iff lit_def py_isspace_def)
  moreover have "\<not> is_blank (llm_error_code e)" for e
    by (cases e) (simp_all add: is_blank_iff lit_def py_isspace_def)
  ultimately show "stable_code c \<Longrightarrow> \<not> is_blank c"
    by (auto simp: stable_code_def) (simp_all add: is_blank_iff lit_def py_isspace_def)
qed

abbreviation typed_at :: "tables \<Rightarrow> worker_exn \<Rightarrow> worker_state \<Rightarrow> bool" where
  "typed_at s \<equiv> \<lambda>e st. typed_exn e \<and> holds s st"

lemma hoare_domain_step: "hoare (holds s) (domain_step m) (\<lambda>a st. m = Inr a \<and> holds s st) (typed_at s)"
  by (auto simp: domain_step_def stable_code_def intro!: hoare_ret hoare_raise split: sum.splits)

lemma hoare_load_telemetry:
  "hoare (holds s) (load_telemetry pt ir)
     (\<lambda>a st. pt_telemetry pt (inv_tenant ir) (inv_incident ir) (inv_run ir) (inv_window ir) = Loaded a \<and> holds s st) (typed_at s)"
  by (auto simp: load_telemetry_def stable_code_def intro!: hoare_ret hoare_raise split: telemetry_outcome.splits)

lemma hoare_propose:
  "hoare (holds s) (propose_stage rr pt request) (\<lambda>a st. pt_llm pt request = Proposed a \<and> holds s st) (typed_at s)"
  unfolding propose_stage_def
proof (rule hoare_seq [OF hoare_timed])
  show "hoare (holds s) (ret (pt_llm pt request)) (\<lambda>a st. a = pt_llm pt request \<and> holds s st) (\<lambda>e st. typed_exn e \<and> holds s st)"
    by (simp add: hoare_ret)
next
  fix outcome
  have timeout: "hoare (holds s) (seq (metric_op (registry_inc PROVIDER_TIMEOUTS (PyFloat float_one) []))
      (\<lambda>_. raise (RetryableFailure (lit ''provider_timeout'')))) Q (typed_at s)" for Q :: "llm_proposal \<Rightarrow> worker_state \<Rightarrow> bool"
    by (rule hoare_seq [OF hoare_no_error [OF hoare_inc [OF metrics_ok_arity(2)]]])
      (simp_all add: hoare_raise stable_code_def)
  show "hoare (\<lambda>st. outcome = pt_llm pt request \<and> holds s st)
     (case outcome of Proposed proposal \<Rightarrow> ret proposal
       | LlmRaised e \<Rightarrow>
           if e = ProviderTimeoutError \<or> e = ProviderUnavailableError
           then raise (RetryableFailure (lit ''provider_unavailable''))
           else if e = ProviderResponseError then raise (TerminalFailure (lit ''provider_response_invalid''))
           else raise OtherFailure
       | DeadlineExceeded \<Rightarrow>
           seq (metric_op (registry_inc PROVIDER_TIMEOUTS (PyFloat float_one) [])) (\<lambda>_.
             raise (RetryableFailure (lit ''provider_timeout'')))
       | LlmCrashed \<Rightarrow> raise OtherFailure)
     (\<lambda>a st. pt_llm pt request = Proposed a \<and> holds s st) (typed_at s)"
    by (rule hoare_fact) (auto simp: stable_code_def intro!: hoare_ret hoare_raise timeout split: llm_outcome.splits)
qed

lemma hoare_count_tokens: "hoare (holds s) (count_tokens kind tokens) (\<lambda>_. holds s) (typed_at s)"
  by (auto simp: count_tokens_def intro!: hoare_ret hoare_weaken [OF hoare_inc_any] split: option.splits)

lemma hoare_parse:
  "hoare (holds s) (parse_stage pt raw allowed)
     (\<lambda>a st. parse_metric_hypothesis (pt_recursion_limit pt) raw allowed = Inr a \<and> holds s st) (typed_at s)"
  by (auto simp: parse_stage_def stable_code_def intro!: hoare_ret hoare_raise split: sum.splits parse_failure.splits)

definition artifacts_of ::
  "baseline_result \<Rightarrow> metric_evidence_ledger \<Rightarrow> hypothesis_document \<Rightarrow> domain_error + artifacts" where
  "artifacts_of baseline ledger document =
     rbind (verify_hypothesis document ledger) (\<lambda>verification.
     rbind (rmap (\<lambda>e. rbind (metric_evidence_entry_json e) (\<lambda>payload. Inr (me_evidence_id e, payload))) (ml_entries ledger)) (\<lambda>payloads.
     rbind (verification_json verification) (\<lambda>report_payload.
     rbind (baseline_ranking_json baseline) (\<lambda>baseline_payload.
     Inr \<lparr>af_verification = verification, af_evidence_payloads = payloads,
          af_report_payload = report_payload, af_baseline_payload = baseline_payload\<rparr>))))"

lemma hoare_verify:
  "hoare (holds s) (verify_stage rr baseline ledger document)
     (\<lambda>a st. artifacts_of baseline ledger document = Inr a \<and> holds s st) (typed_at s)"
  unfolding verify_stage_def
proof (rule hoare_seq [OF hoare_timed [OF hoare_domain_step]], rule hoare_fact)
  fix v assume "verify_hypothesis document ledger = Inr v"
  then show "hoare (holds s) (domain_step (rbind (rmap (\<lambda>e. rbind (metric_evidence_entry_json e)
        (\<lambda>payload. Inr (me_evidence_id e, payload))) (ml_entries ledger)) (\<lambda>payloads.
       rbind (verification_json v) (\<lambda>report_payload.
       rbind (baseline_ranking_json baseline) (\<lambda>baseline_payload.
       Inr \<lparr>af_verification = v, af_evidence_payloads = payloads,
            af_report_payload = report_payload, af_baseline_payload = baseline_payload\<rparr>)))))
     (\<lambda>a st. artifacts_of baseline ledger document = Inr a \<and> holds s st) (typed_at s)"
    by (intro hoare_weaken [OF hoare_domain_step]) (simp_all add: artifacts_of_def)
qed

definition request_for :: "investigation_record \<Rightarrow> metric_evidence_ledger \<Rightarrow> hypothesis_request" where
  "request_for ir ledger = \<lparr>rq_tenant = inv_tenant ir, rq_incident = inv_incident ir, rq_run = inv_run ir,
     rq_allowed_signals = me_signal_key ` set (ml_entries ledger)\<rparr>"

text \<open>What a successful run stored was produced by these steps from the ports' answers.\<close>

definition produced :: "worker \<Rightarrow> ports \<Rightarrow> investigation_record \<Rightarrow> artifacts \<Rightarrow> bool" where
  "produced wk pt ir af \<longleftrightarrow> (\<exists>telemetry baseline ledger proposal document.
     pt_telemetry pt (inv_tenant ir) (inv_incident ir) (inv_run ir) (inv_window ir) = Loaded telemetry \<and>
     rank_metric_shifts (inv_window ir) telemetry (wk_policy wk) = Inr baseline \<and>
     compile_metric_shift_ledger (inv_tenant ir) (inv_incident ir) (inv_run ir) (inv_window ir) baseline = Inr ledger \<and>
     pt_llm pt (request_for ir ledger) = Proposed proposal \<and>
     parse_metric_hypothesis (pt_recursion_limit pt) (lp_raw_json proposal)
       (rq_allowed_signals (request_for ir ledger)) = Inr document \<and>
     artifacts_of baseline ledger document = Inr af)"

section \<open>Persisting\<close>

lemma canonical_json_not_blank: "canonical_json p = Inr t \<Longrightarrow> \<not> is_blank t"
proof -
  assume "canonical_json p = Inr t"
  then have t: "t = enc (canon p) @ [10]"
    by (auto simp: canonical_json_def Let_def dumps_def split: option.splits)
  obtain c r where c: "enc (canon p) = c # r" "shape (canon p) c"
    using enc_shape by blast
  from c(2) have "\<not> py_isspace c"
    by (cases "canon p") (auto simp: py_isspace_def is_digit_def split: if_splits)
  then show ?thesis by (simp add: t c(1) is_blank_Cons)
qed

lemma artifact_texts:
  assumes "artifacts_of baseline ledger document = Inr af"
  shows "list_all (\<lambda>p. \<not> is_blank (snd p)) (af_evidence_payloads af)" "\<not> is_blank (af_report_payload af)"
    and "\<not> is_blank (af_baseline_payload af)"
  using assms
  by (auto simp: artifacts_of_def res_simps verification_json_def baseline_ranking_json_def metric_evidence_entry_json_def
      list_all_iff dest!: canonical_json_not_blank dest: rmap_Inr_in)

definition evidence_row :: "int \<Rightarrow> investigation_record \<Rightarrow> evidence_id \<times> pystr \<Rightarrow> evidence_record" where
  "evidence_row now ir p = \<lparr>er_tenant = inv_tenant ir, er_investigation_id = inv_investigation_id ir,
     er_run = inv_run ir, er_evidence_id = fst p, er_ledger_kind = LEDGER_METRIC,
     er_schema_version = SCHEMA_VERSION, er_payload = snd p, er_created_at = now\<rparr>"

lemma literals_not_blank:
  "\<not> is_blank SCHEMA_VERSION" "\<not> is_blank VERIFICATION_SCHEMA_VERSION"
  "\<not> is_blank (lit ''report.persisted'')" "\<not> is_blank (lit ''investigation.failed'')"
  by (simp_all add: SCHEMA_VERSION_def VERIFICATION_SCHEMA_VERSION_def is_blank_iff lit_def py_isspace_def)

lemma evidence_rows_ok:
  assumes "list_all (\<lambda>p. \<not> is_blank (snd p)) (af_evidence_payloads af)"
  shows "evidence_rows now ir af = Inr (map (evidence_row now ir) (af_evidence_payloads af))"
    "list_all valid_evidence (map (evidence_row now ir) (af_evidence_payloads af))"
proof -
  have v: "valid_evidence (evidence_row now ir p)" if "\<not> is_blank (snd p)" for p
    using that literals_not_blank(1) by (simp add: valid_record_iff evidence_row_def)
  have "(\<lambda>(i, t). make_evidence_record \<lparr>er_tenant = inv_tenant ir, er_investigation_id = inv_investigation_id ir,
      er_run = inv_run ir, er_evidence_id = i, er_ledger_kind = LEDGER_METRIC,
      er_schema_version = SCHEMA_VERSION, er_payload = t, er_created_at = now\<rparr>) =
      (\<lambda>p. make_evidence_record (evidence_row now ir p))"
    by (simp add: fun_eq_iff evidence_row_def)
  then show "evidence_rows now ir af = Inr (map (evidence_row now ir) (af_evidence_payloads af))"
    unfolding evidence_rows_def using assms v
    by (simp only:) (rule rmap_Inr_map, auto simp: list_all_iff make_record_Inr)
  show "list_all valid_evidence (map (evidence_row now ir) (af_evidence_payloads af))"
    using assms v by (auto simp: list_all_iff)
qed

definition set_investigation :: "uuid \<Rightarrow> investigation_record \<Rightarrow> int \<Rightarrow> investigation_status \<Rightarrow> tables \<Rightarrow> tables" where
  "set_investigation u i now status s =
     s\<lparr>t_investigations := AList.update u (i\<lparr>inv_status := status, inv_updated_at := now\<rparr>) (t_investigations s)\<rparr>"

definition persisted :: "worker \<Rightarrow> run_readings \<Rightarrow> investigation_record \<Rightarrow> artifacts \<Rightarrow> tables \<Rightarrow> tables" where
  "persisted wk rr ir af s =
     (let u = investigation_uuid (inv_investigation_id ir); now = rr_persisted_at rr;
          s1 = fold evidence_insert (map (evidence_row now ir) (af_evidence_payloads af)) s;
          s2 = s1\<lparr>t_reports := AList.update u (report_row now ir af) (t_reports s1)\<rparr>;
          i = the (map_of (t_investigations s) u)
      in audit_append (audit_row wk (inv_tenant ir) (inv_investigation_id ir) ''report.persisted'' None now)
           (set_investigation u i (rr_succeeded_at rr) INV_SUCCEEDED s2))"

text \<open>The investigation a job belongs to, while it can still be decided.\<close>

definition open_investigation :: "tables \<Rightarrow> investigation_record \<Rightarrow> bool" where
  "open_investigation s ir \<longleftrightarrow> (let u = investigation_uuid (inv_investigation_id ir) in
     u \<notin> fst ` set (t_reports s) \<and>
     (\<exists>i. map_of (t_investigations s) u = Some i \<and> inv_tenant i = inv_tenant ir \<and> valid_investigation i))"

lemma set_investigation_op:
  assumes "map_of (t_investigations s) (investigation_uuid i) = Some r" "inv_tenant r = t" "valid_investigation r"
  shows "investigations_set_status now t i status s =
    Inr (r\<lparr>inv_status := status, inv_updated_at := now\<rparr>, set_investigation (investigation_uuid i) r now status s)"
  using assms by (simp add: investigations_set_status_Inr set_investigation_def)

lemma audit_row_valid:
  assumes "\<not> is_blank (wk_worker_id wk)" "\<not> is_blank (lit action)" "\<forall>d. detail = Some d \<longrightarrow> \<not> is_blank d"
  shows "make_audit_record (audit_row wk t i action detail now) = Inr (audit_row wk t i action detail now)"
  using assms by (simp add: make_record_Inr) (simp add: valid_record_iff audit_row_def)

lemma hoare_record_audit:
  "make_audit_record r = Inr r \<Longrightarrow> hoare (holds s) (record_audit r) (\<lambda>_. holds (audit_append r s)) (\<lambda>_ _. False)"
  unfolding record_audit_def
  by (rule hoare_seq [OF hoare_checked], assumption, rule hoare_fact)
    (auto intro: hoare_weaken [OF hoare_store_op])

lemma report_row_valid:
  assumes "\<not> is_blank (af_report_payload af)" "\<not> is_blank (af_baseline_payload af)"
  shows "make_report_record (report_row now ir af) = Inr (report_row now ir af)"
  using assms literals_not_blank(2) by (simp add: make_record_Inr) (simp add: valid_record_iff report_row_def)

lemma hoare_append:
  "hoare (holds s) (store_op (\<lambda>s. Inr (evidence_append rows s))) (\<lambda>_. holds (fold evidence_insert rows s)) (\<lambda>_ _. False)"
  using evidence_append_fold [of rows] by (auto simp: hoare_def store_op_def holds_def split: prod.splits) (metis snd_conv)

lemma hoare_persist:
  assumes ready: "open_investigation s ir" and wk: "\<not> is_blank (wk_worker_id wk)"
    and af: "artifacts_of baseline ledger document = Inr af"
  shows "hoare (holds s) (persist_stage wk rr ir af) (\<lambda>_. holds (persisted wk rr ir af s)) (\<lambda>_ _. False)"
proof -
  let ?u = "investigation_uuid (inv_investigation_id ir)" and ?now = "rr_persisted_at rr"
  let ?rows = "map (evidence_row ?now ir) (af_evidence_payloads af)"
  let ?s1 = "fold evidence_insert ?rows s" and ?r = "report_row ?now ir af"
  let ?s2 = "?s1\<lparr>t_reports := AList.update ?u ?r (t_reports ?s1)\<rparr>"
  obtain i where i: "map_of (t_investigations s) ?u = Some i" "inv_tenant i = inv_tenant ir" "valid_investigation i"
    and free: "?u \<notin> fst ` set (t_reports s)"
    using ready by (auto simp: open_investigation_def Let_def)
  note texts = artifact_texts [OF af]
  have put: "reports_put ?r ?s1 = Inr (?r, ?s2)"
    using free by (simp add: insert_Inr) (simp add: report_row_def)
  have set: "investigations_set_status (rr_succeeded_at rr) (inv_tenant ir) (inv_investigation_id ir) INV_SUCCEEDED ?s2 =
      Inr (i\<lparr>inv_status := INV_SUCCEEDED, inv_updated_at := rr_succeeded_at rr\<rparr>,
        set_investigation ?u i (rr_succeeded_at rr) INV_SUCCEEDED ?s2)"
    by (rule set_investigation_op) (simp_all add: i)
  have audit: "make_audit_record (audit_row wk (inv_tenant ir) (inv_investigation_id ir) ''report.persisted'' None ?now) =
      Inr (audit_row wk (inv_tenant ir) (inv_investigation_id ir) ''report.persisted'' None ?now)"
    by (rule audit_row_valid [OF wk literals_not_blank(3)]) simp
  have body: "hoare (holds s) (seq (checked (evidence_rows ?now ir af)) (\<lambda>rows.
         seq (store_op (\<lambda>s. Inr (evidence_append rows s))) (\<lambda>_.
         seq (checked (make_report_record ?r)) (\<lambda>report.
         store_op (reports_put report))))) (\<lambda>_ st. True \<and> holds ?s2 st) (\<lambda>_ st. False \<and> holds ?s2 st)"
    by (rule hoare_weaken)
      (rule hoare_seq [OF hoare_checked [OF evidence_rows_ok(1) [OF texts(1)]]], rule hoare_fact, simp only:,
       rule hoare_seq [OF hoare_append],
       rule hoare_seq [OF hoare_checked [OF report_row_valid [OF texts(2,3)]]], rule hoare_fact, simp only:,
       rule hoare_store_op [where f = "reports_put ?r" and s = ?s1, OF put], simp_all)
  show ?thesis
    unfolding persist_stage_def Let_def
    by (rule hoare_seq [OF hoare_weaken [OF hoare_timed [OF body], of "\<lambda>_. holds ?s2" "\<lambda>_ _. False"]], simp, simp,
        rule hoare_seq [OF hoare_store_op [where f = "investigations_set_status (rr_succeeded_at rr) (inv_tenant ir) (inv_investigation_id ir) INV_SUCCEEDED" and s = ?s2, OF set]], rule hoare_fact,
        rule hoare_weaken [OF hoare_record_audit [OF audit]])
      (simp_all add: persisted_def Let_def i)
qed

lemma hoare_baseline:
  "hoare (holds s) (baseline_stage wk ir telemetry)
     (\<lambda>a st. (rank_metric_shifts (inv_window ir) telemetry (wk_policy wk) = Inr (fst a) \<and>
        compile_metric_shift_ledger (inv_tenant ir) (inv_incident ir) (inv_run ir) (inv_window ir) (fst a) = Inr (snd a)) \<and>
        holds s st) (typed_at s)"
  unfolding baseline_stage_def by (rule hoare_weaken [OF hoare_domain_step]) (auto simp: res_simps)

lemma hoare_run_pipeline:
  assumes "open_investigation s ir" "\<not> is_blank (wk_worker_id wk)"
  shows "hoare (holds s) (run_pipeline wk pt rr ir)
    (\<lambda>_ st. \<exists>af. produced wk pt ir af \<and> holds (persisted wk rr ir af s) st) (typed_at s)"
proof -
  have verdict: "hoare (holds s) (metric_op (registry_inc VERDICTS (PyFloat float_one) [l])) (\<lambda>_. holds s) (typed_at s)" for l
    by (rule hoare_no_error [OF hoare_inc]) (rule metrics_ok_arity)
  have last: "hoare (holds s) (persist_stage wk rr ir af)
      (\<lambda>_ st. \<exists>af. produced wk pt ir af \<and> holds (persisted wk rr ir af s) st) (typed_at s)"
    if "artifacts_of baseline ledger document = Inr af" "produced wk pt ir af" for baseline ledger document af
    using that by (intro hoare_weaken [OF hoare_persist [OF assms that(1)]]) auto
  show ?thesis
    unfolding run_pipeline_def Let_def case_prod_unfold
    apply (rule hoare_seq [OF hoare_timed [OF hoare_load_telemetry]], rule hoare_fact)
    apply (rule hoare_seq [OF hoare_timed [OF hoare_baseline]], rule hoare_fact)
    apply (rule hoare_seq [OF hoare_propose], rule hoare_fact)
    apply (rule hoare_seq [OF hoare_count_tokens], rule hoare_seq [OF hoare_count_tokens])
    apply (rule hoare_seq [OF hoare_parse], rule hoare_fact)
    apply (rule hoare_seq [OF hoare_verify], rule hoare_fact)
    apply (rule hoare_seq [OF verdict], rule last, assumption)
    apply (simp only: produced_def request_for_def hypothesis_request.simps)
    apply blast
    done
qed

end
