(* ===== verification/Worker_System.thy ===== *)
theory Worker_System
  imports Worker_Run
begin

text \<open>
  The system of clients that create investigations and a worker that runs them, over the shared
  store: \<open>run_end\<close> lists the ways a claimed job can end, \<open>effect\<close> is what they share,
  \<open>system_ok\<close> is the invariant of the committed stores, and \<open>reachable\<close> the runs of the system.
\<close>

section \<open>Closing a job\<close>

definition attempt_row ::
  "worker \<Rightarrow> run_readings \<Rightarrow> claimed_job \<Rightarrow> attempt_outcome \<Rightarrow> pystr option \<Rightarrow> attempt_record" where
  "attempt_row wk rr c outcome code = \<lparr>at_attempt_id = AttemptId (rr_attempt_id rr), at_job_id = cj_job_id c,
     at_tenant = cj_tenant c, at_attempt_number = cj_attempt_count c, at_worker_id = wk_worker_id wk,
     at_started_at = rr_started rr, at_finished_at = Some (rr_finished_at rr), at_outcome = Some outcome,
     at_error_code = code, at_created_at = rr_attempt_created_at rr\<rparr>"

definition with_job :: "run_readings \<Rightarrow> claimed_job \<Rightarrow> job_status \<Rightarrow> tables \<Rightarrow> tables" where
  "with_job rr c status s = (let u = job_uuid (cj_job_id c) in
     s\<lparr>t_jobs := AList.update u ((the (map_of (t_jobs s) u))\<lparr>job_status := status, job_updated_at := rr_job_at rr\<rparr>)
       (t_jobs s)\<rparr>)"

definition with_attempt ::
  "worker \<Rightarrow> run_readings \<Rightarrow> claimed_job \<Rightarrow> attempt_outcome \<Rightarrow> pystr option \<Rightarrow> tables \<Rightarrow> tables" where
  "with_attempt wk rr c outcome code s =
     s\<lparr>t_attempts := AList.update (rr_attempt_id rr) (attempt_row wk rr c outcome code) (t_attempts s)\<rparr>"

definition closed ::
  "worker \<Rightarrow> run_readings \<Rightarrow> claimed_job \<Rightarrow> job_status \<Rightarrow> attempt_outcome \<Rightarrow> pystr option \<Rightarrow> tables \<Rightarrow> tables" where
  "closed wk rr c status outcome code s = with_attempt wk rr c outcome code (with_job rr c status s)"

definition failed :: "worker \<Rightarrow> run_readings \<Rightarrow> claimed_job \<Rightarrow> pystr \<Rightarrow> tables \<Rightarrow> tables" where
  "failed wk rr c code s = (let u = investigation_uuid (cj_investigation_id c) in
     audit_append (audit_row wk (cj_tenant c) (cj_investigation_id c) ''investigation.failed'' (Some code) (rr_audit_at rr))
       (closed wk rr c JOB_FAILED OUTCOME_FAILED (Some code)
         (set_investigation u (the (map_of (t_investigations s) u)) (rr_failed_at rr) INV_FAILED s)))"

text \<open>The claimed job has a row, and its attempt is not recorded yet.\<close>

definition holds_claim :: "tables \<Rightarrow> claimed_job \<Rightarrow> bool" where
  "holds_claim s c \<longleftrightarrow>
     (\<exists>j. map_of (t_jobs s) (job_uuid (cj_job_id c)) = Some j \<and> job_tenant j = cj_tenant c \<and> valid_job j) \<and>
     1 \<le> cj_attempt_count c \<and>
     (\<forall>b \<in> snd ` set (t_attempts s). at_job_id b = cj_job_id c \<longrightarrow> at_attempt_number b \<noteq> cj_attempt_count c)"

lemma hoare_set_job:
  assumes "holds_claim s c"
  shows "hoare (holds s) (set_job rr c status) (\<lambda>_. holds (with_job rr c status s)) E"
proof -
  obtain j where j: "map_of (t_jobs s) (job_uuid (cj_job_id c)) = Some j" "job_tenant j = cj_tenant c" "valid_job j"
    using assms by (auto simp: holds_claim_def)
  have op: "jobs_set_status (rr_job_at rr) (cj_tenant c) (cj_job_id c) status s =
      Inr (j\<lparr>job_status := status, job_updated_at := rr_job_at rr\<rparr>, with_job rr c status s)"
    using j by (simp add: jobs_set_status_Inr with_job_def Let_def)
  show ?thesis
    unfolding set_job_def
    by (rule hoare_no_error, rule hoare_seq [OF hoare_store_op [where
        f = "jobs_set_status (rr_job_at rr) (cj_tenant c) (cj_job_id c) status" and s = s, OF op]])
      (rule hoare_ret, simp)
qed

lemma hoare_record_attempt:
  assumes "holds_claim s c" "t_attempts s' = t_attempts s" "\<not> is_blank (wk_worker_id wk)" "\<forall>x. code = Some x \<longrightarrow> \<not> is_blank x"
  shows "hoare (holds s') (record_attempt wk rr c outcome code) (\<lambda>_. holds (with_attempt wk rr c outcome code s')) E"
proof -
  let ?a = "attempt_row wk rr c outcome code"
  have a: "make_attempt_record ?a = Inr ?a"
    using assms by (simp add: make_record_Inr holds_claim_def) (simp add: valid_record_iff attempt_row_def)
  have op: "attempts_record ?a s' = Inr (?a, with_attempt wk rr c outcome code s')"
    using assms(1,2) by (simp add: insert_Inr with_attempt_def holds_claim_def attempt_row_def)
  show ?thesis
    unfolding record_attempt_def attempt_row_def [symmetric]
    by (rule hoare_no_error, rule hoare_seq [OF hoare_checked [OF a]], rule hoare_fact, simp only:,
        rule hoare_seq [OF hoare_store_op [where f = "attempts_record ?a" and s = s', OF op]])
      (rule hoare_ret, simp)
qed

lemma hoare_count_jobs: "hoare (holds s) (count_jobs outcome) (\<lambda>_. holds s) E"
  unfolding count_jobs_def by (rule hoare_no_error [OF hoare_inc [OF metrics_ok_arity(1)]])

lemma with_job_attempts: "t_attempts (with_job rr c status s) = t_attempts s"
  by (simp add: with_job_def Let_def)

lemma hoare_close:
  assumes "holds_claim s c" "\<not> is_blank (wk_worker_id wk)" "\<forall>x. code = Some x \<longrightarrow> \<not> is_blank x"
  shows "hoare (holds s) (seq (set_job rr c status) (\<lambda>_. seq (record_attempt wk rr c outcome code) (\<lambda>_. count_jobs l)))
    (\<lambda>_. holds (closed wk rr c status outcome code s)) E"
  unfolding closed_def
  by (rule hoare_seq [OF hoare_set_job [OF assms(1)]],
      rule hoare_seq [OF hoare_record_attempt [OF assms(1) with_job_attempts assms(2,3)]], rule hoare_count_jobs)

lemma hoare_terminal_fail:
  assumes claim: "holds_claim s c" and wk: "\<not> is_blank (wk_worker_id wk)" and code: "stable_code code"
    and i: "map_of (t_investigations s) (investigation_uuid (cj_investigation_id c)) = Some i"
      "inv_tenant i = cj_tenant c" "valid_investigation i"
  shows "hoare (holds s) (terminal_fail wk rr c code) (\<lambda>_. holds (failed wk rr c code s)) E"
proof -
  let ?s = "set_investigation (investigation_uuid (cj_investigation_id c)) i (rr_failed_at rr) INV_FAILED s"
  have claim': "holds_claim ?s c"
    using claim by (simp add: holds_claim_def set_investigation_def)
  have blank: "\<forall>x. Some code = Some x \<longrightarrow> \<not> is_blank x"
    using stable_code_not_blank [OF code] by simp
  note op = set_investigation_op [OF i, of "rr_failed_at rr" INV_FAILED]
  note audit = audit_row_valid [OF wk literals_not_blank(4) blank, of "cj_tenant c" "cj_investigation_id c" "rr_audit_at rr"]
  show ?thesis
    unfolding terminal_fail_def
    by (rule hoare_no_error, rule hoare_seq [OF hoare_store_op [where f = "investigations_set_status (rr_failed_at rr)
          (cj_tenant c) (cj_investigation_id c) INV_FAILED" and s = s, OF op]], rule hoare_fact,
        rule hoare_seq [OF hoare_set_job [OF claim']],
        rule hoare_seq [OF hoare_record_attempt [OF claim' with_job_attempts wk blank]],
        rule hoare_seq [OF hoare_count_jobs], rule hoare_weaken [OF hoare_record_audit [OF audit]])
      (simp_all add: failed_def closed_def i(1))
qed

section \<open>How a claimed job ends\<close>

definition run_end ::
  "worker \<Rightarrow> ports \<Rightarrow> run_readings \<Rightarrow> claimed_job \<Rightarrow> investigation_record \<Rightarrow> tables \<Rightarrow> tables \<Rightarrow> bool" where
  "run_end wk pt rr c ir s s' \<longleftrightarrow>
     (\<exists>af. produced wk pt ir af \<and> s' = closed wk rr c JOB_SUCCEEDED OUTCOME_SUCCEEDED None (persisted wk rr ir af s)) \<or>
     (\<exists>code. stable_code code \<and> s' = failed wk rr c code s) \<or>
     (\<exists>code. stable_code code \<and> cj_attempt_count c < wk_max_attempts wk \<and>
        s' = closed wk rr c JOB_QUEUED OUTCOME_FAILED (Some code) s)"

lemma hoare_process:
  assumes "open_investigation s ir" "holds_claim s c" "\<not> is_blank (wk_worker_id wk)"
    and i: "map_of (t_investigations s) (investigation_uuid (cj_investigation_id c)) = Some i"
      "inv_tenant i = cj_tenant c" "valid_investigation i"
  shows "hoare (holds s) (process wk pt rr c ir)
    (\<lambda>_ st. run_end wk pt rr c ir s (ws_store st) \<and> metrics_ok (ws_metrics st)) (\<lambda>_ _. False)"
  unfolding hoare_def
proof (intro allI impI)
  fix st assume st: "holds s st"
  obtain r st1 where run: "run_pipeline wk pt rr ir st = (r, st1)" by (cases "run_pipeline wk pt rr ir st")
  note k = hoareD [OF hoare_run_pipeline [OF assms(1,3)] st run]
  have fail: "case terminal_fail wk rr c code st1 of (Inl e, st') \<Rightarrow> False
      | (Inr a, st') \<Rightarrow> run_end wk pt rr c ir s (ws_store st') \<and> metrics_ok (ws_metrics st')"
    if "stable_code code" "holds s st1" for code
  proof -
    obtain q st2 where q: "terminal_fail wk rr c code st1 = (q, st2)" by (cases "terminal_fail wk rr c code st1")
    show ?thesis
      using hoareD [OF hoare_terminal_fail [OF assms(2,3) that(1) i, where E = "\<lambda>_ _. False"] that(2) q] that(1)
      by (cases q) (auto simp: q run_end_def holds_def)
  qed
  have internal: "stable_code (lit ''internal_error'')" by (simp add: stable_code_def)
  show "case process wk pt rr c ir st of (Inl e, st') \<Rightarrow> False
      | (Inr a, st') \<Rightarrow> run_end wk pt rr c ir s (ws_store st') \<and> metrics_ok (ws_metrics st')"
  proof (cases r)
    case (Inl e)
    with k have e: "typed_exn e" "holds s st1" by simp_all
    show ?thesis
    proof (cases e)
      case (RetryableFailure code)
      with e have code: "stable_code code" by simp
      then have blank: "\<forall>x. Some code = Some x \<longrightarrow> \<not> is_blank x"
        using stable_code_not_blank by simp
      show ?thesis
      proof (cases "wk_max_attempts wk \<le> cj_attempt_count c")
        case True
        then show ?thesis
          using fail [OF code e(2)] by (simp add: process_def run Inl RetryableFailure retry_or_fail_def)
      next
        case False
        define m where "m = seq (set_job rr c JOB_QUEUED) (\<lambda>_. seq (record_attempt wk rr c OUTCOME_FAILED (Some code))
            (\<lambda>_. count_jobs ''retried''))"
        obtain q st2 where q: "m st1 = (q, st2)" by (cases "m st1")
        have "process wk pt rr c ir st = (q, st2)"
          using False q by (simp add: process_def run Inl RetryableFailure retry_or_fail_def m_def)
        with hoareD [OF hoare_close [OF assms(2,3) blank, where E = "\<lambda>_ _. False"] e(2) q [unfolded m_def]] False code
        show ?thesis by (cases q) (auto simp: run_end_def holds_def)
      qed
    qed (use fail [OF _ e(2)] e(1) internal in \<open>simp_all add: process_def run Inl\<close>)
  next
    case (Inr a)
    with k obtain af where af: "produced wk pt ir af" "holds (persisted wk rr ir af s) st1" by auto
    have claim: "holds_claim (persisted wk rr ir af s) c"
      using assms(2) by (simp add: holds_claim_def persisted_def Let_def set_investigation_def audit_append_def)
    define m where "m = seq (set_job rr c JOB_SUCCEEDED) (\<lambda>_. seq (record_attempt wk rr c OUTCOME_SUCCEEDED None)
        (\<lambda>_. count_jobs ''succeeded''))"
    obtain q st2 where q: "m st1 = (q, st2)" by (cases "m st1")
    have "process wk pt rr c ir st = (q, st2)"
      using q by (simp add: process_def run Inr m_def)
    with hoareD [OF hoare_close [OF claim assms(3), where E = "\<lambda>_ _. False"] af(2) q [unfolded m_def]] af(1)
    show ?thesis by (cases q) (auto simp: run_end_def holds_def)
  qed
qed

section \<open>The invariant of the committed stores\<close>

definition investigation_of :: "tables \<Rightarrow> job_record \<Rightarrow> investigation_record option" where
  "investigation_of s j = map_of (t_investigations s) (investigation_uuid (job_investigation_id j))"

fun job_matches :: "int \<Rightarrow> job_record \<Rightarrow> investigation_status \<Rightarrow> bool" where
  "job_matches m j st \<longleftrightarrow>
     (job_status j = JOB_QUEUED \<and> (st = INV_PENDING \<or> st = INV_RUNNING) \<and> job_attempt_count j < m) \<or>
     (job_status j = JOB_SUCCEEDED \<and> st = INV_SUCCEEDED \<and> job_attempt_count j \<le> m) \<or>
     (job_status j = JOB_FAILED \<and> st = INV_FAILED \<and> job_attempt_count j \<le> m)"

definition system_ok :: "int \<Rightarrow> tables \<Rightarrow> bool" where
  "system_ok m s \<longleftrightarrow> store_ok s \<and>
     (\<forall>u j. map_of (t_jobs s) u = Some j \<longrightarrow>
        (\<exists>i. investigation_of s j = Some i \<and> inv_tenant i = job_tenant j \<and> job_matches m j (inv_status i))) \<and>
     (\<forall>u v j k. map_of (t_jobs s) u = Some j \<longrightarrow> map_of (t_jobs s) v = Some k \<longrightarrow>
        job_investigation_id j = job_investigation_id k \<longrightarrow> u = v) \<and>
     (\<forall>u i. map_of (t_investigations s) u = Some i \<longrightarrow>
        (inv_status i = INV_SUCCEEDED \<longleftrightarrow> (\<exists>r. map_of (t_reports s) u = Some r \<and> rp_tenant r = inv_tenant i))) \<and>
     (\<forall>u r. map_of (t_reports s) u = Some r \<longrightarrow>
        (\<exists>i. map_of (t_investigations s) u = Some i \<and> inv_status i = INV_SUCCEEDED)) \<and>
     (\<forall>u a. map_of (t_attempts s) u = Some a \<longrightarrow>
        (\<exists>j. map_of (t_jobs s) (job_uuid (at_job_id a)) = Some j \<and> at_attempt_number a \<le> job_attempt_count j))"

lemma system_okD:
  assumes "system_ok m s"
  shows "store_ok s"
    and "map_of (t_jobs s) u = Some j \<Longrightarrow>
      \<exists>i. investigation_of s j = Some i \<and> inv_tenant i = job_tenant j \<and> job_matches m j (inv_status i)"
    and "map_of (t_jobs s) u = Some j \<Longrightarrow> map_of (t_jobs s) v = Some k \<Longrightarrow>
      job_investigation_id j = job_investigation_id k \<Longrightarrow> u = v"
    and "map_of (t_investigations s) u = Some i \<Longrightarrow>
      inv_status i = INV_SUCCEEDED \<longleftrightarrow> (\<exists>r. map_of (t_reports s) u = Some r \<and> rp_tenant r = inv_tenant i)"
    and "map_of (t_reports s) u = Some r \<Longrightarrow> \<exists>i. map_of (t_investigations s) u = Some i \<and> inv_status i = INV_SUCCEEDED"
    and "map_of (t_attempts s) u = Some a \<Longrightarrow>
      \<exists>j. map_of (t_jobs s) (job_uuid (at_job_id a)) = Some j \<and> at_attempt_number a \<le> job_attempt_count j"
  using assms by (auto simp: system_ok_def)

lemma row_of_job: "store_ok s \<Longrightarrow> job \<in> snd ` set (t_jobs s) \<Longrightarrow> map_of (t_jobs s) (job_uuid (job_job_id job)) = Some job"
  by (force simp: store_ok_def table_ok_def list_all_iff)

lemma row_of_attempt: "store_ok s \<Longrightarrow> a \<in> snd ` set (t_attempts s) \<Longrightarrow> map_of (t_attempts s) (attempt_uuid (at_attempt_id a)) = Some a"
  by (force simp: store_ok_def table_ok_def list_all_iff)

section \<open>A run from a committed store\<close>

definition receipt :: "worker \<Rightarrow> run_readings \<Rightarrow> job_record \<Rightarrow> claimed_job" where
  "receipt wk rr job = claim_receipt (wk_worker_id wk) (wk_lease wk) (rr_claim_now rr) job"

definition claimed_store :: "worker \<Rightarrow> run_readings \<Rightarrow> job_record \<Rightarrow> tables \<Rightarrow> tables" where
  "claimed_store wk rr job s = s\<lparr>t_jobs := AList.update (job_uuid (job_job_id job))
     (claimed_version (wk_worker_id wk) (wk_lease wk) (rr_claim_now rr) job) (t_jobs s)\<rparr>"

definition started_store :: "worker \<Rightarrow> run_readings \<Rightarrow> job_record \<Rightarrow> investigation_record \<Rightarrow> tables \<Rightarrow> tables" where
  "started_store wk rr job ir s =
     set_investigation (investigation_uuid (job_investigation_id job)) ir (rr_running_at rr) INV_RUNNING
       (claimed_store wk rr job s)"

lemma hoare_run_claimed:
  assumes ok: "system_ok m s" and job: "job \<in> snd ` set (t_jobs s)" "job_status job = JOB_QUEUED"
    and ir: "investigation_of s job = Some ir" and wk: "\<not> is_blank (wk_worker_id wk)"
  shows "hoare (holds (claimed_store wk rr job s)) (run_claimed wk pt rr (receipt wk rr job))
    (\<lambda>_ st. run_end wk pt rr (receipt wk rr job) ir (started_store wk rr job ir s) (ws_store st) \<and>
       metrics_ok (ws_metrics st)) (\<lambda>_ _. False)"
proof -
  let ?s1 = "claimed_store wk rr job s" and ?c = "receipt wk rr job" and ?s2 = "started_store wk rr job ir s"
  let ?u = "investigation_uuid (job_investigation_id job)"
  note store = system_okD(1) [OF ok]
  note row = row_of_job [OF store job(1)]
  have c: "cj_tenant ?c = job_tenant job" "cj_investigation_id ?c = job_investigation_id job" "cj_job_id ?c = job_job_id job"
    "cj_attempt_count ?c = job_attempt_count job + 1"
    by (simp_all add: receipt_def claim_receipt_def)
  have t: "inv_tenant ir = job_tenant job" "inv_status ir = INV_PENDING \<or> inv_status ir = INV_RUNNING"
    using system_okD(2) [OF ok row] ir job(2) by auto
  have irow: "map_of (t_investigations s) ?u = Some ir"
    using ir by (simp add: investigation_of_def)
  note iok = store_okD(1) [OF store irow]
  have vj: "valid_job job"
    using store_okD(2) [OF store row] by blast
  have claim: "holds_claim s' ?c" if "t_jobs s' = t_jobs ?s1" "t_attempts s' = t_attempts s" for s'
  proof -
    have "at_attempt_number b \<noteq> job_attempt_count job + 1" if b: "b \<in> snd ` set (t_attempts s)" "at_job_id b = job_job_id job" for b
      using system_okD(6) [OF ok row_of_attempt [OF store b(1)]] b(2) row by auto
    then show ?thesis
      using vj wk that by (auto simp: holds_claim_def c claimed_store_def update_conv' claimed_version_def valid_record_iff)
  qed
  have "inv_status ir \<noteq> INV_SUCCEEDED" using t(2) by auto
  then have noreport: "map_of (t_reports s) ?u = None"
    using system_okD(5) [OF ok, of ?u] irow by (cases "map_of (t_reports s) ?u") auto
  have get: "investigations_get (cj_tenant ?c) (cj_investigation_id ?c) ?s1 = Inr ir"
    using irow by (simp add: investigations.found_iff c claimed_store_def t(1))
  have set: "investigations_set_status (rr_running_at rr) (cj_tenant ?c) (cj_investigation_id ?c) INV_RUNNING ?s1 =
      Inr (ir\<lparr>inv_status := INV_RUNNING, inv_updated_at := rr_running_at rr\<rparr>, ?s2)"
    using set_investigation_op [of ?s1 "job_investigation_id job" ir] irow iok t(1)
    by (simp add: c started_store_def claimed_store_def)
  let ?i = "ir\<lparr>inv_status := INV_RUNNING, inv_updated_at := rr_running_at rr\<rparr>"
  have i: "map_of (t_investigations ?s2) (investigation_uuid (cj_investigation_id ?c)) = Some ?i"
      "inv_tenant ?i = cj_tenant ?c" "valid_investigation ?i"
    using iok t(1) by (simp_all add: started_store_def set_investigation_def c update_conv' valid_record_iff)
  have ready: "open_investigation ?s2 ir"
    using i noreport iok t(1)
    by (auto simp: open_investigation_def Let_def c started_store_def set_investigation_def claimed_store_def
        map_of_eq_None_iff)
  have claim2: "holds_claim ?s2 ?c"
    by (rule claim) (simp_all add: started_store_def set_investigation_def claimed_store_def)
  have run: "run_claimed wk pt rr ?c st = seq (store_op (investigations_set_status (rr_running_at rr) (cj_tenant ?c)
      (cj_investigation_id ?c) INV_RUNNING)) (\<lambda>_. process wk pt rr ?c ir) st" if "holds ?s1 st" for st
    using that t(2) by (auto simp: run_claimed_def get holds_def)
  have "hoare (holds ?s1) (seq (store_op (investigations_set_status (rr_running_at rr) (cj_tenant ?c)
      (cj_investigation_id ?c) INV_RUNNING)) (\<lambda>_. process wk pt rr ?c ir))
    (\<lambda>_ st. run_end wk pt rr ?c ir ?s2 (ws_store st) \<and> metrics_ok (ws_metrics st)) (\<lambda>_ _. False)"
    by (rule hoare_seq [OF hoare_store_op [where f = "investigations_set_status (rr_running_at rr) (cj_tenant ?c)
        (cj_investigation_id ?c) INV_RUNNING" and s = ?s1, OF set]], rule hoare_fact,
        rule hoare_process [OF ready claim2 wk i])
  then show ?thesis
    unfolding hoare_def using run by simp
qed

lemma claimable_queued:
  assumes "system_ok m s" "job \<in> snd ` set (t_jobs s)" "claimable job now"
  shows "job_status job = JOB_QUEUED"
  using system_okD(2) [OF assms(1) row_of_job [OF system_okD(1) [OF assms(1)] assms(2)]] assms(3)
  by (auto simp: claimable_def split: if_splits)

theorem run_once_cases:
  assumes ok: "system_ok m s" and g: "metrics_ok g" and wk: "\<not> is_blank (wk_worker_id wk)"
    and cal: "in_calendar (rr_claim_now rr + wk_lease wk)"
  shows "((\<forall>job \<in> snd ` set (t_jobs s). \<not> claimable job (rr_claim_now rr)) \<and> run_once wk pt rr g s = (Inr False, s, g)) \<or>
    (\<exists>job ir s' g'. job \<in> snd ` set (t_jobs s) \<and> claimable job (rr_claim_now rr) \<and>
       (\<forall>other \<in> snd ` set (t_jobs s). claimable other (rr_claim_now rr) \<longrightarrow> claim_order job \<le> claim_order other) \<and>
       investigation_of s job = Some ir \<and> metrics_ok g' \<and> run_once wk pt rr g s = (Inr True, s', g') \<and>
       run_end wk pt rr (receipt wk rr job) ir (started_store wk rr job ir s) s')"
proof -
  let ?st = "\<lparr>ws_store = s, ws_metrics = g\<rparr>" and ?now = "rr_claim_now rr"
  note store = system_okD(1) [OF ok]
  show ?thesis
  proof (cases "\<exists>job \<in> snd ` set (t_jobs s). claimable job ?now")
    case False
    then have "jobs_claim (wk_worker_id wk) (wk_lease wk) ?now s = Inr (None, s)"
      using wk by (simp add: claim_None)
    then have "run_once wk pt rr g s = (Inr False, s, g)"
      by (simp add: run_once_def run_scope_def seq_def store_op_def ret_def)
    with False show ?thesis by blast
  next
    case True
    then obtain c s1 where c: "jobs_claim (wk_worker_id wk) (wk_lease wk) ?now s = Inr (Some c, s1)"
      using claim_Some [OF store _ _ wk cal] by blast
    obtain job where job: "job \<in> snd ` set (t_jobs s)" "claimable job ?now"
        "\<forall>other \<in> snd ` set (t_jobs s). claimable other ?now \<longrightarrow> claim_order job \<le> claim_order other"
      and cr: "c = receipt wk rr job" and s1: "s1 = claimed_store wk rr job s"
      using claim_SomeD [OF c] by (elim exE conjE) (rule that, simp_all add: receipt_def claimed_store_def)
    obtain ir where ir: "investigation_of s job = Some ir"
      using system_okD(2) [OF ok row_of_job [OF store job(1)]] by blast
    let ?st1 = "\<lparr>ws_store = s1, ws_metrics = g\<rparr>"
    obtain q st2 where q: "run_claimed wk pt rr c ?st1 = (q, st2)" by (cases "run_claimed wk pt rr c ?st1")
    have "holds (claimed_store wk rr job s) ?st1"
      using g by (simp add: holds_def s1)
    from hoareD [OF hoare_run_claimed [OF ok job(1) claimable_queued [OF ok job(1,2)] ir wk] this q [unfolded cr]]
    obtain a where a: "q = Inr a" "run_end wk pt rr (receipt wk rr job) ir (started_store wk rr job ir s) (ws_store st2)"
      "metrics_ok (ws_metrics st2)" by (cases q) auto
    have "run_once wk pt rr g s = (Inr True, ws_store st2, ws_metrics st2)"
      using q a(1) by (simp add: run_once_def run_scope_def seq_def store_op_def ret_def c)
    with job ir a show ?thesis by blast
  qed
qed

section \<open>The common effect of all ends\<close>

definition effect ::
  "tables \<Rightarrow> tables \<Rightarrow> job_record \<Rightarrow> investigation_record \<Rightarrow> job_status \<Rightarrow> investigation_status \<Rightarrow> bool" where
  "effect s s' job ir js is \<longleftrightarrow> store_ok s' \<and>
     (\<exists>j'. t_jobs s' = AList.update (job_uuid (job_job_id job)) j' (t_jobs s) \<and> job_job_id j' = job_job_id job \<and>
        job_investigation_id j' = job_investigation_id job \<and> job_tenant j' = job_tenant job \<and>
        job_available_at j' = job_available_at job \<and> job_attempt_count j' = job_attempt_count job + 1 \<and> job_status j' = js) \<and>
     (\<exists>i'. t_investigations s' = AList.update (investigation_uuid (job_investigation_id job)) i' (t_investigations s) \<and>
        inv_status i' = is \<and> inv_tenant i' = inv_tenant ir) \<and>
     (\<exists>a. t_attempts s' = AList.update (attempt_uuid (at_attempt_id a)) a (t_attempts s) \<and>
        at_job_id a = job_job_id job \<and> at_attempt_number a = job_attempt_count job + 1) \<and>
     (if js = JOB_SUCCEEDED
      then \<exists>r. t_reports s' = AList.update (investigation_uuid (job_investigation_id job)) r (t_reports s) \<and>
        rp_tenant r = inv_tenant ir
      else t_reports s' = t_reports s)"

lemma set_investigation_ok:
  assumes "store_ok s" "map_of (t_investigations s) u = Some i"
  shows "store_ok (set_investigation u i now status s)"
  unfolding set_investigation_def using store_okD(1) [OF assms]
  by (intro update_ok(1) [OF assms(1)]) (simp_all add: valid_record_iff)

lemma with_job_ok:
  assumes "store_ok s" "map_of (t_jobs s) (job_uuid (cj_job_id c)) = Some j"
  shows "store_ok (with_job rr c status s)"
  unfolding with_job_def Let_def assms(2) option.sel using store_okD(2) [OF assms]
  by (intro update_ok(2) [OF assms(1)]) (simp_all add: valid_record_iff)

lemma with_attempt_ok:
  assumes "store_ok s" "1 \<le> cj_attempt_count c" "\<not> is_blank (wk_worker_id wk)" "\<forall>x. code = Some x \<longrightarrow> \<not> is_blank x"
  shows "store_ok (with_attempt wk rr c outcome code s)"
  unfolding with_attempt_def using assms
  by (intro update_ok(3)) (simp_all add: attempt_row_def valid_record_iff)

lemma closed_ok:
  assumes "store_ok s" "map_of (t_jobs s) (job_uuid (cj_job_id c)) = Some j" "1 \<le> cj_attempt_count c"
    and "\<not> is_blank (wk_worker_id wk)" "\<forall>x. code = Some x \<longrightarrow> \<not> is_blank x"
  shows "store_ok (closed wk rr c status outcome code s)"
  unfolding closed_def by (rule with_attempt_ok [OF with_job_ok [OF assms(1,2)] assms(3-5)])

lemma audit_ok: "store_ok s \<Longrightarrow> make_audit_record r = Inr r \<Longrightarrow> store_ok (audit_append r s)"
  by (simp add: update_ok(6) make_record_Inr)

lemma persisted_ok:
  assumes "store_ok s" "map_of (t_investigations s) (investigation_uuid (inv_investigation_id ir)) = Some i"
    and "artifacts_of baseline ledger document = Inr af" "\<not> is_blank (wk_worker_id wk)"
  shows "store_ok (persisted wk rr ir af s)"
proof -
  note texts = artifact_texts [OF assms(3)]
  let ?s1 = "fold evidence_insert (map (evidence_row (rr_persisted_at rr) ir) (af_evidence_payloads af)) s"
  let ?r = "report_row (rr_persisted_at rr) ir af"
  have "store_ok ?s1"
    by (rule evidence_fold_ok [OF assms(1) evidence_rows_ok(2) [OF texts(1)]])
  moreover have "valid_report ?r" "rp_investigation_id ?r = inv_investigation_id ir"
    using report_row_valid [OF texts(2,3)] by (simp_all add: make_record_Inr) (simp add: report_row_def)
  ultimately have "store_ok (?s1\<lparr>t_reports := AList.update (investigation_uuid (inv_investigation_id ir)) ?r (t_reports ?s1)\<rparr>)"
    by (intro update_ok(5)) simp_all
  then show ?thesis
    unfolding persisted_def Let_def using assms(2,4)
    by (intro audit_ok set_investigation_ok audit_row_valid literals_not_blank) simp_all
qed

lemmas run_tables = closed_def with_attempt_def with_job_def failed_def persisted_def set_investigation_def
  started_store_def claimed_store_def audit_append_def Let_def

lemma started_ok:
  assumes "system_ok m s" "job \<in> snd ` set (t_jobs s)" "investigation_of s job = Some ir" "\<not> is_blank (wk_worker_id wk)"
  shows "store_ok (started_store wk rr job ir s)"
proof -
  note store = system_okD(1) [OF assms(1)]
  have "valid_job job"
    using store_okD(2) [OF store row_of_job [OF store assms(2)]] by blast
  then have "store_ok (claimed_store wk rr job s)"
    unfolding claimed_store_def using assms(4)
    by (intro update_ok(2) [OF store]) (auto simp: claimed_version_def valid_record_iff)
  then show ?thesis
    unfolding started_store_def using assms(3)
    by (intro set_investigation_ok) (simp_all add: claimed_store_def investigation_of_def)
qed

lemma closed_attempt:
  "\<exists>a. t_attempts (closed wk rr c status outcome code s) = AList.update (attempt_uuid (at_attempt_id a)) a (t_attempts s) \<and>
     at_job_id a = cj_job_id c \<and> at_attempt_number a = cj_attempt_count c"
  by (intro exI [of _ "attempt_row wk rr c outcome code"])
    (simp add: closed_def with_attempt_def with_job_def Let_def attempt_row_def)

lemma run_end_effect:
  assumes ok: "system_ok m s" and m: "m = wk_max_attempts wk" "1 \<le> m"
    and job: "job \<in> snd ` set (t_jobs s)" "job_status job = JOB_QUEUED"
    and ir: "investigation_of s job = Some ir" and wk: "\<not> is_blank (wk_worker_id wk)"
    and fin: "run_end wk pt rr (receipt wk rr job) ir (started_store wk rr job ir s) s'"
  shows "\<exists>js is. effect s s' job ir js is \<and>
    ((js = JOB_SUCCEEDED \<and> is = INV_SUCCEEDED) \<or> (js = JOB_FAILED \<and> is = INV_FAILED) \<or>
     (js = JOB_QUEUED \<and> is = INV_RUNNING \<and> job_attempt_count job + 1 < m))"
proof -
  let ?c = "receipt wk rr job" and ?s2 = "started_store wk rr job ir s"
  note store = system_okD(1) [OF ok] and ok2 = started_ok [OF ok job(1) ir wk]
  note row = row_of_job [OF store job(1)]
  have c: "cj_tenant ?c = job_tenant job" "cj_investigation_id ?c = job_investigation_id job" "cj_job_id ?c = job_job_id job"
    "cj_attempt_count ?c = job_attempt_count job + 1"
    by (simp_all add: receipt_def claim_receipt_def)
  have "valid_job job"
    using store_okD(2) [OF store row] by blast
  then have count: "1 \<le> cj_attempt_count ?c"
    by (simp add: c valid_record_iff)
  have irow: "map_of (t_investigations s) (investigation_uuid (job_investigation_id job)) = Some ir"
    using ir by (simp add: investigation_of_def)
  have same: "inv_investigation_id ir = job_investigation_id job"
    using store_okD(1) [OF store irow] by (auto intro: investigation_id.expand)
  have j2: "map_of (t_jobs ?s2) (job_uuid (cj_job_id ?c)) =
      Some (claimed_version (wk_worker_id wk) (wk_lease wk) (rr_claim_now rr) job)"
    by (simp add: run_tables c update_conv')
  have i2: "map_of (t_investigations ?s2) (investigation_uuid (job_investigation_id job)) =
      Some (ir\<lparr>inv_status := INV_RUNNING, inv_updated_at := rr_running_at rr\<rparr>)"
    by (simp add: run_tables update_conv')
  have tenant: "inv_tenant ir = job_tenant job"
    using system_okD(2) [OF ok row] ir by auto
  from fin [unfolded run_end_def] show ?thesis
  proof (elim disjE exE conjE)
    fix af assume af: "produced wk pt ir af"
      and s': "s' = closed wk rr ?c JOB_SUCCEEDED OUTCOME_SUCCEEDED None (persisted wk rr ir af ?s2)"
    obtain baseline ledger document where art: "artifacts_of baseline ledger document = Inr af"
      using af by (auto simp: produced_def)
    have "store_ok s'"
      unfolding s' by (rule closed_ok [OF persisted_ok [OF ok2 _ art wk] _ count wk])
        (use i2 j2 in \<open>simp_all add: same persisted_def Let_def set_investigation_def audit_append_def\<close>)
    moreover have "\<exists>a. t_attempts s' = AList.update (attempt_uuid (at_attempt_id a)) a (t_attempts s) \<and>
        at_job_id a = job_job_id job \<and> at_attempt_number a = job_attempt_count job + 1"
      using closed_attempt [of wk rr ?c JOB_SUCCEEDED OUTCOME_SUCCEEDED None "persisted wk rr ir af ?s2"]
      by (simp add: s' c persisted_def set_investigation_def audit_append_def started_store_def claimed_store_def Let_def)
    ultimately have "effect s s' job ir JOB_SUCCEEDED INV_SUCCEEDED"
      unfolding effect_def
      by (intro conjI) (auto simp: s' run_tables c same update_conv' claimed_version_def report_row_def)
    then show ?thesis by blast
  next
    fix code assume code: "stable_code code" and s': "s' = failed wk rr ?c code ?s2"
    have blank: "\<forall>x. Some code = Some x \<longrightarrow> \<not> is_blank x"
      using stable_code_not_blank [OF code] by simp
    have "store_ok s'"
      unfolding s' failed_def Let_def
      by (rule audit_ok [OF closed_ok [OF set_investigation_ok [OF ok2] _ count wk blank]
            audit_row_valid [OF wk literals_not_blank(4) blank]])
        (use i2 j2 in \<open>simp_all add: c set_investigation_def\<close>)
    moreover have "\<exists>a. t_attempts s' = AList.update (attempt_uuid (at_attempt_id a)) a (t_attempts s) \<and>
        at_job_id a = job_job_id job \<and> at_attempt_number a = job_attempt_count job + 1"
      using closed_attempt [of wk rr ?c JOB_FAILED OUTCOME_FAILED "Some code" "set_investigation (investigation_uuid (job_investigation_id job))
        (the (map_of (t_investigations ?s2) (investigation_uuid (job_investigation_id job)))) (rr_failed_at rr) INV_FAILED ?s2"]
      by (simp add: s' c failed_def set_investigation_def audit_append_def started_store_def claimed_store_def Let_def)
    ultimately have "effect s s' job ir JOB_FAILED INV_FAILED"
      unfolding effect_def
      by (intro conjI) (auto simp: s' run_tables c update_conv' claimed_version_def)
    then show ?thesis by blast
  next
    fix code assume code: "stable_code code" and less: "cj_attempt_count ?c < wk_max_attempts wk"
      and s': "s' = closed wk rr ?c JOB_QUEUED OUTCOME_FAILED (Some code) ?s2"
    have blank: "\<forall>x. Some code = Some x \<longrightarrow> \<not> is_blank x"
      using stable_code_not_blank [OF code] by simp
    have "store_ok s'"
      unfolding s' by (rule closed_ok [OF ok2 j2 count wk blank])
    moreover have "\<exists>a. t_attempts s' = AList.update (attempt_uuid (at_attempt_id a)) a (t_attempts s) \<and>
        at_job_id a = job_job_id job \<and> at_attempt_number a = job_attempt_count job + 1"
      using closed_attempt [of wk rr ?c JOB_QUEUED OUTCOME_FAILED "Some code" ?s2]
      by (simp add: s' c set_investigation_def started_store_def claimed_store_def Let_def)
    ultimately have "effect s s' job ir JOB_QUEUED INV_RUNNING"
      unfolding effect_def
      by (intro conjI) (auto simp: s' run_tables c update_conv' claimed_version_def)
    then show ?thesis using less c(4) m(1) by auto
  qed
qed

definition closing :: "int \<Rightarrow> job_record \<Rightarrow> job_status \<Rightarrow> investigation_status \<Rightarrow> bool" where
  "closing m job js is \<longleftrightarrow> (js = JOB_SUCCEEDED \<and> is = INV_SUCCEEDED) \<or> (js = JOB_FAILED \<and> is = INV_FAILED) \<or>
     (js = JOB_QUEUED \<and> is = INV_RUNNING \<and> job_attempt_count job + 1 < m)"

lemma effect_system_ok:
  assumes ok: "system_ok m s" and job: "job \<in> snd ` set (t_jobs s)" "job_status job = JOB_QUEUED"
    and ir: "investigation_of s job = Some ir"
    and eff: "effect s s' job ir js is" and cl: "closing m job js is"
  shows "system_ok m s'"
proof -
  let ?ju = "job_uuid (job_job_id job)" and ?u = "investigation_uuid (job_investigation_id job)"
  note row = row_of_job [OF system_okD(1) [OF ok] job(1)]
  have irow: "map_of (t_investigations s) ?u = Some ir"
    using ir by (simp add: investigation_of_def)
  have q: "inv_tenant ir = job_tenant job" "inv_status ir \<noteq> INV_SUCCEEDED" "job_attempt_count job < m"
    using system_okD(2) [OF ok row] ir job(2) by auto
  obtain j' where j': "map_of (t_jobs s') = (map_of (t_jobs s))(?ju \<mapsto> j')"
      "job_job_id j' = job_job_id job" "job_investigation_id j' = job_investigation_id job" "job_tenant j' = job_tenant job"
      "job_attempt_count j' = job_attempt_count job + 1" "job_status j' = js"
    using eff by (auto simp: effect_def update_conv')
  obtain i' where i': "map_of (t_investigations s') = (map_of (t_investigations s))(?u \<mapsto> i')"
      "inv_status i' = is" "inv_tenant i' = inv_tenant ir"
    using eff by (auto simp: effect_def update_conv')
  obtain a' where a': "map_of (t_attempts s') = (map_of (t_attempts s))(attempt_uuid (at_attempt_id a') \<mapsto> a')"
      "at_job_id a' = job_job_id job" "at_attempt_number a' = job_attempt_count job + 1"
    using eff by (auto simp: effect_def update_conv')
  have noreport: "map_of (t_reports s) ?u = None"
    using system_okD(5) [OF ok, of ?u] irow q(2) by (cases "map_of (t_reports s) ?u") auto
  have rep: "\<exists>r. map_of (t_reports s') = (map_of (t_reports s))(?u \<mapsto> r) \<and> rp_tenant r = inv_tenant ir" if "js = JOB_SUCCEEDED"
    using eff that by (auto simp: effect_def update_conv')
  have same: "t_reports s' = t_reports s" if "js \<noteq> JOB_SUCCEEDED"
    using eff that by (simp add: effect_def)
  have succ: "is = INV_SUCCEEDED \<longleftrightarrow> js = JOB_SUCCEEDED"
    using cl by (auto simp: closing_def)
  show ?thesis
    unfolding system_ok_def
  proof (intro conjI allI impI)
    show "store_ok s'" using eff by (simp add: effect_def)
  next
    fix v k assume v: "map_of (t_jobs s') v = Some k"
    show "\<exists>i. investigation_of s' k = Some i \<and> inv_tenant i = job_tenant k \<and> job_matches m k (inv_status i)"
    proof (cases "v = ?ju")
      case True
      with v have "k = j'" by (simp add: j'(1))
      then show ?thesis
        using cl q j' i' by (auto simp: investigation_of_def closing_def)
    next
      case False
      then have old: "map_of (t_jobs s) v = Some k" using v by (simp add: j'(1))
      have "job_investigation_id k \<noteq> job_investigation_id job"
        using system_okD(3) [OF ok old row] False by blast
      then have "investigation_uuid (job_investigation_id k) \<noteq> ?u"
        by (metis investigation_id.expand)
      then show ?thesis
        using system_okD(2) [OF ok old] by (simp add: investigation_of_def i'(1))
    qed
  next
    fix v w k l assume "map_of (t_jobs s') v = Some k" "map_of (t_jobs s') w = Some l"
      "job_investigation_id k = job_investigation_id l"
    then show "v = w"
      using system_okD(3) [OF ok row, of w l] system_okD(3) [OF ok row, of v k] system_okD(3) [OF ok, of v k w l] j'(3)
      by (auto simp: j'(1) split: if_splits)
  next
    fix v i assume v: "map_of (t_investigations s') v = Some i"
    show "inv_status i = INV_SUCCEEDED \<longleftrightarrow> (\<exists>r. map_of (t_reports s') v = Some r \<and> rp_tenant r = inv_tenant i)"
    proof (cases "v = ?u")
      case True
      then have "i = i'" using v by (simp add: i'(1))
      then show ?thesis
        using True rep same noreport succ by (cases "js = JOB_SUCCEEDED") (auto simp: i'(2,3))
    next
      case False
      then have "map_of (t_investigations s) v = Some i" using v by (simp add: i'(1))
      moreover have "map_of (t_reports s') v = map_of (t_reports s) v"
        using False rep same by (cases "js = JOB_SUCCEEDED") auto
      ultimately show ?thesis using system_okD(4) [OF ok] by simp
    qed
  next
    fix v r assume v: "map_of (t_reports s') v = Some r"
    show "\<exists>i. map_of (t_investigations s') v = Some i \<and> inv_status i = INV_SUCCEEDED"
    proof (cases "v = ?u")
      case True
      then have "js = JOB_SUCCEEDED"
        using v noreport same by (cases "js = JOB_SUCCEEDED") auto
      then show ?thesis using True i' succ by simp
    next
      case False
      then have "map_of (t_reports s) v = Some r"
        using v rep same by (cases "js = JOB_SUCCEEDED") auto
      then show ?thesis using system_okD(5) [OF ok] False by (simp add: i'(1))
    qed
  next
    fix v a assume v: "map_of (t_attempts s') v = Some a"
    show "\<exists>j. map_of (t_jobs s') (job_uuid (at_job_id a)) = Some j \<and> at_attempt_number a \<le> job_attempt_count j"
    proof (cases "v = attempt_uuid (at_attempt_id a')")
      case True
      then have "a = a'" using v by (simp add: a'(1))
      then show ?thesis by (simp add: a' j')
    next
      case False
      then have "map_of (t_attempts s) v = Some a" using v by (simp add: a'(1))
      from system_okD(6) [OF ok this] obtain j where
        "map_of (t_jobs s) (job_uuid (at_job_id a)) = Some j" "at_attempt_number a \<le> job_attempt_count j" by blast
      then show ?thesis
        using row j'(5) by (cases "job_uuid (at_job_id a) = ?ju") (auto simp: j'(1))
    qed
  qed
qed

section \<open>The reachable systems\<close>

lemma map_of_snoc: "k \<notin> fst ` set xs \<Longrightarrow> map_of (xs @ [(k, v)]) = (map_of xs)(k \<mapsto> v)"
  by (auto simp: map_add_def fun_eq_iff map_of_eq_None_iff [symmetric] split: option.splits)

lemma create_system_ok:
  assumes ok: "system_ok m s" "1 \<le> m" and u: "u \<notin> fst ` set (t_investigations s)"
  shows "system_ok m (snd (create_investigation n now u j cmd s))"
proof (cases "create_investigation n now u j cmd s")
  case (Pair r s')
  show ?thesis
  proof (cases r)
    case (Inl e)
    then have "s' = s"
      using Pair by (auto simp: create_investigation_def split: sum.splits prod.splits)
    with Pair ok show ?thesis by simp
  next
    case (Inr i)
    note store = system_okD(1) [OF ok(1)]
    have "s' = s \<or> (1 \<le> n \<and> (\<forall>k. cmd_idempotency_key cmd = Some k \<longrightarrow> \<not> is_blank k) \<and> j \<notin> fst ` set (t_jobs s) \<and>
        s' = with_new_investigation n now u j cmd s)"
      using create_cases [OF store u Pair [unfolded Inr]] by blast
    then show ?thesis
    proof (elim disjE conjE)
      assume n: "1 \<le> n" "\<forall>k. cmd_idempotency_key cmd = Some k \<longrightarrow> \<not> is_blank k" "j \<notin> fst ` set (t_jobs s)"
        and s': "s' = with_new_investigation n now u j cmd s"
      have tabs: "map_of (t_investigations s') = (map_of (t_investigations s))(u \<mapsto> pending_investigation now u cmd)"
          "map_of (t_jobs s') = (map_of (t_jobs s))(j \<mapsto> queued_job n now u j cmd)"
          "t_reports s' = t_reports s" "t_attempts s' = t_attempts s"
        by (simp_all add: s' with_new_investigation_def audit_append_def map_of_snoc u n(3) del: map_of_append)
      have absent: "map_of (t_investigations s) u = None" "map_of (t_jobs s) j = None"
        using u n(3) by (simp_all add: map_of_eq_None_iff)
      then have noreport: "map_of (t_reports s) u = None"
        using system_okD(5) [OF ok(1), of u] by (cases "map_of (t_reports s) u") auto
      have new: "job_investigation_id (queued_job n now u j cmd) = InvestigationId u"
        "job_tenant (queued_job n now u j cmd) = cmd_tenant cmd" "job_status (queued_job n now u j cmd) = JOB_QUEUED"
        "job_attempt_count (queued_job n now u j cmd) = 0" "inv_tenant (pending_investigation now u cmd) = cmd_tenant cmd"
        "inv_status (pending_investigation now u cmd) = INV_PENDING"
        by (simp_all add: queued_job_def pending_investigation_def)
      have other: "investigation_uuid (job_investigation_id k) \<noteq> u" if "map_of (t_jobs s) v = Some k" for v k
        using system_okD(2) [OF ok(1) that] absent(1) by (auto simp: investigation_of_def)
      have "system_ok m s'"
        unfolding system_ok_def
      proof (intro conjI allI impI)
        show "store_ok s'"
          unfolding s' by (rule with_new_ok [OF store n(1,2) u n(3)])
      next
        fix v k assume "map_of (t_jobs s') v = Some k"
        then show "\<exists>i. investigation_of s' k = Some i \<and> inv_tenant i = job_tenant k \<and> job_matches m k (inv_status i)"
          using system_okD(2) [OF ok(1), of v k] other [of v k] ok(2)
          by (cases "v = j") (auto simp: investigation_of_def tabs new)
      next
        fix v w k l assume v: "map_of (t_jobs s') v = Some k" "map_of (t_jobs s') w = Some l"
          "job_investigation_id k = job_investigation_id l"
        have clash: False if "map_of (t_jobs s) x = Some y" "job_investigation_id (queued_job n now u j cmd) = job_investigation_id y" for x y
          using other [OF that(1)] that(2) by (simp add: new(1) flip: that(2))
        show "v = w"
        proof (cases "v = j")
          case True
          then have "job_investigation_id (queued_job n now u j cmd) = job_investigation_id l"
            using v(1,3) by (simp only: tabs fun_upd_same option.inject)
          then have "map_of (t_jobs s) w \<noteq> Some l" using clash by blast
          then show ?thesis using v(2) True by (cases "w = j") (simp_all add: tabs)
        next
          case False
          then have k: "map_of (t_jobs s) v = Some k" using v(1) by (simp add: tabs)
          show ?thesis
          proof (cases "w = j")
            case True
            then have "job_investigation_id (queued_job n now u j cmd) = job_investigation_id k"
              using v(2,3) by (simp only: tabs fun_upd_same option.inject)
            then show ?thesis using clash [OF k] by blast
          next
            case False
            then have "map_of (t_jobs s) w = Some l" using v(2) by (simp add: tabs)
            then show ?thesis using system_okD(3) [OF ok(1) k _ v(3)] by blast
          qed
        qed
      next
        fix v i assume "map_of (t_investigations s') v = Some i"
        then show "inv_status i = INV_SUCCEEDED \<longleftrightarrow> (\<exists>r. map_of (t_reports s') v = Some r \<and> rp_tenant r = inv_tenant i)"
          using system_okD(4) [OF ok(1), of v i] noreport by (cases "v = u") (auto simp: tabs new)
      next
        fix v r assume "map_of (t_reports s') v = Some r"
        then show "\<exists>i. map_of (t_investigations s') v = Some i \<and> inv_status i = INV_SUCCEEDED"
          using system_okD(5) [OF ok(1), of v r] noreport by (cases "v = u") (auto simp: tabs)
      next
        fix v a assume "map_of (t_attempts s') v = Some a"
        then show "\<exists>k. map_of (t_jobs s') (job_uuid (at_job_id a)) = Some k \<and> at_attempt_number a \<le> job_attempt_count k"
          using system_okD(6) [OF ok(1), of v a] absent(2) by (auto simp: tabs)
      qed
      with Pair show ?thesis by simp
    qed (use Pair ok in simp)
  qed
qed

lemma run_once_ok:
  assumes ok: "system_ok (wk_max_attempts wk) s" and g: "metrics_ok g" and wk: "\<not> is_blank (wk_worker_id wk)"
    and m: "1 \<le> wk_max_attempts wk" and cal: "in_calendar (rr_claim_now rr + wk_lease wk)"
    and run: "run_once wk pt rr g s = (r, s', g')"
  shows "system_ok (wk_max_attempts wk) s' \<and> metrics_ok g' \<and> (\<exists>b. r = Inr b)"
  using run_once_cases [OF ok g wk cal, of pt]
proof (elim disjE exE conjE)
  assume "run_once wk pt rr g s = (Inr False, s, g)"
  with run ok g show ?thesis by auto
next
  fix job ir s1 g1
  assume k: "job \<in> snd ` set (t_jobs s)" "claimable job (rr_claim_now rr)" "investigation_of s job = Some ir"
    "metrics_ok g1" "run_once wk pt rr g s = (Inr True, s1, g1)"
    "run_end wk pt rr (receipt wk rr job) ir (started_store wk rr job ir s) s1"
  note q = claimable_queued [OF ok k(1,2)]
  from run_end_effect [OF ok refl m k(1) q k(3) wk k(6)]
  obtain js st where "effect s s1 job ir js st" "closing (wk_max_attempts wk) job js st"
    unfolding closing_def by blast
  from effect_system_ok [OF ok k(1) q k(3) this] k(4,5) run show ?thesis by auto
qed

inductive reachable :: "worker \<Rightarrow> tables \<times> registry \<Rightarrow> bool" for wk where
  start: "make_worker wk empty_registry = Inr (wk, g) \<Longrightarrow> reachable wk (empty_store, g)"
| create: "reachable wk (s, g) \<Longrightarrow> u \<notin> fst ` set (t_investigations s) \<Longrightarrow>
    reachable wk (snd (create_investigation n now u j cmd s), g)"
| run: "reachable wk (s, g) \<Longrightarrow> in_calendar (rr_claim_now rr + wk_lease wk) \<Longrightarrow>
    run_once wk pt rr g s = (r, s', g') \<Longrightarrow> reachable wk (s', g')"

lemma empty_system_ok: "system_ok m empty_store"
  by (simp add: system_ok_def empty_store_ok) (simp add: empty_store_def)

lemma make_worker_not_blank: "make_worker wk g = Inr (wk', g') \<Longrightarrow> \<not> is_blank (wk_worker_id wk)"
  by (auto simp: make_worker_def split: if_splits)

lemma reachable_ok:
  assumes "reachable wk st" "1 \<le> wk_max_attempts wk"
  shows "system_ok (wk_max_attempts wk) (fst st) \<and> metrics_ok (snd st) \<and> \<not> is_blank (wk_worker_id wk)"
  using assms
proof (induction rule: reachable.induct)
  case (start g)
  then show ?case by (simp add: empty_system_ok make_worker_metrics make_worker_not_blank)
next
  case (create s g u n now j cmd)
  then show ?case by (simp add: create_system_ok)
next
  case (run s g rr pt r s' g')
  then show ?case using run_once_ok [of wk s g rr pt r s' g'] by simp
qed

section \<open>The work that is left\<close>

definition job_work :: "int \<Rightarrow> job_record \<Rightarrow> nat" where
  "job_work m j = (if job_status j = JOB_QUEUED then nat (m - job_attempt_count j) else 0)"

definition pending_work :: "int \<Rightarrow> tables \<Rightarrow> nat" where
  "pending_work m s = sum_list (map (\<lambda>kv. job_work m (snd kv)) (t_jobs s))"

lemma sum_list_update:
  "map_of xs u = Some v \<Longrightarrow>
     sum_list (map (\<lambda>kv. f (snd kv)) (AList.update u v' xs)) + f v = sum_list (map (\<lambda>kv. f (snd kv)) xs) + (f v' :: nat)"
  by (induction xs) auto

text \<open>All queued jobs are due at an instant.\<close>

definition all_due :: "tables \<Rightarrow> int \<Rightarrow> bool" where
  "all_due s now \<longleftrightarrow> (\<forall>job \<in> snd ` set (t_jobs s). job_available_at job \<le> now)"

fun run_many :: "worker \<Rightarrow> (ports \<times> run_readings) list \<Rightarrow> registry \<Rightarrow> tables \<Rightarrow> tables \<times> registry" where
  "run_many wk [] g s = (s, g)"
| "run_many wk ((pt, rr) # es) g s = (case run_once wk pt rr g s of (_, s', g') \<Rightarrow> run_many wk es g' s')"

lemma all_due_row:
  assumes "store_ok s" shows "all_due s now \<longleftrightarrow> (\<forall>u j. map_of (t_jobs s) u = Some j \<longrightarrow> job_available_at j \<le> now)"
  using assms by (force simp: all_due_def store_ok_def table_ok_def list_all_iff)

lemma run_once_work:
  assumes ok: "system_ok (wk_max_attempts wk) s" and g: "metrics_ok g" and wk: "\<not> is_blank (wk_worker_id wk)"
    and m: "1 \<le> wk_max_attempts wk" and cal: "in_calendar (rr_claim_now rr + wk_lease wk)"
    and due: "all_due s (rr_claim_now rr)" and run: "run_once wk pt rr g s = (r, s', g')"
  shows "(pending_work (wk_max_attempts wk) s' < pending_work (wk_max_attempts wk) s \<or> pending_work (wk_max_attempts wk) s' = 0) \<and>
    (\<forall>now. all_due s now \<longrightarrow> all_due s' now)"
  using run_once_cases [OF ok g wk cal, of pt]
proof (elim disjE exE conjE)
  assume k: "\<forall>job \<in> snd ` set (t_jobs s). \<not> claimable job (rr_claim_now rr)" "run_once wk pt rr g s = (Inr False, s, g)"
  then have "s' = s" using run by simp
  moreover have "job_status (snd kv) \<noteq> JOB_QUEUED" if "kv \<in> set (t_jobs s)" for kv
    using k(1) due that by (auto simp: all_due_def claimable_def)
  then have "pending_work (wk_max_attempts wk) s = 0"
    by (auto simp: pending_work_def job_work_def)
  ultimately show ?thesis by simp
next
  fix job ir s1 g1
  assume k: "job \<in> snd ` set (t_jobs s)" "claimable job (rr_claim_now rr)" "investigation_of s job = Some ir"
    "metrics_ok g1" "run_once wk pt rr g s = (Inr True, s1, g1)"
    "run_end wk pt rr (receipt wk rr job) ir (started_store wk rr job ir s) s1"
  let ?m = "wk_max_attempts wk" and ?u = "job_uuid (job_job_id job)"
  note store = system_okD(1) [OF ok]
  note q = claimable_queued [OF ok k(1,2)] and row = row_of_job [OF store k(1)]
  from run_end_effect [OF ok refl m k(1) q k(3) wk k(6)]
  obtain js st where eff: "effect s s1 job ir js st" and cl: "closing ?m job js st"
    unfolding closing_def by blast
  then obtain j' where j': "t_jobs s1 = AList.update ?u j' (t_jobs s)" "job_available_at j' = job_available_at job"
      "job_attempt_count j' = job_attempt_count job + 1" "job_status j' = js"
    by (auto simp: effect_def)
  have less: "job_attempt_count job < ?m"
    using system_okD(2) [OF ok row] q by auto
  have "job_work ?m j' < job_work ?m job"
    using cl less q j' by (auto simp: job_work_def closing_def)
  moreover have "pending_work ?m s1 + job_work ?m job = pending_work ?m s + job_work ?m j'"
    unfolding pending_work_def j'(1) by (rule sum_list_update [OF row])
  ultimately have "pending_work ?m s1 < pending_work ?m s" by linarith
  moreover have "all_due s1 now" if "all_due s now" for now
  proof -
    have "store_ok s1" using eff by (simp add: effect_def)
    then show ?thesis
      using that row j'(2) by (auto simp: all_due_row [OF store] all_due_row j'(1) update_conv')
  qed
  ultimately show ?thesis using k(5) run by simp
qed

lemma run_many_ok:
  assumes "system_ok (wk_max_attempts wk) s" "metrics_ok g" "\<not> is_blank (wk_worker_id wk)" "1 \<le> wk_max_attempts wk"
    and "\<forall>(pt, rr) \<in> set es. in_calendar (rr_claim_now rr + wk_lease wk) \<and> all_due s (rr_claim_now rr)"
    and "run_many wk es g s = (s', g')"
  shows "system_ok (wk_max_attempts wk) s' \<and>
    (pending_work (wk_max_attempts wk) s' = 0 \<or>
     pending_work (wk_max_attempts wk) s' + length es \<le> pending_work (wk_max_attempts wk) s)"
  using assms
proof (induction es arbitrary: s g)
  case (Cons e es)
  obtain pt rr where e: "e = (pt, rr)" by (cases e)
  obtain r s1 g1 where run: "run_once wk pt rr g s = (r, s1, g1)" by (metis surj_pair)
  have cal: "in_calendar (rr_claim_now rr + wk_lease wk)" "all_due s (rr_claim_now rr)"
    using Cons.prems(5) by (auto simp: e)
  note ok1 = run_once_ok [OF Cons.prems(1-4) cal(1) run]
  note work = run_once_work [OF Cons.prems(1-4) cal run]
  have env: "\<forall>(pt, rr) \<in> set es. in_calendar (rr_claim_now rr + wk_lease wk) \<and> all_due s1 (rr_claim_now rr)"
    using Cons.prems(5) work by (auto simp: e)
  have rest: "run_many wk es g1 s1 = (s', g')"
    using Cons.prems(6) by (simp add: e run)
  have "system_ok (wk_max_attempts wk) s1" "metrics_ok g1" using ok1 by blast+
  note ih = Cons.IH [OF this Cons.prems(3,4) env rest]
  with work show ?case by auto
qed simp

end
