(* ===== verification/Worker_Properties.thy ===== *)
theory Worker_Properties
  imports Worker_System
begin

text \<open>The properties of the worker and of the whole system, on a concrete worker for the witnesses.\<close>

definition sample_worker :: worker where
  "sample_worker = \<lparr>wk_worker_id = lit ''w1'', wk_lease = 30000000, wk_max_attempts = 3,
     wk_policy = DEFAULT_BASELINE_POLICY\<rparr>"

definition sample_ports :: ports where
  "sample_ports = \<lparr>pt_telemetry = telemetry_load [], pt_llm = (\<lambda>_. DeadlineExceeded), pt_recursion_limit = 1000\<rparr>"

definition sample_readings :: run_readings where
  "sample_readings = \<lparr>rr_claim_now = 5, rr_started = 5, rr_running_at = 5, rr_persisted_at = 5, rr_succeeded_at = 5,
     rr_failed_at = 5, rr_job_at = 5, rr_finished_at = 5, rr_attempt_created_at = 5, rr_audit_at = 5,
     rr_attempt_id = 9, rr_timer = (\<lambda>_. (fzero False, float_one))\<rparr>"

definition sample_system :: tables where
  "sample_system = with_new_investigation 3 0 1 2 sample_command empty_store"

lemma metric_names_valid:
  "validate_name JOBS_TOTAL = Inr JOBS_TOTAL" "validate_name STAGE_SECONDS = Inr STAGE_SECONDS"
  "validate_name PROVIDER_TIMEOUTS = Inr PROVIDER_TIMEOUTS" "validate_name LLM_TOKENS = Inr LLM_TOKENS"
  "validate_name VERDICTS = Inr VERDICTS"
  by (simp_all add: validate_name_def metric_name_char_def lit_def JOBS_TOTAL_def STAGE_SECONDS_def
      PROVIDER_TIMEOUTS_def LLM_TOKENS_def VERDICTS_def)

lemma sample_worker_starts: "\<exists>g. make_worker sample_worker empty_registry = Inr (sample_worker, g)"
proof -
  have b: "\<not> is_blank (wk_worker_id sample_worker)"
    by (simp add: sample_worker_def is_blank_iff lit_def py_isspace_def)
  have n: "JOBS_TOTAL \<noteq> PROVIDER_TIMEOUTS" "JOBS_TOTAL \<noteq> LLM_TOKENS" "JOBS_TOTAL \<noteq> VERDICTS"
    "PROVIDER_TIMEOUTS \<noteq> LLM_TOKENS" "PROVIDER_TIMEOUTS \<noteq> VERDICTS" "LLM_TOKENS \<noteq> VERDICTS"
    by (simp_all add: JOBS_TOTAL_def PROVIDER_TIMEOUTS_def LLM_TOKENS_def VERDICTS_def)
  have l: "sort_key fval DEFAULT_LATENCY_BUCKETS \<noteq> []"
    by (simp add: sort_key_Nil_iff) (simp add: DEFAULT_LATENCY_BUCKETS_def)
  show ?thesis
    by (simp add: make_worker_def b registry_counter_def registry_histogram_def make_counter_def make_histogram_def
        metric_names_valid empty_registry_def Let_def l n n [symmetric] update_conv')
qed

lemma sample_reachable: "\<exists>g. reachable sample_worker (sample_system, g)"
proof -
  obtain g where "make_worker sample_worker empty_registry = Inr (sample_worker, g)"
    using sample_worker_starts by blast
  moreover have "1 \<notin> fst ` set (t_investigations empty_store)"
    by (simp add: empty_store_def)
  ultimately have "reachable sample_worker (snd (create_investigation 3 0 1 2 sample_command empty_store), g)"
    by (intro reachable.create reachable.start)
  then show ?thesis
    by (auto simp: sample_creation sample_system_def)
qed

lemma sample_worker_attempts: "1 \<le> wk_max_attempts sample_worker"
  by (simp add: sample_worker_def)

lemma sample_calendar: "in_calendar (rr_claim_now sample_readings + wk_lease sample_worker)"
  by (simp add: sample_readings_def sample_worker_def in_calendar_def min_instant_def max_instant_def)

section \<open>Properties\<close>

lemma job_row_matches:
  assumes "system_ok m s" "job \<in> snd ` set (t_jobs s)"
  shows "job_attempt_count job \<le> m \<and> (job_status job = JOB_QUEUED \<or> job_status job = JOB_SUCCEEDED \<or> job_status job = JOB_FAILED)"
  using system_okD(2) [OF assms(1) row_of_job [OF system_okD(1) [OF assms(1)] assms(2)]] by auto

lemma report_iff_succeeded:
  assumes "system_ok m s"
  shows "(\<exists>r. get_report t i s = Inr r) \<longleftrightarrow>
    (\<exists>v. get_investigation_status t i s = Inr v \<and> inv_status v = INV_SUCCEEDED)"
proof -
  have get: "get_investigation_status t i s = Inr v \<longleftrightarrow> map_of (t_investigations s) (investigation_uuid i) = Some v \<and> inv_tenant v = t" for v
    by (auto simp: get_investigation_status_def investigations.found_iff [symmetric] split: sum.splits)
  have rep: "get_report t i s = Inr r \<longleftrightarrow>
      (\<exists>v. map_of (t_investigations s) (investigation_uuid i) = Some v \<and> inv_tenant v = t) \<and>
      map_of (t_reports s) (investigation_uuid i) = Some r \<and> rp_tenant r = t" for r
    by (auto simp: get_report_def investigations.found_iff [symmetric] reports.found_iff [symmetric] split: sum.splits)
  show ?thesis
    unfolding get rep using system_okD(4) [OF assms, of "investigation_uuid i"] by fastforce
qed

text \<open>
  C2. In every state the system can reach, by creations and runs with any answers of the
  telemetry source and the model, the committed store is consistent: jobs are only queued,
  succeeded or failed (a claim is never left behind), no job has more attempts than the worker
  allows, and a report is available to a tenant exactly for its succeeded investigations.
\<close>

theorem reachable_systems_are_consistent:
  assumes "reachable wk (s, g)" "1 \<le> wk_max_attempts wk"
  shows "system_ok (wk_max_attempts wk) s \<and>
    (\<forall>job \<in> snd ` set (t_jobs s). job_attempt_count job \<le> wk_max_attempts wk \<and>
       (job_status job = JOB_QUEUED \<or> job_status job = JOB_SUCCEEDED \<or> job_status job = JOB_FAILED)) \<and>
    (\<forall>t i. (\<exists>r. get_report t i s = Inr r) \<longleftrightarrow>
       (\<exists>v. get_investigation_status t i s = Inr v \<and> inv_status v = INV_SUCCEEDED))"
proof -
  have ok: "system_ok (wk_max_attempts wk) s"
    using reachable_ok [OF assms] by simp
  with job_row_matches [OF ok] report_iff_succeeded [OF ok] show ?thesis by blast
qed

theorem reachable_systems_are_consistent_witness:
  "list_all (\<lambda>job. job_attempt_count job \<le> 3) (map snd (t_jobs sample_system))"
proof -
  obtain g where "reachable sample_worker (sample_system, g)"
    using sample_reachable by blast
  from reachable_systems_are_consistent [OF this sample_worker_attempts] show ?thesis
    by (simp add: sample_worker_def list_all_iff)
qed

lemma run_end_reads:
  assumes ok: "system_ok (wk_max_attempts wk) s" and m: "1 \<le> wk_max_attempts wk" and wk: "\<not> is_blank (wk_worker_id wk)"
    and job: "job \<in> snd ` set (t_jobs s)" "job_status job = JOB_QUEUED"
    and ir: "investigation_of s job = Some ir"
    and fin: "run_end wk pt rr (receipt wk rr job) ir (started_store wk rr job ir s) s'"
  shows "\<exists>row a. jobs_get (job_tenant job) (job_job_id job) s' = Inr row \<and>
    map_of (t_attempts s') (rr_attempt_id rr) = Some a \<and> at_attempt_number a = job_attempt_count row \<and>
    ((\<exists>af r. produced wk pt ir af \<and> job_status row = JOB_SUCCEEDED \<and> at_error_code a = None \<and>
        get_report (job_tenant job) (job_investigation_id job) s' = Inr r \<and>
        rp_payload r = af_report_payload af \<and> rp_baseline_payload r = Some (af_baseline_payload af)) \<or>
     (\<exists>code. stable_code code \<and> at_error_code a = Some code \<and>
        (job_status row = JOB_FAILED \<or> job_status row = JOB_QUEUED \<and> job_attempt_count row < wk_max_attempts wk) \<and>
        get_report (job_tenant job) (job_investigation_id job) s' = Inl ReportNotReadyError))"
proof -
  let ?c = "receipt wk rr job" and ?u = "investigation_uuid (job_investigation_id job)"
  note store = system_okD(1) [OF ok]
  note row = row_of_job [OF store job(1)]
  have c: "cj_tenant ?c = job_tenant job" "cj_investigation_id ?c = job_investigation_id job" "cj_job_id ?c = job_job_id job"
    "cj_attempt_count ?c = job_attempt_count job + 1"
    by (simp_all add: receipt_def claim_receipt_def)
  have irow: "map_of (t_investigations s) ?u = Some ir"
    using ir by (simp add: investigation_of_def)
  have same: "inv_investigation_id ir = job_investigation_id job"
    using store_okD(1) [OF store irow] by (auto intro: investigation_id.expand)
  have t: "inv_tenant ir = job_tenant job" "inv_status ir \<noteq> INV_SUCCEEDED"
    using system_okD(2) [OF ok row] ir job(2) by auto
  have noreport: "map_of (t_reports s) ?u = None"
    using system_okD(5) [OF ok, of ?u] irow t(2) by (cases "map_of (t_reports s) ?u") auto
  have get: "get_report (job_tenant job) (job_investigation_id job) s1 =
      (case map_of (t_reports s1) ?u of Some r \<Rightarrow> if rp_tenant r = job_tenant job then Inr r else Inl ReportNotReadyError
       | None \<Rightarrow> Inl ReportNotReadyError)"
    if "map_of (t_investigations s1) ?u = Some i" "inv_tenant i = job_tenant job" for s1 i
    using that by (simp add: get_report_def investigations.lookup_spec reports.lookup_spec split: option.splits)
  from fin [unfolded run_end_def] show ?thesis
  proof (elim disjE exE conjE)
    fix af assume af: "produced wk pt ir af"
      and s': "s' = closed wk rr ?c JOB_SUCCEEDED OUTCOME_SUCCEEDED None (persisted wk rr ir af (started_store wk rr job ir s))"
    let ?i = "ir\<lparr>inv_status := INV_SUCCEEDED, inv_updated_at := rr_succeeded_at rr\<rparr>"
    have "map_of (t_investigations s') ?u = Some ?i" "inv_tenant ?i = job_tenant job"
      "map_of (t_reports s') ?u = Some (report_row (rr_persisted_at rr) ir af)"
      by (simp_all add: s' run_tables same update_conv' t(1))
    from get [OF this(1,2)] this(3) have
      "get_report (job_tenant job) (job_investigation_id job) s' = Inr (report_row (rr_persisted_at rr) ir af)"
      by (simp add: report_row_def t(1))
    moreover have "\<exists>row. jobs_get (job_tenant job) (job_job_id job) s' = Inr row \<and> job_status row = JOB_SUCCEEDED \<and>
        job_attempt_count row = job_attempt_count job + 1"
      by (simp add: jobs.found_iff s' run_tables c update_conv' claimed_version_def)
    moreover have "map_of (t_attempts s') (rr_attempt_id rr) = Some (attempt_row wk rr ?c OUTCOME_SUCCEEDED None)"
      by (simp add: s' run_tables update_conv')
    ultimately show ?thesis
      using af by (fastforce simp: attempt_row_def report_row_def c)
  next
    fix code assume code: "stable_code code" and s': "s' = failed wk rr ?c code (started_store wk rr job ir s)"
    have "\<exists>i. map_of (t_investigations s') ?u = Some i \<and> inv_tenant i = job_tenant job" "map_of (t_reports s') ?u = None"
      by (simp_all add: s' run_tables c update_conv' t(1) noreport)
    then have "get_report (job_tenant job) (job_investigation_id job) s' = Inl ReportNotReadyError"
      using get by auto
    moreover have "\<exists>row. jobs_get (job_tenant job) (job_job_id job) s' = Inr row \<and> job_status row = JOB_FAILED \<and>
        job_attempt_count row = job_attempt_count job + 1"
      by (simp add: jobs.found_iff s' run_tables c update_conv' claimed_version_def)
    moreover have "map_of (t_attempts s') (rr_attempt_id rr) = Some (attempt_row wk rr ?c OUTCOME_FAILED (Some code))"
      by (simp add: s' run_tables update_conv')
    ultimately show ?thesis
      using code by (fastforce simp: attempt_row_def c)
  next
    fix code assume code: "stable_code code" and less: "cj_attempt_count ?c < wk_max_attempts wk"
      and s': "s' = closed wk rr ?c JOB_QUEUED OUTCOME_FAILED (Some code) (started_store wk rr job ir s)"
    have "\<exists>i. map_of (t_investigations s') ?u = Some i \<and> inv_tenant i = job_tenant job" "map_of (t_reports s') ?u = None"
      by (simp_all add: s' run_tables c update_conv' t(1) noreport)
    then have "get_report (job_tenant job) (job_investigation_id job) s' = Inl ReportNotReadyError"
      using get by auto
    moreover have "\<exists>row. jobs_get (job_tenant job) (job_job_id job) s' = Inr row \<and> job_status row = JOB_QUEUED \<and>
        job_attempt_count row = job_attempt_count job + 1"
      by (simp add: jobs.found_iff s' run_tables c update_conv' claimed_version_def)
    moreover have "map_of (t_attempts s') (rr_attempt_id rr) = Some (attempt_row wk rr ?c OUTCOME_FAILED (Some code))"
      by (simp add: s' run_tables update_conv')
    ultimately show ?thesis
      using code less by (fastforce simp: attempt_row_def c)
  qed
qed

text \<open>
  C1. A run never raises and ends in a recorded way: it returns False and changes nothing
  exactly when no job is eligible; otherwise it takes the oldest eligible job and either stores the
  verification report that the pipeline computed from the telemetry and the parsed proposal, or
  leaves no report, fails the job or requeues it within its attempts, and records one of the
  stable error codes, whatever the model answered.
\<close>

theorem runs_are_total_and_typed:
  assumes "reachable wk (s, g)" "1 \<le> wk_max_attempts wk" "in_calendar (rr_claim_now rr + wk_lease wk)"
  shows "((\<forall>job \<in> snd ` set (t_jobs s). \<not> claimable job (rr_claim_now rr)) \<and> run_once wk pt rr g s = (Inr False, s, g)) \<or>
    (\<exists>job ir s' g' row a. job \<in> snd ` set (t_jobs s) \<and> claimable job (rr_claim_now rr) \<and>
       (\<forall>other \<in> snd ` set (t_jobs s). claimable other (rr_claim_now rr) \<longrightarrow> claim_order job \<le> claim_order other) \<and>
       get_investigation_status (job_tenant job) (job_investigation_id job) s = Inr ir \<and>
       run_once wk pt rr g s = (Inr True, s', g') \<and>
       jobs_get (job_tenant job) (job_job_id job) s' = Inr row \<and>
       map_of (t_attempts s') (rr_attempt_id rr) = Some a \<and> at_attempt_number a = job_attempt_count row \<and>
       ((\<exists>af r. produced wk pt ir af \<and> job_status row = JOB_SUCCEEDED \<and> at_error_code a = None \<and>
           get_report (job_tenant job) (job_investigation_id job) s' = Inr r \<and>
           rp_payload r = af_report_payload af \<and> rp_baseline_payload r = Some (af_baseline_payload af)) \<or>
        (\<exists>code. stable_code code \<and> at_error_code a = Some code \<and>
           (job_status row = JOB_FAILED \<or> job_status row = JOB_QUEUED \<and> job_attempt_count row < wk_max_attempts wk) \<and>
           get_report (job_tenant job) (job_investigation_id job) s' = Inl ReportNotReadyError)))"
proof -
  have r: "system_ok (wk_max_attempts wk) s" "metrics_ok g" "\<not> is_blank (wk_worker_id wk)"
    using reachable_ok [OF assms(1,2)] by simp_all
  from run_once_cases [OF r assms(3), of pt] show ?thesis
  proof (elim disjE exE conjE)
    fix job ir s' g'
    assume k: "job \<in> snd ` set (t_jobs s)" "claimable job (rr_claim_now rr)" "investigation_of s job = Some ir"
      "run_once wk pt rr g s = (Inr True, s', g')"
      "run_end wk pt rr (receipt wk rr job) ir (started_store wk rr job ir s) s'"
      "\<forall>other \<in> snd ` set (t_jobs s). claimable other (rr_claim_now rr) \<longrightarrow> claim_order job \<le> claim_order other"
    note q = claimable_queued [OF r(1) k(1,2)]
    have "get_investigation_status (job_tenant job) (job_investigation_id job) s = Inr ir"
      using system_okD(2) [OF r(1) row_of_job [OF system_okD(1) [OF r(1)] k(1)]] k(3)
      by (auto simp: get_investigation_status_def investigations.lookup_spec investigation_of_def)
    with run_end_reads [OF r(1) assms(2) r(3) k(1) q k(3,5)] k(1,2,4,6) show ?thesis
      by - (rule disjI2, elim exE, intro exI conjI, assumption+, blast+)
  qed blast
qed

theorem runs_are_total_and_typed_witness:
  "\<exists>g s' g' b. reachable sample_worker (sample_system, g) \<and>
     run_once sample_worker sample_ports sample_readings g sample_system = (Inr b, s', g')"
proof -
  obtain g where g: "reachable sample_worker (sample_system, g)"
    using sample_reachable by blast
  from runs_are_total_and_typed [OF this sample_worker_attempts sample_calendar, of sample_ports]
  show ?thesis using g by blast
qed

text \<open>
  C3. The queue drains: from any reachable state whose jobs are due, as many runs as the queued
  jobs have attempts left (whatever the ports answer in each of them) decide every job, so no
  job is retried for ever.
\<close>

theorem queue_drains:
  assumes "reachable wk (s, g)" "1 \<le> wk_max_attempts wk"
    and "\<forall>(pt, rr) \<in> set es. in_calendar (rr_claim_now rr + wk_lease wk) \<and> all_due s (rr_claim_now rr)"
    and "pending_work (wk_max_attempts wk) s \<le> length es" "run_many wk es g s = (s', g')"
  shows "\<forall>job \<in> snd ` set (t_jobs s'). job_status job = JOB_SUCCEEDED \<or> job_status job = JOB_FAILED"
proof -
  let ?m = "wk_max_attempts wk"
  have r: "system_ok ?m s" "metrics_ok g" "\<not> is_blank (wk_worker_id wk)"
    using reachable_ok [OF assms(1,2)] by simp_all
  note fin = run_many_ok [OF r assms(2,3,5)]
  then have zero: "pending_work ?m s' = 0"
    using assms(4) by auto
  have "job_status job \<noteq> JOB_QUEUED" if job: "job \<in> snd ` set (t_jobs s')" for job
  proof
    assume q: "job_status job = JOB_QUEUED"
    have "job_attempt_count job < ?m"
      using system_okD(2) [of ?m s', OF _ row_of_job [OF system_okD(1) job]] fin q by fastforce
    moreover have "job_work ?m job = 0"
      using zero job by (auto simp: pending_work_def)
    ultimately show False using q by (simp add: job_work_def)
  qed
  then show ?thesis
    using job_row_matches [of ?m s'] fin by blast
qed

theorem queue_drains_witness:
  "\<exists>g s' g'. reachable sample_worker (sample_system, g) \<and>
     run_many sample_worker (replicate 3 (sample_ports, sample_readings)) g sample_system = (s', g') \<and>
     list_all (\<lambda>job. job_status job = JOB_SUCCEEDED \<or> job_status job = JOB_FAILED) (map snd (t_jobs s'))"
proof -
  obtain g where g: "reachable sample_worker (sample_system, g)"
    using sample_reachable by blast
  obtain s' g' where run: "run_many sample_worker (replicate 3 (sample_ports, sample_readings)) g sample_system = (s', g')"
    by (metis surj_pair)
  have work: "pending_work (wk_max_attempts sample_worker) sample_system \<le> length (replicate 3 (sample_ports, sample_readings))"
    by (simp add: pending_work_def sample_system_def with_new_investigation_def audit_append_def empty_store_def
        job_work_def queued_job_def sample_worker_def)
  have env: "\<forall>(pt, rr) \<in> set (replicate 3 (sample_ports, sample_readings)).
      in_calendar (rr_claim_now rr + wk_lease sample_worker) \<and> all_due sample_system (rr_claim_now rr)"
    using sample_calendar
    by (simp add: all_due_def sample_system_def with_new_investigation_def audit_append_def empty_store_def queued_job_def
        sample_readings_def)
  have "list_all (\<lambda>job. job_status job = JOB_SUCCEEDED \<or> job_status job = JOB_FAILED) (map snd (t_jobs s'))"
    using queue_drains [OF g sample_worker_attempts env work run] by (simp add: list_all_iff)
  then show ?thesis
    using g run by blast
qed

end
