(* ===== verification/Http_Api.thy ===== *)
theory Http_Api
  imports Py_Numbers Metrics_Text Worker_Properties
begin

text \<open>
  \<^verbatim>\<open>api/auth.py\<close>, \<^verbatim>\<open>api/models.py\<close> and \<^verbatim>\<open>api/app.py\<close>: bearer tokens, the request model, the
  handlers of the control plane and its exception handlers. The web framework is outside the
  model: a request says what the framework made of the body (text it cannot read, which it rejects
  before the dependencies run, a value of another shape, which it rejects after them, or the typed
  fields), and an exception that no handler takes is the framework's answer 500.
\<close>

section \<open>Tokens\<close>

datatype api_exception = HttpException nat pystr | NotFoundRaised | NotReadyRaised | RequestInvalid | Unhandled

definition is_ascii :: "pystr \<Rightarrow> bool" where
  "is_ascii t \<longleftrightarrow> list_all (\<lambda>c. c < 128) t"

type_synonym token_registry = "(pystr \<times> tenant_id) list"

definition token_registry_from_mapping :: "(pystr \<times> pystr) list \<Rightarrow> domain_error + token_registry" where
  "token_registry_from_mapping mapping =
     rmap (\<lambda>(token, v). rbind (make_tenant_id (PyStr v)) (\<lambda>t. Inr (token, t))) mapping"

text \<open>\<^verbatim>\<open>hmac.compare_digest\<close> raises \<^verbatim>\<open>TypeError\<close> for text outside ASCII.\<close>

fun scan_tokens :: "token_registry \<Rightarrow> pystr \<Rightarrow> tenant_id option \<Rightarrow> api_exception + tenant_id option" where
  "scan_tokens [] token match = Inr match"
| "scan_tokens ((candidate, tenant) # rest) token match =
     (if \<not> (is_ascii candidate \<and> is_ascii token) then Inl Unhandled
      else scan_tokens rest token (if candidate = token then Some tenant else match))"

definition tenant_for :: "token_registry \<Rightarrow> pystr \<Rightarrow> api_exception + tenant_id option" where
  "tenant_for tokens token = scan_tokens tokens token None"

definition unauthorized :: api_exception where
  "unauthorized = HttpException 401 (lit ''unauthorized'')"

definition authenticate :: "token_registry \<Rightarrow> pystr option \<Rightarrow> api_exception + tenant_id" where
  "authenticate tokens authorization =
     (case authorization of
        None \<Rightarrow> Inl unauthorized
      | Some a \<Rightarrow>
          if take 7 a \<noteq> lit ''Bearer '' then Inl unauthorized
          else rbind (tenant_for tokens (py_strip (drop 7 a))) (\<lambda>t.
            case t of None \<Rightarrow> Inl unauthorized | Some tenant \<Rightarrow> Inr tenant))"

section \<open>Identifiers in paths\<close>

text \<open>\<^verbatim>\<open>text.replace(word, "")\<close>.\<close>

fun remove_word :: "pystr \<Rightarrow> pystr \<Rightarrow> pystr" where
  "remove_word w [] = []"
| "remove_word w (c # s) =
     (if take (length w) (c # s) = w then remove_word w (drop (length w - 1) s) else c # remove_word w s)"

definition strip_braces :: "pystr \<Rightarrow> pystr" where
  "strip_braces t = (let brace = (\<lambda>c. c = 123 \<or> c = 125) in rev (dropWhile brace (rev (dropWhile brace t))))"

definition hex_digit_char :: "nat \<Rightarrow> bool" where
  "hex_digit_char c \<longleftrightarrow> hex_value c \<noteq> None"

text \<open>\<^verbatim>\<open>int(text, 16)\<close> of text without a minus sign: white space, a sign, a prefix, single underscores.\<close>

fun hex_underscores_ok :: "nat \<Rightarrow> pystr \<Rightarrow> bool" where
  "hex_underscores_ok p [] \<longleftrightarrow> p \<noteq> 95"
| "hex_underscores_ok p (c # s) \<longleftrightarrow> (c = 95 \<longrightarrow> hex_digit_char p) \<and> hex_underscores_ok c s"

definition py_int_hex :: "pystr \<Rightarrow> nat option" where
  "py_int_hex s =
     (let t = num_strip s;
          t = (if take 1 t = [43] then drop 1 t else t);
          prefixed = (map ascii_lower (take 2 t) = lit ''0x'');
          t = (if prefixed then (if take 1 (drop 2 t) = [95] then drop 3 t else drop 2 t) else t);
          ds = filter (\<lambda>c. c \<noteq> 95) t
      in if ds = [] \<or> \<not> list_all hex_digit_char ds \<or> \<not> hex_underscores_ok 0 t then None
         else Some (foldl (\<lambda>a c. a * 16 + the (hex_value c)) 0 ds))"

definition parse_uuid :: "pystr \<Rightarrow> uuid option" where
  "parse_uuid raw =
     (let h = filter (\<lambda>c. c \<noteq> 45) (strip_braces (remove_word (lit ''uuid:'') (remove_word (lit ''urn:'') raw))) in
      if length h \<noteq> 32 then None
      else case py_int_hex h of None \<Rightarrow> None | Some n \<Rightarrow> Some (of_nat n))"

definition investigation_id_of :: "pystr \<Rightarrow> api_exception + investigation_id" where
  "investigation_id_of raw =
     (case parse_uuid raw of
        None \<Rightarrow> Inl (HttpException 404 (lit ''investigation_not_found''))
      | Some u \<Rightarrow> Inr (InvestigationId u))"

section \<open>Requests and responses\<close>

definition MAX_IDENTIFIER_LENGTH :: nat where
  "MAX_IDENTIFIER_LENGTH = 200"

record create_body =
  cb_incident_id :: pystr
  cb_run_id :: pystr
  cb_start :: pydatetime
  cb_injection :: pydatetime
  cb_end :: pydatetime

datatype body_outcome = BodyUnreadable | BodyMistyped | BodyTyped create_body

text \<open>The clock and the identifier factory as a creation reads them.\<close>

record creation_readings =
  cr_now :: int
  cr_investigation :: uuid
  cr_job :: uuid

datatype request =
    Health
  | MetricsPage
  | Create "pystr option" "pystr option" body_outcome creation_readings
  | Status "pystr option" pystr
  | Report "pystr option" pystr

datatype content =
    HealthContent
  | MetricsContent pystr
  | CreatedContent pystr
  | StatusContent pystr pystr
  | ReportContent pystr pystr pyjson "pyjson option"
  | CodeContent pystr

datatype response = Response nat content

record api =
  api_tokens :: token_registry
  api_max_attempts :: int
  api_recursion_limit :: nat

fun investigation_status_value :: "investigation_status \<Rightarrow> pystr" where
  "investigation_status_value INV_PENDING = lit ''pending''"
| "investigation_status_value INV_RUNNING = lit ''running''"
| "investigation_status_value INV_SUCCEEDED = lit ''succeeded''"
| "investigation_status_value INV_FAILED = lit ''failed''"
| "investigation_status_value INV_CANCELLED = lit ''cancelled''"

text \<open>The registered exception handlers; the last case is the framework's.\<close>

fun handle_exception :: "api_exception \<Rightarrow> response" where
  "handle_exception (HttpException status code) = Response status (CodeContent code)"
| "handle_exception NotFoundRaised = Response 404 (CodeContent (application_error_code InvestigationNotFoundError))"
| "handle_exception NotReadyRaised = Response 409 (CodeContent (application_error_code ReportNotReadyError))"
| "handle_exception RequestInvalid = Response 422 (CodeContent (lit ''invalid_request''))"
| "handle_exception Unhandled = Response 500 (CodeContent [])"

definition application_step :: "application_error + 'a \<Rightarrow> api_exception + 'a" where
  "application_step m =
     (case m of
        Inl InvestigationNotFoundError \<Rightarrow> Inl NotFoundRaised
      | Inl ReportNotReadyError \<Rightarrow> Inl NotReadyRaised
      | Inl TelemetryUnavailableError \<Rightarrow> Inl Unhandled
      | Inr a \<Rightarrow> Inr a)"

section \<open>Handlers\<close>

fun validation_error :: "domain_error \<Rightarrow> bool" where
  "validation_error BaselineComputationError = False"
| "validation_error _ = True"

definition command_of ::
  "tenant_id \<Rightarrow> pystr option \<Rightarrow> create_body \<Rightarrow> api_exception + create_investigation_command" where
  "command_of tenant idempotency_key body =
     (case rbind (make_incident_id (PyStr (cb_incident_id body))) (\<lambda>incident.
           rbind (make_run_id (PyStr (cb_run_id body))) (\<lambda>run.
           rbind (make_incident_window (cb_start body) (cb_injection body) (cb_end body)) (\<lambda>window.
           Inr \<lparr>cmd_tenant = tenant, cmd_incident = incident, cmd_run = run, cmd_window = window,
                cmd_idempotency_key = idempotency_key\<rparr>))) of
        Inl e \<Rightarrow> if validation_error e then Inl (HttpException 422 (error_code e)) else Inl Unhandled
      | Inr cmd \<Rightarrow> Inr cmd)"

definition idempotency_key_ok :: "pystr option \<Rightarrow> bool" where
  "idempotency_key_ok key = (case key of None \<Rightarrow> True | Some k \<Rightarrow> \<not> is_blank k \<and> length k \<le> MAX_IDENTIFIER_LENGTH)"

definition body_ok :: "create_body \<Rightarrow> bool" where
  "body_ok b \<longleftrightarrow> length (cb_incident_id b) \<le> MAX_IDENTIFIER_LENGTH \<and> length (cb_run_id b) \<le> MAX_IDENTIFIER_LENGTH"

text \<open>What a creation decides before it reaches the use case: the tenant's command.\<close>

definition create_request ::
  "token_registry \<Rightarrow> pystr option \<Rightarrow> pystr option \<Rightarrow> body_outcome \<Rightarrow> api_exception + create_investigation_command" where
  "create_request tokens authorization key body =
     (if body = BodyUnreadable then Inl RequestInvalid
      else rbind (authenticate tokens authorization) (\<lambda>tenant.
        case body of
          BodyTyped b \<Rightarrow>
            if \<not> body_ok b then Inl RequestInvalid
            else if \<not> idempotency_key_ok key then Inl (HttpException 422 (lit ''invalid_idempotency_key''))
            else command_of tenant key b
        | _ \<Rightarrow> Inl RequestInvalid))"

definition create_handler ::
  "api \<Rightarrow> pystr option \<Rightarrow> pystr option \<Rightarrow> body_outcome \<Rightarrow> creation_readings \<Rightarrow> tables
     \<Rightarrow> (api_exception + response) \<times> tables" where
  "create_handler a authorization key body cr s =
     (case create_request (api_tokens a) authorization key body of
        Inl e \<Rightarrow> (Inl e, s)
      | Inr cmd \<Rightarrow>
          (case create_investigation (api_max_attempts a) (cr_now cr) (cr_investigation cr) (cr_job cr) cmd s of
             (Inl _, s') \<Rightarrow> (Inl Unhandled, s')
           | (Inr i, s') \<Rightarrow> (Inr (Response 202 (CreatedContent (uuid_str (investigation_uuid i)))), s')))"

definition status_handler :: "api \<Rightarrow> pystr option \<Rightarrow> pystr \<Rightarrow> tables \<Rightarrow> api_exception + response" where
  "status_handler a authorization raw s =
     rbind (authenticate (api_tokens a) authorization) (\<lambda>tenant.
     rbind (investigation_id_of raw) (\<lambda>i.
     rbind (application_step (get_investigation_status tenant i s)) (\<lambda>r.
     Inr (Response 200 (StatusContent (uuid_str (investigation_uuid (inv_investigation_id r)))
       (investigation_status_value (inv_status r)))))))"

definition decode_json :: "nat \<Rightarrow> pystr \<Rightarrow> api_exception + pyjson" where
  "decode_json recursion_limit t = (case loads recursion_limit t of Inl _ \<Rightarrow> Inl Unhandled | Inr v \<Rightarrow> Inr v)"

definition decode_optional :: "nat \<Rightarrow> pystr option \<Rightarrow> api_exception + pyjson option" where
  "decode_optional recursion_limit t =
     (case t of None \<Rightarrow> Inr None | Some t \<Rightarrow> rbind (decode_json recursion_limit t) (\<lambda>v. Inr (Some v)))"

definition report_handler :: "api \<Rightarrow> pystr option \<Rightarrow> pystr \<Rightarrow> tables \<Rightarrow> api_exception + response" where
  "report_handler a authorization raw s =
     rbind (authenticate (api_tokens a) authorization) (\<lambda>tenant.
     rbind (investigation_id_of raw) (\<lambda>i.
     rbind (application_step (get_report tenant i s)) (\<lambda>r.
     rbind (decode_json (api_recursion_limit a) (rp_payload r)) (\<lambda>report.
     rbind (decode_optional (api_recursion_limit a) (rp_baseline_payload r)) (\<lambda>baseline.
     Inr (Response 200 (ReportContent (uuid_str (investigation_uuid (rp_investigation_id r)))
       (rp_schema_version r) report baseline)))))))"

definition metrics_handler :: "registry \<Rightarrow> api_exception + response" where
  "metrics_handler g = (case render g of Inl _ \<Rightarrow> Inl Unhandled | Inr t \<Rightarrow> Inr (Response 200 (MetricsContent t)))"

definition respond :: "api_exception + response \<Rightarrow> response" where
  "respond m = (case m of Inl e \<Rightarrow> handle_exception e | Inr r \<Rightarrow> r)"

fun handle :: "api \<Rightarrow> registry \<Rightarrow> request \<Rightarrow> tables \<Rightarrow> response \<times> tables" where
  "handle a g Health s = (Response 200 HealthContent, s)"
| "handle a g MetricsPage s = (respond (metrics_handler g), s)"
| "handle a g (Create authorization key body cr) s =
     (case create_handler a authorization key body cr s of (m, s') \<Rightarrow> (respond m, s'))"
| "handle a g (Status authorization raw) s = (respond (status_handler a authorization raw s), s)"
| "handle a g (Report authorization raw) s = (respond (report_handler a authorization raw s), s)"

section \<open>Authentication\<close>

lemma scan_tokens_ascii:
  "list_all (\<lambda>p. is_ascii (fst p)) tokens \<Longrightarrow> distinct (map fst tokens) \<Longrightarrow>
     scan_tokens tokens token match =
       (if tokens \<noteq> [] \<and> \<not> is_ascii token then Inl Unhandled
        else Inr (case map_of tokens token of None \<Rightarrow> match | Some t \<Rightarrow> Some t))"
proof (induction tokens arbitrary: match)
  case (Cons p tokens)
  have "map_of tokens (fst p) = None" using Cons.prems(2) by (simp add: map_of_eq_None_iff)
  with Cons show ?case by (cases p) auto
qed simp

lemma registry_authenticates_all:
  assumes "list_all (\<lambda>p. is_ascii (fst p)) tokens" "distinct (map fst tokens)"
  shows "(authenticate tokens authorization = Inr t \<longleftrightarrow>
      (\<exists>token. authorization = Some (lit ''Bearer '' @ token) \<and> (py_strip token, t) \<in> set tokens)) \<and>
    (authenticate tokens authorization = Inl Unhandled \<longleftrightarrow>
      (\<exists>token. authorization = Some (lit ''Bearer '' @ token) \<and> tokens \<noteq> [] \<and> \<not> is_ascii (py_strip token)))"
proof (cases "\<exists>token. authorization = Some (lit ''Bearer '' @ token)")
  case True
  then obtain token where a: "authorization = Some (lit ''Bearer '' @ token)" by blast
  have "map_of tokens (py_strip token) = Some t \<longleftrightarrow> (py_strip token, t) \<in> set tokens"
    using assms(2) by simp
  moreover have "is_ascii (py_strip token)" if "(py_strip token, t) \<in> set tokens"
    using assms(1) that by (auto simp: list_all_iff)
  ultimately show ?thesis
    using assms(1,2) by (auto simp: a authenticate_def tenant_for_def scan_tokens_ascii unauthorized_def lit_def
        split: option.splits dest: eq_key_imp_eq_value)
next
  case False
  have "a = lit ''Bearer '' @ drop 7 a" if "take 7 a = lit ''Bearer ''" for a
    using append_take_drop_id [of 7 a] that by simp
  with False show ?thesis
    by (auto simp: authenticate_def unauthorized_def split: option.splits)
qed

lemmas registry_authenticates = registry_authenticates_all [THEN conjunct1]

text \<open>
  C33. Authentication is exact: with different tokens in ASCII, a request acts for a tenant exactly
  when its header is the bearer prefix followed by that tenant's token, up to white space around
  it; a presented token outside ASCII, where any token is registered, is the one case that is not
  answered but ends in an unhandled exception.
\<close>

theorem authentication_is_exact:
  assumes "list_all (\<lambda>p. is_ascii (fst p)) tokens" "distinct (map fst tokens)"
  shows "(authenticate tokens authorization = Inr t \<longleftrightarrow>
      (\<exists>token. authorization = Some (lit ''Bearer '' @ token) \<and> (py_strip token, t) \<in> set tokens)) \<and>
    (authenticate tokens authorization = Inl Unhandled \<longleftrightarrow>
      (\<exists>token. authorization = Some (lit ''Bearer '' @ token) \<and> tokens \<noteq> [] \<and> \<not> is_ascii (py_strip token)))"
  by (rule registry_authenticates_all [OF assms])

definition sample_tokens :: token_registry where
  "sample_tokens = [(lit ''s3cret'', sample_tenant), (lit ''other'', TenantId (lit ''other''))]"

lemma sample_tokens_ok: "list_all (\<lambda>p. is_ascii (fst p)) sample_tokens" "distinct (map fst sample_tokens)"
  by (simp_all add: sample_tokens_def is_ascii_def) (simp_all add: lit_def)

theorem authentication_is_exact_witness:
  "authenticate sample_tokens (Some (lit ''Bearer s3cret '')) = Inr sample_tenant \<and>
   authenticate sample_tokens (Some (lit ''Bearer '' @ [233])) = Inl Unhandled"
proof -
  have "lit ''Bearer s3cret '' = lit ''Bearer '' @ lit ''s3cret ''" "py_strip (lit ''s3cret '') = lit ''s3cret''"
    by (simp_all add: lit_def py_strip_def py_isspace_def)
  moreover have "(lit ''s3cret'', sample_tenant) \<in> set sample_tokens" "sample_tokens \<noteq> []"
    by (simp_all add: sample_tokens_def)
  moreover have "\<not> is_ascii (py_strip [233])"
    by (simp add: py_strip_def py_isspace_def is_ascii_def)
  ultimately show ?thesis
    using authentication_is_exact [OF sample_tokens_ok] by metis
qed

section \<open>Lookups leak nothing\<close>

definition not_found_response :: response where
  "not_found_response = Response 404 (CodeContent (lit ''investigation_not_found''))"

text \<open>The investigation a path names, if it is one of the tenant's.\<close>

definition own_row :: "tenant_id \<Rightarrow> pystr \<Rightarrow> tables \<Rightarrow> investigation_record option" where
  "own_row t raw s =
     (case parse_uuid raw of
        None \<Rightarrow> None
      | Some u \<Rightarrow> (case map_of (t_investigations s) u of None \<Rightarrow> None | Some r \<Rightarrow> if inv_tenant r = t then Some r else None))"

lemma status_of_row:
  "get_investigation_status t (InvestigationId u) s =
     (case map_of (t_investigations s) u of
        None \<Rightarrow> Inl InvestigationNotFoundError
      | Some r \<Rightarrow> if inv_tenant r = t then Inr r else Inl InvestigationNotFoundError)"
  by (simp add: get_investigation_status_def investigations.lookup_spec split: option.split)

lemma report_missing:
  "get_investigation_status t i s = Inl e \<Longrightarrow> get_report t i s = Inl InvestigationNotFoundError"
  by (simp add: get_investigation_status_def get_report_def split: sum.splits)

text \<open>
  C14. Lookups leak nothing: to an authenticated tenant the status of an investigation of another
  tenant, of one that does not exist and of a malformed identifier are the same answer 404, and so
  are their reports; every other answer is about an investigation of the tenant itself.
\<close>

theorem lookups_leak_nothing:
  assumes "authenticate (api_tokens a) authorization = Inr t"
  shows "(if own_row t raw s = None
      then fst (handle a g (Status authorization raw) s) = not_found_response \<and>
        fst (handle a g (Report authorization raw) s) = not_found_response
      else \<exists>r. own_row t raw s = Some r \<and> inv_tenant r = t \<and> fst (handle a g (Status authorization raw) s) =
          Response 200 (StatusContent (uuid_str (investigation_uuid (inv_investigation_id r)))
            (investigation_status_value (inv_status r))))"
proof (cases "parse_uuid raw")
  case None
  then show ?thesis
    by (simp add: own_row_def status_handler_def report_handler_def assms investigation_id_of_def respond_def not_found_response_def)
next
  case (Some u)
  have report: "get_investigation_status t (InvestigationId u) s = Inl e \<Longrightarrow>
      get_report t (InvestigationId u) s = Inl InvestigationNotFoundError" for e
    by (rule report_missing)
  show ?thesis
    using report
    by (auto simp: Some own_row_def status_handler_def report_handler_def assms investigation_id_of_def respond_def
        not_found_response_def application_step_def status_of_row split: option.splits)
qed

section \<open>Tenants do not interfere\<close>

text \<open>Requests served one after the other.\<close>

primrec serve :: "api \<Rightarrow> registry \<Rightarrow> request list \<Rightarrow> tables \<Rightarrow> response list \<times> tables" where
  "serve a g [] s = ([], s)"
| "serve a g (r # rs) s =
     (case handle a g r s of (answer, s1) \<Rightarrow> (case serve a g rs s1 of (answers, s2) \<Rightarrow> (answer # answers, s2)))"

fun credentials :: "request \<Rightarrow> pystr option" where
  "credentials (Create authorization _ _ _) = authorization"
| "credentials (Status authorization _) = authorization"
| "credentials (Report authorization _) = authorization"
| "credentials _ = None"

text \<open>The identifier a creation would use is not in use.\<close>

fun fresh_request :: "request \<Rightarrow> tables \<Rightarrow> bool" where
  "fresh_request (Create _ _ _ cr) s \<longleftrightarrow> cr_investigation cr \<notin> fst ` set (t_investigations s)"
| "fresh_request _ s \<longleftrightarrow> True"

primrec fresh_requests :: "api \<Rightarrow> registry \<Rightarrow> request list \<Rightarrow> tables \<Rightarrow> bool" where
  "fresh_requests a g [] s \<longleftrightarrow> True"
| "fresh_requests a g (r # rs) s \<longleftrightarrow> fresh_request r s \<and> fresh_requests a g rs (snd (handle a g r s))"

lemma command_tenant:
  "create_request tokens authorization key body = Inr cmd \<Longrightarrow>
     authenticate tokens authorization = Inr (cmd_tenant cmd) \<and> cmd_idempotency_key cmd = key \<and> idempotency_key_ok key"
  by (cases body) (auto simp: create_request_def command_of_def rbind_eq_Inr split: if_splits sum.splits)

lemma queries_agree:
  assumes "investigations_get t i s' = investigations_get t i s \<and> reports_get t i s' = reports_get t i s"
  shows "get_investigation_status t i s' = get_investigation_status t i s \<and> get_report t i s' = get_report t i s"
proof -
  from assms have "investigations_get t i s' = investigations_get t i s" "reports_get t i s' = reports_get t i s"
    by blast+
  then show ?thesis unfolding get_investigation_status_def get_report_def by presburger
qed

lemma handle_store:
  assumes "store_ok s" "fresh_request r s"
  shows "store_ok (snd (handle a g r s)) \<and>
    (authenticate (api_tokens a) (credentials r) \<noteq> Inr t \<longrightarrow>
      get_investigation_status t i (snd (handle a g r s)) = get_investigation_status t i s \<and>
      get_report t i (snd (handle a g r s)) = get_report t i s)"
proof (cases r)
  case (Create authorization key body cr)
  show ?thesis
  proof (cases "create_request (api_tokens a) authorization key body")
    case (Inl e)
    then show ?thesis using assms by (simp add: Create create_handler_def)
  next
    case (Inr cmd)
    let ?run = "create_investigation (api_max_attempts a) (cr_now cr) (cr_investigation cr) (cr_job cr) cmd s"
    have store: "snd (handle a g r s) = snd ?run"
      by (simp add: Create create_handler_def Inr split: prod.split sum.split)
    show ?thesis
    proof (cases "fst ?run")
      case (Inl e)
      then have "snd ?run = s" by (auto simp: create_investigation_def split: sum.splits)
      with assms(1) show ?thesis unfolding store by simp
    next
      case (Inr j)
      then have run: "?run = (Inr j, snd ?run)" by (metis prod.collapse)
      have u: "cr_investigation cr \<notin> fst ` set (t_investigations s)"
        using assms(2) by (simp add: Create)
      from create_cases [OF assms(1) u run]
      consider "snd ?run = s" | "1 \<le> api_max_attempts a" "\<forall>k. cmd_idempotency_key cmd = Some k \<longrightarrow> \<not> is_blank k"
        "cr_job cr \<notin> fst ` set (t_jobs s)"
        "snd ?run = with_new_investigation (api_max_attempts a) (cr_now cr) (cr_investigation cr) (cr_job cr) cmd s"
        by blast
      then show ?thesis
      proof cases
        case 1
        with assms(1) show ?thesis unfolding store by simp
      next
        case 2
        have ok: "store_ok (snd ?run)"
          unfolding 2(4) by (rule with_new_ok [OF assms(1) 2(1,2) u 2(3)])
        have rows: "map_of (t_investigations (snd ?run)) k = (if k = cr_investigation cr
            then Some (pending_investigation (cr_now cr) (cr_investigation cr) cmd) else map_of (t_investigations s) k)"
          "t_reports (snd ?run) = t_reports s" "map_of (t_investigations s) (cr_investigation cr) = None" for k
        proof -
          show absent: "map_of (t_investigations s) (cr_investigation cr) = None"
            using u by (simp add: map_of_eq_None_iff)
          show "t_reports (snd ?run) = t_reports s"
            by (simp add: 2(4) with_new_investigation_def audit_append_def)
          show "map_of (t_investigations (snd ?run)) k = (if k = cr_investigation cr
              then Some (pending_investigation (cr_now cr) (cr_investigation cr) cmd) else map_of (t_investigations s) k)"
            using absent by (cases "map_of (t_investigations s) k")
              (auto simp: 2(4) with_new_investigation_def audit_append_def map_add_def)
        qed
        have "investigations_get t i (snd ?run) = investigations_get t i s" "reports_get t i (snd ?run) = reports_get t i s"
          if "cmd_tenant cmd \<noteq> t"
          using that by (simp_all add: investigations.lookup_spec reports.lookup_spec rows pending_investigation_def)
        moreover have "cmd_tenant cmd \<noteq> t" if "authenticate (api_tokens a) authorization \<noteq> Inr t"
          using command_tenant [OF \<open>create_request (api_tokens a) authorization key body = Inr cmd\<close>] that by auto
        ultimately have reads: "investigations_get t i (snd ?run) = investigations_get t i s \<and>
            reports_get t i (snd ?run) = reports_get t i s" if "authenticate (api_tokens a) authorization \<noteq> Inr t"
          using that by blast
        have "authenticate (api_tokens a) authorization \<noteq> Inr t \<longrightarrow>
            get_investigation_status t i (snd ?run) = get_investigation_status t i s \<and>
            get_report t i (snd ?run) = get_report t i s"
          using reads queries_agree by blast
        with ok show ?thesis unfolding store unfolding Create credentials.simps by blast
      qed
    qed
  qed
qed (use assms in simp_all)

lemma serve_Cons: "snd (serve a g (r # rs) s) = snd (serve a g rs (snd (handle a g r s)))"
  by (simp split: prod.split)

lemma serve_store:
  assumes "store_ok s" "fresh_requests a g rs s"
    and "list_all (\<lambda>r. authenticate (api_tokens a) (credentials r) \<noteq> Inr t) rs"
  shows "store_ok (snd (serve a g rs s)) \<and>
    get_investigation_status t i (snd (serve a g rs s)) = get_investigation_status t i s \<and>
    get_report t i (snd (serve a g rs s)) = get_report t i s"
  using assms
proof (induction rs arbitrary: s)
  case (Cons r rs)
  let ?s = "snd (handle a g r s)"
  have "store_ok ?s" "get_investigation_status t i ?s = get_investigation_status t i s" "get_report t i ?s = get_report t i s"
    using handle_store [of s r a g t i] Cons.prems by simp_all
  then show ?case
    using Cons.IH [of ?s] Cons.prems(2,3) unfolding serve_Cons by simp
qed simp

text \<open>
  C13. Tenants do not interfere: however many requests are served that do not carry a token of a
  tenant, whatever they ask and create, that tenant then gets the answers to its status and report
  requests it would have got before them.
\<close>

theorem tenants_do_not_interfere:
  assumes "store_ok s" "fresh_requests a g rs s" "authenticate (api_tokens a) authorization = Inr t"
    and "list_all (\<lambda>r. authenticate (api_tokens a) (credentials r) \<noteq> Inr t) rs"
  shows "fst (handle a g (Status authorization raw) (snd (serve a g rs s))) = fst (handle a g (Status authorization raw) s) \<and>
    fst (handle a g (Report authorization raw) (snd (serve a g rs s))) = fst (handle a g (Report authorization raw) s)"
  using serve_store [OF assms(1,2,4)] assms(3)
  by (auto simp: status_handler_def report_handler_def rbind_def split: sum.splits)

section \<open>Replayed creations\<close>

lemma create_request_rejects: "create_request tokens authorization key body = Inl e \<Longrightarrow> handle_exception e \<noteq> Response 202 c"
proof -
  assume e: "create_request tokens authorization key body = Inl e"
  have "scan_tokens ts token match = Inl x \<Longrightarrow> x = Unhandled" for ts token match x
    by (induction ts token match rule: scan_tokens.induct) (auto split: if_splits)
  then have "authenticate tokens authorization = Inl x \<Longrightarrow> x \<in> {unauthorized, Unhandled}" for x
    by (auto simp: authenticate_def tenant_for_def rbind_eq_Inl split: option.splits if_splits)
  moreover have "command_of t key b = Inl x \<Longrightarrow> x = Unhandled \<or> (\<exists>code. x = HttpException 422 code)" for t b x
    by (auto simp: command_of_def split: sum.splits if_splits)
  ultimately show ?thesis
    using e by (cases body) (fastforce simp: create_request_def rbind_eq_Inl unauthorized_def split: if_splits)+
qed

text \<open>
  C11. Posting again is harmless: after an accepted creation under an idempotency key, another
  accepted request of the same caller with that key, whatever its body, is answered with the same
  investigation and changes nothing.
\<close>

theorem repeated_post_is_harmless:
  assumes "store_ok s" "fresh_request (Create authorization (Some k) body cr) s"
    and "handle a g (Create authorization (Some k) body cr) s = (Response 202 c, s')"
    and "create_request (api_tokens a) authorization (Some k) body' = Inr again"
    and "fresh_request (Create authorization (Some k) body' cr') s'"
  shows "handle a g (Create authorization (Some k) body' cr') s' = (Response 202 c, s')"
proof -
  obtain cmd i where cmd: "create_request (api_tokens a) authorization (Some k) body = Inr cmd"
    and run: "create_investigation (api_max_attempts a) (cr_now cr) (cr_investigation cr) (cr_job cr) cmd s = (Inr i, s')"
    and c: "c = CreatedContent (uuid_str (investigation_uuid i))"
    using assms(3) create_request_rejects
    by (auto simp: create_handler_def respond_def split: sum.splits prod.splits)
  note tenants = command_tenant [OF cmd] command_tenant [OF assms(4)]
  have u: "cr_investigation cr \<notin> fst ` set (t_investigations s)" "cr_investigation cr' \<notin> fst ` set (t_investigations s')"
    using assms(2,5) by simp_all
  have same: "cmd_tenant again = cmd_tenant cmd" "cmd_idempotency_key again = Some k" "cmd_idempotency_key cmd = Some k"
    using tenants by auto
  have "create_investigation (api_max_attempts a) (cr_now cr') (cr_investigation cr') (cr_job cr') again s' = (Inr i, s')"
    by (rule replayed_creation [OF assms(1) u(1) run same(3,1,2) u(2)])
  then show ?thesis
    by (simp add: create_handler_def assms(4) respond_def c)
qed

definition sample_api :: api where
  "sample_api = \<lparr>api_tokens = sample_tokens, api_max_attempts = 3, api_recursion_limit = 100\<rparr>"

definition sample_body :: body_outcome where
  "sample_body = BodyTyped \<lparr>cb_incident_id = lit ''inc-1'', cb_run_id = lit ''run-1'', cb_start = utc 0,
     cb_injection = utc 100, cb_end = utc 200\<rparr>"

definition posted_readings :: "nat \<Rightarrow> creation_readings" where
  "posted_readings n = \<lparr>cr_now = 0, cr_investigation = of_nat n, cr_job = of_nat (Suc n)\<rparr>"

lemma sample_authenticates:
  "authenticate sample_tokens (Some (lit ''Bearer s3cret'')) = Inr sample_tenant"
  "authenticate sample_tokens (Some (lit ''Bearer other'')) = Inr (TenantId (lit ''other''))"
  by (simp_all add: authenticate_def tenant_for_def sample_tokens_def is_ascii_def lit_def py_strip_def py_isspace_def)

lemma sample_request:
  "create_request sample_tokens (Some (lit ''Bearer s3cret'')) (Some (lit ''k1'')) sample_body = Inr sample_command"
proof -
  have "make_incident_id (PyStr (lit ''inc-1'')) = Inr sample_incident" "make_run_id (PyStr (lit ''run-1'')) = Inr sample_run"
    by (simp_all add: make_incident_id_def make_run_id_def validate_text_identifier_def sample_incident_def sample_run_def
        is_blank_iff)
      (simp_all add: lit_def py_isspace_def)
  moreover have "make_incident_window (utc 0) (utc 100) (utc 200) = Inr sample_window"
    by (simp add: make_incident_window_def utc_def sample_window_def in_calendar_def min_instant_def max_instant_def)
  moreover have "idempotency_key_ok (Some (lit ''k1''))"
    by (simp add: idempotency_key_ok_def MAX_IDENTIFIER_LENGTH_def is_blank_iff) (simp add: lit_def py_isspace_def)
  ultimately show ?thesis
    by (simp add: create_request_def sample_authenticates sample_body_def body_ok_def MAX_IDENTIFIER_LENGTH_def
        command_of_def sample_command_def)
qed

lemma sample_post:
  "handle sample_api g (Create (Some (lit ''Bearer s3cret'')) (Some (lit ''k1'')) sample_body (posted_readings 1)) empty_store =
     (Response 202 (CreatedContent (uuid_str 1)), with_new_investigation 3 0 1 2 sample_command empty_store)"
  using sample_creation by (simp add: create_handler_def sample_api_def sample_request posted_readings_def respond_def)

theorem repeated_post_is_harmless_witness:
  "\<exists>s'. handle sample_api empty_registry (Create (Some (lit ''Bearer s3cret'')) (Some (lit ''k1'')) sample_body (posted_readings 1))
      empty_store = (Response 202 (CreatedContent (uuid_str 1)), s') \<and> length (t_jobs s') = 1 \<and>
    handle sample_api empty_registry (Create (Some (lit ''Bearer s3cret'')) (Some (lit ''k1'')) sample_body (posted_readings 7)) s' =
      (Response 202 (CreatedContent (uuid_str 1)), s')"
proof -
  have fresh: "fresh_request (Create (Some (lit ''Bearer s3cret'')) (Some (lit ''k1'')) sample_body (posted_readings 1)) empty_store"
    "fresh_request (Create (Some (lit ''Bearer s3cret'')) (Some (lit ''k1'')) sample_body (posted_readings 7))
      (with_new_investigation 3 0 1 2 sample_command empty_store)"
    by (simp_all add: empty_store_def with_new_investigation_def audit_append_def posted_readings_def)
  have "length (t_jobs (with_new_investigation 3 0 1 2 sample_command empty_store)) = 1"
    by (simp add: empty_store_def with_new_investigation_def audit_append_def)
  with repeated_post_is_harmless [OF empty_store_ok fresh(1) sample_post _ fresh(2)] sample_post show ?thesis
    by (auto simp: sample_api_def sample_request)
qed

theorem tenants_do_not_interfere_witness:
  "\<exists>s. s = snd (serve sample_api empty_registry
       [Create (Some (lit ''Bearer s3cret'')) (Some (lit ''k1'')) sample_body (posted_readings 1)] empty_store) \<and>
     length (t_investigations s) = 1 \<and>
     fst (handle sample_api empty_registry (Status (Some (lit ''Bearer other'')) (uuid_str 1)) s) =
       fst (handle sample_api empty_registry (Status (Some (lit ''Bearer other'')) (uuid_str 1)) empty_store)"
proof -
  let ?rs = "[Create (Some (lit ''Bearer s3cret'')) (Some (lit ''k1'')) sample_body (posted_readings 1)]"
  have fresh: "fresh_requests sample_api empty_registry ?rs empty_store"
    by (simp add: empty_store_def posted_readings_def)
  have caller: "authenticate (api_tokens sample_api) (Some (lit ''Bearer other'')) = Inr (TenantId (lit ''other''))"
    by (simp add: sample_api_def sample_authenticates)
  have others: "list_all (\<lambda>r. authenticate (api_tokens sample_api) (credentials r) \<noteq> Inr (TenantId (lit ''other''))) ?rs"
    by (simp add: sample_api_def sample_authenticates sample_tenant_def)
  have "length (t_investigations (snd (serve sample_api empty_registry ?rs empty_store))) = 1"
    unfolding serve_Cons sample_post by (simp add: empty_store_def with_new_investigation_def audit_append_def)
  then show ?thesis
    using tenants_do_not_interfere [OF empty_store_ok fresh caller others, of "uuid_str 1"] by blast
qed

theorem lookups_leak_nothing_witness:
  "\<exists>s. s = with_new_investigation 3 0 1 2 sample_command empty_store \<and> length (t_investigations s) = 1 \<and>
     fst (handle sample_api empty_registry (Status (Some (lit ''Bearer other'')) (uuid_str 1)) s) = not_found_response"
proof -
  let ?s = "with_new_investigation 3 0 1 2 sample_command empty_store"
  have "authenticate (api_tokens sample_api) (Some (lit ''Bearer other'')) = Inr (TenantId (lit ''other''))"
    by (simp add: sample_api_def sample_authenticates)
  note leak = lookups_leak_nothing [OF this, of raw "with_new_investigation 3 0 1 2 sample_command empty_store" empty_registry for raw]
  have rows: "t_investigations ?s = [(1, pending_investigation 0 1 sample_command)]"
    by (simp add: empty_store_def with_new_investigation_def audit_append_def)
  have owner: "inv_tenant (pending_investigation 0 1 sample_command) \<noteq> TenantId (lit ''other'')"
    by (simp add: pending_investigation_def sample_command_def sample_tenant_def)
  have "own_row (TenantId (lit ''other'')) (uuid_str 1) ?s = None"
    using owner by (auto simp: own_row_def rows split: option.split)
  with leak [of "uuid_str 1"] rows show ?thesis by auto
qed

end
