(* ===== verification/Runtime_Config.thy ===== *)
theory Runtime_Config
  imports Case_Discovery Float_Repr Http_Api
begin

text \<open>
  \<^verbatim>\<open>runtime/config.py\<close>: the configuration of a process as a function of its environment. An error is
  its message. The words of a boolean are compared after \<^verbatim>\<open>lower()\<close>; as no other character has a
  lower case form inside one of them, the letters of ASCII are enough.
\<close>

type_synonym environment = "pystr \<Rightarrow> pystr option"

datatype config_error = ConfigError pystr

definition PERSISTENCE_CHOICES :: "pystr list" where
  "PERSISTENCE_CHOICES = [lit ''memory'', lit ''postgres'']"

definition LLM_CHOICES :: "pystr list" where
  "LLM_CHOICES = [lit ''fake'', lit ''developer'', lit ''vertex'']"

definition TELEMETRY_CHOICES :: "pystr list" where
  "TELEMETRY_CHOICES = [lit ''none'', lit ''rcaeval'', lit ''prometheus'']"

definition DEFAULT_MODEL :: pystr where
  "DEFAULT_MODEL = lit ''gemini-2.5-flash''"

definition DEFAULT_LOCATION :: pystr where
  "DEFAULT_LOCATION = lit ''us-central1''"

definition QUERY_SEPARATOR :: nat where
  "QUERY_SEPARATOR = 59"

section \<open>Parsing one variable\<close>

definition config_failed :: "pystr \<Rightarrow> string \<Rightarrow> config_error + 'a" where
  "config_failed key what = Inl (ConfigError (key @ lit what))"

definition env_get :: "environment \<Rightarrow> string \<Rightarrow> pystr \<Rightarrow> pystr" where
  "env_get env key dflt = (case env (lit key) of None \<Rightarrow> dflt | Some v \<Rightarrow> v)"

definition env_choice :: "environment \<Rightarrow> string \<Rightarrow> pystr list \<Rightarrow> pystr \<Rightarrow> config_error + pystr" where
  "env_choice env key choices dflt =
     (let v = py_strip (env_get env key dflt) in
      if v \<in> set choices then Inr v
      else Inl (ConfigError (lit key @ lit '' must be one of '' @ join_with (lit '', '') choices)))"

definition env_require :: "environment \<Rightarrow> string \<Rightarrow> config_error + pystr" where
  "env_require env key =
     (let v = py_strip (env_get env key []) in if v = [] then config_failed (lit key) '' is required'' else Inr v)"

text \<open>\<^verbatim>\<open>pair.partition("=")\<close>.\<close>

definition partition_equals :: "pystr \<Rightarrow> pystr \<times> bool \<times> pystr" where
  "partition_equals pair = (takeWhile (\<lambda>c. c \<noteq> 61) pair, 61 \<in> set pair, drop 1 (dropWhile (\<lambda>c. c \<noteq> 61) pair))"

fun token_pairs :: "pystr list \<Rightarrow> (pystr \<times> pystr) list \<Rightarrow> config_error + (pystr \<times> pystr) list" where
  "token_pairs [] tokens = Inr tokens"
| "token_pairs (pair # pairs) tokens =
     (case partition_equals pair of (token, separator, tenant) \<Rightarrow>
        let token = py_strip token; tenant = py_strip tenant in
        if \<not> separator \<or> token = [] \<or> tenant = []
        then config_failed (lit ''IEC_TOKENS'') '' must be comma-separated token=tenant pairs''
        else token_pairs pairs (AList.update token tenant tokens))"

definition parse_tokens :: "pystr \<Rightarrow> config_error + (pystr \<times> pystr) list" where
  "parse_tokens raw =
     rbind (token_pairs (py_split 44 raw) []) (\<lambda>tokens.
       if tokens = [] then config_failed (lit ''IEC_TOKENS'') '' is required'' else Inr tokens)"

definition parse_port :: "environment \<Rightarrow> config_error + int" where
  "parse_port env =
     (case py_int_str (py_strip (env_get env ''IEC_BIND_PORT'' (lit ''8000''))) of
        None \<Rightarrow> config_failed (lit ''IEC_BIND_PORT'') '' must be an integer''
      | Some port \<Rightarrow>
          if \<not> (1 \<le> port \<and> port \<le> 65535) then config_failed (lit ''IEC_BIND_PORT'') '' must be in 1..65535''
          else Inr port)"

definition parse_bool :: "environment \<Rightarrow> string \<Rightarrow> bool \<Rightarrow> config_error + bool" where
  "parse_bool env key dflt =
     (case env (lit key) of
        None \<Rightarrow> Inr dflt
      | Some raw \<Rightarrow>
          let normalized = map ascii_lower (py_strip raw) in
          if normalized \<in> {lit ''1'', lit ''true'', lit ''yes'', lit ''on''} then Inr True
          else if normalized \<in> {lit ''0'', lit ''false'', lit ''no'', lit ''off''} then Inr False
          else config_failed (lit key) '' must be a boolean (1/0, true/false)'')"

definition parse_positive_float :: "environment \<Rightarrow> string \<Rightarrow> f64 \<Rightarrow> config_error + f64" where
  "parse_positive_float env key dflt =
     (case py_float_str (py_strip (env_get env key (float_repr dflt))) of
        None \<Rightarrow> config_failed (lit key) '' must be a number''
      | Some v \<Rightarrow>
          if \<not> flt (fzero False) v then config_failed (lit key) '' must be strictly positive'' else Inr v)"

definition parse_optional_nonnegative_float :: "environment \<Rightarrow> string \<Rightarrow> config_error + f64 option" where
  "parse_optional_nonnegative_float env key =
     (case env (lit key) of
        None \<Rightarrow> Inr None
      | Some raw \<Rightarrow>
          (case py_float_str (py_strip raw) of
             None \<Rightarrow> config_failed (lit key) '' must be a number''
           | Some v \<Rightarrow>
               if \<not> isfinite v \<or> flt v (fzero False) then config_failed (lit key) '' must be a finite number >= 0.0''
               else Inr (Some v)))"

definition parse_positive_int :: "environment \<Rightarrow> string \<Rightarrow> int \<Rightarrow> config_error + int" where
  "parse_positive_int env key dflt =
     (case py_int_str (py_strip (env_get env key (dec_int dflt))) of
        None \<Rightarrow> config_failed (lit key) '' must be an integer''
      | Some v \<Rightarrow> if v < 1 then config_failed (lit key) '' must be strictly positive'' else Inr v)"

definition parse_queries :: "pystr \<Rightarrow> config_error + pystr list" where
  "parse_queries raw =
     (let queries = map py_strip (filter (\<lambda>part. py_strip part \<noteq> []) (py_split QUERY_SEPARATOR raw)) in
      if queries = [] then config_failed (lit ''IEC_PROM_QUERIES'') '' must contain at least one PromQL selector''
      else Inr queries)"

section \<open>The whole configuration\<close>

record app_config =
  ac_tokens :: "(pystr \<times> pystr) list"
  ac_persistence :: pystr
  ac_database_url :: "pystr option"
  ac_llm_provider :: pystr
  ac_gemini_api_key :: "pystr option"
  ac_gemini_project :: "pystr option"
  ac_gemini_location :: pystr
  ac_gemini_model :: pystr
  ac_telemetry :: pystr
  ac_re2_root :: "pystr option"
  ac_re2_split :: pystr
  ac_prom_url :: "pystr option"
  ac_prom_queries :: "pystr list"
  ac_prom_step_seconds :: int
  ac_prom_timeout_seconds :: f64
  ac_prom_bearer_token :: "pystr option"
  ac_bind_host :: pystr
  ac_bind_port :: int
  ac_worker_enabled :: bool
  ac_worker_idle_sleep_seconds :: f64
  ac_baseline_minimum_score :: "f64 option"

text \<open>A variable that is read only where another one asks for it.\<close>

definition required_if :: "bool \<Rightarrow> environment \<Rightarrow> string \<Rightarrow> config_error + pystr option" where
  "required_if b env key = (if b then rbind (env_require env key) (\<lambda>v. Inr (Some v)) else Inr None)"

definition or_else :: "pystr \<Rightarrow> pystr \<Rightarrow> pystr" where
  "or_else v dflt = (if v = [] then dflt else v)"

definition float_thirty :: f64 where
  "float_thirty = F64 False 1027 3940649673949184"

definition from_env :: "environment \<Rightarrow> config_error + app_config" where
  "from_env env =
     rbind (rbind (env_require env ''IEC_TOKENS'') parse_tokens) (\<lambda>tokens.
     rbind (env_choice env ''IEC_PERSISTENCE'' PERSISTENCE_CHOICES (lit ''memory'')) (\<lambda>persistence.
     rbind (required_if (persistence = lit ''postgres'') env ''IEC_DATABASE_URL'') (\<lambda>database_url.
     rbind (env_choice env ''IEC_LLM_PROVIDER'' LLM_CHOICES (lit ''fake'')) (\<lambda>provider.
     rbind (required_if (provider = lit ''developer'') env ''GEMINI_API_KEY'') (\<lambda>gemini_api_key.
     rbind (required_if (provider = lit ''vertex'') env ''IEC_GEMINI_PROJECT'') (\<lambda>gemini_project.
     rbind (env_choice env ''IEC_TELEMETRY'' TELEMETRY_CHOICES (lit ''none'')) (\<lambda>telemetry.
     rbind (required_if (telemetry = lit ''rcaeval'') env ''IEC_RE2_ROOT'') (\<lambda>re2_root.
     rbind (required_if (telemetry = lit ''prometheus'') env ''IEC_PROM_URL'') (\<lambda>prom_url.
     rbind (if telemetry = lit ''prometheus'' then rbind (env_require env ''IEC_PROM_QUERIES'') parse_queries
            else Inr []) (\<lambda>prom_queries.
     rbind (parse_positive_int env ''IEC_PROM_STEP_SECONDS'' 30) (\<lambda>prom_step_seconds.
     rbind (parse_positive_float env ''IEC_PROM_TIMEOUT_SECONDS'' float_thirty) (\<lambda>prom_timeout_seconds.
     rbind (parse_port env) (\<lambda>bind_port.
     rbind (parse_bool env ''IEC_WORKER_ENABLED'' True) (\<lambda>worker_enabled.
     rbind (parse_positive_float env ''IEC_WORKER_IDLE_SLEEP_SECONDS'' float_one) (\<lambda>worker_idle_sleep_seconds.
     rbind (parse_optional_nonnegative_float env ''IEC_BASELINE_MIN_SCORE'') (\<lambda>baseline_minimum_score.
     Inr \<lparr>ac_tokens = tokens, ac_persistence = persistence, ac_database_url = database_url,
          ac_llm_provider = provider, ac_gemini_api_key = gemini_api_key, ac_gemini_project = gemini_project,
          ac_gemini_location = or_else (py_strip (env_get env ''IEC_GEMINI_LOCATION'' DEFAULT_LOCATION)) DEFAULT_LOCATION,
          ac_gemini_model = or_else (py_strip (env_get env ''IEC_GEMINI_MODEL'' DEFAULT_MODEL)) DEFAULT_MODEL,
          ac_telemetry = telemetry, ac_re2_root = re2_root,
          ac_re2_split = or_else (py_strip (env_get env ''IEC_RE2_SPLIT'' (lit ''OB''))) (lit ''OB''),
          ac_prom_url = prom_url, ac_prom_queries = prom_queries, ac_prom_step_seconds = prom_step_seconds,
          ac_prom_timeout_seconds = prom_timeout_seconds,
          ac_prom_bearer_token =
            (if telemetry = lit ''prometheus''
             then let t = py_strip (env_get env ''IEC_PROM_BEARER_TOKEN'' []) in if t = [] then None else Some t
             else None),
          ac_bind_host = or_else (py_strip (env_get env ''IEC_BIND_HOST'' (lit ''127.0.0.1''))) (lit ''127.0.0.1''),
          ac_bind_port = bind_port, ac_worker_enabled = worker_enabled,
          ac_worker_idle_sleep_seconds = worker_idle_sleep_seconds,
          ac_baseline_minimum_score = baseline_minimum_score\<rparr>))))))))))))))))"

section \<open>Configurations are valid\<close>

definition trimmed :: "pystr \<Rightarrow> bool" where
  "trimmed v \<longleftrightarrow> v \<noteq> [] \<and> py_strip v = v"

text \<open>A value is there exactly when it is asked for.\<close>

definition given :: "bool \<Rightarrow> pystr option \<Rightarrow> bool" where
  "given b v \<longleftrightarrow> (case v of None \<Rightarrow> \<not> b | Some t \<Rightarrow> b \<and> trimmed t)"

definition valid_config :: "app_config \<Rightarrow> bool" where
  "valid_config c \<longleftrightarrow>
     ac_tokens c \<noteq> [] \<and> distinct (map fst (ac_tokens c)) \<and>
     list_all (\<lambda>p. trimmed (fst p) \<and> trimmed (snd p)) (ac_tokens c) \<and>
     ac_persistence c \<in> set PERSISTENCE_CHOICES \<and> given (ac_persistence c = lit ''postgres'') (ac_database_url c) \<and>
     ac_llm_provider c \<in> set LLM_CHOICES \<and> given (ac_llm_provider c = lit ''developer'') (ac_gemini_api_key c) \<and>
     given (ac_llm_provider c = lit ''vertex'') (ac_gemini_project c) \<and>
     trimmed (ac_gemini_location c) \<and> trimmed (ac_gemini_model c) \<and>
     ac_telemetry c \<in> set TELEMETRY_CHOICES \<and> given (ac_telemetry c = lit ''rcaeval'') (ac_re2_root c) \<and>
     trimmed (ac_re2_split c) \<and> given (ac_telemetry c = lit ''prometheus'') (ac_prom_url c) \<and>
     (ac_prom_queries c \<noteq> [] \<longleftrightarrow> ac_telemetry c = lit ''prometheus'') \<and> list_all trimmed (ac_prom_queries c) \<and>
     1 \<le> ac_prom_step_seconds c \<and> flt (fzero False) (ac_prom_timeout_seconds c) \<and>
     (case ac_prom_bearer_token c of None \<Rightarrow> True | Some t \<Rightarrow> trimmed t) \<and> trimmed (ac_bind_host c) \<and>
     1 \<le> ac_bind_port c \<and> ac_bind_port c \<le> 65535 \<and> flt (fzero False) (ac_worker_idle_sleep_seconds c) \<and>
     (case ac_baseline_minimum_score c of None \<Rightarrow> True | Some x \<Rightarrow> isfinite x \<and> fle (fzero False) x)"

lemma dropWhile_no_hd: "t \<noteq> [] \<Longrightarrow> \<not> P (hd t) \<Longrightarrow> dropWhile P t = t"
  by (cases t) auto

lemma py_strip_idem: "py_strip (py_strip s) = py_strip s"
proof -
  define t where "t = dropWhile py_isspace s"
  define u where "u = rev (dropWhile py_isspace (rev t))"
  have "rev u = dropWhile py_isspace (rev t)" by (simp add: u_def)
  then have "dropWhile py_isspace (rev u) = rev u" by simp
  moreover have "dropWhile py_isspace u = u" if "u \<noteq> []"
  proof (rule dropWhile_no_hd [OF that])
    have "u @ rev (takeWhile py_isspace (rev t)) = t"
      by (metis u_def rev_append rev_rev_ident takeWhile_dropWhile_id)
    with that have "t \<noteq> []" "hd u = hd t" by (auto, metis hd_append2)
    then show "\<not> py_isspace (hd u)"
      using hd_dropWhile [of py_isspace s] by (simp add: t_def)
  qed
  ultimately have "py_strip u = u" by (cases "u = []") (simp_all add: py_strip_def)
  then show ?thesis by (simp add: py_strip_def u_def t_def)
qed

lemma trimmed_strip [simp]: "trimmed (py_strip s) \<longleftrightarrow> py_strip s \<noteq> []"
  by (simp add: trimmed_def py_strip_idem)

lemma trimmed_not_blank: "trimmed s \<Longrightarrow> \<not> is_blank s"
  by (auto simp: trimmed_def is_blank_def)

lemma token_pairs_valid:
  assumes "token_pairs pairs tokens = Inr tokens'" "distinct (map fst tokens)"
    and "list_all (\<lambda>p. trimmed (fst p) \<and> trimmed (snd p)) tokens"
  shows "distinct (map fst tokens') \<and> list_all (\<lambda>p. trimmed (fst p) \<and> trimmed (snd p)) tokens'"
  using assms
proof (induction pairs tokens rule: token_pairs.induct)
  case (2 pair pairs tokens)
  have "list_all (\<lambda>p. trimmed (fst p) \<and> trimmed (snd p)) (AList.update k v tokens)"
    if "trimmed k" "trimmed v" for k v
    using 2(4) that by (induction tokens) auto
  then show ?case
    using 2 by (auto simp: Let_def config_failed_def distinct_update split: prod.splits if_splits)
qed simp

lemma env_parsers:
  "env_choice env key choices d = Inr v \<Longrightarrow> v \<in> set choices"
  "required_if b env key = Inr r \<Longrightarrow> given b r"
  "parse_positive_int env key i = Inr n \<Longrightarrow> 1 \<le> n"
  "parse_positive_float env key x = Inr y \<Longrightarrow> flt (fzero False) y"
  "parse_port env = Inr n \<Longrightarrow> 1 \<le> n \<and> n \<le> 65535"
  "parse_queries raw = Inr qs \<Longrightarrow> qs \<noteq> [] \<and> list_all trimmed qs"
  "parse_tokens raw = Inr tokens \<Longrightarrow> tokens \<noteq> [] \<and> distinct (map fst tokens) \<and>
     list_all (\<lambda>p. trimmed (fst p) \<and> trimmed (snd p)) tokens"
proof -
  show "parse_tokens raw = Inr tokens \<Longrightarrow> tokens \<noteq> [] \<and> distinct (map fst tokens) \<and>
      list_all (\<lambda>p. trimmed (fst p) \<and> trimmed (snd p)) tokens"
    using token_pairs_valid by (fastforce simp: parse_tokens_def rbind_eq_Inr config_failed_def split: if_splits)
qed (auto simp: env_choice_def required_if_def env_require_def config_failed_def parse_positive_int_def
    parse_positive_float_def parse_port_def parse_queries_def rbind_eq_Inr given_def list_all_iff Let_def
    split: if_splits option.splits)

lemma optional_float: "parse_optional_nonnegative_float env key = Inr r \<Longrightarrow>
    (case r of None \<Rightarrow> True | Some x \<Rightarrow> isfinite x \<and> fle (fzero False) x)"
  by (auto simp: parse_optional_nonnegative_float_def config_failed_def fle_def flt_def split: option.splits if_splits)

lemma trimmed_or_else: "trimmed d \<Longrightarrow> trimmed (or_else (py_strip v) d)"
  by (simp add: or_else_def)

lemma trimmed_literals:
  "trimmed DEFAULT_LOCATION" "trimmed DEFAULT_MODEL" "trimmed (lit ''OB'')" "trimmed (lit ''127.0.0.1'')"
  by (simp_all add: trimmed_def DEFAULT_LOCATION_def DEFAULT_MODEL_def lit_def py_strip_def py_isspace_def)

lemma accepted_configuration:
  assumes "from_env env = Inr c"
  shows "valid_config c"
proof -
  have "ac_tokens c \<noteq> [] \<and> distinct (map fst (ac_tokens c)) \<and>
      list_all (\<lambda>p. trimmed (fst p) \<and> trimmed (snd p)) (ac_tokens c)"
    using assms env_parsers(7) by (fastforce simp: from_env_def rbind_eq_Inr)
  moreover have "ac_persistence c \<in> set PERSISTENCE_CHOICES" "ac_llm_provider c \<in> set LLM_CHOICES"
    "ac_telemetry c \<in> set TELEMETRY_CHOICES" "1 \<le> ac_prom_step_seconds c"
    "flt (fzero False) (ac_prom_timeout_seconds c)" "1 \<le> ac_bind_port c \<and> ac_bind_port c \<le> 65535"
    "flt (fzero False) (ac_worker_idle_sleep_seconds c)"
    "case ac_baseline_minimum_score c of None \<Rightarrow> True | Some x \<Rightarrow> isfinite x \<and> fle (fzero False) x"
    using assms by (auto simp: from_env_def rbind_eq_Inr dest: env_parsers optional_float)
  moreover have "given (ac_persistence c = lit ''postgres'') (ac_database_url c)"
    "given (ac_llm_provider c = lit ''developer'') (ac_gemini_api_key c)"
    "given (ac_llm_provider c = lit ''vertex'') (ac_gemini_project c)"
    "given (ac_telemetry c = lit ''rcaeval'') (ac_re2_root c)"
    "given (ac_telemetry c = lit ''prometheus'') (ac_prom_url c)"
    using assms by (auto simp: from_env_def rbind_eq_Inr dest: env_parsers(2))
  moreover have "(ac_prom_queries c \<noteq> [] \<longleftrightarrow> ac_telemetry c = lit ''prometheus'') \<and> list_all trimmed (ac_prom_queries c)"
    using assms by (auto simp: from_env_def rbind_eq_Inr split: if_splits dest: env_parsers(6))
  moreover have "case ac_prom_bearer_token c of None \<Rightarrow> True | Some t \<Rightarrow> trimmed t"
    "trimmed (ac_gemini_location c)" "trimmed (ac_gemini_model c)" "trimmed (ac_re2_split c)" "trimmed (ac_bind_host c)"
    using assms by (auto simp: from_env_def rbind_eq_Inr Let_def trimmed_or_else trimmed_literals)
  ultimately show ?thesis by (simp add: valid_config_def)
qed

text \<open>
  C34. A configuration that is accepted is complete and consistent: tokens are present, different
  and, like their tenants, not blank; the chosen store, model provider and telemetry are known
  ones, and exactly the settings they need are there; the numbers are in their ranges.
\<close>

theorem accepted_configuration_is_valid:
  assumes "from_env env = Inr c"
  shows "valid_config c"
  by (rule accepted_configuration [OF assms])

section \<open>Errors keep secrets\<close>

text \<open>The messages a process can stop with.\<close>

definition config_texts :: "string list" where
  "config_texts =
     [''IEC_TOKENS is required'', ''IEC_TOKENS must be comma-separated token=tenant pairs'',
      ''IEC_PERSISTENCE must be one of memory, postgres'', ''IEC_DATABASE_URL is required'',
      ''IEC_LLM_PROVIDER must be one of fake, developer, vertex'', ''GEMINI_API_KEY is required'',
      ''IEC_GEMINI_PROJECT is required'', ''IEC_TELEMETRY must be one of none, rcaeval, prometheus'',
      ''IEC_RE2_ROOT is required'', ''IEC_PROM_URL is required'', ''IEC_PROM_QUERIES is required'',
      ''IEC_PROM_QUERIES must contain at least one PromQL selector'',
      ''IEC_PROM_STEP_SECONDS must be an integer'', ''IEC_PROM_STEP_SECONDS must be strictly positive'',
      ''IEC_PROM_TIMEOUT_SECONDS must be a number'', ''IEC_PROM_TIMEOUT_SECONDS must be strictly positive'',
      ''IEC_BIND_PORT must be an integer'', ''IEC_BIND_PORT must be in 1..65535'',
      ''IEC_WORKER_ENABLED must be a boolean (1/0, true/false)'',
      ''IEC_WORKER_IDLE_SLEEP_SECONDS must be a number'', ''IEC_WORKER_IDLE_SLEEP_SECONDS must be strictly positive'',
      ''IEC_BASELINE_MIN_SCORE must be a number'', ''IEC_BASELINE_MIN_SCORE must be a finite number >= 0.0'']"

definition config_messages :: "pystr list" where
  "config_messages = map lit config_texts"

lemma lit_append: "lit a @ lit b = lit (a @ b)"
  by (simp add: lit_def)

lemma env_parsers_Inl:
  "env_choice env key choices d = Inl e \<Longrightarrow>
     e = ConfigError (lit key @ lit '' must be one of '' @ join_with (lit '', '') choices)"
  "env_require env key = Inl e \<Longrightarrow> e = ConfigError (lit (key @ '' is required''))"
  "required_if b env key = Inl e \<Longrightarrow> e = ConfigError (lit (key @ '' is required''))"
  "parse_positive_int env key i = Inl e \<Longrightarrow> e \<in> {ConfigError (lit (key @ '' must be an integer'')),
     ConfigError (lit (key @ '' must be strictly positive''))}"
  "parse_positive_float env key x = Inl e \<Longrightarrow> e \<in> {ConfigError (lit (key @ '' must be a number'')),
     ConfigError (lit (key @ '' must be strictly positive''))}"
  "parse_port env = Inl e \<Longrightarrow> e \<in> {ConfigError (lit ''IEC_BIND_PORT must be an integer''),
     ConfigError (lit ''IEC_BIND_PORT must be in 1..65535'')}"
  "parse_bool env key b = Inl e \<Longrightarrow> e = ConfigError (lit (key @ '' must be a boolean (1/0, true/false)''))"
  "parse_optional_nonnegative_float env key = Inl e \<Longrightarrow> e \<in> {ConfigError (lit (key @ '' must be a number'')),
     ConfigError (lit (key @ '' must be a finite number >= 0.0''))}"
  "parse_queries raw = Inl e \<Longrightarrow> e = ConfigError (lit ''IEC_PROM_QUERIES must contain at least one PromQL selector'')"
  by (auto simp: env_choice_def env_require_def required_if_def parse_positive_int_def parse_positive_float_def
      parse_port_def parse_bool_def parse_optional_nonnegative_float_def parse_queries_def config_failed_def lit_append
      rbind_eq_Inl Let_def split: if_splits option.splits)

lemma parse_tokens_Inl: "parse_tokens raw = Inl e \<Longrightarrow>
    e \<in> {ConfigError (lit ''IEC_TOKENS is required''), ConfigError (lit ''IEC_TOKENS must be comma-separated token=tenant pairs'')}"
proof -
  have "token_pairs pairs tokens = Inl e \<Longrightarrow>
      e = ConfigError (lit ''IEC_TOKENS must be comma-separated token=tenant pairs'')" for pairs tokens
    by (induction pairs tokens rule: token_pairs.induct)
      (auto simp: Let_def config_failed_def lit_append split: prod.splits if_splits)
  then show "parse_tokens raw = Inl e \<Longrightarrow> ?thesis"
    by (auto simp: parse_tokens_def rbind_eq_Inl config_failed_def lit_append split: if_splits)
qed

lemma choice_messages:
  "lit key @ lit '' must be one of '' @ join_with (lit '', '') PERSISTENCE_CHOICES = lit (key @ '' must be one of memory, postgres'')"
  "lit key @ lit '' must be one of '' @ join_with (lit '', '') LLM_CHOICES = lit (key @ '' must be one of fake, developer, vertex'')"
  "lit key @ lit '' must be one of '' @ join_with (lit '', '') TELEMETRY_CHOICES = lit (key @ '' must be one of none, rcaeval, prometheus'')"
  by (simp_all add: PERSISTENCE_CHOICES_def LLM_CHOICES_def TELEMETRY_CHOICES_def lit_append)

definition quiet :: "config_error + 'a \<Rightarrow> bool" where
  "quiet m \<longleftrightarrow> (\<forall>e. m = Inl e \<longrightarrow> e \<in> ConfigError ` set config_messages)"

lemma quiet_rbind: "quiet m \<Longrightarrow> (\<And>a. quiet (f a)) \<Longrightarrow> quiet (rbind m f)"
  by (auto simp: quiet_def rbind_eq_Inl)

lemma quiet_Inr [simp]: "quiet (Inr a)"
  by (simp add: quiet_def)

lemma config_messages_iff:
  "ConfigError (lit w) \<in> ConfigError ` set config_messages \<longleftrightarrow> list_ex (\<lambda>x. x = w) config_texts"
  by (auto simp: config_messages_def list_ex_iff)

lemma quiet_parsers:
  "quiet (env_require env ''IEC_TOKENS'')" "quiet (parse_tokens raw)"
  "quiet (env_choice env ''IEC_PERSISTENCE'' PERSISTENCE_CHOICES d)"
  "quiet (required_if b env ''IEC_DATABASE_URL'')"
  "quiet (env_choice env ''IEC_LLM_PROVIDER'' LLM_CHOICES d)"
  "quiet (required_if b env ''GEMINI_API_KEY'')" "quiet (required_if b env ''IEC_GEMINI_PROJECT'')"
  "quiet (env_choice env ''IEC_TELEMETRY'' TELEMETRY_CHOICES d)"
  "quiet (required_if b env ''IEC_RE2_ROOT'')" "quiet (required_if b env ''IEC_PROM_URL'')"
  "quiet (env_require env ''IEC_PROM_QUERIES'')" "quiet (parse_queries raw)"
  "quiet (parse_positive_int env ''IEC_PROM_STEP_SECONDS'' i)"
  "quiet (parse_positive_float env ''IEC_PROM_TIMEOUT_SECONDS'' x)" "quiet (parse_port env)"
  "quiet (parse_bool env ''IEC_WORKER_ENABLED'' b)"
  "quiet (parse_positive_float env ''IEC_WORKER_IDLE_SLEEP_SECONDS'' x)"
  "quiet (parse_optional_nonnegative_float env ''IEC_BASELINE_MIN_SCORE'')"
  unfolding quiet_def
  by (intro allI impI; drule env_parsers_Inl parse_tokens_Inl; (elim insertE emptyE)?;
      simp add: choice_messages config_messages_iff config_texts_def)+

text \<open>
  A refused configuration tells no secret: its message is one of a fixed list, which names the
  variable and the rule it breaks and holds nothing of any value.
\<close>

theorem configuration_errors_keep_secrets:
  assumes "from_env env = Inl e"
  shows "e \<in> ConfigError ` set config_messages"
proof -
  have "quiet (from_env env)"
    unfolding from_env_def by (intro quiet_rbind) (auto intro!: quiet_parsers quiet_rbind)
  with assms show ?thesis by (simp add: quiet_def)
qed

section \<open>Configured tokens\<close>

definition token_pair :: "pystr \<Rightarrow> pystr \<times> pystr" where
  "token_pair pair = (case partition_equals pair of (token, _, tenant) \<Rightarrow> (py_strip token, py_strip tenant))"

lemma token_pairs_map:
  "token_pairs pairs tokens = Inr tokens' \<Longrightarrow> map_of tokens' = map_of tokens ++ map_of (rev (map token_pair pairs))"
proof (induction pairs tokens rule: token_pairs.induct)
  case (2 pair pairs tokens)
  then show ?case
    by (auto simp: token_pair_def Let_def config_failed_def update_conv' map_add_def fun_eq_iff
        split: prod.splits if_splits option.splits)
qed simp

lemma set_py_strip: "set (py_strip s) \<subseteq> set s"
  by (auto simp: py_strip_def dest!: set_dropWhileD)

lemma set_py_split: "p \<in> set (py_split c s) \<Longrightarrow> set p \<subseteq> set s"
proof (induction c s arbitrary: p rule: py_split.induct)
  case (2 c x s)
  then show ?case by (fastforce split: if_splits list.splits)
qed simp

lemma registry_of_tokens:
  assumes "list_all (\<lambda>p. trimmed (fst p) \<and> trimmed (snd p)) tokens"
  shows "token_registry_from_mapping tokens = Inr (map (map_prod id TenantId) tokens)"
  unfolding token_registry_from_mapping_def
proof (rule rmap_Inr_map)
  fix p assume "p \<in> set tokens"
  with assms have "\<not> is_blank (snd p)"
    by (auto simp: list_all_iff dest: trimmed_not_blank)
  then show "(case p of (token, v) \<Rightarrow> rbind (make_tenant_id (PyStr v)) (\<lambda>t. Inr (token, t))) = Inr (map_prod id TenantId p)"
    by (cases p) (simp add: make_tenant_id_def validate_text_identifier_def)
qed

lemma is_ascii_subset: "is_ascii s \<Longrightarrow> set t \<subseteq> set s \<Longrightarrow> is_ascii t"
  by (auto simp: is_ascii_def list_all_iff)

lemma parsed_tokens_ascii:
  assumes "parse_tokens raw = Inr tokens" "is_ascii raw"
  shows "list_all (\<lambda>p. is_ascii (fst p)) tokens"
proof -
  have "map_of tokens = map_of (rev (map token_pair (py_split 44 raw)))"
    using assms(1) token_pairs_map by (fastforce simp: parse_tokens_def rbind_eq_Inr config_failed_def split: if_splits)
  then have "fst ` set tokens = fst ` set (map token_pair (py_split 44 raw))"
    by (metis dom_map_of_conv_image_fst set_rev)
  moreover have "is_ascii (fst (token_pair pair))" if "pair \<in> set (py_split 44 raw)" for pair
  proof -
    have "set (py_strip (takeWhile (\<lambda>c. c \<noteq> 61) pair)) \<subseteq> set raw"
      using set_py_split [OF that] set_py_strip by (blast dest: set_takeWhileD)
    from is_ascii_subset [OF assms(2) this] show ?thesis by (simp add: token_pair_def partition_equals_def)
  qed
  ultimately have "is_ascii k" if "k \<in> fst ` set tokens" for k
    using that by auto
  then show ?thesis by (simp add: list_all_iff)
qed

text \<open>
  C35. What is configured is what authenticates: with an ASCII token variable, the token registry of an
  accepted configuration is built without error, and a request acts for a tenant exactly when it
  bears a token whose last pair in the variable names that tenant.
\<close>

theorem configured_tokens_authenticate:
  assumes "from_env env = Inr c" "env (lit ''IEC_TOKENS'') = Some raw" "is_ascii raw"
  shows "\<exists>tokens. token_registry_from_mapping (ac_tokens c) = Inr tokens \<and>
    (authenticate tokens authorization = Inr t \<longleftrightarrow>
      (\<exists>token. authorization = Some (lit ''Bearer '' @ token) \<and>
        map_of (rev (map token_pair (py_split 44 (py_strip raw)))) (py_strip token) = Some (tenant_value t)))"
proof -
  let ?tokens = "ac_tokens c"
  have parse: "parse_tokens (py_strip raw) = Inr ?tokens"
    using assms(1,2) by (auto simp: from_env_def rbind_eq_Inr env_require_def env_get_def config_failed_def Let_def split: if_splits)
  note valid = env_parsers(7) [OF parse]
  let ?registry = "map (map_prod id TenantId) ?tokens"
  have reg: "token_registry_from_mapping ?tokens = Inr ?registry"
    using valid by (intro registry_of_tokens) simp
  have "list_all (\<lambda>p. is_ascii (fst p)) ?registry" "distinct (map fst ?registry)"
    using parsed_tokens_ascii [OF parse is_ascii_subset [OF assms(3) set_py_strip]] valid
    by (auto simp: list_all_iff comp_def)
  note auth = registry_authenticates [OF this, of authorization t]
  have "(k, t) \<in> set ?registry \<longleftrightarrow> map_of ?tokens k = Some (tenant_value t)" for k
    using valid by (cases t) (force simp: image_iff)
  moreover have "map_of ?tokens = map_of (rev (map token_pair (py_split 44 (py_strip raw))))"
    using parse token_pairs_map by (fastforce simp: parse_tokens_def rbind_eq_Inr config_failed_def split: if_splits)
  ultimately show ?thesis using auth reg by auto
qed

definition sample_environment :: environment where
  "sample_environment = map_of [(lit ''IEC_TOKENS'', lit ''s3cret=acme, other = globex''),
     (lit ''IEC_PROM_TIMEOUT_SECONDS'', lit ''15''), (lit ''IEC_WORKER_IDLE_SLEEP_SECONDS'', lit ''1'')]"

lemma sample_texts:
  "lit ''15'' = [49, 53]" "lit ''1'' = [49]" "lit ''8000'' = [56, 48, 48, 48]"
  by (simp_all add: lit_def)

lemma sample_numbers:
  "py_int_str [56, 48, 48, 48] = Some 8000" "py_int_str [51, 48] = Some 30" "dec_int 30 = [51, 48]"
  "flt (fzero False) (F64 False 1026 3940649673949184)" "flt (fzero False) float_one"
  by (simp_all add: py_int_str_def num_strip_def num_char_def ascii_space_def signed_def is_digit_def digits_value_def
      INT_MAX_STR_DIGITS_def dec_int_def dec_nat.simps flt_def isnan_def fzero_def fval_def fmag_def fsig_def
      fexpo_def float_one_def)

lemma sample_trimmed:
  "py_strip (lit ''s3cret=acme, other = globex'') = lit ''s3cret=acme, other = globex''"
  "py_strip (lit ''memory'') = lit ''memory''" "py_strip (lit ''fake'') = lit ''fake''" "py_strip (lit ''none'') = lit ''none''"
  "py_strip [49, 53] = [49, 53]" "py_strip [49] = [49]" "py_strip [51, 48] = [51, 48]"
  "py_strip [56, 48, 48, 48] = [56, 48, 48, 48]"
  by (simp_all add: lit_def py_strip_def py_isspace_def)

lemma sample_tokens_parse:
  "parse_tokens (lit ''s3cret=acme, other = globex'') = Inr [(lit ''s3cret'', lit ''acme''), (lit ''other'', lit ''globex'')]"
  by (simp add: parse_tokens_def lit_def partition_equals_def py_strip_def py_isspace_def)

lemma sample_from_env: "\<exists>c. from_env sample_environment = Inr c"
  by (simp add: from_env_def env_require_def env_choice_def required_if_def parse_positive_int_def parse_positive_float_def
      parse_port_def parse_bool_def parse_optional_nonnegative_float_def env_get_def sample_environment_def
      sample_texts sample_trimmed sample_numbers sample_cells sample_tokens_parse Let_def
      PERSISTENCE_CHOICES_def LLM_CHOICES_def TELEMETRY_CHOICES_def)

theorem accepted_configuration_is_valid_witness:
  "\<exists>c. from_env sample_environment = Inr c \<and> valid_config c"
  using sample_from_env accepted_configuration_is_valid by blast

theorem configuration_errors_keep_secrets_witness:
  "\<exists>e. from_env (map_of [(lit ''IEC_LLM_PROVIDER'', lit ''developer'')]) = Inl e \<and> e \<in> ConfigError ` set config_messages"
proof -
  obtain e where "from_env (map_of [(lit ''IEC_LLM_PROVIDER'', lit ''developer'')]) = Inl e"
    by (simp add: from_env_def env_require_def env_get_def config_failed_def py_strip_def)
  with configuration_errors_keep_secrets [OF this] show ?thesis by blast
qed

theorem configured_tokens_authenticate_witness:
  "\<exists>c tokens. from_env sample_environment = Inr c \<and> token_registry_from_mapping (ac_tokens c) = Inr tokens \<and>
     authenticate tokens (Some (lit ''Bearer '' @ lit ''other'')) = Inr (TenantId (lit ''globex''))"
proof -
  obtain c where c: "from_env sample_environment = Inr c" using sample_from_env by blast
  have raw: "sample_environment (lit ''IEC_TOKENS'') = Some (lit ''s3cret=acme, other = globex'')"
    by (simp add: sample_environment_def)
  have "is_ascii (lit ''s3cret=acme, other = globex'')" by (simp add: is_ascii_def lit_def)
  note auth = configured_tokens_authenticate [OF c raw this, of "Some (lit ''Bearer '' @ lit ''other'')" "TenantId (lit ''globex'')"]
  have "map_of (rev (map token_pair (py_split 44 (lit ''s3cret=acme, other = globex'')))) (py_strip (lit ''other'')) =
      Some (lit ''globex'')"
    by (simp add: token_pair_def partition_equals_def lit_def py_strip_def py_isspace_def)
  with auth c show ?thesis by (auto simp: sample_trimmed)
qed

end
