(* ===== verification/Demo_Telemetry.thy ===== *)
theory Demo_Telemetry
  imports Rcaeval_Adapter Baseline_Inputs Worker
begin

text \<open>
  \<^verbatim>\<open>runtime/telemetry.py\<close>: the telemetry source that indexes an extracted RCAEval split and serves the
  baseline inputs of a case under an opaque identifier. The tree is fixed while it is indexed; the
  random case identifiers the parser is given are an argument, one for each discovered case.
\<close>

text \<open>What stops the construction: a load error, a directory name that is not UTF-8, a bad scale floor.\<close>

datatype index_error = IndexLoadError load_failure | IndexEncodeError | IndexFloorError domain_error

definition index_step :: "load_failure + 'a \<Rightarrow> index_error + 'a" where
  "index_step m = (case m of Inl e \<Rightarrow> Inl (IndexLoadError e) | Inr a \<Rightarrow> Inr a)"

text \<open>\<^term>\<open>None\<close> is \<^verbatim>\<open>UnicodeEncodeError\<close>.\<close>

definition opaque_case_id :: "pystr \<Rightarrow> pystr option" where
  "opaque_case_id source_locator =
     map_option (\<lambda>b. lit ''case-'' @ take 32 (hexdigest b)) (utf8 source_locator)"

record rcaeval_source =
  rs_inputs :: "(pystr \<times> signal_baseline_input list) list"
  rs_windows :: "(pystr \<times> incident_window) list"
  rs_locators :: "(pystr \<times> pystr) list"

definition empty_source :: rcaeval_source where
  "empty_source = \<lparr>rs_inputs = [], rs_windows = [], rs_locators = []\<rparr>"

definition index_case ::
  "fs_node \<Rightarrow> loader_limits \<Rightarrow> scale_floor_policy \<Rightarrow> case_id \<Rightarrow> discovered_case \<Rightarrow> rcaeval_source
     \<Rightarrow> index_error + rcaeval_source" where
  "index_case fs bounded_limits floors c source src =
     (case parse_discovered fs source c bounded_limits of
        Inl (LoadError _) \<Rightarrow> Inr src
      | Inl UncaughtOSError \<Rightarrow> Inl (IndexLoadError UncaughtOSError)
      | Inr parsed \<Rightarrow>
          (case opaque_case_id (dc_source_locator source) of
             None \<Rightarrow> Inl IndexEncodeError
           | Some key \<Rightarrow>
               (case to_baseline_inputs (pc_signals parsed) (Some floors) of
                  Inl e \<Rightarrow> Inl (IndexFloorError e)
                | Inr inputs \<Rightarrow>
                    Inr (src\<lparr>rs_locators := AList.update key (dc_source_locator source) (rs_locators src),
                             rs_inputs := AList.update key inputs (rs_inputs src),
                             rs_windows := AList.update key (pc_window parsed) (rs_windows src)\<rparr>))))"

fun index_cases ::
  "fs_node \<Rightarrow> loader_limits \<Rightarrow> scale_floor_policy \<Rightarrow> (nat \<Rightarrow> case_id) \<Rightarrow> nat \<Rightarrow> discovered_case list \<Rightarrow> rcaeval_source
     \<Rightarrow> index_error + rcaeval_source" where
  "index_cases fs l p ids n [] src = Inr src"
| "index_cases fs l p ids n (d # ds) src = rbind (index_case fs l p (ids n) d src) (index_cases fs l p ids (Suc n) ds)"

definition make_rcaeval_source ::
  "split_root \<Rightarrow> pystr \<Rightarrow> loader_limits option \<Rightarrow> scale_floor_policy option \<Rightarrow> (nat \<Rightarrow> case_id)
     \<Rightarrow> index_error + rcaeval_source" where
  "make_rcaeval_source split_dir split l floor_policy ids =
     (let bounded_limits = (case l of None \<Rightarrow> default_limits | Some l \<Rightarrow> l);
          floors = (case floor_policy of None \<Rightarrow> default_scale_floor_policy | Some p \<Rightarrow> p)
      in rbind (index_step (parse_split (PyStr split))) (\<lambda>parsed_split.
         rbind (index_step (validate_root split_dir parsed_split)) (\<lambda>_.
         rbind (index_step (discover_cases split_dir bounded_limits)) (\<lambda>ds.
           index_cases (rt_node split_dir) bounded_limits floors ids 0 ds empty_source))))"

definition available :: "rcaeval_source \<Rightarrow> (pystr \<times> incident_window) list" where
  "available src = rs_windows src"

definition locator_for :: "rcaeval_source \<Rightarrow> pystr \<Rightarrow> pystr option" where
  "locator_for src incident_id = map_of (rs_locators src) incident_id"

definition rcaeval_load ::
  "rcaeval_source \<Rightarrow> tenant_id \<Rightarrow> incident_id \<Rightarrow> run_id \<Rightarrow> incident_window \<Rightarrow> telemetry_outcome" where
  "rcaeval_load src tenant incident run window =
     (case map_of (rs_inputs src) (incident_value incident) of None \<Rightarrow> TelemetryMissing | Some inputs \<Rightarrow> Loaded inputs)"

section \<open>Served cases\<close>

lemma opaque_shape:
  "opaque_case_id loc = Some k \<Longrightarrow> length k = 37 \<and> take 5 k = lit ''case-'' \<and> list_all is_hex (drop 5 k)"
  using hexdigest_shape by (auto simp: opaque_case_id_def list_all_iff dest!: in_set_takeD)

text \<open>A case of the split, the number of its discovery, that is served under an identifier.\<close>

definition serves ::
  "fs_node \<Rightarrow> loader_limits \<Rightarrow> scale_floor_policy \<Rightarrow> (nat \<Rightarrow> case_id) \<Rightarrow> nat \<times> discovered_case \<Rightarrow> pystr
     \<Rightarrow> parsed_case \<times> signal_baseline_input list \<Rightarrow> bool" where
  "serves fs l p ids nd k x \<longleftrightarrow> opaque_case_id (dc_source_locator (snd nd)) = Some k \<and>
     parse_discovered fs (snd nd) (ids (fst nd)) l = Inr (fst x) \<and>
     to_baseline_inputs (pc_signals (fst x)) (Some p) = Inr (snd x)"

text \<open>What a source holds under an identifier.\<close>

definition holds_case :: "rcaeval_source \<Rightarrow> pystr \<Rightarrow> (pystr \<times> incident_window \<times> signal_baseline_input list) option" where
  "holds_case src k =
     (case (map_of (rs_locators src) k, map_of (rs_windows src) k, map_of (rs_inputs src) k) of
        (Some loc, Some w, Some inputs) \<Rightarrow> Some (loc, w, inputs)
      | _ \<Rightarrow> None)"

definition aligned :: "rcaeval_source \<Rightarrow> bool" where
  "aligned src \<longleftrightarrow> (\<forall>k. (map_of (rs_locators src) k = None \<longleftrightarrow> map_of (rs_inputs src) k = None) \<and>
     (map_of (rs_windows src) k = None \<longleftrightarrow> map_of (rs_inputs src) k = None))"

lemma index_case_Inr:
  assumes "index_case fs l p c d src = Inr src'"
  shows "(src' = src \<and> (\<exists>e. parse_discovered fs d c l = Inl (LoadError e))) \<or>
    (\<exists>k parsed inputs. opaque_case_id (dc_source_locator d) = Some k \<and> parse_discovered fs d c l = Inr parsed \<and>
       to_baseline_inputs (pc_signals parsed) (Some p) = Inr inputs \<and>
       src' = src\<lparr>rs_locators := AList.update k (dc_source_locator d) (rs_locators src),
         rs_inputs := AList.update k inputs (rs_inputs src), rs_windows := AList.update k (pc_window parsed) (rs_windows src)\<rparr>)"
  using assms by (auto simp: index_case_def split: sum.splits load_failure.splits option.splits)

text \<open>No case after a given one is served under the identifier.\<close>

definition none_later ::
  "fs_node \<Rightarrow> loader_limits \<Rightarrow> scale_floor_policy \<Rightarrow> (nat \<Rightarrow> case_id) \<Rightarrow> (nat \<times> discovered_case) list \<Rightarrow> nat \<Rightarrow> pystr
     \<Rightarrow> bool" where
  "none_later fs l p ids nds n k \<longleftrightarrow> list_all (\<lambda>me. n < fst me \<longrightarrow> (\<nexists>x. serves fs l p ids me k x)) nds"

lemma index_cases_holds:
  assumes "index_cases fs l p ids n ds src = Inr src'" "aligned src"
  shows "aligned src' \<and> (\<forall>k v. holds_case src' k = Some v \<longrightarrow>
      (\<exists>m d x. (m, d) \<in> set (enumerate n ds) \<and> serves fs l p ids (m, d) k x \<and>
         none_later fs l p ids (enumerate n ds) m k \<and> v = (dc_source_locator d, pc_window (fst x), snd x)) \<or>
      holds_case src k = Some v \<and> list_all (\<lambda>me. \<nexists>x. serves fs l p ids me k x) (enumerate n ds)) \<and>
    (\<forall>k. holds_case src' k = None \<longrightarrow> holds_case src k = None \<and>
      (\<forall>m d x. (m, d) \<in> set (enumerate n ds) \<longrightarrow> \<not> serves fs l p ids (m, d) k x))"
  using assms
proof (induction ds arbitrary: n src)
  case (Cons d ds)
  then obtain src1 where one: "index_case fs l p (ids n) d src = Inr src1"
    and rest: "index_cases fs l p ids (Suc n) ds src1 = Inr src'"
    by (auto simp: rbind_eq_Inr)
  from index_case_Inr [OF one] show ?case
  proof (elim disjE conjE exE)
    fix e assume s: "src1 = src" "parse_discovered fs d (ids n) l = Inl (LoadError e)"
    then have unserved: "\<not> serves fs l p ids (n, d) k x" for k x by (simp add: serves_def)
    have later: "none_later fs l p ids (enumerate n (d # ds)) m k \<longleftrightarrow> none_later fs l p ids (enumerate (Suc n) ds) m k"
      "list_all (\<lambda>me. \<nexists>x. serves fs l p ids me k x) (enumerate n (d # ds))
         \<longleftrightarrow> list_all (\<lambda>me. \<nexists>x. serves fs l p ids me k x) (enumerate (Suc n) ds)"
      "(m, e) \<in> set (enumerate n (d # ds)) \<and> serves fs l p ids (m, e) k x
         \<longleftrightarrow> (m, e) \<in> set (enumerate (Suc n) ds) \<and> serves fs l p ids (m, e) k x" for m e k x
      by (auto simp: none_later_def unserved)
    have al: "aligned src1" using Cons.prems(2) s(1) by simp
    note ih = Cons.IH [OF rest al, unfolded s(1)]
    show ?thesis
    proof (intro conjI allI impI)
      show "aligned src'" using ih by (rule conjunct1)
    next
      fix j v assume "holds_case src' j = Some v"
      then consider m e x where "(m, e) \<in> set (enumerate (Suc n) ds)" "serves fs l p ids (m, e) j x"
          "none_later fs l p ids (enumerate (Suc n) ds) m j" "v = (dc_source_locator e, pc_window (fst x), snd x)"
        | "holds_case src j = Some v" "list_all (\<lambda>me. \<nexists>x. serves fs l p ids me j x) (enumerate (Suc n) ds)"
        using ih by blast
      then show "(\<exists>m e x. (m, e) \<in> set (enumerate n (d # ds)) \<and> serves fs l p ids (m, e) j x \<and>
          none_later fs l p ids (enumerate n (d # ds)) m j \<and> v = (dc_source_locator e, pc_window (fst x), snd x)) \<or>
        holds_case src j = Some v \<and> list_all (\<lambda>me. \<nexists>x. serves fs l p ids me j x) (enumerate n (d # ds))"
        unfolding later(1,2) using later(3) by cases blast+
    next
      fix j assume "holds_case src' j = None"
      then show "holds_case src j = None" using ih by blast
    next
      fix j m e x assume "holds_case src' j = None" "(m, e) \<in> set (enumerate n (d # ds))"
      then show "\<not> serves fs l p ids (m, e) j x" using ih later(3) by blast
    qed
  next
    fix k parsed inputs
    assume k: "opaque_case_id (dc_source_locator d) = Some k" "parse_discovered fs d (ids n) l = Inr parsed"
      "to_baseline_inputs (pc_signals parsed) (Some p) = Inr inputs"
      and s: "src1 = src\<lparr>rs_locators := AList.update k (dc_source_locator d) (rs_locators src),
         rs_inputs := AList.update k inputs (rs_inputs src), rs_windows := AList.update k (pc_window parsed) (rs_windows src)\<rparr>"
    have al: "aligned src1"
      using Cons.prems(2) by (auto simp: aligned_def s update_conv')
    have held: "holds_case src1 j = (if j = k then Some (dc_source_locator d, pc_window parsed, inputs) else holds_case src j)" for j
      by (simp add: holds_case_def s update_conv')
    have sv: "serves fs l p ids (n, d) j x \<longleftrightarrow> j = k \<and> x = (parsed, inputs)" for j x
      using k by (cases x) (auto simp: serves_def)
    note ih = Cons.IH [OF rest al]
    have new: "serves fs l p ids (n, d) k (parsed, inputs)" by (simp add: sv)
    show ?thesis
    proof (intro conjI allI impI)
      show "aligned src'" using ih by blast
    next
      fix j v assume "holds_case src' j = Some v"
      then consider m e x where "(m, e) \<in> set (enumerate (Suc n) ds)" "serves fs l p ids (m, e) j x"
          "none_later fs l p ids (enumerate (Suc n) ds) m j" "v = (dc_source_locator e, pc_window (fst x), snd x)"
        | "holds_case src1 j = Some v" "list_all (\<lambda>me. \<nexists>x. serves fs l p ids me j x) (enumerate (Suc n) ds)"
        using ih by blast
      then show "(\<exists>m e x. (m, e) \<in> set (enumerate n (d # ds)) \<and> serves fs l p ids (m, e) j x \<and>
          none_later fs l p ids (enumerate n (d # ds)) m j \<and> v = (dc_source_locator e, pc_window (fst x), snd x)) \<or>
        holds_case src j = Some v \<and> list_all (\<lambda>me. \<nexists>x. serves fs l p ids me j x) (enumerate n (d # ds))"
      proof cases
        case 1
        then have "(m, e) \<in> set (enumerate n (d # ds))" "none_later fs l p ids (enumerate n (d # ds)) m j"
          by (auto simp: none_later_def in_set_enumerate_eq)
        with 1(2,4) show ?thesis by blast
      next
        case 2
        show ?thesis
        proof (cases "j = k")
          case True
          have "none_later fs l p ids (enumerate n (d # ds)) n k"
            using 2(2) True by (simp add: none_later_def list_all_iff)
          with 2(1) new True show ?thesis by (auto simp: held)
        next
          case False
          with 2 show ?thesis by (simp add: held sv)
        qed
      qed
    next
      fix j assume none: "holds_case src' j = None"
      then have "holds_case src1 j = None" using ih by blast
      then show "holds_case src j = None" by (simp add: held split: if_splits)
      fix m e x assume "(m, e) \<in> set (enumerate n (d # ds))"
      then consider "m = n" "e = d" | "(m, e) \<in> set (enumerate (Suc n) ds)" by auto
      then show "\<not> serves fs l p ids (m, e) j x"
      proof cases
        case 1
        then show ?thesis using \<open>holds_case src1 j = None\<close> by (auto simp: sv held)
      next
        case 2
        then show ?thesis using ih none by blast
      qed
    qed
  qed
qed simp

text \<open>
  C36. What the demonstration source holds once it is built: the split is named by any of the three
  values and its directory has the name of that split, and an identifier is served exactly when it
  is the digest of the directory of a discovered case that parses and has usable inputs; it
  is served the inputs, the window and the directory of the last such case in path order, as later
  cases overwrite earlier ones whose digest is the same. Every identifier is the prefix and 32
  hexadecimal digits, so nothing of the directory's name, which spells the fault, is in it. This
  holds for the sealed split TT and the reserved SS as well, since the source never consults the
  guard of the splits, although the documentation of the data set says that access to TT is denied
  by default: the witness serves a case of TT that the guard denies.
\<close>

theorem served_cases_are_exact:
  assumes "make_rcaeval_source r split l p ids = Inr src"
    and "bounded_limits = (case l of None \<Rightarrow> default_limits | Some l \<Rightarrow> l)"
    and "floors = (case p of None \<Rightarrow> default_scale_floor_policy | Some p \<Rightarrow> p)"
  shows "\<exists>y ds. split = split_value y \<and> validate_root r y = Inr () \<and> discover_cases r bounded_limits = Inr ds \<and>
    (case rcaeval_load src tenant (IncidentId k) run window of
       Loaded inputs \<Rightarrow> \<exists>n d parsed. (n, d) \<in> set (enumerate 0 ds) \<and>
         serves (rt_node r) bounded_limits floors ids (n, d) k (parsed, inputs) \<and>
         list_all (\<lambda>me. n < fst me \<longrightarrow> (\<nexists>x. serves (rt_node r) bounded_limits floors ids me k x)) (enumerate 0 ds) \<and>
         map_of (available src) k = Some (pc_window parsed) \<and> locator_for src k = Some (dc_source_locator d) \<and>
         length k = 37 \<and> take 5 k = lit ''case-'' \<and> list_all is_hex (drop 5 k)
     | TelemetryMissing \<Rightarrow> map_of (available src) k = None \<and> locator_for src k = None \<and>
         list_all (\<lambda>nd. \<nexists>x. serves (rt_node r) bounded_limits floors ids nd k x) (enumerate 0 ds)
     | TelemetryCrashed \<Rightarrow> False)"
proof -
  obtain y ds where ds: "split = split_value y" "validate_root r y = Inr ()" "discover_cases r bounded_limits = Inr ds"
    and run: "index_cases (rt_node r) bounded_limits floors ids 0 ds empty_source = Inr src"
    using assms(1) by (auto simp: make_rcaeval_source_def Let_def rbind_eq_Inr index_step_def assms(2,3) parse_split_Inr split: sum.splits)
  note held = index_cases_holds [OF run]
  have empty: "aligned empty_source" "holds_case empty_source k = None"
    by (simp_all add: aligned_def empty_source_def holds_case_def)
  have al: "map_of (rs_inputs src) k = None \<longleftrightarrow> holds_case src k = None"
    "map_of (rs_inputs src) k = Some inputs \<Longrightarrow> \<exists>loc w. holds_case src k = Some (loc, w, inputs) \<and>
       map_of (rs_locators src) k = Some loc \<and> map_of (rs_windows src) k = Some w"
    "map_of (rs_inputs src) k = None \<Longrightarrow> map_of (rs_locators src) k = None \<and> map_of (rs_windows src) k = None" for inputs
  proof -
    have dom: "map_of (rs_locators src) k = None \<longleftrightarrow> map_of (rs_inputs src) k = None"
      "map_of (rs_windows src) k = None \<longleftrightarrow> map_of (rs_inputs src) k = None"
      using conjunct1 [OF held [OF empty(1)]] unfolding aligned_def by blast+
    then show "map_of (rs_inputs src) k = None \<longleftrightarrow> holds_case src k = None"
      "map_of (rs_inputs src) k = Some inputs \<Longrightarrow> \<exists>loc w. holds_case src k = Some (loc, w, inputs) \<and>
         map_of (rs_locators src) k = Some loc \<and> map_of (rs_windows src) k = Some w"
      "map_of (rs_inputs src) k = None \<Longrightarrow> map_of (rs_locators src) k = None \<and> map_of (rs_windows src) k = None"
      by (auto simp: holds_case_def split: option.splits)
  qed
  show ?thesis
  proof (cases "map_of (rs_inputs src) k")
    case None
    with al held [OF empty(1)] show ?thesis
      by (intro exI [of _ y] exI [of _ ds]) (auto simp: ds rcaeval_load_def available_def locator_for_def list_all_iff)
  next
    case (Some inputs)
    from al(2) [OF this] obtain loc w where h: "holds_case src k = Some (loc, w, inputs)"
      "map_of (rs_locators src) k = Some loc" "map_of (rs_windows src) k = Some w" by blast
    with held [OF empty(1)] empty(2) obtain m d x where "(m, d) \<in> set (enumerate 0 ds)"
      "serves (rt_node r) bounded_limits floors ids (m, d) k x" "(loc, w, inputs) = (dc_source_locator d, pc_window (fst x), snd x)"
      and last: "none_later (rt_node r) bounded_limits floors ids (enumerate 0 ds) m k"
      by fastforce
    note src_case = this(1-3)
    from src_case(2) have "length k = 37 \<and> take 5 k = lit ''case-'' \<and> list_all is_hex (drop 5 k)"
      by (auto simp: serves_def dest!: opaque_shape)
    moreover have "serves (rt_node r) bounded_limits floors ids (m, d) k (fst x, inputs)"
      using src_case(2,3) by simp
    ultimately have "\<exists>n d parsed. (n, d) \<in> set (enumerate 0 ds) \<and>
         serves (rt_node r) bounded_limits floors ids (n, d) k (parsed, inputs) \<and>
         list_all (\<lambda>me. n < fst me \<longrightarrow> (\<nexists>x. serves (rt_node r) bounded_limits floors ids me k x)) (enumerate 0 ds) \<and>
         map_of (available src) k = Some (pc_window parsed) \<and> locator_for src k = Some (dc_source_locator d) \<and>
         length k = 37 \<and> take 5 k = lit ''case-'' \<and> list_all is_hex (drop 5 k)"
      using src_case(1,3) h(2,3) last [unfolded none_later_def]
      by (intro exI [of _ m] exI [of _ d] exI [of _ "fst x"]) (simp add: available_def locator_for_def)
    with Some show ?thesis
      by (intro exI [of _ y] exI [of _ ds]) (simp add: ds rcaeval_load_def)
  qed
qed

section \<open>A sealed split is served\<close>

definition sealed_root :: split_root where
  "sealed_root = \<lparr>rt_parent_name = lit ''data'', rt_name = lit ''RE2-TT'', rt_symlink = False,
     rt_node = FsDirectory
       [(lit ''cart_mem'', FsDirectory [(lit ''1'', sample_case_directory ''simple_metrics.csv'' sample_metrics [49, 53, 10])])]\<rparr>"

lemma sealed_discovery:
  "discover_cases sealed_root sample_limits = Inr [sample_discovered ''cart'' ''mem'' ''simple_metrics.csv'']"
  "file_at (rt_node sealed_root) (dc_metric_file (sample_discovered ''cart'' ''mem'' ''simple_metrics.csv'')) = sample_file sample_metrics"
  "file_at (rt_node sealed_root) (dc_injection_file (sample_discovered ''cart'' ''mem'' ''simple_metrics.csv'')) = sample_file [49, 53, 10]"
  by code_simp (simp_all add: sealed_root_def sample_discovered_def sample_case_directory_def sample_file_def lit_def)

lemma sample_floors:
  "isfinite (floor_for default_scale_floor_policy \<lparr>sig_key = k, sig_points =
     [\<lparr>pt_observed_at = 10000000, pt_value = float_one\<rparr>, \<lparr>pt_observed_at = 20000000, pt_value = F64 False 1024 1125899906842624\<rparr>]\<rparr>)"
  "isfinite (floor_for default_scale_floor_policy \<lparr>sig_key = k, sig_points =
     [\<lparr>pt_observed_at = 20000000, pt_value = F64 False 1024 2251799813685248\<rparr>]\<rparr>)"
proof -
  have all: "(isfinite (floor_for default_scale_floor_policy \<lparr>sig_key = k, sig_points =
     [\<lparr>pt_observed_at = 10000000, pt_value = float_one\<rparr>, \<lparr>pt_observed_at = 20000000, pt_value = F64 False 1024 1125899906842624\<rparr>]\<rparr>)) \<and>
    (isfinite (floor_for default_scale_floor_policy \<lparr>sig_key = k, sig_points =
     [\<lparr>pt_observed_at = 20000000, pt_value = F64 False 1024 2251799813685248\<rparr>]\<rparr>))"
    by code_simp
  show "isfinite (floor_for default_scale_floor_policy \<lparr>sig_key = k, sig_points =
     [\<lparr>pt_observed_at = 10000000, pt_value = float_one\<rparr>, \<lparr>pt_observed_at = 20000000, pt_value = F64 False 1024 1125899906842624\<rparr>]\<rparr>)"
    "isfinite (floor_for default_scale_floor_policy \<lparr>sig_key = k, sig_points =
     [\<lparr>pt_observed_at = 20000000, pt_value = F64 False 1024 2251799813685248\<rparr>]\<rparr>)"
    by (simp_all only: all)
qed

lemma sealed_case:
  "\<exists>pc inputs. (\<forall>c. parse_case (sample_file sample_metrics) (sample_file [49, 53, 10]) c sample_limits = Inr pc) \<and>
     to_baseline_inputs (pc_signals pc) (Some default_scale_floor_policy) = Inr inputs \<and> length inputs = 2"
proof -
  have "max_metric_file_bytes sample_limits = 30" "max_inject_time_file_bytes sample_limits = 30"
    by (simp_all add: sample_limits_def)
  moreover have "py_strip [49, 53, 10] = [49, 53]" by (simp add: py_strip_def py_isspace_def)
  moreover have "\<not> is_blank (lit ''a'')" "\<not> is_blank (lit ''b'')"
    by (simp_all add: is_blank_iff lit_def py_isspace_def)
  ultimately show ?thesis
    by (simp add: parse_case_def sample_text sample_csv sample_timestamps sample_table_def build_case_def
        in_calendar_def min_instant_def max_instant_def make_incident_window_def utc_def
        make_signal_key_def make_metric_signal_def pairwise_any_def to_baseline_inputs_def
        make_input_of_floor [OF default_policy_valid] sample_floors)
qed

theorem served_cases_are_exact_witness:
  "\<exists>src k inputs (parsed :: parsed_case). make_rcaeval_source sealed_root (lit ''TT'') (Some sample_limits) None (\<lambda>_. CaseId 0) = Inr src \<and>
     guard_split TT None = Inl (load_failed SEALED_SPLIT_DENIED) \<and> opaque_case_id (lit ''cart_mem/1'') = Some k \<and>
     rcaeval_load src sample_tenant (IncidentId k) sample_run sample_window = Loaded inputs \<and> length inputs = 2 \<and>
     map_of (available src) k = Some (pc_window parsed) \<and> locator_for src k = Some (lit ''cart_mem/1'')"
proof -
  let ?d = "sample_discovered ''cart'' ''mem'' ''simple_metrics.csv''"
  obtain pc inputs where pc: "\<And>c. parse_case (sample_file sample_metrics) (sample_file [49, 53, 10]) c sample_limits = Inr pc"
    "to_baseline_inputs (pc_signals pc) (Some default_scale_floor_policy) = Inr inputs" "length inputs = 2"
    using sealed_case by blast
  have loc: "dc_source_locator ?d = lit ''cart_mem/1''"
    by (simp add: sample_discovered_def lit_def)
  obtain k where k: "opaque_case_id (lit ''cart_mem/1'') = Some k"
    by (simp add: opaque_case_id_def lit_def utf8_char_def)
  have parts: "parse_split (PyStr (lit ''TT'')) = Inr TT" "validate_root sealed_root TT = Inr ()"
    "guard_split TT None = Inl (load_failed SEALED_SPLIT_DENIED)"
    using parse_split_value [of TT] by (simp_all add: validate_root_def guard_split_def sealed_root_def lit_def)
  obtain src where src: "make_rcaeval_source sealed_root (lit ''TT'') (Some sample_limits) None (\<lambda>_. CaseId 0) = Inr src"
    "rcaeval_load src sample_tenant (IncidentId k) sample_run sample_window = Loaded inputs"
    by (simp add: make_rcaeval_source_def parts sealed_discovery index_step_def index_case_def parse_discovered_def pc k loc
        empty_source_def rcaeval_load_def)
  have "\<exists>parsed :: parsed_case. map_of (available src) k = Some (pc_window parsed) \<and> locator_for src k = Some (lit ''cart_mem/1'')"
    using served_cases_are_exact [OF src(1) refl refl, where tenant = sample_tenant and k = k and run = sample_run
        and window = sample_window] src(2)
    by (auto simp: sealed_discovery loc)
  with src pc(3) k parts(3) show ?thesis by blast
qed

end
