(* ===== verification/Prometheus.thy ===== *)
theory Prometheus
  imports Py_Numbers Baseline_Inputs Float_Repr Worker
begin

text \<open>
  \<^verbatim>\<open>runtime/prometheus.py\<close>: the bounded range query, the decoding of its untrusted response, the
  mapping of series to signals and the telemetry source. The injected \<^verbatim>\<open>fetch\<close> is a parameter: the
  status and body, or a failure, of each request in turn. Three things can leave a query: the typed
  error, the interpreter's \<^verbatim>\<open>RecursionError\<close> on a deeply nested body, which no clause catches, and
  \<^verbatim>\<open>UnicodeEncodeError\<close> for a selector that cannot be encoded. The Python text of a list or an object
  that stands as a label value is an argument, as it depends on the table of printable characters.
\<close>

datatype query_error = PrometheusError | EscapedRecursionError | EscapedEncodeError

record prometheus_limits =
  max_response_bytes :: int
  max_series :: int
  max_points_per_series :: int

definition valid_prometheus_limits :: "prometheus_limits \<Rightarrow> bool" where
  "valid_prometheus_limits l \<longleftrightarrow> 1 \<le> max_response_bytes l \<and> 1 \<le> max_series l \<and> 1 \<le> max_points_per_series l"

definition default_prometheus_limits :: prometheus_limits where
  "default_prometheus_limits = \<lparr>max_response_bytes = 8388608, max_series = 2048, max_points_per_series = 100000\<rparr>"

record prometheus_point =
  pp_at :: int
  pp_value :: f64

record prometheus_series =
  ps_name :: pystr
  ps_points :: "prometheus_point list"

section \<open>The body as text\<close>

text \<open>
  \<^verbatim>\<open>json.loads\<close> detects the encoding of bytes from a byte order mark or the places of zero bytes,
  and decodes with \<^verbatim>\<open>surrogatepass\<close>, which lets surrogates through in every encoding.
\<close>

definition wide_char :: "nat \<Rightarrow> nat list option" where
  "wide_char c =
     (if 55296 \<le> c \<and> c < 57344 then Some [224 + c div 4096, 128 + c div 64 mod 64, 128 + c mod 64]
      else utf8_char c)"

definition wide_next :: "nat list \<Rightarrow> (nat \<times> nat list) option" where
  "wide_next b =
     (let c = fst (utf8_decode1 (b @ [0, 0, 0])) in
      case wide_char c of
        None \<Rightarrow> None
      | Some bs \<Rightarrow> if take (length bs) b = bs then Some (c, drop (length bs) b) else None)"

lemma wide_char_not_Nil: "wide_char c = Some b \<Longrightarrow> b \<noteq> []"
  by (auto simp: wide_char_def split: if_splits dest: utf8_char_not_Nil)

lemma wide_next_shorter: "wide_next b = Some (c, r) \<Longrightarrow> length r < length b"
  by (auto simp: wide_next_def Let_def split: option.splits if_splits dest!: wide_char_not_Nil)
    (metis append_Nil diff_less length_greater_0_conv take_eq_Nil)

function wide_decode :: "nat list \<Rightarrow> pystr option" where
  "wide_decode b =
     (if b = [] then Some []
      else case wide_next b of None \<Rightarrow> None | Some (c, r) \<Rightarrow> map_option (Cons c) (wide_decode r))"
  by pat_completeness auto
termination
  by (relation "measure length") (auto dest: wide_next_shorter)

declare wide_decode.simps [simp del]

text \<open>The units of two bytes, and the characters of which they are.\<close>

fun units16 :: "bool \<Rightarrow> nat list \<Rightarrow> nat list option" where
  "units16 big [] = Some []"
| "units16 big [a] = None"
| "units16 big (a # b # r) = map_option (Cons (if big then a * 256 + b else b * 256 + a)) (units16 big r)"

fun join_surrogates :: "nat list \<Rightarrow> pystr" where
  "join_surrogates [] = []"
| "join_surrogates [u] = [u]"
| "join_surrogates (u # v # r) =
     (if 55296 \<le> u \<and> u \<le> 56319 \<and> 56320 \<le> v \<and> v \<le> 57343
      then (65536 + (u - 55296) * 1024 + (v - 56320)) # join_surrogates r
      else u # join_surrogates (v # r))"

fun units32 :: "bool \<Rightarrow> nat list \<Rightarrow> pystr option" where
  "units32 big [] = Some []"
| "units32 big (a # b # c # d # r) =
     (let u = (if big then ((a * 256 + b) * 256 + c) * 256 + d else ((d * 256 + c) * 256 + b) * 256 + a) in
      if u < 1114112 then map_option (Cons u) (units32 big r) else None)"
| "units32 big _ = None"

definition decode16 :: "bool \<Rightarrow> nat list \<Rightarrow> pystr option" where
  "decode16 big b = map_option join_surrogates (units16 big b)"

definition body_text :: "nat list \<Rightarrow> pystr option" where
  "body_text b =
     (if take 4 b = [0, 0, 254, 255] then units32 True (drop 4 b)
      else if take 4 b = [255, 254, 0, 0] then units32 False (drop 4 b)
      else if take 2 b = [254, 255] then decode16 True (drop 2 b)
      else if take 2 b = [255, 254] then decode16 False (drop 2 b)
      else if take 3 b = [239, 187, 191] then wide_decode (drop 3 b)
      else case b of
        a # c # d # e # _ \<Rightarrow>
          if a = 0 then (if c \<noteq> 0 then decode16 True b else units32 True b)
          else if c = 0 then (if d \<noteq> 0 \<or> e \<noteq> 0 then decode16 False b else units32 False b)
          else wide_decode b
      | [a, c] \<Rightarrow> if a = 0 then decode16 True b else if c = 0 then decode16 False b else wide_decode b
      | _ \<Rightarrow> wide_decode b)"

definition loads_bytes :: "nat \<Rightarrow> nat list \<Rightarrow> query_error + pyjson" where
  "loads_bytes recursion_limit body =
     (case body_text body of
        None \<Rightarrow> Inl PrometheusError
      | Some t \<Rightarrow>
          (case loads recursion_limit t of
             Inl RecursionError \<Rightarrow> Inl EscapedRecursionError
           | Inl _ \<Rightarrow> Inl PrometheusError
           | Inr v \<Rightarrow> Inr v))"

section \<open>Series names\<close>

text \<open>\<^verbatim>\<open>str(value)\<close>; \<open>nested\<close> is that of a list or an object.\<close>

fun py_str :: "(pyjson \<Rightarrow> pystr) \<Rightarrow> pyjson \<Rightarrow> pystr" where
  "py_str nested LNull = lit ''None''"
| "py_str nested (LBool b) = lit (if b then ''True'' else ''False'')"
| "py_str nested (LInt i) = dec_int i"
| "py_str nested (LFloat x) = float_repr x"
| "py_str nested (LStr s) = s"
| "py_str nested v = nested v"

definition label_text :: "pystr \<times> pystr \<Rightarrow> pystr" where
  "label_text p = fst p @ [61, 34] @ snd p @ [34]"

definition comma_join :: "pystr list \<Rightarrow> pystr" where
  "comma_join ps = (case ps of [] \<Rightarrow> [] | p # ps \<Rightarrow> p @ concat (map (Cons 44) ps))"

definition series_name :: "(pyjson \<Rightarrow> pystr) \<Rightarrow> (pystr \<times> pyjson) list \<Rightarrow> pystr" where
  "series_name nested metric =
     (let base = (case map_of metric (lit ''__name__'') of None \<Rightarrow> [] | Some v \<Rightarrow> py_str nested v);
          labels = sort (map (\<lambda>(k, v). (k, py_str nested v)) (filter (\<lambda>(k, _). k \<noteq> lit ''__name__'') metric))
      in if labels = [] then base else base @ [123] @ comma_join (map label_text labels) @ [125])"

section \<open>The range response\<close>

definition float_of_json :: "pyjson \<Rightarrow> query_error + f64" where
  "float_of_json v =
     (case v of
        LBool b \<Rightarrow> Inr (if b then float_one else fzero False)
      | LInt i \<Rightarrow> (case float_of_int i of None \<Rightarrow> Inl PrometheusError | Some x \<Rightarrow> Inr x)
      | LFloat x \<Rightarrow> Inr x
      | LStr t \<Rightarrow> (case py_float_str t of None \<Rightarrow> Inl PrometheusError | Some x \<Rightarrow> Inr x)
      | _ \<Rightarrow> Inl PrometheusError)"

text \<open>\<^verbatim>\<open>raw_ts, raw_value = sample\<close>: also a text of two characters or an object of two keys.\<close>

definition unpack_pair :: "pyjson \<Rightarrow> query_error + pyjson \<times> pyjson" where
  "unpack_pair sample =
     (case (case sample of
              LList vs \<Rightarrow> vs
            | LStr t \<Rightarrow> map (\<lambda>c. LStr [c]) t
            | LDict d \<Rightarrow> map (\<lambda>(k, _). LStr k) d
            | _ \<Rightarrow> []) of
        [a, b] \<Rightarrow> Inr (a, b)
      | _ \<Rightarrow> Inl PrometheusError)"

definition sample_instant :: "f64 \<Rightarrow> query_error + int" where
  "sample_instant ts = (case fromtimestamp ts of Inl _ \<Rightarrow> Inl PrometheusError | Inr t \<Rightarrow> Inr t)"

definition parse_sample :: "pyjson \<Rightarrow> query_error + prometheus_point" where
  "parse_sample sample =
     rbind (unpack_pair sample) (\<lambda>(raw_ts, raw_value).
     rbind (float_of_json raw_ts) (\<lambda>ts.
     rbind (sample_instant ts) (\<lambda>t.
     rbind (float_of_json raw_value) (\<lambda>v. Inr \<lparr>pp_at = t, pp_value = v\<rparr>))))"

definition parse_item ::
  "(pyjson \<Rightarrow> pystr) \<Rightarrow> prometheus_limits \<Rightarrow> pyjson \<Rightarrow> query_error + prometheus_series" where
  "parse_item nested l item =
     (case item of
        LDict d \<Rightarrow>
          (case (map_of d (lit ''metric''), map_of d (lit ''values'')) of
             (Some (LDict metric), Some (LList values)) \<Rightarrow>
               if max_points_per_series l < int (length values) then Inl PrometheusError
               else rbind (rmap parse_sample values) (\<lambda>points.
                 Inr \<lparr>ps_name = series_name nested metric, ps_points = points\<rparr>)
           | _ \<Rightarrow> Inl PrometheusError)
      | _ \<Rightarrow> Inl PrometheusError)"

definition result_items :: "pyjson \<Rightarrow> query_error + pyjson list" where
  "result_items document =
     (case document of
        LDict d \<Rightarrow>
          if map_of d (lit ''status'') \<noteq> Some (LStr (lit ''success'')) then Inl PrometheusError
          else (case map_of d (lit ''data'') of
                  Some (LDict data) \<Rightarrow>
                    (case map_of data (lit ''result'') of Some (LList r) \<Rightarrow> Inr r | _ \<Rightarrow> Inl PrometheusError)
                | _ \<Rightarrow> Inl PrometheusError)
      | _ \<Rightarrow> Inl PrometheusError)"

definition parse_range_response ::
  "(pyjson \<Rightarrow> pystr) \<Rightarrow> nat \<Rightarrow> nat list \<Rightarrow> prometheus_limits \<Rightarrow> query_error + prometheus_series list" where
  "parse_range_response nested recursion_limit body l =
     rbind (loads_bytes recursion_limit body) (\<lambda>document.
     rbind (result_items document) (\<lambda>r.
       if max_series l < int (length r) then Inl PrometheusError else rmap (parse_item nested l) r))"

section \<open>The query\<close>

definition url_safe :: "nat \<Rightarrow> bool" where
  "url_safe c \<longleftrightarrow> (48 \<le> c \<and> c \<le> 57) \<or> (65 \<le> c \<and> c \<le> 90) \<or> (97 \<le> c \<and> c \<le> 122) \<or> c \<in> {45, 46, 95, 126}"

definition upper_hex :: "nat \<Rightarrow> nat" where
  "upper_hex d = (if d < 10 then 48 + d else 55 + d)"

definition quote_byte :: "nat \<Rightarrow> pystr" where
  "quote_byte b = (if url_safe b then [b] else if b = 32 then [43] else [37, upper_hex (b div 16), upper_hex (b mod 16)])"

text \<open>\<^verbatim>\<open>quote_plus\<close>; \<^term>\<open>None\<close> is \<^verbatim>\<open>UnicodeEncodeError\<close>.\<close>

definition quote_plus :: "pystr \<Rightarrow> pystr option" where
  "quote_plus t = map_option (\<lambda>bs. concat (map quote_byte bs)) (utf8 t)"

definition instant_text :: "int \<Rightarrow> pystr" where
  "instant_text t = format_fixed 3 (int_ratio t 1000000)"

definition query_url :: "pystr \<Rightarrow> pystr \<Rightarrow> int \<Rightarrow> int \<Rightarrow> int \<Rightarrow> pystr option" where
  "query_url base_url query start finish step_seconds =
     map_option (\<lambda>q. base_url @ lit ''/api/v1/query_range?query='' @ q @ lit ''&start='' @ instant_text start @
         lit ''&end='' @ instant_text finish @ lit ''&step='' @ dec_int step_seconds @ [115])
       (quote_plus query)"

datatype fetch_outcome = FetchRaised | Fetched int "nat list"

record prometheus_client =
  cl_base_url :: pystr
  cl_limits :: prometheus_limits
  cl_bearer_token :: "pystr option"

definition rstrip_slash :: "pystr \<Rightarrow> pystr" where
  "rstrip_slash t = rev (dropWhile (\<lambda>c. c = 47) (rev t))"

definition make_client :: "pystr \<Rightarrow> prometheus_limits option \<Rightarrow> pystr option \<Rightarrow> prometheus_client" where
  "make_client base_url l bearer_token =
     \<lparr>cl_base_url = rstrip_slash base_url,
      cl_limits = (case l of None \<Rightarrow> default_prometheus_limits | Some l \<Rightarrow> l), cl_bearer_token = bearer_token\<rparr>"

definition query_headers :: "prometheus_client \<Rightarrow> (pystr \<times> pystr) list" where
  "query_headers c =
     (case cl_bearer_token c of
        None \<Rightarrow> []
      | Some t \<Rightarrow> if t = [] then [] else [(lit ''Authorization'', lit ''Bearer '' @ t)])"

text \<open>What the interpreter and the transport contribute: one outcome for each request in turn.\<close>

record prometheus_world =
  pw_nested :: "pyjson \<Rightarrow> pystr"
  pw_recursion_limit :: nat
  pw_fetch :: "nat \<Rightarrow> pystr \<Rightarrow> (pystr \<times> pystr) list \<Rightarrow> f64 \<Rightarrow> fetch_outcome"

definition query_range ::
  "prometheus_world \<Rightarrow> prometheus_client \<Rightarrow> nat \<Rightarrow> pystr \<Rightarrow> int \<Rightarrow> int \<Rightarrow> int \<Rightarrow> int
     \<Rightarrow> query_error + prometheus_series list" where
  "query_range w c i query start finish step_seconds deadline =
     (case query_url (cl_base_url c) query start finish step_seconds of
        None \<Rightarrow> Inl EscapedEncodeError
      | Some url \<Rightarrow>
          (case pw_fetch w i url (query_headers c) (duration_seconds deadline) of
             FetchRaised \<Rightarrow> Inl PrometheusError
           | Fetched status body \<Rightarrow>
               if \<not> (200 \<le> status \<and> status < 300) then Inl PrometheusError
               else if max_response_bytes (cl_limits c) < int (length body) then Inl PrometheusError
               else parse_range_response (pw_nested w) (pw_recursion_limit w) body (cl_limits c)))"

section \<open>Series to signals\<close>

definition signal_of_series :: "prometheus_series \<Rightarrow> prometheus_point list \<Rightarrow> query_error + metric_signal" where
  "signal_of_series one present =
     (case rbind (make_signal_key (PyStr (ps_name one))) (\<lambda>key.
           rbind (rmap (\<lambda>p. make_metric_point (utc (pp_at p)) (PyFloat (pp_value p))) present) (\<lambda>points.
           make_metric_signal key points)) of
        Inl _ \<Rightarrow> Inl PrometheusError
      | Inr sig \<Rightarrow> Inr sig)"

definition finite_points :: "prometheus_series \<Rightarrow> prometheus_point list" where
  "finite_points one = filter (\<lambda>p. isfinite (pp_value p)) (ps_points one)"

primrec signals_from :: "pystr set \<Rightarrow> prometheus_series list \<Rightarrow> query_error + metric_signal list" where
  "signals_from seen [] = Inr []"
| "signals_from seen (one # rest) =
     (let present = finite_points one in
      if present = [] then signals_from seen rest
      else if ps_name one \<in> seen then Inl PrometheusError
      else rbind (signal_of_series one present) (\<lambda>sig.
           rbind (signals_from (insert (ps_name one) seen) rest) (\<lambda>sigs. Inr (sig # sigs))))"

definition series_to_signals :: "prometheus_series list \<Rightarrow> query_error + metric_signal list" where
  "series_to_signals series = signals_from {} series"

section \<open>The telemetry source\<close>

record prometheus_source =
  src_client :: prometheus_client
  src_queries :: "pystr list"
  src_step_seconds :: int
  src_deadline :: int
  src_floor_policy :: scale_floor_policy

text \<open>\<^term>\<open>None\<close> is \<^verbatim>\<open>ValueError\<close>. The deadline is a number of microseconds.\<close>

definition make_prometheus_source ::
  "prometheus_client \<Rightarrow> pystr list \<Rightarrow> int \<Rightarrow> int \<Rightarrow> scale_floor_policy option \<Rightarrow> prometheus_source option" where
  "make_prometheus_source c queries step_seconds deadline floor_policy =
     (let selectors = map py_strip (filter (\<lambda>q. \<not> is_blank q) queries) in
      if selectors = [] then None
      else if step_seconds < 1 then None
      else if fle (duration_seconds deadline) (fzero False) then None
      else Some \<lparr>src_client = c, src_queries = selectors, src_step_seconds = step_seconds, src_deadline = deadline,
        src_floor_policy = (case floor_policy of None \<Rightarrow> default_scale_floor_policy | Some p \<Rightarrow> p)\<rparr>)"

datatype source_error = QueryFailed query_error | MappingFailed domain_error

definition query_step :: "query_error + 'a \<Rightarrow> source_error + 'a" where
  "query_step m = (case m of Inl e \<Rightarrow> Inl (QueryFailed e) | Inr a \<Rightarrow> Inr a)"

definition load_blocking ::
  "prometheus_world \<Rightarrow> prometheus_source \<Rightarrow> incident_window \<Rightarrow> source_error + signal_baseline_input list" where
  "load_blocking w src window =
     rbind (query_step (rmap (\<lambda>(i, q). query_range w (src_client src) i q (win_start window) (win_end window)
         (src_step_seconds src) (src_deadline src)) (enumerate 0 (src_queries src)))) (\<lambda>collected.
     rbind (query_step (series_to_signals (concat collected))) (\<lambda>sigs.
       case to_baseline_inputs sigs (Some (src_floor_policy src)) of
         Inl e \<Rightarrow> Inl (MappingFailed e)
       | Inr inputs \<Rightarrow> Inr inputs))"

text \<open>The source as the worker's port: tenant, incident and run do not select anything.\<close>

definition prometheus_load ::
  "prometheus_world \<Rightarrow> prometheus_source \<Rightarrow> tenant_id \<Rightarrow> incident_id \<Rightarrow> run_id \<Rightarrow> incident_window \<Rightarrow> telemetry_outcome" where
  "prometheus_load w src tenant incident run window =
     (case load_blocking w src window of
        Inr inputs \<Rightarrow> Loaded inputs
      | Inl (QueryFailed PrometheusError) \<Rightarrow> TelemetryMissing
      | Inl (MappingFailed _) \<Rightarrow> TelemetryMissing
      | Inl (QueryFailed _) \<Rightarrow> TelemetryCrashed)"

section \<open>Only gaps are dropped\<close>

definition point_of :: "prometheus_point \<Rightarrow> metric_point" where
  "point_of p = \<lparr>pt_observed_at = pp_at p, pt_value = pp_value p\<rparr>"

definition signal_of :: "prometheus_series \<Rightarrow> metric_signal" where
  "signal_of one = \<lparr>sig_key = SignalKey (ps_name one), sig_points = map point_of (finite_points one)\<rparr>"

text \<open>A series the domain can represent: a name, and samples in order inside the calendar.\<close>

definition representable :: "prometheus_series \<Rightarrow> bool" where
  "representable one \<longleftrightarrow> \<not> is_blank (ps_name one) \<and> list_all (\<lambda>p. in_calendar (pp_at p)) (finite_points one) \<and>
     sorted_wrt (<) (map pp_at (finite_points one))"

definition with_data :: "prometheus_series list \<Rightarrow> prometheus_series list" where
  "with_data series = filter (\<lambda>one. finite_points one \<noteq> []) series"

lemma rmap_points:
  assumes "list_all (\<lambda>p. isfinite (pp_value p)) ps"
  shows "rmap (\<lambda>p. make_metric_point (utc (pp_at p)) (PyFloat (pp_value p))) ps = Inr points \<longleftrightarrow>
    list_all (\<lambda>p. in_calendar (pp_at p)) ps \<and> points = map point_of ps"
  using assms
  by (induction ps arbitrary: points)
    (auto simp: make_metric_point_def utc_def rbind_eq_Inr point_of_def split: if_splits)

lemma signal_of_series_Inr:
  "signal_of_series one (finite_points one) = Inr sig \<longleftrightarrow> representable one \<and> sig = signal_of one"
proof -
  have "list_all (\<lambda>p. isfinite (pp_value p)) (finite_points one)"
    by (simp add: finite_points_def list_all_iff)
  note points = rmap_points [OF this]
  have ordered: "\<not> pairwise_any (\<lambda>a b. pt_observed_at a \<ge> pt_observed_at b) (map point_of ps) \<longleftrightarrow>
      sorted_wrt (<) (map pp_at ps)" for ps
    unfolding not_pairwise_any_sorted by (simp add: point_of_def comp_def)
  have made: "make_metric_signal key (map point_of ps) = Inr sig \<longleftrightarrow>
      sorted_wrt (<) (map pp_at ps) \<and> sig = \<lparr>sig_key = key, sig_points = map point_of ps\<rparr>" for key ps sig
    using ordered [of ps] by (auto simp: make_metric_signal_def split: if_splits)
  have "rbind (make_signal_key (PyStr (ps_name one))) (\<lambda>key.
      rbind (rmap (\<lambda>p. make_metric_point (utc (pp_at p)) (PyFloat (pp_value p))) (finite_points one)) (\<lambda>points.
      make_metric_signal key points)) = Inr sig \<longleftrightarrow> representable one \<and> sig = signal_of one"
    unfolding rbind_eq_Inr points
    by (auto simp: make_signal_key_def made representable_def signal_of_def)
  then show ?thesis
    by (auto simp: signal_of_series_def split: sum.splits)
qed

lemma signals_from_Inr:
  "signals_from seen series = Inr sigs \<longleftrightarrow> list_all representable (with_data series) \<and>
     distinct (map ps_name (with_data series)) \<and> ps_name ` set (with_data series) \<inter> seen = {} \<and>
     sigs = map signal_of (with_data series)"
proof (induction series arbitrary: seen sigs)
  case (Cons one rest)
  show ?case
  proof (cases "finite_points one = []")
    case True
    then show ?thesis using Cons.IH by (simp add: with_data_def)
  next
    case False
    then have "with_data (one # rest) = one # with_data rest" by (simp add: with_data_def)
    with False show ?thesis
      by (auto simp: rbind_eq_Inr signal_of_series_Inr Cons.IH)
  qed
qed (auto simp: with_data_def)

text \<open>
  C31. Only gaps are dropped: series become signals exactly when those with a finite sample have
  different, non-blank names and strictly ordered times; each such series is then one signal with
  all its finite samples, in order, and a series without any is dropped.
\<close>

theorem only_gaps_are_dropped:
  "series_to_signals series = Inr sigs \<longleftrightarrow> list_all representable (with_data series) \<and>
     distinct (map ps_name (with_data series)) \<and> sigs = map signal_of (with_data series)"
  by (simp add: series_to_signals_def signals_from_Inr)

section \<open>The source fails closed\<close>

text \<open>The answer to a request is a body within the size limit that nests beyond the interpreter's limit.\<close>

definition nests_too_deep :: "prometheus_world \<Rightarrow> prometheus_client \<Rightarrow> nat \<Rightarrow> pystr \<Rightarrow> int \<Rightarrow> bool" where
  "nests_too_deep w c i url deadline \<longleftrightarrow>
     (case pw_fetch w i url (query_headers c) (duration_seconds deadline) of
        FetchRaised \<Rightarrow> False
      | Fetched status body \<Rightarrow> int (length body) \<le> max_response_bytes (cl_limits c) \<and>
          (case body_text body of None \<Rightarrow> False | Some t \<Rightarrow> loads (pw_recursion_limit w) t = Inl RecursionError))"

text \<open>No failure but the typed one.\<close>

definition typed :: "query_error + 'a \<Rightarrow> bool" where
  "typed m \<longleftrightarrow> (case m of Inl e \<Rightarrow> e = PrometheusError | Inr _ \<Rightarrow> True)"

lemma typed_simps [simp]: "typed (Inr a)" "typed (Inl e) \<longleftrightarrow> e = PrometheusError"
  by (simp_all add: typed_def)

lemma typed_rbind: "typed m \<Longrightarrow> (\<And>a. m = Inr a \<Longrightarrow> typed (f a)) \<Longrightarrow> typed (rbind m f)"
  by (cases m) auto

lemma typed_rmap: "(\<And>x. x \<in> set xs \<Longrightarrow> typed (f x)) \<Longrightarrow> typed (rmap f xs)"
  by (induction xs) (auto intro!: typed_rbind)

lemma typed_sample: "typed (parse_sample v)"
proof -
  have "typed (unpack_pair v)" "typed (float_of_json u)" "typed (sample_instant t)" for u t
    by (auto simp: unpack_pair_def float_of_json_def sample_instant_def
        split: list.splits pyjson.splits option.splits sum.splits)
  then show ?thesis
    by (auto simp: parse_sample_def intro!: typed_rbind)
qed

lemma typed_item: "typed (parse_item nested l item)"
proof (cases item)
  case (LDict d)
  have t: "typed (rbind (rmap parse_sample vs) (\<lambda>points. Inr \<lparr>ps_name = n, ps_points = points\<rparr>))" for vs n
    by (intro typed_rbind typed_rmap typed_sample typed_simps)
  show ?thesis
    by (simp add: parse_item_def LDict t split: option.split pyjson.split)
qed (simp_all add: parse_item_def)

lemma typed_items: "typed (result_items document)"
  by (simp add: result_items_def split: pyjson.split option.split)

lemma typed_signals: "typed (signals_from seen series)"
proof (induction series arbitrary: seen)
  case (Cons one rest)
  have "typed (signal_of_series one ps)" for ps
    by (simp add: signal_of_series_def split: sum.split)
  with Cons show ?case by (auto simp: Let_def intro!: typed_rbind)
qed simp

lemma query_range_escapes:
  assumes "query_range w c i q a b st d = Inl e" "e \<noteq> PrometheusError"
  shows "quote_plus q = None \<or> (\<exists>url. nests_too_deep w c i url d)"
proof (cases "query_url (cl_base_url c) q a b st")
  case (Some url)
  with assms obtain status body where
    f: "pw_fetch w i url (query_headers c) (duration_seconds d) = Fetched status body"
    and body: "int (length body) \<le> max_response_bytes (cl_limits c)"
    "parse_range_response (pw_nested w) (pw_recursion_limit w) body (cl_limits c) = Inl e"
    by (auto simp: query_range_def not_less split: fetch_outcome.splits if_splits)
  have "\<not> typed (loads_bytes (pw_recursion_limit w) body)"
  proof
    assume "typed (loads_bytes (pw_recursion_limit w) body)"
    then have "typed (parse_range_response (pw_nested w) (pw_recursion_limit w) body (cl_limits c))"
      unfolding parse_range_response_def
      by (intro typed_rbind) (auto intro!: typed_items typed_rmap typed_item)
    with body(2) assms(2) show False by simp
  qed
  then have "case body_text body of None \<Rightarrow> False | Some t \<Rightarrow> loads (pw_recursion_limit w) t = Inl RecursionError"
    by (simp add: loads_bytes_def split: option.splits sum.splits loads_error.splits)
  with f body(1) have "nests_too_deep w c i url d" by (simp add: nests_too_deep_def)
  then show ?thesis by blast
next
  case None
  then show ?thesis by (simp add: query_url_def)
qed

lemma to_baseline_inputs_Inr:
  assumes "to_baseline_inputs sigs p = Inr inputs"
  shows "map in_signal inputs = sigs" "list_all valid_signal sigs \<Longrightarrow> list_all valid_input inputs"
proof -
  have "make_signal_baseline_input s v = Inr i \<Longrightarrow> in_signal i = s" for s v i
    by (auto simp: make_signal_baseline_input_def rbind_eq_Inr split: if_splits sum.splits)
  with assms show "map in_signal inputs = sigs"
    by (auto simp: to_baseline_inputs_def Let_def rmap_eq_Inr list_all2_conv_all_nth intro!: nth_equalityI)
  show "list_all valid_input inputs" if "list_all valid_signal sigs"
  proof -
    have "valid_input i" if "i \<in> set inputs" for i
    proof -
      from rmap_Inr_in [OF assms [unfolded to_baseline_inputs_def Let_def] that] obtain s v where
        "s \<in> set sigs" "make_signal_baseline_input s v = Inr i" by blast
      with \<open>list_all valid_signal sigs\<close> show ?thesis
        by (auto simp: list_all_iff intro: make_signal_baseline_input_valid)
    qed
    then show ?thesis by (simp add: list_all_iff)
  qed
qed

lemma signal_of_valid: "representable one \<Longrightarrow> valid_signal (signal_of one)"
  by (auto simp: representable_def signal_of_def valid_signal_def valid_point_def point_of_def finite_points_def
      list_all_iff comp_def)

text \<open>
  C32. The telemetry source fails closed: loaded telemetry is valid baseline input with different,
  non-blank keys, one input for each series with data of the answers to the configured selectors;
  every other answer makes the telemetry unavailable, and only a selector that cannot be encoded or
  a body nested beyond the interpreter's limit gets past the typed error.
\<close>

theorem telemetry_fails_closed:
  "case prometheus_load w src tenant incident run window of
     Loaded inputs \<Rightarrow> list_all valid_input inputs \<and> distinct (map (\<lambda>i. sig_key (in_signal i)) inputs) \<and>
       list_all (\<lambda>i. \<not> is_blank (signal_value (sig_key (in_signal i)))) inputs \<and>
       (\<exists>answers. list_all2 (\<lambda>(n, q) series. query_range w (src_client src) n q (win_start window) (win_end window)
           (src_step_seconds src) (src_deadline src) = Inr series) (enumerate 0 (src_queries src)) answers \<and>
         map in_signal inputs = map signal_of (with_data (concat answers)))
   | TelemetryMissing \<Rightarrow> load_blocking w src window \<notin> range Inr
   | TelemetryCrashed \<Rightarrow> (\<exists>q. q \<in> set (src_queries src) \<and> quote_plus q = None) \<or>
       (\<exists>n url. n < length (src_queries src) \<and> nests_too_deep w (src_client src) n url (src_deadline src))"
proof -
  let ?queries = "rmap (\<lambda>(i, q). query_range w (src_client src) i q (win_start window) (win_end window)
         (src_step_seconds src) (src_deadline src)) (enumerate 0 (src_queries src))"
  show ?thesis
  proof (cases "load_blocking w src window")
    case (Inr inputs)
    then obtain answers sigs where q: "?queries = Inr answers"
      and s: "series_to_signals (concat answers) = Inr sigs"
      and i: "to_baseline_inputs sigs (Some (src_floor_policy src)) = Inr inputs"
      by (auto simp: load_blocking_def query_step_def rbind_eq_Inr split: sum.splits)
    from s have sigs: "list_all representable (with_data (concat answers))"
      "distinct (map ps_name (with_data (concat answers)))" "sigs = map signal_of (with_data (concat answers))"
      by (simp_all add: series_to_signals_def signals_from_Inr)
    have "list_all valid_signal sigs"
      using sigs(1) by (auto simp: sigs(3) list_all_iff intro: signal_of_valid)
    with to_baseline_inputs_Inr [OF i] have in': "map in_signal inputs = sigs" "list_all valid_input inputs" by simp_all
    have keys: "map (\<lambda>i. sig_key (in_signal i)) inputs = map (SignalKey \<circ> ps_name) (with_data (concat answers))"
      using arg_cong [OF in'(1), of "map sig_key"] by (simp add: sigs(3) signal_of_def comp_def)
    then have "distinct (map (\<lambda>i. sig_key (in_signal i)) inputs)"
      using sigs(2) by (simp add: distinct_map inj_on_def)
    moreover have "list_all (\<lambda>i. \<not> is_blank (signal_value (sig_key (in_signal i)))) inputs"
    proof -
      have "list_all (\<lambda>k. \<not> is_blank (signal_value k)) (map (\<lambda>i. sig_key (in_signal i)) inputs)"
        unfolding keys using sigs(1) by (auto simp: list_all_iff representable_def)
      then show ?thesis by (simp add: list.pred_map comp_def)
    qed
    ultimately show ?thesis
      using Inr in' sigs(3) q by (auto simp: prometheus_load_def rmap_eq_Inr case_prod_unfold)
  next
    case (Inl e)
    show ?thesis
    proof (cases "e = QueryFailed PrometheusError \<or> (\<exists>d. e = MappingFailed d)")
      case True
      with Inl show ?thesis by (auto simp: prometheus_load_def)
    next
      case False
      then obtain x where x: "e = QueryFailed x" "x \<noteq> PrometheusError" by (cases e) auto
      have "series_to_signals ss \<noteq> Inl x" for ss
        using typed_signals [of "{}" ss] x(2) by (auto simp: series_to_signals_def)
      with Inl x have "?queries = Inl x"
        by (auto simp: load_blocking_def query_step_def rbind_eq_Inl split: sum.splits)
      then obtain n q where "(n, q) \<in> set (enumerate 0 (src_queries src))"
        "query_range w (src_client src) n q (win_start window) (win_end window) (src_step_seconds src) (src_deadline src) = Inl x"
        by (auto dest!: rmap_eq_Inl)
      moreover from this(1) have "n < length (src_queries src)" "q \<in> set (src_queries src)"
        by (auto simp: in_set_enumerate_eq)
      ultimately have "(\<exists>q. q \<in> set (src_queries src) \<and> quote_plus q = None) \<or>
          (\<exists>n url. n < length (src_queries src) \<and> nests_too_deep w (src_client src) n url (src_deadline src))"
        using query_range_escapes [OF _ x(2)] by blast
      then show ?thesis
        using Inl x by (cases x) (auto simp: prometheus_load_def)
    qed
  qed
qed

section \<open>Requests identify selectors\<close>

lemma upper_hex_inj: "upper_hex d = upper_hex e \<Longrightarrow> d = e"
  by (auto simp: upper_hex_def split: if_splits)

lemma not_url_safe [simp]: "\<not> url_safe 37" "\<not> url_safe 43" "\<not> url_safe 32"
  by (simp_all add: url_safe_def)

lemma quote_byte_prefix: "quote_byte b @ x = quote_byte c @ y \<Longrightarrow> b = c \<and> x = y"
proof -
  assume eq: "quote_byte b @ x = quote_byte c @ y"
  have digits: "b = c" if "upper_hex (b div 16) = upper_hex (c div 16)" "upper_hex (b mod 16) = upper_hex (c mod 16)"
    using that [THEN upper_hex_inj] by (metis div_mult_mod_eq)
  show ?thesis
    using eq digits by (cases "url_safe b"; cases "url_safe c"; cases "b = 32"; cases "c = 32") (auto simp: quote_byte_def)
qed

lemma quote_byte_no_ampersand: "38 \<notin> set (quote_byte b)" "quote_byte b \<noteq> []"
  by (auto simp: quote_byte_def url_safe_def upper_hex_def)

lemma quote_bytes_inj: "concat (map quote_byte bs) = concat (map quote_byte cs) \<Longrightarrow> bs = cs"
proof (induction bs arbitrary: cs)
  case Nil
  then show ?case by (cases cs) (auto simp: quote_byte_no_ampersand)
next
  case (Cons b bs)
  then obtain c cs' where cs: "cs = c # cs'" by (cases cs) (auto simp: quote_byte_no_ampersand)
  with Cons.prems quote_byte_prefix [of b "concat (map quote_byte bs)" c "concat (map quote_byte cs')"]
  show ?case using Cons.IH by (simp add: cs)
qed

lemma quote_plus_inj: "quote_plus s = Some q \<Longrightarrow> quote_plus t = Some q \<Longrightarrow> s = t"
  by (auto simp: quote_plus_def dest!: quote_bytes_inj intro: utf8_inj)

lemma quote_plus_no_ampersand: "quote_plus s = Some q \<Longrightarrow> 38 \<notin> set q"
  by (auto simp: quote_plus_def quote_byte_no_ampersand)

text \<open>
  Requests identify selectors: whatever the selectors and windows, two requests to one server
  have the same address only if their selectors are the same; a selector cannot add or change
  another parameter of the query.
\<close>

theorem requests_identify_selectors:
  assumes "query_url base q a b n = Some u" "query_url base q' a' b' n' = Some u"
  shows "q = q'"
proof -
  obtain x x' where x: "quote_plus q = Some x" "quote_plus q' = Some x'"
    and u: "x @ lit ''&start='' @ instant_text a @ lit ''&end='' @ instant_text b @ lit ''&step='' @ dec_int n @ [115] =
      x' @ lit ''&start='' @ instant_text a' @ lit ''&end='' @ instant_text b' @ lit ''&step='' @ dec_int n' @ [115]"
    using assms by (auto simp: query_url_def)
  have amp: "lit ''&start='' @ r = 38 # lit ''start='' @ r" for r
    by (simp add: lit_def)
  have cut: "takeWhile (\<lambda>c. c \<noteq> 38) (y @ 38 # r) = y" if "38 \<notin> set y" for y r :: pystr
    using that by (induction y) auto
  have "x = x'"
    using arg_cong [OF u, of "takeWhile (\<lambda>c. c \<noteq> 38)"] quote_plus_no_ampersand [OF x(1)] quote_plus_no_ampersand [OF x(2)]
    by (simp add: amp cut)
  with x show ?thesis using quote_plus_inj by blast
qed

theorem requests_identify_selectors_witness:
  "\<exists>u. query_url (lit ''http://p'') (lit ''up&end=0'') 0 1000000 30 = Some u \<and>
     query_url (lit ''http://p'') (lit ''up'') 0 1000000 30 \<noteq> Some u"
proof -
  obtain u where u: "query_url (lit ''http://p'') (lit ''up&end=0'') 0 1000000 30 = Some u"
    by (simp add: query_url_def quote_plus_def lit_def utf8_char_def)
  with requests_identify_selectors [OF u, of "lit ''up''" 0 1000000 30] show ?thesis by fastforce
qed

end
