(* ===== verification/Gemini_Client.thy ===== *)
theory Gemini_Client
  imports Llm_Parsing Metrics_Text
begin

text \<open>
  \<^verbatim>\<open>llm/gemini.py\<close>: the prompt, the bounded attempts, and the reading of an answer. The SDK is outside
  the model: what each attempt gives is an argument, and so are the iteration order of the frozen
  set of allowed signals and the \<^verbatim>\<open>str\<close> of a signal key, by which the prompt sorts them. An attempt
  that the caller's own deadline cancels ends the call as that deadline.
\<close>

record generate_response =
  gr_text :: "pystr option"
  gr_usage :: "(pystr \<times> pyval) list option"

datatype generation_outcome = Generated generate_response | AttemptTimedOut | AttemptRaised | AttemptCancelled

record gemini_world =
  gw_iterate :: "signal_key set \<Rightarrow> signal_key list"
  gw_str :: "signal_key \<Rightarrow> pystr"
  gw_generate :: "int \<Rightarrow> f64 \<Rightarrow> pystr \<Rightarrow> pystr \<Rightarrow> generation_outcome"

record gemini_client =
  gc_model :: pystr
  gc_deadline :: int
  gc_max_attempts :: int

text \<open>\<^term>\<open>None\<close> is \<^verbatim>\<open>ValueError\<close>. The deadline is a number of microseconds.\<close>

definition make_gemini_client :: "pystr \<Rightarrow> int \<Rightarrow> int \<Rightarrow> gemini_client option" where
  "make_gemini_client model deadline max_attempts =
     (if max_attempts < 1 then None
      else Some \<lparr>gc_model = model, gc_deadline = deadline, gc_max_attempts = max_attempts\<rparr>)"

section \<open>Reading an answer\<close>

text \<open>A boolean is an integer to \<^verbatim>\<open>isinstance\<close>.\<close>

definition token_count :: "(pystr \<times> pyval) list option \<Rightarrow> string \<Rightarrow> int option" where
  "token_count usage name =
     (case usage of
        None \<Rightarrow> None
      | Some attributes \<Rightarrow>
          (case map_of attributes (lit name) of
             Some (PyNum (PyInt i)) \<Rightarrow> Some i
           | Some (PyNum (PyBool b)) \<Rightarrow> Some (if b then 1 else 0)
           | _ \<Rightarrow> None))"

text \<open>\<^verbatim>\<open>str.splitlines()\<close>.\<close>

definition line_break :: "nat \<Rightarrow> bool" where
  "line_break c \<longleftrightarrow> (10 \<le> c \<and> c \<le> 13) \<or> (28 \<le> c \<and> c \<le> 30) \<or> c = 133 \<or> c = 8232 \<or> c = 8233"

function py_splitlines :: "pystr \<Rightarrow> pystr list" where
  "py_splitlines [] = []"
| "py_splitlines (c # s) =
     (if c = 13 \<and> take 1 s = [10] then [] # py_splitlines (drop 1 s)
      else if line_break c then [] # py_splitlines s
      else case py_splitlines s of [] \<Rightarrow> [[c]] | l # ls \<Rightarrow> (c # l) # ls)"
  by pat_completeness auto
termination by (relation "measure length") auto

definition code_fence :: pystr where
  "code_fence = [96, 96, 96]"

definition unwrap_json :: "pystr \<Rightarrow> pystr" where
  "unwrap_json text =
     (let stripped = py_strip text in
      if take 3 stripped \<noteq> code_fence then stripped
      else let lines = py_splitlines stripped;
               lines = (if lines \<noteq> [] \<and> take 3 (hd lines) = code_fence then tl lines else lines);
               lines = (if lines \<noteq> [] \<and> py_strip (last lines) = code_fence then butlast lines else lines)
           in py_strip (join_with [10] lines))"

section \<open>The prompt\<close>

definition prompt_lines :: "pystr list \<Rightarrow> pystr" where
  "prompt_lines ls = concat (map (\<lambda>l. l @ [10]) ls)"

definition build_prompt :: "gemini_world \<Rightarrow> hypothesis_request \<Rightarrow> pystr" where
  \<open>build_prompt w request =
     prompt_lines
       [lit ''You assist an incident investigation. Propose descriptive metric-shift hypotheses that can be verified against evidence.'',
        [],
        lit ''Return ONLY a single JSON object (no markdown fences, no prose) with exactly these fields:'',
        lit ''  "hypothesis_id": a short non-empty string,'',
        lit ''  "tenant_id": "'' @ tenant_value (rq_tenant request) @ lit ''",'',
        lit ''  "incident_id": "'' @ incident_value (rq_incident request) @ lit ''",'',
        lit ''  "run_id": "'' @ run_value (rq_run request) @ lit ''",'',
        lit ''  "semantics": "descriptive",'',
        lit ''  "composition": "any",'',
        lit ''  "predicates": a JSON list of 1 to 5 objects, each exactly {"predicate_id": "<unique non-empty string>", "signal_key": "<one allowed signal>", "expected_direction": "increase" or "decrease"}.'',
        [],
        lit ''Strict rules:'',
        lit ''- Copy tenant_id, incident_id and run_id EXACTLY as shown above.'',
        lit ''- "semantics" must be exactly "descriptive".'',
        lit ''- "composition" must be exactly "all" or "any".'',
        lit ''- "expected_direction" must be exactly "increase" or "decrease" (lower case).'',
        lit ''- Every signal_key MUST be copied verbatim from the allowed list below; use no other names.'',
        lit ''- Pick the few signals most likely to show the incident's metric shift.'',
        [],
        lit ''Allowed signal keys:'',
        join_with [10] (map (\<lambda>k. lit ''  - '' @ signal_value k)
          (sort_key (gw_str w) (gw_iterate w (rq_allowed_signals request))))]\<close>

section \<open>Attempts\<close>

datatype generate_failure = GenerateRaised llm_error | GenerateCancelled

function generate_from :: "(int \<Rightarrow> generation_outcome) \<Rightarrow> int \<Rightarrow> int \<Rightarrow> generate_failure + generate_response" where
  "generate_from attempts max_attempts attempt =
     (if max_attempts < attempt then Inl (GenerateRaised ProviderUnavailableError)
      else case attempts attempt of
        Generated r \<Rightarrow> Inr r
      | AttemptTimedOut \<Rightarrow> Inl (GenerateRaised ProviderTimeoutError)
      | AttemptCancelled \<Rightarrow> Inl GenerateCancelled
      | AttemptRaised \<Rightarrow>
          if max_attempts \<le> attempt then Inl (GenerateRaised ProviderUnavailableError)
          else generate_from attempts max_attempts (attempt + 1))"
  by pat_completeness auto
termination by (relation "measure (\<lambda>(_, m, a). nat (m + 1 - a))") auto

declare generate_from.simps [simp del]

definition generate :: "gemini_world \<Rightarrow> gemini_client \<Rightarrow> pystr \<Rightarrow> generate_failure + generate_response" where
  "generate w c prompt =
     generate_from (\<lambda>n. gw_generate w n (duration_seconds (gc_deadline c)) (gc_model c) prompt) (gc_max_attempts c) 1"

definition proposal_of_response :: "gemini_client \<Rightarrow> generate_response \<Rightarrow> llm_outcome" where
  "proposal_of_response c response =
     (case gr_text response of
        None \<Rightarrow> LlmRaised ProviderResponseError
      | Some t \<Rightarrow>
          if is_blank t then LlmRaised ProviderResponseError
          else Proposed \<lparr>lp_raw_json = unwrap_json t, lp_model = Some (gc_model c),
            lp_prompt_tokens = token_count (gr_usage response) ''prompt_token_count'',
            lp_completion_tokens = token_count (gr_usage response) ''candidates_token_count''\<rparr>)"

definition gemini_propose :: "gemini_world \<Rightarrow> gemini_client \<Rightarrow> hypothesis_request \<Rightarrow> llm_outcome" where
  "gemini_propose w c request =
     (case generate w c (build_prompt w request) of
        Inl (GenerateRaised e) \<Rightarrow> LlmRaised e
      | Inl GenerateCancelled \<Rightarrow> DeadlineExceeded
      | Inr response \<Rightarrow> proposal_of_response c response)"

section \<open>Outcomes\<close>

text \<open>The first attempt from one on, up to the last one, that does not fail.\<close>

definition decisive :: "(int \<Rightarrow> generation_outcome) \<Rightarrow> int \<Rightarrow> int \<Rightarrow> int \<Rightarrow> bool" where
  "decisive attempts a m k \<longleftrightarrow> a \<le> k \<and> k \<le> m \<and> (\<forall>i. a \<le> i \<and> i < k \<longrightarrow> attempts i = AttemptRaised) \<and>
     attempts k \<noteq> AttemptRaised"

fun decided :: "generation_outcome \<Rightarrow> generate_failure + generate_response" where
  "decided (Generated r) = Inr r"
| "decided AttemptTimedOut = Inl (GenerateRaised ProviderTimeoutError)"
| "decided AttemptCancelled = Inl GenerateCancelled"
| "decided AttemptRaised = Inl (GenerateRaised ProviderUnavailableError)"

lemma decisive_step:
  assumes "attempts a = AttemptRaised" shows "decisive attempts (a + 1) m k \<Longrightarrow> decisive attempts a m k"
    and "decisive attempts a m k \<Longrightarrow> decisive attempts (a + 1) m k \<and> a < m"
proof -
  show "decisive attempts (a + 1) m k \<Longrightarrow> decisive attempts a m k"
    using assms by (auto simp: decisive_def) (metis add1_zle_eq order_le_less)
  assume d: "decisive attempts a m k"
  then have "k \<noteq> a" using assms by (auto simp: decisive_def)
  with d show "decisive attempts (a + 1) m k \<and> a < m" by (auto simp: decisive_def)
qed

lemma generate_from_decisive: "decisive attempts a m k \<Longrightarrow> generate_from attempts m a = decided (attempts k)"
proof (induction attempts m a rule: generate_from.induct)
  case (1 attempts m a)
  show ?case
  proof (cases "attempts a = AttemptRaised")
    case True
    from decisive_step(2) [where attempts = attempts, OF True 1(2)] 1(1) True show ?thesis
      by (subst generate_from.simps) simp
  next
    case False
    with 1(2) have "k = a" "a \<le> m" by (auto simp: decisive_def)
    with False show ?thesis
      by (subst generate_from.simps) (auto split: generation_outcome.split)
  qed
qed

lemma generate_from_failed:
  "(\<forall>i. a \<le> i \<and> i \<le> m \<longrightarrow> attempts i = AttemptRaised) \<Longrightarrow>
     generate_from attempts m a = Inl (GenerateRaised ProviderUnavailableError)"
proof (induction attempts m a rule: generate_from.induct)
  case (1 attempts m a)
  then show ?case by (subst generate_from.simps) auto
qed

lemma decisive_exists:
  "\<exists>i. a \<le> i \<and> i \<le> m \<and> attempts i \<noteq> AttemptRaised \<Longrightarrow> \<exists>k. decisive attempts a m k"
proof (induction attempts m a rule: generate_from.induct)
  case (1 attempts m a)
  then obtain i where i: "a \<le> i" "i \<le> m" "attempts i \<noteq> AttemptRaised" by blast
  show ?case
  proof (cases "attempts a = AttemptRaised")
    case True
    then have "a + 1 \<le> i" using i by (metis add1_zle_eq order_le_less)
    with 1(1) i True show ?thesis using decisive_step(1) [where attempts = attempts, OF True] by (metis leD order_trans add1_zle_eq)
  next
    case False
    then show ?thesis using i by (intro exI [of _ a]) (auto simp: decisive_def)
  qed
qed

text \<open>
  C37. The provider's answer is the first attempt that does not fail: with at least one attempt
  allowed, only failures other than a timeout are tried again, at most as often as allowed; the
  first answer, timeout or cancellation decides the call, and attempts that all fail make the
  provider unavailable. An answer without text is a response error, any other the proposal.
\<close>

theorem provider_outcomes_are_exact:
  assumes "1 \<le> gc_max_attempts c"
    and "attempts = (\<lambda>n. gw_generate w n (duration_seconds (gc_deadline c)) (gc_model c) (build_prompt w request))"
  shows "if \<forall>i. 1 \<le> i \<and> i \<le> gc_max_attempts c \<longrightarrow> attempts i = AttemptRaised
    then gemini_propose w c request = LlmRaised ProviderUnavailableError
    else \<exists>k. 1 \<le> k \<and> k \<le> gc_max_attempts c \<and> (\<forall>i. 1 \<le> i \<and> i < k \<longrightarrow> attempts i = AttemptRaised) \<and>
      (case attempts k of
         Generated r \<Rightarrow> gemini_propose w c request =
           (case gr_text r of
              None \<Rightarrow> LlmRaised ProviderResponseError
            | Some t \<Rightarrow> if is_blank t then LlmRaised ProviderResponseError
                else Proposed \<lparr>lp_raw_json = unwrap_json t, lp_model = Some (gc_model c),
                  lp_prompt_tokens = token_count (gr_usage r) ''prompt_token_count'',
                  lp_completion_tokens = token_count (gr_usage r) ''candidates_token_count''\<rparr>)
       | AttemptTimedOut \<Rightarrow> gemini_propose w c request = LlmRaised ProviderTimeoutError
       | AttemptCancelled \<Rightarrow> gemini_propose w c request = DeadlineExceeded
       | AttemptRaised \<Rightarrow> False)"
proof -
  have run: "gemini_propose w c request = (case generate_from attempts (gc_max_attempts c) 1 of
      Inl (GenerateRaised e) \<Rightarrow> LlmRaised e | Inl GenerateCancelled \<Rightarrow> DeadlineExceeded
    | Inr response \<Rightarrow> proposal_of_response c response)"
    by (simp add: gemini_propose_def generate_def assms(2))
  show ?thesis
  proof (cases "\<forall>i. 1 \<le> i \<and> i \<le> gc_max_attempts c \<longrightarrow> attempts i = AttemptRaised")
    case True
    then show ?thesis by (simp add: run generate_from_failed)
  next
    case False
    then obtain k where k: "decisive attempts 1 (gc_max_attempts c) k"
      using decisive_exists [of 1 "gc_max_attempts c" attempts] by blast
    have "case attempts k of
         Generated r \<Rightarrow> gemini_propose w c request = proposal_of_response c r
       | AttemptTimedOut \<Rightarrow> gemini_propose w c request = LlmRaised ProviderTimeoutError
       | AttemptCancelled \<Rightarrow> gemini_propose w c request = DeadlineExceeded
       | AttemptRaised \<Rightarrow> False"
      using k by (simp add: run generate_from_decisive [OF k] decisive_def split: generation_outcome.split)
    with k False show ?thesis
      unfolding proposal_of_response_def by (simp only: if_False) (auto simp: decisive_def)
  qed
qed

section \<open>Fences\<close>

lemma py_strip_inner:
  assumes "is_blank a" "is_blank b" "m \<noteq> []" "\<not> py_isspace (hd m)" "\<not> py_isspace (last m)"
  shows "py_strip (a @ m @ b) = m"
proof -
  have drop: "dropWhile py_isspace (xs @ ys) = ys" if "is_blank xs" "ys \<noteq> []" "\<not> py_isspace (hd ys)" for xs ys
    using that by (cases ys) (simp_all add: is_blank_iff dropWhile_append1 dropWhile_append2)
  have "dropWhile py_isspace (a @ m @ b) = m @ b"
    by (rule drop) (use assms in \<open>auto simp: hd_append2\<close>)
  moreover have "dropWhile py_isspace (rev b @ rev m) = rev m"
    by (rule drop) (use assms in \<open>auto simp: is_blank_iff hd_rev\<close>)
  ultimately show ?thesis by (simp add: py_strip_def)
qed

lemma splitlines_line:
  "list_all (\<lambda>c. \<not> line_break c) l \<Longrightarrow> py_splitlines (l @ 10 # r) = l # py_splitlines r"
  by (induction l) (auto simp: line_break_def)

lemma splitlines_last: "list_all (\<lambda>c. \<not> line_break c) l \<Longrightarrow> l \<noteq> [] \<Longrightarrow> py_splitlines l = [l]"
proof (induction l)
  case (Cons c l)
  then show ?case by (cases l) (auto simp: line_break_def)
qed simp

lemma unwrap_bare:
  assumes "is_blank a" "is_blank b" "m \<noteq> []" "\<not> py_isspace (hd m)" "\<not> py_isspace (last m)" "hd m \<noteq> 96"
  shows "unwrap_json (a @ m @ b) = m"
  using py_strip_inner [OF assms(1-5)] assms(3,6) by (cases m) (auto simp: unwrap_json_def code_fence_def)

lemma unwrap_fenced:
  assumes "is_blank a" "is_blank b" "list_all (\<lambda>c. \<not> line_break c) tag" "list_all (\<lambda>c. \<not> line_break c) m"
    and "m \<noteq> []" "\<not> py_isspace (hd m)" "\<not> py_isspace (last m)"
  shows "unwrap_json (a @ (code_fence @ tag @ [10] @ m @ [10] @ code_fence) @ b) = m"
proof -
  let ?f = "code_fence @ tag @ [10] @ m @ [10] @ code_fence"
  have strip: "py_strip (a @ ?f @ b) = ?f" "py_strip m = m" "py_strip code_fence = code_fence"
    using py_strip_inner [OF assms(1,2), of ?f] py_strip_inner [of "[]" "[]" m] assms(5-7)
    by (simp_all add: code_fence_def py_isspace_def py_strip_def)
  have "list_all (\<lambda>c. \<not> line_break c) (code_fence @ tag)" "list_all (\<lambda>c. \<not> line_break c) code_fence"
    using assms(3) by (simp_all add: code_fence_def line_break_def)
  then have "py_splitlines ?f = [code_fence @ tag, m, code_fence]"
    using splitlines_line [of "code_fence @ tag" "m @ 10 # code_fence"] splitlines_line [OF assms(4), of code_fence]
      splitlines_last [of code_fence]
    by (simp add: code_fence_def)
  moreover have "take 3 ?f = code_fence" "take 3 (code_fence @ tag) = code_fence"
    by (simp_all add: code_fence_def)
  ultimately show ?thesis unfolding unwrap_json_def strip(1) Let_def by (simp add: strip(2,3))
qed

lemma dumps_proposal_ends:
  "dumps (proposal_object h) \<noteq> []" "hd (dumps (proposal_object h)) = 123" "last (dumps (proposal_object h)) = 125"
  by (simp_all add: dumps_def canon_proposal_object) (simp_all add: proposal_object_def)

text \<open>
  C38. A fenced answer is the answer: the JSON of a valid document over allowed signals is accepted
  as that document whether the model sends it bare or, unless it holds a line separator of
  Unicode, inside a code fence with any tag, and with white space around it.
\<close>

theorem fenced_proposals_are_read:
  assumes "valid_hypothesis h" "list_all (\<lambda>p. mp_signal_key p \<in> allowed) (hd_predicates h)"
    and "length (dumps (proposal_object h)) \<le> MAX_PROPOSAL_CHARS" "3 \<le> limit"
    and "is_blank before" "is_blank after" "list_all (\<lambda>c. \<not> line_break c) tag"
  shows "parse_metric_hypothesis limit (unwrap_json (before @ dumps (proposal_object h) @ after)) allowed = Inr h \<and>
    (list_all (\<lambda>c. \<not> line_break c) (dumps (proposal_object h)) \<longrightarrow>
     parse_metric_hypothesis limit (unwrap_json (before @ (code_fence @ tag @ [10] @ dumps (proposal_object h) @ [10] @ code_fence)
       @ after)) allowed = Inr h)"
proof -
  let ?m = "dumps (proposal_object h)"
  have ends: "?m \<noteq> []" "\<not> py_isspace (hd ?m)" "\<not> py_isspace (last ?m)" "hd ?m \<noteq> 96"
    by (simp_all add: dumps_proposal_ends py_isspace_def)
  show ?thesis
    using proposal_reads [OF assms(1-4)] unwrap_bare [OF assms(5,6) ends]
      unwrap_fenced [OF assms(5-7) _ ends(1-3)] by simp
qed

theorem fenced_proposals_are_read_witness:
  "\<exists>text. text = [10] @ (code_fence @ lit ''json'' @ [10] @ dumps (proposal_object (sample_hypothesis DESCRIPTIVE)) @ [10] @ code_fence) @ [10] \<and>
     parse_metric_hypothesis 100 (unwrap_json text) {SignalKey (lit ''latency'')} = Inr (sample_hypothesis DESCRIPTIVE)"
proof -
  have valid: "valid_hypothesis (sample_hypothesis DESCRIPTIVE)"
    using sample_hypothesis_valid by (simp add: validate_hypothesis_Inr)
  have allowed: "list_all (\<lambda>p. mp_signal_key p \<in> {SignalKey (lit ''latency'')}) (hd_predicates (sample_hypothesis DESCRIPTIVE))"
    by (simp add: sample_hypothesis_def sample_predicate_def)
  have breaks: "list_all (\<lambda>c. \<not> line_break c) (dumps (proposal_object (sample_hypothesis DESCRIPTIVE)))"
    by (simp add: dumps_def canon_proposal_object)
      (simp add: proposal_object_def proposal_predicate_def sample_hypothesis_def sample_predicate_def
        sample_tenant_def sample_incident_def sample_run_def enc_str_def lit_def esc_char_def line_break_def)
  have "is_blank [10]" "list_all (\<lambda>c. \<not> line_break c) (lit ''json'')"
    by (simp_all add: is_blank_iff py_isspace_def lit_def line_break_def)
  with fenced_proposals_are_read [OF valid allowed sample_proposal_size, of 100 "[10]" "[10]" "lit ''json''"] breaks
  show ?thesis by simp
qed

definition sample_gemini :: gemini_client where
  "sample_gemini = \<lparr>gc_model = lit ''m'', gc_deadline = 30000000, gc_max_attempts = 2\<rparr>"

definition sample_gemini_world :: gemini_world where
  "sample_gemini_world = \<lparr>gw_iterate = (\<lambda>_. []), gw_str = signal_value,
     gw_generate = (\<lambda>n _ _ _. if n = 1 then AttemptRaised else Generated \<lparr>gr_text = Some [123, 125], gr_usage = None\<rparr>)\<rparr>"

definition sample_request :: hypothesis_request where
  "sample_request = \<lparr>rq_tenant = sample_tenant, rq_incident = sample_incident, rq_run = sample_run,
     rq_allowed_signals = {SignalKey (lit ''latency'')}\<rparr>"

theorem provider_outcomes_are_exact_witness:
  "\<exists>t. gemini_propose sample_gemini_world sample_gemini sample_request =
     Proposed \<lparr>lp_raw_json = t, lp_model = Some (lit ''m''), lp_prompt_tokens = None, lp_completion_tokens = None\<rparr>"
proof -
  let ?attempt = "\<lambda>n. gw_generate sample_gemini_world n (duration_seconds (gc_deadline sample_gemini)) (gc_model sample_gemini)
      (build_prompt sample_gemini_world sample_request)"
  have a: "?attempt n = (if n = 1 then AttemptRaised else Generated \<lparr>gr_text = Some [123, 125], gr_usage = None\<rparr>)" for n
    by (simp add: sample_gemini_world_def)
  have c: "gc_max_attempts sample_gemini = 2" "gc_model sample_gemini = lit ''m''" "1 \<le> gc_max_attempts sample_gemini"
    by (simp_all add: sample_gemini_def)
  have second: "\<not> (\<forall>i. 1 \<le> i \<and> i \<le> gc_max_attempts sample_gemini \<longrightarrow> ?attempt i = AttemptRaised)"
    using a [of 2] unfolding c(1) by (auto intro!: exI [of _ 2])
  have "\<not> is_blank [123, 125]" by (simp add: is_blank_iff py_isspace_def)
  with provider_outcomes_are_exact [OF c(3) refl, of sample_gemini_world sample_request] second show ?thesis
    unfolding a by (auto simp: c token_count_def split: if_splits)
qed

end
