(* ===== verification/Smoke_Client.thy ===== *)
theory Smoke_Client
  imports Llm_Parsing Rcaeval_Adapter
begin

text \<open>
  \<^verbatim>\<open>runtime/demo_llm.py\<close>: the labelled client without a model, which proposes an increase of the first
  allowed signal. Its text is that of \<^verbatim>\<open>json.dumps\<close> as it is by default: spaces after commas and
  colons, and escapes for everything outside ASCII.
\<close>

section \<open>The text of a proposal\<close>

definition ascii_str :: "pystr \<Rightarrow> pystr" where
  "ascii_str s = 34 # concat (map (\<lambda>c. concat (map ascii_char (esc_char c))) s) @ [34]"

fun comma_space :: "pystr list \<Rightarrow> pystr" where
  "comma_space [] = []"
| "comma_space [p] = p"
| "comma_space (p # q # ps) = p @ [44, 32] @ comma_space (q # ps)"

definition array_text :: "pystr list \<Rightarrow> pystr" where
  "array_text ps = 91 # comma_space ps @ [93]"

definition object_text :: "(pystr \<times> pystr) list \<Rightarrow> pystr" where
  "object_text ms = 123 # comma_space (map (\<lambda>(k, t). ascii_str k @ [58, 32] @ t) ms) @ [125]"

definition first_signal_text :: "hypothesis_request \<Rightarrow> pystr" where
  "first_signal_text request =
     (let signals = sorted_list_of_set (signal_value ` rq_allowed_signals request);
          predicates = (case signals of
            [] \<Rightarrow> []
          | s # _ \<Rightarrow> [object_text [(lit ''predicate_id'', ascii_str (lit ''p1'')), (lit ''signal_key'', ascii_str s),
                       (lit ''expected_direction'', ascii_str (lit ''increase''))]])
      in object_text
           [(lit ''hypothesis_id'', ascii_str (lit ''smoke-h1'')),
            (lit ''tenant_id'', ascii_str (tenant_value (rq_tenant request))),
            (lit ''incident_id'', ascii_str (incident_value (rq_incident request))),
            (lit ''run_id'', ascii_str (run_value (rq_run request))),
            (lit ''semantics'', ascii_str (lit ''descriptive'')), (lit ''composition'', ascii_str (lit ''any'')),
            (lit ''predicates'', array_text predicates)])"

definition first_signal_propose :: "hypothesis_request \<Rightarrow> llm_outcome" where
  "first_signal_propose request = Proposed \<lparr>lp_raw_json = first_signal_text request, lp_model = Some (lit ''smoke:first-signal''),
     lp_prompt_tokens = None, lp_completion_tokens = None\<rparr>"

section \<open>The text is read back\<close>

text \<open>Text without surrogates, as every text that was decoded from UTF-8 is.\<close>

definition plain_text :: "pystr \<Rightarrow> bool" where
  "plain_text s \<longleftrightarrow> list_all (\<lambda>c. c < 1114112 \<and> \<not> (55296 \<le> c \<and> c < 57344)) s"

lemma hex4_fixed: "c < 65536 \<Longrightarrow> hex4 (hex_fixed 4 c @ r) = Some c"
proof -
  assume c: "c < 65536"
  define c1 where "c1 = c div 16"
  define c2 where "c2 = c1 div 16"
  define c3 where "c3 = c2 div 16"
  have d: "c3 < 16" using c by (simp add: c3_def c2_def c1_def)
  have "c3 * 16 + c2 mod 16 = c2" "c2 * 16 + c1 mod 16 = c1" "c1 * 16 + c mod 16 = c"
    unfolding c3_def c2_def c1_def by (rule div_mult_mod_eq)+
  moreover have "hex_fixed 4 c = [hex_digit c3, hex_digit (c2 mod 16), hex_digit (c1 mod 16), hex_digit (c mod 16)]"
  proof -
    have "hex_fixed (Suc (Suc (Suc (Suc 0)))) c =
        [hex_digit (c3 mod 16), hex_digit (c2 mod 16), hex_digit (c1 mod 16), hex_digit (c mod 16)]"
      by (simp only: hex_fixed.simps c3_def c2_def c1_def append.simps)
    moreover have "Suc (Suc (Suc (Suc 0))) = 4" by simp
    ultimately show ?thesis using d by simp
  qed
  ultimately show ?thesis using d by simp
qed

lemma drop_hex_fixed: "drop 4 (hex_fixed 4 c @ x) = x" "drop 10 (hex_fixed 4 c @ 92 # 117 # hex_fixed 4 e @ x) = x"
proof -
  show "drop 4 (hex_fixed 4 c @ x) = x" by simp
  have "length (hex_fixed 4 c @ 92 # 117 # hex_fixed 4 e) = 10" by simp
  then have "drop 10 ((hex_fixed 4 c @ 92 # 117 # hex_fixed 4 e) @ x) = x"
    by (metis append_eq_conv_conj)
  then show "drop 10 (hex_fixed 4 c @ 92 # 117 # hex_fixed 4 e @ x) = x" by simp
qed

lemma scan_hex_escape:
  assumes "c < 65536" "\<not> (55296 \<le> c \<and> c < 57344)"
  shows "scan_string (hex_escape c @ x) = rbind (scan_string x) (\<lambda>(t, q). Inr (c # t, q))"
  using assms by (auto simp: hex_escape_def hex4_fixed drop_hex_fixed)

lemma scan_pair_escape:
  assumes "65536 \<le> c" "c < 1114112"
  shows "scan_string (hex_escape (55296 + (c - 65536) div 1024) @ hex_escape (56320 + (c - 65536) mod 1024) @ x) =
    rbind (scan_string x) (\<lambda>(t, q). Inr (c # t, q))"
proof -
  define h where "h = 55296 + (c - 65536) div 1024"
  define l where "l = 56320 + (c - 65536) mod 1024"
  have h: "h < 65536" "55296 \<le> h" "h \<le> 56319" and l: "l < 65536" "56320 \<le> l" "l \<le> 57343"
    using assms by (auto simp: h_def l_def)
  have "low_surrogate (92 # 117 # hex_fixed 4 l @ x) = Some l"
    using l by (simp add: low_surrogate_def hex4_fixed)
  moreover have "65536 + (h - 55296) * 1024 + (l - 56320) = c"
    using assms by (simp add: h_def l_def)
  ultimately show ?thesis
    unfolding h_def [symmetric] l_def [symmetric]
    using h by (simp add: hex_escape_def hex4_fixed drop_hex_fixed)
qed

lemma ascii_chars_id: "list_all (\<lambda>e. e < 127) s \<Longrightarrow> concat (map ascii_char s) = s"
  by (induction s) (auto simp: ascii_char_def)

lemma scan_ascii_char:
  assumes "c < 1114112" "\<not> (55296 \<le> c \<and> c < 57344)"
  shows "scan_string (concat (map ascii_char (esc_char c)) @ x) = rbind (scan_string x) (\<lambda>(t, q). Inr (c # t, q))"
proof (cases "c < 127")
  case True
  have "list_all (\<lambda>e. e < 127) (esc_char c)"
    using True by (auto simp: esc_char_def hex_digit_def)
  then have "concat (map ascii_char (esc_char c)) = esc_char c" by (rule ascii_chars_id)
  then show ?thesis using scan_string_esc_char [of c x] by simp
next
  case False
  then have "concat (map ascii_char (esc_char c)) = ascii_char c" by (simp add: esc_char_def)
  then show ?thesis
    using False assms scan_hex_escape [of c x] scan_pair_escape [of c x] by (simp add: ascii_char_def)
qed

lemma scan_ascii_str: "plain_text s \<Longrightarrow> scan_string (tl (ascii_str s) @ r) = Inr (s, r)"
  unfolding ascii_str_def list.sel by (induction s) (auto simp: plain_text_def scan_ascii_char)

text \<open>A text that reads as a value wherever a value may end.\<close>

definition reads :: "nat \<Rightarrow> pystr \<Rightarrow> pyjson \<Rightarrow> bool" where
  "reads d t v \<longleftrightarrow> t \<noteq> [] \<and> \<not> is_ws (hd t) \<and> hd t \<noteq> 93 \<and> (\<forall>r. stops r \<longrightarrow> scan_value d (t @ r) = Inr (v, r))"

lemma skip_ws_text: "t \<noteq> [] \<Longrightarrow> \<not> is_ws (hd t) \<Longrightarrow> skip_ws (t @ r) = t @ r"
  by (cases t) (simp_all add: skip_ws_def)

lemma skip_ws_blank: "skip_ws (32 # r) = skip_ws r"
  by (simp add: skip_ws_def is_ws_def)

lemma after_comma:
  "items_after d v (44 # 32 # x) = rbind (scan_items d (skip_ws x)) (\<lambda>(vs, q). Inr (v # vs, q))"
  "pairs_after d k v (44 # 32 # x) = rbind (scan_pairs d (skip_ws x)) (\<lambda>(ps, q). Inr ((k, v) # ps, q))"
  by (simp_all add: items_after_def pairs_after_def skip_ws_blank)

lemma comma_space_hd: "t \<noteq> [] \<Longrightarrow> comma_space (t # ts) \<noteq> [] \<and> hd (comma_space (t # ts)) = hd t"
  by (cases ts) auto

lemma reads_str: "plain_text s \<Longrightarrow> reads d (ascii_str s) (LStr s)"
  using scan_ascii_str by (simp add: reads_def ascii_str_def is_ws_def)

lemma reads_items:
  assumes "list_all2 (reads d) (t # ts) (v # vs)"
  shows "scan_items d (comma_space (t # ts) @ 93 # r) = Inr (v # vs, r)"
  using assms
proof (induction ts arbitrary: t v vs)
  case Nil
  then have "scan_value d (t @ 93 # r) = Inr (v, 93 # r)" "vs = []" by (auto simp: reads_def stops_def)
  from scan_items_after [OF this(1)] this(2) show ?case by (simp add: items_after_def)
next
  case (Cons u ts)
  then obtain w ws where vs: "vs = w # ws" by (cases vs) auto
  let ?rest = "comma_space (u # ts) @ 93 # r"
  have "scan_value d (t @ [44, 32] @ ?rest) = Inr (v, [44, 32] @ ?rest)"
    using Cons.prems by (auto simp: reads_def stops_def)
  from scan_items_after [OF this] have after: "scan_items d (comma_space (t # u # ts) @ 93 # r) = items_after d v ([44, 32] @ ?rest)"
    by simp
  have "skip_ws ?rest = ?rest"
  proof -
    have u: "u \<noteq> []" "\<not> is_ws (hd u)" using Cons.prems by (auto simp: reads_def vs)
    show ?thesis using comma_space_hd [OF u(1), of ts] u(2) by (intro skip_ws_text) auto
  qed
  moreover have "scan_items d ?rest = Inr (w # ws, r)"
    using Cons.IH [of u w ws] Cons.prems by (simp add: vs)
  ultimately have "items_after d v (44 # 32 # ?rest) = Inr (v # w # ws, r)"
    unfolding after_comma by (simp only: rbind_simps prod.case)
  then show ?case unfolding after vs by simp
qed

definition member_text :: "pystr \<times> pystr \<Rightarrow> pystr" where
  "member_text m = ascii_str (fst m) @ [58, 32] @ snd m"

lemma reads_member:
  assumes "plain_text k" "reads d t v" "stops r"
  shows "scan_pairs d (member_text (k, t) @ r) = pairs_after d k v r"
proof -
  have "skip_ws (32 # t @ r) = t @ r"
    using assms(2) by (simp add: skip_ws_blank skip_ws_text reads_def)
  moreover have "scan_value d (t @ r) = Inr (v, r)" using assms(2,3) by (simp add: reads_def)
  moreover have "scan_string (concat (map (\<lambda>c. concat (map ascii_char (esc_char c))) k) @ 34 # 58 # 32 # t @ r) = Inr (k, 58 # 32 # t @ r)"
    using scan_ascii_str [OF assms(1), of "58 # 32 # t @ r"] by (simp add: ascii_str_def)
  ultimately show ?thesis
    by (simp add: member_text_def ascii_str_def pairs_after_def scan_pairs.simps)
qed

lemma reads_pairs:
  assumes "list_all2 (\<lambda>m v. plain_text (fst m) \<and> reads d (snd m) v) (m # ms) (v # vs)"
  shows "scan_pairs d (comma_space (map member_text (m # ms)) @ 125 # r) = Inr (zip (map fst (m # ms)) (v # vs), r)"
  using assms
proof (induction ms arbitrary: m v vs)
  case Nil
  then have "vs = []" "plain_text (fst m)" "reads d (snd m) v" by auto
  then show ?case
    using reads_member [of "fst m" d "snd m" v "125 # r"] by (simp add: stops_def pairs_after_def)
next
  case (Cons n ms)
  then obtain w ws where vs: "vs = w # ws" by (cases vs) auto
  let ?rest = "comma_space (map member_text (n # ms)) @ 125 # r"
  have "scan_pairs d (comma_space (map member_text (m # n # ms)) @ 125 # r) = pairs_after d (fst m) v (44 # 32 # ?rest)"
    using reads_member [of "fst m" d "snd m" v "44 # 32 # ?rest"] Cons.prems by (simp add: stops_def)
  moreover have "skip_ws ?rest = ?rest"
    using comma_space_hd [of "member_text n" "map member_text ms"]
    by (intro skip_ws_text) (auto simp: member_text_def ascii_str_def is_ws_def)
  moreover have "scan_pairs d ?rest = Inr (zip (map fst (n # ms)) (w # ws), r)"
    using Cons.IH [of n w ws] Cons.prems by (simp add: vs)
  ultimately show ?case
    by (simp only: after_comma rbind_simps prod.case vs list.map zip_Cons_Cons)
qed

lemma reads_array: "list_all2 (reads d) (t # ts) (v # vs) \<Longrightarrow> reads (Suc d) (array_text (t # ts)) (LList (v # vs))"
  unfolding reads_def [of "Suc d"]
proof (intro conjI allI impI)
  assume a: "list_all2 (reads d) (t # ts) (v # vs)"
  fix r assume "stops r"
  have h: "comma_space (t # ts) \<noteq> []" "hd (comma_space (t # ts)) = hd t" "\<not> is_ws (hd t)" "hd t \<noteq> 93"
    using a comma_space_hd [of t ts] by (auto simp: reads_def)
  then have "skip_ws (comma_space (t # ts) @ 93 # r) = comma_space (t # ts) @ 93 # r"
    by (intro skip_ws_text) auto
  moreover have "take 1 (comma_space (t # ts) @ 93 # r) \<noteq> [93]"
    using h by (cases "comma_space (t # ts)") auto
  ultimately show "scan_value (Suc d) (array_text (t # ts) @ r) = Inr (LList (v # vs), r)"
    using reads_items [OF a, of r] by (simp add: array_text_def del: comma_space.simps)
qed (simp_all add: array_text_def is_ws_def)

lemma reads_object:
  assumes "list_all2 (\<lambda>m v. plain_text (fst m) \<and> reads d (snd m) v) (m # ms) (v # vs)" "distinct (map fst (m # ms))"
  shows "reads (Suc d) (object_text (m # ms)) (LDict (zip (map fst (m # ms)) (v # vs)))"
  unfolding reads_def
proof (intro conjI allI impI)
  fix r assume "stops r"
  let ?t = "comma_space (map member_text (m # ms))"
  have h: "?t \<noteq> []" "hd ?t = 34"
    using comma_space_hd [of "member_text m" "map member_text ms"] by (simp_all add: member_text_def ascii_str_def)
  then have "skip_ws (?t @ 125 # r) = ?t @ 125 # r" by (intro skip_ws_text) auto
  moreover have "take 1 (?t @ 125 # r) \<noteq> [125]" using h by (cases ?t) auto
  moreover have "dict_of (zip (map fst (m # ms)) (v # vs)) = zip (map fst (m # ms)) (v # vs)"
    using assms list_all2_lengthD [OF assms(1)] by (intro dict_of_distinct) simp
  moreover have "object_text (m # ms) = 123 # ?t @ [125]"
  proof -
    have "(\<lambda>(k, t). ascii_str k @ [58, 32] @ t) = member_text" by (auto simp: fun_eq_iff member_text_def)
    then show ?thesis by (simp only: object_text_def)
  qed
  ultimately show "scan_value (Suc d) (object_text (m # ms) @ r) = Inr (LDict (zip (map fst (m # ms)) (v # vs)), r)"
    using reads_pairs [OF assms(1), of r] by (simp del: comma_space.simps list.map)
qed (simp_all add: object_text_def is_ws_def)

section \<open>The proposal is accepted\<close>

text \<open>The document the smoke client proposes on a signal.\<close>

definition smoke_document :: "hypothesis_request \<Rightarrow> pystr \<Rightarrow> hypothesis_document" where
  "smoke_document request s = \<lparr>hd_hypothesis_id = lit ''smoke-h1'', hd_tenant_id = rq_tenant request,
     hd_incident_id = rq_incident request, hd_run_id = rq_run request, hd_semantics = DESCRIPTIVE, hd_composition = COMPOSE_ANY,
     hd_predicates = [\<lparr>mp_predicate_id = lit ''p1'', mp_signal_key = SignalKey s, mp_expected_direction = EXPECT_INCREASE\<rparr>]\<rparr>"

lemma plain_lit: "plain_text (lit s)"
  by (auto simp: plain_text_def lit_def list_all_iff of_char_def)

lemma reads_first_signal:
  assumes "finite (rq_allowed_signals request)" "rq_allowed_signals request \<noteq> {}"
    and "list_all plain_text [tenant_value (rq_tenant request), incident_value (rq_incident request), run_value (rq_run request), s]"
    and s: "s = Min (signal_value ` rq_allowed_signals request)"
  shows "\<exists>members. reads (Suc (Suc (Suc d))) (first_signal_text request) (LDict members) \<and>
    describes_document members (smoke_document request s)"
proof -
  let ?key = "[(lit ''predicate_id'', ascii_str (lit ''p1'')), (lit ''signal_key'', ascii_str s),
      (lit ''expected_direction'', ascii_str (lit ''increase''))]"
  let ?pred = "LDict [(lit ''predicate_id'', LStr (lit ''p1'')), (lit ''signal_key'', LStr s),
      (lit ''expected_direction'', LStr (lit ''increase''))]"
  have first: "\<exists>rest. sorted_list_of_set (signal_value ` rq_allowed_signals request) = s # rest"
    using assms(1,2) s by (subst sorted_list_of_set_nonempty) auto
  have plain: "plain_text s" "plain_text (tenant_value (rq_tenant request))" "plain_text (incident_value (rq_incident request))"
    "plain_text (run_value (rq_run request))"
    using assms(3) by simp_all
  have pred: "reads (Suc d) (object_text ?key) ?pred"
    using reads_object [where d = d and m = "(lit ''predicate_id'', ascii_str (lit ''p1''))" and v = "LStr (lit ''p1'')"
        and ms = "[(lit ''signal_key'', ascii_str s), (lit ''expected_direction'', ascii_str (lit ''increase''))]"
        and vs = "[LStr s, LStr (lit ''increase'')]"]
    by (simp add: plain plain_lit reads_str)
  have preds: "reads (Suc (Suc d)) (array_text [object_text ?key]) (LList [?pred])"
    by (rule reads_array) (simp add: pred)
  let ?members = "[(lit ''hypothesis_id'', LStr (lit ''smoke-h1'')), (lit ''tenant_id'', LStr (tenant_value (rq_tenant request))),
      (lit ''incident_id'', LStr (incident_value (rq_incident request))), (lit ''run_id'', LStr (run_value (rq_run request))),
      (lit ''semantics'', LStr (lit ''descriptive'')), (lit ''composition'', LStr (lit ''any'')), (lit ''predicates'', LList [?pred])]"
  have "reads (Suc (Suc (Suc d))) (first_signal_text request) (LDict ?members)"
    using reads_object [where d = "Suc (Suc d)" and m = "(lit ''hypothesis_id'', ascii_str (lit ''smoke-h1''))"
        and v = "LStr (lit ''smoke-h1'')" and ms = "[(lit ''tenant_id'', ascii_str (tenant_value (rq_tenant request))),
          (lit ''incident_id'', ascii_str (incident_value (rq_incident request))), (lit ''run_id'', ascii_str (run_value (rq_run request))),
          (lit ''semantics'', ascii_str (lit ''descriptive'')), (lit ''composition'', ascii_str (lit ''any'')),
          (lit ''predicates'', array_text [object_text ?key])]" and vs = "map snd (tl ?members)"]
      preds first
    by (auto simp: first_signal_text_def plain plain_lit reads_str)
  moreover have "describes_document ?members (smoke_document request s)"
    by (simp add: describes_document_def smoke_document_def describes_predicate_def)
  ultimately show ?thesis by blast
qed

text \<open>
  The smoke client is understood: for every request with allowed signals, whatever characters
  its identifiers and signals hold, the client's proposal passes the parser for untrusted text and
  is the document that expects an increase of the first allowed signal.
\<close>

theorem smoke_proposal_is_accepted:
  assumes "finite (rq_allowed_signals request)" "rq_allowed_signals request \<noteq> {}"
    and "s = Min (signal_value ` rq_allowed_signals request)"
    and "list_all (\<lambda>t. plain_text t \<and> \<not> is_blank t)
      [tenant_value (rq_tenant request), incident_value (rq_incident request), run_value (rq_run request), s]"
    and "length (first_signal_text request) \<le> MAX_PROPOSAL_CHARS" "3 \<le> limit"
  shows "\<exists>p. first_signal_propose request = Proposed p \<and>
    parse_metric_hypothesis limit (lp_raw_json p) (rq_allowed_signals request) = Inr (smoke_document request s)"
proof -
  have "limit = Suc (Suc (Suc (limit - 3)))" using assms(6) by simp
  then obtain d where d: "limit = Suc (Suc (Suc d))" by blast
  have "list_all plain_text [tenant_value (rq_tenant request), incident_value (rq_incident request), run_value (rq_run request), s]"
    using assms(4) by (simp add: list_all_iff)
  from reads_first_signal [OF assms(1,2) this assms(3), of d] obtain members where
    r: "reads limit (first_signal_text request) (LDict members)" and m: "describes_document members (smoke_document request s)"
    unfolding d by blast
  have start: "\<exists>rest. first_signal_text request = 123 # rest"
    by (simp add: first_signal_text_def object_text_def Let_def)
  then have "loads limit (first_signal_text request) = Inr (LDict members)"
    using r by (auto simp: loads_def reads_def stops_def dest!: spec [of _ "[]"]) (simp_all add: skip_ws_def)
  moreover have "\<not> is_blank (first_signal_text request)"
    using start by (auto simp: is_blank_Cons py_isspace_def)
  moreover have "valid_hypothesis (smoke_document request s)"
    using assms(4) by (simp add: valid_hypothesis_def smoke_document_def MAX_PREDICATES_def)
      (simp add: is_blank_iff lit_def py_isspace_def)
  moreover have "SignalKey s \<in> rq_allowed_signals request"
  proof -
    have "s \<in> signal_value ` rq_allowed_signals request"
      using assms(1,2,3) by (simp add: Min_in)
    then show ?thesis by auto
  qed
  then have "list_all (\<lambda>p. mp_signal_key p \<in> rq_allowed_signals request) (hd_predicates (smoke_document request s))"
    by (simp add: smoke_document_def)
  ultimately show ?thesis
    using m assms(5) by (auto simp: first_signal_propose_def parse_Inr)
qed

definition smoke_request :: hypothesis_request where
  "smoke_request = \<lparr>rq_tenant = sample_tenant, rq_incident = sample_incident, rq_run = sample_run,
     rq_allowed_signals = {SignalKey (lit ''latency''), SignalKey [233, 128512]}\<rparr>"

theorem smoke_proposal_is_accepted_witness:
  "\<exists>p. first_signal_propose smoke_request = Proposed p \<and>
     parse_metric_hypothesis 100 (lp_raw_json p) (rq_allowed_signals smoke_request) = Inr (smoke_document smoke_request (lit ''latency''))"
proof (rule smoke_proposal_is_accepted)
  have min: "Min {lit ''latency'', [233, 128512]} = lit ''latency''"
    by (simp add: lit_def)
  then show "lit ''latency'' = Min (signal_value ` rq_allowed_signals smoke_request)"
    by (simp add: smoke_request_def)
  have sorted: "sorted_list_of_set {lit ''latency'', [233, 128512]} = [lit ''latency'', [233, 128512]]"
    by (simp add: lit_def)
  show "length (first_signal_text smoke_request) \<le> MAX_PROPOSAL_CHARS"
    by (simp add: first_signal_text_def smoke_request_def sorted)
      (simp add: object_text_def array_text_def ascii_str_def lit_def esc_char_def ascii_char_def MAX_PROPOSAL_CHARS_def
        sample_tenant_def sample_incident_def sample_run_def)
qed (simp_all add: smoke_request_def plain_lit sample_tenant_def sample_incident_def sample_run_def,
    simp_all add: plain_text_def is_blank_iff lit_def py_isspace_def)

end
