(* ===== verification/Server.thy ===== *)
theory Server
  imports Runtime_Config Demo_Telemetry Prometheus Gemini_Client Smoke_Client
begin

text \<open>
  \<^verbatim>\<open>runtime/server.py\<close>: the components a configuration selects, the worker loop, and the running
  process: requests and worker iterations over one store, one after the other, as the lock of the
  store and the single event loop order them. The file system behind a path, the drawn case
  identifiers and the interpreter's limits are arguments; the PostgreSQL store and the construction
  of the SDK client are outside the model.
\<close>

section \<open>Durations\<close>

text \<open>
  \<^verbatim>\<open>timedelta(seconds=x)\<close> in microseconds: the whole seconds exactly, the fraction as a rounded product,
  their sum rounded to even. \<^term>\<open>None\<close> is \<^verbatim>\<open>OverflowError\<close> (\<^verbatim>\<open>ValueError\<close> for a NaN).
\<close>

definition timedelta_us :: "f64 \<Rightarrow> int option" where
  "timedelta_us x =
     (if \<not> isfinite x then None
      else let v = fval x;
               whole = (if v < 0 then - \<lfloor>- v\<rfloor> else \<lfloor>v\<rfloor>);
               part = v - of_int whole;
               us = rnd_even (of_int (whole * 1000000) + fval (fround (part < 0) (\<bar>part\<bar> * 1000000)));
               days = us div 86400000000
           in if \<bar>days\<bar> \<le> 999999999 then Some us else None)"

section \<open>Composition\<close>

datatype startup_error =
    AssertionFailed
  | IndexFailed index_error
  | DeadlineOverflow
  | SourceRejected
  | ClientRejected
  | TokensRejected domain_error
  | PolicyRejected domain_error
  | WorkerRejected metric_error

datatype store_choice = MemoryStore | PostgresStore pystr

datatype llm_choice = SmokeLlm | GeminiDeveloper pystr gemini_client | GeminiVertex pystr pystr gemini_client

datatype telemetry_choice = NoTelemetry | RcaevalTelemetry rcaeval_source | PrometheusTelemetry prometheus_source

record startup_world =
  sw_split_dir :: "pystr \<Rightarrow> split_root"
  sw_case_ids :: "nat \<Rightarrow> case_id"
  sw_recursion_limit :: nat

definition required :: "startup_error \<Rightarrow> 'a option \<Rightarrow> startup_error + 'a" where
  "required e v = (case v of None \<Rightarrow> Inl e | Some a \<Rightarrow> Inr a)"

definition build_uow_factory :: "app_config \<Rightarrow> startup_error + store_choice" where
  "build_uow_factory c =
     (if ac_persistence c = lit ''postgres''
      then rbind (required AssertionFailed (ac_database_url c)) (\<lambda>u. Inr (PostgresStore u))
      else Inr MemoryStore)"

text \<open>The defaults of the client: thirty seconds and two attempts.\<close>

definition build_llm_client :: "app_config \<Rightarrow> startup_error + llm_choice" where
  "build_llm_client c =
     (if ac_llm_provider c = lit ''developer'' then
        rbind (required AssertionFailed (ac_gemini_api_key c)) (\<lambda>key.
        rbind (required ClientRejected (make_gemini_client (ac_gemini_model c) 30000000 2)) (\<lambda>client.
          Inr (GeminiDeveloper key client)))
      else if ac_llm_provider c = lit ''vertex'' then
        rbind (required AssertionFailed (ac_gemini_project c)) (\<lambda>project.
        rbind (required ClientRejected (make_gemini_client (ac_gemini_model c) 30000000 2)) (\<lambda>client.
          Inr (GeminiVertex project (ac_gemini_location c) client)))
      else Inr SmokeLlm)"

definition build_telemetry :: "startup_world \<Rightarrow> app_config \<Rightarrow> startup_error + telemetry_choice" where
  "build_telemetry w c =
     (if ac_telemetry c = lit ''rcaeval'' then
        rbind (required AssertionFailed (ac_re2_root c)) (\<lambda>path.
          case make_rcaeval_source (sw_split_dir w path) (ac_re2_split c) None None (sw_case_ids w) of
            Inl e \<Rightarrow> Inl (IndexFailed e)
          | Inr src \<Rightarrow> Inr (RcaevalTelemetry src))
      else if ac_telemetry c = lit ''prometheus'' then
        rbind (required AssertionFailed (ac_prom_url c)) (\<lambda>url.
        rbind (required DeadlineOverflow (timedelta_us (ac_prom_timeout_seconds c))) (\<lambda>deadline.
        rbind (required SourceRejected (make_prometheus_source (make_client url None (ac_prom_bearer_token c))
            (ac_prom_queries c) (ac_prom_step_seconds c) deadline None)) (\<lambda>src.
          Inr (PrometheusTelemetry src))))
      else Inr NoTelemetry)"

definition WORKER_ID :: pystr where
  "WORKER_ID = lit ''inproc-worker''"

definition worker_policy :: "app_config \<Rightarrow> startup_error + baseline_policy" where
  "worker_policy c =
     (case ac_baseline_minimum_score c of
        None \<Rightarrow> Inr DEFAULT_BASELINE_POLICY
      | Some x \<Rightarrow>
          (case make_baseline_policy (PyNum (PyInt (bp_minimum_points_per_window DEFAULT_BASELINE_POLICY)))
              (PyNum (PyFloat x)) (PyNum (PyFloat (bp_minimum_margin DEFAULT_BASELINE_POLICY)))
              (PyNum (PyFloat (bp_relative_scale_floor DEFAULT_BASELINE_POLICY))) of
             Inl e \<Rightarrow> Inl (PolicyRejected e)
           | Inr p \<Rightarrow> Inr p))"

record server_components =
  sc_api :: api
  sc_worker :: "(worker \<times> llm_choice) option"
  sc_store :: store_choice
  sc_telemetry :: telemetry_choice
  sc_metrics :: registry

definition build_worker :: "app_config \<Rightarrow> startup_error + (worker \<times> llm_choice) option \<times> registry" where
  "build_worker c =
     (if \<not> ac_worker_enabled c then Inr (None, empty_registry)
      else
        rbind (worker_policy c) (\<lambda>policy.
        rbind (build_llm_client c) (\<lambda>llm.
          case make_worker \<lparr>wk_worker_id = WORKER_ID, wk_lease = 30000000, wk_max_attempts = 3, wk_policy = policy\<rparr>
              empty_registry of
            Inl e \<Rightarrow> Inl (WorkerRejected e)
          | Inr (wk, g) \<Rightarrow> Inr (Some (wk, llm), g))))"

definition build_components :: "startup_world \<Rightarrow> app_config \<Rightarrow> startup_error + server_components" where
  "build_components w c =
     rbind (build_uow_factory c) (\<lambda>store.
     rbind (build_telemetry w c) (\<lambda>telemetry.
     rbind (case token_registry_from_mapping (ac_tokens c) of Inl e \<Rightarrow> Inl (TokensRejected e) | Inr t \<Rightarrow> Inr t) (\<lambda>tokens.
     rbind (build_worker c) (\<lambda>(wk, g).
       Inr \<lparr>sc_api = \<lparr>api_tokens = tokens, api_max_attempts = DEFAULT_MAX_ATTEMPTS,
                     api_recursion_limit = sw_recursion_limit w\<rparr>,
            sc_worker = wk, sc_store = store, sc_telemetry = telemetry, sc_metrics = g\<rparr>))))"

text \<open>The selected sources as the worker's ports.\<close>

definition telemetry_port ::
  "prometheus_world \<Rightarrow> telemetry_choice \<Rightarrow> tenant_id \<Rightarrow> incident_id \<Rightarrow> run_id \<Rightarrow> incident_window \<Rightarrow> telemetry_outcome" where
  "telemetry_port w t =
     (case t of
        NoTelemetry \<Rightarrow> telemetry_load []
      | RcaevalTelemetry src \<Rightarrow> rcaeval_load src
      | PrometheusTelemetry src \<Rightarrow> prometheus_load w src)"

definition llm_port :: "gemini_world \<Rightarrow> llm_choice \<Rightarrow> hypothesis_request \<Rightarrow> llm_outcome" where
  "llm_port w l =
     (case l of
        SmokeLlm \<Rightarrow> first_signal_propose
      | GeminiDeveloper _ client \<Rightarrow> gemini_propose w client
      | GeminiVertex _ _ client \<Rightarrow> gemini_propose w client)"

section \<open>The running process\<close>

text \<open>One iteration of the worker loop: the new state, and whether the loop sleeps after it.\<close>

definition loop_iteration ::
  "worker \<Rightarrow> ports \<Rightarrow> run_readings \<Rightarrow> tables \<times> registry \<Rightarrow> bool \<times> tables \<times> registry" where
  "loop_iteration wk pt rr st =
     (case run_once wk pt rr (snd st) (fst st) of
        (Inl _, s, g) \<Rightarrow> (True, s, g)
      | (Inr did_work, s, g) \<Rightarrow> (\<not> did_work, s, g))"

text \<open>The loop over the iterations before the stop event is set.\<close>

fun run_worker_loop ::
  "worker \<Rightarrow> (ports \<times> run_readings) list \<Rightarrow> tables \<times> registry \<Rightarrow> bool list \<times> tables \<times> registry" where
  "run_worker_loop wk [] st = ([], st)"
| "run_worker_loop wk ((pt, rr) # es) st =
     (case loop_iteration wk pt rr st of
        (slept, st1) \<Rightarrow> (case run_worker_loop wk es st1 of (sleeps, st2) \<Rightarrow> (slept # sleeps, st2)))"

text \<open>What the outside does: a request, or the answers and readings of a worker iteration.\<close>

datatype server_event = HttpRequest request | WorkerIteration ports run_readings

fun server_step :: "server_components \<Rightarrow> server_event \<Rightarrow> tables \<times> registry \<Rightarrow> tables \<times> registry" where
  "server_step sc (HttpRequest r) (s, g) = (snd (handle (sc_api sc) g r s), g)"
| "server_step sc (WorkerIteration pt rr) (s, g) =
     (case sc_worker sc of None \<Rightarrow> (s, g) | Some (wk, _) \<Rightarrow> snd (loop_iteration wk pt rr (s, g)))"

text \<open>Fresh identifiers, and a clock within the calendar.\<close>

fun event_ok :: "server_components \<Rightarrow> server_event \<Rightarrow> tables \<Rightarrow> bool" where
  "event_ok sc (HttpRequest r) s \<longleftrightarrow> fresh_request r s"
| "event_ok sc (WorkerIteration pt rr) s \<longleftrightarrow>
     (case sc_worker sc of None \<Rightarrow> True | Some (wk, _) \<Rightarrow> in_calendar (rr_claim_now rr + wk_lease wk))"

text \<open>
  The states a service reaches. Every store choice runs over the in-memory tables: that the
  PostgreSQL store answers like them is outside the model.
\<close>

inductive served :: "server_components \<Rightarrow> tables \<times> registry \<Rightarrow> bool" for sc where
  start: "served sc (empty_store, sc_metrics sc)"
| step: "served sc (s, g) \<Longrightarrow> event_ok sc e s \<Longrightarrow> served sc (server_step sc e (s, g))"

text \<open>The entry point: a refused configuration is exit code 2, with its message on standard error.\<close>

datatype server_start = ExitCode nat pystr | StartupRaised startup_error | ServesApp server_components

definition server_main :: "startup_world \<Rightarrow> environment \<Rightarrow> server_start" where
  "server_main w env =
     (case from_env env of
        Inl (ConfigError message) \<Rightarrow> ExitCode 2 (lit ''configuration error: '' @ message)
      | Inr c \<Rightarrow> (case build_components w c of Inl e \<Rightarrow> StartupRaised e | Inr sc \<Rightarrow> ServesApp sc))"

section \<open>Starting up\<close>

lemma duration_positive:
  assumes "us < 10 ^ 20"
  shows "flt (fzero False) (duration_seconds us) \<longleftrightarrow> 0 < us"
proof
  assume pos: "flt (fzero False) (duration_seconds us)"
  then have v: "0 < fval (fround (us < 0) (\<bar>of_int us\<bar> / 1000000))"
    by (simp add: flt_def duration_seconds_def int_ratio_def)
  then have "\<not> us < 0" by (rule fval_fround_sign(1))
  moreover have "us \<noteq> 0" using v by (auto simp: fround_fulp)
  ultimately show "0 < us" by simp
next
  assume us: "0 < us"
  let ?x = "F64 False 1003 0"
  have x: "fmag ?x = 1 / 1048576"
    by (simp add: fmag_def fsig_def fexpo_def power_int_def power_one_over)
  have "isfinite ?x" by (simp add: isfinite_def)
  then have "fmag (fround False (fmag ?x)) = fmag ?x" by simp
  moreover have "fmag (fround False (fmag ?x)) \<le> fmag (fround False (of_int us / 1000000))"
  proof (rule fround_mono)
    have "(1 :: rat) \<le> of_int us" using us by simp
    then show "fmag ?x \<le> of_int us / 1000000" unfolding x by simp
    have "(of_int us :: rat) \<le> of_int (10 ^ 20)" using assms by (subst of_int_le_iff) simp
    then show "of_int us / 1000000 \<le> max_finite" by (simp add: power_int_def)
  qed simp
  ultimately have "0 < fmag (fround False (of_int us / 1000000))" using x by simp
  then show "flt (fzero False) (duration_seconds us)"
    using us by (simp add: flt_def duration_seconds_def int_ratio_def fval_def)
qed

lemma timedelta_us_less: "timedelta_us x = Some us \<Longrightarrow> us < 10 ^ 20"
proof -
  assume "timedelta_us x = Some us"
  then have "us div 86400000000 \<le> 999999999"
    by (auto simp: timedelta_us_def Let_def split: if_splits)
  then show ?thesis by simp
qed

lemma rbind_map_snd: "rbind m f = (case rbind m g of Inl e \<Rightarrow> Inl e | Inr (_, b) \<Rightarrow> Inr (a, b))"
  if "\<And>x. f x = (case g x of Inl e \<Rightarrow> Inl e | Inr (_, b) \<Rightarrow> Inr (a, b))"
  using that by (cases m) simp_all

lemma make_worker_sample:
  assumes "\<not> is_blank (wk_worker_id wk)"
  shows "make_worker wk g = (case make_worker sample_worker g of Inl e \<Rightarrow> Inl e | Inr (_, g') \<Rightarrow> Inr (wk, g'))"
proof -
  have b: "\<not> is_blank (wk_worker_id sample_worker)"
    by (simp add: sample_worker_def is_blank_iff lit_def py_isspace_def)
  show ?thesis
    unfolding make_worker_def if_not_P [OF assms] if_not_P [OF b]
    by (rule rbind_map_snd, clarsimp split del: if_split)+
qed

lemma server_worker_starts:
  assumes "wk_worker_id wk = WORKER_ID"
  shows "\<exists>g. make_worker wk empty_registry = Inr (wk, g)"
proof -
  have "\<not> is_blank (wk_worker_id wk)" by (simp add: assms WORKER_ID_def is_blank_iff lit_def py_isspace_def)
  with make_worker_sample [OF this, of empty_registry] sample_worker_starts show ?thesis by auto
qed

lemma policy_starts:
  assumes "case ac_baseline_minimum_score c of None \<Rightarrow> True | Some x \<Rightarrow> isfinite x \<and> fle (fzero False) x"
  shows "\<exists>p. worker_policy c = Inr p \<and> valid_policy p \<and>
    bp_minimum_score p = (case ac_baseline_minimum_score c of None \<Rightarrow> bp_minimum_score DEFAULT_BASELINE_POLICY | Some x \<Rightarrow> x)"
proof -
  have n: "nonneg_finite (fzero False)" "nonneg_finite float_one"
    by (simp_all add: nonneg_finite_def fle_def isnan_def isfinite_def fval_def fzero_def float_one_def)
  have v: "valid_policy DEFAULT_BASELINE_POLICY" by (simp add: valid_policy_def DEFAULT_BASELINE_POLICY_def n)
  show ?thesis
  proof (cases "ac_baseline_minimum_score c")
    case None
    then show ?thesis using v by (simp add: worker_policy_def)
  next
    case (Some x)
    then have "nonneg_finite x" using assms by (simp add: nonneg_finite_def fle_def)
    with Some n show ?thesis
      by (simp add: worker_policy_def make_baseline_policy_def DEFAULT_BASELINE_POLICY_def finite_nonnegative_float
          valid_policy_def)
  qed
qed

text \<open>The only ways in which a start fails, and what a start that succeeds has built.\<close>

definition startup_fault :: "startup_world \<Rightarrow> app_config \<Rightarrow> startup_error \<Rightarrow> bool" where
  "startup_fault w c e \<longleftrightarrow>
     (case e of
        IndexFailed x \<Rightarrow>
          ac_telemetry c = lit ''rcaeval'' \<and>
          make_rcaeval_source (sw_split_dir w (the (ac_re2_root c))) (ac_re2_split c) None None (sw_case_ids w) = Inl x
      | DeadlineOverflow \<Rightarrow>
          ac_telemetry c = lit ''prometheus'' \<and> timedelta_us (ac_prom_timeout_seconds c) = None
      | SourceRejected \<Rightarrow>
          ac_telemetry c = lit ''prometheus'' \<and>
          (case timedelta_us (ac_prom_timeout_seconds c) of None \<Rightarrow> False | Some us \<Rightarrow> us \<le> 0)
      | _ \<Rightarrow> False)"

definition configured_llm :: "app_config \<Rightarrow> llm_choice \<Rightarrow> bool" where
  "configured_llm c l \<longleftrightarrow>
     (case l of
        SmokeLlm \<Rightarrow> ac_llm_provider c = lit ''fake''
      | GeminiDeveloper key g \<Rightarrow> ac_gemini_api_key c = Some key \<and> gc_model g = ac_gemini_model c
      | GeminiVertex project location g \<Rightarrow>
          ac_gemini_project c = Some project \<and> location = ac_gemini_location c \<and> gc_model g = ac_gemini_model c)"

definition configured_telemetry :: "app_config \<Rightarrow> telemetry_choice \<Rightarrow> bool" where
  "configured_telemetry c t \<longleftrightarrow>
     (case t of
        NoTelemetry \<Rightarrow> ac_telemetry c = lit ''none''
      | RcaevalTelemetry src \<Rightarrow> ac_telemetry c = lit ''rcaeval''
      | PrometheusTelemetry src \<Rightarrow>
          ac_telemetry c = lit ''prometheus'' \<and> src_queries src = ac_prom_queries c \<and> 0 < src_deadline src \<and>
          Some (src_deadline src) = timedelta_us (ac_prom_timeout_seconds c))"

definition configured_store :: "app_config \<Rightarrow> store_choice \<Rightarrow> bool" where
  "configured_store c st \<longleftrightarrow> st = (case ac_database_url c of None \<Rightarrow> MemoryStore | Some u \<Rightarrow> PostgresStore u)"

definition configured_worker :: "app_config \<Rightarrow> (worker \<times> llm_choice) option \<Rightarrow> bool" where
  "configured_worker c wl \<longleftrightarrow>
     (case wl of
        None \<Rightarrow> \<not> ac_worker_enabled c
      | Some (wk, l) \<Rightarrow>
          ac_worker_enabled c \<and> configured_llm c l \<and> wk_max_attempts wk = 3 \<and> wk_lease wk = 30000000 \<and> valid_policy (wk_policy wk) \<and>
          bp_minimum_score (wk_policy wk) =
            (case ac_baseline_minimum_score c of None \<Rightarrow> bp_minimum_score DEFAULT_BASELINE_POLICY | Some x \<Rightarrow> x))"

lemma choice_literals [simp]:
  "lit ''fake'' \<noteq> lit ''developer''" "lit ''fake'' \<noteq> lit ''vertex''" "lit ''developer'' \<noteq> lit ''vertex''"
  "lit ''none'' \<noteq> lit ''rcaeval''" "lit ''none'' \<noteq> lit ''prometheus''" "lit ''rcaeval'' \<noteq> lit ''prometheus''"
  "lit ''memory'' \<noteq> lit ''postgres''"
  "lit ''fake'' = lit ''developer'' \<longleftrightarrow> False"
  by (simp_all add: lit_def)

lemma store_starts:
  assumes "valid_config c"
  shows "\<exists>st. build_uow_factory c = Inr st \<and> configured_store c st"
  using assms
  by (auto simp: build_uow_factory_def configured_store_def valid_config_def given_def required_def split: option.splits)

lemma llm_starts:
  assumes "valid_config c"
  shows "\<exists>l. build_llm_client c = Inr l \<and> configured_llm c l"
  using assms
  by (auto simp: build_llm_client_def configured_llm_def valid_config_def given_def required_def LLM_CHOICES_def
      make_gemini_client_def split: option.splits)

lemma worker_starts:
  assumes "valid_config c"
  shows "\<exists>wl g. build_worker c = Inr (wl, g) \<and> configured_worker c wl \<and>
    (case wl of None \<Rightarrow> True | Some (wk, _) \<Rightarrow> reachable wk (empty_store, g))"
proof (cases "ac_worker_enabled c")
  case True
  obtain p where p: "worker_policy c = Inr p" "valid_policy p" "bp_minimum_score p =
      (case ac_baseline_minimum_score c of None \<Rightarrow> bp_minimum_score DEFAULT_BASELINE_POLICY | Some x \<Rightarrow> x)"
    using policy_starts [of c] assms by (auto simp: valid_config_def)
  obtain l where l: "build_llm_client c = Inr l" "configured_llm c l" using llm_starts [OF assms] by blast
  let ?wk = "\<lparr>wk_worker_id = WORKER_ID, wk_lease = 30000000, wk_max_attempts = 3, wk_policy = p\<rparr>"
  obtain g where g: "make_worker ?wk empty_registry = Inr (?wk, g)" using server_worker_starts [of ?wk] by auto
  have "build_worker c = Inr (Some (?wk, l), g)" by (simp add: build_worker_def True p l g)
  with p l g True show ?thesis by (auto simp: configured_worker_def intro: reachable.start)
qed (simp add: build_worker_def configured_worker_def)

lemma trimmed_queries: "list_all trimmed qs \<Longrightarrow> map py_strip (filter (\<lambda>q. \<not> is_blank q) qs) = qs"
  by (induction qs) (auto simp: trimmed_not_blank, simp add: trimmed_def)

lemma telemetry_starts:
  assumes v: "valid_config c"
  shows "(\<exists>t. build_telemetry w c = Inr t \<and> configured_telemetry c t \<and> (\<forall>e. \<not> startup_fault w c e)) \<or>
    (\<exists>e. build_telemetry w c = Inl e \<and> startup_fault w c e \<and> (\<forall>e'. startup_fault w c e' \<longrightarrow> e' = e))"
proof -
  consider "ac_telemetry c = lit ''none''" | "ac_telemetry c = lit ''rcaeval''" | "ac_telemetry c = lit ''prometheus''"
    using v by (auto simp: valid_config_def TELEMETRY_CHOICES_def)
  then show ?thesis
  proof cases
    case 1
    then show ?thesis
      by (auto simp: build_telemetry_def configured_telemetry_def startup_fault_def split: startup_error.splits)
  next
    case 2
    then obtain root where r: "ac_re2_root c = Some root"
      using v by (auto simp: valid_config_def given_def split: option.splits)
    show ?thesis
      using 2 r
      by (cases "make_rcaeval_source (sw_split_dir w root) (ac_re2_split c) None None (sw_case_ids w)")
        (auto simp: build_telemetry_def configured_telemetry_def startup_fault_def required_def split: startup_error.splits)
  next
    case 3
    then obtain url where u: "ac_prom_url c = Some url"
      using v by (auto simp: valid_config_def given_def split: option.splits)
    have q: "ac_prom_queries c \<noteq> []" "1 \<le> ac_prom_step_seconds c"
      "map py_strip (filter (\<lambda>q. \<not> is_blank q) (ac_prom_queries c)) = ac_prom_queries c"
      using v 3 trimmed_queries by (auto simp: valid_config_def)
    show ?thesis
    proof (cases "timedelta_us (ac_prom_timeout_seconds c)")
      case None
      with 3 u show ?thesis
        by (auto simp: build_telemetry_def startup_fault_def required_def split: startup_error.splits)
    next
      case (Some us)
      have "\<not> isnan (duration_seconds us)" by (simp add: duration_seconds_def int_ratio_def)
      then have "fle (duration_seconds us) (fzero False) \<longleftrightarrow> us \<le> 0"
        using duration_positive [OF timedelta_us_less [OF Some]] by (auto simp: flt_def fle_def)
      with 3 u q Some show ?thesis
        by (auto simp: build_telemetry_def startup_fault_def required_def make_prometheus_source_def Let_def
            configured_telemetry_def split: startup_error.splits)
    qed
  qed
qed

lemma components_of_configuration:
  assumes "from_env env = Inr c"
  shows "(build_components w c = Inl e \<longleftrightarrow> startup_fault w c e) \<and>
    (case build_components w c of
       Inl _ \<Rightarrow> True
     | Inr sc \<Rightarrow>
         configured_store c (sc_store sc) \<and> configured_telemetry c (sc_telemetry sc) \<and> configured_worker c (sc_worker sc) \<and>
         map (map_prod id tenant_value) (api_tokens (sc_api sc)) = ac_tokens c \<and>
         api_max_attempts (sc_api sc) = DEFAULT_MAX_ATTEMPTS \<and>
         (case sc_worker sc of None \<Rightarrow> True | Some (wk, _) \<Rightarrow> reachable wk (empty_store, sc_metrics sc)))"
proof -
  note v = accepted_configuration [OF assms]
  obtain st where st: "build_uow_factory c = Inr st" "configured_store c st" using store_starts [OF v] by blast
  obtain wl g where wl: "build_worker c = Inr (wl, g)" "configured_worker c wl"
    "case wl of None \<Rightarrow> True | Some (wk, _) \<Rightarrow> reachable wk (empty_store, g)"
    using worker_starts [OF v] by blast
  have tokens: "token_registry_from_mapping (ac_tokens c) = Inr (map (map_prod id TenantId) (ac_tokens c))"
    using v by (intro registry_of_tokens) (simp add: valid_config_def)
  have shape: "build_components w c = (case build_telemetry w c of Inl e \<Rightarrow> Inl e | Inr t \<Rightarrow>
      Inr \<lparr>sc_api = \<lparr>api_tokens = map (map_prod id TenantId) (ac_tokens c), api_max_attempts = DEFAULT_MAX_ATTEMPTS,
             api_recursion_limit = sw_recursion_limit w\<rparr>,
           sc_worker = wl, sc_store = st, sc_telemetry = t, sc_metrics = g\<rparr>)"
    by (simp add: build_components_def st wl tokens split: sum.split)
  have tenants: "map (map_prod id tenant_value \<circ> map_prod id TenantId) ts = ts" for ts :: "(pystr \<times> pystr) list"
    by (induction ts) auto
  from telemetry_starts [OF v, of w] show ?thesis
  proof (elim disjE exE conjE)
    fix t assume t: "build_telemetry w c = Inr t" "configured_telemetry c t" "\<forall>e. \<not> startup_fault w c e"
    show ?thesis
    proof (cases wl)
      case None
      then show ?thesis using st(2) wl(2) t(2,3) by (simp add: shape t(1) tenants)
    next
      case (Some p)
      then show ?thesis using st(2) wl(2,3) t(2,3) by (cases p) (simp add: shape t(1) tenants)
    qed
  next
    fix e' assume e: "build_telemetry w c = Inl e'" "startup_fault w c e'" "\<forall>e. startup_fault w c e \<longrightarrow> e = e'"
    have "e' = e \<longleftrightarrow> startup_fault w c e" using e(2) e(3) [THEN spec, of e] by blast
    then show ?thesis by (simp add: shape e(1))
  qed
qed

text \<open>
  C39. A configuration that is accepted starts: no assertion of the composition fails and no client,
  token registry, policy or worker is refused; the components are the configured ones, and the
  worker over the empty store is a reachable state of the system. The only faults are an index that
  cannot be built from the dataset directory, and a query timeout, accepted by the configuration,
  that overflows the duration type or rounds to zero microseconds.
\<close>

theorem accepted_configurations_start:
  assumes "from_env env = Inr c"
  shows "(build_components w c = Inl e \<longleftrightarrow> startup_fault w c e) \<and>
    (case build_components w c of
       Inl _ \<Rightarrow> True
     | Inr sc \<Rightarrow>
         configured_store c (sc_store sc) \<and> configured_telemetry c (sc_telemetry sc) \<and> configured_worker c (sc_worker sc) \<and>
         map (map_prod id tenant_value) (api_tokens (sc_api sc)) = ac_tokens c \<and>
         api_max_attempts (sc_api sc) = DEFAULT_MAX_ATTEMPTS \<and>
         (case sc_worker sc of None \<Rightarrow> True | Some (wk, _) \<Rightarrow> reachable wk (empty_store, sc_metrics sc)))"
  by (rule components_of_configuration [OF assms])

definition unbounded_environment :: environment where
  "unbounded_environment = sample_environment(lit ''IEC_TELEMETRY'' \<mapsto> lit ''prometheus'',
     lit ''IEC_PROM_URL'' \<mapsto> lit ''p'', lit ''IEC_PROM_QUERIES'' \<mapsto> lit ''up'',
     lit ''IEC_PROM_TIMEOUT_SECONDS'' \<mapsto> lit ''inf'')"

definition sample_startup :: startup_world where
  "sample_startup = \<lparr>sw_split_dir = (\<lambda>_. sealed_root), sw_case_ids = (\<lambda>n. CaseId (of_nat n)), sw_recursion_limit = 1000\<rparr>"

lemma unbounded_texts:
  "py_strip (lit ''prometheus'') = lit ''prometheus''" "py_strip (lit ''p'') = lit ''p''"
  "py_strip (lit ''up'') = lit ''up''" "py_strip (lit ''inf'') = lit ''inf''" "py_split 59 (lit ''up'') = [lit ''up'']"
  "py_strip [] = []"
  by (simp_all add: lit_def py_strip_def py_isspace_def)

lemma unbounded_timeout: "py_float_str (lit ''inf'') = Some (finf False)" "flt (fzero False) (finf False)"
  by (simp_all add: py_float_str_def num_strip_def num_char_def ascii_space_def signed_def lit_def ascii_lower_def
      Let_def flt_def finf_def fval_def fmag_def fsig_def fexpo_def isnan_def fzero_def power_int_def)

lemma unbounded_from_env:
  "\<exists>c. from_env unbounded_environment = Inr c \<and> ac_telemetry c = lit ''prometheus'' \<and> ac_prom_timeout_seconds c = finf False"
  by (simp add: from_env_def env_require_def env_choice_def required_if_def parse_positive_int_def parse_positive_float_def
      parse_port_def parse_bool_def parse_optional_nonnegative_float_def env_get_def sample_environment_def
      unbounded_environment_def parse_queries_def QUERY_SEPARATOR_def unbounded_texts unbounded_timeout
      sample_texts sample_trimmed sample_numbers sample_cells sample_tokens_parse Let_def
      PERSISTENCE_CHOICES_def LLM_CHOICES_def TELEMETRY_CHOICES_def)

theorem accepted_configurations_start_witness:
  "\<exists>c. from_env unbounded_environment = Inr c \<and> build_components sample_startup c = Inl DeadlineOverflow"
proof -
  obtain c where c: "from_env unbounded_environment = Inr c" "ac_telemetry c = lit ''prometheus''"
    "ac_prom_timeout_seconds c = finf False" using unbounded_from_env by blast
  have "timedelta_us (finf False) = None" by (simp add: timedelta_us_def)
  with accepted_configurations_start [OF c(1), of sample_startup DeadlineOverflow] c show ?thesis
    by (auto simp: startup_fault_def)
qed

end
