(* ===== verification/Service.thy ===== *)
theory Service
  imports Server
begin

text \<open>
  The running service: every state the process passes through, whatever requests and worker
  iterations it serves, is a reachable state of the system with a job for every investigation, so
  the answers of the report endpoint and the progress of the worker loop follow from the invariants
  of the store.
\<close>

section \<open>Investigations have jobs\<close>

definition staffed :: "tables \<Rightarrow> bool" where
  "staffed s \<longleftrightarrow> (\<forall>u i. map_of (t_investigations s) u = Some i \<longrightarrow>
     (\<exists>v j. map_of (t_jobs s) v = Some j \<and> investigation_uuid (job_investigation_id j) = u))"

definition rows_kept :: "tables \<Rightarrow> tables \<Rightarrow> bool" where
  "rows_kept s s' \<longleftrightarrow> (\<forall>u i. map_of (t_investigations s) u = Some i \<longrightarrow>
     (\<exists>i'. map_of (t_investigations s') u = Some i' \<and> inv_tenant i' = inv_tenant i))"

lemma rows_kept_refl [simp, intro]: "rows_kept s s"
  by (simp add: rows_kept_def)

lemma rows_kept_trans: "rows_kept s s1 \<Longrightarrow> rows_kept s1 s2 \<Longrightarrow> rows_kept s s2"
  by (fastforce simp: rows_kept_def)

lemma effect_keeps:
  assumes ok: "system_ok m s" and job: "job \<in> snd ` set (t_jobs s)" and ir: "investigation_of s job = Some ir"
    and eff: "effect s s' job ir js st"
  shows "rows_kept s s' \<and> (staffed s \<longrightarrow> staffed s')"
proof -
  let ?ju = "job_uuid (job_job_id job)" and ?u = "investigation_uuid (job_investigation_id job)"
  note row = row_of_job [OF system_okD(1) [OF ok] job]
  have irow: "map_of (t_investigations s) ?u = Some ir" using ir by (simp add: investigation_of_def)
  obtain j' where j': "map_of (t_jobs s') = (map_of (t_jobs s))(?ju \<mapsto> j')" "job_investigation_id j' = job_investigation_id job"
    using eff by (auto simp: effect_def update_conv')
  obtain i' where i': "map_of (t_investigations s') = (map_of (t_investigations s))(?u \<mapsto> i')" "inv_tenant i' = inv_tenant ir"
    using eff by (auto simp: effect_def update_conv')
  have "\<exists>v j. map_of (t_jobs s') v = Some j \<and> investigation_uuid (job_investigation_id j) = u"
    if st: "staffed s" and u: "map_of (t_investigations s') u = Some i" for u i
  proof -
    have "\<exists>i. map_of (t_investigations s) u = Some i" using u irow by (cases "u = ?u") (simp_all add: i')
    then obtain v j where j: "map_of (t_jobs s) v = Some j" "investigation_uuid (job_investigation_id j) = u"
      using st by (auto simp: staffed_def)
    show ?thesis
    proof (cases "v = ?ju")
      case True
      then have "investigation_uuid (job_investigation_id j') = u" using j row j'(2) by simp
      then show ?thesis by (intro exI [of _ ?ju] exI [of _ j']) (simp add: j'(1))
    next
      case False
      then show ?thesis using j by (intro exI [of _ v] exI [of _ j]) (simp add: j'(1))
    qed
  qed
  moreover have "rows_kept s s'" using irow by (auto simp: rows_kept_def i')
  ultimately show ?thesis by (auto simp: staffed_def)
qed

lemma run_once_keeps:
  assumes ok: "system_ok (wk_max_attempts wk) s" and g: "metrics_ok g" and wk: "\<not> is_blank (wk_worker_id wk)"
    and m: "1 \<le> wk_max_attempts wk" and cal: "in_calendar (rr_claim_now rr + wk_lease wk)"
    and run: "run_once wk pt rr g s = (r, s', g')"
  shows "rows_kept s s' \<and> (staffed s \<longrightarrow> staffed s')"
  using run_once_cases [OF ok g wk cal, of pt]
proof (elim disjE exE conjE)
  fix job ir s1 g1
  assume k: "job \<in> snd ` set (t_jobs s)" "claimable job (rr_claim_now rr)" "investigation_of s job = Some ir"
    "run_once wk pt rr g s = (Inr True, s1, g1)" "run_end wk pt rr (receipt wk rr job) ir (started_store wk rr job ir s) s1"
  obtain js st where "effect s s1 job ir js st"
    using run_end_effect [OF ok refl m k(1) claimable_queued [OF ok k(1,2)] k(3) wk k(5)] by blast
  from effect_keeps [OF ok k(1,3) this] k(4) run show ?thesis by simp
qed (use run in simp)

lemma create_keeps:
  assumes ok: "store_ok s" and u: "u \<notin> fst ` set (t_investigations s)" and st: "staffed s"
  shows "staffed (snd (create_investigation n now u j cmd s))"
proof (cases "create_investigation n now u j cmd s")
  case (Pair r s')
  show ?thesis
  proof (cases r)
    case (Inl e)
    then have "s' = s" using Pair by (auto simp: create_investigation_def split: sum.splits prod.splits)
    with Pair st show ?thesis by simp
  next
    case (Inr i)
    consider "s' = s" | "j \<notin> fst ` set (t_jobs s)" "s' = with_new_investigation n now u j cmd s"
      using create_cases [OF ok u Pair [unfolded Inr]] by blast
    then show ?thesis
    proof cases
      case 2
      have tabs: "map_of (t_investigations s') = (map_of (t_investigations s))(u \<mapsto> pending_investigation now u cmd)"
          "map_of (t_jobs s') = (map_of (t_jobs s))(j \<mapsto> queued_job n now u j cmd)"
        by (simp_all add: 2 with_new_investigation_def audit_append_def map_of_snoc u 2(1) del: map_of_append)
      have absent: "map_of (t_jobs s) j = None" using 2(1) by (simp add: map_of_eq_None_iff)
      have new: "investigation_uuid (job_investigation_id (queued_job n now u j cmd)) = u" by (simp add: queued_job_def)
      have "\<exists>v k. map_of (t_jobs s') v = Some k \<and> investigation_uuid (job_investigation_id k) = w"
        if w: "map_of (t_investigations s') w = Some i" for w i
      proof (cases "w = u")
        case True
        then show ?thesis using new by (intro exI [of _ j] exI [of _ "queued_job n now u j cmd"]) (simp add: tabs)
      next
        case False
        then obtain v k where "map_of (t_jobs s) v = Some k" "investigation_uuid (job_investigation_id k) = w"
          using w st by (auto simp: tabs staffed_def)
        then show ?thesis using absent by (intro exI [of _ v] exI [of _ k]) (auto simp: tabs)
      qed
      then show ?thesis by (simp add: Pair staffed_def)
    qed (use Pair st in simp)
  qed
qed

section \<open>States of the process\<close>

lemma handle_effect:
  "snd (handle a g r s) = s \<or>
   (\<exists>authorization key body cr cmd. r = Create authorization key body cr \<and>
      snd (handle a g r s) =
        snd (create_investigation (api_max_attempts a) (cr_now cr) (cr_investigation cr) (cr_job cr) cmd s))"
proof (cases r)
  case (Create authorization key body cr)
  show ?thesis
  proof (cases "create_request (api_tokens a) authorization key body")
    case (Inr cmd)
    have "snd (handle a g r s) =
        snd (create_investigation (api_max_attempts a) (cr_now cr) (cr_investigation cr) (cr_job cr) cmd s)"
      by (simp add: Create create_handler_def Inr split: prod.split sum.split)
    with Create show ?thesis by blast
  qed (simp add: Create create_handler_def)
qed simp_all

lemma served_states:
  assumes "served sc st" "sc_worker sc = Some (wk, l)" "1 \<le> wk_max_attempts wk"
    and "reachable wk (empty_store, sc_metrics sc)"
  shows "reachable wk st \<and> staffed (fst st)"
  using assms(1)
proof (induction rule: served.induct)
  case start
  show ?case using assms(4) by (simp add: staffed_def empty_store_def)
next
  case (step s g e)
  then have r: "reachable wk (s, g)" "staffed s" by simp_all
  note ok = reachable_ok [OF r(1) assms(3)]
  show ?case
  proof (cases e)
    case (HttpRequest q)
    show ?thesis
      using handle_effect [of "sc_api sc" g q s]
    proof (elim disjE exE conjE)
      fix authorization key body cr cmd
      assume q: "q = Create authorization key body cr"
        and s': "snd (handle (sc_api sc) g q s) =
          snd (create_investigation (api_max_attempts (sc_api sc)) (cr_now cr) (cr_investigation cr) (cr_job cr) cmd s)"
      have u: "cr_investigation cr \<notin> fst ` set (t_investigations s)" using step.hyps(2) by (simp add: HttpRequest q)
      have "store_ok s" using ok by (simp add: system_ok_def)
      from reachable.create [OF r(1) u] create_keeps [OF this u r(2)]
      show ?thesis unfolding HttpRequest server_step.simps s' by simp
    qed (use r HttpRequest in simp)
  next
    case (WorkerIteration pt rr)
    have cal: "in_calendar (rr_claim_now rr + wk_lease wk)"
      using step.hyps(2) assms(2) by (simp add: WorkerIteration)
    obtain x s' g' where run: "run_once wk pt rr g s = (x, s', g')" by (metis surj_pair)
    then have "server_step sc e (s, g) = (s', g')"
      by (simp add: WorkerIteration assms(2) loop_iteration_def split: sum.split)
    moreover have "staffed s'" using run_once_keeps [OF _ _ _ assms(3) cal run] ok r(2) by simp
    ultimately show ?thesis using reachable.run [OF r(1) cal run] by simp
  qed
qed

section \<open>The worker loop\<close>

lemma worker_loop_runs: "snd (run_worker_loop wk es (s, g)) = run_many wk es g s"
proof (induction es arbitrary: s g)
  case (Cons e es)
  obtain pt rr where e: "e = (pt, rr)" by (cases e)
  obtain r s1 g1 where run: "run_once wk pt rr g s = (r, s1, g1)" by (metis surj_pair)
  show ?case using Cons.IH [of s1 g1]
    by (cases r) (simp_all add: e run loop_iteration_def prod.case_eq_if)
qed simp

lemma run_many_keeps:
  assumes "system_ok (wk_max_attempts wk) s" "metrics_ok g" "\<not> is_blank (wk_worker_id wk)" "1 \<le> wk_max_attempts wk"
    and "\<forall>(pt, rr) \<in> set es. in_calendar (rr_claim_now rr + wk_lease wk)"
    and "run_many wk es g s = (s', g')"
  shows "rows_kept s s' \<and> (staffed s \<longrightarrow> staffed s')"
  using assms
proof (induction es arbitrary: s g)
  case (Cons e es)
  obtain pt rr where e: "e = (pt, rr)" by (cases e)
  obtain r s1 g1 where run: "run_once wk pt rr g s = (r, s1, g1)" by (metis surj_pair)
  have cal: "in_calendar (rr_claim_now rr + wk_lease wk)" using Cons.prems(5) by (simp add: e)
  have ok: "system_ok (wk_max_attempts wk) s1 \<and> metrics_ok g1"
    using run_once_ok [OF Cons.prems(1-4) cal run] by blast
  have "rows_kept s s1 \<and> (staffed s \<longrightarrow> staffed s1)" by (rule run_once_keeps [OF Cons.prems(1-4) cal run])
  moreover have "rows_kept s1 s' \<and> (staffed s1 \<longrightarrow> staffed s')"
    using Cons.IH [of s1 g1] ok Cons.prems by (simp add: e run)
  ultimately show ?case using rows_kept_trans by blast
qed simp

section \<open>Answers\<close>

lemma own_row_iff:
  "own_row t raw s = Some r \<longleftrightarrow>
     (\<exists>u. parse_uuid raw = Some u \<and> get_investigation_status t (InvestigationId u) s = Inr r)"
  by (auto simp: own_row_def status_of_row split: option.splits)

definition not_ready_response :: response where
  "not_ready_response = Response 409 (CodeContent (lit ''report_not_ready''))"

lemma report_answer:
  assumes "system_ok m s" "authenticate (api_tokens a) authorization = Inr t" "own_row t raw s = Some r"
  shows "fst (handle a g (Report authorization raw) s) = not_ready_response \<longleftrightarrow> inv_status r \<noteq> INV_SUCCEEDED"
proof -
  obtain u where u: "parse_uuid raw = Some u" "get_investigation_status t (InvestigationId u) s = Inr r"
    using assms(3) by (auto simp: own_row_iff)
  have iff: "(\<exists>p. get_report t (InvestigationId u) s = Inr p) \<longleftrightarrow> inv_status r = INV_SUCCEEDED"
    using report_iff_succeeded [OF assms(1), of t "InvestigationId u"] u(2) by auto
  have decode: "decode_json n x = Inl e \<Longrightarrow> e = Unhandled" for n x e by (auto simp: decode_json_def split: sum.splits)
  show ?thesis
  proof (cases "get_report t (InvestigationId u) s")
    case (Inr p)
    then have "inv_status r = INV_SUCCEEDED" using iff by blast
    moreover have "fst (handle a g (Report authorization raw) s) \<noteq> not_ready_response"
      by (auto simp: report_handler_def assms(2) investigation_id_of_def u(1) application_step_def Inr respond_def
          not_ready_response_def decode_optional_def rbind_def split: sum.splits option.splits dest!: decode)
    ultimately show ?thesis by blast
  next
    case (Inl e)
    then have "inv_status r \<noteq> INV_SUCCEEDED" using iff by auto
    moreover have "e = ReportNotReadyError"
      using Inl u(2) by (auto simp: get_report_def get_investigation_status_def split: sum.splits)
    ultimately show ?thesis
      by (simp add: report_handler_def assms(2) investigation_id_of_def u(1) application_step_def Inl respond_def
          not_ready_response_def lit_def)
  qed
qed

lemma decided_rows:
  assumes "system_ok m s" "pending_work m s = 0" "staffed s" "map_of (t_investigations s) u = Some i"
  shows "inv_status i = INV_SUCCEEDED \<or> inv_status i = INV_FAILED"
proof -
  obtain v j where j: "map_of (t_jobs s) v = Some j" "investigation_uuid (job_investigation_id j) = u"
    using assms(3,4) by (auto simp: staffed_def)
  from system_okD(2) [OF assms(1) j(1)] have match: "job_matches m j (inv_status i)"
    using j(2) assms(4) by (auto simp: investigation_of_def)
  have "job_work m j = 0"
    using assms(2) map_of_SomeD [OF j(1)] by (force simp: pending_work_def)
  with match show ?thesis by (auto simp: job_work_def)
qed

lemma started_worker:
  assumes "from_env env = Inr c" "build_components w c = Inr sc" "sc_worker sc = Some (wk, l)"
  shows "1 \<le> wk_max_attempts wk \<and> reachable wk (empty_store, sc_metrics sc)"
  using components_of_configuration [OF assms(1), of w] assms(2,3)
  by (auto simp: configured_worker_def)

text \<open>
  C12. The service decides every investigation: started from an accepted configuration with a worker,
  after any requests and any worker iterations, as many further iterations of the loop as the queued
  jobs have attempts left (whatever the telemetry and the model answer in each of them) leave every
  investigation of an authenticated tenant succeeded or failed; its status request is answered with that
  status, and its report request with 409 exactly when it failed.
\<close>

theorem service_decides_investigations:
  assumes "from_env env = Inr c" "build_components w c = Inr sc" "sc_worker sc = Some (wk, l)" "served sc (s, g)"
    and "list_all (\<lambda>(pt, rr). in_calendar (rr_claim_now rr + wk_lease wk) \<and> all_due s (rr_claim_now rr)) es"
    and "pending_work (wk_max_attempts wk) s \<le> length es"
    and "run_worker_loop wk es (s, g) = (sleeps, s', g')"
    and "authenticate (api_tokens (sc_api sc)) authorization = Inr t" "own_row t raw s \<noteq> None"
  shows "\<exists>r. own_row t raw s' = Some r \<and> (inv_status r = INV_SUCCEEDED \<or> inv_status r = INV_FAILED) \<and>
    fst (handle (sc_api sc) g' (Status authorization raw) s') =
      Response 200 (StatusContent (uuid_str (investigation_uuid (inv_investigation_id r)))
        (investigation_status_value (inv_status r))) \<and>
    (fst (handle (sc_api sc) g' (Report authorization raw) s') = not_ready_response \<longleftrightarrow> inv_status r = INV_FAILED)"
proof -
  let ?m = "wk_max_attempts wk"
  have m: "1 \<le> ?m" and start: "reachable wk (empty_store, sc_metrics sc)"
    using started_worker [OF assms(1-3)] by simp_all
  from served_states [OF assms(4,3) m start] have reach: "reachable wk (s, g)" and st: "staffed s" by simp_all
  have ok: "system_ok ?m s" "metrics_ok g" "\<not> is_blank (wk_worker_id wk)" using reachable_ok [OF reach m] by simp_all
  have es: "\<forall>(pt, rr) \<in> set es. in_calendar (rr_claim_now rr + wk_lease wk) \<and> all_due s (rr_claim_now rr)"
    and cal: "\<forall>(pt, rr) \<in> set es. in_calendar (rr_claim_now rr + wk_lease wk)"
    using assms(5) by (auto simp: list_all_iff)
  have run: "run_many wk es g s = (s', g')" using worker_loop_runs [of wk es s g] assms(7) by simp
  have keep: "rows_kept s s'" "staffed s'" using run_many_keeps [OF ok m cal run] st by blast+
  have ok': "system_ok ?m s'" "pending_work ?m s' = 0" using run_many_ok [OF ok m es run] assms(6) by auto
  obtain u where u: "parse_uuid raw = Some u" and "get_investigation_status t (InvestigationId u) s \<noteq> Inl InvestigationNotFoundError"
    using assms(9) by (auto simp: own_row_def status_of_row split: option.splits if_splits)
  then obtain r0 where "map_of (t_investigations s) u = Some r0" "inv_tenant r0 = t"
    by (auto simp: status_of_row split: option.splits if_splits)
  then obtain r where r: "map_of (t_investigations s') u = Some r" "inv_tenant r = t"
    using keep(1) by (auto simp: rows_kept_def)
  have own: "own_row t raw s' = Some r" by (simp add: own_row_def u r)
  have decided: "inv_status r = INV_SUCCEEDED \<or> inv_status r = INV_FAILED"
    using decided_rows [OF ok' keep(2) r(1)] .
  have "fst (handle (sc_api sc) g' (Status authorization raw) s') =
      Response 200 (StatusContent (uuid_str (investigation_uuid (inv_investigation_id r))) (investigation_status_value (inv_status r)))"
    using u r by (simp add: status_handler_def assms(8) investigation_id_of_def status_of_row application_step_def respond_def)
  with own decided report_answer [OF ok'(1) assms(8) own, of g'] show ?thesis by auto
qed

section \<open>A service at work\<close>

lemma sample_configuration:
  "\<exists>c. from_env sample_environment = Inr c \<and> ac_telemetry c = lit ''none'' \<and> ac_worker_enabled c \<and>
     ac_tokens c = [(lit ''s3cret'', lit ''acme''), (lit ''other'', lit ''globex'')]"
  by (simp add: from_env_def env_require_def env_choice_def required_if_def parse_positive_int_def parse_positive_float_def
      parse_port_def parse_bool_def parse_optional_nonnegative_float_def env_get_def sample_environment_def
      sample_texts sample_trimmed sample_numbers sample_cells sample_tokens_parse Let_def
      PERSISTENCE_CHOICES_def LLM_CHOICES_def TELEMETRY_CHOICES_def)

lemma sample_service:
  "\<exists>c sc wk l. from_env sample_environment = Inr c \<and> build_components sample_startup c = Inr sc \<and>
     sc_worker sc = Some (wk, l) \<and> wk_max_attempts wk = 3 \<and> wk_lease wk = 30000000 \<and>
     authenticate (api_tokens (sc_api sc)) (Some (lit ''Bearer s3cret'')) = Inr sample_tenant \<and> api_max_attempts (sc_api sc) = 3"
proof -
  obtain c where c: "from_env sample_environment = Inr c" "ac_telemetry c = lit ''none''" "ac_worker_enabled c"
    "ac_tokens c = [(lit ''s3cret'', lit ''acme''), (lit ''other'', lit ''globex'')]" using sample_configuration by blast
  note comps = components_of_configuration [OF c(1), of sample_startup]
  have "\<not> startup_fault sample_startup c e" for e
    using c(2) by (auto simp: startup_fault_def split: startup_error.splits)
  then obtain sc where sc: "build_components sample_startup c = Inr sc"
    using comps by (cases "build_components sample_startup c") auto
  obtain wk l where wk: "sc_worker sc = Some (wk, l)" "wk_max_attempts wk = 3" "wk_lease wk = 30000000"
    using comps [of undefined] sc c(3) by (cases "sc_worker sc") (auto simp: configured_worker_def)
  have "map (map_prod id tenant_value) (api_tokens (sc_api sc)) = [(lit ''s3cret'', lit ''acme''), (lit ''other'', lit ''globex'')]"
    "api_max_attempts (sc_api sc) = 3"
    using comps [of undefined] sc c(4) by (simp_all add: DEFAULT_MAX_ATTEMPTS_def)
  moreover from this(1) have "api_tokens (sc_api sc) = [(lit ''s3cret'', TenantId (lit ''acme'')), (lit ''other'', TenantId (lit ''globex''))]"
    by (auto simp: map_eq_Cons_conv tenant_id.expand)
  then have "authenticate (api_tokens (sc_api sc)) (Some (lit ''Bearer s3cret'')) = Inr sample_tenant"
    by (simp add: authenticate_def tenant_for_def is_ascii_def lit_def py_strip_def py_isspace_def sample_tenant_def)
  ultimately show ?thesis using c(1) sc wk by blast
qed

lemma sample_path: "parse_uuid (lit ''00000000000000000000000000000001'') = Some 1"
  by code_simp

abbreviation sample_creation_request :: request where
  "sample_creation_request \<equiv>
     Create (Some (lit ''Bearer s3cret'')) (Some (lit ''k1'')) sample_body (posted_readings 1)"

lemma sample_served:
  assumes "authenticate (api_tokens (sc_api sc)) (Some (lit ''Bearer s3cret'')) = Inr sample_tenant"
    "api_max_attempts (sc_api sc) = 3"
  shows "served sc (sample_system, sc_metrics sc)"
proof -
  have auth: "authenticate (api_tokens (sc_api sc)) (Some (lit ''Bearer s3cret'')) =
      authenticate sample_tokens (Some (lit ''Bearer s3cret''))"
    by (simp add: assms(1) sample_authenticates)
  have "create_request (api_tokens (sc_api sc)) (Some (lit ''Bearer s3cret'')) key body =
      create_request sample_tokens (Some (lit ''Bearer s3cret'')) key body" for key body
    unfolding create_request_def auth ..
  then have "create_request (api_tokens (sc_api sc)) (Some (lit ''Bearer s3cret'')) (Some (lit ''k1'')) sample_body =
      Inr sample_command" by (simp add: sample_request)
  then have "server_step sc (HttpRequest sample_creation_request) (empty_store, sc_metrics sc) = (sample_system, sc_metrics sc)"
    using sample_creation by (simp add: create_handler_def posted_readings_def assms(2) sample_system_def)
  moreover have "event_ok sc (HttpRequest sample_creation_request) empty_store"
    by (simp add: posted_readings_def empty_store_def)
  ultimately show ?thesis using served.step [OF served.start] by metis
qed

theorem service_decides_investigations_witness:
  "\<exists>c sc wk l sleeps s' g' r. from_env sample_environment = Inr c \<and> build_components sample_startup c = Inr sc \<and>
     sc_worker sc = Some (wk, l) \<and> served sc (sample_system, sc_metrics sc) \<and>
     run_worker_loop wk (replicate 3 (sample_ports, sample_readings)) (sample_system, sc_metrics sc) = (sleeps, s', g') \<and>
     own_row sample_tenant (lit ''00000000000000000000000000000001'') s' = Some r \<and>
     (inv_status r = INV_SUCCEEDED \<or> inv_status r = INV_FAILED)"
proof -
  obtain c sc wk l where c: "from_env sample_environment = Inr c" "build_components sample_startup c = Inr sc"
    "sc_worker sc = Some (wk, l)" "wk_max_attempts wk = 3" "wk_lease wk = 30000000"
    "authenticate (api_tokens (sc_api sc)) (Some (lit ''Bearer s3cret'')) = Inr sample_tenant" "api_max_attempts (sc_api sc) = 3"
    using sample_service by blast
  note start = sample_served [OF c(6,7)]
  let ?es = "replicate 3 (sample_ports, sample_readings)"
  have due: "list_all (\<lambda>(pt, rr). in_calendar (rr_claim_now rr + wk_lease wk) \<and> all_due sample_system (rr_claim_now rr)) ?es"
    by (simp add: list_all_iff c(5) all_due_def sample_system_def with_new_investigation_def audit_append_def empty_store_def
        queued_job_def sample_readings_def in_calendar_def min_instant_def max_instant_def)
  have work: "pending_work (wk_max_attempts wk) sample_system \<le> length ?es"
    by (simp add: pending_work_def sample_system_def with_new_investigation_def audit_append_def empty_store_def
        job_work_def queued_job_def c(4))
  have row: "own_row sample_tenant (lit ''00000000000000000000000000000001'') sample_system \<noteq> None"
    by (simp add: own_row_def sample_path sample_system_def with_new_investigation_def audit_append_def empty_store_def
        pending_investigation_def sample_command_def)
  obtain sleeps s' g' where run: "run_worker_loop wk ?es (sample_system, sc_metrics sc) = (sleeps, s', g')"
    by (metis surj_pair)
  from service_decides_investigations [OF c(1-3) start due work run c(6) row] c(1-3) start run show ?thesis by blast
qed

end
