(* ===== verification/Spec2Isabelle.thy ===== *)
theory Spec2Isabelle
  imports Change_Serialization Unit_Of_Work Harness Rcaeval_Manifest Service
begin

text \<open>
  Incident Evidence Compiler: a verification development of the Python package
  \<^verbatim>\<open>src/incident_evidence_compiler\<close>.

  \<^bold>\<open>The program.\<close> A tenant posts an investigation of an incident. The control plane stores it with
  a queued job; a worker claims the job, loads the metric signals of the incident window from a
  telemetry source, ranks them by a robust median shift (or abstains), compiles the ranking into an
  evidence ledger whose entries are bound to their content by SHA-256, asks a language model for
  hypotheses over an allow-list of signals, parses the untrusted answer, verifies the hypotheses
  against the ledger with three truth values, and stores the canonical JSON of the report. An
  evaluation harness runs the same pipeline over the cases of a public dataset, whose labels stay in a
  separate file.

  \<^bold>\<open>Theories and files.\<close>

  \<^item> \<^verbatim>\<open>Prelude\<close>: sums as results, sequencing, lists and maps. \<^verbatim>\<open>Float64\<close>, \<^verbatim>\<open>Float_Repr\<close>,
    \<^verbatim>\<open>Py_Numbers\<close>: Python's floats, their printing and their parsing. \<^verbatim>\<open>Sha256\<close>, \<^verbatim>\<open>Civil_Time\<close>,
    \<^verbatim>\<open>Timestamp_Order\<close>, \<^verbatim>\<open>Iso_Format\<close>, \<^verbatim>\<open>Canonical_Json\<close>, \<^verbatim>\<open>Json_Loads\<close>, \<^verbatim>\<open>Csv_Reader\<close>: the
    parts of the standard library the code relies on.
  \<^item> domain: \<^verbatim>\<open>Domain_Core\<close> (errors, identifiers, incidents, metrics), \<^verbatim>\<open>Baseline\<close>,
    \<^verbatim>\<open>Evidence_Parsing\<close>, \<^verbatim>\<open>Content_Id\<close>, \<^verbatim>\<open>Evidence_Ledger\<close>, \<^verbatim>\<open>Evidence_Compile\<close> (the package
    \<^verbatim>\<open>domain/evidence\<close>), \<^verbatim>\<open>Hypotheses\<close>, \<^verbatim>\<open>Verifier\<close>, \<^verbatim>\<open>Change_Ledger\<close>, \<^verbatim>\<open>Change_Verifier\<close>, and
    \<^verbatim>\<open>Serialization\<close>, \<^verbatim>\<open>Serialization_Ledger\<close>, \<^verbatim>\<open>Serialization_Verification\<close>,
    \<^verbatim>\<open>Change_Serialization\<close> (\<^verbatim>\<open>domain/serialization.py\<close>).
  \<^item> persistence: \<^verbatim>\<open>Persistence\<close> (records and in-memory repositories), \<^verbatim>\<open>Store_Laws\<close> (their contract),
    \<^verbatim>\<open>Unit_Of_Work\<close> (copy-on-write units of work as a step relation).
  \<^item> llm: \<^verbatim>\<open>Llm_Parsing\<close> (boundary and parser), \<^verbatim>\<open>Gemini_Client\<close> (\<^verbatim>\<open>llm/gemini.py\<close>),
    \<^verbatim>\<open>Smoke_Client\<close> (\<^verbatim>\<open>runtime/demo_llm.py\<close>).
  \<^item> application: \<^verbatim>\<open>Use_Cases\<close>, \<^verbatim>\<open>Worker\<close> (one run), \<^verbatim>\<open>Worker_Run\<close> (what a run does to the store, in
    Hoare triples), \<^verbatim>\<open>Worker_System\<close> (reachable systems), \<^verbatim>\<open>Worker_Properties\<close>.
  \<^item> observability: \<^verbatim>\<open>Metrics\<close>, \<^verbatim>\<open>Metrics_Text\<close>. api: \<^verbatim>\<open>Http_Api\<close>.
  \<^item> runtime: \<^verbatim>\<open>Runtime_Config\<close>, \<^verbatim>\<open>Demo_Telemetry\<close>, \<^verbatim>\<open>Prometheus\<close>, \<^verbatim>\<open>Server\<close> (composition, start and
    worker loop), \<^verbatim>\<open>Service\<close> (the running process).
  \<^item> evaluation: \<^verbatim>\<open>Case_Ids\<close>, \<^verbatim>\<open>Case_Loader\<close>, \<^verbatim>\<open>Case_Discovery\<close>, \<^verbatim>\<open>Rcaeval_Adapter\<close>,
    \<^verbatim>\<open>Rcaeval_Manifest\<close>, \<^verbatim>\<open>Baseline_Inputs\<close>, \<^verbatim>\<open>Scoring\<close>, \<^verbatim>\<open>Harness\<close>.

  \<^bold>\<open>How the code is modelled.\<close> A \<^verbatim>\<open>str\<close> is a list of code points, an \<^verbatim>\<open>int\<close> an integer, a
  \<^verbatim>\<open>float\<close> an IEEE binary64 number with exact rational rounding to even, a UUID a word of 128 bits, a
  dictionary an association list in insertion order, a \<^verbatim>\<open>datetime\<close> its microseconds and offset. A call
  that may raise returns a sum, the error on the left. Records are plain; a constructor with checks is a
  function \<open>make_\<close>..., and \<open>valid_\<close>... is what it establishes. Clock and identifier readings,
  the random case identifiers, the interpreter's recursion limit, the answers of HTTP and of the SDK, the
  outcome of file operations and the iteration order of sets are arguments, so every theorem holds
  for all of them. The telemetry source and the model client of the worker are its \<open>ports\<close>, with the
  outcomes the worker tells apart; \<open>telemetry_port\<close> and \<open>llm_port\<close> give those of the configured
  ones. A computation of the worker threads the store and the metrics and ends in a value or an
  exception; a unit of work is committed when its scope returns, metrics are not rolled back. Printing
  an integer of more than 4300 digits is not modelled, reading one is.

  \<^bold>\<open>Interfaces.\<close> The locales \<open>nominal_identifier\<close>, \<open>canonical_order\<close>, \<open>content_address\<close>,
  \<open>kleene_composition\<close>, \<open>evidence_verifier\<close> and \<open>tenant_table\<close> state what one component
  promises another: text identifiers, sorting into a canonical order, identifiers bound to content,
  the composition of verdicts, the grounding of a verdict, and tables that answer only to their
  tenant. Each is interpreted on the definitions of the components that provide it.

  \<^bold>\<open>What is shown.\<close> Domain: rankings are decisive and abstentions exact; validation of a ledger
  recomputes and never repairs; identifiers bind content up to an exhibited SHA-256 collision; verdicts are
  Kleene compositions, cite only the ledger and agree with it; canonical texts determine what they print.
  Persistence: calls isolate tenants and keep the tables well-formed, a claim takes the oldest due job and
  is exclusive for its lease, and interleaved units of work commit serially. LLM: the parser accepts exactly
  the documents over the allow-list, and its rejections are typed. Worker: a run is total, ends in a
  report or a stable code; every reachable store is consistent; a due queue drains within the attempts
  left, so nothing is retried for ever. API: authentication is exact, lookups leak nothing, tenants do not
  interfere, a repeated post is harmless. Runtime: accepted configurations are valid and start, with the
  two faults that remain; the demo source serves exactly the usable cases of whichever split it is
  pointed at, the last one under each identifier, and that without the guard of the splits; provider outcomes are those
  of the decisive attempt; and, over all of these, a started service decides every investigation.
  Evaluation: discovery, width check and CSV table are exact; the names of the case directories decide the
  order of the loaded cases and nothing else in them; the sidecar write is atomic, predictions are grounded,
  and only the pinned manifest is accepted.

  \<^bold>\<open>Bounds.\<close> No definition runs on fuel (the recursion limit of \<^verbatim>\<open>json.loads\<close> is the
  interpreter's, and an argument): loops are structural or have a measure (the rest of the
  text, the attempts left, the directories still on the stack). The numbers of steps in the liveness
  theorems are the attempts left of the queued jobs (\<open>pending_work\<close>).

  \<^bold>\<open>Not modelled.\<close> The PostgreSQL driver (\<^verbatim>\<open>persistence/postgres\<close>) and the migrations, whose
  meaning is that of SQL statements run by a database; the SDK behind \<^verbatim>\<open>llm/gemini.py\<close>, the urllib
  transport of \<^verbatim>\<open>PrometheusClient.over_http\<close>, uvicorn, logging and the framework's decoding of bodies,
  which are code outside the repository; cancellation of a task in the middle of a run, changes to files
  while they are read, and repository objects used after their unit of work has committed; file and field
  limits of the case loader too large for the platform, whose \<^verbatim>\<open>OverflowError\<close> or \<^verbatim>\<open>MemoryError\<close> escapes; the scripts
  under \<^verbatim>\<open>scripts\<close> and the editor hook, which are command lines over files and processes.
\<close>

end
